(* ===== verification/Rev_Prelude.thy ===== *)
theory Rev_Prelude
  imports Main "HOL-Library.Word"
begin

text \<open>
  Shared vocabulary of the development: the machine integer types of the C++ sources, the
  failures of the simulator as values, the result type and its sequencing, and the lemmas on
  words, bytes and lists that the component theories share.

  A C++ \<open>uintN_t\<close> is an \<open>N word\<close>; a cast to a wider unsigned type is \<^term>\<open>ucast\<close>, a cast of a
  signed value to a wider type is \<^term>\<open>scast\<close>. An index of a register or of an array is a
  \<^typ>\<open>nat\<close>.
\<close>

unbundle bit_operations_syntax

type_synonym u8 = "8 word"
type_synonym u16 = "16 word"
type_synonym u32 = "32 word"
type_synonym u64 = "64 word"
type_synonym u128 = "128 word"

named_theorems rev_simps \<open>unfolding rules of the small operations of the model\<close>
named_theorems rev_inv \<open>preservation of the well-formedness invariants\<close>


section \<open>Failures and results\<close>

text \<open>
  \<open>Fatal_\<dots>\<close> is a call of \<open>output->fatal\<close>, which ends the simulation, \<open>Exit\<close>
  a call of \<open>exit\<close>; \<open>Exc_out_of_range\<close> is the
  C++ exception of \<open>vector::at\<close>, \<open>map::at\<close> and the number parsers, which also throw
  \<open>Exc_invalid_argument\<close>, \<open>Exc_length_error\<close> the one of a vector that would be too long; \<open>UB_\<dots>\<close> is a point where the C++ program has
  undefined behaviour (the model stops there and claims nothing about what follows).
\<close>

datatype rev_error =
    Fatal_SegFault u64
  | Fatal_OutOfMemory u64
  | Fatal_Dealloc u64 u64
  | Fatal_AlreadyAllocated u64 u64
  | Fatal_RoundUpZero
  | Fatal_NoStaticData
  | Fatal_Machine string
  | Fatal_Decode u64 u32
  | Fatal_Format u64
  | Fatal_CompressedDisabled u64
  | Fatal_NoExtension u64
  | Fatal_ExtIndex nat string
  | Fatal_NoEntry u64
  | Fatal_Fetch u64
  | Fatal_NullInst u64
  | Fatal_Override string
  | Fatal_StartAddr
  | Fatal_NoRegFile u32 u16
  | Fatal_NoPID u32 u16
  | Fatal_NoHart u16
  | Fatal_Brk u64
  | Fatal_Mmap
  | Fatal_Munmap u64 u64
  | Fatal_Ecall u64
  | Fatal_MemCtrl string
  | Fatal_CPU string
  | Fatal_Loader string
  | Exit u64
  | Exc_out_of_range
  | Exc_invalid_argument
  | Exc_length_error
  | UB_DivByZero
  | UB_Shift
  | UB_SignedOverflow
  | UB_OutOfBounds
  | UB_EmptyContainer
  | UB_NullDeref

type_synonym 'a res = "rev_error + 'a"

definition bind_res :: "'a res \<Rightarrow> ('a \<Rightarrow> 'b res) \<Rightarrow> 'b res" where
  "bind_res r f = (case r of Inl e \<Rightarrow> Inl e | Inr x \<Rightarrow> f x)"

lemma bind_res_simps [simp]:
  "bind_res (Inl e) f = Inl e"
  "bind_res (Inr x) f = f x"
  by (simp_all add: bind_res_def)

lemma bind_res_Inr_iff:
  "bind_res r f = Inr y \<longleftrightarrow> (\<exists>x. r = Inr x \<and> f x = Inr y)"
  by (cases r) auto

lemma bind_res_Inr_E [elim!]:
  assumes "bind_res r f = Inr y"
  obtains x where "r = Inr x" and "f x = Inr y"
  using assms by (auto simp: bind_res_Inr_iff)

lemma bind_res_assoc:
  "bind_res (bind_res r f) g = bind_res r (\<lambda>x. bind_res (f x) g)"
  by (cases r) simp_all

lemma bind_res_cong [fundef_cong]:
  "r = r' \<Longrightarrow> (\<And>x. r' = Inr x \<Longrightarrow> f x = f' x) \<Longrightarrow> bind_res r f = bind_res r' f'"
  by (cases r') auto


section \<open>Sign extension\<close>

lemma unat_eqI: "unat v = unat w \<Longrightarrow> v = w"
  by (rule unsigned_word_eqI)

text \<open>
  The reference for every sign extension of the sources: bit \<open>n - 1\<close> of \<open>x\<close> is copied to all
  the bits above it.
\<close>

definition sext :: "nat \<Rightarrow> 'a::len word \<Rightarrow> 'a word" where
  "sext n x = signed_take_bit (n - 1) x"

lemma bit_sext:
  "0 < n \<Longrightarrow> n \<le> LENGTH('a) \<Longrightarrow>
   bit (sext n x :: 'a::len word) i \<longleftrightarrow> i < LENGTH('a) \<and> bit x (if i < n then i else n - 1)"
  by (cases n) (auto simp: sext_def bit_signed_take_bit_iff min_def less_Suc_eq
      dest: bit_imp_le_length)

lemma sext_full [simp]: "sext (LENGTH('a)) (x :: 'a::len word) = x"
  by (rule bit_word_eqI) (auto simp: bit_sext)

lemma sext_32 [simp]: "sext 32 (x :: u32) = x"
  using sext_full [of x] by simp

lemma sext_64 [simp]: "sext 64 (x :: u64) = x"
  using sext_full [of x] by simp

text \<open>The shift-free idiom of the macro \<open>SEXT\<close>: flip the sign bit, then subtract it.\<close>

lemma xor_minus_eq_sext:
  fixes x :: "'a::len word"
  assumes n: "0 < n" "n \<le> LENGTH('a)"
    and small: "\<And>i. n \<le> i \<Longrightarrow> \<not> bit x i"
  shows "(x XOR push_bit (n - 1) 1) - push_bit (n - 1) 1 = sext n x"
proof (cases "bit x (n - 1)")
  case True
  let ?s = "push_bit (n - 1) 1 :: 'a word"
  have x: "x = (x XOR ?s) OR ?s"
    by (rule bit_word_eqI) (use True n in \<open>auto simp: bit_simps\<close>)
  have high: "\<not> bit x i" if "n - 1 < i" for i
    using small [of i] n that by simp
  have lo: "(x XOR ?s) AND NOT (mask (n - 1)) = 0"
    by (rule bit_word_eqI) (use True high in \<open>auto simp: bit_simps not_less le_less\<close>)
  have "sext n x = (x XOR ?s) OR NOT (mask (n - 1))"
    by (rule bit_word_eqI)
      (use True n in \<open>cases n; auto simp: bit_sext bit_simps not_less less_Suc_eq\<close>)
  also have "\<dots> = (x XOR ?s) + NOT (mask (n - 1))"
    by (rule disjunctive_add_eq_or [symmetric]) (use lo in \<open>simp add: ac_simps\<close>)
  also have "NOT (mask (n - 1)) = - ?s"
    by (simp add: minus_exp_eq_not_mask)
  finally show ?thesis by simp
next
  case False
  let ?s = "push_bit (n - 1) 1 :: 'a word"
  have "x XOR ?s = x OR ?s"
    by (rule bit_word_eqI) (use False in \<open>auto simp: bit_simps\<close>)
  also have "\<dots> = x + ?s"
    by (rule disjunctive_add_eq_or [symmetric])
      (rule bit_word_eqI, use False in \<open>auto simp: bit_simps\<close>)
  finally have "(x XOR ?s) - ?s = x" by simp
  moreover have "sext n x = x"
    by (rule bit_word_eqI) (use False n small in \<open>auto simp: bit_sext not_less\<close>)
  ultimately show ?thesis by simp
qed


text \<open>A bit test written with a mask, as in \<open>(x & (1 << n)) > 0\<close>.\<close>

lemma and_exp_pos_iff: "0 < x AND 2 ^ n \<longleftrightarrow> bit (x :: 'a::len word) n"
  using and_exp_eq_0_iff_not_bit [of x n] by (simp flip: word_neq_0_conv)


text \<open>Numbers read from words.\<close>

lemma unat_less_exp: "unat (x :: 'a::len word) < 2 ^ LENGTH('a)"
  by (rule unsigned_less)

lemma unat_drop_bit: "unat (drop_bit n (x :: 'a::len word)) = unat x div 2 ^ n"
  by (simp add: unsigned_drop_bit_eq) (simp add: drop_bit_eq_div take_bit_nat_eq_self unsigned_less)

lemma pred_div: "(n :: nat) mod k \<noteq> 0 \<Longrightarrow> (n - 1) div k = n div k"
  by (cases n) (auto simp: div_Suc)

text \<open>Truncation commutes with the ring operations.\<close>

lemma ucast_down_arith:
  fixes a b :: "'a::len word"
  assumes "LENGTH('b) \<le> LENGTH('a)"
  shows "(ucast (a - b) :: 'b::len word) = ucast a - ucast b"
    and "(ucast (a + b) :: 'b::len word) = ucast a + ucast b"
    and "(ucast (a * b) :: 'b::len word) = ucast a * ucast b"
  using assms
  by (simp_all add: word_uint_eq_iff unsigned_ucast_eq uint_word_arith_bintrs take_bit_diff
      take_bit_add take_bit_mult min_def)


section \<open>Little-endian bytes\<close>

text \<open>The bytes of a word in host (little-endian) order, and the word of a byte list.\<close>

definition le_bytes :: "nat \<Rightarrow> 'a::len word \<Rightarrow> u8 list" where
  "le_bytes n w = map (\<lambda>i. ucast (drop_bit (8 * i) w)) [0..<n]"

fun le_word :: "u8 list \<Rightarrow> 'a::len word" where
  "le_word [] = 0"
| "le_word (b # bs) = ucast b OR push_bit 8 (le_word bs)"

lemma length_le_bytes [simp]: "length (le_bytes n w) = n"
  by (simp add: le_bytes_def)

lemma bit_le_word:
  "bit (le_word bs :: 'a::len word) i \<longleftrightarrow>
   i < LENGTH('a) \<and> i div 8 < length bs \<and> bit (bs ! (i div 8)) (i mod 8)"
proof (induction bs arbitrary: i)
  case Nil
  show ?case by simp
next
  case (Cons b bs)
  show ?case
  proof (cases "i < 8")
    case True
    then show ?thesis by (auto simp: bit_simps)
  next
    case False
    then have div: "i div 8 = Suc ((i - 8) div 8)" and "mod": "(i - 8) mod 8 = i mod 8"
      by (simp_all add: le_div_geq le_mod_geq)
    have "\<not> bit b i"
      using False by (auto dest: bit_imp_le_length)
    with False show ?thesis
      by (auto simp: bit_simps Cons.IH div "mod" dest: bit_imp_le_length)
  qed
qed

theorem le_word_le_bytes:
  "8 * n \<le> LENGTH('b) \<Longrightarrow> 8 * n \<le> LENGTH('a) \<Longrightarrow>
   (le_word (le_bytes n (w :: 'a::len word)) :: 'b::len word) = ucast (take_bit (8 * n) w)"
  by (rule bit_word_eqI)
    (auto simp: bit_le_word le_bytes_def bit_simps div_less_iff_less_mult mult.commute)

lemma le_word_le_bytes_exact:
  "LENGTH('a) = 8 * n \<Longrightarrow> le_word (le_bytes n (w :: 'a::len word)) = w"
  by (simp add: le_word_le_bytes take_bit_word_eq_self)

lemma le_bytes_le_word:
  assumes "LENGTH('a) = 8 * n" and "length bs = n"
  shows "le_bytes n (le_word bs :: 'a::len word) = bs"
proof (rule nth_equalityI)
  fix i assume i: "i < length (le_bytes n (le_word bs :: 'a word))"
  have "(ucast (drop_bit (8 * i) (le_word bs :: 'a word)) :: u8) = bs ! i"
  proof (rule bit_word_eqI)
    fix j assume "j < LENGTH(8)"
    then show "bit (ucast (drop_bit (8 * i) (le_word bs :: 'a word)) :: u8) j = bit (bs ! i) j"
      using i assms by (simp add: bit_simps bit_le_word)
  qed
  then show "le_bytes n (le_word bs :: 'a word) ! i = bs ! i" using i by (simp add: le_bytes_def)
qed (simp add: assms)


section \<open>Lists\<close>

lemma remove1_distinct_set: "distinct xs \<Longrightarrow> set (remove1 x xs) = set xs - {x}"
  by simp

lemma last_notin_butlast: "distinct xs \<Longrightarrow> xs \<noteq> [] \<Longrightarrow> last xs \<notin> set (butlast xs)"
  by (cases xs rule: rev_cases) auto

lemma set_butlast: "distinct xs \<Longrightarrow> xs \<noteq> [] \<Longrightarrow> set (butlast xs) = set xs - {last xs}"
  by (cases xs rule: rev_cases) auto

lemma takeWhile_neq_append: "k \<notin> set xs \<Longrightarrow> takeWhile (\<lambda>x. x \<noteq> k) (xs @ k # ys) = xs"
  by (induction xs) auto

lemma take_append_Cons:
  "length xs < n \<Longrightarrow> take n (xs @ x # ys) = xs @ x # take (n - Suc (length xs)) ys"
  using Suc_diff_Suc [of "length xs" n, symmetric] by simp


section \<open>Steps inside a block\<close>

lemma block_step:
  fixes n i P :: nat
  assumes "n mod P + i < P"
  shows "(n + i) div P = n div P" and "(n + i) mod P = n mod P + i"
proof -
  have P: "P \<noteq> 0" using assms by (cases P) auto
  have eq: "n + i = (n mod P + i) + n div P * P"
    using div_mult_mod_eq [of n P] by linarith
  show "(n + i) div P = n div P"
    by (subst eq) (use P assms in \<open>simp only: div_mult_self1 div_less add_0_right not_False_eq_True\<close>)
  show "(n + i) mod P = n mod P + i"
    by (subst eq) (use assms in \<open>simp only: mod_mult_self1 mod_less\<close>)
qed

lemma block_step_bound:
  fixes n i P K :: nat
  assumes "n mod P + i < P" and "n < K * P"
  shows "n + i < K * P"
proof -
  have P: "0 < P" using assms(1) by linarith
  then have "n div P < K" using assms(2) by (simp add: div_less_iff_less_mult)
  then have "(n + i) div P < K" by (simp only: block_step(1) [OF assms(1)])
  then show ?thesis using P by (simp add: div_less_iff_less_mult)
qed


section \<open>Running a sequence of fallible operations\<close>

fun run_ops :: "('k \<Rightarrow> 's \<Rightarrow> 's res) \<Rightarrow> 'k list \<Rightarrow> 's \<Rightarrow> 's res" where
  "run_ops f [] s = Inr s"
| "run_ops f (k # ks) s = bind_res (f k s) (run_ops f ks)"

lemma run_ops_invariant:
  assumes "\<And>k s s'. I s \<Longrightarrow> f k s = Inr s' \<Longrightarrow> I s'"
    and "I s" and "run_ops f ks s = Inr s'"
  shows "I s'"
  using assms(2,3) by (induction ks arbitrary: s) (auto intro: assms(1))


section \<open>Interface: a cache that evicts the least recently used key\<close>

text \<open>
  A provider offers a fallible \<open>access\<close> to a key. Its contract: the recency order after an
  access is the key in front of the others, cut at the capacity. The clients' guarantee is
  retention: a key stays cached while fewer than \<open>cap\<close> distinct other keys are accessed.
\<close>

locale recency_cache =
  fixes order :: "'s \<Rightarrow> 'k list"
    and access :: "'k \<Rightarrow> 's \<Rightarrow> 's res"
    and cap :: "'s \<Rightarrow> nat"
    and inv :: "'s \<Rightarrow> bool"
  assumes order_access:
      "inv s \<Longrightarrow> access k s = Inr s' \<Longrightarrow> order s' = take (cap s) (k # remove1 k (order s))"
    and cap_access: "inv s \<Longrightarrow> access k s = Inr s' \<Longrightarrow> cap s' = cap s"
    and inv_access: "inv s \<Longrightarrow> access k s = Inr s' \<Longrightarrow> inv s'"
    and inv_distinct: "inv s \<Longrightarrow> distinct (order s)"
    and inv_cap: "inv s \<Longrightarrow> 0 < cap s"
begin

lemma access_in_order: "inv s \<Longrightarrow> access k s = Inr s' \<Longrightarrow> k \<in> set (order s')"
  using inv_cap [of s] by (cases "cap s") (auto simp: order_access)

text \<open>
  The keys in front of \<open>k\<close> are among those accessed since \<open>k\<close> was, so \<open>k\<close> is cut off only when
  there are \<open>cap\<close> of them.
\<close>

definition front :: "'k \<Rightarrow> 's \<Rightarrow> 'k set" where
  "front k s = set (takeWhile (\<lambda>x. x \<noteq> k) (order s))"

lemma front_access_self: "inv s \<Longrightarrow> access k s = Inr s' \<Longrightarrow> front k s' = {}"
  using inv_cap [of s] by (cases "cap s") (auto simp: front_def order_access)

lemma keep_step:
  assumes inv: "inv s" and acc: "access j s = Inr s'" and k: "k \<in> set (order s)"
    and card: "card (insert j (front k s)) < cap s" and "j \<noteq> k"
  shows "k \<in> set (order s') \<and> front k s' \<subseteq> insert j (front k s)"
proof -
  from k obtain xs ys where xy: "order s = xs @ k # ys" and kx: "k \<notin> set xs"
    by (meson split_list_first)
  have front: "front k s = set xs"
    using kx by (simp add: front_def xy takeWhile_neq_append)
  have dist: "distinct (xs @ k # ys)"
    using inv_distinct [OF inv] xy by simp
  let ?pre = "j # remove1 j xs"
  have pre: "set ?pre = insert j (front k s)" and dpre: "distinct ?pre"
    using dist front by auto
  then have len: "length ?pre < cap s"
    using card by (metis distinct_card)
  obtain zs where rem: "j # remove1 j (order s) = ?pre @ k # zs"
  proof (cases "j \<in> set xs")
    case True
    then show ?thesis using that xy by (simp add: remove1_append)
  next
    case False
    then show ?thesis using that [of "remove1 j ys"] xy \<open>j \<noteq> k\<close>
      by (simp add: remove1_append remove1_idem)
  qed
  have "order s' = take (cap s) (?pre @ k # zs)"
    using order_access [OF inv acc] rem by simp
  also have "\<dots> = ?pre @ k # take (cap s - Suc (length ?pre)) zs"
    by (rule take_append_Cons [OF len])
  finally have o': "order s' = ?pre @ k # take (cap s - Suc (length ?pre)) zs" .
  have "k \<notin> set ?pre"
    using kx \<open>j \<noteq> k\<close> by (auto dest: notin_set_remove1)
  from takeWhile_neq_append [OF this] have "front k s' = set ?pre"
    by (simp only: front_def o')
  with o' pre show ?thesis by auto
qed

lemma keep_steps:
  assumes "inv s" and "run_ops access js s = Inr s'" and "k \<in> set (order s)"
    and "front k s \<subseteq> S" and "finite S" and "card (S \<union> (set js - {k})) < cap s"
  shows "k \<in> set (order s')"
  using assms
proof (induction js arbitrary: s S)
  case Nil
  then show ?case by simp
next
  case (Cons j js)
  then obtain s1 where acc: "access j s = Inr s1" and rest: "run_ops access js s1 = Inr s'"
    by auto
  note inv1 = inv_access [OF Cons.prems(1) acc] and cap1 = cap_access [OF Cons.prems(1) acc]
  show ?case
  proof (cases "j = k")
    case True
    have "card (S \<union> (set js - {k})) \<le> card (S \<union> (set (j # js) - {k}))"
      using Cons.prems(5) by (intro card_mono) auto
    moreover have "k \<in> set (order s1)" and "front k s1 = {}"
      using True Cons.prems(1) acc by (auto intro: access_in_order simp: front_access_self)
    ultimately show ?thesis
      using Cons.IH [OF inv1 rest, of S] Cons.prems(5,6) cap1 by simp
  next
    case False
    have fin: "finite (insert j S)" using Cons.prems(5) by simp
    have "card (insert j (front k s)) \<le> card (S \<union> (set (j # js) - {k}))"
      using Cons.prems(4,5) False by (intro card_mono) auto
    with Cons.prems(6) have "card (insert j (front k s)) < cap s" by simp
    from keep_step [OF Cons.prems(1) acc Cons.prems(3) this False]
    have k1: "k \<in> set (order s1)" and f1: "front k s1 \<subseteq> insert j S"
      using Cons.prems(4) by auto
    have "insert j S \<union> (set js - {k}) = S \<union> (set (j # js) - {k})"
      using False by auto
    with Cons.prems(6) cap1 have "card (insert j S \<union> (set js - {k})) < cap s1" by simp
    then show ?thesis using Cons.IH [OF inv1 rest k1 f1 fin] by simp
  qed
qed

lemma retention:
  assumes "inv s" and "access k s = Inr s1" and "run_ops access js s1 = Inr s'"
    and "card (set js - {k}) < cap s"
  shows "k \<in> set (order s')"
  using keep_steps [OF inv_access [OF assms(1,2)] assms(3) access_in_order [OF assms(1,2)],
      of "{}"] front_access_self [OF assms(1,2)] cap_access [OF assms(1,2)] assms(4)
  by simp

end

end
