(* ===== verification/Rev_Feature.thy ===== *)
theory Rev_Feature
  imports Rev_Prelude
begin

text \<open>
  \<open>RevFeature\<close> (include/RevFeature.h, src/RevFeature.cc): the machine description of a core.
  The constructor parses a machine string such as \<open>RV64GC\<close> into the register width \<open>xlen\<close> and
  a bit set of enabled extensions; every other component asks it which extensions are on.
\<close>

datatype RevFeatureType =
  RV_UNKNOWN | RV_I | RV_M | RV_A | RV_F | RV_D | RV_C | RV_P

text \<open>The enumerators' values, used as bit positions of \<open>features\<close>.\<close>

fun feature_code :: "RevFeatureType \<Rightarrow> nat" where
  "feature_code RV_UNKNOWN = 0"
| "feature_code RV_I = 1"
| "feature_code RV_M = 2"
| "feature_code RV_A = 3"
| "feature_code RV_F = 4"
| "feature_code RV_D = 5"
| "feature_code RV_C = 6"
| "feature_code RV_P = 20"

record RevFeature =
  machine :: string
  MinCost :: u32
  MaxCost :: u32
  Hart :: u32
  features :: u64
  xlen :: nat

definition GetXlen :: "RevFeature \<Rightarrow> nat" where
  "GetXlen F = xlen F"

definition GetHart :: "RevFeature \<Rightarrow> u32" where
  "GetHart F = Hart F"

definition IsRV32 :: "RevFeature \<Rightarrow> bool" where
  "IsRV32 F = (if xlen F = 32 then True else False)"

definition IsRV64 :: "RevFeature \<Rightarrow> bool" where
  "IsRV64 F = (if xlen F = 64 then True else False)"

definition IsModeEnabled :: "RevFeature \<Rightarrow> RevFeatureType \<Rightarrow> bool" where
  "IsModeEnabled F t = (let msk = push_bit (feature_code t) (1 :: u64)
     in if features F AND msk > 0 then True else False)"

definition HasCompressed :: "RevFeature \<Rightarrow> bool" where
  "HasCompressed F = IsModeEnabled F RV_C"

definition IsRV32C :: "RevFeature \<Rightarrow> bool" where
  "IsRV32C F = (IsRV32 F \<and> \<not> IsRV64 F \<and> IsModeEnabled F RV_C)"

definition IsRV32F :: "RevFeature \<Rightarrow> bool" where
  "IsRV32F F = (IsRV32 F \<and> IsModeEnabled F RV_F)"

definition IsRV64F :: "RevFeature \<Rightarrow> bool" where
  "IsRV64F F = (IsRV64 F \<and> IsModeEnabled F RV_F)"

definition IsRV32D :: "RevFeature \<Rightarrow> bool" where
  "IsRV32D F = (IsRV32 F \<and> IsModeEnabled F RV_D)"

definition IsRV64D :: "RevFeature \<Rightarrow> bool" where
  "IsRV64D F = (IsRV64 F \<and> IsModeEnabled F RV_D)"

definition SetMachineEntry :: "RevFeatureType \<Rightarrow> RevFeature \<Rightarrow> RevFeature" where
  "SetMachineEntry t F = F\<lparr>features := features F OR push_bit (feature_code t) 1\<rparr>"

text \<open>\<open>machine.find("RV32", 0) != npos\<close>: the pattern occurs somewhere in the string.\<close>

fun str_contains :: "string \<Rightarrow> string \<Rightarrow> bool" where
  "str_contains pat [] = (pat = [])"
| "str_contains pat (c # cs) = (take (length pat) (c # cs) = pat \<or> str_contains pat cs)"

text \<open>
  Step 2 of \<open>ParseMachineModel\<close>: one pass over the letters after the first four. The flag is
  the function's return value; on an unknown letter it stops there, keeping what was set.
\<close>

fun parse_letter :: "char \<Rightarrow> RevFeature \<Rightarrow> RevFeature option" where
  "parse_letter c F =
     (if c = CHR ''I'' then Some (SetMachineEntry RV_I F)
      else if c = CHR ''M'' then Some (SetMachineEntry RV_M F)
      else if c = CHR ''A'' then Some (SetMachineEntry RV_A F)
      else if c = CHR ''F'' then Some (SetMachineEntry RV_F F)
      else if c = CHR ''D'' then Some (SetMachineEntry RV_D F)
      else if c = CHR ''G'' then
        Some (SetMachineEntry RV_D (SetMachineEntry RV_F (SetMachineEntry RV_A
             (SetMachineEntry RV_M (SetMachineEntry RV_I (F\<lparr>xlen := 64\<rparr>))))))
      else if c = CHR ''C'' then Some (SetMachineEntry RV_C F)
      else if c = CHR ''P'' then Some (SetMachineEntry RV_P F)
      else None)"

fun parse_arch :: "string \<Rightarrow> RevFeature \<Rightarrow> bool \<times> RevFeature" where
  "parse_arch [] F = (True, F)"
| "parse_arch (c # cs) F =
     (case parse_letter c F of None \<Rightarrow> (False, F) | Some F' \<Rightarrow> parse_arch cs F')"

definition ParseMachineModel :: "RevFeature \<Rightarrow> bool \<times> RevFeature" where
  "ParseMachineModel F =
     (if length (machine F) < 4 then (False, F)
      else let F1 = (if str_contains ''RV32'' (machine F) then F\<lparr>xlen := 32\<rparr> else F);
               F2 = (if str_contains ''RV64'' (machine F) then F1\<lparr>xlen := 64\<rparr> else F1)
           in parse_arch (drop 4 (machine F)) F2)"

definition new_RevFeature :: "string \<Rightarrow> u32 \<Rightarrow> u32 \<Rightarrow> u32 \<Rightarrow> RevFeature res" where
  "new_RevFeature Machine mn mx hid =
     (let F = \<lparr>machine = Machine, MinCost = mn, MaxCost = mx, Hart = hid, features = 0, xlen = 64\<rparr>;
          (ok, F') = ParseMachineModel F
      in if ok then Inr F' else Inl (Fatal_Machine Machine))"


section \<open>The feature set as a set\<close>

definition feature_set :: "RevFeature \<Rightarrow> RevFeatureType set" where
  "feature_set F = {t. IsModeEnabled F t}"

definition letter_set :: "char \<Rightarrow> RevFeatureType set" where
  "letter_set c = (if c = CHR ''I'' then {RV_I} else if c = CHR ''M'' then {RV_M}
     else if c = CHR ''A'' then {RV_A} else if c = CHR ''F'' then {RV_F}
     else if c = CHR ''D'' then {RV_D}
     else if c = CHR ''G'' then {RV_I, RV_M, RV_A, RV_F, RV_D}
     else if c = CHR ''C'' then {RV_C} else if c = CHR ''P'' then {RV_P} else {})"

definition known_letter :: "char \<Rightarrow> bool" where
  "known_letter c = (c \<in> set ''IMAFDGCP'')"

lemma feature_code_inject: "feature_code a = feature_code b \<longleftrightarrow> a = b"
  by (cases a; cases b) simp_all

lemma feature_code_less: "feature_code t < 64"
  by (cases t) simp_all

lemma IsModeEnabled_bit: "IsModeEnabled F t \<longleftrightarrow> bit (features F) (feature_code t)"
  by (simp add: IsModeEnabled_def Let_def and_exp_pos_iff)

lemma bit_SetMachineEntry:
  "bit (features (SetMachineEntry t F)) (feature_code u) \<longleftrightarrow>
   bit (features F) (feature_code u) \<or> u = t"
  using feature_code_less [of t]
  by (auto simp: SetMachineEntry_def bit_simps feature_code_inject)

lemma feature_set_SetMachineEntry [simp]:
  "feature_set (SetMachineEntry t F) = insert t (feature_set F)"
  by (auto simp: feature_set_def IsModeEnabled_bit bit_SetMachineEntry)

lemma feature_set_upd [simp]: "feature_set (F\<lparr>xlen := n\<rparr>) = feature_set F"
  by (simp add: feature_set_def IsModeEnabled_def)

lemma xlen_SetMachineEntry [simp]: "xlen (SetMachineEntry t F) = xlen F"
  by (simp add: SetMachineEntry_def)

declare parse_letter.simps [simp del]

lemma parse_letter_SomeD:
  "parse_letter c F = Some F' \<Longrightarrow>
   known_letter c \<and> feature_set F' = feature_set F \<union> letter_set c \<and>
   xlen F' = (if c = CHR ''G'' then 64 else xlen F)"
  by (auto simp: parse_letter.simps known_letter_def letter_set_def split: if_splits)

lemma parse_letter_None_iff: "parse_letter c F = None \<longleftrightarrow> \<not> known_letter c"
  by (auto simp: parse_letter.simps known_letter_def)

lemma parse_arch_spec:
  "parse_arch cs F = (True, F') \<Longrightarrow>
   (\<forall>c\<in>set cs. known_letter c) \<and>
   feature_set F' = feature_set F \<union> (\<Union>c\<in>set cs. letter_set c) \<and>
   xlen F' = (if CHR ''G'' \<in> set cs then 64 else xlen F)"
proof (induction cs arbitrary: F)
  case Nil
  then show ?case by simp
next
  case (Cons c cs)
  then obtain F1 where F1: "parse_letter c F = Some F1" and rest: "parse_arch cs F1 = (True, F')"
    by (auto split: option.splits)
  from Cons.IH [OF rest] parse_letter_SomeD [OF F1] show ?case by auto
qed

lemma parse_arch_ok_iff: "fst (parse_arch cs F) \<longleftrightarrow> (\<forall>c\<in>set cs. known_letter c)"
proof (induction cs arbitrary: F)
  case Nil
  show ?case by simp
next
  case (Cons c cs)
  show ?case
  proof (cases "parse_letter c F")
    case None
    then show ?thesis
      using parse_letter_None_iff [of c F] by simp
  next
    case (Some F')
    then show ?thesis
      using parse_letter_SomeD [OF Some] Cons.IH by simp
  qed
qed

lemma new_RevFeature_fields:
  assumes "new_RevFeature Machine mn mx hid = Inr F"
  shows "length Machine \<ge> 4 \<and> (\<exists>F0. feature_set F0 = {} \<and>
     parse_arch (drop 4 Machine) F0 = (True, F) \<and>
     xlen F0 = (if str_contains ''RV64'' Machine then 64
                else if str_contains ''RV32'' Machine then 32 else 64))"
proof -
  let ?x = "if str_contains ''RV64'' Machine then 64
            else if str_contains ''RV32'' Machine then 32 else 64 :: nat"
  let ?F0 = "\<lparr>machine = Machine, MinCost = mn, MaxCost = mx, Hart = hid, features = 0, xlen = ?x\<rparr>"
  have "length Machine \<ge> 4" and "parse_arch (drop 4 Machine) ?F0 = (True, F)"
    using assms by (auto simp: new_RevFeature_def ParseMachineModel_def Let_def
        split: if_splits prod.splits)
  moreover have "feature_set ?F0 = {}"
    by (simp add: feature_set_def IsModeEnabled_bit)
  ultimately show ?thesis by (intro conjI exI [of _ ?F0]) simp_all
qed


section \<open>Properties\<close>

lemma new_RevFeature_accepts_iff:
  "(\<exists>F. new_RevFeature Machine mn mx hid = Inr F) \<longleftrightarrow>
   4 \<le> length Machine \<and> (\<forall>c\<in>set (drop 4 Machine). known_letter c)"
  by (simp add: new_RevFeature_def ParseMachineModel_def Let_def split_beta parse_arch_ok_iff)

text \<open>
  C32. The constructor of \<open>RevFeature\<close> accepts exactly the machine strings of at least four
  characters whose remaining letters are all known. The object it builds then has exactly the
  extensions its letters name (\<open>G\<close> being \<open>IMAFD\<close>), and a word length of 32 only if the string
  mentions \<open>RV32\<close>, does not mention \<open>RV64\<close> and has no \<open>G\<close>.
\<close>

theorem new_RevFeature_correct:
  "case new_RevFeature Machine mn mx hid of
     Inl e \<Rightarrow> e = Fatal_Machine Machine \<and>
       \<not> (4 \<le> length Machine \<and> list_all known_letter (drop 4 Machine))
   | Inr F \<Rightarrow> 4 \<le> length Machine \<and> list_all known_letter (drop 4 Machine) \<and>
       feature_set F = \<Union> (set (map letter_set (drop 4 Machine))) \<and>
       IsRV32 F = (str_contains ''RV32'' Machine \<and> \<not> str_contains ''RV64'' Machine \<and>
                   CHR ''G'' \<notin> set (drop 4 Machine)) \<and>
       IsRV64 F = (\<not> IsRV32 F)"
proof (cases "new_RevFeature Machine mn mx hid")
  case (Inl e)
  moreover from this have "e = Fatal_Machine Machine"
    by (auto simp: new_RevFeature_def Let_def split: prod.splits if_splits)
  ultimately show ?thesis
    using new_RevFeature_accepts_iff [of Machine mn mx hid] by (simp add: list_all_iff)
next
  case (Inr F)
  from new_RevFeature_fields [OF Inr] obtain F0 where len: "4 \<le> length Machine"
    and F0: "feature_set F0 = {}" "parse_arch (drop 4 Machine) F0 = (True, F)"
      "xlen F0 = (if str_contains ''RV64'' Machine then 64
                  else if str_contains ''RV32'' Machine then 32 else 64)" by blast
  with parse_arch_spec [OF F0(2)] show ?thesis
    by (simp add: Inr list_all_iff IsRV32_def IsRV64_def)
qed

end
