(* ===== verification/Rev_InstTable.thy ===== *)
theory Rev_InstTable
  imports Rev_Feature
begin

text \<open>
  include/RevInstTable.h and include/RevRF.hpp: the decoding macros, the sign and zero
  extension helpers, the register file, the decoded instruction, and the instruction table
  entries with their builder. The implementation function of an entry is of a type parameter
  \<open>'f\<close>, instantiated by the instruction theories.
\<close>

section \<open>Decoding macros\<close>

definition DECODE_RD :: "'a::len word \<Rightarrow> 'a word" where
  "DECODE_RD x = drop_bit 7 x AND 0b11111"

definition DECODE_RS1 :: "u32 \<Rightarrow> u32" where
  "DECODE_RS1 x = drop_bit 15 x AND 0b11111"

definition DECODE_RS2 :: "u32 \<Rightarrow> u32" where
  "DECODE_RS2 x = drop_bit 20 x AND 0b11111"

definition DECODE_RS3 :: "u32 \<Rightarrow> u32" where
  "DECODE_RS3 x = drop_bit 27 x AND 0b11111"

definition DECODE_IMM12 :: "u32 \<Rightarrow> u32" where
  "DECODE_IMM12 x = drop_bit 20 x AND 0b111111111111"

definition DECODE_IMM20 :: "u32 \<Rightarrow> u32" where
  "DECODE_IMM20 x = drop_bit 12 x AND 0b11111111111111111111"

definition DECODE_LOWER_CRS2 :: "'a::len word \<Rightarrow> 'a word" where
  "DECODE_LOWER_CRS2 x = drop_bit 2 x AND 0b11111"

definition DECODE_FUNCT7 :: "u32 \<Rightarrow> u32" where
  "DECODE_FUNCT7 x = drop_bit 25 x AND 0b1111111"

definition DECODE_FUNCT2 :: "u32 \<Rightarrow> u32" where
  "DECODE_FUNCT2 x = drop_bit 25 x AND 0b11"

definition DECODE_FUNCT3 :: "u32 \<Rightarrow> u32" where
  "DECODE_FUNCT3 x = drop_bit 12 x AND 0b111"

definition DECODE_RL :: "u32 \<Rightarrow> u32" where
  "DECODE_RL x = drop_bit 25 x AND 0b1"

definition DECODE_AQ :: "u32 \<Rightarrow> u32" where
  "DECODE_AQ x = drop_bit 26 x AND 0b1"

lemmas DECODE_defs = DECODE_RD_def DECODE_RS1_def DECODE_RS2_def DECODE_RS3_def
  DECODE_IMM12_def DECODE_IMM20_def DECODE_LOWER_CRS2_def DECODE_FUNCT7_def DECODE_FUNCT2_def
  DECODE_FUNCT3_def DECODE_RL_def DECODE_AQ_def


section \<open>Sign and zero extension\<close>

text \<open>
  \<open>SEXT(r,x,b)\<close> computes \<open>(x ^ (1UL << (b-1))) - (1UL << (b-1))\<close> in 64 bits and assigns it to
  \<open>r\<close>; the model is the 64-bit value, the caller truncates it to the width of \<open>r\<close>. \<open>SEXTI\<close>,
  \<open>SEXT64\<close> and \<open>SEXTI64\<close> have the same body. \<open>ZEXT\<close> shifts \<open>1UL\<close> by \<open>b\<close>, which is undefined for
  \<open>b = 64\<close>.
\<close>

definition SEXT :: "u64 \<Rightarrow> nat \<Rightarrow> u64" where
  "SEXT x b = (x XOR push_bit (b - 1) 1) - push_bit (b - 1) 1"

definition ZEXT :: "u64 \<Rightarrow> nat \<Rightarrow> u64 res" where
  "ZEXT x b = (if b < 64 then Inr (x AND (push_bit b 1 - 1)) else Inl UB_Shift)"

definition MASK8 :: u64 where "MASK8 = 0xFF"
definition MASK16 :: u64 where "MASK16 = 0xFFFF"
definition MASK32 :: u64 where "MASK32 = 0xFFFFFFFF"

definition td_u32 :: "u32 \<Rightarrow> nat \<Rightarrow> u32" where
  "td_u32 binary bits =
     (if binary AND push_bit (bits - 1) 1 > 0 then
        let tmp = fold (\<lambda>i t. t OR push_bit i 1) [bits..<32] binary;
            tmp = NOT tmp;
            tmp = tmp + 1
        in tmp * -1
      else binary)"

definition td_u64 :: "u64 \<Rightarrow> nat \<Rightarrow> u64" where
  "td_u64 binary bits =
     (if binary AND push_bit (bits - 1) 1 > 0 then
        let sx = fold (\<lambda>i t. t OR push_bit i 1) [0..<bits] 0;
            sx = NOT sx;
            tmp = binary OR sx;
            tmp = NOT tmp;
            tmp = tmp + 1
        in tmp * -1
      else binary)"

definition dt_u32 :: "u32 \<Rightarrow> nat \<Rightarrow> u32" where
  "dt_u32 binary bits =
     (if binary AND push_bit (bits - 1) 1 > 0 then
        let tmp = fold (\<lambda>i t. t OR push_bit i 1) [bits..<32] binary;
            tmp = NOT tmp;
            tmp = tmp + 1
        in tmp * -1
      else binary)"

definition dt_u64 :: "u64 \<Rightarrow> nat \<Rightarrow> u64" where
  "dt_u64 binary bits =
     (if binary AND push_bit (bits - 1) 1 > 0 then
        let tmp = fold (\<lambda>i t. t OR push_bit i 1) [bits..<64] binary;
            tmp = NOT tmp;
            tmp = tmp + 1
        in tmp * -1
      else binary)"


subsection \<open>What they compute\<close>

lemma bit_fold_set_bits:
  "bit (fold (\<lambda>i t. t OR 2 ^ i) js (x :: 'a::len word)) k \<longleftrightarrow>
   bit x k \<or> (k \<in> set js \<and> k < LENGTH('a))"
proof (induction js arbitrary: x)
  case Nil
  show ?case by simp
next
  case (Cons j js)
  show ?case by (auto simp: Cons.IH bit_or_iff bit_exp_iff)
qed

text \<open>The tail \<open>~tmp\<close>, \<open>+ 1\<close>, \<open>* -1\<close> of the helpers undoes itself.\<close>

lemma td_u32_eq:
  "td_u32 x n = (if bit x (n - 1) then fold (\<lambda>i t. t OR 2 ^ i) [n..<32] x else x)"
  by (simp add: td_u32_def Let_def and_exp_pos_iff flip: not_eq_complement)

lemma td_u64_eq:
  "td_u64 x n =
   (if bit x (n - 1) then x OR NOT (fold (\<lambda>i t. t OR 2 ^ i) [0..<n] 0) else x)"
  by (simp add: td_u64_def Let_def and_exp_pos_iff flip: not_eq_complement)

lemma dt_u64_eq:
  "dt_u64 x n = (if bit x (n - 1) then fold (\<lambda>i t. t OR 2 ^ i) [n..<64] x else x)"
  by (simp add: dt_u64_def Let_def and_exp_pos_iff flip: not_eq_complement)

lemma td_u32_sext:
  assumes "0 < n" "n \<le> 32" and small: "\<And>i. n \<le> i \<Longrightarrow> \<not> bit x i"
  shows "td_u32 x n = sext n x"
  by (rule bit_word_eqI) (use assms in \<open>auto simp: td_u32_eq bit_fold_set_bits bit_sext not_less\<close>)

lemma dt_u32_td_u32: "dt_u32 = td_u32"
  by (rule ext)+ (simp add: dt_u32_def td_u32_def)

lemma td_u64_sext:
  assumes "0 < n" "n \<le> 64" and small: "\<And>i. n \<le> i \<Longrightarrow> \<not> bit x i"
  shows "td_u64 x n = sext n x"
  by (rule bit_word_eqI)
    (use assms in \<open>auto simp: td_u64_eq bit_simps bit_fold_set_bits bit_sext not_less\<close>)

lemma dt_u64_td_u64:
  assumes "n \<le> 64" shows "dt_u64 x n = td_u64 x n"
  by (rule bit_word_eqI)
    (use assms in \<open>auto simp: td_u64_eq dt_u64_eq bit_simps bit_fold_set_bits not_less\<close>)

lemma td_u32_32 [simp]: "td_u32 x 32 = x"
  by (simp add: td_u32_eq)

lemma dt_u32_32 [simp]: "dt_u32 x 32 = x"
  by (simp add: dt_u32_td_u32)

lemma dt_u64_64 [simp]: "dt_u64 x 64 = x"
  by (simp add: dt_u64_eq)

lemma td_u64_64 [simp]: "td_u64 x 64 = x"
  using dt_u64_td_u64 [of 64 x] by simp

lemma SEXT_sext:
  assumes "0 < n" "n \<le> 64" and "\<And>i. n \<le> i \<Longrightarrow> \<not> bit x i"
  shows "SEXT x n = sext n x"
  unfolding SEXT_def by (rule xor_minus_eq_sext) (use assms in simp_all)

lemma SEXT_64 [simp]: "SEXT x 64 = x"
  by (subst SEXT_sext) (auto dest: bit_imp_le_length)

text \<open>Fields of at most \<open>n\<close> bits, as the decoder produces them.\<close>

definition fits :: "nat \<Rightarrow> 'a::len word \<Rightarrow> bool" where
  "fits n x \<longleftrightarrow> unat x < 2 ^ n"

lemma fits_bit: "fits n x \<Longrightarrow> n \<le> i \<Longrightarrow> \<not> bit x i"
  unfolding fits_def
  by (metis bit_take_bit_iff leD take_bit_nat_eq_self_iff unsigned_take_bit_eq unsigned_word_eqI)

lemma fits_ucast: "fits n (x :: 'a::len word) \<Longrightarrow> fits n (ucast x :: 'b::len word)"
  by (auto simp: fits_def unsigned_ucast_eq intro: le_less_trans [OF take_bit_nat_less_eq_self])

lemma td_u32_fits [simp]: "0 < n \<Longrightarrow> n \<le> 32 \<Longrightarrow> fits n x \<Longrightarrow> td_u32 x n = sext n x"
  by (rule td_u32_sext) (auto dest: fits_bit)

lemma td_u64_fits [simp]: "0 < n \<Longrightarrow> n \<le> 64 \<Longrightarrow> fits n x \<Longrightarrow> td_u64 x n = sext n x"
  by (rule td_u64_sext) (auto dest: fits_bit)

lemma SEXT_fits [simp]: "0 < n \<Longrightarrow> n \<le> 64 \<Longrightarrow> fits n x \<Longrightarrow> SEXT x n = sext n x"
  by (rule SEXT_sext) (auto dest: fits_bit)


section \<open>The register file\<close>

datatype EXCEPTION_CAUSE = MISALIGNED_INST_ADDR | INST_ACCESS_FAULT | ILLEGAL_INST | BREAKPOINT
  | LOAD_ADDR_MISALIGNED | LOAD_ACCESS_FAULT | STORE_AMO_ADDR_MISALIGNED
  | STORE_AMO_ACCESS_FAULT | ECALL_USER_MODE | ECALL_SUPERVISOR_MODE | ECALL_MACHINE_MODE
  | INST_PAGE_FAULT | LOAD_PAGE_FAULT | STORE_AMO_PAGE_FAULT

fun exception_code :: "EXCEPTION_CAUSE \<Rightarrow> nat" where
  "exception_code MISALIGNED_INST_ADDR = 0"
| "exception_code INST_ACCESS_FAULT = 1"
| "exception_code ILLEGAL_INST = 2"
| "exception_code BREAKPOINT = 3"
| "exception_code LOAD_ADDR_MISALIGNED = 4"
| "exception_code LOAD_ACCESS_FAULT = 5"
| "exception_code STORE_AMO_ADDR_MISALIGNED = 6"
| "exception_code STORE_AMO_ACCESS_FAULT = 7"
| "exception_code ECALL_USER_MODE = 8"
| "exception_code ECALL_SUPERVISOR_MODE = 9"
| "exception_code ECALL_MACHINE_MODE = 11"
| "exception_code INST_PAGE_FAULT = 12"
| "exception_code LOAD_PAGE_FAULT = 13"
| "exception_code STORE_AMO_PAGE_FAULT = 15"

text \<open>
  \<open>RevRF\<close>: an array of words in which index 0 always reads as 0. A write through
  \<open>operator[]\<close> at index 0 stores into \<open>rf[0]\<close>, but every later access through the operator resets
  it first, and the array is private, so no other access exists: the value cannot be observed, and
  the model keeps 0 in that slot.
\<close>

type_synonym 'a RevRF = "nat \<Rightarrow> 'a word"

definition RF_get :: "'a::len RevRF \<Rightarrow> nat \<Rightarrow> 'a word" where
  "RF_get rf i = (if i > 0 then rf i else 0)"

definition RF_set :: "'a::len RevRF \<Rightarrow> nat \<Rightarrow> 'a word \<Rightarrow> 'a RevRF" where
  "RF_set rf i v = rf(i := (if i > 0 then v else 0))"

text \<open>
  The register file of a thread. \<open>SPF\<close> and \<open>DPF\<close> hold the bit patterns of the floating point
  registers; the four scoreboards mark registers with a pending write.
\<close>

record RevRegFile =
  RV32 :: "32 RevRF"
  RV64 :: "64 RevRF"
  SPF :: "nat \<Rightarrow> u32"
  DPF :: "nat \<Rightarrow> u64"
  RV64_SSTATUS :: u64
  RV64_SEPC :: u64
  RV64_SCAUSE :: u64
  RV64_STVAL :: u64
  RV64_STVEC :: u64
  RV32_SSTATUS :: u32
  RV32_SEPC :: u32
  RV32_SCAUSE :: u32
  RV32_STVAL :: u32
  RV32_STVEC :: u32
  RV32_Scoreboard :: "nat \<Rightarrow> bool"
  RV64_Scoreboard :: "nat \<Rightarrow> bool"
  SPF_Scoreboard :: "nat \<Rightarrow> bool"
  DPF_Scoreboard :: "nat \<Rightarrow> bool"
  RV32_PC :: u32
  RV64_PC :: u64
  FCSR :: u64
  rf_cost :: u32
  trigger :: bool
  Entry :: nat

abbreviation get32 :: "RevRegFile \<Rightarrow> nat \<Rightarrow> u32" where
  "get32 R i \<equiv> RF_get (RV32 R) i"

abbreviation get64 :: "RevRegFile \<Rightarrow> nat \<Rightarrow> u64" where
  "get64 R i \<equiv> RF_get (RV64 R) i"

definition set32 :: "nat \<Rightarrow> u32 \<Rightarrow> RevRegFile \<Rightarrow> RevRegFile" where
  "set32 i v R = R\<lparr>RV32 := RF_set (RV32 R) i v\<rparr>"

definition set64 :: "nat \<Rightarrow> u64 \<Rightarrow> RevRegFile \<Rightarrow> RevRegFile" where
  "set64 i v R = R\<lparr>RV64 := RF_set (RV64 R) i v\<rparr>"

lemma RF_get_0 [simp]: "RF_get rf 0 = 0"
  by (simp add: RF_get_def)

lemma RF_get_set:
  "RF_get (RF_set rf i v) j = (if j = i \<and> i \<noteq> 0 then v else RF_get rf j)"
  by (simp add: RF_get_def RF_set_def)

lemma get_set_same [simp]:
  "get32 (set32 i v R) i = (if i = 0 then 0 else v)"
  "get64 (set64 i w R) i = (if i = 0 then 0 else w)"
  by (simp_all add: set32_def set64_def RF_get_set)

lemma get_set_other [simp]:
  "j \<noteq> i \<Longrightarrow> get32 (set32 i v R) j = get32 R j"
  "j \<noteq> i \<Longrightarrow> get64 (set64 i w R) j = get64 R j"
  by (simp_all add: set32_def set64_def RF_get_set)

lemma set32_frame [simp]:
  "RV64 (set32 i v R) = RV64 R" "RV32_PC (set32 i v R) = RV32_PC R"
  "RV64_PC (set32 i v R) = RV64_PC R" "rf_cost (set32 i v R) = rf_cost R"
  by (simp_all add: set32_def)

lemma set64_frame [simp]:
  "RV32 (set64 i v R) = RV32 R" "RV32_PC (set64 i v R) = RV32_PC R"
  "RV64_PC (set64 i v R) = RV64_PC R" "rf_cost (set64 i v R) = rf_cost R"
  by (simp_all add: set64_def)

lemma set_zero:
  "set32 0 v R = R\<lparr>RV32 := (RV32 R)(0 := 0)\<rparr>" "set64 0 w R = R\<lparr>RV64 := (RV64 R)(0 := 0)\<rparr>"
  by (simp_all add: set32_def set64_def RF_set_def)

lemma set_set_same [simp]:
  "set32 i v (set32 i v' R) = set32 i v R"
  "set64 i w (set64 i w' R) = set64 i w R"
  by (simp_all add: set32_def set64_def RF_set_def)


section \<open>Instructions and table entries\<close>

datatype RevInstF = RVTypeUNKNOWN | RVTypeR | RVTypeI | RVTypeS | RVTypeU | RVTypeB | RVTypeJ
  | RVTypeR4 | RVCTypeCR | RVCTypeCI | RVCTypeCSS | RVCTypeCIW | RVCTypeCL | RVCTypeCS
  | RVCTypeCA | RVCTypeCB | RVCTypeCJ

datatype RevRegClass = RegUNKNOWN | RegIMM | RegGPR | RegCSR | RegFLOAT

datatype RevImmFunc = FUnk | FImm | FEnc | FVal

text \<open>
  A decoded instruction. The pointer \<open>hazard\<close> of the source is not a field here: the flag it
  points to is a component of the execution state.
\<close>

record RevInst =
  opcode :: u8
  funct2 :: u8
  funct3 :: u8
  funct4 :: u8
  funct6 :: u8
  funct7 :: u8
  rd :: nat
  rs1 :: nat
  rs2 :: nat
  rs3 :: nat
  imm :: u32
  fmt :: u8
  rm :: u8
  aq :: u8
  rl :: u8
  offset :: u16
  jumpTarget :: u16
  instSize :: u64
  compressed :: bool
  cost :: u32
  entry :: nat

definition incPC32 :: "RevInst \<Rightarrow> RevRegFile \<Rightarrow> RevRegFile" where
  "incPC32 Inst R = R\<lparr>RV32_PC := RV32_PC R + ucast (instSize Inst)\<rparr>"

definition incPC64 :: "RevInst \<Rightarrow> RevRegFile \<Rightarrow> RevRegFile" where
  "incPC64 Inst R = R\<lparr>RV64_PC := RV64_PC R + instSize Inst\<rparr>"

text \<open>\<open>CRegMap[k]\<close>: a missing key is inserted with value 0 and read as such.\<close>

definition CRegMap :: "nat \<Rightarrow> nat" where
  "CRegMap k = (if k < 8 then k + 8 else 0)"

record 'f RevInstEntry =
  e_mnemonic :: string
  e_cost :: u32
  e_opcode :: u8
  e_funct2 :: u8
  e_funct3 :: u8
  e_funct4 :: u8
  e_funct6 :: u8
  e_funct7 :: u8
  e_offset :: u16
  e_jumpTarget :: u16
  e_rdClass :: RevRegClass
  e_rs1Class :: RevRegClass
  e_rs2Class :: RevRegClass
  e_rs3Class :: RevRegClass
  e_imm12 :: u16
  e_imm :: RevImmFunc
  e_format :: RevInstF
  e_func :: "'f option"
  e_compressed :: bool
  e_fpcvtOp :: u8

text \<open>\<open>RevInstDefaults\<close> through the constructor of \<open>RevInstEntryBuilder\<close>.\<close>

definition RevInstDefaults :: "'f RevInstEntry" where
  "RevInstDefaults = \<lparr>e_mnemonic = ''nop'', e_cost = 1, e_opcode = 0, e_funct2 = 0, e_funct3 = 0,
     e_funct4 = 0, e_funct6 = 0, e_funct7 = 0, e_offset = 0, e_jumpTarget = 0,
     e_rdClass = RegGPR, e_rs1Class = RegGPR, e_rs2Class = RegGPR, e_rs3Class = RegUNKNOWN,
     e_imm12 = 0, e_imm = FUnk, e_format = RVTypeR, e_func = None, e_compressed = False,
     e_fpcvtOp = 0\<rparr>"

lemma incPC_frame [simp]:
  "RV32 (incPC32 I R) = RV32 R" "RV64 (incPC32 I R) = RV64 R"
  "RV32 (incPC64 I R) = RV32 R" "RV64 (incPC64 I R) = RV64 R"
  "RV32_PC (incPC32 I R) = RV32_PC R + ucast (instSize I)" "RV64_PC (incPC32 I R) = RV64_PC R"
  "RV64_PC (incPC64 I R) = RV64_PC R + instSize I" "RV32_PC (incPC64 I R) = RV32_PC R"
  "rf_cost (incPC32 I R) = rf_cost R" "rf_cost (incPC64 I R) = rf_cost R"
  by (simp_all add: incPC32_def incPC64_def)

end
