(* ===== verification/Rev_Mem.thy ===== *)
theory Rev_Mem
  imports Rev_Prelude
begin

text \<open>
  \<open>RevMem\<close> (include/RevMem.h, src/RevMem.cc) in the configuration without a memory controller
  (\<open>ctrl == nullptr\<close>): the memory record, the address translation through the page map with its
  LRU-managed TLB, and the validity test of virtual addresses. The allocator, the byte accesses
  and the atomics are in the theories that follow.
\<close>

section \<open>State\<close>

record MemSegment =
  BaseAddr :: u64
  Size :: u64
  TopAddr :: u64

text \<open>
  \<open>physMem\<close> is the array of \<open>memSize\<close> bytes. The TLB maps a virtual address to a physical one;
  the list iterator the source keeps beside it always points at the address's own node of
  \<open>LRUQueue\<close>, so erasing through it is \<^term>\<open>remove1\<close> of that address. A reservation of \<open>LRSC\<close>
  keeps hart, address, the aq/rl bits and the register slot that \<open>LR\<close> loaded. \<open>rand_seq\<close> is the
  sequence of values the C library's \<open>rand()\<close> returns, \<open>rand_idx\<close> the next one.
\<close>

record RevMem =
  physMem :: "nat \<Rightarrow> u8"
  memSize :: u64
  TLB :: "u64 \<rightharpoonup> u64"
  LRUQueue :: "u64 list"
  tlbSize :: nat
  TLBHits :: u64
  TLBMisses :: u64
  bytesRead :: u32
  bytesWritten :: u32
  MemSegs :: "MemSegment list"
  FreeMemSegs :: "MemSegment list"
  maxHeapSize :: u32
  PIDCount :: u32
  pageMap :: "u64 \<rightharpoonup> u32 \<times> bool"
  nextPage :: u32
  heapend :: u64
  heapstart :: u64
  stacktop :: u64
  FutureRes :: "u64 list"
  LRSC :: "(u32 \<times> u64 \<times> u32 \<times> nat) list"
  rand_seq :: "nat \<Rightarrow> nat"
  rand_idx :: nat

definition INVALID_ADDR :: u64 where "INVALID_ADDR = 0xFFFFFFFFFFFFFFFF"
definition STACK_SIZE :: u64 where "STACK_SIZE = 1024 * 1024"
definition pageSize :: u32 where "pageSize = 262144"
definition addrShift :: nat where "addrShift = 18"

text \<open>
  The constructor without a controller, then \<open>SetTLBSize\<close> and \<open>SetMaxHeapSize\<close>. The constructor leaves \<open>heapstart\<close> and
  \<open>heapend\<close> uninitialised; here they are 0 until \<open>InitHeap\<close>, which the loader calls, sets them.
\<close>

definition new_RevMem :: "u64 \<Rightarrow> nat \<Rightarrow> u32 \<Rightarrow> (nat \<Rightarrow> nat) \<Rightarrow> RevMem" where
  "new_RevMem MemSize tlb maxHeap rnd =
     \<lparr>physMem = (\<lambda>_. 0), memSize = MemSize, TLB = Map.empty, LRUQueue = [], tlbSize = tlb,
      TLBHits = 0, TLBMisses = 0, bytesRead = 0, bytesWritten = 0, MemSegs = [], FreeMemSegs = [],
      maxHeapSize = maxHeap, PIDCount = 1023, pageMap = Map.empty, nextPage = 0, heapend = 0,
      heapstart = 0, stacktop = MemSize - 1024, FutureRes = [], LRSC = [], rand_seq = rnd,
      rand_idx = 0\<rparr>"

definition GetNewThreadPID :: "RevMem \<Rightarrow> u32 \<times> RevMem" where
  "GetNewThreadPID M = (let p = PIDCount M + 1 in (p, M\<lparr>PIDCount := p\<rparr>))"

text \<open>\<open>(rand() % Max) + Min\<close>; the remainder by 0 traps.\<close>

definition RandCost :: "u32 \<Rightarrow> u32 \<Rightarrow> RevMem \<Rightarrow> (u32 \<times> RevMem) res" where
  "RandCost mn mx M =
     (if mx = 0 then Inl UB_DivByZero
      else Inr ((of_nat (rand_seq M (rand_idx M)) mod mx) + mn, M\<lparr>rand_idx := Suc (rand_idx M)\<rparr>))"


section \<open>Memory segments\<close>

definition new_MemSegment :: "u64 \<Rightarrow> u64 \<Rightarrow> MemSegment" where
  "new_MemSegment b n = \<lparr>BaseAddr = b, Size = n, TopAddr = b + n\<rparr>"

definition getTopAddr :: "MemSegment \<Rightarrow> u64" where
  "getTopAddr s = BaseAddr s + Size s"

definition setBaseAddr :: "u64 \<Rightarrow> MemSegment \<Rightarrow> MemSegment" where
  "setBaseAddr b s =
     (let s1 = s\<lparr>BaseAddr := b\<rparr> in if Size s1 \<noteq> 0 then s1\<lparr>TopAddr := Size s1 + BaseAddr s1\<rparr> else s1)"

definition setSize :: "u64 \<Rightarrow> MemSegment \<Rightarrow> MemSegment" where
  "setSize n s = s\<lparr>Size := n, TopAddr := BaseAddr s + n\<rparr>"

definition seg_contains :: "MemSegment \<Rightarrow> u64 \<Rightarrow> bool" where
  "seg_contains s v = (v \<ge> BaseAddr s \<and> v < TopAddr s)"

definition seg_contains_range :: "MemSegment \<Rightarrow> u64 \<Rightarrow> u64 \<Rightarrow> bool" where
  "seg_contains_range s vBase n =
     (let vTop = vBase + n - 1 in seg_contains s vBase \<and> seg_contains s vTop)"

definition isValidVirtAddr :: "RevMem \<Rightarrow> u64 \<Rightarrow> bool" where
  "isValidVirtAddr M v =
     (if \<exists>s\<in>set (MemSegs M). seg_contains s v then True
      else if v \<ge> stacktop M - STACK_SIZE then (if v < memSize M then True else False)
      else if v \<ge> heapstart M \<and> v \<le> heapend M then True else False)"


section \<open>The TLB\<close>

definition FlushTLB :: "RevMem \<Rightarrow> RevMem" where
  "FlushTLB M = M\<lparr>TLB := Map.empty, LRUQueue := []\<rparr>"

definition SearchTLB :: "u64 \<Rightarrow> RevMem \<Rightarrow> u64 \<times> RevMem" where
  "SearchTLB v M =
     (case TLB M v of
        None \<Rightarrow> (INVALID_ADDR, M\<lparr>TLBMisses := TLBMisses M + 1\<rparr>)
      | Some p \<Rightarrow> (p, M\<lparr>TLBHits := TLBHits M + 1, LRUQueue := v # remove1 v (LRUQueue M)\<rparr>))"

definition AddToTLB :: "u64 \<Rightarrow> u64 \<Rightarrow> RevMem \<Rightarrow> RevMem res" where
  "AddToTLB v p M =
     (case TLB M v of
        Some q \<Rightarrow> Inr (M\<lparr>LRUQueue := v # remove1 v (LRUQueue M), TLB := (TLB M)(v \<mapsto> p)\<rparr>)
      | None \<Rightarrow>
          if length (LRUQueue M) = tlbSize M then
            (if LRUQueue M = [] then Inl UB_EmptyContainer
             else Inr (M\<lparr>LRUQueue := v # butlast (LRUQueue M),
                        TLB := (TLB M)(last (LRUQueue M) := None, v \<mapsto> p)\<rparr>))
          else Inr (M\<lparr>LRUQueue := v # LRUQueue M, TLB := (TLB M)(v \<mapsto> p)\<rparr>))"


section \<open>Address translation\<close>

text \<open>\<open>(page << addrShift) + ((pageSize - 1) & vAddr)\<close>: the shift is on 32 bits.\<close>

definition page_addr :: "u32 \<Rightarrow> u64 \<Rightarrow> u64" where
  "page_addr q v = ucast (push_bit addrShift q) + (ucast (pageSize - 1) AND v)"

definition pageNum :: "u64 \<Rightarrow> u64" where
  "pageNum v = drop_bit addrShift v"

definition CalcPhysAddr :: "u64 \<Rightarrow> u64 \<Rightarrow> RevMem \<Rightarrow> (u64 \<times> RevMem) res" where
  "CalcPhysAddr pn v M =
     (let (p, M1) = SearchTLB v M
      in if p = INVALID_ADDR then
           (if isValidVirtAddr M1 v then
              (let (p', M2) =
                 (case pageMap M1 pn of
                    None \<Rightarrow> (page_addr (nextPage M1) v,
                             M1\<lparr>pageMap := (pageMap M1)(pn \<mapsto> (nextPage M1, True)),
                                nextPage := nextPage M1 + 1\<rparr>)
                  | Some (q, _) \<Rightarrow> (page_addr q v, M1))
               in bind_res (AddToTLB v p' M2) (\<lambda>M3. Inr (p', M3)))
            else Inl (Fatal_SegFault v))
         else Inr (p, M1))"


section \<open>Invariant and specification of the translation\<close>

text \<open>
  What the page map alone says: the specification the TLB must not change. \<open>tlb_ok\<close> ties the
  TLB to its recency list, \<open>pages_ok\<close> says that distinct virtual pages have distinct physical
  pages, and \<open>tlb_coherent\<close> that a cached translation is the page map's.
\<close>

definition translate :: "RevMem \<Rightarrow> u64 \<rightharpoonup> u64" where
  "translate M v = map_option (\<lambda>(q, _). page_addr q v) (pageMap M (pageNum v))"

definition tlb_ok :: "RevMem \<Rightarrow> bool" where
  "tlb_ok M \<longleftrightarrow> distinct (LRUQueue M) \<and> dom (TLB M) = set (LRUQueue M) \<and>
     length (LRUQueue M) \<le> tlbSize M \<and> 0 < tlbSize M"

definition tlb_coherent :: "RevMem \<Rightarrow> bool" where
  "tlb_coherent M \<longleftrightarrow> (\<forall>v p. TLB M v = Some p \<longrightarrow> translate M v = Some p)"

definition pages_ok :: "RevMem \<Rightarrow> bool" where
  "pages_ok M \<longleftrightarrow> unat (nextPage M) \<le> 2 ^ 14 \<and>
     (\<forall>a q b. pageMap M a = Some (q, b) \<longrightarrow> q < nextPage M) \<and>
     (\<forall>a a' q b b'. pageMap M a = Some (q, b) \<longrightarrow> pageMap M a' = Some (q, b') \<longrightarrow> a = a')"

definition mem_inv :: "RevMem \<Rightarrow> bool" where
  "mem_inv M \<longleftrightarrow> tlb_ok M \<and> tlb_coherent M \<and> pages_ok M"

text \<open>Room for \<open>n\<close> more physical pages below the 4 GiB that 32-bit page addresses reach.\<close>

definition page_room :: "nat \<Rightarrow> RevMem \<Rightarrow> bool" where
  "page_room n M \<longleftrightarrow> unat (nextPage M) + n \<le> 2 ^ 14"

lemma unat_ucast_u64: "unat (ucast (x :: u32) :: u64) = unat x"
  using unsigned_less [of x, where 'a = nat] by (simp add: unsigned_ucast_eq take_bit_nat_eq_self_iff)

lemma and_mask18: "unat (0x3FFFF AND (v :: u64)) = unat v mod 2 ^ 18"
proof -
  have "(0x3FFFF :: u64) = mask 18" by (simp add: mask_eq_exp_minus_1)
  then have "0x3FFFF AND v = take_bit 18 v" by (simp add: take_bit_eq_mask ac_simps)
  then show ?thesis by (simp add: unat_mod_distrib take_bit_eq_mod)
qed

lemma page_addr_bound: "unat (page_addr q v) < 2 ^ 33"
proof -
  have "unat (push_bit 18 q) < 2 ^ 32" using unsigned_less [of "push_bit 18 q :: u32"] by simp
  moreover have "unat v mod 2 ^ 18 < 2 ^ 18" by simp
  ultimately show ?thesis
    by (simp add: page_addr_def addrShift_def pageSize_def unat_word_ariths unat_ucast_u64
        and_mask18)
qed

lemma page_addr_valid [simp]: "page_addr q v \<noteq> INVALID_ADDR"
  using page_addr_bound [of q v] by (auto simp: INVALID_ADDR_def)

lemma unat_page_addr:
  assumes "unat q < 2 ^ 14"
  shows "unat (page_addr q v) = unat q * 2 ^ 18 + unat v mod 2 ^ 18"
proof -
  have sh: "unat (push_bit 18 q) = unat q * 2 ^ 18"
    using assms by (simp add: push_bit_eq_mult unat_mult_lem [THEN iffD1] unat_word_ariths)
  have "unat q * 2 ^ 18 + unat v mod 2 ^ 18 < 2 ^ 64"
    using assms mod_less_divisor [of "2 ^ 18" "unat v"] by simp
  then show ?thesis
    by (simp add: page_addr_def addrShift_def pageSize_def unat_word_ariths unat_ucast_u64
        and_mask18 sh)
qed

lemma unat_pageNum: "unat (pageNum v) = unat v div 2 ^ 18"
  by (simp add: pageNum_def addrShift_def drop_bit_eq_div unat_div_distrib)

lemma addr_eqI:
  assumes "pageNum v = pageNum w" and "unat v mod 2 ^ 18 = unat w mod 2 ^ 18"
  shows "v = w"
proof (rule unsigned_word_eqI)
  have "unat v div 2 ^ 18 = unat w div 2 ^ 18"
    using assms(1) by (metis unat_pageNum)
  then show "unat v = unat w"
    using assms(2) by (metis div_mult_mod_eq)
qed

lemma translate_inject:
  assumes "pages_ok M" and v: "translate M v = Some p" and w: "translate M w = Some p"
  shows "v = w"
proof -
  from v w obtain q b q' b' where
    q: "pageMap M (pageNum v) = Some (q, b)" "p = page_addr q v" and
    q': "pageMap M (pageNum w) = Some (q', b')" "p = page_addr q' w"
    by (auto simp: translate_def)
  have small: "unat q < 2 ^ 14" "unat q' < 2 ^ 14"
    using assms(1) q(1) q'(1) by (fastforce simp: pages_ok_def word_less_nat_alt)+
  have eq: "unat q * 2 ^ 18 + unat v mod 2 ^ 18 = unat q' * 2 ^ 18 + unat w mod 2 ^ 18"
    using q(2) q'(2) unat_page_addr [OF small(1)] unat_page_addr [OF small(2)] by metis
  then have "(unat q * 2 ^ 18 + unat v mod 2 ^ 18) div 2 ^ 18 = unat q"
    and "(unat q' * 2 ^ 18 + unat w mod 2 ^ 18) div 2 ^ 18 = unat q'" by simp_all
  with eq have "unat q = unat q'" by simp
  then have "q = q'" by (rule unsigned_word_eqI)
  with assms(1) q(1) q'(1) have "pageNum v = pageNum w"
    by (auto simp: pages_ok_def)
  moreover from eq \<open>q = q'\<close> have "unat v mod 2 ^ 18 = unat w mod 2 ^ 18" by simp
  ultimately show ?thesis by (rule addr_eqI)
qed


subsection \<open>The TLB operations\<close>

lemma SearchTLB_hit:
  "TLB M v = Some p \<Longrightarrow> SearchTLB v M =
     (p, M\<lparr>TLBHits := TLBHits M + 1, LRUQueue := v # remove1 v (LRUQueue M)\<rparr>)"
  by (simp add: SearchTLB_def)

lemma SearchTLB_miss:
  "TLB M v = None \<Longrightarrow> SearchTLB v M = (INVALID_ADDR, M\<lparr>TLBMisses := TLBMisses M + 1\<rparr>)"
  by (simp add: SearchTLB_def)

text \<open>Everything but the TLB, its list and the two counters is as before.\<close>

definition same_pages :: "RevMem \<Rightarrow> RevMem \<Rightarrow> bool" where
  "same_pages M M' \<longleftrightarrow> pageMap M' = pageMap M \<and> nextPage M' = nextPage M"

lemma translate_same_pages: "same_pages M M' \<Longrightarrow> translate M' = translate M"
  by (simp add: fun_eq_iff translate_def same_pages_def)

lemma pages_ok_same_pages: "same_pages M M' \<Longrightarrow> pages_ok M \<Longrightarrow> pages_ok M'"
  by (simp add: pages_ok_def same_pages_def)

lemma tlb_ok_move_front:
  assumes "tlb_ok M" and "v \<in> set (LRUQueue M)" and "TLB M' = TLB M" and "tlbSize M' = tlbSize M"
    and "LRUQueue M' = v # remove1 v (LRUQueue M)"
  shows "tlb_ok M'"
proof -
  have "length (v # remove1 v (LRUQueue M)) = length (LRUQueue M)"
    using assms(2) length_pos_if_in_set [OF assms(2)] by (simp add: length_remove1)
  with assms show ?thesis by (auto simp: tlb_ok_def)
qed

lemma AddToTLB_frame:
  assumes "AddToTLB v p M = Inr M'"
  shows "same_pages M M'" "tlbSize M' = tlbSize M" "physMem M' = physMem M" "memSize M' = memSize M"
    "MemSegs M' = MemSegs M" "stacktop M' = stacktop M" "heapstart M' = heapstart M"
    "heapend M' = heapend M"
  using assms by (auto simp: AddToTLB_def same_pages_def split: option.splits if_splits)

lemma AddToTLB_miss_spec:
  assumes ok: "tlb_ok M" and miss: "TLB M v = None"
  shows "\<exists>M'. AddToTLB v p M = Inr M' \<and> tlb_ok M' \<and>
     LRUQueue M' = take (tlbSize M) (v # LRUQueue M) \<and>
     TLB M' v = Some p \<and> (\<forall>w. w \<noteq> v \<longrightarrow> TLB M' w \<in> {None, TLB M w})"
proof (cases "length (LRUQueue M) = tlbSize M")
  case True
  then have ne: "LRUQueue M \<noteq> []" using ok by (auto simp: tlb_ok_def)
  have v: "v \<notin> set (LRUQueue M)" using ok miss by (auto simp: tlb_ok_def)
  have bl: "set (butlast (LRUQueue M)) = set (LRUQueue M) - {last (LRUQueue M)}"
    using ok ne by (intro set_butlast) (auto simp: tlb_ok_def)
  have tk: "take (tlbSize M) (v # LRUQueue M) = v # butlast (LRUQueue M)"
    using True ne by (cases "tlbSize M") (auto simp: butlast_conv_take)
  show ?thesis
    using True ne v ok bl miss tk
    by (auto simp: AddToTLB_def tlb_ok_def distinct_butlast)
next
  case False
  have v: "v \<notin> set (LRUQueue M)" using ok miss by (auto simp: tlb_ok_def)
  have tk: "take (tlbSize M) (v # LRUQueue M) = v # LRUQueue M"
    using False ok by (simp add: tlb_ok_def)
  show ?thesis
    using False v ok miss tk by (auto simp: AddToTLB_def tlb_ok_def)
qed


subsection \<open>Translation with the TLB is translation by the page map\<close>

definition mem_extends :: "RevMem \<Rightarrow> RevMem \<Rightarrow> bool" where
  "mem_extends M M' \<longleftrightarrow> (\<forall>v p. translate M v = Some p \<longrightarrow> translate M' v = Some p) \<and>
     (\<forall>v p. translate M v = None \<longrightarrow> translate M' v = Some p \<longrightarrow>
        unat (nextPage M) * 2 ^ 18 \<le> unat p) \<and>
     nextPage M \<le> nextPage M' \<and>
     physMem M' = physMem M \<and> memSize M' = memSize M \<and> MemSegs M' = MemSegs M \<and>
     stacktop M' = stacktop M \<and> heapstart M' = heapstart M \<and> heapend M' = heapend M \<and>
     tlbSize M' = tlbSize M"

lemma CalcPhysAddr_hit:
  assumes "tlb_coherent M" and "TLB M v = Some p"
  shows "CalcPhysAddr pn v M =
     Inr (p, M\<lparr>TLBHits := TLBHits M + 1, LRUQueue := v # remove1 v (LRUQueue M)\<rparr>)"
proof -
  have "translate M v = Some p" using assms by (simp add: tlb_coherent_def)
  then have "p \<noteq> INVALID_ADDR" by (auto simp: translate_def)
  then show ?thesis by (simp add: CalcPhysAddr_def SearchTLB_hit [OF assms(2)])
qed

text \<open>The state of a miss after the page map was consulted, before the TLB is filled.\<close>

definition page_touch :: "u64 \<Rightarrow> RevMem \<Rightarrow> RevMem" where
  "page_touch v M =
     (let M1 = M\<lparr>TLBMisses := TLBMisses M + 1\<rparr>
      in case pageMap M (pageNum v) of
           None \<Rightarrow> M1\<lparr>pageMap := (pageMap M)(pageNum v \<mapsto> (nextPage M, True)),
                       nextPage := nextPage M + 1\<rparr>
         | Some _ \<Rightarrow> M1)"

lemma page_touch_frame [simp]:
  "TLB (page_touch v M) = TLB M" "LRUQueue (page_touch v M) = LRUQueue M"
  "tlbSize (page_touch v M) = tlbSize M" "physMem (page_touch v M) = physMem M"
  "memSize (page_touch v M) = memSize M" "MemSegs (page_touch v M) = MemSegs M"
  "stacktop (page_touch v M) = stacktop M" "heapstart (page_touch v M) = heapstart M"
  "heapend (page_touch v M) = heapend M"
  by (simp_all add: page_touch_def Let_def split: option.splits)

lemma translate_page_touch: "\<exists>p. translate (page_touch v M) v = Some p \<and> p \<noteq> INVALID_ADDR"
  by (auto simp: page_touch_def Let_def translate_def split: option.splits)

lemma translate_page_touch_mono:
  "translate M w = Some p \<Longrightarrow> translate (page_touch v M) w = Some p"
  by (auto simp: page_touch_def Let_def translate_def split: option.splits)

lemma translate_page_touch_fresh:
  assumes "page_room 1 M" and "translate M w = None" and "translate (page_touch v M) w = Some p"
  shows "unat (nextPage M) * 2 ^ 18 \<le> unat p"
  using assms unat_page_addr [of "nextPage M" w]
  by (auto simp: page_touch_def Let_def translate_def page_room_def split: option.splits if_splits)

lemma nextPage_page_touch: "page_room 1 M \<Longrightarrow> nextPage M \<le> nextPage (page_touch v M)"
  by (auto simp: page_touch_def Let_def page_room_def word_le_nat_alt unat_word_ariths
      split: option.splits)

lemma pages_ok_page_touch:
  assumes ok: "pages_ok M" and room: "page_room 1 M"
  shows "pages_ok (page_touch v M)"
proof (cases "pageMap M (pageNum v)")
  case (Some q)
  then show ?thesis using ok by (simp add: pages_ok_def page_touch_def Let_def)
next
  case None
  have lt: "unat (nextPage M) < 2 ^ 14" using room by (simp add: page_room_def)
  then have inc: "unat (nextPage M + 1) = unat (nextPage M) + 1"
    by (simp add: unat_word_ariths)
  have old: "q < nextPage M" "q < nextPage M + 1" "q \<noteq> nextPage M"
    if "pageMap M a = Some (q, b)" for a q b
  proof -
    show *: "q < nextPage M" using ok that by (auto simp: pages_ok_def)
    then show "q < nextPage M + 1" "q \<noteq> nextPage M"
      using inc by (auto simp: word_less_nat_alt)
  qed
  show ?thesis
    using ok None inc lt old
    by (auto simp: pages_ok_def page_touch_def Let_def word_less_nat_alt split: if_splits)
qed

lemma CalcPhysAddr_miss:
  assumes "TLB M v = None"
  shows "CalcPhysAddr (pageNum v) v M =
     (if isValidVirtAddr M v then
        bind_res (AddToTLB v (the (translate (page_touch v M) v)) (page_touch v M))
          (\<lambda>M3. Inr (the (translate (page_touch v M) v), M3))
      else Inl (Fatal_SegFault v))"
proof -
  have "isValidVirtAddr (M\<lparr>TLBMisses := TLBMisses M + 1\<rparr>) v = isValidVirtAddr M v"
    by (simp add: isValidVirtAddr_def)
  then show ?thesis
    by (auto simp: CalcPhysAddr_def SearchTLB_miss [OF assms] page_touch_def Let_def
        translate_def split: option.splits)
qed


lemma CalcPhysAddr_miss_spec:
  assumes ok: "tlb_ok M" and miss: "TLB M v = None" and valid: "isValidVirtAddr M v"
  obtains p M' where "CalcPhysAddr (pageNum v) v M = Inr (p, M')"
    and "translate (page_touch v M) v = Some p" and "p \<noteq> INVALID_ADDR"
    and "AddToTLB v p (page_touch v M) = Inr M'"
    and "tlb_ok M'" and "LRUQueue M' = take (tlbSize M) (v # remove1 v (LRUQueue M))"
    and "TLB M' v = Some p" and "\<forall>w. w \<noteq> v \<longrightarrow> TLB M' w \<in> {None, TLB M w}"
proof -
  obtain p where p: "translate (page_touch v M) v = Some p" "p \<noteq> INVALID_ADDR"
    using translate_page_touch by blast
  have ok': "tlb_ok (page_touch v M)" using ok by (simp add: tlb_ok_def)
  have "v \<notin> set (LRUQueue M)" using ok miss by (auto simp: tlb_ok_def)
  then have rem: "remove1 v (LRUQueue M) = LRUQueue M" by (rule remove1_idem)
  have "TLB (page_touch v M) v = None" using miss by simp
  from AddToTLB_miss_spec [OF ok' this, of p] obtain M' where
    M': "AddToTLB v p (page_touch v M) = Inr M'" "tlb_ok M'"
      "LRUQueue M' = take (tlbSize M) (v # LRUQueue M)" "TLB M' v = Some p"
      "\<forall>w. w \<noteq> v \<longrightarrow> TLB M' w \<in> {None, TLB M w}" by auto
  then have "CalcPhysAddr (pageNum v) v M = Inr (p, M')"
    using p valid by (simp add: CalcPhysAddr_miss [OF miss])
  with p M' show ?thesis using rem that by simp
qed

lemma take_move_front:
  "v \<in> set xs \<Longrightarrow> length xs \<le> n \<Longrightarrow> take n (v # remove1 v xs) = v # remove1 v xs"
  using length_pos_if_in_set [of v xs] by (simp add: length_remove1)

text \<open>The cache view of the TLB: its contract holds whatever the page map does.\<close>

definition tlb_access :: "u64 \<Rightarrow> RevMem \<Rightarrow> RevMem res" where
  "tlb_access v M = bind_res (CalcPhysAddr (pageNum v) v M) (\<lambda>(p, M'). Inr M')"

definition tlb_cache_inv :: "RevMem \<Rightarrow> bool" where
  "tlb_cache_inv M \<longleftrightarrow> tlb_ok M \<and> (\<forall>v. TLB M v \<noteq> Some INVALID_ADDR)"

lemma tlb_access_spec:
  assumes inv: "tlb_cache_inv M" and acc: "tlb_access v M = Inr M'"
  shows "LRUQueue M' = take (tlbSize M) (v # remove1 v (LRUQueue M)) \<and>
     tlbSize M' = tlbSize M \<and> tlb_cache_inv M'"
proof (cases "TLB M v")
  case (Some p)
  have ok: "tlb_ok M" and p: "p \<noteq> INVALID_ADDR" using inv Some by (auto simp: tlb_cache_inv_def)
  then have M': "M' = M\<lparr>TLBHits := TLBHits M + 1, LRUQueue := v # remove1 v (LRUQueue M)\<rparr>"
    using acc by (simp add: tlb_access_def CalcPhysAddr_def SearchTLB_hit [OF Some])
  have v: "v \<in> set (LRUQueue M)" using ok Some by (auto simp: tlb_ok_def)
  have "tlb_ok M'" by (rule tlb_ok_move_front [OF ok v]) (simp_all add: M')
  moreover have "take (tlbSize M) (v # remove1 v (LRUQueue M)) = v # remove1 v (LRUQueue M)"
    using take_move_front [OF v] ok by (simp add: tlb_ok_def)
  ultimately show ?thesis using inv by (simp add: M' tlb_cache_inv_def)
next
  case None
  have ok: "tlb_ok M" using inv by (simp add: tlb_cache_inv_def)
  have valid: "isValidVirtAddr M v"
    using acc None by (auto simp: tlb_access_def CalcPhysAddr_miss split: if_splits)
  from CalcPhysAddr_miss_spec [OF ok None valid] obtain p M2 where
    eq: "CalcPhysAddr (pageNum v) v M = Inr (p, M2)" "p \<noteq> INVALID_ADDR"
    and add: "AddToTLB v p (page_touch v M) = Inr M2"
    and M2: "tlb_ok M2" "LRUQueue M2 = take (tlbSize M) (v # remove1 v (LRUQueue M))"
      "TLB M2 v = Some p" "\<forall>w. w \<noteq> v \<longrightarrow> TLB M2 w \<in> {None, TLB M w}" .
  have "M' = M2" using acc eq(1) by (simp add: tlb_access_def)
  moreover have "TLB M2 w \<noteq> Some INVALID_ADDR" for w
    using M2(3,4) eq(2) inv unfolding tlb_cache_inv_def
    by (metis insertE option.distinct(1) option.inject singletonD)
  ultimately show ?thesis
    using M2 AddToTLB_frame(2) [OF add] by (simp add: tlb_cache_inv_def)
qed

interpretation tlb: recency_cache LRUQueue tlb_access tlbSize tlb_cache_inv
proof
  fix s :: RevMem and k s'
  assume inv: "tlb_cache_inv s"
  then show "distinct (LRUQueue s)" and "0 < tlbSize s"
    by (simp_all add: tlb_cache_inv_def tlb_ok_def)
  assume acc: "tlb_access k s = Inr s'"
  show "LRUQueue s' = take (tlbSize s) (k # remove1 k (LRUQueue s))"
    and "tlbSize s' = tlbSize s" and "tlb_cache_inv s'"
    using tlb_access_spec [OF inv acc] by simp_all
qed

text \<open>
  One translation: it segfaults exactly on an uncached invalid address, and otherwise returns
  what the page map says, keeping the invariant and every earlier translation.
\<close>

lemma CalcPhysAddr_spec:
  assumes inv: "mem_inv M" and room: "page_room 1 M"
    and valid: "TLB M v \<noteq> None \<or> isValidVirtAddr M v"
  obtains p M' where "CalcPhysAddr (pageNum v) v M = Inr (p, M')" and "mem_inv M'"
    and "translate M' v = Some p" and "mem_extends M M'"
    and "unat (nextPage M') \<le> unat (nextPage M) + 1"
proof (cases "TLB M v")
  case (Some p)
  have ok: "tlb_ok M" "tlb_coherent M" "pages_ok M" using inv by (auto simp: mem_inv_def)
  let ?M' = "M\<lparr>TLBHits := TLBHits M + 1, LRUQueue := v # remove1 v (LRUQueue M)\<rparr>"
  have v: "v \<in> set (LRUQueue M)" using ok(1) Some by (auto simp: tlb_ok_def)
  have same: "same_pages M ?M'" by (simp add: same_pages_def)
  have "tlb_ok ?M'" by (rule tlb_ok_move_front [OF ok(1) v]) simp_all
  moreover have "tlb_coherent ?M'"
    using ok(2) by (simp add: tlb_coherent_def translate_same_pages [OF same])
  ultimately have "mem_inv ?M'"
    using pages_ok_same_pages [OF same ok(3)] by (simp add: mem_inv_def)
  moreover have "translate ?M' v = Some p"
    using ok(2) Some by (simp add: tlb_coherent_def translate_same_pages [OF same])
  moreover have "mem_extends M ?M'"
    by (simp add: mem_extends_def translate_same_pages [OF same])
  ultimately show ?thesis using that [OF CalcPhysAddr_hit [OF ok(2) Some]] by simp
next
  case None
  have ok: "tlb_ok M" "tlb_coherent M" "pages_ok M" using inv by (auto simp: mem_inv_def)
  have val: "isValidVirtAddr M v" using valid None by simp
  from CalcPhysAddr_miss_spec [OF ok(1) None val] obtain p M' where
    eq: "CalcPhysAddr (pageNum v) v M = Inr (p, M')" and p: "translate (page_touch v M) v = Some p"
    and add: "AddToTLB v p (page_touch v M) = Inr M'" and M': "tlb_ok M'"
      "TLB M' v = Some p" "\<forall>w. w \<noteq> v \<longrightarrow> TLB M' w \<in> {None, TLB M w}" .
  note fr = AddToTLB_frame [OF add]
  note tr = translate_same_pages [OF fr(1)]
  have "tlb_coherent M'"
    unfolding tlb_coherent_def
  proof (intro allI impI)
    fix w q assume w: "TLB M' w = Some q"
    show "translate M' w = Some q"
    proof (cases "w = v")
      case True
      then show ?thesis using w M'(2) p tr by simp
    next
      case False
      with w M'(3) have "TLB M w = Some q" by (metis insertE option.distinct(1) singletonD)
      then show ?thesis using ok(2) translate_page_touch_mono tr by (simp add: tlb_coherent_def)
    qed
  qed
  then have "mem_inv M'"
    using M'(1) pages_ok_same_pages [OF fr(1) pages_ok_page_touch [OF ok(3) room]]
    by (simp add: mem_inv_def)
  moreover have "mem_extends M M'"
    using fr tr translate_page_touch_mono [of M _ _ v] translate_page_touch_fresh [OF room]
      nextPage_page_touch [OF room] by (simp add: mem_extends_def same_pages_def)
  moreover have "unat (nextPage M') \<le> unat (nextPage M) + 1"
    using fr(1) room
    by (auto simp: same_pages_def page_touch_def Let_def unat_word_ariths page_room_def
        split: option.splits)
  ultimately show ?thesis using that [OF eq] p tr by simp
qed

lemma CalcPhysAddr_segfault:
  "TLB M v = None \<Longrightarrow> \<not> isValidVirtAddr M v \<Longrightarrow>
   CalcPhysAddr (pageNum v) v M = Inl (Fatal_SegFault v)"
  by (simp add: CalcPhysAddr_miss)


section \<open>Properties\<close>

lemma mem_inv_new [intro]: "0 < tlb \<Longrightarrow> mem_inv (new_RevMem n tlb hp rnd)"
  by (simp add: mem_inv_def new_RevMem_def tlb_ok_def tlb_coherent_def pages_ok_def)

lemma isValidVirtAddr_new:
  "isValidVirtAddr (new_RevMem n tlb hp rnd) v =
   ((v \<ge> n - 1024 - STACK_SIZE \<and> v < n) \<or> (\<not> v \<ge> n - 1024 - STACK_SIZE \<and> v = 0))"
  by (auto simp: isValidVirtAddr_def new_RevMem_def)

text \<open>
  C28. Address translation is transparent to the TLB. From a state satisfying the invariant, with
  a page left, \<open>CalcPhysAddr\<close> either stops with the segmentation fault, exactly when the address
  is neither cached nor valid, or returns the page map's translation of the address. In that
  case the invariant holds again and no earlier translation has changed.
\<close>

theorem CalcPhysAddr_correct:
  assumes "mem_inv M" and "page_room 1 M"
  shows "case CalcPhysAddr (pageNum v) v M of
      Inl e \<Rightarrow> e = Fatal_SegFault v \<and> TLB M v = None \<and> \<not> isValidVirtAddr M v
    | Inr (p, M') \<Rightarrow> (TLB M v \<noteq> None \<or> isValidVirtAddr M v) \<and> translate M' v = Some p \<and>
        mem_inv M' \<and> translate M \<subseteq>\<^sub>m translate M' \<and> physMem M' = physMem M \<and> MemSegs M' = MemSegs M"
proof (cases "TLB M v \<noteq> None \<or> isValidVirtAddr M v")
  case True
  from CalcPhysAddr_spec [OF assms True] obtain p M' where
    "CalcPhysAddr (pageNum v) v M = Inr (p, M')" "mem_inv M'" "translate M' v = Some p"
    "mem_extends M M'" by metis
  then show ?thesis using True by (auto simp: mem_extends_def map_le_def)
next
  case False
  then show ?thesis using CalcPhysAddr_segfault [of M v] by simp
qed

theorem CalcPhysAddr_correct_witness:
  "\<exists>p M'. CalcPhysAddr (pageNum 0x180000) 0x180000 (new_RevMem 0x200000 4 0 (\<lambda>_. 0)) = Inr (p, M') \<and>
     translate M' 0x180000 = Some p \<and> mem_inv M'"
proof -
  let ?M = "new_RevMem 0x200000 4 0 (\<lambda>_. 0)"
  have "mem_inv ?M" by (rule mem_inv_new) simp
  moreover have "page_room 1 ?M" by (simp add: page_room_def new_RevMem_def)
  moreover have "isValidVirtAddr ?M 0x180000" by (simp add: isValidVirtAddr_new STACK_SIZE_def)
  ultimately show ?thesis
    using CalcPhysAddr_correct [where M = ?M and v = "0x180000"]
    by (auto split: sum.splits)
qed

text \<open>
  Distinct virtual addresses never share a physical byte: the translation is injective in
  every state satisfying the invariant.
\<close>

theorem translation_injective:
  assumes "mem_inv M" and "translate M v = Some p" and "translate M w = Some p"
  shows "v = w"
  using translate_inject [OF _ assms(2,3)] assms(1) by (simp add: mem_inv_def)

theorem translation_injective_witness:
  "{v. translate ((new_RevMem 0x200000 4 0 (\<lambda>_. 0))\<lparr>pageMap := [1 \<mapsto> (0, True)], nextPage := 1\<rparr>) v =
       Some 5} = {0x40005}"
proof -
  let ?M = "(new_RevMem 0x200000 4 0 (\<lambda>_. 0))\<lparr>pageMap := [1 \<mapsto> (0, True)], nextPage := 1\<rparr>"
  have inv: "mem_inv ?M"
    by (simp add: mem_inv_def new_RevMem_def tlb_ok_def tlb_coherent_def pages_ok_def)
  have "pageNum 0x40005 = 1" by (simp add: pageNum_def addrShift_def drop_bit_eq_div)
  then have "translate ?M 0x40005 = Some 5"
    by (simp add: translate_def page_addr_def addrShift_def pageSize_def)
  then show ?thesis using translation_injective [OF inv] by auto
qed

text \<open>
  LRU retention: once an address has been translated, it is still in the TLB after any
  sequence of successful translations that touches fewer than \<open>tlbSize\<close> other addresses.
\<close>

theorem TLB_retention:
  assumes "tlb_cache_inv M" and "tlb_access v M = Inr M1" and "run_ops tlb_access vs M1 = Inr M'"
    and "card (set vs - {v}) < tlbSize M"
  shows "TLB M' v \<noteq> None"
proof -
  have "tlb_cache_inv M'"
    by (rule run_ops_invariant [where I = tlb_cache_inv, OF tlb.inv_access _ assms(3)])
      (use tlb.inv_access [OF assms(1,2)] in simp_all)
  moreover have "v \<in> set (LRUQueue M')" by (rule tlb.retention [OF assms])
  ultimately show ?thesis by (auto simp: tlb_cache_inv_def tlb_ok_def)
qed


theorem TLB_retention_witness:
  "\<exists>M1 M'. tlb_access 0x180000 (new_RevMem 0x200000 3 0 (\<lambda>_. 0)) = Inr M1 \<and>
     run_ops tlb_access [0x180004, 0x140000, 0x180004] M1 = Inr M' \<and> TLB M' 0x180000 \<noteq> None"
proof -
  let ?M = "new_RevMem 0x200000 3 0 (\<lambda>_. 0)"
  obtain M1 where M1: "tlb_access 0x180000 ?M = Inr M1" 
    and M': "\<exists>M'. run_ops tlb_access [0x180004, 0x140000, 0x180004] M1 = Inr M'"
    by (simp add: tlb_access_def CalcPhysAddr_def SearchTLB_def new_RevMem_def isValidVirtAddr_def
        STACK_SIZE_def pageNum_def addrShift_def drop_bit_eq_div AddToTLB_def page_addr_def pageSize_def INVALID_ADDR_def)
  from M' obtain M' where M': "run_ops tlb_access [0x180004, 0x140000, 0x180004] M1 = Inr M'" ..
  have "tlb_cache_inv ?M" by (simp add: tlb_cache_inv_def tlb_ok_def new_RevMem_def)
  from TLB_retention [OF this M1 M'] M1 M' show ?thesis by (simp add: new_RevMem_def card_insert_if)
qed

end
