(* ===== verification/Rev_MemRW.thy ===== *)
theory Rev_MemRW
  imports Rev_Mem
begin

text \<open>
  The byte accesses of \<open>RevMem\<close> (src/RevMem.cc): future reservations, \<open>WriteMem\<close>, both
  \<open>ReadMem\<close> overloads, and their typed front ends. The virtual address space seen through them
  is specified as a partial function from addresses to bytes, and the operations are shown to
  implement it, also across a page boundary.
\<close>

section \<open>Future reservations\<close>

definition SetFuture :: "u64 \<Rightarrow> RevMem \<Rightarrow> bool \<times> RevMem" where
  "SetFuture Addr M = (True, M\<lparr>FutureRes := remdups_adj (sort (FutureRes M @ [Addr]))\<rparr>)"

definition RevokeFuture :: "u64 \<Rightarrow> RevMem \<Rightarrow> bool \<times> RevMem" where
  "RevokeFuture Addr M =
     (if Addr \<in> set (FutureRes M) then (True, M\<lparr>FutureRes := remove1 Addr (FutureRes M)\<rparr>)
      else (False, M))"

definition StatusFuture :: "u64 \<Rightarrow> RevMem \<Rightarrow> bool" where
  "StatusFuture Addr M = (Addr \<in> set (FutureRes M))"


section \<open>The operations\<close>

text \<open>Byte loops over \<open>physMem\<close>; an index outside the array is undefined behaviour.\<close>

definition phys_read :: "nat \<Rightarrow> nat \<Rightarrow> RevMem \<Rightarrow> u8 list res" where
  "phys_read p n M =
     (if p + n \<le> unat (memSize M) then Inr (map (\<lambda>i. physMem M (p + i)) [0..<n])
      else Inl UB_OutOfBounds)"

definition phys_write :: "nat \<Rightarrow> u8 list \<Rightarrow> RevMem \<Rightarrow> RevMem res" where
  "phys_write p bs M =
     (if p + length bs \<le> unat (memSize M) then
        Inr (M\<lparr>physMem := (\<lambda>k. if p \<le> k \<and> k < p + length bs then bs ! (k - p) else physMem M k)\<rparr>)
      else Inl UB_OutOfBounds)"

text \<open>\<open>pageMap[pageNum].first\<close>; \<open>operator[]\<close> inserts a missing key with a zero value.\<close>

definition pageMap_index :: "u64 \<Rightarrow> RevMem \<Rightarrow> u32 \<times> RevMem" where
  "pageMap_index pn M =
     (case pageMap M pn of
        None \<Rightarrow> (0, M\<lparr>pageMap := (pageMap M)(pn \<mapsto> (0, False))\<rparr>)
      | Some (q, _) \<Rightarrow> (q, M))"

text \<open>
  The prologue the four accesses share: translate the first byte, find the end of its physical
  page, and if the access runs over it, the number \<open>span\<close> of bytes on the next page and the
  physical address of the first of them. \<open>endOfPage\<close> is computed on 32 bits, \<open>adjPageNum\<close> is
  stored in 32 bits.
\<close>

definition phys_span ::
  "u64 \<Rightarrow> nat \<Rightarrow> RevMem \<Rightarrow> (u64 \<times> (nat \<times> u64) option \<times> RevMem) res" where
  "phys_span Addr Len M =
     bind_res (CalcPhysAddr (pageNum Addr) Addr M) (\<lambda>(p, M1).
       let (q, M2) = pageMap_index (pageNum Addr) M1;
           endOfPage = (ucast (push_bit addrShift q + pageSize) :: u64)
       in if p + of_nat Len > endOfPage then
            let span = (ucast (p + of_nat Len - endOfPage) :: u32);
                a' = Addr + of_nat Len - ucast span;
                adjPageNum = (ucast (drop_bit addrShift a') :: u32)
            in bind_res (CalcPhysAddr (ucast adjPageNum) a' M2)
                 (\<lambda>(p', M3). Inr (p, Some (unat span, p'), M3))
          else Inr (p, None, M2))"

definition WriteMem :: "u32 \<Rightarrow> u64 \<Rightarrow> u8 list \<Rightarrow> RevMem \<Rightarrow> RevMem res" where
  "WriteMem hart Addr Data M =
     (let M0 = snd (RevokeFuture Addr M); Len = length Data
      in bind_res (phys_span Addr Len M0) (\<lambda>(p, sp, M1).
         bind_res
           (case sp of
              Some (span, p') \<Rightarrow>
                if span > Len then Inl UB_OutOfBounds
                else bind_res (phys_write (unat p) (take (Len - span) Data) M1)
                       (phys_write (unat p') (drop (Len - span) Data))
            | None \<Rightarrow> phys_write (unat p) Data M1)
           (\<lambda>M2. Inr (M2\<lparr>bytesWritten := bytesWritten M2 + of_nat Len\<rparr>))))"

text \<open>The current \<open>ReadMem\<close>; the hazard flag it raises is lowered again before it returns.\<close>

definition ReadMem :: "u32 \<Rightarrow> u64 \<Rightarrow> nat \<Rightarrow> RevMem \<Rightarrow> (u8 list \<times> RevMem) res" where
  "ReadMem hart Addr Len M =
     bind_res (phys_span Addr Len M) (\<lambda>(p, sp, M1).
       bind_res
         (case sp of
            Some (span, p') \<Rightarrow>
              if span > Len then Inl UB_OutOfBounds
              else bind_res (phys_read (unat p) (Len - span) M1) (\<lambda>b1.
                   bind_res (phys_read (unat p') span M1) (\<lambda>b2. Inr (b1 @ b2)))
          | None \<Rightarrow> phys_read (unat p) Len M1)
         (\<lambda>bs. Inr (bs, M1\<lparr>bytesRead := bytesRead M1 + of_nat Len\<rparr>)))"

text \<open>
  The deprecated \<open>ReadMem(Addr, Len, Data)\<close>: over a page boundary its second loop never advances
  \<open>Cur\<close>, so all bytes of the next page are written to the same slot; the slots after it keep the
  caller's buffer \<open>buf\<close>.
\<close>

definition ReadMem_deprecated :: "u64 \<Rightarrow> u8 list \<Rightarrow> RevMem \<Rightarrow> (u8 list \<times> RevMem) res" where
  "ReadMem_deprecated Addr buf M =
     (let Len = length buf
      in bind_res (phys_span Addr Len M) (\<lambda>(p, sp, M1).
         bind_res
           (case sp of
              Some (span, p') \<Rightarrow>
                if span > Len then Inl UB_OutOfBounds
                else bind_res (phys_read (unat p) (Len - span) M1) (\<lambda>b1.
                     bind_res (phys_read (unat p') span M1) (\<lambda>b2.
                       Inr (foldl (\<lambda>d b. d[Len - span := b]) (b1 @ drop (Len - span) buf) b2)))
            | None \<Rightarrow> phys_read (unat p) Len M1)
           (\<lambda>bs. Inr (bs, M1\<lparr>bytesRead := bytesRead M1 + of_nat Len\<rparr>))))"

definition WriteU8 :: "u32 \<Rightarrow> u64 \<Rightarrow> u8 \<Rightarrow> RevMem \<Rightarrow> RevMem res" where
  "WriteU8 hart Addr v M = WriteMem hart Addr (le_bytes 1 v) M"

definition WriteU16 :: "u32 \<Rightarrow> u64 \<Rightarrow> u16 \<Rightarrow> RevMem \<Rightarrow> RevMem res" where
  "WriteU16 hart Addr v M = WriteMem hart Addr (le_bytes 2 v) M"

definition WriteU32 :: "u32 \<Rightarrow> u64 \<Rightarrow> u32 \<Rightarrow> RevMem \<Rightarrow> RevMem res" where
  "WriteU32 hart Addr v M = WriteMem hart Addr (le_bytes 4 v) M"

definition WriteU64 :: "u32 \<Rightarrow> u64 \<Rightarrow> u64 \<Rightarrow> RevMem \<Rightarrow> RevMem res" where
  "WriteU64 hart Addr v M = WriteMem hart Addr (le_bytes 8 v) M"


section \<open>The virtual address space\<close>

text \<open>
  The byte a program sees at a virtual address: the physical byte if the page is mapped, else
  the 0 it will see at first touch. That a page handed out is zero is the invariant
  \<open>fresh_zero\<close>.
\<close>

definition vbyte :: "RevMem \<Rightarrow> u64 \<Rightarrow> u8" where
  "vbyte M v = (case translate M v of None \<Rightarrow> 0 | Some p \<Rightarrow> physMem M (unat p))"

definition fresh_zero :: "RevMem \<Rightarrow> bool" where
  "fresh_zero M \<longleftrightarrow> (\<forall>k. unat (nextPage M) * 2 ^ 18 \<le> k \<longrightarrow> physMem M k = 0)"

definition vm_inv :: "RevMem \<Rightarrow> bool" where
  "vm_inv M \<longleftrightarrow> mem_inv M \<and> fresh_zero M"

text \<open>
  An access the simulator supports: at most one page long, below \<open>2 ^ 50\<close> (page numbers of 32
  bits), all of it valid, with room for the pages it may touch.
\<close>

definition ok_range :: "RevMem \<Rightarrow> u64 \<Rightarrow> nat \<Rightarrow> bool" where
  "ok_range M Addr Len \<longleftrightarrow> 0 < Len \<and> Len \<le> 2 ^ 18 \<and> unat Addr + Len \<le> 2 ^ 50 \<and>
     (\<forall>i<Len. isValidVirtAddr M (Addr + of_nat i)) \<and>
     page_room 3 M \<and> (unat (nextPage M) + 2) * 2 ^ 18 \<le> unat (memSize M)"

lemma page_step_no_overflow:
  assumes "unat (v :: u64) mod 2 ^ 18 + i < 2 ^ 18"
  shows "unat (v + of_nat i) = unat v + i"
proof -
  have "unat v < 2 ^ 46 * 2 ^ 18" using unsigned_less [of v, where 'a = nat] by simp
  from block_step_bound [OF assms this] have "unat v + i < 2 ^ 64" by simp
  then show ?thesis
    by (simp add: unat_word_ariths unsigned_of_nat take_bit_eq_mod)
qed

lemma translate_step:
  assumes ok: "pages_ok M" and tr: "translate M v = Some p"
    and i: "unat v mod 2 ^ 18 + i < 2 ^ 18"
  shows "\<exists>p'. translate M (v + of_nat i) = Some p' \<and> unat p' = unat p + i"
proof -
  from tr obtain q b where q: "pageMap M (pageNum v) = Some (q, b)" "p = page_addr q v"
    by (auto simp: translate_def)
  have small: "unat q < 2 ^ 14"
    using ok q(1) by (fastforce simp: pages_ok_def word_less_nat_alt)
  note un = page_step_no_overflow [OF i]
  have pn: "pageNum (v + of_nat i) = pageNum v"
    by (intro unat_eqI) (simp only: unat_pageNum un block_step(1) [OF i])
  have "unat (page_addr q (v + of_nat i)) = unat p + i"
    using q(2) by (simp only: unat_page_addr [OF small] un block_step(2) [OF i] add.assoc)
  then show ?thesis using q(1) pn by (simp add: translate_def)
qed

lemma mem_extends_refl: "mem_extends M M"
  by (simp add: mem_extends_def)

lemma mem_extends_trans:
  assumes A: "mem_extends M M'" and B: "mem_extends M' M''"
  shows "mem_extends M M''"
proof -
  have "unat (nextPage M) * 2 ^ 18 \<le> unat p"
    if n: "translate M v = None" and t: "translate M'' v = Some p" for v p
  proof (cases "translate M' v")
    case None
    then have "unat (nextPage M') * 2 ^ 18 \<le> unat p" using B t unfolding mem_extends_def by blast
    moreover have "unat (nextPage M) * 2 ^ 18 \<le> unat (nextPage M') * 2 ^ 18"
      using A unfolding mem_extends_def word_le_nat_alt by (intro mult_le_mono1) blast
    ultimately show ?thesis by (rule le_trans [rotated])
  next
    case (Some p')
    then have "p' = p" using B t unfolding mem_extends_def by (metis option.inject)
    with Some n A show ?thesis unfolding mem_extends_def by blast
  qed
  moreover have "nextPage M \<le> nextPage M''"
    using A B unfolding mem_extends_def by (meson order_trans)
  ultimately show ?thesis using A B unfolding mem_extends_def by metis
qed

lemma mem_extends_valid: "mem_extends M M' \<Longrightarrow> isValidVirtAddr M' v = isValidVirtAddr M v"
  by (simp add: mem_extends_def isValidVirtAddr_def)

lemma pageMap_index_translate:
  "translate M v = Some p \<Longrightarrow>
   \<exists>q. pageMap_index (pageNum v) M = (q, M) \<and> p = page_addr q v \<and> (\<exists>b. pageMap M (pageNum v) = Some (q, b))"
  by (auto simp: translate_def pageMap_index_def)


text \<open>The physical cells of an access, in the order of its virtual addresses.\<close>

fun span_locs :: "u64 \<Rightarrow> (nat \<times> u64) option \<Rightarrow> nat \<Rightarrow> nat list" where
  "span_locs p None Len = map (\<lambda>i. unat p + i) [0..<Len]"
| "span_locs p (Some (s, p')) Len =
     map (\<lambda>i. unat p + i) [0..<Len - s] @ map (\<lambda>i. unat p' + i) [0..<s]"

definition vloc :: "RevMem \<Rightarrow> u64 \<Rightarrow> nat \<Rightarrow> nat" where
  "vloc M Addr i = unat (the (translate M (Addr + of_nat i)))"

lemma unat_of_nat_u64: "n < 2 ^ 64 \<Longrightarrow> unat (of_nat n :: u64) = n"
  by (simp add: unsigned_of_nat take_bit_nat_eq_self_iff)

lemma unat_add_of_nat: "unat (a :: u64) + n < 2 ^ 64 \<Longrightarrow> unat (a + of_nat n) = unat a + n"
  by (simp add: unat_word_ariths unsigned_of_nat take_bit_eq_mod mod_simps)

lemma unat_endOfPage:
  assumes "unat q + 1 < 2 ^ 14"
  shows "unat (ucast (push_bit addrShift q + pageSize) :: u64) = unat q * 2 ^ 18 + 2 ^ 18"
proof -
  have "unat (push_bit 18 q) = unat q * 2 ^ 18"
    using assms by (simp add: push_bit_eq_mult unat_word_ariths)
  then have "unat (push_bit 18 q + 262144) = unat q * 2 ^ 18 + 2 ^ 18"
    using assms by (simp add: unat_word_ariths)
  then show ?thesis by (simp add: addrShift_def pageSize_def unat_ucast_u64)
qed

lemma vloc_step:
  assumes "pages_ok M" and "translate M (Addr + of_nat k) = Some p"
    and "unat (Addr + of_nat k) mod 2 ^ 18 + j < 2 ^ 18"
  shows "vloc M Addr (k + j) = unat p + j \<and> translate M (Addr + of_nat (k + j)) \<noteq> None"
  using translate_step [OF assms] by (auto simp: vloc_def add.assoc)

text \<open>Arithmetic of an access of \<open>Len\<close> bytes at offset \<open>off\<close> of its page.\<close>

lemma span_arith:
  assumes q: "unat (q :: u32) + 1 < 2 ^ 14" and p: "p = page_addr q Addr"
    and Len: "Len \<le> 2 ^ 18"
  defines "e \<equiv> ucast (push_bit addrShift q + pageSize) :: u64"
    and "off \<equiv> unat Addr mod 2 ^ 18"
  shows "e < p + of_nat Len \<longleftrightarrow> 2 ^ 18 < off + Len"
    and "2 ^ 18 < off + Len \<Longrightarrow> unat (ucast (p + of_nat Len - e) :: u32) = off + Len - 2 ^ 18"
proof -
  have up: "unat p = unat q * 2 ^ 18 + off"
    using q by (simp add: p unat_page_addr off_def)
  have ue: "unat e = unat q * 2 ^ 18 + 2 ^ 18"
    unfolding e_def by (rule unat_endOfPage [OF q])
  have off: "off < 2 ^ 18" by (simp add: off_def)
  have uL: "unat (p + of_nat Len) = unat p + Len"
    by (rule unat_add_of_nat) (use up off Len q in simp)
  show iff: "e < p + of_nat Len \<longleftrightarrow> 2 ^ 18 < off + Len"
    by (simp add: word_less_nat_alt uL ue up)
  assume c: "2 ^ 18 < off + Len"
  then have "unat (p + of_nat Len - e) = off + Len - 2 ^ 18"
    using iff by (subst unat_sub) (auto simp: uL ue up word_le_nat_alt)
  then show "unat (ucast (p + of_nat Len - e) :: u32) = off + Len - 2 ^ 18"
    using off Len by (simp add: unsigned_ucast_eq take_bit_nat_eq_self_iff)
qed


text \<open>What the prologue establishes for both kinds of access.\<close>

definition span_spec ::
  "RevMem \<Rightarrow> u64 \<Rightarrow> nat \<Rightarrow> u64 \<Rightarrow> (nat \<times> u64) option \<Rightarrow> RevMem \<Rightarrow> bool" where
  "span_spec M Addr Len p sp M' \<longleftrightarrow> mem_inv M' \<and> mem_extends M M' \<and>
     unat (nextPage M') \<le> unat (nextPage M) + 2 \<and>
     (\<forall>s p'. sp = Some (s, p') \<longrightarrow> 0 < s \<and> s < Len) \<and>
     span_locs p sp Len = map (vloc M' Addr) [0..<Len] \<and>
     (\<forall>i<Len. translate M' (Addr + of_nat i) \<noteq> None)"

lemma span_spec_inside:
  assumes inv: "mem_inv M1" and ext: "mem_extends M M1"
    and np: "unat (nextPage M1) \<le> unat (nextPage M) + 1"
    and p: "translate M1 Addr = Some p" and off: "unat Addr mod 2 ^ 18 + Len \<le> 2 ^ 18"
  shows "span_spec M Addr Len p None M1"
proof -
  have pg: "pages_ok M1" using inv by (simp add: mem_inv_def)
  have "vloc M1 Addr i = unat p + i \<and> translate M1 (Addr + of_nat i) \<noteq> None" if "i < Len" for i
    using vloc_step [OF pg, of Addr 0 p i] p off that by simp
  then show ?thesis using inv ext np by (simp add: span_spec_def)
qed

lemma span_spec_crossing:
  assumes inv: "mem_inv M2" and ext: "mem_extends M M2"
    and np: "unat (nextPage M2) \<le> unat (nextPage M) + 2"
    and k: "unat Addr mod 2 ^ 18 + k = 2 ^ 18" "s \<le> 2 ^ 18" "unat Addr + k < 2 ^ 64" "0 < s"
    and p: "translate M2 Addr = Some p" and p': "translate M2 (Addr + of_nat k) = Some p'"
  shows "span_spec M Addr (k + s) p (Some (s, p')) M2"
proof -
  have pg: "pages_ok M2" using inv by (simp add: mem_inv_def)
  have lo: "vloc M2 Addr i = unat p + i \<and> translate M2 (Addr + of_nat i) \<noteq> None" if "i < k" for i
    using vloc_step [OF pg, of Addr 0 p i] p k(1) that by simp
  have "unat (Addr + of_nat k) = unat Addr + k" by (rule unat_add_of_nat [OF k(3)])
  also have "\<dots> mod 2 ^ 18 = (unat Addr mod 2 ^ 18 + k) mod 2 ^ 18" by (simp add: mod_simps)
  finally have "unat (Addr + of_nat k) mod 2 ^ 18 = 0" using k(1) by simp
  then have hi: "vloc M2 Addr (k + j) = unat p' + j \<and>
      translate M2 (Addr + of_nat (k + j)) \<noteq> None" if "j < s" for j
    using vloc_step [OF pg p', of j] k(2) that by simp
  have "[0..<k + s] = [0..<k] @ map (\<lambda>j. k + j) [0..<s]"
    by (rule nth_equalityI) (auto simp: nth_append)
  then have "map (vloc M2 Addr) [0..<k + s] =
      map (vloc M2 Addr) [0..<k] @ map (\<lambda>j. vloc M2 Addr (k + j)) [0..<s]" by simp
  also have "\<dots> = span_locs p (Some (s, p')) (k + s)"
    using lo hi by simp
  finally have locs: "span_locs p (Some (s, p')) (k + s) = map (vloc M2 Addr) [0..<k + s]" ..
  have "translate M2 (Addr + of_nat i) \<noteq> None" if "i < k + s" for i
    using lo [of i] hi [of "i - k"] that by (cases "i < k") simp_all
  moreover have "0 < k" proof -
    have "unat Addr mod 2 ^ 18 < 2 ^ 18" by simp
    with k(1) show ?thesis by linarith
  qed
  ultimately show ?thesis using locs inv ext np k(4) by (simp add: span_spec_def)
qed

lemma ucast_pageNum:
  assumes "unat a < 2 ^ 50"
  shows "(ucast (ucast (drop_bit addrShift a) :: u32) :: u64) = pageNum a"
proof (rule unat_eqI)
  have "unat (pageNum a) < 2 ^ 32"
    using assms by (simp add: unat_pageNum div_less_iff_less_mult)
  then show "unat (ucast (ucast (drop_bit addrShift a) :: u32) :: u64) = unat (pageNum a)"
    by (simp add: pageNum_def unsigned_ucast_eq unsigned_take_bit_eq take_bit_nat_eq_self)
qed

theorem phys_span_spec:
  assumes inv: "mem_inv M" and ok: "ok_range M Addr Len"
  shows "\<exists>p sp M'. phys_span Addr Len M = Inr (p, sp, M') \<and> span_spec M Addr Len p sp M' \<and>
    (sp = None \<longleftrightarrow> unat Addr mod 2 ^ 18 + Len \<le> 2 ^ 18)"
proof -
  have Len: "0 < Len" "Len \<le> 2 ^ 18" and top: "unat Addr + Len \<le> 2 ^ 50"
    and valid: "\<And>i. i < Len \<Longrightarrow> isValidVirtAddr M (Addr + of_nat i)"
    and room: "unat (nextPage M) + 3 \<le> 2 ^ 14"
    using ok by (auto simp: ok_range_def page_room_def)
  have "page_room 1 M" and "isValidVirtAddr M Addr"
    using room valid [of 0] Len by (simp_all add: page_room_def)
  from CalcPhysAddr_spec [OF inv this(1)] this(2) obtain p M1 where
    c1: "CalcPhysAddr (pageNum Addr) Addr M = Inr (p, M1)" and inv1: "mem_inv M1"
    and tr1: "translate M1 Addr = Some p" and ext1: "mem_extends M M1"
    and np1: "unat (nextPage M1) \<le> unat (nextPage M) + 1" by blast
  from pageMap_index_translate [OF tr1] obtain q b where
    ix: "pageMap_index (pageNum Addr) M1 = (q, M1)" and pq: "p = page_addr q Addr"
    and qb: "pageMap M1 (pageNum Addr) = Some (q, b)" by blast
  have q: "unat q + 1 < 2 ^ 14"
    using inv1 qb np1 room by (fastforce simp: mem_inv_def pages_ok_def word_less_nat_alt)
  define off where "off = unat Addr mod 2 ^ 18"
  note ar = span_arith [OF q pq Len(2), folded off_def]
  show ?thesis
  proof (cases "2 ^ 18 < off + Len")
    case False
    then have "span_spec M Addr Len p None M1"
      using span_spec_inside [OF inv1 ext1 np1 tr1] by (simp add: off_def)
    then show ?thesis using False ar(1) by (simp add: phys_span_def c1 ix off_def)
  next
    case True
    define s where "s = off + Len - 2 ^ 18"
    define k where "k = Len - s"
    have off: "off < 2 ^ 18" by (simp add: off_def)
    have ks: "off + k = 2 ^ 18" "Len = k + s" "k < Len" "s \<le> 2 ^ 18" "0 < s"
      using True off Len by (auto simp: k_def s_def)
    let ?e = "ucast (push_bit addrShift q + pageSize) :: u64"
    let ?sp = "ucast (p + of_nat Len - ?e) :: u32"
    let ?a = "Addr + of_nat k :: u64"
    have usp: "unat ?sp = s" using ar(2) True by (simp add: s_def)
    have a: "Addr + of_nat Len - ucast ?sp = ?a"
    proof -
      have "(ucast ?sp :: u64) = of_nat s"
        by (rule unat_eqI) (use usp ks(4) in \<open>simp add: unat_ucast_u64 unat_of_nat_u64\<close>)
      then show ?thesis by (simp add: ks(2))
    qed
    have ua: "unat ?a = unat Addr + k" by (rule unat_add_of_nat) (use top ks in simp)
    have pn: "(ucast (ucast (drop_bit addrShift ?a) :: u32) :: u64) = pageNum ?a"
      by (rule ucast_pageNum) (use ua top ks in simp)
    have "page_room 1 M1" and "isValidVirtAddr M1 ?a"
      using room np1 valid [OF ks(3)] mem_extends_valid [OF ext1] by (simp_all add: page_room_def)
    from CalcPhysAddr_spec [OF inv1 this(1)] this(2) obtain p' M2 where
      c2: "CalcPhysAddr (pageNum ?a) ?a M1 = Inr (p', M2)" and inv2: "mem_inv M2"
      and tr2: "translate M2 ?a = Some p'" and ext2: "mem_extends M1 M2"
      and np2: "unat (nextPage M2) \<le> unat (nextPage M1) + 1" by blast
    have "phys_span Addr Len M = Inr (p, Some (s, p'), M2)"
      using True ar(1) by (simp add: phys_span_def c1 ix a pn c2 usp)
    moreover have "span_spec M Addr (k + s) p (Some (s, p')) M2"
      using inv2 mem_extends_trans [OF ext1 ext2] np1 np2 ks top tr1 tr2 ext2
      by (intro span_spec_crossing) (auto simp: off_def mem_extends_def)
    ultimately show ?thesis using ks(2) True unfolding off_def by (intro exI conjI) auto
  qed
qed


section \<open>Reads and writes implement the virtual address space\<close>

lemma vbyte_extends:
  assumes ext: "mem_extends M M'" and fz: "fresh_zero M"
  shows "vbyte M' v = vbyte M v"
proof (cases "translate M v")
  case None
  have "physMem M (unat p) = 0" if "translate M' v = Some p" for p
    using ext fz None that unfolding mem_extends_def fresh_zero_def by blast
  then show ?thesis using ext None by (simp add: vbyte_def mem_extends_def split: option.split)
next
  case (Some p)
  then show ?thesis using ext by (simp add: vbyte_def mem_extends_def)
qed

lemma vm_inv_extends:
  assumes "vm_inv M" and ext: "mem_extends M M'" and "mem_inv M'"
  shows "vm_inv M'"
proof -
  have "unat (nextPage M) * 2 ^ 18 \<le> unat (nextPage M') * 2 ^ 18"
    using ext unfolding mem_extends_def word_le_nat_alt by (intro mult_le_mono1) blast
  moreover have "physMem M' = physMem M" using ext by (simp add: mem_extends_def)
  ultimately have "fresh_zero M'"
    using assms(1) by (auto simp: vm_inv_def fresh_zero_def)
  with assms(3) show ?thesis by (simp add: vm_inv_def)
qed

lemma translate_bound:
  assumes "pages_ok M" and "translate M v = Some p"
  shows "unat p < unat (nextPage M) * 2 ^ 18"
proof -
  from assms(2) obtain q b where q: "pageMap M (pageNum v) = Some (q, b)" "p = page_addr q v"
    by (auto simp: translate_def)
  have lt: "unat q < unat (nextPage M)" and small: "unat q < 2 ^ 14"
    using assms(1) q(1) by (fastforce simp: pages_ok_def word_less_nat_alt)+
  have "unat p = unat q * 2 ^ 18 + unat v mod 2 ^ 18"
    using q(2) unat_page_addr [OF small] by simp
  also have "\<dots> < (unat q + 1) * 2 ^ 18" by simp
  also have "\<dots> \<le> unat (nextPage M) * 2 ^ 18" using lt by (intro mult_le_mono1) simp
  finally show ?thesis .
qed

lemma span_spec_facts:
  assumes sp: "span_spec M Addr Len p sp M'" and ok: "ok_range M Addr Len"
  shows "\<And>x. x \<in> set (span_locs p sp Len) \<Longrightarrow> x < unat (memSize M')"
    and "distinct (span_locs p sp Len)"
    and "\<And>i. i < Len \<Longrightarrow> translate M' (Addr + of_nat i) = Some (of_nat (vloc M' Addr i))"
proof -
  have pg: "pages_ok M'" and np: "unat (nextPage M') \<le> unat (nextPage M) + 2"
    and ms: "memSize M' = memSize M" and top: "unat Addr + Len \<le> 2 ^ 50"
    using sp ok by (auto simp: span_spec_def mem_inv_def mem_extends_def ok_range_def)
  show tr: "translate M' (Addr + of_nat i) = Some (of_nat (vloc M' Addr i))" if "i < Len" for i
    using sp that by (fastforce simp: span_spec_def vloc_def)
  have "unat (nextPage M') * 2 ^ 18 \<le> (unat (nextPage M) + 2) * 2 ^ 18"
    using np by (intro mult_le_mono1)
  also have "\<dots> \<le> unat (memSize M')" using ok ms by (simp add: ok_range_def)
  finally have bound: "unat (nextPage M') * 2 ^ 18 \<le> unat (memSize M')" .
  have vl: "vloc M' Addr i < unat (memSize M')" if "i < Len" for i
    using translate_bound [OF pg] sp that bound
    by (fastforce simp: span_spec_def vloc_def intro: less_le_trans)
  then show "x < unat (memSize M')" if "x \<in> set (span_locs p sp Len)" for x
    using sp that by (auto simp: span_spec_def)
  have "i = j" if "i < Len" "j < Len" "vloc M' Addr i = vloc M' Addr j" for i j
  proof -
    have "Addr + of_nat i = Addr + (of_nat j :: u64)"
      using translate_inject [OF pg] tr [OF that(1)] tr [OF that(2)] that(3) by metis
    then have "unat (Addr + (of_nat i :: u64)) = unat (Addr + (of_nat j :: u64))" by (rule arg_cong)
    then show ?thesis using top that(1,2) by (simp add: unat_add_of_nat)
  qed
  then have "inj_on (vloc M' Addr) {0..<Len}" by (auto intro: inj_onI)
  then show "distinct (span_locs p sp Len)"
    using sp by (simp add: span_spec_def distinct_map)
qed

lemma block_in_bounds: "0 < n \<Longrightarrow> (\<And>i. i < n \<Longrightarrow> a + i < B) \<Longrightarrow> a + n \<le> (B :: nat)"
  by (cases n) fastforce+

lemma span_bounds:
  assumes sp: "span_spec M Addr Len p sp M'" and ok: "ok_range M Addr Len"
  shows "sp = None \<Longrightarrow> unat p + Len \<le> unat (memSize M')"
    and "sp = Some (s, p') \<Longrightarrow>
      unat p + (Len - s) \<le> unat (memSize M') \<and> unat p' + s \<le> unat (memSize M')"
proof -
  note lt = span_spec_facts(1) [OF sp ok]
  have "0 < Len" using ok by (simp add: ok_range_def)
  then show "unat p + Len \<le> unat (memSize M')" if "sp = None"
    by (rule block_in_bounds) (rule lt, simp add: that)
  show "unat p + (Len - s) \<le> unat (memSize M') \<and> unat p' + s \<le> unat (memSize M')"
    if some: "sp = Some (s, p')"
  proof -
    have s: "0 < s" "0 < Len - s" using sp some by (auto simp: span_spec_def)
    have "unat p + (Len - s) \<le> unat (memSize M')"
      by (rule block_in_bounds [OF s(2)]) (rule lt, simp add: some, linarith)
    moreover have "unat p' + s \<le> unat (memSize M')"
      by (rule block_in_bounds [OF s(1)]) (rule lt, simp add: some)
    ultimately show ?thesis ..
  qed
qed

text \<open>The read loops return the cells of \<^const>\<open>span_locs\<close>, the write loops set them.\<close>

lemma span_read:
  assumes sp: "span_spec M Addr Len p sp M'" and ok: "ok_range M Addr Len"
  shows "(case sp of
            Some (span, p') \<Rightarrow>
              if span > Len then Inl UB_OutOfBounds
              else bind_res (phys_read (unat p) (Len - span) M') (\<lambda>b1.
                   bind_res (phys_read (unat p') span M') (\<lambda>b2. Inr (b1 @ b2)))
          | None \<Rightarrow> phys_read (unat p) Len M') = Inr (map (physMem M') (span_locs p sp Len))"
proof (cases sp)
  case None
  have "unat p + Len \<le> unat (memSize M')" using span_bounds(1) [OF sp ok None] .
  then show ?thesis using None by (simp add: phys_read_def comp_def)
next
  case (Some x)
  obtain s p' where x: "x = (s, p')" by (cases x)
  have s: "0 < s" "s < Len" using sp Some x by (auto simp: span_spec_def)
  have "unat p + (Len - s) \<le> unat (memSize M')" "unat p' + s \<le> unat (memSize M')"
    using span_bounds(2) [OF sp ok] Some x by blast+
  then show ?thesis using Some x s by (simp add: phys_read_def comp_def)
qed

lemma phys_write_spec:
  "a + length bs \<le> unat (memSize M) \<Longrightarrow>
   \<exists>f. phys_write a bs M = Inr (M\<lparr>physMem := f\<rparr>) \<and> (\<forall>i<length bs. f (a + i) = bs ! i) \<and>
       (\<forall>k. k \<notin> set (map (\<lambda>i. a + i) [0..<length bs]) \<longrightarrow> f k = physMem M k)"
proof -
  assume le: "a + length bs \<le> unat (memSize M)"
  let ?f = "\<lambda>k. if a \<le> k \<and> k < a + length bs then bs ! (k - a) else physMem M k"
  have "?f k = physMem M k" if "k \<notin> set (map (\<lambda>i. a + i) [0..<length bs])" for k
  proof (cases "a \<le> k \<and> k < a + length bs")
    case True
    then have "k = a + (k - a)" "k - a < length bs" by auto
    then have "k \<in> (\<lambda>i. a + i) ` {0..<length bs}" by (metis atLeast0LessThan imageI lessThan_iff)
    with that show ?thesis by simp
  next
    case False
    then show ?thesis by (rule if_not_P)
  qed
  then show ?thesis using le by (intro exI [of _ ?f]) (simp add: phys_write_def)
qed

lemma span_write:
  assumes sp: "span_spec M Addr Len p sp M'" and ok: "ok_range M Addr Len" and L: "length Data = Len"
  shows "\<exists>f. (case sp of
            Some (span, p') \<Rightarrow>
              if span > Len then Inl UB_OutOfBounds
              else bind_res (phys_write (unat p) (take (Len - span) Data) M')
                     (phys_write (unat p') (drop (Len - span) Data))
          | None \<Rightarrow> phys_write (unat p) Data M') = Inr (M'\<lparr>physMem := f\<rparr>) \<and>
      (\<forall>i<Len. f (span_locs p sp Len ! i) = Data ! i) \<and>
      (\<forall>k. k \<notin> set (span_locs p sp Len) \<longrightarrow> f k = physMem M' k)"
proof (cases sp)
  case None
  have "unat p + length Data \<le> unat (memSize M')" using span_bounds(1) [OF sp ok None] L by simp
  from phys_write_spec [OF this] show ?thesis using None L by auto
next
  case (Some x)
  obtain s p' where x: "x = (s, p')" by (cases x)
  have s: "0 < s" "s < Len" using sp Some x by (auto simp: span_spec_def)
  let ?k = "Len - s"
  let ?A = "map (\<lambda>i. unat p + i) [0..<?k]" and ?B = "map (\<lambda>i. unat p' + i) [0..<s]"
  have locs: "span_locs p sp Len = ?A @ ?B" using Some x by simp
  have b: "unat p + ?k \<le> unat (memSize M')" "unat p' + s \<le> unat (memSize M')"
    using span_bounds(2) [OF sp ok] Some x by blast+
  have disj: "set ?A \<inter> set ?B = {}"
    using span_spec_facts(2) [OF sp ok] locs by simp
  have "unat p + length (take ?k Data) \<le> unat (memSize M')" using b L by simp
  from phys_write_spec [OF this] L obtain f where
    w1: "phys_write (unat p) (take ?k Data) M' = Inr (M'\<lparr>physMem := f\<rparr>)"
    and f: "\<forall>i<?k. f (unat p + i) = Data ! i" "\<forall>x. x \<notin> set ?A \<longrightarrow> f x = physMem M' x" by auto
  have "unat p' + length (drop ?k Data) \<le> unat (memSize (M'\<lparr>physMem := f\<rparr>))" using b L s by simp
  from phys_write_spec [OF this] L s obtain g where
    w2: "phys_write (unat p') (drop ?k Data) (M'\<lparr>physMem := f\<rparr>) = Inr (M'\<lparr>physMem := g\<rparr>)"
    and g: "\<forall>i < s. g (unat p' + i) = Data ! (?k + i)" "\<forall>x. x \<notin> set ?B \<longrightarrow> g x = f x" by auto
  have "g ((?A @ ?B) ! i) = Data ! i" if "i < Len" for i
  proof (cases "i < ?k")
    case True
    then have "unat p + i \<in> set ?A" by simp
    then have "unat p + i \<notin> set ?B" using disj by blast
    then show ?thesis using True f g by (simp add: nth_append)
  next
    case False
    then obtain j where j: "i = ?k + j" by (auto simp: not_less le_iff_add)
    moreover have "j < s" using j \<open>i < Len\<close> s by linarith
    ultimately show ?thesis using g(1) by (simp add: nth_append)
  qed
  moreover have "g x = physMem M' x" if "x \<notin> set (?A @ ?B)" for x
    using that f(2) g(2) by simp
  ultimately show ?thesis
    using locs Some x s w1 w2 by (intro exI [of _ g]) simp
qed


lemma vbyte_vloc:
  "translate M (Addr + of_nat i) \<noteq> None \<Longrightarrow> physMem M (vloc M Addr i) = vbyte M (Addr + of_nat i)"
  by (auto simp: vbyte_def vloc_def)

lemma translate_upd [simp]:
  "translate (M\<lparr>bytesRead := n\<rparr>) = translate M" "translate (M\<lparr>bytesWritten := n\<rparr>) = translate M"
  "translate (M\<lparr>FutureRes := fs\<rparr>) = translate M"
  by (simp_all add: fun_eq_iff translate_def)

lemma vbyte_upd [simp]:
  "vbyte (M\<lparr>bytesRead := n\<rparr>) = vbyte M" "vbyte (M\<lparr>bytesWritten := n\<rparr>) = vbyte M"
  "vbyte (M\<lparr>FutureRes := fs\<rparr>) = vbyte M"
  by (simp_all add: fun_eq_iff vbyte_def split: option.split)

lemma vm_inv_upd [simp]:
  "vm_inv (M\<lparr>bytesRead := n\<rparr>) = vm_inv M" "vm_inv (M\<lparr>bytesWritten := n\<rparr>) = vm_inv M"
  "vm_inv (M\<lparr>FutureRes := fs\<rparr>) = vm_inv M"
  by (simp_all add: vm_inv_def mem_inv_def fresh_zero_def tlb_ok_def tlb_coherent_def pages_ok_def)

lemma ok_range_upd [simp]: "ok_range (M\<lparr>FutureRes := fs\<rparr>) = ok_range M"
  by (intro ext) (simp add: ok_range_def isValidVirtAddr_def page_room_def)

text \<open>What an access leaves of the layout: the valid addresses, and a bound on the pages it took.\<close>

definition mem_after :: "RevMem \<Rightarrow> RevMem \<Rightarrow> bool" where
  "mem_after M M' \<longleftrightarrow> isValidVirtAddr M' = isValidVirtAddr M \<and> memSize M' = memSize M \<and>
     unat (nextPage M') \<le> unat (nextPage M) + 2"

lemma mem_after_upd [simp]:
  "mem_after M (M'\<lparr>physMem := f\<rparr>) = mem_after M M'"
  "mem_after M (M'\<lparr>bytesRead := b\<rparr>) = mem_after M M'"
  "mem_after M (M'\<lparr>bytesWritten := b\<rparr>) = mem_after M M'"
  "mem_after (M\<lparr>FutureRes := fs\<rparr>) M' = mem_after M M'"
  by (simp_all add: mem_after_def fun_eq_iff isValidVirtAddr_def)

lemma mem_after_span: "span_spec M Addr Len p sp M' \<Longrightarrow> mem_after M M'"
  by (auto simp: span_spec_def mem_after_def fun_eq_iff mem_extends_valid mem_extends_def [of M M'])

lemma ok_range_after:
  "mem_after M M' \<Longrightarrow> ok_range M a n \<Longrightarrow> page_room 5 M \<Longrightarrow>
   (unat (nextPage M) + 4) * 2 ^ 18 \<le> unat (memSize M) \<Longrightarrow> ok_range M' a n"
  by (simp add: mem_after_def ok_range_def page_room_def)

lemma ReadMem_spec:
  assumes inv: "vm_inv M" and ok: "ok_range M Addr Len"
  shows "\<exists>M'. ReadMem hart Addr Len M = Inr (map (\<lambda>i. vbyte M (Addr + of_nat i)) [0..<Len], M') \<and>
     vm_inv M' \<and> vbyte M' = vbyte M \<and> mem_after M M'"
proof -
  have mi: "mem_inv M" and fz: "fresh_zero M" using inv by (simp_all add: vm_inv_def)
  from phys_span_spec [OF mi ok] obtain p sp M1 where
    ps: "phys_span Addr Len M = Inr (p, sp, M1)" and sp: "span_spec M Addr Len p sp M1" by blast
  have ext: "mem_extends M M1" and mi1: "mem_inv M1" using sp by (simp_all add: span_spec_def)
  have vb: "vbyte M1 = vbyte M" by (rule HOL.ext) (rule vbyte_extends [OF ext fz])
  have "map (physMem M1) (span_locs p sp Len) = map (\<lambda>i. vbyte M (Addr + of_nat i)) [0..<Len]"
    using sp vb by (auto simp: span_spec_def vbyte_vloc)
  then have "ReadMem hart Addr Len M =
      Inr (map (\<lambda>i. vbyte M (Addr + of_nat i)) [0..<Len], M1\<lparr>bytesRead := bytesRead M1 + of_nat Len\<rparr>)"
    using span_read [OF sp ok] by (simp add: ReadMem_def ps)
  then show ?thesis using vb vm_inv_extends [OF inv ext mi1] mem_after_span [OF sp] by simp
qed

text \<open>Inside a page the deprecated read is correct; what the caller's buffer held does not matter.\<close>

lemma ReadMem_deprecated_spec:
  assumes inv: "vm_inv M" and ok: "ok_range M Addr (length buf)" and "unat Addr mod 2 ^ 18 + length buf \<le> 2 ^ 18"
  shows "\<exists>M'. ReadMem_deprecated Addr buf M = Inr (map (\<lambda>i. vbyte M (Addr + of_nat i)) [0..<length buf], M') \<and>
     vm_inv M' \<and> vbyte M' = vbyte M \<and> mem_after M M'"
proof -
  have "mem_inv M" using inv by (simp add: vm_inv_def)
  from phys_span_spec [OF this ok] assms(3) obtain p M1 where "phys_span Addr (length buf) M = Inr (p, None, M1)" by auto
  then have "ReadMem_deprecated Addr buf M = ReadMem 0 Addr (length buf) M"
    by (simp add: ReadMem_deprecated_def ReadMem_def Let_def)
  then show ?thesis using ReadMem_spec [OF inv ok] by auto
qed

lemma translate_physMem [simp]: "translate (M\<lparr>physMem := f\<rparr>) = translate M"
  by (simp add: fun_eq_iff translate_def)

lemma mem_inv_physMem [simp]: "mem_inv (M\<lparr>physMem := f\<rparr>) = mem_inv M"
  by (simp add: mem_inv_def tlb_ok_def tlb_coherent_def pages_ok_def)

text \<open>The new contents of the address space after a write of \<open>bs\<close> at \<open>a\<close>.\<close>

definition vstore :: "u64 \<Rightarrow> u8 list \<Rightarrow> (u64 \<Rightarrow> u8) \<Rightarrow> u64 \<Rightarrow> u8" where
  "vstore a bs f v = (if unat (v - a) < length bs then bs ! unat (v - a) else f v)"

lemma WriteMem_spec:
  assumes inv: "vm_inv M" and ok: "ok_range M Addr (length Data)"
  shows "\<exists>M'. WriteMem hart Addr Data M = Inr M' \<and> vm_inv M' \<and>
     vbyte M' = vstore Addr Data (vbyte M) \<and> mem_after M M'"
proof -
  let ?Len = "length Data"
  obtain fs where M0: "snd (RevokeFuture Addr M) = M\<lparr>FutureRes := fs\<rparr>"
    by (cases "Addr \<in> set (FutureRes M)")
      (auto simp: RevokeFuture_def intro: that [of "FutureRes M"])
  let ?M0 = "M\<lparr>FutureRes := fs\<rparr>"
  have inv0: "vm_inv ?M0" and ok0: "ok_range ?M0 Addr ?Len" using inv ok by simp_all
  then have mi: "mem_inv ?M0" and fz: "fresh_zero ?M0" by (simp_all add: vm_inv_def)
  from phys_span_spec [OF mi ok0] obtain p sp M1 where
    ps: "phys_span Addr ?Len ?M0 = Inr (p, sp, M1)"
    and sp: "span_spec ?M0 Addr ?Len p sp M1" by blast
  have ext: "mem_extends ?M0 M1" and mi1: "mem_inv M1" and pg1: "pages_ok M1"
    using sp by (simp_all add: span_spec_def mem_inv_def)
  have vb: "vbyte M1 = vbyte M" by (rule HOL.ext) (use vbyte_extends [OF ext fz] in simp)
  have vm1: "vm_inv M1" by (rule vm_inv_extends [OF inv0 ext mi1])
  from span_write [OF sp ok0 refl] obtain f where
    w: "WriteMem hart Addr Data M = Inr (M1\<lparr>physMem := f, bytesWritten := bytesWritten M1 + of_nat ?Len\<rparr>)"
    and f: "\<forall>i<?Len. f (span_locs p sp ?Len ! i) = Data ! i"
      "\<forall>k. k \<notin> set (span_locs p sp ?Len) \<longrightarrow> f k = physMem M1 k"
    by (auto simp: WriteMem_def Let_def M0 ps)
  have locs: "span_locs p sp ?Len = map (vloc M1 Addr) [0..<?Len]"
    using sp by (simp add: span_spec_def)
  note tr = span_spec_facts(3) [OF sp ok0]
  have new: "vbyte (M1\<lparr>physMem := f\<rparr>) v = vstore Addr Data (vbyte M) v" for v
  proof (cases "unat (v - Addr) < ?Len")
    case True
    let ?i = "unat (v - Addr)"
    have v: "v = Addr + of_nat ?i" by simp
    have "f (vloc M1 Addr ?i) = Data ! ?i" using f(1) True locs by simp
    moreover have "translate M1 v \<noteq> None" using tr [OF True] v by simp
    ultimately show ?thesis using True v by (auto simp: vbyte_def vstore_def vloc_def)
  next
    case False
    have "f (unat p') = physMem M1 (unat p')" if t: "translate M1 v = Some p'" for p'
    proof -
      have "unat p' \<noteq> vloc M1 Addr i" if i: "i < ?Len" for i
      proof
        assume "unat p' = vloc M1 Addr i"
        then have "p' = of_nat (vloc M1 Addr i)" by (metis of_nat_unat ucast_id)
        then have "translate M1 (Addr + of_nat i) = Some p'" using tr [OF i] by simp
        then have "v - Addr = of_nat i" using translate_inject [OF pg1 t] by simp
        then show False using False i ok by (simp add: ok_range_def unat_of_nat_u64)
      qed
      then have "unat p' \<notin> set (span_locs p sp ?Len)" unfolding locs by fastforce
      then show ?thesis using f(2) by blast
    qed
    then have "vbyte (M1\<lparr>physMem := f\<rparr>) v = vbyte M1 v"
      by (simp add: vbyte_def split: option.split)
    then show ?thesis using False vb by (simp add: vstore_def)
  qed
  have "f k = 0" if k: "unat (nextPage M1) * 2 ^ 18 \<le> k" for k
  proof -
    have "vloc M1 Addr i < unat (nextPage M1) * 2 ^ 18" if il: "i < ?Len" for i
    proof -
      obtain p' where p': "translate M1 (Addr + of_nat i) = Some p'" using tr [OF il] by blast
      then show ?thesis using translate_bound [OF pg1 p'] by (simp add: vloc_def)
    qed
    then have "k \<notin> set (span_locs p sp ?Len)" using k unfolding locs by fastforce
    then have "f k = physMem M1 k" using f(2) by blast
    then show ?thesis using vm1 k by (simp add: vm_inv_def fresh_zero_def)
  qed
  then have "vm_inv (M1\<lparr>physMem := f\<rparr>)" using mi1 by (simp add: vm_inv_def fresh_zero_def)
  moreover have "vbyte (M1\<lparr>physMem := f\<rparr>) = vstore Addr Data (vbyte M)" by (rule HOL.ext) (rule new)
  ultimately show ?thesis using w mem_after_span [OF sp] by simp
qed


section \<open>Interface: a byte-addressed memory\<close>

text \<open>
  What the instructions rely on: reads return the bytes of the view, writes store them. The
  client's lemmas, proved once: a typed store followed by a load of the same address and width
  returns the stored value, and a load elsewhere is not changed by it.
\<close>

locale byte_memory =
  fixes load :: "u64 \<Rightarrow> nat \<Rightarrow> 's \<Rightarrow> (u8 list \<times> 's) res"
    and store :: "u64 \<Rightarrow> u8 list \<Rightarrow> 's \<Rightarrow> 's res"
    and view :: "'s \<Rightarrow> u64 \<Rightarrow> u8"
    and inv :: "'s \<Rightarrow> bool"
    and supported :: "'s \<Rightarrow> u64 \<Rightarrow> nat \<Rightarrow> bool"
  assumes read_view: "inv s \<Longrightarrow> supported s a n \<Longrightarrow>
      \<exists>s'. load a n s = Inr (map (\<lambda>i. view s (a + of_nat i)) [0..<n], s') \<and> inv s' \<and> view s' = view s"
    and write_view: "inv s \<Longrightarrow> supported s a (length bs) \<Longrightarrow>
      \<exists>s'. store a bs s = Inr s' \<and> inv s' \<and> view s' = vstore a bs (view s)"
    and supported_bound: "supported s a n \<Longrightarrow> unat a + n \<le> 2 ^ 50"
begin

lemma read_back:
  assumes "inv s" and "supported s a (length bs)" and "store a bs s = Inr s1"
    and "supported s1 a (length bs)"
  shows "\<exists>s2. load a (length bs) s1 = Inr (bs, s2) \<and> inv s2 \<and> view s2 = view s1"
proof -
  from write_view [OF assms(1,2)] assms(3) have inv1: "inv s1" and v1: "view s1 = vstore a bs (view s)"
    by auto
  have "length bs \<le> 2 ^ 50" using supported_bound [OF assms(2)] by simp
  then have "map (\<lambda>i. view s1 (a + of_nat i)) [0..<length bs] = bs"
    by (intro nth_equalityI) (auto simp: v1 vstore_def unat_of_nat_u64)
  with read_view [OF inv1 assms(4)] show ?thesis by auto
qed

lemma read_other:
  assumes "inv s" and "supported s a (length bs)" and "store a bs s = Inr s1"
    and "supported s1 b n" and "supported s b n"
    and disj: "unat a + length bs \<le> unat b \<or> unat b + n \<le> unat a"
  shows "map_sum id fst (load b n s1) = map_sum id fst (load b n s)"
proof -
  from write_view [OF assms(1,2)] assms(3) have inv1: "inv s1" and v1: "view s1 = vstore a bs (view s)"
    by auto
  have la: "unat a + length bs \<le> 2 ^ 50" and lb: "unat b + n \<le> 2 ^ 50"
    using supported_bound assms(2,4) by blast+
  have "view s1 (b + of_nat i) = view s (b + of_nat i)" if i: "i < n" for i
  proof -
    have u: "unat (b + of_nat i :: u64) = unat b + i" by (rule unat_add_of_nat) (use lb i in simp)
    have "\<not> unat (b + of_nat i - a) < length bs"
    proof (cases "unat a \<le> unat b + i")
      case True
      then have "unat (b + of_nat i - a) = unat b + i - unat a"
        by (subst unat_sub) (simp_all add: word_le_nat_alt u)
      then show ?thesis using disj True i by auto
    next
      case False
      then have "b + of_nat i < a" by (simp add: word_less_nat_alt u)
      then have "unat (b + of_nat i - a) = unat b + i + 2 ^ 64 - unat a"
        using False by (simp add: unat_sub_if_size u word_size word_le_nat_alt)
      then show ?thesis using la False by simp
    qed
    then show ?thesis by (simp add: v1 vstore_def)
  qed
  then have "map (\<lambda>i. view s1 (b + of_nat i)) [0..<n] = map (\<lambda>i. view s (b + of_nat i)) [0..<n]"
    by simp
  with read_view [OF inv1 assms(4)] read_view [OF assms(1,5)] show ?thesis by auto
qed

end

interpretation vm: byte_memory "ReadMem hart" "WriteMem hart" vbyte vm_inv ok_range
  for hart :: u32
proof
  fix s a n and bs :: "u8 list"
  assume inv: "vm_inv s"
  show "\<exists>s'. ReadMem hart a n s = Inr (map (\<lambda>i. vbyte s (a + of_nat i)) [0..<n], s') \<and>
      vm_inv s' \<and> vbyte s' = vbyte s" if "ok_range s a n"
    using ReadMem_spec [OF inv that] by blast
  show "\<exists>s'. WriteMem hart a bs s = Inr s' \<and> vm_inv s' \<and> vbyte s' = vstore a bs (vbyte s)"
    if "ok_range s a (length bs)"
    using WriteMem_spec [OF inv that] by blast
next
  fix s a n assume "ok_range s a n"
  then show "unat a + n \<le> 2 ^ 50" by (simp add: ok_range_def)
qed


section \<open>Properties\<close>

lemma vm_inv_new [intro]: "0 < tlb \<Longrightarrow> vm_inv (new_RevMem n tlb hp rnd)"
  using mem_inv_new by (simp add: vm_inv_def fresh_zero_def) (simp add: new_RevMem_def)

text \<open>The witnesses' memory: 4 MiB, all of its last MiB valid, with a page boundary at \<open>0x380000\<close>.\<close>

abbreviation demo_mem :: RevMem where
  "demo_mem \<equiv> new_RevMem 0x400000 4 0 (\<lambda>_. 0)"

lemma demo_mem_ok: "0 < n \<Longrightarrow> n \<le> 64 \<Longrightarrow> ok_range demo_mem 0x37FFFE n"
proof -
  assume n: "0 < n" "n \<le> 64"
  have "isValidVirtAddr demo_mem (0x37FFFE + of_nat i)" if "i < n" for i
  proof -
    have "unat (0x37FFFE + of_nat i :: u64) = 0x37FFFE + i"
      using unat_add_of_nat [of "0x37FFFE" i] that n by simp
    then show ?thesis using that n
      by (simp add: isValidVirtAddr_new STACK_SIZE_def word_le_nat_alt word_less_nat_alt)
  qed
  then show ?thesis using n by (simp add: ok_range_def page_room_def) (simp add: new_RevMem_def)
qed

text \<open>
  C27. \<open>ReadMem\<close> implements a flat byte memory: on a supported range it returns the bytes of the
  virtual address space at \<open>Addr, Addr + 1, ...\<close>, also when the range runs over a page boundary
  into a physical page that lies elsewhere, and changes no byte of that space.
\<close>

theorem ReadMem_correct:
  assumes "vm_inv M" and "ok_range M Addr Len"
  shows "\<exists>M'. ReadMem hart Addr Len M = Inr (map (\<lambda>i. vbyte M (Addr + of_nat i)) [0..<Len], M') \<and>
     vm_inv M' \<and> vbyte M' = vbyte M"
  using ReadMem_spec [OF assms] by blast

theorem ReadMem_correct_witness:
  "\<exists>M'. ReadMem 0 0x37FFFE 4 demo_mem = Inr ([0, 0, 0, 0], M')"
proof -
  have "vm_inv demo_mem" by (rule vm_inv_new) simp
  moreover have "vbyte demo_mem = (\<lambda>_. 0)"
    by (simp add: fun_eq_iff vbyte_def translate_def) (simp add: new_RevMem_def)
  ultimately show ?thesis
    using ReadMem_correct [of demo_mem "0x37FFFE" 4 0] demo_mem_ok [of 4]
    by (auto simp: upt_rec)
qed

text \<open>
  C26. \<open>WriteMem\<close> implements the update of a flat byte memory: on a supported range it succeeds,
  afterwards the bytes from \<open>Addr\<close> on are \<open>Data\<close>, and every other byte of the virtual address
  space is as before.
\<close>

theorem WriteMem_correct:
  assumes "vm_inv M" and "ok_range M Addr (length Data)"
  shows "\<exists>M'. WriteMem hart Addr Data M = Inr M' \<and> vm_inv M' \<and> vbyte M' = vstore Addr Data (vbyte M)"
  using WriteMem_spec [OF assms] by blast

theorem WriteMem_correct_witness:
  "\<exists>M'. WriteMem 0 0x37FFFE [1, 2, 3, 4] demo_mem = Inr M' \<and>
     map (\<lambda>i. vbyte M' (0x37FFFE + of_nat i)) [0..<4] = [1, 2, 3, 4]"
proof -
  have "vm_inv demo_mem" by (rule vm_inv_new) simp
  moreover have "ok_range demo_mem 0x37FFFE (length [1 :: u8, 2, 3, 4])" by (rule demo_mem_ok) simp_all
  ultimately obtain M' where "WriteMem 0 0x37FFFE [1, 2, 3, 4] demo_mem = Inr M'"
    and "vbyte M' = vstore 0x37FFFE [1, 2, 3, 4] (vbyte demo_mem)"
    using WriteMem_correct [of demo_mem "0x37FFFE" "[1, 2, 3, 4]" 0] by blast
  then show ?thesis by (simp add: upt_rec vstore_def)
qed

text \<open>
  Store/load round trip: what \<open>WriteU64\<close> stores is what an 8-byte \<open>ReadMem\<close> at the same
  address reads back, whatever the alignment.
\<close>

theorem WriteU64_ReadMem:
  assumes "vm_inv M" and "ok_range M Addr 8" and "WriteU64 hart Addr v M = Inr M1"
    and "ok_range M1 Addr 8"
  shows "\<exists>bs M2. ReadMem hart Addr 8 M1 = Inr (bs, M2) \<and> le_word bs = v"
proof -
  have "\<exists>M2. ReadMem hart Addr (length (le_bytes 8 v)) M1 = Inr (le_bytes 8 v, M2) \<and>
      vm_inv M2 \<and> vbyte M2 = vbyte M1"
    by (rule vm.read_back [of M]) (use assms in \<open>simp_all add: WriteU64_def\<close>)
  then show ?thesis by (auto simp: le_word_le_bytes_exact)
qed

lemma demo_mem_write:
  assumes "0 < length Data" and "length Data \<le> 64"
  obtains M1 where "WriteMem hart 0x37FFFE Data demo_mem = Inr M1" and "vm_inv M1"
    and "mem_after demo_mem M1"
proof -
  have "vm_inv demo_mem" by (rule vm_inv_new) simp
  with demo_mem_ok [OF assms] that show thesis using WriteMem_spec [of demo_mem] by blast
qed

lemma demo_mem_room: "page_room 5 demo_mem" "(unat (nextPage demo_mem) + 4) * 2 ^ 18 \<le> unat (memSize demo_mem)"
  by (simp_all add: page_room_def new_RevMem_def)

theorem WriteU64_ReadMem_witness:
  "\<exists>M1 bs M2. WriteU64 0 0x37FFFE 0x1122334455667788 demo_mem = Inr M1 \<and>
     ReadMem 0 0x37FFFE 8 M1 = Inr (bs, M2) \<and> le_word bs = (0x1122334455667788 :: u64)"
proof -
  obtain M1 where M1: "WriteMem 0 0x37FFFE (le_bytes 8 (0x1122334455667788 :: u64)) demo_mem = Inr M1"
    and af: "mem_after demo_mem M1" by (rule demo_mem_write [of "le_bytes 8 (0x1122334455667788 :: u64)"]) simp_all
  have w: "WriteU64 0 0x37FFFE 0x1122334455667788 demo_mem = Inr M1" using M1 by (simp add: WriteU64_def)
  have "vm_inv demo_mem" by (rule vm_inv_new) simp
  moreover have ok: "ok_range demo_mem 0x37FFFE 8" by (rule demo_mem_ok) simp_all
  ultimately show ?thesis
    using WriteU64_ReadMem [OF _ ok w ok_range_after [OF af ok demo_mem_room]] w by blast
qed

text \<open>
  Non-interference: a load from a range that does not overlap a store returns the same bytes
  before and after the store.
\<close>

theorem WriteMem_ReadMem_disjoint:
  assumes "vm_inv M" and "ok_range M a (length Data)" and "WriteMem hart a Data M = Inr M1"
    and "ok_range M1 b n" and "ok_range M b n"
    and "unat a + length Data \<le> unat b \<or> unat b + n \<le> unat a"
  shows "map_sum id fst (ReadMem hart b n M1) = map_sum id fst (ReadMem hart b n M)"
  by (rule vm.read_other [OF assms])

theorem WriteMem_ReadMem_disjoint_witness:
  "\<exists>M1 M2. WriteMem 0 0x37FFFE [1, 2] demo_mem = Inr M1 \<and> ReadMem 0 0x380000 2 M1 = Inr ([0, 0], M2)"
proof -
  obtain M1 where w: "WriteMem 0 0x37FFFE [1, 2] demo_mem = Inr M1"
    and af: "mem_after demo_mem M1" by (rule demo_mem_write [of "[1, 2]"]) simp_all
  have inv: "vm_inv demo_mem" by (rule vm_inv_new) simp
  have ok: "ok_range demo_mem 0x37FFFE (length [1 :: u8, 2])" by (rule demo_mem_ok) simp_all
  have "isValidVirtAddr demo_mem (0x380000 + of_nat i)" if "i < 2" for i
    using that by (cases "i = 0")
      (auto simp: isValidVirtAddr_new STACK_SIZE_def less_2_cases_iff)
  then have okb: "ok_range demo_mem 0x380000 2"
    using demo_mem_ok [of 2] by (simp add: ok_range_def)
  have "vbyte demo_mem = (\<lambda>_. 0)"
    by (simp add: fun_eq_iff vbyte_def translate_def) (simp add: new_RevMem_def)
  then obtain M' where "ReadMem 0 0x380000 2 demo_mem = Inr ([0, 0], M')"
    using ReadMem_spec [OF inv okb, of 0] by (auto simp: upt_rec)
  then show ?thesis
    using WriteMem_ReadMem_disjoint [OF inv ok w ok_range_after [OF af okb demo_mem_room] okb] w
    by (cases "ReadMem 0 0x380000 2 M1") auto
qed

end
