(* ===== verification/Rev_Exec.thy ===== *)
theory Rev_Exec
  imports Rev_Feature Rev_InstTable Rev_MemRW
begin

text \<open>
  The state an instruction function of include/insns works on, and the steps those functions
  share: register file updates, loads into a register slot, and the cost of a memory access.
  An instruction has the C++ signature \<open>bool f(RevFeature*, RevRegFile*, RevMem*, RevInst)\<close>; every
  function of the modelled extensions returns \<open>true\<close>, so the model returns the new state or an
  error.
\<close>

section \<open>Execution state\<close>

text \<open>\<open>hazard\<close> is the flag the pointer \<open>Inst.hazard\<close> refers to.\<close>

record mstate =
  regs :: RevRegFile
  mem :: RevMem
  hazard :: bool

type_synonym insn = "RevFeature \<Rightarrow> RevInst \<Rightarrow> mstate \<Rightarrow> mstate res"

definition updR :: "(RevRegFile \<Rightarrow> RevRegFile) \<Rightarrow> mstate \<Rightarrow> mstate" where
  "updR f S = S\<lparr>regs := f (regs S)\<rparr>"

definition onR :: "(RevRegFile \<Rightarrow> RevRegFile) \<Rightarrow> mstate \<Rightarrow> mstate res" where
  "onR f S = Inr (updR f S)"

definition onR_res :: "(RevRegFile \<Rightarrow> RevRegFile res) \<Rightarrow> mstate \<Rightarrow> mstate res" where
  "onR_res f S = bind_res (f (regs S)) (\<lambda>R. Inr (S\<lparr>regs := R\<rparr>))"

text \<open>The common tail \<open>RVxx_PC += Inst.instSize\<close> on the register file the machine uses.\<close>

definition incPC :: "RevFeature \<Rightarrow> RevInst \<Rightarrow> RevRegFile \<Rightarrow> RevRegFile" where
  "incPC F Inst R = (if IsRV32 F then incPC32 Inst R else incPC64 Inst R)"

text \<open>C++ addition of two signed integers: undefined when the sum does not fit.\<close>

definition s_add :: "'a::len word \<Rightarrow> 'a word \<Rightarrow> 'a word res" where
  "s_add a b = (if sint a + sint b = sint (a + b) then Inr (a + b) else Inl UB_SignedOverflow)"


section \<open>Memory access from an instruction\<close>

text \<open>
  \<open>M->ReadVal(Hart, Addr, (T*)(&R->RVxx[rd]), Inst.hazard, flags)\<close>: \<open>sizeof(T)\<close> bytes are copied
  over the low end of the register's storage, the bytes above stay.
\<close>

definition overlay :: "u8 list \<Rightarrow> 'a::len word \<Rightarrow> 'a word" where
  "overlay bs w = le_word (bs @ drop (length bs) (le_bytes (LENGTH('a) div 8) w))"

definition ReadVal32 :: "nat \<Rightarrow> RevFeature \<Rightarrow> u64 \<Rightarrow> nat \<Rightarrow> mstate \<Rightarrow> mstate res" where
  "ReadVal32 n F Addr r S =
     bind_res (ReadMem (GetHart F) Addr n (mem S)) (\<lambda>(bs, M').
       Inr (S\<lparr>mem := M', hazard := False, regs := set32 r (overlay bs (get32 (regs S) r)) (regs S)\<rparr>))"

definition ReadVal64 :: "nat \<Rightarrow> RevFeature \<Rightarrow> u64 \<Rightarrow> nat \<Rightarrow> mstate \<Rightarrow> mstate res" where
  "ReadVal64 n F Addr r S =
     bind_res (ReadMem (GetHart F) Addr n (mem S)) (\<lambda>(bs, M').
       Inr (S\<lparr>mem := M', hazard := False, regs := set64 r (overlay bs (get64 (regs S) r)) (regs S)\<rparr>))"

definition onM :: "(RevMem \<Rightarrow> RevMem res) \<Rightarrow> mstate \<Rightarrow> mstate res" where
  "onM f S = bind_res (f (mem S)) (\<lambda>M'. Inr (S\<lparr>mem := M'\<rparr>))"

text \<open>\<open>R->cost += M->RandCost(F->GetMinCost(), F->GetMaxCost())\<close>\<close>

definition addCost :: "RevFeature \<Rightarrow> mstate \<Rightarrow> mstate res" where
  "addCost F S =
     bind_res (RandCost (MinCost F) (MaxCost F) (mem S)) (\<lambda>(c, M').
       Inr (S\<lparr>mem := M', regs := (regs S)\<lparr>rf_cost := rf_cost (regs S) + c\<rparr>\<rparr>))"

text \<open>
  The address operand \<open>(uint64_t)(R->RVxx[rs1] + (int32_t)(td_u32(Inst.imm,12)))\<close>: on RV32 the
  sum is taken in 32 bits and then widened, on RV64 the offset is sign-extended first.
\<close>

definition ea32 :: "RevInst \<Rightarrow> RevRegFile \<Rightarrow> u64" where
  "ea32 Inst R = ucast (get32 R (rs1 Inst) + td_u32 (imm Inst) 12)"

definition ea64 :: "RevInst \<Rightarrow> RevRegFile \<Rightarrow> u64" where
  "ea64 Inst R = get64 R (rs1 Inst) + scast (td_u32 (imm Inst) 12)"


section \<open>Lemmas\<close>

lemma updR_simps [simp]:
  "regs (updR f S) = f (regs S)" "mem (updR f S) = mem S" "hazard (updR f S) = hazard S"
  by (simp_all add: updR_def)

lemma onR_res_Inr [simp]: "f (regs S) = Inr R \<Longrightarrow> onR_res f S = Inr (updR (\<lambda>_. R) S)"
  by (simp add: onR_res_def updR_def)

lemma incPC_frames [simp]:
  "RV32 (incPC F I R) = RV32 R" "RV64 (incPC F I R) = RV64 R"
  by (simp_all add: incPC_def)

text \<open>\<open>SEXT\<close> into a 32-bit variable at width 32 is the identity, whatever the operand's extension.\<close>

lemma ucast_SEXT_32:
  fixes x :: u64
  shows "(ucast (SEXT x 32) :: u32) = ucast x"
proof -
  have x: "(ucast (x XOR push_bit 31 1) :: u32) = ucast x XOR push_bit 31 1"
    by (rule bit_word_eqI) (auto simp: bit_simps)
  have "(ucast (SEXT x 32) :: u32) = ucast (x XOR push_bit 31 1) - ucast (push_bit 31 1 :: u64)"
    by (simp add: SEXT_def ucast_down_arith)
  also have "(ucast (push_bit 31 1 :: u64) :: u32) = push_bit 31 1" by simp
  also have "ucast (x XOR push_bit 31 1) - push_bit 31 1 = (sext 32 (ucast x) :: u32)"
    unfolding x by (subst xor_minus_eq_sext [of 32, symmetric]) (auto dest: bit_imp_le_length)
  finally show ?thesis by simp
qed

lemma ucast_scast_32 [simp]: "(ucast (scast (x :: u32) :: u64) :: u32) = x"
  by (rule bit_word_eqI) (auto simp: bit_simps)

lemma SEXT_32_scast: "SEXT (ucast (x :: u32)) 32 = scast x"
proof -
  have "SEXT (ucast x) 32 = sext 32 (ucast x)"
    by (rule SEXT_sext) (auto simp: bit_simps dest: bit_imp_le_length)
  also have "\<dots> = scast x"
    by (rule bit_word_eqI)
      (auto simp: bit_sext bit_simps min_def not_less le_less_Suc_eq numeral_eq_Suc)
  finally show ?thesis .
qed

lemma bit_overlay:
  "8 dvd LENGTH('a) \<Longrightarrow> 8 * length bs \<le> LENGTH('a) \<Longrightarrow>
   bit (overlay bs (w :: 'a::len word)) i \<longleftrightarrow>
     i < LENGTH('a) \<and> (if i < 8 * length bs then bit (bs ! (i div 8)) (i mod 8) else bit w i)"
  by (cases "i < LENGTH('a)"; cases "i div 8 < length bs")
    (auto simp: overlay_def bit_le_word le_bytes_def nth_append bit_simps div_less_iff_less_mult
      mult.commute less_mult_imp_div_less)

lemma overlay_mask:
  assumes "8 dvd LENGTH('a)" and "8 * length bs \<le> LENGTH('a)"
  shows "overlay bs (w :: 'a::len word) AND mask (8 * length bs) = le_word bs"
  by (rule bit_word_eqI)
    (use assms in \<open>auto simp: bit_overlay bit_le_word bit_simps div_less_iff_less_mult mult.commute\<close>)

lemma overlay_full:
  assumes "LENGTH('a) = 8 * length bs"
  shows "overlay bs (w :: 'a::len word) = le_word bs"
  by (rule bit_word_eqI)
    (use assms in \<open>auto simp: bit_overlay bit_le_word bit_simps div_less_iff_less_mult mult.commute\<close>)


section \<open>States for the concrete instances\<close>

text \<open>Cores of both word lengths, an instruction word of size 4, and a cleared register file.\<close>

abbreviation demo_F64 :: RevFeature where
  "demo_F64 \<equiv> \<lparr>machine = ''RV64IMA'', MinCost = 1, MaxCost = 10, Hart = 0, features = 0, xlen = 64\<rparr>"

abbreviation demo_F32 :: RevFeature where
  "demo_F32 \<equiv> \<lparr>machine = ''RV32IMA'', MinCost = 1, MaxCost = 10, Hart = 0, features = 0, xlen = 32\<rparr>"

abbreviation demo_inst :: "nat \<Rightarrow> nat \<Rightarrow> nat \<Rightarrow> u32 \<Rightarrow> RevInst" where
  "demo_inst d s1 s2 i \<equiv> \<lparr>opcode = 0, funct2 = 0, funct3 = 0, funct4 = 0, funct6 = 0, funct7 = 0,
     rd = d, rs1 = s1, rs2 = s2, rs3 = 0, imm = i, fmt = 0, rm = 0, aq = 0, rl = 0, offset = 0,
     jumpTarget = 0, instSize = 4, compressed = False, cost = 1, entry = 0\<rparr>"

abbreviation demo_regs :: RevRegFile where
  "demo_regs \<equiv> \<lparr>RV32 = (\<lambda>_. 0), RV64 = (\<lambda>_. 0), SPF = (\<lambda>_. 0), DPF = (\<lambda>_. 0), RV64_SSTATUS = 0,
     RV64_SEPC = 0, RV64_SCAUSE = 0, RV64_STVAL = 0, RV64_STVEC = 0, RV32_SSTATUS = 0, RV32_SEPC = 0,
     RV32_SCAUSE = 0, RV32_STVAL = 0, RV32_STVEC = 0, RV32_Scoreboard = (\<lambda>_. False),
     RV64_Scoreboard = (\<lambda>_. False), SPF_Scoreboard = (\<lambda>_. False), DPF_Scoreboard = (\<lambda>_. False),
     RV32_PC = 0x1000, RV64_PC = 0x1000, FCSR = 0, rf_cost = 0, trigger = False, Entry = 0\<rparr>"

definition demo_state :: "(nat \<Rightarrow> u64) \<Rightarrow> mstate" where
  "demo_state f = \<lparr>regs = demo_regs\<lparr>RV64 := f, RV32 := \<lambda>r. ucast (f r)\<rparr>, mem = demo_mem, hazard = False\<rparr>"

lemma demo_state_simps [simp]:
  "get64 (regs (demo_state f)) r = (if r > 0 then f r else 0)"
  "get32 (regs (demo_state f)) r = (if r > 0 then ucast (f r) else 0)"
  "RV64_PC (regs (demo_state f)) = 0x1000" "RV32_PC (regs (demo_state f)) = 0x1000"
  "mem (demo_state f) = demo_mem" "hazard (demo_state f) = False"
  by (simp_all add: demo_state_def RF_get_def)

lemma demo_IsRV32 [simp]: "\<not> IsRV32 demo_F64" "IsRV32 demo_F32"
  by (simp_all add: IsRV32_def)

end
