(* ===== verification/Rev_RV32I.thy ===== *)
theory Rev_RV32I
  imports Rev_Exec
begin

text \<open>
  The base integer instructions (include/insns/RV32I.h): one definition per instruction
  function, in both word lengths, and the compressed ones that rewrite their operands and call
  them. Register writes are kept in the order of the source, so that a destination which is also
  a source is read as the C++ code reads it.
\<close>

section \<open>Upper immediates and jumps\<close>

definition lui :: insn where
  "lui F Inst = onR (\<lambda>R.
     if IsRV32 F then incPC32 Inst (set32 (rd Inst) (push_bit 12 (imm Inst)) (set32 (rd Inst) 0 R))
     else incPC64 Inst (set64 (rd Inst) (SEXT (ucast (push_bit 12 (imm Inst))) 32) (set64 (rd Inst) 0 R)))"

definition auipc :: insn where
  "auipc F Inst = onR (\<lambda>R.
     if IsRV32 F then
       incPC32 Inst (set32 (rd Inst) (push_bit 12 (imm Inst) + dt_u32 (RV32_PC R) 32) (set32 (rd Inst) 0 R))
     else
       let tmp = SEXT (ucast (push_bit 12 (imm Inst))) 32
       in incPC64 Inst (set64 (rd Inst) (tmp + dt_u64 (RV64_PC R) 64) (set64 (rd Inst) 0 R)))"

definition jal :: insn where
  "jal F Inst = onR_res (\<lambda>R.
     if IsRV32 F then
       let R1 = set32 (rd Inst) (RV32_PC R + ucast (instSize Inst)) R
       in bind_res (s_add (RV32_PC R1) (td_u32 (imm Inst) 20)) (\<lambda>pc.
            Inr (set32 0 0 (R1\<lparr>RV32_PC := pc\<rparr>)))
     else
       let tmp = td_u64 (ucast (imm Inst)) 20;
           R1 = set64 (rd Inst) (RV64_PC R + instSize Inst) R
       in bind_res (s_add (RV64_PC R1) tmp) (\<lambda>pc. Inr (set64 0 0 (R1\<lparr>RV64_PC := pc\<rparr>))))"

definition jalr :: insn where
  "jalr F Inst = onR (\<lambda>R.
     if IsRV32 F then
       let tmp = RV32_PC R + ucast (instSize Inst);
           R1 = R\<lparr>RV32_PC := (td_u32 (get32 R (rs1 Inst)) 32 + td_u32 (imm Inst) 12) AND NOT 1\<rparr>
       in set32 0 0 (set32 (rd Inst) tmp R1)
     else
       let tmp = RV64_PC R + instSize Inst;
           R1 = R\<lparr>RV64_PC := (td_u64 (get64 R (rs1 Inst)) 64 + td_u64 (ucast (imm Inst)) 12) AND NOT 1\<rparr>
       in set64 0 0 (set64 (rd Inst) tmp R1))"


section \<open>Branches\<close>

text \<open>The body the six branch functions share, with the condition already evaluated.\<close>

definition branch32 :: "bool \<Rightarrow> RevInst \<Rightarrow> RevRegFile \<Rightarrow> RevRegFile" where
  "branch32 c Inst R =
     (if c then R\<lparr>RV32_PC := RV32_PC R + td_u32 (imm Inst) 13\<rparr>
      else R\<lparr>RV32_PC := RV32_PC R + ucast (instSize Inst)\<rparr>)"

definition branch64 :: "bool \<Rightarrow> RevInst \<Rightarrow> RevRegFile \<Rightarrow> RevRegFile" where
  "branch64 c Inst R =
     (if c then R\<lparr>RV64_PC := RV64_PC R + td_u64 (ucast (imm Inst)) 13\<rparr>
      else R\<lparr>RV64_PC := RV64_PC R + instSize Inst\<rparr>)"

definition beq :: insn where
  "beq F Inst = onR (\<lambda>R.
     if IsRV32 F then branch32 (get32 R (rs1 Inst) = get32 R (rs2 Inst)) Inst R
     else branch64 (get64 R (rs1 Inst) = get64 R (rs2 Inst)) Inst R)"

definition bne :: insn where
  "bne F Inst = onR (\<lambda>R.
     if IsRV32 F then branch32 (get32 R (rs1 Inst) \<noteq> get32 R (rs2 Inst)) Inst R
     else branch64 (get64 R (rs1 Inst) \<noteq> get64 R (rs2 Inst)) Inst R)"

definition blt :: insn where
  "blt F Inst = onR (\<lambda>R.
     if IsRV32 F then branch32 (sint (get32 R (rs1 Inst)) < sint (get32 R (rs2 Inst))) Inst R
     else branch64 (sint (get64 R (rs1 Inst)) < sint (get64 R (rs2 Inst))) Inst R)"

definition bge :: insn where
  "bge F Inst = onR (\<lambda>R.
     if IsRV32 F then branch32 (sint (get32 R (rs1 Inst)) \<ge> sint (get32 R (rs2 Inst))) Inst R
     else branch64 (sint (get64 R (rs1 Inst)) \<ge> sint (get64 R (rs2 Inst))) Inst R)"

definition bltu :: insn where
  "bltu F Inst = onR (\<lambda>R.
     if IsRV32 F then branch32 (get32 R (rs1 Inst) < get32 R (rs2 Inst)) Inst R
     else branch64 (get64 R (rs1 Inst) < get64 R (rs2 Inst)) Inst R)"

definition bgeu :: insn where
  "bgeu F Inst = onR (\<lambda>R.
     if IsRV32 F then branch32 (get32 R (rs1 Inst) \<ge> get32 R (rs2 Inst)) Inst R
     else branch64 (get64 R (rs1 Inst) \<ge> get64 R (rs2 Inst)) Inst R)"


section \<open>Loads and stores\<close>

definition lb :: insn where
  "lb F Inst S =
     bind_res
       (if IsRV32 F then
          bind_res (ReadVal32 1 F (ea32 Inst (regs S)) (rd Inst) S) (onR (\<lambda>R.
            let R1 = set32 (rd Inst) (get32 R (rd Inst) AND 0xFF) R;
                R2 = set32 (rd Inst) (ucast (SEXT (ucast (get32 R1 (rd Inst))) 8)) R1
            in incPC32 Inst R2))
        else
          bind_res (ReadVal64 1 F (ea64 Inst (regs S)) (rd Inst) S) (onR (\<lambda>R.
            let R1 = set64 (rd Inst) (get64 R (rd Inst) AND 0xFF) R;
                R2 = set64 (rd Inst) (SEXT (get64 R1 (rd Inst)) 8) R1
            in incPC64 Inst R2)))
       (addCost F)"

definition lh :: insn where
  "lh F Inst S =
     bind_res
       (if IsRV32 F then
          bind_res (ReadVal32 2 F (ea32 Inst (regs S)) (rd Inst) S) (onR (\<lambda>R.
            let R1 = set32 (rd Inst) (get32 R (rd Inst) AND 0xFFFF) R;
                R2 = set32 (rd Inst) (ucast (SEXT (ucast (get32 R1 (rd Inst))) 16)) R1
            in incPC32 Inst R2))
        else
          bind_res (ReadVal64 2 F (ea64 Inst (regs S)) (rd Inst) S) (onR (\<lambda>R.
            let R1 = set64 (rd Inst) (get64 R (rd Inst) AND 0xFFFF) R;
                R2 = set64 (rd Inst) (SEXT (get64 R1 (rd Inst)) 16) R1
            in incPC64 Inst R2)))
       (addCost F)"

definition lw :: insn where
  "lw F Inst S =
     bind_res
       (if IsRV32 F then
          bind_res (ReadVal32 4 F (ea32 Inst (regs S)) (rd Inst) S) (onR (\<lambda>R.
            let R1 = set32 (rd Inst) (get32 R (rd Inst) AND 0xFFFFFFFF) R;
                R2 = set32 (rd Inst) (ucast (SEXT (ucast (get32 R1 (rd Inst))) 32)) R1
            in incPC32 Inst R2))
        else
          bind_res (ReadVal64 4 F (ea64 Inst (regs S)) (rd Inst) S) (onR (\<lambda>R.
            let R1 = set64 (rd Inst) (get64 R (rd Inst) AND 0xFFFFFFFF) R;
                R2 = set64 (rd Inst) (SEXT (get64 R1 (rd Inst)) 32) R1
            in incPC64 Inst R2)))
       (addCost F)"

definition lbu :: insn where
  "lbu F Inst S =
     bind_res
       (if IsRV32 F then
          bind_res (ReadVal32 1 F (ea32 Inst (regs S)) (rd Inst) S) (onR (\<lambda>R.
            incPC32 Inst (set32 (rd Inst) (get32 R (rd Inst) AND 0xFF) R)))
        else
          bind_res (ReadVal64 1 F (ea64 Inst (regs S)) (rd Inst) S) (onR (\<lambda>R.
            incPC64 Inst (set64 (rd Inst) (get64 R (rd Inst) AND 0xFF) R))))
       (addCost F)"

text \<open>On RV32 the mask of \<open>lhu\<close> is applied to the register of the other file, \<open>RV64[rd]\<close>.\<close>

definition lhu :: insn where
  "lhu F Inst S =
     bind_res
       (if IsRV32 F then
          bind_res (ReadVal32 2 F (ea32 Inst (regs S)) (rd Inst) S) (onR (\<lambda>R.
            incPC32 Inst (set64 (rd Inst) (get64 R (rd Inst) AND 0xFFFF) R)))
        else
          bind_res (ReadVal64 2 F (ea64 Inst (regs S)) (rd Inst) S) (onR (\<lambda>R.
            incPC64 Inst (set64 (rd Inst) (get64 R (rd Inst) AND 0xFFFF) R))))
       (addCost F)"

definition sb :: insn where
  "sb F Inst S =
     (if IsRV32 F then
        bind_res (onM (WriteU8 (GetHart F) (ea32 Inst (regs S)) (ucast (get32 (regs S) (rs2 Inst)))) S)
          (onR (incPC32 Inst))
      else
        bind_res (onM (WriteU8 (GetHart F) (ea64 Inst (regs S)) (ucast (get64 (regs S) (rs2 Inst)))) S)
          (onR (incPC64 Inst)))"

definition sh :: insn where
  "sh F Inst S =
     (if IsRV32 F then
        let tmp = (ucast (ucast (get32 (regs S) (rs2 Inst)) :: u16) :: u64)
        in bind_res (onM (WriteU16 (GetHart F) (ea32 Inst (regs S)) (ucast tmp)) S)
             (onR (incPC32 Inst))
      else
        let tmp = (ucast (ucast (get64 (regs S) (rs2 Inst)) :: u16) :: u64)
        in bind_res (onM (WriteU16 (GetHart F) (ea64 Inst (regs S)) (ucast tmp)) S)
             (onR (incPC64 Inst)))"

definition sw :: insn where
  "sw F Inst S =
     (if IsRV32 F then
        bind_res (onM (WriteU32 (GetHart F) (ea32 Inst (regs S)) (get32 (regs S) (rs2 Inst))) S)
          (onR (incPC32 Inst))
      else
        bind_res (onM (WriteU32 (GetHart F) (ea64 Inst (regs S)) (ucast (get64 (regs S) (rs2 Inst)))) S)
          (onR (incPC64 Inst)))"


section \<open>Register-immediate operations\<close>

definition addi :: insn where
  "addi F Inst = onR_res (\<lambda>R.
     if IsRV32 F then
       bind_res (s_add (td_u32 (get32 R (rs1 Inst)) 32) (td_u32 (imm Inst) 12)) (\<lambda>v.
         Inr (incPC32 Inst (set32 (rd Inst) (dt_u32 v 32) R)))
     else Inr (incPC64 Inst (set64 (rd Inst)
            (dt_u64 (td_u64 (get64 R (rs1 Inst)) 64 + td_u64 (ucast (imm Inst)) 12) 64) R)))"

definition slti :: insn where
  "slti F Inst = onR (\<lambda>R.
     if IsRV32 F then
       incPC32 Inst (set32 (rd Inst)
         (if sint (td_u32 (get32 R (rs1 Inst)) 32) < sint (td_u32 (imm Inst) 12) then 1 else 0) R)
     else
       incPC64 Inst (set64 (rd Inst)
         (if sint (td_u64 (get64 R (rs1 Inst)) 64) < sint (td_u64 (ucast (imm Inst)) 12) then 1 else 0) R))"

definition sltiu :: insn where
  "sltiu F Inst =
     (let tmp = (ucast (SEXT (ucast (imm Inst)) 12) :: u32);
          tmp64 = SEXT (ucast (imm Inst)) 12
      in onR (\<lambda>R.
        if IsRV32 F then incPC32 Inst (set32 (rd Inst) (if get32 R (rs1 Inst) < tmp then 1 else 0) R)
        else incPC64 Inst (set64 (rd Inst) (if get64 R (rs1 Inst) < tmp64 then 1 else 0) R)))"

definition xori :: insn where
  "xori F Inst = onR (\<lambda>R.
     if IsRV32 F then
       let tmp32 = ucast (SEXT (ucast (imm Inst)) 12)
       in incPC32 Inst (set32 (rd Inst) (get32 R (rs1 Inst) XOR tmp32) R)
     else
       let tmp64 = SEXT (ucast (imm Inst)) 12
       in incPC64 Inst (set64 (rd Inst) (get64 R (rs1 Inst) XOR tmp64) R))"

definition ori :: insn where
  "ori F Inst = onR (\<lambda>R.
     if IsRV32 F then
       let tmp32 = ucast (SEXT (ucast (imm Inst)) 12)
       in incPC32 Inst (set32 (rd Inst) (get32 R (rs1 Inst) OR tmp32) R)
     else
       let tmp64 = SEXT (ucast (imm Inst)) 12
       in incPC64 Inst (set64 (rd Inst) (get64 R (rs1 Inst) OR tmp64) R))"

definition andi :: insn where
  "andi F Inst = onR (\<lambda>R.
     if IsRV32 F then
       let tmp32 = ucast (SEXT (ucast (imm Inst)) 12)
       in incPC32 Inst (set32 (rd Inst) (get32 R (rs1 Inst) AND tmp32) R)
     else
       let tmp64 = SEXT (ucast (imm Inst)) 12
       in incPC64 Inst (set64 (rd Inst) (get64 R (rs1 Inst) AND tmp64) R))"

definition slli :: insn where
  "slli F Inst = onR (\<lambda>R.
     if IsRV32 F then
       incPC32 Inst (set32 (rd Inst) (push_bit (unat (imm Inst AND 0x1F)) (get32 R (rs1 Inst))) R)
     else
       incPC64 Inst (set64 (rd Inst) (push_bit (unat (imm Inst AND 0x3F)) (get64 R (rs1 Inst))) R))"

definition srli :: insn where
  "srli F Inst = onR (\<lambda>R.
     if IsRV32 F then
       incPC32 Inst (set32 (rd Inst) (drop_bit (unat (imm Inst AND 0x1F)) (get32 R (rs1 Inst))) R)
     else
       incPC64 Inst (set64 (rd Inst) (drop_bit (unat (imm Inst AND 0x3F)) (get64 R (rs1 Inst))) R))"

definition srai :: insn where
  "srai F Inst = onR (\<lambda>R.
     if IsRV32 F then
       let x = signed_drop_bit (unat (imm Inst AND 0x1F)) (get32 R (rs1 Inst));
           R1 = set32 (rd Inst) (ucast (SEXT (scast x) 32)) R;
           R2 = set32 (rd Inst) (ucast (SEXT (ucast (get32 R1 (rd Inst))) 32)) R1
       in incPC32 Inst R2
     else
       let x = signed_drop_bit (unat (imm Inst AND 0x3F)) (get64 R (rs1 Inst));
           R1 = set64 (rd Inst) (SEXT x 64) R;
           R2 = set64 (rd Inst) (SEXT (get64 R1 (rd Inst)) 64) R1
       in incPC64 Inst R2)"


section \<open>Register-register operations\<close>

definition add :: insn where
  "add F Inst = onR (\<lambda>R.
     if IsRV32 F then
       incPC32 Inst (set32 (rd Inst)
         (dt_u32 (td_u32 (get32 R (rs1 Inst)) 32 + td_u32 (get32 R (rs2 Inst)) 32) 32) R)
     else
       incPC64 Inst (set64 (rd Inst)
         (dt_u64 (td_u64 (get64 R (rs1 Inst)) 64 + td_u64 (get64 R (rs2 Inst)) 64) 64) R))"

definition sub :: insn where
  "sub F Inst = onR (\<lambda>R.
     if IsRV32 F then
       incPC32 Inst (set32 (rd Inst)
         (dt_u32 (td_u32 (get32 R (rs1 Inst)) 32 - td_u32 (get32 R (rs2 Inst)) 32) 32) R)
     else
       incPC64 Inst (set64 (rd Inst)
         (dt_u64 (td_u64 (get64 R (rs1 Inst)) 64 - td_u64 (get64 R (rs2 Inst)) 64) 64) R))"

definition sll :: insn where
  "sll F Inst = onR (\<lambda>R.
     if IsRV32 F then
       incPC32 Inst (set32 (rd Inst)
         (push_bit (unat (get32 R (rs2 Inst) AND 0b11111)) (get32 R (rs1 Inst))) R)
     else
       incPC64 Inst (set64 (rd Inst)
         (push_bit (unat (get64 R (rs2 Inst) AND 0b111111)) (get64 R (rs1 Inst))) R))"

definition slt :: insn where
  "slt F Inst = onR (\<lambda>R.
     if IsRV32 F then
       incPC32 Inst (set32 (rd Inst)
         (if sint (td_u32 (get32 R (rs1 Inst)) 32) < sint (td_u32 (get32 R (rs2 Inst)) 32) then 1 else 0) R)
     else
       incPC64 Inst (set64 (rd Inst)
         (if sint (td_u32 (ucast (get64 R (rs1 Inst))) 32) < sint (td_u32 (ucast (get64 R (rs2 Inst))) 32)
          then 1 else 0) R))"

definition sltu :: insn where
  "sltu F Inst = onR (\<lambda>R.
     if IsRV32 F then
       incPC32 Inst (set32 (rd Inst) (if get32 R (rs1 Inst) < get32 R (rs2 Inst) then 1 else 0) R)
     else
       incPC64 Inst (set64 (rd Inst) (if get64 R (rs1 Inst) < get64 R (rs2 Inst) then 1 else 0) R))"

definition f_xor :: insn where
  "f_xor F Inst = onR (\<lambda>R.
     if IsRV32 F then
       incPC32 Inst (set32 (rd Inst)
         (ucast (SEXT (ucast (get32 R (rs1 Inst) XOR get32 R (rs2 Inst))) 32)) R)
     else
       incPC64 Inst (set64 (rd Inst) (SEXT (get64 R (rs1 Inst) XOR get64 R (rs2 Inst)) 64) R))"

text \<open>On RV64 \<open>srl\<close> masks the shift amount with 5 bits and expands \<open>ZEXT64\<close> at width 64.\<close>

definition srl :: insn where
  "srl F Inst = onR_res (\<lambda>R.
     if IsRV32 F then
       bind_res (ZEXT (ucast (drop_bit (unat (get32 R (rs2 Inst) AND 0b11111)) (get32 R (rs1 Inst)))) 32) (\<lambda>x.
         let R1 = set32 (rd Inst) (ucast x) R;
             R2 = set32 (rd Inst) (ucast (SEXT (ucast (get32 R1 (rd Inst))) 32)) R1
         in Inr (incPC32 Inst R2))
     else
       bind_res (ZEXT (drop_bit (unat (get64 R (rs2 Inst) AND 0b11111)) (get64 R (rs1 Inst))) 64) (\<lambda>x.
         let R1 = set64 (rd Inst) x R;
             R2 = set64 (rd Inst) (SEXT (get64 R1 (rd Inst)) 64) R1
         in Inr (incPC64 Inst R2)))"

definition sra :: insn where
  "sra F Inst = onR (\<lambda>R.
     if IsRV32 F then
       let x = signed_drop_bit (unat (get32 R (rs2 Inst) AND 0b11111)) (get32 R (rs1 Inst));
           R1 = set32 (rd Inst) (ucast (SEXT (scast x) 32)) R;
           R2 = set32 (rd Inst) (ucast (SEXT (ucast (get32 R1 (rd Inst))) 32)) R1
       in incPC32 Inst R2
     else
       let x = signed_drop_bit (unat (get64 R (rs2 Inst) AND 0b111111)) (get64 R (rs1 Inst));
           R1 = set64 (rd Inst) (SEXT x 64) R;
           R2 = set64 (rd Inst) (SEXT (get64 R1 (rd Inst)) 64) R1
       in incPC64 Inst R2)"

definition f_or :: insn where
  "f_or F Inst = onR (\<lambda>R.
     if IsRV32 F then incPC32 Inst (set32 (rd Inst) (get32 R (rs1 Inst) OR get32 R (rs2 Inst)) R)
     else incPC64 Inst (set64 (rd Inst) (get64 R (rs1 Inst) OR get64 R (rs2 Inst)) R))"

definition f_and :: insn where
  "f_and F Inst = onR (\<lambda>R.
     if IsRV32 F then
       incPC32 Inst (set32 (rd Inst)
         (ucast (SEXT (ucast (get32 R (rs1 Inst) AND get32 R (rs2 Inst))) 32)) R)
     else
       incPC64 Inst (set64 (rd Inst) (SEXT (get64 R (rs1 Inst) AND get64 R (rs2 Inst)) 64) R))"


section \<open>System instructions\<close>

text \<open>\<open>FenceMem\<close> does nothing without a memory controller.\<close>

definition fence :: insn where "fence F Inst = onR (incPC F Inst)"

definition fencei :: insn where "fencei F Inst = onR (incPC F Inst)"

definition ecall :: insn where
  "ecall F Inst = onR (\<lambda>R.
     if IsRV32 F then
       incPC32 Inst (R\<lparr>RV32_SEPC := RV32_PC R, RV32_STVAL := 0,
                       RV32_SCAUSE := of_nat (exception_code ECALL_USER_MODE)\<rparr>)
     else
       incPC64 Inst (R\<lparr>RV64_SEPC := RV64_PC R, RV64_STVAL := 0,
                       RV64_SCAUSE := of_nat (exception_code ECALL_USER_MODE)\<rparr>))"

definition ebreak :: insn where "ebreak F Inst = onR (incPC F Inst)"

definition csrrw :: insn where "csrrw F Inst = onR (incPC F Inst)"

definition csrrs :: insn where "csrrs F Inst = onR (incPC F Inst)"

definition csrrc :: insn where "csrrc F Inst = onR (incPC F Inst)"

definition csrrwi :: insn where "csrrwi F Inst = onR (incPC F Inst)"

definition csrrsi :: insn where "csrrsi F Inst = onR (incPC F Inst)"

definition csrrci :: insn where "csrrci F Inst = onR (incPC F Inst)"


section \<open>Compressed instructions\<close>

text \<open>Each rewrites its operands as the source does and calls the base instruction.\<close>

definition caddi4spn :: insn where
  "caddi4spn F Inst =
     (let I1 = Inst\<lparr>rs1 := 2, rd := CRegMap (rd Inst)\<rparr>
      in if imm I1 = 0 then onR (incPC F I1)
         else addi F (I1\<lparr>imm := (imm I1 AND 0b11111111) * 4\<rparr>))"

definition clwsp :: insn where
  "clwsp F Inst = lw F (Inst\<lparr>rs1 := 2, imm := imm Inst AND 0b11111111\<rparr>)"

definition cswsp :: insn where
  "cswsp F Inst = sw F (Inst\<lparr>rs1 := 2, imm := imm Inst AND 0b11111111\<rparr>)"

definition clw :: insn where
  "clw F Inst = lw F (Inst\<lparr>rd := CRegMap (rd Inst), rs1 := CRegMap (rs1 Inst),
                          imm := imm Inst AND 0b1111111\<rparr>)"

definition csw :: insn where
  "csw F Inst = sw F (Inst\<lparr>rs2 := CRegMap (rd Inst), rs1 := CRegMap (rs1 Inst),
                          imm := imm Inst AND 0b1111111\<rparr>)"

definition cj :: insn where
  "cj F Inst = jal F (Inst\<lparr>rd := 0,
     imm := ucast (SEXT (ucast (jumpTarget Inst AND 0b111111111111)) 12)\<rparr>)"

definition cjal :: insn where
  "cjal F Inst = jal F (Inst\<lparr>rd := 1, imm := ucast (jumpTarget Inst)\<rparr>)"

definition cjr :: insn where
  "cjr F Inst = jalr F (Inst\<lparr>rs2 := 0\<rparr>)"

definition cmv :: insn where
  "cmv F Inst = add F (Inst\<lparr>rs1 := 0\<rparr>)"

definition cadd :: insn where
  "cadd F Inst = add F (Inst\<lparr>rs1 := rd Inst\<rparr>)"

definition cjalr :: insn where
  "cjalr F Inst = jalr F (Inst\<lparr>rs2 := 1\<rparr>)"

definition CRFUNC_1000 :: insn where
  "CRFUNC_1000 F Inst = (if rs2 Inst \<noteq> 0 then cmv F Inst else cjr F Inst)"

definition CRFUNC_1001 :: insn where
  "CRFUNC_1001 F Inst =
     (if rs1 Inst = 0 \<and> rd Inst = 0 then ebreak F Inst
      else if rs2 Inst = 0 \<and> rd Inst \<noteq> 0 then jalr F (Inst\<lparr>rd := 1\<rparr>)
      else add F Inst)"

definition cbeqz :: insn where
  "cbeqz F Inst = beq F (Inst\<lparr>rs2 := 0, rs1 := CRegMap (rs1 Inst),
     imm := ucast (SEXT (ucast (offset Inst AND 0b111111111)) 9)\<rparr>)"

definition cbnez :: insn where
  "cbnez F Inst = bne F (Inst\<lparr>rs2 := 0, rs1 := CRegMap (rs1 Inst),
     imm := ucast (SEXT (ucast (offset Inst AND 0b111111111)) 9)\<rparr>)"

definition cli :: insn where
  "cli F Inst = addi F (Inst\<lparr>rs1 := 0, imm := ucast (SEXT (ucast (imm Inst AND 0b111111)) 6)\<rparr>)"

definition CIFUNC :: insn where
  "CIFUNC F Inst =
     (if rd Inst = 2 then addi F (Inst\<lparr>imm := ucast (SEXT (ucast (imm Inst AND 0b1111111111)) 10)\<rparr>)
      else lui F (Inst\<lparr>imm := ucast (SEXT (ucast (imm Inst AND 0b111111)) 6)\<rparr>))"

definition caddi :: insn where
  "caddi F Inst =
     (let tmp = imm Inst AND 0b111111
      in addi F (Inst\<lparr>imm := ucast (SEXT (ucast tmp) 6), rs1 := rd Inst\<rparr>))"

definition cslli :: insn where
  "cslli F Inst = slli F (Inst\<lparr>rs1 := rd Inst\<rparr>)"

definition csrli :: insn where
  "csrli F Inst = srli F (Inst\<lparr>rd := CRegMap (rd Inst), rs1 := CRegMap (rd Inst)\<rparr>)"

definition csrai :: insn where
  "csrai F Inst = srai F (Inst\<lparr>rd := CRegMap (rd Inst), rs1 := CRegMap (rd Inst)\<rparr>)"

definition candi :: insn where
  "candi F Inst = andi F (Inst\<lparr>rd := CRegMap (rd Inst), rs1 := CRegMap (rd Inst),
     imm := ucast (SEXT (ucast (imm Inst AND 0b0111111)) 6)\<rparr>)"

definition cand :: insn where
  "cand F Inst = f_and F (Inst\<lparr>rd := CRegMap (rd Inst), rs1 := CRegMap (rd Inst),
                               rs2 := CRegMap (rs2 Inst)\<rparr>)"

definition cor :: insn where
  "cor F Inst = f_or F (Inst\<lparr>rd := CRegMap (rd Inst), rs1 := CRegMap (rd Inst),
                             rs2 := CRegMap (rs2 Inst)\<rparr>)"

definition cxor :: insn where
  "cxor F Inst = f_xor F (Inst\<lparr>rd := CRegMap (rd Inst), rs1 := CRegMap (rd Inst),
                               rs2 := CRegMap (rs2 Inst)\<rparr>)"

definition csub :: insn where
  "csub F Inst = sub F (Inst\<lparr>rd := CRegMap (rd Inst), rs1 := CRegMap (rd Inst),
                             rs2 := CRegMap (rs2 Inst)\<rparr>)"

end
