(* ===== verification/Rev_ISA.thy ===== *)
theory Rev_ISA
  imports Rev_RV32I
begin

text \<open>
  The RISC-V specification of the base integer instructions, written independently of the
  simulator and generic in the word length, and the proofs that the instruction functions of
  include/insns/RV32I.h implement it. An interface locale states what every instruction that
  writes one register promises; the frame lemmas are proved once there.
\<close>

section \<open>Reference semantics\<close>

datatype alu_op = ALU_ADD | ALU_SUB | ALU_SLL | ALU_SLT | ALU_SLTU | ALU_XOR | ALU_SRL | ALU_SRA
  | ALU_OR | ALU_AND

fun isa_alu :: "alu_op \<Rightarrow> 'a::len word \<Rightarrow> 'a word \<Rightarrow> 'a word" where
  "isa_alu ALU_ADD a b = a + b"
| "isa_alu ALU_SUB a b = a - b"
| "isa_alu ALU_SLL a b = push_bit (unat b mod LENGTH('a)) a"
| "isa_alu ALU_SLT a b = (if sint a < sint b then 1 else 0)"
| "isa_alu ALU_SLTU a b = (if a < b then 1 else 0)"
| "isa_alu ALU_XOR a b = a XOR b"
| "isa_alu ALU_SRL a b = drop_bit (unat b mod LENGTH('a)) a"
| "isa_alu ALU_SRA a b = signed_drop_bit (unat b mod LENGTH('a)) a"
| "isa_alu ALU_OR a b = a OR b"
| "isa_alu ALU_AND a b = a AND b"

datatype branch_op = BR_EQ | BR_NE | BR_LT | BR_GE | BR_LTU | BR_GEU

fun isa_taken :: "branch_op \<Rightarrow> 'a::len word \<Rightarrow> 'a word \<Rightarrow> bool" where
  "isa_taken BR_EQ a b = (a = b)"
| "isa_taken BR_NE a b = (a \<noteq> b)"
| "isa_taken BR_LT a b = (sint a < sint b)"
| "isa_taken BR_GE a b = (sint a \<ge> sint b)"
| "isa_taken BR_LTU a b = (a < b)"
| "isa_taken BR_GEU a b = (a \<ge> b)"

text \<open>The simulator's function for each operation of the specification.\<close>

fun alu_insn :: "alu_op \<Rightarrow> insn" where
  "alu_insn ALU_ADD = add"
| "alu_insn ALU_SUB = sub"
| "alu_insn ALU_SLL = sll"
| "alu_insn ALU_SLT = slt"
| "alu_insn ALU_SLTU = sltu"
| "alu_insn ALU_XOR = f_xor"
| "alu_insn ALU_SRL = srl"
| "alu_insn ALU_SRA = sra"
| "alu_insn ALU_OR = f_or"
| "alu_insn ALU_AND = f_and"

text \<open>Subtraction has no immediate form; \<open>addi\<close> of a negative number takes its place.\<close>

fun alui_insn :: "alu_op \<Rightarrow> insn option" where
  "alui_insn ALU_ADD = Some addi"
| "alui_insn ALU_SUB = None"
| "alui_insn ALU_SLL = Some slli"
| "alui_insn ALU_SLT = Some slti"
| "alui_insn ALU_SLTU = Some sltiu"
| "alui_insn ALU_XOR = Some xori"
| "alui_insn ALU_SRL = Some srli"
| "alui_insn ALU_SRA = Some srai"
| "alui_insn ALU_OR = Some ori"
| "alui_insn ALU_AND = Some andi"

fun branch_insn :: "branch_op \<Rightarrow> insn" where
  "branch_insn BR_EQ = beq"
| "branch_insn BR_NE = bne"
| "branch_insn BR_LT = blt"
| "branch_insn BR_GE = bge"
| "branch_insn BR_LTU = bltu"
| "branch_insn BR_GEU = bgeu"

text \<open>Write back a result and step to the next instruction; or set the PC relative to itself.\<close>

definition wb :: "RevFeature \<Rightarrow> RevInst \<Rightarrow> u32 \<Rightarrow> u64 \<Rightarrow> mstate \<Rightarrow> mstate" where
  "wb F Inst v32 v64 = updR (\<lambda>R. if IsRV32 F then incPC32 Inst (set32 (rd Inst) v32 R)
                                 else incPC64 Inst (set64 (rd Inst) v64 R))"

definition pc_rel :: "RevFeature \<Rightarrow> u32 \<Rightarrow> u64 \<Rightarrow> mstate \<Rightarrow> mstate" where
  "pc_rel F d32 d64 = updR (\<lambda>R. if IsRV32 F then R\<lparr>RV32_PC := RV32_PC R + d32\<rparr>
                                else R\<lparr>RV64_PC := RV64_PC R + d64\<rparr>)"


section \<open>Interface: an instruction that writes one register\<close>

text \<open>The registers as the program sees them, in the file of the machine's word length.\<close>

definition xreg :: "RevFeature \<Rightarrow> mstate \<Rightarrow> nat \<Rightarrow> u64" where
  "xreg F S r = (if IsRV32 F then ucast (get32 (regs S) r) else get64 (regs S) r)"

definition xpc :: "RevFeature \<Rightarrow> mstate \<Rightarrow> u64" where
  "xpc F S = (if IsRV32 F then ucast (RV32_PC (regs S)) else RV64_PC (regs S))"

definition pc_next :: "RevFeature \<Rightarrow> RevInst \<Rightarrow> mstate \<Rightarrow> u64" where
  "pc_next F Inst S = (if IsRV32 F then ucast (RV32_PC (regs S) + ucast (instSize Inst))
                       else RV64_PC (regs S) + instSize Inst)"

lemma demo_xreg [simp]:
  "xreg demo_F64 (demo_state f) r = (if r > 0 then f r else 0)"
  "xreg demo_F32 (demo_state f) r = (if r > 0 then ucast (ucast (f r) :: u32) else 0)"
  by (simp_all add: xreg_def)

locale reg_insn =
  fixes ex :: insn
    and res32 :: "RevInst \<Rightarrow> RevRegFile \<Rightarrow> u32"
    and res64 :: "RevInst \<Rightarrow> RevRegFile \<Rightarrow> u64"
    and supported :: "RevFeature \<Rightarrow> RevInst \<Rightarrow> RevRegFile \<Rightarrow> bool"
  assumes exec: "supported F Inst (regs S) \<Longrightarrow>
    ex F Inst S = Inr (wb F Inst (res32 Inst (regs S)) (res64 Inst (regs S)) S)"
begin

lemma defined: "supported F Inst (regs S) \<Longrightarrow> \<exists>S'. ex F Inst S = Inr S'"
  by (simp add: exec)

lemma target:
  "supported F Inst (regs S) \<Longrightarrow> ex F Inst S = Inr S' \<Longrightarrow> rd Inst \<noteq> 0 \<Longrightarrow>
   xreg F S' (rd Inst) = (if IsRV32 F then ucast (res32 Inst (regs S)) else res64 Inst (regs S))"
  by (auto simp: exec wb_def xreg_def)

lemma frame:
  "supported F Inst (regs S) \<Longrightarrow> ex F Inst S = Inr S' \<Longrightarrow>
   (\<forall>r. r \<noteq> rd Inst \<or> r = 0 \<longrightarrow> xreg F S' r = xreg F S r) \<and>
   xpc F S' = pc_next F Inst S \<and> mem S' = mem S \<and> hazard S' = hazard S"
  by (auto simp: exec wb_def xreg_def xpc_def pc_next_def RF_get_set set32_def set64_def)

end


section \<open>The instruction functions implement the reference\<close>

lemma unat_and_31: "unat ((x :: 'a::len word) AND 0b11111) = unat x mod 32" if "5 < LENGTH('a)"
proof -
  have "x AND 0b11111 = take_bit 5 x" by (simp add: take_bit_eq_mask mask_eq_decr_exp)
  then have "unat (x AND 0b11111) = take_bit 5 (unat x)" by (simp only: unsigned_take_bit_eq)
  then show ?thesis by (simp add: take_bit_eq_mod)
qed

lemma unat_and_63: "unat ((x :: 'a::len word) AND 0b111111) = unat x mod 64" if "6 < LENGTH('a)"
proof -
  have "x AND 0b111111 = take_bit 6 x" by (simp add: take_bit_eq_mask mask_eq_decr_exp)
  then have "unat (x AND 0b111111) = take_bit 6 (unat x)" by (simp only: unsigned_take_bit_eq)
  then show ?thesis by (simp add: take_bit_eq_mod)
qed

lemma ucast_ucast_32 [simp]: "(ucast (ucast (x :: u32) :: u64) :: u32) = x"
  by (rule bit_word_eqI) (auto simp: bit_simps)

lemma ZEXT_32 [simp]: "ZEXT (ucast (x :: u32)) 32 = Inr (ucast x)"
proof -
  have "(ucast x :: u64) AND (push_bit 32 1 - 1) = take_bit 32 (ucast x)"
    by (simp add: take_bit_eq_mask mask_eq_decr_exp)
  also have "\<dots> = ucast x" by (rule bit_word_eqI) (auto simp: bit_simps dest: bit_imp_le_length)
  finally show ?thesis by (simp add: ZEXT_def)
qed

lemmas insn_simps = onR_def updR_def wb_def Let_def ucast_SEXT_32 unat_and_31 unat_and_63

lemma srl_RV64: "\<not> IsRV32 F \<Longrightarrow> srl F Inst S = Inl UB_Shift"
  by (simp add: srl_def onR_res_def ZEXT_def)

lemma alu_insn_wb:
  assumes "IsRV32 F \<or> op \<notin> {ALU_SRL, ALU_SLT}"
  shows "alu_insn op F Inst S =
    Inr (wb F Inst (isa_alu op (get32 (regs S) (rs1 Inst)) (get32 (regs S) (rs2 Inst)))
                   (isa_alu op (get64 (regs S) (rs1 Inst)) (get64 (regs S) (rs2 Inst))) S)"
proof (cases op)
  case ALU_ADD then show ?thesis by (simp add: insn_simps add_def)
next
  case ALU_SUB then show ?thesis by (simp add: insn_simps sub_def)
next
  case ALU_SLL then show ?thesis by (simp add: insn_simps sll_def)
next
  case ALU_SLT then show ?thesis using assms by (simp add: insn_simps slt_def)
next
  case ALU_SLTU then show ?thesis by (simp add: insn_simps sltu_def)
next
  case ALU_XOR then show ?thesis by (simp add: insn_simps f_xor_def)
next
  case ALU_SRL then show ?thesis using assms
    by (cases "rd Inst = 0") (simp_all add: insn_simps srl_def onR_res_def set_zero)
next
  case ALU_SRA then show ?thesis
    by (cases "rd Inst = 0") (simp_all add: insn_simps sra_def set_zero)
next
  case ALU_OR then show ?thesis by (simp add: insn_simps f_or_def)
next
  case ALU_AND then show ?thesis by (simp add: insn_simps f_and_def)
qed

text \<open>The 12-bit immediate as an operand: sign-extended, and for shifts its low bits.\<close>

lemma ucast_sext:
  assumes n: "0 < n" "n \<le> 32"
  shows "(ucast (sext n (ucast (x :: u32) :: u64)) :: u32) = sext n x"
    and "(scast (sext n x) :: u64) = sext n (ucast x)"
proof -
  show "(ucast (sext n (ucast x :: u64)) :: u32) = sext n x"
    by (rule bit_word_eqI) (use n in \<open>auto simp: bit_sext bit_simps\<close>)
  show "(scast (sext n x) :: u64) = sext n (ucast x)"
  proof (rule bit_word_eqI)
    fix i assume "i < LENGTH(64)"
    then show "bit (scast (sext n x) :: u64) i = bit (sext n (ucast x :: u64)) i"
      using n by (cases "i < 31"; cases "i = 31"; cases "n = 32")
        (auto simp: bit_sext bit_signed_iff bit_unsigned_iff min_def)
  qed
qed

lemma unat_sext_mod:
  assumes "fits 12 (x :: 'a::len word)" and "k \<le> 11" and "12 \<le> LENGTH('a)"
  shows "unat (sext 12 x) mod 2 ^ k = unat x mod 2 ^ k"
proof -
  have "take_bit k (sext 12 x) = take_bit k x"
    by (rule bit_word_eqI) (use assms in \<open>auto simp: bit_sext bit_simps\<close>)
  then have "unat (take_bit k (sext 12 x)) = unat (take_bit k x)" by simp
  then have "take_bit k (unat (sext 12 x)) = take_bit k (unat x)"
    by (simp only: unsigned_take_bit_eq)
  then show ?thesis by (simp add: take_bit_eq_mod)
qed

lemmas imm_simps = insn_simps ucast_sext fits_ucast

lemma alui_insn_wb:
  assumes ex: "alui_insn op = Some ex" and imm: "fits 12 (imm Inst)"
    and ovf: "IsRV32 F \<and> op = ALU_ADD \<Longrightarrow>
      s_add (get32 (regs S) (rs1 Inst)) (sext 12 (imm Inst)) \<noteq> Inl UB_SignedOverflow"
  shows "ex F Inst S =
    Inr (wb F Inst (isa_alu op (get32 (regs S) (rs1 Inst)) (sext 12 (imm Inst)))
                   (isa_alu op (get64 (regs S) (rs1 Inst)) (sext 12 (ucast (imm Inst)))) S)"
proof -
  note sh32 = unat_sext_mod [OF imm, of 5] and sh64 = unat_sext_mod [OF fits_ucast [OF imm, where 'b = 64], of 6]
  have u: "unat (ucast (imm Inst) :: u64) = unat (imm Inst)" by (rule unat_ucast_u64)
  show ?thesis
  proof (cases op)
    case ALU_ADD
    then show ?thesis using ex ovf imm
      by (auto simp: imm_simps addi_def onR_res_def s_add_def split: if_splits)
  next
    case ALU_SUB then show ?thesis using ex by simp
  next
    case ALU_SLL then show ?thesis using ex sh32 sh64 u by (auto simp: imm_simps slli_def)
  next
    case ALU_SLT then show ?thesis using ex imm by (auto simp: imm_simps slti_def)
  next
    case ALU_SLTU then show ?thesis using ex imm by (auto simp: imm_simps sltiu_def)
  next
    case ALU_XOR then show ?thesis using ex imm by (auto simp: imm_simps xori_def)
  next
    case ALU_SRL then show ?thesis using ex sh32 sh64 u by (auto simp: imm_simps srli_def)
  next
    case ALU_SRA then show ?thesis using ex sh32 sh64 u
      by (cases "rd Inst = 0") (auto simp: imm_simps srai_def set_zero)
  next
    case ALU_OR then show ?thesis using ex imm by (auto simp: imm_simps ori_def)
  next
    case ALU_AND then show ?thesis using ex imm by (auto simp: imm_simps andi_def)
  qed
qed

lemma branch_insn_pc:
  assumes "fits 13 (imm Inst)"
  shows "branch_insn op F Inst S = Inr (pc_rel F
     (if isa_taken op (get32 (regs S) (rs1 Inst)) (get32 (regs S) (rs2 Inst))
      then sext 13 (imm Inst) else ucast (instSize Inst))
     (if isa_taken op (get64 (regs S) (rs1 Inst)) (get64 (regs S) (rs2 Inst))
      then sext 13 (ucast (imm Inst)) else instSize Inst) S)"
  using assms
  by (cases op) (simp_all add: onR_def updR_def pc_rel_def branch32_def branch64_def fits_ucast
      beq_def bne_def blt_def bge_def bltu_def bgeu_def)

interpretation alu: reg_insn "alu_insn op"
    "\<lambda>I R. isa_alu op (get32 R (rs1 I)) (get32 R (rs2 I))"
    "\<lambda>I R. isa_alu op (get64 R (rs1 I)) (get64 R (rs2 I))"
    "\<lambda>F I R. IsRV32 F \<or> op \<notin> {ALU_SRL, ALU_SLT}"
  for op
  by unfold_locales (rule alu_insn_wb)

definition alui_ok :: "alu_op \<Rightarrow> RevFeature \<Rightarrow> RevInst \<Rightarrow> RevRegFile \<Rightarrow> bool" where
  "alui_ok op F I R \<longleftrightarrow> alui_insn op \<noteq> None \<and> fits 12 (imm I) \<and>
     (IsRV32 F \<and> op = ALU_ADD \<longrightarrow> s_add (get32 R (rs1 I)) (sext 12 (imm I)) \<noteq> Inl UB_SignedOverflow)"

interpretation alui: reg_insn "the (alui_insn op)"
    "\<lambda>I R. isa_alu op (get32 R (rs1 I)) (sext 12 (imm I))"
    "\<lambda>I R. isa_alu op (get64 R (rs1 I)) (sext 12 (ucast (imm I)))"
    "alui_ok op"
  for op
  by unfold_locales (auto simp: alui_ok_def intro!: alui_insn_wb)

interpretation lui: reg_insn lui
    "\<lambda>I R. push_bit 12 (imm I)" "\<lambda>I R. scast (push_bit 12 (imm I))" "\<lambda>F I R. True"
  by unfold_locales (simp add: lui_def insn_simps SEXT_32_scast)

interpretation auipc: reg_insn auipc
    "\<lambda>I R. RV32_PC R + push_bit 12 (imm I)" "\<lambda>I R. RV64_PC R + scast (push_bit 12 (imm I))"
    "\<lambda>F I R. True"
  by unfold_locales (simp add: auipc_def insn_simps SEXT_32_scast add.commute)


section \<open>Properties\<close>

lemma alu_insn_effect:
  assumes "IsRV32 F \<or> op \<notin> {ALU_SRL, ALU_SLT}"
  shows "\<exists>S'. alu_insn op F Inst S = Inr S' \<and>
    (\<forall>r. xreg F S' r =
       (if r = rd Inst \<and> r \<noteq> 0 then
          (if IsRV32 F then ucast (isa_alu op (get32 (regs S) (rs1 Inst)) (get32 (regs S) (rs2 Inst)))
           else isa_alu op (get64 (regs S) (rs1 Inst)) (get64 (regs S) (rs2 Inst)))
        else xreg F S r)) \<and>
    xpc F S' = pc_next F Inst S \<and> mem S' = mem S \<and> hazard S' = hazard S"
  using alu.defined [OF assms, of Inst S] alu.target [OF assms, of Inst S]
    alu.frame [OF assms, of Inst S] by fastforce

text \<open>
  The ten register-register instructions compute what the RISC-V specification defines, on
  both word lengths (on RV64 with the exception of \<open>slt\<close> and \<open>srl\<close>, see below): the result is
  written to \<open>rd\<close> unless that is \<open>x0\<close>, all other registers and the memory stay, and the PC moves to
  the next instruction.
\<close>

theorem alu_insn_correct:
  assumes "IsRV32 F \<or> op \<notin> {ALU_SRL, ALU_SLT}"
  shows "\<exists>S'. alu_insn op F Inst S = Inr S' \<and>
    (\<forall>r. xreg F S' r =
       (if r = rd Inst \<and> r \<noteq> 0 then
          (if IsRV32 F then ucast (isa_alu op (get32 (regs S) (rs1 Inst)) (get32 (regs S) (rs2 Inst)))
           else isa_alu op (get64 (regs S) (rs1 Inst)) (get64 (regs S) (rs2 Inst)))
        else xreg F S r)) \<and>
    xpc F S' = pc_next F Inst S \<and> mem S' = mem S \<and> hazard S' = hazard S"
  by (rule alu_insn_effect [OF assms])

theorem alu_insn_correct_witness:
  "\<exists>S'. alu_insn ALU_ADD demo_F64 (demo_inst 3 1 2 0) (demo_state ((\<lambda>_. 0)(1 := - 1, 2 := 8))) = Inr S' \<and>
     xreg demo_F64 S' 3 = 7 \<and> xreg demo_F64 S' 2 = 8 \<and> xpc demo_F64 S' = 0x1004"
  using alu_insn_correct [of demo_F64 ALU_ADD "demo_inst 3 1 2 0"
      "demo_state ((\<lambda>_. 0)(1 := - 1, 2 := 8))"]
  by (auto simp: pc_next_def)

lemma alui_insn_effect:
  assumes "alui_ok op F Inst (regs S)"
  shows "\<exists>S'. the (alui_insn op) F Inst S = Inr S' \<and>
    (\<forall>r. xreg F S' r =
       (if r = rd Inst \<and> r \<noteq> 0 then
          (if IsRV32 F then ucast (isa_alu op (get32 (regs S) (rs1 Inst)) (sext 12 (imm Inst)))
           else isa_alu op (get64 (regs S) (rs1 Inst)) (sext 12 (ucast (imm Inst))))
        else xreg F S r)) \<and>
    xpc F S' = pc_next F Inst S \<and> mem S' = mem S \<and> hazard S' = hazard S"
  using alui.defined [OF assms] alui.target [OF assms] alui.frame [OF assms] by fastforce

text \<open>
  The register-immediate instructions compute the specified operation on \<open>rs1\<close> and the
  sign-extended 12-bit immediate (the low bits of it for shifts). The one exception is \<open>addi\<close> on
  RV32 when the signed sum overflows, where the C++ addition is undefined.
\<close>

theorem alui_insn_correct:
  assumes "alui_ok op F Inst (regs S)"
  shows "\<exists>S'. the (alui_insn op) F Inst S = Inr S' \<and>
    (\<forall>r. xreg F S' r =
       (if r = rd Inst \<and> r \<noteq> 0 then
          (if IsRV32 F then ucast (isa_alu op (get32 (regs S) (rs1 Inst)) (sext 12 (imm Inst)))
           else isa_alu op (get64 (regs S) (rs1 Inst)) (sext 12 (ucast (imm Inst))))
        else xreg F S r)) \<and>
    xpc F S' = pc_next F Inst S \<and> mem S' = mem S \<and> hazard S' = hazard S"
  by (rule alui_insn_effect [OF assms])

theorem alui_insn_correct_witness:
  "\<exists>S'. addi demo_F32 (demo_inst 3 1 0 0xFFF) (demo_state ((\<lambda>_. 0)(1 := 8))) = Inr S' \<and>
     xreg demo_F32 S' 3 = 7 \<and> xpc demo_F32 S' = 0x1004"
proof -
  have sx: "sext 12 (0xFFF :: u32) = - 1" by (simp add: sext_def signed_take_bit_def mask_eq_exp_minus_1)
  let ?S = "demo_state ((\<lambda>_. 0)(1 := 8))" and ?I = "demo_inst 3 1 0 0xFFF"
  have "alui_ok ALU_ADD demo_F32 ?I (regs ?S)"
    by (simp add: alui_ok_def fits_def sx s_add_def)
  from alui_insn_correct [OF this] show ?thesis
    by (auto simp: sx pc_next_def)
qed

lemma branch_insn_effect:
  assumes "fits 13 (imm Inst)"
  shows "\<exists>S'. branch_insn op F Inst S = Inr S' \<and>
    xpc F S' =
      (if IsRV32 F then
         ucast (RV32_PC (regs S) +
           (if isa_taken op (get32 (regs S) (rs1 Inst)) (get32 (regs S) (rs2 Inst))
            then sext 13 (imm Inst) else ucast (instSize Inst)))
       else RV64_PC (regs S) +
           (if isa_taken op (get64 (regs S) (rs1 Inst)) (get64 (regs S) (rs2 Inst))
            then sext 13 (ucast (imm Inst)) else instSize Inst)) \<and>
    xreg F S' = xreg F S \<and> mem S' = mem S \<and> hazard S' = hazard S"
  by (simp add: branch_insn_pc [OF assms] pc_rel_def xpc_def xreg_def fun_eq_iff)

text \<open>
  Branches: the PC moves by the sign-extended 13-bit offset if the specified condition on
  \<open>rs1\<close> and \<open>rs2\<close> holds and to the next instruction otherwise; nothing else changes.
\<close>

theorem branch_insn_correct:
  assumes "fits 13 (imm Inst)"
  shows "\<exists>S'. branch_insn op F Inst S = Inr S' \<and>
    xpc F S' =
      (if IsRV32 F then
         ucast (RV32_PC (regs S) +
           (if isa_taken op (get32 (regs S) (rs1 Inst)) (get32 (regs S) (rs2 Inst))
            then sext 13 (imm Inst) else ucast (instSize Inst)))
       else RV64_PC (regs S) +
           (if isa_taken op (get64 (regs S) (rs1 Inst)) (get64 (regs S) (rs2 Inst))
            then sext 13 (ucast (imm Inst)) else instSize Inst)) \<and>
    xreg F S' = xreg F S \<and> mem S' = mem S \<and> hazard S' = hazard S"
  by (rule branch_insn_effect [OF assms])

theorem branch_insn_correct_witness:
  "\<exists>S'. bltu demo_F64 (demo_inst 0 1 2 0x1FF8) (demo_state ((\<lambda>_. 0)(1 := 3, 2 := 8))) = Inr S' \<and>
     xpc demo_F64 S' = 0xFF8"
proof -
  have sx: "sext 13 (0x1FF8 :: u64) = - 8" by (simp add: sext_def signed_take_bit_def mask_eq_exp_minus_1)
  have "fits 13 (imm (demo_inst 0 1 2 0x1FF8))" by (simp add: fits_def)
  from branch_insn_correct [OF this, of BR_LTU demo_F64 "demo_state ((\<lambda>_. 0)(1 := 3, 2 := 8))"]
  show ?thesis by (auto simp: sx)
qed

end
