(* ===== verification/Rev_RV64I.thy ===== *)
theory Rev_RV64I
  imports Rev_ISA
begin

text \<open>
  The RV64-only integer instructions (include/insns/RV64I.h): 64-bit loads and stores, the
  word-sized arithmetic, and their compressed forms. The functions do not test the word length;
  they always use the 64-bit register file.
\<close>

section \<open>Loads and stores\<close>

definition lwu :: insn where
  "lwu F Inst S =
     bind_res (ReadMem (GetHart F) (ea64 Inst (regs S)) 4 (mem S)) (\<lambda>(bs, M').
       let val = (le_word bs :: u32);
           S1 = updR (\<lambda>R. let R1 = set64 (rd Inst) 0 R
                          in set64 (rd Inst) (get64 R1 (rd Inst) OR ucast val) R1)
                  (S\<lparr>mem := M', hazard := False\<rparr>)
       in bind_res (addCost F S1) (onR (incPC64 Inst)))"

definition ld :: insn where
  "ld F Inst S =
     bind_res (ReadVal64 8 F (ea64 Inst (regs S)) (rd Inst) S) (\<lambda>S1.
       bind_res (addCost F S1) (onR (incPC64 Inst)))"

definition sd :: insn where
  "sd F Inst S =
     (let tmp = td_u64 (ucast (imm Inst)) 12
      in bind_res (onM (WriteU64 (GetHart F) (get64 (regs S) (rs1 Inst) + tmp)
             (get64 (regs S) (rs2 Inst))) S)
           (onR (incPC64 Inst)))"


section \<open>Word-sized arithmetic\<close>

definition addiw :: insn where
  "addiw F Inst = onR_res (\<lambda>R.
     bind_res (s_add (td_u32 (ucast (get64 R (rs1 Inst))) 32) (td_u32 (imm Inst) 12)) (\<lambda>v.
       let R1 = set64 (rd Inst) (ucast (dt_u32 v 32)) R;
           R2 = set64 (rd Inst) (get64 R1 (rd Inst) AND MASK32) R1;
           R3 = set64 (rd Inst) (SEXT (get64 R2 (rd Inst)) 32) R2
       in Inr (incPC64 Inst R3)))"

definition slliw :: insn where
  "slliw F Inst = onR (\<lambda>R.
     let x = push_bit (unat (imm Inst AND 0b0111111)) (get64 R (rs1 Inst)) AND 0xffffffff;
         R1 = set64 (rd Inst) (SEXT x 32) R;
         R2 = set64 (rd Inst) (SEXT (get64 R1 (rd Inst)) 64) R1
     in incPC64 Inst R2)"

text \<open>The special case of a zero shift clears \<open>rd\<close> before it reads \<open>rs1\<close>.\<close>

definition srliw :: insn where
  "srliw F Inst = onR_res (\<lambda>R.
     if imm Inst AND 0b111111 = 0 then
       let R1 = set64 (rd Inst) 0 R;
           R2 = set64 (rd Inst) (get64 R1 (rd Inst) OR (get64 R1 (rs1 Inst) AND 0xffffffff)) R1;
           R3 = set64 (rd Inst) (SEXT (get64 R2 (rd Inst)) 32) R2
       in Inr (incPC64 Inst R3)
     else
       let srcTrunc = (ucast (get64 R (rs1 Inst) AND MASK32) :: u32);
           n = unat (imm Inst AND 0b111111)
       in if n \<ge> 32 then Inl UB_Shift
          else let dest = drop_bit n srcTrunc;
                   R1 = set64 (rd Inst) 0 R;
                   R2 = set64 (rd Inst) (get64 R1 (rd Inst) OR ucast dest) R1
               in Inr (incPC64 Inst R2))"

text \<open>
  The tail \<open>sraiw\<close> and \<open>sraw\<close> share: \<open>int64_t(1<<31)\<close> is \<open>0xFFFFFFFF80000000\<close>, and the upper half
  is finally replaced according to bit 31 of \<open>rs1\<close>, read after \<open>rd\<close> has been written.
\<close>

definition sraw_tail :: "nat \<Rightarrow> RevInst \<Rightarrow> RevRegFile \<Rightarrow> RevRegFile res" where
  "sraw_tail n Inst R =
     (let tmp = get64 R (rs1 Inst) AND 0xFFFFFFFF80000000;
          srcTrunc = (ucast (get64 R (rs1 Inst) AND MASK32) :: u32)
      in if n \<ge> 32 then Inl UB_Shift
         else
           let R1 = set64 (rd Inst) (SEXT (scast (signed_drop_bit n srcTrunc) OR tmp) 32) R;
               R2 = set64 (rd Inst) (SEXT (get64 R1 (rd Inst)) 32) R1;
               R3 = set64 (rd Inst)
                      (if get64 R2 (rs1 Inst) AND 0x80000000 \<noteq> 0
                       then (get64 R2 (rd Inst) AND MASK32) OR 0xFFFFFFFF00000000
                       else get64 R2 (rd Inst) AND MASK32) R2
           in Inr (incPC64 Inst R3))"

definition sraiw :: insn where
  "sraiw F Inst = onR_res (sraw_tail (unat (imm Inst AND 0b1111111)) Inst)"

definition addw :: insn where
  "addw F Inst = onR (\<lambda>R.
     let R1 = set64 (rd Inst)
                (ucast (dt_u32 (td_u32 (ucast (get64 R (rs1 Inst))) 32 + td_u32 (ucast (get64 R (rs2 Inst))) 32) 32)) R;
         R2 = set64 (rd Inst) (SEXT (get64 R1 (rd Inst)) 32) R1
     in incPC64 Inst R2)"

definition subw :: insn where
  "subw F Inst = onR (\<lambda>R.
     let R1 = set64 (rd Inst)
                (ucast (dt_u32 (td_u32 (ucast (get64 R (rs1 Inst))) 32 - td_u32 (ucast (get64 R (rs2 Inst))) 32) 32)) R;
         R2 = set64 (rd Inst) (SEXT (get64 R1 (rd Inst)) 32) R1
     in incPC64 Inst R2)"

definition sllw :: insn where
  "sllw F Inst = onR (\<lambda>R.
     let x = push_bit (unat (get64 R (rs2 Inst) AND 0b11111)) (get64 R (rs1 Inst)) AND MASK32;
         R1 = set64 (rd Inst) (SEXT x 64) R;
         R2 = set64 (rd Inst) (SEXT (get64 R1 (rd Inst)) 32) R1
     in incPC64 Inst R2)"

definition srlw :: insn where
  "srlw F Inst = onR (\<lambda>R.
     let srcTrunc = get64 R (rs1 Inst) AND MASK32;
         R1 = set64 (rd Inst) (drop_bit (unat (get64 R (rs2 Inst) AND 0b11111)) srcTrunc) R;
         R2 = set64 (rd Inst) (SEXT (get64 R1 (rd Inst)) 32) R1
     in incPC64 Inst R2)"

definition sraw :: insn where
  "sraw F Inst = onR_res (\<lambda>R. sraw_tail (unat (get64 R (rs2 Inst) AND 0b111111)) Inst R)"


section \<open>Compressed instructions\<close>

definition cldsp :: insn where
  "cldsp F Inst = ld F (Inst\<lparr>rs1 := 2, imm := (imm Inst AND 0b111111) * 8\<rparr>)"

definition csdsp :: insn where
  "csdsp F Inst = sd F (Inst\<lparr>rs1 := 2, imm := (imm Inst AND 0b111111) * 8\<rparr>)"

definition cld :: insn where
  "cld F Inst = ld F (Inst\<lparr>rd := CRegMap (rd Inst), rs1 := CRegMap (rs1 Inst),
                          imm := imm Inst AND 0b11111111\<rparr>)"

definition csd :: insn where
  "csd F Inst = sd F (Inst\<lparr>rs2 := CRegMap (rs2 Inst), rs1 := CRegMap (rs1 Inst),
                          imm := imm Inst AND 0b11111111\<rparr>)"

definition caddiw :: insn where
  "caddiw F Inst =
     (let tmp = (ucast (imm Inst AND 0b111111) :: u64)
      in addiw F (Inst\<lparr>rs1 := rd Inst, imm := ucast (SEXT tmp 6)\<rparr>))"

definition caddw :: insn where
  "caddw F Inst = addw F (Inst\<lparr>rd := CRegMap (rd Inst), rs1 := CRegMap (rd Inst),
                               rs2 := CRegMap (rs2 Inst)\<rparr>)"

definition csubw :: insn where
  "csubw F Inst = subw F (Inst\<lparr>rd := CRegMap (rd Inst), rs1 := CRegMap (rd Inst),
                               rs2 := CRegMap (rs2 Inst)\<rparr>)"


section \<open>The word instructions implement the reference\<close>

text \<open>Operate on the low halves and sign-extend the result.\<close>

definition isa_aluw :: "alu_op \<Rightarrow> u64 \<Rightarrow> u64 \<Rightarrow> u64" where
  "isa_aluw op a b = scast (isa_alu op (ucast a :: u32) (ucast b))"

fun aluw_insn :: "alu_op \<Rightarrow> insn option" where
  "aluw_insn ALU_ADD = Some addw"
| "aluw_insn ALU_SUB = Some subw"
| "aluw_insn ALU_SLL = Some sllw"
| "aluw_insn ALU_SRL = Some srlw"
| "aluw_insn ALU_SRA = Some sraw"
| "aluw_insn _ = None"

definition wb64 :: "RevInst \<Rightarrow> u64 \<Rightarrow> mstate \<Rightarrow> mstate" where
  "wb64 Inst v = updR (\<lambda>R. incPC64 Inst (set64 (rd Inst) v R))"

lemma MASK32_take_bit: "x AND MASK32 = take_bit 32 x"
  by (simp add: MASK32_def take_bit_eq_mask mask_eq_decr_exp)

lemma SEXT_32_low: "SEXT (take_bit 32 (x :: u64)) 32 = scast (ucast x :: u32)"
proof -
  have "take_bit 32 x = ucast (ucast x :: u32)" by (rule bit_word_eqI) (auto simp: bit_simps)
  then show ?thesis by (simp only: SEXT_32_scast)
qed

lemma ucast_push_bit: "(ucast (push_bit n (x :: u64)) :: u32) = push_bit n (ucast x)"
  by (rule bit_word_eqI) (auto simp: bit_simps)

lemma ucast_take_32: "(ucast (take_bit 32 (x :: u64)) :: u32) = ucast x"
  by (rule bit_word_eqI) (auto simp: bit_simps)

lemma ucast_drop_take: "(ucast (drop_bit n (take_bit 32 (x :: u64))) :: u32) = drop_bit n (ucast x)"
  by (rule bit_word_eqI) (auto simp: bit_simps)

lemma take_32_drop: "take_bit 32 (drop_bit n (take_bit 32 (x :: u64))) = drop_bit n (take_bit 32 x)"
  by (rule bit_word_eqI) (auto simp: bit_simps)

lemma unat_mod_32: "unat (ucast (x :: u64) :: u32) mod 32 = unat x mod 32"
  by (simp add: unsigned_ucast_eq take_bit_eq_mod mod_mod_cancel)

lemma bit31_test: "(x :: u64) AND 0x80000000 \<noteq> 0 \<longleftrightarrow> bit (ucast x :: u32) 31"
  using and_exp_eq_0_iff_not_bit [of x 31] by (simp add: bit_simps)

lemma bit_sra_sign: "bit (signed_drop_bit n (v :: u32)) 31 \<longleftrightarrow> bit v 31"
  by (cases "n = 0") (auto simp: bit_simps)

lemma bit_scast32: "bit (scast (v :: u32) :: u64) i \<longleftrightarrow> i < 64 \<and> bit v (if i < 32 then i else 31)"
  by (cases "i = 31") (auto simp: bit_simps min_def)

lemma ucast_eq_scast: "\<not> bit v 31 \<Longrightarrow> (ucast (v :: u32) :: u64) = scast v"
  by (rule bit_word_eqI) (auto simp: bit_scast32 bit_unsigned_iff dest: bit_imp_le_length)

text \<open>The last step of \<open>sraw\<close>: any 64-bit value with low half \<open>v\<close> becomes \<open>v\<close> sign-extended.\<close>

lemma sign_fill:
  assumes "ucast (w :: u64) = (v :: u32)"
  shows "(if bit v 31 then (w AND MASK32) OR 0xFFFFFFFF00000000 else w AND MASK32) = scast v"
proof -
  have hi: "(0xFFFFFFFF00000000 :: u64) = NOT (mask 32)" by (simp add: mask_eq_exp_minus_1)
  show ?thesis unfolding MASK32_take_bit hi assms [symmetric]
    by (rule bit_word_eqI) (simp add: bit_scast32, auto simp: bit_simps not_less)
qed

lemma sraw_tail_eq:
  assumes n: "n < 32"
  shows "sraw_tail n Inst R =
    Inr (incPC64 Inst (set64 (rd Inst) (scast (signed_drop_bit n (ucast (get64 R (rs1 Inst)) :: u32))) R))"
proof -
  let ?a = "get64 R (rs1 Inst)" and ?s = "ucast (get64 R (rs1 Inst)) :: u32"
  let ?v = "signed_drop_bit n ?s"
  let ?x = "scast ?v OR (?a AND 0xFFFFFFFF80000000)" and ?w = "\<lambda>x. SEXT (SEXT x 32) 32"
  have t: "(0xFFFFFFFF80000000 :: u64) = NOT (mask 31)" by (simp add: mask_eq_exp_minus_1)
  have src: "(ucast (?a AND MASK32) :: u32) = ?s"
    unfolding MASK32_take_bit by (rule bit_word_eqI) (auto simp: bit_simps)
  have x: "(ucast ?x :: u32) = ?v"
  proof (rule bit_word_eqI)
    fix i assume "i < LENGTH(32)"
    moreover have "bit ?v 31 = bit ?a 31" by (simp add: bit_sra_sign bit_unsigned_iff)
    ultimately show "bit (ucast ?x :: u32) i = bit ?v i" unfolding t
      by (cases "i = 31") (simp_all add: bit_unsigned_iff bit_or_iff bit_and_iff bit_not_iff
          bit_mask_iff bit_scast32)
  qed
  have w: "(ucast (?w ?x) :: u32) = ?v" by (simp add: ucast_SEXT_32 x)
  show ?thesis
  proof (cases "rd Inst = 0")
    case True
    then show ?thesis using n by (simp add: sraw_tail_def Let_def set_zero)
  next
    case False
    have "get64 (set64 (rd Inst) (?w ?x) R) (rs1 Inst) AND 0x80000000 \<noteq> 0 \<longleftrightarrow> bit ?v 31"
      using False w by (cases "rs1 Inst = rd Inst") (simp_all add: bit31_test bit_sra_sign)
    then show ?thesis using False n sign_fill [OF w]
      by (cases "bit ?v 31") (simp_all add: sraw_tail_def Let_def src)
  qed
qed

text \<open>What the supported cases are: \<open>sraw\<close> shifts by the low six bits instead of five.\<close>

definition aluw_ok :: "alu_op \<Rightarrow> RevFeature \<Rightarrow> RevInst \<Rightarrow> RevRegFile \<Rightarrow> bool" where
  "aluw_ok op F I R \<longleftrightarrow> \<not> IsRV32 F \<and> aluw_insn op \<noteq> None \<and>
     (op = ALU_SRA \<longrightarrow> unat (get64 R (rs2 I)) mod 64 < 32)"

lemmas word_simps = onR_def updR_def wb_def Let_def MASK32_take_bit SEXT_32_low SEXT_32_scast
  unat_and_31 unat_and_63 isa_aluw_def ucast_push_bit unat_mod_32

lemma aluw_insn_wb:
  assumes "aluw_ok op F Inst (regs S)"
  shows "the (aluw_insn op) F Inst S =
    Inr (wb F Inst v32 (isa_aluw op (get64 (regs S) (rs1 Inst)) (get64 (regs S) (rs2 Inst))) S)"
proof -
  let ?a = "get64 (regs S) (rs1 Inst)" and ?b = "get64 (regs S) (rs2 Inst)"
  have F: "\<not> IsRV32 F" using assms by (simp add: aluw_ok_def)
  have srl: "SEXT (drop_bit n (take_bit 32 ?a)) 32 = scast (drop_bit n (ucast ?a :: u32))" for n
    using SEXT_32_low [of "drop_bit n (take_bit 32 ?a)"] by (simp add: take_32_drop ucast_drop_take)
  show ?thesis
  proof (cases op)
    case ALU_ADD then show ?thesis using F
      by (cases "rd Inst = 0") (simp_all add: word_simps addw_def set_zero)
  next
    case ALU_SUB then show ?thesis using F
      by (cases "rd Inst = 0") (simp_all add: word_simps subw_def set_zero)
  next
    case ALU_SLL then show ?thesis using F
      by (cases "rd Inst = 0") (simp_all add: word_simps sllw_def set_zero)
  next
    case ALU_SRL then show ?thesis using F
      by (cases "rd Inst = 0") (simp_all add: word_simps srlw_def set_zero srl)
  next
    case ALU_SRA
    then have n: "unat ?b mod 64 < 32" using assms by (simp add: aluw_ok_def)
    then have "unat ?b mod 64 = unat ?b mod 32"
      using mod_mod_cancel [of 32 64 "unat ?b"] by simp
    then show ?thesis using F ALU_SRA n
      by (simp add: word_simps sraw_def onR_res_def sraw_tail_eq)
  qed (use assms in \<open>simp_all add: aluw_ok_def\<close>)
qed

interpretation aluw: reg_insn "the (aluw_insn op)" "\<lambda>I R. 0"
    "\<lambda>I R. isa_aluw op (get64 R (rs1 I)) (get64 R (rs2 I))" "aluw_ok op"
  for op
  by unfold_locales (rule aluw_insn_wb)

fun aluwi_insn :: "alu_op \<Rightarrow> insn option" where
  "aluwi_insn ALU_ADD = Some addiw"
| "aluwi_insn ALU_SLL = Some slliw"
| "aluwi_insn ALU_SRL = Some srliw"
| "aluwi_insn ALU_SRA = Some sraiw"
| "aluwi_insn _ = None"

text \<open>
  The supported immediates: no signed overflow in \<open>addiw\<close>, a shift amount below 32 in the bits the
  function looks at, and for \<open>srliw\<close> by zero a destination other than the source.
\<close>

definition aluwi_ok :: "alu_op \<Rightarrow> RevFeature \<Rightarrow> RevInst \<Rightarrow> RevRegFile \<Rightarrow> bool" where
  "aluwi_ok op F I R \<longleftrightarrow> \<not> IsRV32 F \<and> fits 12 (imm I) \<and>
     (case op of
        ALU_ADD \<Rightarrow> s_add (ucast (get64 R (rs1 I)) :: u32) (sext 12 (imm I)) \<noteq> Inl UB_SignedOverflow
      | ALU_SLL \<Rightarrow> unat (imm I) mod 64 < 32
      | ALU_SRL \<Rightarrow> unat (imm I) mod 64 < 32 \<and> (unat (imm I) mod 64 = 0 \<longrightarrow> rd I \<noteq> rs1 I)
      | ALU_SRA \<Rightarrow> unat (imm I) mod 128 < 32
      | _ \<Rightarrow> False)"

lemma unat_and_127: "unat ((x :: u32) AND 0b1111111) = unat x mod 128"
proof -
  have "x AND 0b1111111 = take_bit 7 x" by (simp add: take_bit_eq_mask mask_eq_decr_exp)
  then have "unat (x AND 0b1111111) = take_bit 7 (unat x)" by (simp only: unsigned_take_bit_eq)
  then show ?thesis by (simp add: take_bit_eq_mod)
qed

lemma and_63_eq_0: "(x :: u32) AND 0b111111 = 0 \<longleftrightarrow> unat x mod 64 = 0"
proof -
  have "x AND 0b111111 = 0 \<longleftrightarrow> unat (x AND 0b111111) = 0" by (simp only: unat_eq_zero)
  then show ?thesis using unat_and_63 [of x] by simp
qed

lemma mod_small: "m dvd k \<Longrightarrow> (x :: nat) mod k < m \<Longrightarrow> x mod k = x mod m"
  using mod_mod_cancel [of m k x] by simp

lemma aluwi_insn_wb:
  assumes ok: "aluwi_ok op F Inst (regs S)"
  shows "the (aluwi_insn op) F Inst S =
    Inr (wb F Inst v32 (isa_aluw op (get64 (regs S) (rs1 Inst)) (sext 12 (ucast (imm Inst)))) S)"
proof -
  let ?a = "get64 (regs S) (rs1 Inst)" and ?i = "imm Inst"
  have F: "\<not> IsRV32 F" and fits: "fits 12 ?i" using ok by (auto simp: aluwi_ok_def)
  have b: "(ucast (sext 12 (ucast ?i :: u64)) :: u32) = sext 12 ?i" by (simp add: ucast_sext)
  have sm: "unat (sext 12 ?i) mod 32 = unat ?i mod 32" using unat_sext_mod [OF fits, of 5] by simp
  have t32: "(0xffffffff :: u64) = MASK32" by (simp add: MASK32_def)
  show ?thesis
  proof (cases op)
    case ALU_ADD
    then have "s_add (ucast ?a :: u32) (sext 12 ?i) = Inr (ucast ?a + sext 12 ?i)"
      using ok by (auto simp: aluwi_ok_def s_add_def split: if_splits)
    then show ?thesis using ALU_ADD F fits b
      by (cases "rd Inst = 0")
        (simp_all add: word_simps addiw_def onR_res_def set_zero)
  next
    case ALU_SLL
    then have "unat ?i mod 64 = unat ?i mod 32" using ok mod_small [of 32 64] by (simp add: aluwi_ok_def)
    then show ?thesis using ALU_SLL F b sm
      by (cases "rd Inst = 0") (simp_all add: word_simps slliw_def set_zero t32)
  next
    case ALU_SRL
    then have n: "unat ?i mod 64 < 32" and z: "unat ?i mod 64 = 0 \<Longrightarrow> rd Inst \<noteq> rs1 Inst"
      using ok by (auto simp: aluwi_ok_def)
    then have m: "unat ?i mod 64 = unat ?i mod 32" using mod_small [of 32 64] by simp
    show ?thesis
    proof (cases "unat ?i mod 64 = 0")
      case True
      then show ?thesis using ALU_SRL F b sm m z
        by (cases "rd Inst = 0")
          (simp_all add: word_simps srliw_def onR_res_def set_zero and_63_eq_0 t32)
    next
      case False
      have "\<not> bit (drop_bit (unat ?i mod 64) (ucast ?a :: u32)) 31"
        using False by (auto simp: bit_drop_bit_eq dest: bit_imp_le_length)
      then have "(ucast (drop_bit (unat ?i mod 64) (ucast ?a :: u32)) :: u64) =
          scast (drop_bit (unat ?i mod 64) (ucast ?a :: u32))" by (rule ucast_eq_scast)
      then show ?thesis using False ALU_SRL F b sm m n
        by (cases "rd Inst = 0")
          (simp_all add: word_simps srliw_def onR_res_def set_zero and_63_eq_0 ucast_take_32 not_le)
    qed
  next
    case ALU_SRA
    then have n: "unat ?i mod 128 < 32" using ok by (simp add: aluwi_ok_def)
    then have "unat ?i mod 128 = unat ?i mod 32" using mod_small [of 32 128] by simp
    then show ?thesis using F ALU_SRA n b sm
      by (simp add: word_simps sraiw_def onR_res_def sraw_tail_eq unat_and_127)
  qed (use ok in \<open>simp_all add: aluwi_ok_def\<close>)
qed

interpretation aluwi: reg_insn "the (aluwi_insn op)" "\<lambda>I R. 0"
    "\<lambda>I R. isa_aluw op (get64 R (rs1 I)) (sext 12 (ucast (imm I)))" "aluwi_ok op"
  for op
  by unfold_locales (rule aluwi_insn_wb)


section \<open>Properties\<close>

text \<open>
  The word instructions of RV64I, \<open>addw\<close>, \<open>subw\<close>, \<open>sllw\<close>, \<open>srlw\<close> and \<open>sraw\<close>, compute the
  specified 32-bit operation on the low halves of their operands and sign-extend the result to 64
  bits (\<open>sraw\<close> when bit 5 of the shift amount is clear); other registers, the memory and the hazard
  flag stay and the PC advances.
\<close>

theorem aluw_insn_correct:
  assumes "aluw_ok op F Inst (regs S)"
  shows "\<exists>S'. the (aluw_insn op) F Inst S = Inr S' \<and>
      (\<forall>r. xreg F S' r = (if r = rd Inst \<and> r \<noteq> 0
         then scast (isa_alu op (ucast (xreg F S (rs1 Inst)) :: u32) (ucast (xreg F S (rs2 Inst))))
         else xreg F S r)) \<and>
      xpc F S' = pc_next F Inst S \<and> mem S' = mem S \<and> hazard S' = hazard S"
proof -
  have F: "\<not> IsRV32 F" using assms(1) by (simp add: aluw_ok_def)
  show ?thesis
    using aluw.defined [OF assms] aluw.target [OF assms] aluw.frame [OF assms] F
    by (fastforce simp: isa_aluw_def xreg_def [of F S])
qed

theorem aluw_insn_correct_witness:
  "\<exists>S'. subw demo_F64 (demo_inst 3 11 12 0) (demo_state ((\<lambda>_. 0)(11 := 0x100000005, 12 := 6))) = Inr S' \<and>
     xreg demo_F64 S' 3 = - 1"
proof -
  let ?S = "demo_state ((\<lambda>_. 0)(11 := 0x100000005, 12 := 6))" and ?I = "demo_inst 3 11 12 0"
  have "aluw_ok ALU_SUB demo_F64 ?I (regs ?S)" by (simp add: aluw_ok_def)
  from aluw_insn_correct [OF this] show ?thesis by auto
qed

text \<open>
  The immediate forms \<open>addiw\<close>, \<open>slliw\<close>, \<open>srliw\<close>, \<open>sraiw\<close> do the same on the low half of \<open>rs1\<close> and
  the sign-extended 12-bit immediate. Supported are: no signed overflow in \<open>addiw\<close>, a shift amount
  below 32, and for \<open>srliw\<close> by zero a destination other than the source.
\<close>

theorem aluwi_insn_correct:
  assumes "aluwi_ok op F Inst (regs S)"
  shows "\<exists>S'. the (aluwi_insn op) F Inst S = Inr S' \<and>
      (\<forall>r. xreg F S' r = (if r = rd Inst \<and> r \<noteq> 0
         then scast (isa_alu op (ucast (xreg F S (rs1 Inst)) :: u32) (sext 12 (imm Inst)))
         else xreg F S r)) \<and>
      xpc F S' = pc_next F Inst S \<and> mem S' = mem S \<and> hazard S' = hazard S"
proof -
  have F: "\<not> IsRV32 F" using assms(1) by (simp add: aluwi_ok_def)
  show ?thesis
    using aluwi.defined [OF assms] aluwi.target [OF assms] aluwi.frame [OF assms] F
    by (fastforce simp: isa_aluw_def ucast_sext xreg_def [of F S])
qed

theorem aluwi_insn_correct_witness:
  "\<exists>S'. slliw demo_F64 (demo_inst 3 11 0 4) (demo_state ((\<lambda>_. 0)(11 := 0x1234567818000001))) = Inr S' \<and>
     xreg demo_F64 S' 3 = 0xFFFFFFFF80000010"
proof -
  let ?S = "demo_state ((\<lambda>_. 0)(11 := 0x1234567818000001))" and ?I = "demo_inst 3 11 0 4"
  have "aluwi_ok ALU_SLL demo_F64 ?I (regs ?S)" by (simp add: aluwi_ok_def fits_def)
  from aluwi_insn_correct [OF this] show ?thesis
    by (auto simp: sext_def signed_take_bit_def mask_eq_exp_minus_1)
qed

text \<open>
  The zero-shift special case of \<open>srliw\<close> with \<open>rd = rs1\<close>, and two shift amounts at which the
  instructions are undefined although the specification defines them.
\<close>

lemma srliw_zero_clobbers:
  assumes "imm Inst AND 0b111111 = 0" and "rd Inst = rs1 Inst" and "rd Inst \<noteq> 0"
    and "srliw F Inst S = Inr S'"
  shows "get64 (regs S') (rd Inst) = 0"
  using assms by (auto simp: srliw_def onR_res_def Let_def SEXT_def)

lemma sraw_shift_undefined:
  "\<not> unat (get64 (regs S) (rs2 Inst)) mod 64 < 32 \<Longrightarrow> sraw F Inst S = Inl UB_Shift"
  by (simp add: sraw_def onR_res_def sraw_tail_def unat_and_63 Let_def)

end
