(* ===== verification/Rev_RVM.thy ===== *)
theory Rev_RVM
  imports Rev_RV64I "HOL-Library.Signed_Division"
begin

text \<open>
  Multiplication and division (include/insns/RV32M.h and RV64M.h), with the software high-word
  multiplication of RV32M.h, and the proofs against the RISC-V definition of the M extension.
\<close>

section \<open>High-word multiplication\<close>

definition mulhu_impl :: "u64 \<Rightarrow> u64 \<Rightarrow> u64" where
  "mulhu_impl A B =
     (let a0 = (ucast (ucast A :: u32) :: u64); a1 = drop_bit 32 A;
          b0 = (ucast (ucast B :: u32) :: u64); b1 = drop_bit 32 B;
          pp1 = (ucast (a0 * b0) :: u128); pp2 = (ucast (a1 * b0) :: u128);
          pp3 = (ucast (a0 * b1) :: u128); pp4 = (ucast (a1 * b1) :: u128);
          sm = pp1 + push_bit 32 pp2 + push_bit 32 pp3 + push_bit 64 pp4
      in ucast (drop_bit 64 sm))"

text \<open>
  \<open>mulh_impl\<close> negates a negative argument and, when the signs differ, multiplies \<open>A * B\<close> as signed numbers; both are
  undefined when they overflow.
\<close>

definition mulh_impl :: "u64 \<Rightarrow> u64 \<Rightarrow> u64 res" where
  "mulh_impl A B =
     (if A = 0x8000000000000000 \<or> B = 0x8000000000000000 then Inl UB_SignedOverflow
      else let negate = ((sint A < 0) \<noteq> (sint B < 0));
               res = mulhu_impl (if sint A < 0 then - A else A) (if sint B < 0 then - B else B)
           in if negate then
                if sint A * sint B \<noteq> sint (A * B) then Inl UB_SignedOverflow
                else Inr (NOT res + (if A * B = 0 then 1 else 0))
              else Inr res)"

text \<open>In \<open>mulhsu_impl\<close> the product is unsigned; only the negation can overflow.\<close>

definition mulhsu_impl :: "u64 \<Rightarrow> u64 \<Rightarrow> u64 res" where
  "mulhsu_impl A B =
     (if A = 0x8000000000000000 then Inl UB_SignedOverflow
      else let negate = (sint A < 0);
               res = mulhu_impl (if sint A < 0 then - A else A) B
           in Inr (if negate then NOT res + (if A * B = 0 then 1 else 0) else res))"


section \<open>RV32M\<close>

definition mul :: insn where
  "mul F Inst = onR (\<lambda>R.
     if IsRV32 F then
       incPC32 Inst (set32 (rd Inst)
         (dt_u32 (td_u32 (get32 R (rs1 Inst)) 32 * td_u32 (get32 R (rs2 Inst)) 32) 32) R)
     else
       incPC64 Inst (set64 (rd Inst)
         (dt_u64 (td_u64 (get64 R (rs1 Inst)) 64 * td_u64 (get64 R (rs2 Inst)) 64) 64) R))"

text \<open>On RV32 the 32-bit operands reach \<open>mulh_impl\<close> zero-extended.\<close>

definition mulh :: insn where
  "mulh F Inst = onR_res (\<lambda>R.
     if IsRV32 F then
       bind_res (mulh_impl (ucast (td_u32 (get32 R (rs1 Inst)) 32)) (ucast (td_u32 (get32 R (rs2 Inst)) 32)))
         (\<lambda>v. Inr (incPC32 Inst (set32 (rd Inst) (dt_u32 (ucast (signed_drop_bit 32 v)) 32) R)))
     else
       bind_res (mulh_impl (td_u64 (get64 R (rs1 Inst)) 64) (td_u64 (get64 R (rs2 Inst)) 64))
         (\<lambda>v. Inr (incPC64 Inst (set64 (rd Inst) (dt_u64 v 64) R))))"

text \<open>On RV32 \<open>mulhsu\<close> and \<open>mulhu\<close> shift the 32-bit product right by 32, which is undefined.\<close>

definition mulhsu :: insn where
  "mulhsu F Inst = onR_res (\<lambda>R.
     if IsRV32 F then Inl UB_Shift
     else
       bind_res (mulhsu_impl (td_u64 (get64 R (rs1 Inst)) 32) (get64 R (rs2 Inst)))
         (\<lambda>v. Inr (incPC64 Inst (set64 (rd Inst) (dt_u64 v 32) R))))"

definition mulhu :: insn where
  "mulhu F Inst = onR_res (\<lambda>R.
     if IsRV32 F then Inl UB_Shift
     else Inr (incPC64 Inst (set64 (rd Inst)
            (dt_u64 (mulhu_impl (get64 R (rs1 Inst)) (get64 R (rs2 Inst))) 64) R)))"

text \<open>C++ integer division and remainder truncate towards zero.\<close>

definition c_div :: "'a::len word \<Rightarrow> 'a word \<Rightarrow> 'a word" where
  "c_div a b = word_of_int (sint a sdiv sint b)"

definition c_rem :: "'a::len word \<Rightarrow> 'a word \<Rightarrow> 'a word" where
  "c_rem a b = word_of_int (sint a smod sint b)"

definition div_insn :: insn where
  "div_insn F Inst = onR (\<lambda>R.
     if IsRV32 F then
       let lhs = td_u32 (get32 R (rs1 Inst)) 32; rhs = td_u32 (get32 R (rs2 Inst)) 32
       in if rhs = 0 then incPC32 Inst (set32 (rd Inst) 0xFFFFFFFF R)
          else if lhs = 0x80000000 \<and> rhs = - 1 then incPC32 Inst (set32 (rd Inst) (dt_u32 lhs 32) R)
          else incPC32 Inst (set32 (rd Inst) (dt_u32 (c_div lhs rhs) 32) R)
     else
       let lhs = td_u64 (get64 R (rs1 Inst)) 64; rhs = td_u64 (get64 R (rs2 Inst)) 64
       in if rhs = 0 then incPC64 Inst (set64 (rd Inst) 0xFFFFFFFFFFFFFFFF R)
          else if lhs = 0x8000000000000000 \<and> rhs = - 1 then incPC64 Inst (set64 (rd Inst) (dt_u64 lhs 64) R)
          else incPC64 Inst (set64 (rd Inst) (dt_u64 (c_div lhs rhs) 64) R))"

definition divu :: insn where
  "divu F Inst = onR (\<lambda>R.
     if IsRV32 F then
       let lhs = get32 R (rs1 Inst); rhs = get32 R (rs2 Inst)
       in if rhs = 0 then incPC32 Inst (set32 (rd Inst) 0xFFFFFFFF R)
          else incPC32 Inst (set32 (rd Inst) (ucast (SEXT (ucast (lhs div rhs)) 32)) R)
     else
       let lhs = get64 R (rs1 Inst); rhs = get64 R (rs2 Inst)
       in if rhs = 0 then incPC64 Inst (set64 (rd Inst) 0xFFFFFFFFFFFFFFFF R)
          else incPC64 Inst (set64 (rd Inst) (SEXT (lhs div rhs) 64) R))"

definition rem :: insn where
  "rem F Inst = onR (\<lambda>R.
     if IsRV32 F then
       let lhs = td_u32 (get32 R (rs1 Inst)) 32; rhs = td_u32 (get32 R (rs2 Inst)) 32
       in if rhs = 0 then incPC32 Inst (set32 (rd Inst) (dt_u32 lhs 32) R)
          else if lhs = 0x80000000 \<and> rhs = - 1 then incPC32 Inst (set32 (rd Inst) 0 R)
          else incPC32 Inst (set32 (rd Inst) (dt_u32 (c_rem lhs rhs) 32) R)
     else
       let lhs = td_u64 (get64 R (rs1 Inst)) 64; rhs = td_u64 (get64 R (rs2 Inst)) 64
       in if rhs = 0 then incPC64 Inst (set64 (rd Inst) (dt_u64 lhs 64) R)
          else if lhs = 0x8000000000000000 \<and> rhs = - 1 then incPC64 Inst (set64 (rd Inst) 0 R)
          else incPC64 Inst (set64 (rd Inst) (dt_u64 (c_rem lhs rhs) 64) R))"

text \<open>
  \<open>remu\<close> treats a divisor whose sign bit is set like a division by zero; on RV32 it takes that bit
  from \<open>RV64[rs2]\<close>. \<open>ZEXTI(lhs,32)\<close> on a 32-bit variable leaves it as it is.
\<close>

definition remu :: insn where
  "remu F Inst = onR (\<lambda>R.
     if IsRV32 F then
       let lhs = get32 R (rs1 Inst); rhs = get32 R (rs2 Inst);
           signRhs = drop_bit 31 (get64 R (rs2 Inst) AND 0x80000000)
       in if rhs = 0 \<or> signRhs > 0 then incPC32 Inst (set32 (rd Inst) (get32 R (rs1 Inst)) R)
          else incPC32 Inst (set32 (rd Inst) (ucast (SEXT (ucast (lhs mod rhs)) 32)) R)
     else
       let lhs = get64 R (rs1 Inst); rhs = get64 R (rs2 Inst);
           signRhs = drop_bit 63 (get64 R (rs2 Inst) AND 0x8000000000000000)
       in if rhs = 0 \<or> signRhs > 0 then incPC64 Inst (set64 (rd Inst) (get64 R (rs1 Inst)) R)
          else let tmp = SEXT (lhs mod rhs) 64 in incPC64 Inst (set64 (rd Inst) tmp R))"


section \<open>RV64M\<close>

text \<open>
  The high-word multiplication of RV64M.h: no instruction of the table calls it. Two of its sums
  should be products.
\<close>

definition mulhu64_impl :: "u64 \<Rightarrow> u64 \<Rightarrow> u64" where
  "mulhu64_impl A B =
     (let a0 = (ucast (ucast A :: u32) :: u64); a1 = drop_bit 32 A;
          b0 = (ucast (ucast B :: u32) :: u64); b1 = drop_bit 32 B;
          t = a1 * b0 + drop_bit 32 (a0 + b0);
          y1 = (ucast t :: u32); y2 = (ucast (drop_bit 32 t) :: u32);
          t = a0 + b1 + ucast y1;
          t = a1 * b1 + ucast y2 + drop_bit 32 t;
          y2 = (ucast t :: u32); y3 = (ucast (drop_bit 32 t) :: u32)
      in push_bit 32 (ucast y3) OR ucast y2)"

definition mulw :: insn where
  "mulw F Inst = onR (\<lambda>R.
     let R1 = set64 (rd Inst)
                (dt_u64 (td_u64 (get64 R (rs1 Inst)) 32 * td_u64 (get64 R (rs2 Inst)) 32) 32 AND MASK32) R;
         R2 = set64 (rd Inst) (SEXT (get64 R1 (rd Inst)) 32) R1
     in incPC64 Inst R2)"

definition divw :: insn where
  "divw F Inst = onR (\<lambda>R.
     let lhs = td_u64 (get64 R (rs1 Inst) AND MASK32) 32; rhs = td_u64 (get64 R (rs2 Inst) AND MASK32) 32
     in if rhs = 0 then incPC64 Inst (set64 (rd Inst) 0xFFFFFFFFFFFFFFFF R)
        else if sint lhs = - (2 ^ 31) \<and> (ucast rhs :: u32) = - 1
        then incPC64 Inst (set64 (rd Inst) (dt_u64 (lhs AND MASK32) 32) R)
        else incPC64 Inst (set64 (rd Inst) (dt_u64 (c_div lhs rhs AND MASK32) 32) R))"

definition divuw :: insn where
  "divuw F Inst = onR (\<lambda>R.
     let lhs = get64 R (rs1 Inst) AND MASK32; rhs = get64 R (rs2 Inst) AND MASK32
     in if rhs = 0 then
          let R1 = set64 (rd Inst) 0xFFFFFFFF R;
              R2 = set64 (rd Inst) (SEXT (get64 R1 (rd Inst)) 32) R1
          in incPC64 Inst R2
        else incPC64 Inst (set64 (rd Inst) (SEXT ((lhs div rhs) AND MASK32) 32) R))"

definition remw :: insn where
  "remw F Inst = onR (\<lambda>R.
     let lhs = td_u64 (get64 R (rs1 Inst) AND MASK32) 32; rhs = td_u64 (get64 R (rs2 Inst) AND MASK32) 32
     in if rhs = 0 then incPC64 Inst (set64 (rd Inst) (get64 R (rs1 Inst)) R)
        else if sint lhs = - (2 ^ 31) \<and> (ucast rhs :: u32) = - 1
        then incPC64 Inst (set64 (rd Inst) 0 R)
        else incPC64 Inst (set64 (rd Inst) (dt_u64 (c_rem lhs rhs AND MASK32) 32) R))"

definition remuw :: insn where
  "remuw F Inst = onR (\<lambda>R.
     let lhs = get64 R (rs1 Inst) AND MASK32; rhs = get64 R (rs2 Inst) AND MASK32;
         signRhs = drop_bit 63 (get64 R (rs2 Inst) AND 0x8000000000000000)
     in if rhs = 0 \<or> signRhs > 0 then incPC64 Inst (set64 (rd Inst) (get64 R (rs1 Inst)) R)
        else incPC64 Inst (set64 (rd Inst) (SEXT ((lhs mod rhs) AND MASK32) 32) R))"


section \<open>High-word multiplication is correct\<close>

lemma unat_ucast_u128 [simp]: "unat (ucast (a :: u64) :: u128) = unat a"
  by (simp add: unsigned_ucast_eq take_bit_nat_eq_self less_le_trans [OF unsigned_less])

lemma ucast_mult_u128:
  assumes "unat a * unat b < 2 ^ 64"
  shows "(ucast ((a :: u64) * b) :: u128) = ucast a * ucast b"
  by (rule unat_eqI) (use assms in \<open>simp add: unat_word_ariths\<close>)

lemma half_less: "unat (ucast (x :: u32) :: u64) < 2 ^ 32" "unat (drop_bit 32 (A :: u64)) < 2 ^ 32"
proof -
  show "unat (ucast (x :: u32) :: u64) < 2 ^ 32" using unat_less_exp [of x] by (simp add: unat_ucast_u64)
  show "unat (drop_bit 32 A) < 2 ^ 32" using unat_less_exp [of A]
    by (simp add: unat_drop_bit less_mult_imp_div_less)
qed

lemma halves_u128:
  "(ucast (A :: u64) :: u128) = ucast (ucast (ucast A :: u32) :: u64) + 2 ^ 32 * ucast (drop_bit 32 A)"
proof (rule unat_eqI)
  have a: "unat A < 2 ^ 64" using unat_less_exp [of A] by simp
  have d: "unat (drop_bit 32 A) = unat A div 2 ^ 32" by (simp add: unat_drop_bit)
  have m: "unat (ucast (ucast A :: u32) :: u64) = unat A mod 2 ^ 32"
    unfolding unat_ucast_u64 unsigned_ucast_eq by (simp add: take_bit_eq_mod unat_mod)
  have "unat (2 ^ 32 * ucast (drop_bit 32 A) :: u128) = 2 ^ 32 * (unat A div 2 ^ 32)"
    using a d by (simp add: unat_word_ariths)
  then show "unat (ucast A :: u128) = unat (ucast (ucast (ucast A :: u32) :: u64) + 2 ^ 32 * ucast (drop_bit 32 A) :: u128)"
    using a m by (simp add: unat_word_ariths)
qed

lemma ucast_id_128 [simp]: "(ucast (ucast (x :: u64) :: u128) :: u64) = x"
  by (rule bit_word_eqI) (auto simp: bit_simps)

lemma mulhu_impl_eq: "mulhu_impl A B = ucast (drop_bit 64 (ucast A * ucast B :: u128))"
proof -
  let ?a0 = "ucast (ucast A :: u32) :: u64" and ?a1 = "drop_bit 32 A"
  let ?b0 = "ucast (ucast B :: u32) :: u64" and ?b1 = "drop_bit 32 B"
  have small: "unat x * unat y < 2 ^ 64" if "unat x < 2 ^ 32" and "unat y < 2 ^ 32" for x y :: u64
    using mult_strict_mono [OF that] by simp
  note m = ucast_mult_u128 [OF small]
  have "(ucast A * ucast B :: u128) = ucast ?a0 * ucast ?b0 + push_bit 32 (ucast ?a1 * ucast ?b0) +
      push_bit 32 (ucast ?a0 * ucast ?b1) + push_bit 64 (ucast ?a1 * ucast ?b1)"
    by (subst (1) halves_u128 [of A], subst (1) halves_u128 [of B])
      (simp add: push_bit_eq_mult algebra_simps)
  then show ?thesis by (simp only: mulhu_impl_def Let_def m half_less)
qed

lemma high_minus_u128:
  fixes P :: u128
  shows "(ucast (drop_bit 64 (- P)) :: u64) =
    NOT (ucast (drop_bit 64 P)) + (if (ucast P :: u64) = 0 then 1 else 0)"
proof (cases "(ucast P :: u64) = 0")
  case True
  have lo: "take_bit 64 P = 0"
  proof (rule bit_word_eqI)
    fix n assume "n < LENGTH(128)"
    show "bit (take_bit 64 P) n = bit 0 n"
      using bit_eq_iff [THEN iffD1, OF True] by (auto simp: bit_simps)
  qed
  have "P = push_bit 64 (drop_bit 64 P)" using bits_ident [of 64 P] lo by simp
  then have "- P = push_bit 64 (- drop_bit 64 P)" by (simp add: push_bit_eq_mult)
  then have "drop_bit 64 (- P) = drop_bit 64 (push_bit 64 (- drop_bit 64 P))" by simp
  also have "(ucast \<dots> :: u64) = ucast (- drop_bit 64 P)"
    by (rule bit_word_eqI) (auto simp: bit_simps)
  also have "\<dots> = - ucast (drop_bit 64 P)"
    using ucast_down_arith(1) [of 0 "drop_bit 64 P", where 'b = 64] by simp
  finally show ?thesis using True by (simp add: not_eq_complement)
next
  case False
  have "- P = NOT (P - 1)" by (simp add: minus_eq_not_minus_1)
  moreover have "drop_bit 64 (P - 1) = drop_bit 64 P"
  proof (rule unat_eqI)
    have "unat (ucast P :: u64) \<noteq> 0" using False by (simp only: unat_eq_zero) simp
    then have m: "unat P mod 2 ^ 64 \<noteq> 0" by (simp add: unsigned_ucast_eq take_bit_eq_mod)
    then have "P \<noteq> 0" by (metis mod_0 unat_0)
    then have "unat (P - 1) = unat P - 1" by (rule unat_minus_one)
    moreover have "(unat P - 1) div 2 ^ 64 = unat P div 2 ^ 64" using m by (rule pred_div)
    ultimately show "unat (drop_bit 64 (P - 1)) = unat (drop_bit 64 P)"
      by (simp only: unat_drop_bit)
  qed
  ultimately have "ucast (drop_bit 64 (- P)) = (ucast (drop_bit 64 (NOT (P - 1))) :: u64)" by simp
  also have "\<dots> = NOT (ucast (drop_bit 64 (P - 1)))" by (rule bit_word_eqI) (auto simp: bit_simps)
  finally show ?thesis using False \<open>drop_bit 64 (P - 1) = drop_bit 64 P\<close> by simp
qed

lemma scast_nonneg_u128: "\<not> sint (A :: u64) < 0 \<Longrightarrow> (scast A :: u128) = ucast A"
proof -
  assume "\<not> sint A < 0"
  then have "\<not> bit A 63" using bit_last_iff [of A] by simp
  then have "\<not> bit A n" if "63 \<le> n" for n
    using that by (cases "n = 63") (auto dest: bit_imp_le_length)
  then show ?thesis by (intro bit_word_eqI) (auto simp: bit_simps min_def)
qed

lemma scast_neg_u128: "sint (A :: u64) < 0 \<Longrightarrow> (scast A :: u128) = - ucast (- A)"
proof -
  assume n: "sint A < 0"
  then have "A \<noteq> 0" by auto
  then have u: "uint (- A) = 2 ^ 64 - uint A" 
    using uint_lt2p [of A] by (simp add: uint_word_ariths zmod_zminus1_eq_if uint_0_iff)
  have s: "sint A = uint A - 2 ^ 64" using n bit_last_iff [of A]
    by (simp add: sint_uint signed_take_bit_eq_take_bit_minus bit_uint_iff bintr_uint)
  have "(scast A :: u128) = word_of_int (sint A)" by simp
  also have "\<dots> = - word_of_int (uint (- A))" unfolding u s by simp
  finally show ?thesis by simp
qed

lemma low_product: "(ucast (ucast x * ucast y :: u128) :: u64) = x * y" for x y :: u64
  by (simp add: ucast_down_arith)

lemma signed_high:
  "ucast (drop_bit 64 (scast A * scast B :: u128)) =
     (let res = mulhu_impl (if sint A < 0 then - A else A) (if sint B < 0 then - B else B)
      in if (sint A < 0) \<noteq> (sint B < 0) then NOT res + (if A * B = 0 then 1 else 0) else res)"
  by (cases "sint A < 0"; cases "sint B < 0")
    (simp_all add: Let_def mulhu_impl_eq scast_neg_u128 scast_nonneg_u128 high_minus_u128 low_product)

lemma signed_unsigned_high:
  "ucast (drop_bit 64 (scast A * ucast B :: u128)) =
     (let res = mulhu_impl (if sint A < 0 then - A else A) B
      in if sint A < 0 then NOT res + (if A * B = 0 then 1 else 0) else res)"
  by (cases "sint A < 0")
    (simp_all add: Let_def mulhu_impl_eq scast_neg_u128 scast_nonneg_u128 high_minus_u128 low_product)

lemma min_int64: "(A :: u64) = 0x8000000000000000 \<longleftrightarrow> sint A = - (2 ^ 63)"
proof -
  have "sint (0x8000000000000000 :: u64) = - (2 ^ 63)" by simp
  then show ?thesis by (metis signed_word_eqI)
qed

lemma product_overflows:
  fixes A B :: u64
  assumes "(sint A < 0) \<noteq> (sint B < 0)"
  shows "sint A * sint B \<noteq> sint (A * B) \<longleftrightarrow> sint A * sint B < - (2 ^ 63)"
proof -
  have "sint A * sint B \<le> 0"
    using assms by (cases "sint A < 0") (auto simp: mult_nonpos_nonneg mult_nonneg_nonpos)
  moreover have "sint (A * B) = signed_take_bit 63 (sint A * sint B)" by (simp add: sint_word_ariths)
  ultimately show ?thesis by (simp add: signed_take_bit_int_eq_self_iff eq_commute [of "_ * _"]) linarith
qed


section \<open>Division\<close>

lemma sint_of_int:
  "- (2 ^ (LENGTH('a) - 1)) \<le> k \<Longrightarrow> k < 2 ^ (LENGTH('a) - 1) \<Longrightarrow> sint (word_of_int k :: 'a::len word) = k"
  by (simp add: sint_sbintrunc' signed_take_bit_int_eq_self)

lemma sint_bounds: "- (2 ^ (LENGTH('a) - 1)) \<le> sint (x :: 'a::len word)" "sint x < 2 ^ (LENGTH('a) - 1)"
  using sint_range_size [of x] by (simp_all add: word_size)

text \<open>The one quotient that does not fit.\<close>

definition div_overflow :: "'a::len word \<Rightarrow> 'a word \<Rightarrow> bool" where
  "div_overflow a b \<longleftrightarrow> sint a = - (2 ^ (LENGTH('a) - 1)) \<and> b = - 1"

lemma sint_c_div:
  assumes "\<not> div_overflow a b"
  shows "sint (c_div a b) = sint (a :: 'a::len word) sdiv sint b"
proof -
  let ?q = "sint a sdiv sint b" and ?h = "2 ^ (LENGTH('a) - 1) :: int"
  have r: "- \<bar>sint a\<bar> \<le> ?q" "?q \<le> \<bar>sint a\<bar>" using sdiv_int_range [of "sint a" "sint b"] by simp_all
  have b: "- ?h \<le> sint a" "sint a < ?h" by (rule sint_bounds)+
  have "?q \<noteq> ?h"
  proof
    assume q: "?q = ?h"
    with r b have a: "sint a = - ?h" by linarith
    then have "sint b = - 1" using q int_sdiv_negated_is_minus1 [of "sint a" "sint b"] b by simp
    then have "b = - 1" by (metis signed_minus_1 signed_word_eqI)
    then show False using assms a by (simp add: div_overflow_def)
  qed
  then show ?thesis unfolding c_div_def using r b by (intro sint_of_int) linarith+
qed

lemma sint_c_rem: "sint b \<noteq> 0 \<Longrightarrow> sint (c_rem a b) = sint (a :: 'a::len word) smod sint b"
  unfolding c_rem_def using smod_int_range [of "sint b" "sint a"] sint_bounds [of b]
  by (intro sint_of_int) (auto simp: abs_if split: if_splits)

text \<open>The M extension's quotient and remainder, generic in the word length.\<close>

datatype m_op = M_MUL | M_DIV | M_DIVU | M_REM | M_REMU

fun isa_m :: "m_op \<Rightarrow> 'a::len word \<Rightarrow> 'a word \<Rightarrow> 'a word" where
  "isa_m M_MUL a b = a * b"
| "isa_m M_DIV a b = (if b = 0 then - 1 else if div_overflow a b then a else c_div a b)"
| "isa_m M_DIVU a b = (if b = 0 then - 1 else a div b)"
| "isa_m M_REM a b = (if b = 0 then a else if div_overflow a b then 0 else c_rem a b)"
| "isa_m M_REMU a b = (if b = 0 then a else a mod b)"

fun m_insn :: "m_op \<Rightarrow> insn" where
  "m_insn M_MUL = mul"
| "m_insn M_DIV = div_insn"
| "m_insn M_DIVU = divu"
| "m_insn M_REM = rem"
| "m_insn M_REMU = remu"

fun mw_insn :: "m_op \<Rightarrow> insn" where
  "mw_insn M_MUL = mulw"
| "mw_insn M_DIV = divw"
| "mw_insn M_DIVU = divuw"
| "mw_insn M_REM = remw"
| "mw_insn M_REMU = remuw"

definition m_ok :: "m_op \<Rightarrow> RevFeature \<Rightarrow> RevInst \<Rightarrow> RevRegFile \<Rightarrow> bool" where
  "m_ok op F I R \<longleftrightarrow> (op = M_REMU \<longrightarrow> \<not> bit (get64 R (rs2 I)) (if IsRV32 F then 31 else 63))"

definition mw_ok :: "m_op \<Rightarrow> RevFeature \<Rightarrow> RevInst \<Rightarrow> RevRegFile \<Rightarrow> bool" where
  "mw_ok op F I R \<longleftrightarrow> \<not> IsRV32 F \<and>
     (op \<in> {M_REM, M_REMU} \<longrightarrow> (ucast (get64 R (rs2 I)) :: u32) \<noteq> 0) \<and>
     (op = M_REMU \<longrightarrow> \<not> bit (get64 R (rs2 I)) 63)"

lemma div_overflow_32: "div_overflow (a :: u32) b \<longleftrightarrow> a = 0x80000000 \<and> b = - 1"
proof -
  have "sint (0x80000000 :: u32) = - (2 ^ 31)" by simp
  then have "sint a = - (2 ^ 31) \<longleftrightarrow> a = 0x80000000" by (metis signed_word_eqI)
  then show ?thesis by (simp add: div_overflow_def)
qed

lemma div_overflow_64: "div_overflow (a :: u64) b \<longleftrightarrow> a = 0x8000000000000000 \<and> b = - 1"
proof -
  have "sint (0x8000000000000000 :: u64) = - (2 ^ 63)" by simp
  then have "sint a = - (2 ^ 63) \<longleftrightarrow> a = 0x8000000000000000" by (metis signed_word_eqI)
  then show ?thesis by (simp add: div_overflow_def)
qed

lemma sign_test: "0 < drop_bit n (x :: u64) AND 1 \<longleftrightarrow> bit x n"
  by (auto simp: and_one_eq bit_iff_odd_drop_bit odd_iff_mod_2_eq_one simp flip: word_neq_0_conv)

lemma all_ones: "(0xFFFFFFFF :: u32) = - 1" "(0xFFFFFFFFFFFFFFFF :: u64) = - 1"
  by simp_all

lemma m_insn_wb:
  assumes "m_ok op F Inst (regs S)"
  shows "m_insn op F Inst S =
    Inr (wb F Inst (isa_m op (get32 (regs S) (rs1 Inst)) (get32 (regs S) (rs2 Inst)))
                   (isa_m op (get64 (regs S) (rs1 Inst)) (get64 (regs S) (rs2 Inst))) S)"
proof (cases op)
  case M_MUL then show ?thesis by (simp add: insn_simps mul_def)
next
  case M_DIV then show ?thesis
    by (simp add: insn_simps all_ones div_insn_def div_overflow_32 div_overflow_64)
next
  case M_DIVU then show ?thesis by (simp add: insn_simps all_ones divu_def)
next
  case M_REM then show ?thesis
    by (simp add: insn_simps rem_def div_overflow_32 div_overflow_64)
next
  case M_REMU then show ?thesis using assms
    by (cases "IsRV32 F") (simp_all add: insn_simps remu_def m_ok_def sign_test)
qed

interpretation m: reg_insn "m_insn op"
    "\<lambda>I R. isa_m op (get32 R (rs1 I)) (get32 R (rs2 I))"
    "\<lambda>I R. isa_m op (get64 R (rs1 I)) (get64 R (rs2 I))" "m_ok op"
  for op
  by unfold_locales (rule m_insn_wb)


section \<open>The word forms\<close>

text \<open>The operands of \<open>divw\<close> and \<open>remw\<close>: the low halves, sign-extended.\<close>

lemma td_u64_low: "td_u64 (take_bit 32 (x :: u64)) 32 = scast (ucast x :: u32)"
proof -
  have "td_u64 (take_bit 32 x) 32 = sext 32 (take_bit 32 x)"
    by (rule td_u64_sext) (auto simp: bit_simps)
  also have "\<dots> = SEXT (take_bit 32 x) 32"
    by (rule SEXT_sext [symmetric]) (auto simp: bit_simps)
  finally show ?thesis by (simp only: SEXT_32_low)
qed

lemma dt_u64_low: "dt_u64 (take_bit 32 (x :: u64)) 32 = scast (ucast x :: u32)"
  using td_u64_low [of x] dt_u64_td_u64 [of 32 "take_bit 32 x"] by simp

lemma sint_scast [simp]: "sint (scast (a :: u32) :: u64) = sint a"
  using sint_bounds [of a] sint_of_int [of "sint a", where 'a = 64] by simp

lemma ucast_of_int: "(ucast (word_of_int k :: u64) :: u32) = word_of_int k"
  by (rule bit_word_eqI) (auto simp: bit_simps)

lemma scast_eq_0 [simp]: "(scast (a :: u32) :: u64) = 0 \<longleftrightarrow> a = 0"
  by (metis scast_0 ucast_0 ucast_scast_32)

lemma c_div_scast: "(ucast (c_div (scast (a :: u32)) (scast b) :: u64) :: u32) = c_div a b"
  by (simp add: c_div_def ucast_of_int)

lemma c_rem_scast: "(ucast (c_rem (scast (a :: u32)) (scast b) :: u64) :: u32) = c_rem a b"
  by (simp add: c_rem_def ucast_of_int)

text \<open>\<open>mulw\<close>: the junk \<open>td_u64\<close> and \<open>dt_u64\<close> may leave above bit 31 is cut off again.\<close>

lemma ucast_td_u64_32 [simp]: "(ucast (td_u64 x 32) :: u32) = ucast x"
  by (rule bit_word_eqI) (auto simp: td_u64_eq bit_simps bit_fold_set_bits)

lemma ucast_dt_u64_32 [simp]: "(ucast (dt_u64 x 32) :: u32) = ucast x"
  by (simp add: dt_u64_td_u64)

lemma low_ucast: "take_bit 32 (x :: u64) = ucast (ucast x :: u32)"
  by (rule bit_word_eqI) (auto simp: bit_simps)

lemma low_eq_0: "take_bit 32 (x :: u64) = 0 \<longleftrightarrow> (ucast x :: u32) = 0"
  by (metis low_ucast ucast_ucast_32 ucast_0)

lemma unat_down: "unat (ucast (x :: u64) :: u32) = unat x mod 2 ^ 32"
  by (simp only: unsigned_ucast_eq take_bit_eq_mod) simp

lemma low_div: "(ucast (take_bit 32 a div take_bit 32 (b :: u64)) :: u32) = ucast a div ucast b"
proof (rule unat_eqI)
  let ?a = "ucast a :: u32" and ?b = "ucast b :: u32"
  have "unat ?a div unat ?b \<le> unat ?a" by simp
  also have "\<dots> < 2 ^ 32" using unat_less_exp [of ?a] by simp
  finally show "unat (ucast (take_bit 32 a div take_bit 32 b) :: u32) = unat (?a div ?b)"
    by (simp add: low_ucast unat_down unat_div unat_ucast_u64)
qed

lemma low_mod: "(ucast (take_bit 32 a mod take_bit 32 (b :: u64)) :: u32) = ucast a mod ucast b"
proof (rule unat_eqI)
  let ?a = "ucast a :: u32" and ?b = "ucast b :: u32"
  have "unat ?a mod unat ?b \<le> unat ?a" by simp
  also have "\<dots> < 2 ^ 32" using unat_less_exp [of ?a] by simp
  finally show "unat (ucast (take_bit 32 a mod take_bit 32 b) :: u32) = unat (?a mod ?b)"
    by (simp add: low_ucast unat_down unat_mod unat_ucast_u64)
qed

lemma SEXT_ones: "SEXT 0xFFFFFFFF 32 = - 1"
  by (simp add: SEXT_def)

lemma mw_insn_wb:
  assumes ok: "mw_ok op F Inst (regs S)"
  shows "mw_insn op F Inst S =
    Inr (wb F Inst v32 (scast (isa_m op (ucast (get64 (regs S) (rs1 Inst)) :: u32)
                                        (ucast (get64 (regs S) (rs2 Inst))))) S)"
proof -
  let ?a = "get64 (regs S) (rs1 Inst)" and ?b = "get64 (regs S) (rs2 Inst)"
  have F: "\<not> IsRV32 F" using ok by (simp add: mw_ok_def)
  show ?thesis
  proof (cases op)
    case M_MUL then show ?thesis using F
      by (cases "rd Inst = 0") (simp_all add: word_simps mulw_def set_zero ucast_down_arith)
  next
    case M_DIV then show ?thesis using F
      by (simp add: word_simps divw_def td_u64_low dt_u64_low div_overflow_def all_ones c_div_scast)
  next
    case M_DIVU then show ?thesis using F
      by (cases "rd Inst = 0") (simp_all add: word_simps divuw_def set_zero low_eq_0 low_div SEXT_ones)
  next
    case M_REM then show ?thesis using F ok
      by (simp add: word_simps remw_def td_u64_low dt_u64_low div_overflow_def c_rem_scast mw_ok_def)
  next
    case M_REMU then show ?thesis using F ok
      by (simp add: word_simps remuw_def low_eq_0 low_mod mw_ok_def sign_test)
  qed
qed

interpretation mw: reg_insn "mw_insn op" "\<lambda>I R. 0"
    "\<lambda>I R. scast (isa_m op (ucast (get64 R (rs1 I)) :: u32) (ucast (get64 R (rs2 I))))" "mw_ok op"
  for op
  by unfold_locales (rule mw_insn_wb)


section \<open>Properties\<close>

text \<open>
  C29. The software multiplication of RV32M.h: \<open>mulhu_impl\<close> returns the upper 64 bits of the 128-bit unsigned product.
  \<open>mulh_impl\<close> returns the upper 64 bits of the signed product, except where its C++ arithmetic overflows and its behaviour
  is undefined: exactly when an operand is the smallest integer, or the signs differ and the product is below the
  smallest integer. \<open>mulhsu_impl\<close> returns the upper 64 bits of the product of a signed and an unsigned
  operand, except for the smallest integer, where it is undefined.
\<close>

theorem high_multiplication_correct:
  "mulhu_impl A B = ucast (drop_bit 64 (ucast A * ucast B :: u128)) \<and>
   mulh_impl A B =
     (if sint A = - (2 ^ 63) \<or> sint B = - (2 ^ 63) \<or> (sint A < 0) \<noteq> (sint B < 0) \<and> sint A * sint B < - (2 ^ 63)
      then Inl UB_SignedOverflow else Inr (ucast (drop_bit 64 (scast A * scast B :: u128)))) \<and>
   mulhsu_impl A B =
     (if sint A = - (2 ^ 63) then Inl UB_SignedOverflow else Inr (ucast (drop_bit 64 (scast A * ucast B :: u128))))"
proof (intro conjI)
  show "mulhu_impl A B = ucast (drop_bit 64 (ucast A * ucast B :: u128))" by (rule mulhu_impl_eq)
  show "mulh_impl A B =
     (if sint A = - (2 ^ 63) \<or> sint B = - (2 ^ 63) \<or> (sint A < 0) \<noteq> (sint B < 0) \<and> sint A * sint B < - (2 ^ 63)
      then Inl UB_SignedOverflow else Inr (ucast (drop_bit 64 (scast A * scast B :: u128))))"
    using product_overflows [of A B] unfolding mulh_impl_def min_int64 signed_high Let_def by (simp split: if_split)
  show "mulhsu_impl A B =
     (if sint A = - (2 ^ 63) then Inl UB_SignedOverflow else Inr (ucast (drop_bit 64 (scast A * ucast B :: u128))))"
    unfolding mulhsu_impl_def min_int64 signed_unsigned_high Let_def by simp
qed



text \<open>
  Division law: for every dividend and every nonzero divisor outside the overflow case, the
  quotient and the remainder that \<open>div\<close> and \<open>rem\<close> compute on RV64 satisfy, as signed integers,
  \<open>rs1 = q * rs2 + r\<close> with \<open>|r| < |rs2|\<close> and \<open>r\<close> zero or of the sign of the dividend.
\<close>

theorem div_rem_law:
  assumes "\<not> IsRV32 F" and "rd Inst \<noteq> 0" and "get64 (regs S) (rs2 Inst) \<noteq> 0"
    and "\<not> div_overflow (get64 (regs S) (rs1 Inst)) (get64 (regs S) (rs2 Inst))"
    and "div_insn F Inst S = Inr S1" and "rem F Inst S = Inr S2"
  shows "let a = sint (xreg F S (rs1 Inst)); b = sint (xreg F S (rs2 Inst));
             q = sint (xreg F S1 (rd Inst)); r = sint (xreg F S2 (rd Inst))
         in a = q * b + r \<and> \<bar>r\<bar> < \<bar>b\<bar> \<and> (r = 0 \<or> sgn r = sgn a)"
proof -
  let ?a = "get64 (regs S) (rs1 Inst)" and ?b = "get64 (regs S) (rs2 Inst)"
  have d: "xreg F S1 (rd Inst) = c_div ?a ?b" and r: "xreg F S2 (rd Inst) = c_rem ?a ?b"
    using m.target [of M_DIV F Inst S S1] m.target [of M_REM F Inst S S2] assms
    by (simp_all add: m_ok_def)
  have b: "sint ?b \<noteq> 0" using assms(3) by (metis signed_0 signed_word_eqI)
  have "\<bar>sint ?a smod sint ?b\<bar> < \<bar>sint ?b\<bar>" using smod_int_range [OF b, of "sint ?a"] by auto
  moreover have "sint ?a smod sint ?b = 0 \<or> sgn (sint ?a smod sint ?b) = sgn (sint ?a)"
  proof -
    have "0 \<le> \<bar>sint ?a\<bar> mod \<bar>sint ?b\<bar>" using b by simp
    then show ?thesis by (auto simp: signed_modulo_int_def sgn_mult sgn_if)
  qed
  ultimately show ?thesis
    by (simp add: Let_def d r sint_c_div [OF assms(4)] sint_c_rem [OF b] xreg_def [of F S] assms(1)
        sdiv_mult_smod_eq)
qed

theorem div_rem_law_witness:
  "\<exists>S1 S2. div_insn demo_F64 (demo_inst 3 11 12 0) (demo_state ((\<lambda>_. 0)(11 := - 7, 12 := 2))) = Inr S1 \<and>
     rem demo_F64 (demo_inst 3 11 12 0) (demo_state ((\<lambda>_. 0)(11 := - 7, 12 := 2))) = Inr S2 \<and>
     sint (xreg demo_F64 S1 3) * 2 + sint (xreg demo_F64 S2 3) = - 7"
proof -
  let ?S = "demo_state ((\<lambda>_. 0)(11 := - 7, 12 := 2))" and ?I = "demo_inst 3 11 12 0"
  obtain S1 where S1: "div_insn demo_F64 ?I ?S = Inr S1" by (simp add: div_insn_def onR_def)
  obtain S2 where S2: "rem demo_F64 ?I ?S = Inr S2" by (simp add: rem_def onR_def)
  have "\<not> div_overflow (get64 (regs ?S) (rs1 ?I)) (get64 (regs ?S) (rs2 ?I))"
    by (simp add: div_overflow_64)
  from div_rem_law [OF _ _ _ this S1 S2] S1 S2 show ?thesis by (simp add: Let_def)
qed

text \<open>
  The word forms of RV64M compute the same operations on the low halves and sign-extend the
  result. Not covered are \<open>remw\<close> and \<open>remuw\<close> by zero, which return all of \<open>rs1\<close>, and \<open>remuw\<close> with a
  divisor whose bit 63 is set.
\<close>

theorem mw_insn_correct:
  assumes "mw_ok op F Inst (regs S)"
  shows "\<exists>S'. mw_insn op F Inst S = Inr S' \<and>
    (\<forall>r. xreg F S' r = (if r = rd Inst \<and> r \<noteq> 0
       then scast (isa_m op (ucast (xreg F S (rs1 Inst)) :: u32) (ucast (xreg F S (rs2 Inst))))
       else xreg F S r)) \<and>
    xpc F S' = pc_next F Inst S \<and> mem S' = mem S \<and> hazard S' = hazard S"
proof -
  have F: "\<not> IsRV32 F" using assms by (simp add: mw_ok_def)
  show ?thesis
    using mw.defined [OF assms] mw.target [OF assms] mw.frame [OF assms] F
    by (fastforce simp: xreg_def [of F S])
qed

theorem mw_insn_correct_witness:
  "\<exists>S'. remuw demo_F64 (demo_inst 3 11 12 0) (demo_state ((\<lambda>_. 0)(11 := 0x1FFFFFFFF, 12 := 0x80000000))) = Inr S' \<and>
     xreg demo_F64 S' 3 = 0x7FFFFFFF"
proof -
  let ?S = "demo_state ((\<lambda>_. 0)(11 := 0x1FFFFFFFF, 12 := 0x80000000))" and ?I = "demo_inst 3 11 12 0"
  have "mw_ok M_REMU demo_F64 ?I (regs ?S)" by (simp add: mw_ok_def)
  from mw_insn_correct [OF this] show ?thesis by auto
qed

text \<open>
  Where the code departs from the specification: \<open>mulh\<close> on RV32 always delivers zero, \<open>mulhsu\<close> and
  \<open>mulhu\<close> on RV32 are undefined, and \<open>remu\<close> returns the dividend for large divisors.
\<close>

lemma mulh_RV32_zero:
  assumes "IsRV32 F" and "rd Inst \<noteq> 0" and "mulh F Inst S = Inr S'"
  shows "get32 (regs S') (rd Inst) = 0"
proof -
  have z: "mulhu_impl (ucast (x :: u32)) (ucast (y :: u32)) = 0" for x y
  proof -
    have "unat x * unat y < 2 ^ 32 * 2 ^ 32"
      using unat_less_exp [of x] unat_less_exp [of y] by (intro mult_strict_mono) simp_all
    then have "unat (ucast (ucast x :: u64) * ucast (ucast y :: u64) :: u128) < 2 ^ 64"
      by (simp add: unat_word_ariths unat_ucast_u64)
    then have "unat (drop_bit 64 (ucast (ucast x :: u64) * ucast (ucast y :: u64) :: u128)) = 0"
      by (simp only: unat_drop_bit) simp
    then have "drop_bit 64 (ucast (ucast x :: u64) * ucast (ucast y :: u64) :: u128) = 0"
      by (simp only: unat_eq_zero)
    then show ?thesis by (simp only: mulhu_impl_eq) simp
  qed
  have p: "\<not> sint (ucast (x :: u32) :: u64) < 0" for x
    using bit_last_iff [of "ucast x :: u64"] by (auto simp: bit_simps dest: bit_imp_le_length)
  show ?thesis using assms z p
    by (auto simp: mulh_def onR_res_def mulh_impl_def Let_def split: if_splits)
qed

lemma remu_large_divisor:
  assumes "\<not> IsRV32 F" and "bit (get64 (regs S) (rs2 Inst)) 63" and "rd Inst \<noteq> 0"
  shows "\<exists>S'. remu F Inst S = Inr S' \<and> xreg F S' (rd Inst) = xreg F S (rs1 Inst)"
  using assms by (simp add: remu_def onR_def sign_test xreg_def Let_def)

end
