(* ===== verification/Rev_ISA_Mem.thy ===== *)
theory Rev_ISA_Mem
  imports Rev_RV64I
begin

text \<open>
  The loads and stores of RV32I and RV64I against the RISC-V specification: effective address, width,
  extension, and the effect on the byte memory that the interface of the memory theory promises.
\<close>

section \<open>Reference semantics\<close>

datatype load_op = LD_B | LD_H | LD_W | LD_BU | LD_HU | LD_WU | LD_D

fun load_width :: "load_op \<Rightarrow> nat" where
  "load_width LD_B = 1" | "load_width LD_H = 2" | "load_width LD_W = 4"
| "load_width LD_BU = 1" | "load_width LD_HU = 2" | "load_width LD_WU = 4" | "load_width LD_D = 8"

fun load_value :: "load_op \<Rightarrow> u8 list \<Rightarrow> 'a::len word" where
  "load_value LD_B bs = sext 8 (le_word bs)"
| "load_value LD_H bs = sext 16 (le_word bs)"
| "load_value LD_W bs = sext 32 (le_word bs)"
| "load_value LD_BU bs = le_word bs"
| "load_value LD_HU bs = le_word bs"
| "load_value LD_WU bs = le_word bs"
| "load_value LD_D bs = le_word bs"

fun load_insn :: "load_op \<Rightarrow> insn" where
  "load_insn LD_B = lb" | "load_insn LD_H = lh" | "load_insn LD_W = lw"
| "load_insn LD_BU = lbu" | "load_insn LD_HU = lhu" | "load_insn LD_WU = lwu" | "load_insn LD_D = ld"

text \<open>
  The loads the implementation has right on RV32: \<open>lwu\<close> and \<open>ld\<close> do not exist there, and \<open>lhu\<close>
  masks the wrong register file.
\<close>

definition load_supported :: "RevFeature \<Rightarrow> load_op \<Rightarrow> bool" where
  "load_supported F op \<longleftrightarrow> IsRV32 F \<longrightarrow> op \<in> {LD_B, LD_H, LD_W, LD_BU}"

datatype store_op = ST_B | ST_H | ST_W | ST_D

fun store_width :: "store_op \<Rightarrow> nat" where
  "store_width ST_B = 1" | "store_width ST_H = 2" | "store_width ST_W = 4"
| "store_width ST_D = 8"

fun store_insn :: "store_op \<Rightarrow> insn" where
  "store_insn ST_B = sb" | "store_insn ST_H = sh" | "store_insn ST_W = sw"
| "store_insn ST_D = sd"

definition store_supported :: "RevFeature \<Rightarrow> store_op \<Rightarrow> bool" where
  "store_supported F op \<longleftrightarrow> IsRV32 F \<longrightarrow> op \<noteq> ST_D"

definition isa_ea :: "RevFeature \<Rightarrow> RevInst \<Rightarrow> mstate \<Rightarrow> u64" where
  "isa_ea F Inst S =
     (if IsRV32 F then ucast (get32 (regs S) (rs1 Inst) + sext 12 (imm Inst))
      else get64 (regs S) (rs1 Inst) + sext 12 (ucast (imm Inst)))"

lemma ea_isa:
  "fits 12 (imm Inst) \<Longrightarrow>
   isa_ea F Inst S = (if IsRV32 F then ea32 Inst (regs S) else ea64 Inst (regs S))"
  by (simp add: isa_ea_def ea32_def ea64_def ucast_sext)


section \<open>Loads\<close>

text \<open>What the epilogue of each load leaves in the target register.\<close>

lemma fits_le_word: "length bs = n \<Longrightarrow> fits (8 * n) (le_word bs :: 'a::len word)"
proof -
  assume n: "length bs = n"
  have "take_bit (8 * n) (le_word bs :: 'a word) = le_word bs"
    by (rule bit_word_eqI) (auto simp: bit_simps bit_le_word n div_less_iff_less_mult mult.commute)
  then have "unat (le_word bs :: 'a word) = take_bit (8 * n) (unat (le_word bs :: 'a word))"
    by (metis unsigned_take_bit_eq)
  then show ?thesis unfolding fits_def by (metis take_bit_nat_less_exp)
qed

lemma overlay_and:
  "length bs = 1 \<Longrightarrow> overlay bs (w32 :: u32) AND 0xFF = le_word bs"
  "length bs = 2 \<Longrightarrow> overlay bs (w32 :: u32) AND 0xFFFF = le_word bs"
  "length bs = 4 \<Longrightarrow> overlay bs (w32 :: u32) AND 0xFFFFFFFF = le_word bs"
  "length bs = 1 \<Longrightarrow> overlay bs (w64 :: u64) AND 0xFF = le_word bs"
  "length bs = 2 \<Longrightarrow> overlay bs (w64 :: u64) AND 0xFFFF = le_word bs"
  "length bs = 4 \<Longrightarrow> overlay bs (w64 :: u64) AND 0xFFFFFFFF = le_word bs"
  using overlay_mask [of bs w32] overlay_mask [of bs w64]
  by (simp_all add: mask_eq_decr_exp)

lemma ucast_SEXT_le_word:
  "length bs = 1 \<Longrightarrow> (ucast (SEXT (ucast (le_word bs :: u32)) 8) :: u32) = sext 8 (le_word bs)"
  "length bs = 2 \<Longrightarrow> (ucast (SEXT (ucast (le_word bs :: u32)) 16) :: u32) = sext 16 (le_word bs)"
  "length bs = 1 \<Longrightarrow> SEXT (le_word bs) 8 = sext 8 (le_word bs)"
  "length bs = 2 \<Longrightarrow> SEXT (le_word bs) 16 = sext 16 (le_word bs)"
  "length bs = 4 \<Longrightarrow> SEXT (le_word bs) 32 = sext 32 (le_word bs)"
  using fits_le_word [of bs _, where 'a = 32] fits_le_word [of bs _, where 'a = 64]
  by (simp_all add: fits_ucast ucast_sext)

lemma mstate_upd_order:
  "S\<lparr>mem := M, hazard := h, regs := R\<rparr> = S\<lparr>regs := R, mem := M, hazard := h\<rparr>"
  "S\<lparr>mem := M, regs := R\<rparr> = S\<lparr>regs := R, mem := M\<rparr>"
  by simp_all

lemmas load_simps = mstate_upd_order ReadVal32_def ReadVal64_def onR_def updR_def wb_def Let_def overlay_and
  ucast_SEXT_le_word ucast_SEXT_32

text \<open>The cost may be added before or after the program counter moves on.\<close>

lemma addCost_incPC: "bind_res (addCost F S) (onR (incPC64 Inst)) = addCost F (updR (incPC64 Inst) S)"
  by (auto simp: addCost_def onR_def updR_def incPC64_def bind_res_def split: sum.split)

lemma ucast_le_word: "length bs = 4 \<Longrightarrow> (ucast (le_word bs :: u32) :: u64) = le_word bs"
  by (rule bit_word_eqI) (auto simp: bit_simps bit_le_word)

lemma load_insn_eq:
  assumes imm: "fits 12 (imm Inst)" and supp: "load_supported F op"
    and read: "ReadMem (GetHart F) (isa_ea F Inst S) (load_width op) (mem S) = Inr (bs, M')"
    and len: "length bs = load_width op"
  shows "load_insn op F Inst S =
    addCost F ((wb F Inst (load_value op bs) (load_value op bs) S)\<lparr>mem := M', hazard := False\<rparr>)"
proof -
  note rd = read [unfolded ea_isa [OF imm]]
  show ?thesis
  proof (cases op)
    case LD_B
    then show ?thesis using rd len
      by (cases "rd Inst = 0"; cases "IsRV32 F") (simp_all add: lb_def load_simps set_zero)
  next
    case LD_H
    then show ?thesis using rd len
      by (cases "rd Inst = 0"; cases "IsRV32 F") (simp_all add: lh_def load_simps set_zero)
  next
    case LD_W
    then show ?thesis using rd len
      by (cases "rd Inst = 0"; cases "IsRV32 F") (simp_all add: lw_def load_simps set_zero)
  next
    case LD_BU
    then show ?thesis using rd len
      by (cases "rd Inst = 0"; cases "IsRV32 F") (simp_all add: lbu_def load_simps set_zero)
  next
    case LD_HU
    then show ?thesis using rd len supp
      by (cases "rd Inst = 0"; cases "IsRV32 F") (simp_all add: lhu_def load_simps set_zero load_supported_def)
  next
    case LD_WU
    then show ?thesis using rd len supp
      by (cases "rd Inst = 0") (simp_all add: lwu_def load_simps set_zero load_supported_def addCost_incPC ucast_le_word)
  next
    case LD_D
    then show ?thesis using rd len supp
      by (simp add: ld_def load_simps load_supported_def addCost_incPC overlay_full)
  qed
qed

text \<open>The cost update touches neither registers, PC nor memory contents.\<close>

lemma translate_rand [simp]: "translate (M\<lparr>rand_idx := k\<rparr>) = translate M"
  by (simp add: fun_eq_iff translate_def)

lemma vm_rand [simp]:
  "vbyte (M\<lparr>rand_idx := k\<rparr>) = vbyte M" "vm_inv (M\<lparr>rand_idx := k\<rparr>) = vm_inv M"
  by (simp_all add: fun_eq_iff vbyte_def vm_inv_def mem_inv_def tlb_ok_def tlb_coherent_def
      pages_ok_def fresh_zero_def split: option.split)

lemma addCost_spec:
  assumes "MaxCost F \<noteq> 0"
  obtains S' where "addCost F S = Inr S'" and "xreg F S' = xreg F S" and "xpc F S' = xpc F S"
    and "vbyte (mem S') = vbyte (mem S)" and "vm_inv (mem S') = vm_inv (mem S)"
    and "hazard S' = hazard S"
  using assms by (simp add: addCost_def RandCost_def xreg_def xpc_def fun_eq_iff)

text \<open>Observing a write-back.\<close>

lemma xreg_wb:
  "xreg F (wb F Inst v w S) r =
     (if r = rd Inst \<and> r \<noteq> 0 then (if IsRV32 F then ucast v else w) else xreg F S r)"
  by (auto simp: wb_def xreg_def RF_get_set set32_def set64_def)

lemma xpc_wb: "xpc F (wb F Inst v w S) = pc_next F Inst S"
  by (simp add: wb_def xpc_def pc_next_def)

lemma xreg_upd [simp]:
  "xreg F (S\<lparr>mem := M\<rparr>) = xreg F S" "xreg F (S\<lparr>hazard := h\<rparr>) = xreg F S"
  "xpc F (S\<lparr>mem := M\<rparr>) = xpc F S" "xpc F (S\<lparr>hazard := h\<rparr>) = xpc F S"
  by (simp_all add: xreg_def xpc_def fun_eq_iff)


section \<open>Stores\<close>

text \<open>Only the low bytes of the source register matter.\<close>

lemma le_bytes_ucast:
  "8 * n \<le> LENGTH('b) \<Longrightarrow> le_bytes n (ucast (w :: 'a::len word) :: 'b::len word) = le_bytes n w"
  by (auto simp: le_bytes_def intro!: bit_word_eqI simp: bit_simps dest: bit_imp_le_length)

lemma ea64_sum:
  "fits 12 (imm Inst) \<Longrightarrow> get64 R (rs1 Inst) + td_u64 (ucast (imm Inst)) 12 = ea64 Inst R"
  by (simp add: ea64_def ucast_sext fits_ucast)

lemma store_insn_eq:
  assumes imm: "fits 12 (imm Inst)" and supp: "store_supported F op"
  shows "store_insn op F Inst S =
    bind_res (WriteMem (GetHart F) (isa_ea F Inst S) (le_bytes (store_width op) (xreg F S (rs2 Inst))) (mem S))
      (\<lambda>M'. Inr ((updR (incPC F Inst) S)\<lparr>mem := M'\<rparr>))"
  using supp
  by (cases op; cases "IsRV32 F")
    (simp_all add: store_supported_def sb_def sh_def sw_def sd_def WriteU64_def ea64_sum [OF imm] onM_def onR_def updR_def incPC_def WriteU8_def WriteU16_def
      WriteU32_def ea_isa [OF imm] xreg_def Let_def le_bytes_ucast bind_res_assoc
      mstate_upd_order)


section \<open>Properties\<close>

lemma load_insn_effect:
  assumes "vm_inv (mem S)" and "ok_range (mem S) (isa_ea F Inst S) (load_width op)"
    and "fits 12 (imm Inst)" and "MaxCost F \<noteq> 0" and "load_supported F op"
  shows "\<exists>S'. load_insn op F Inst S = Inr S' \<and>
    (let bs = map (\<lambda>i. vbyte (mem S) (isa_ea F Inst S + of_nat i)) [0..<load_width op]
     in \<forall>r. xreg F S' r =
         (if r = rd Inst \<and> r \<noteq> 0 then
            (if IsRV32 F then ucast (load_value op bs :: u32) else load_value op bs)
          else xreg F S r)) \<and>
    vbyte (mem S') = vbyte (mem S) \<and> vm_inv (mem S') \<and> xpc F S' = pc_next F Inst S \<and> \<not> hazard S'"
proof -
  let ?n = "load_width op"
  let ?bs = "map (\<lambda>i. vbyte (mem S) (isa_ea F Inst S + of_nat i)) [0..<?n]"
  from vm.read_view [OF assms(1,2)] obtain M' where
    read: "ReadMem (GetHart F) (isa_ea F Inst S) ?n (mem S) = Inr (?bs, M')"
    and M': "vm_inv M'" "vbyte M' = vbyte (mem S)" by blast
  let ?S1 = "(wb F Inst (load_value op ?bs) (load_value op ?bs) S)\<lparr>mem := M', hazard := False\<rparr>"
  have eq: "load_insn op F Inst S = addCost F ?S1"
    by (rule load_insn_eq [OF assms(3,5) read]) simp
  obtain S' where "addCost F ?S1 = Inr S'"
    and "xreg F S' = xreg F ?S1" "xpc F S' = xpc F ?S1" "vbyte (mem S') = vbyte (mem ?S1)"
      "vm_inv (mem S') = vm_inv (mem ?S1)" "hazard S' = hazard ?S1" by (rule addCost_spec [OF assms(4), of ?S1])
  then show ?thesis using eq M' by (simp add: xreg_wb xpc_wb)
qed

text \<open>
  Loads. If the addressed bytes are a supported range of the memory, \<open>lb\<close>, \<open>lh\<close>, \<open>lw\<close>, \<open>lbu\<close>
  and (on RV64) \<open>lhu\<close>, \<open>lwu\<close> and \<open>ld\<close> load the little-endian value found at \<open>rs1\<close> plus the sign-extended 12-bit
  offset, extended as the mnemonic says, into \<open>rd\<close>; other registers, the memory contents and the
  memory invariant stay, the hazard is cleared and the PC advances.
\<close>

theorem load_insn_correct:
  assumes "vm_inv (mem S)" and "ok_range (mem S) (isa_ea F Inst S) (load_width op)"
    and "fits 12 (imm Inst)" and "MaxCost F \<noteq> 0" and "load_supported F op"
  shows "\<exists>S'. load_insn op F Inst S = Inr S' \<and>
    (let bs = map (\<lambda>i. vbyte (mem S) (isa_ea F Inst S + of_nat i)) [0..<load_width op]
     in \<forall>r. xreg F S' r =
         (if r = rd Inst \<and> r \<noteq> 0 then
            (if IsRV32 F then ucast (load_value op bs :: u32) else load_value op bs)
          else xreg F S r)) \<and>
    vbyte (mem S') = vbyte (mem S) \<and> vm_inv (mem S') \<and> xpc F S' = pc_next F Inst S \<and> \<not> hazard S'"
  by (rule load_insn_effect [OF assms])

theorem load_insn_correct_witness:
  "\<exists>S'. lw demo_F64 (demo_inst 5 11 0 0xFFE) (demo_state ((\<lambda>_. 7)(11 := 0x380000))) = Inr S' \<and>
     xreg demo_F64 S' 5 = 0 \<and> xreg demo_F64 S' 6 = 7"
proof -
  let ?S = "demo_state ((\<lambda>_. 7)(11 := 0x380000))" and ?I = "demo_inst 5 11 0 0xFFE"
  have ea: "isa_ea demo_F64 ?I ?S = 0x37FFFE"
    by (simp add: isa_ea_def sext_def signed_take_bit_def mask_eq_exp_minus_1)
  have "vm_inv (mem ?S)" using vm_inv_new [of 4] by simp
  moreover have "ok_range (mem ?S) (isa_ea demo_F64 ?I ?S) (load_width LD_W)"
    using demo_mem_ok [of 4] by (simp add: ea)
  moreover have "vbyte demo_mem = (\<lambda>_. 0)"
    by (simp add: fun_eq_iff vbyte_def translate_def) (simp add: new_RevMem_def)
  ultimately show ?thesis
    using load_insn_correct [of ?S demo_F64 ?I LD_W]
    by (auto simp: Let_def ea fits_def upt_rec sext_def load_supported_def)
qed

lemma store_insn_effect:
  assumes "vm_inv (mem S)" and "ok_range (mem S) (isa_ea F Inst S) (store_width op)"
    and "fits 12 (imm Inst)" and "store_supported F op"
  shows "\<exists>S'. store_insn op F Inst S = Inr S' \<and>
    vbyte (mem S') = vstore (isa_ea F Inst S) (le_bytes (store_width op) (xreg F S (rs2 Inst)))
      (vbyte (mem S)) \<and>
    vm_inv (mem S') \<and> xreg F S' = xreg F S \<and> xpc F S' = pc_next F Inst S"
proof -
  let ?bs = "le_bytes (store_width op) (xreg F S (rs2 Inst))"
  have "ok_range (mem S) (isa_ea F Inst S) (length ?bs)" using assms(2) by simp
  from vm.write_view [OF assms(1) this] obtain M' where
    "WriteMem (GetHart F) (isa_ea F Inst S) ?bs (mem S) = Inr M'" "vm_inv M'"
    "vbyte M' = vstore (isa_ea F Inst S) ?bs (vbyte (mem S))" by blast
  then show ?thesis
    by (simp add: store_insn_eq [OF assms(3,4)])
      (simp add: xreg_def xpc_def pc_next_def incPC_def fun_eq_iff)
qed

text \<open>
  Stores. \<open>sb\<close>, \<open>sh\<close>, \<open>sw\<close> and (on RV64) \<open>sd\<close> write the low one, two, four or eight bytes of \<open>rs2\<close>, little-endian, to
  \<open>rs1\<close> plus the sign-extended 12-bit offset; every other byte of the memory and every register
  stay, and the PC advances.
\<close>

theorem store_insn_correct:
  assumes "vm_inv (mem S)" and "ok_range (mem S) (isa_ea F Inst S) (store_width op)"
    and "fits 12 (imm Inst)" and "store_supported F op"
  shows "\<exists>S'. store_insn op F Inst S = Inr S' \<and>
    vbyte (mem S') = vstore (isa_ea F Inst S) (le_bytes (store_width op) (xreg F S (rs2 Inst)))
      (vbyte (mem S)) \<and>
    vm_inv (mem S') \<and> xreg F S' = xreg F S \<and> xpc F S' = pc_next F Inst S"
  by (rule store_insn_effect [OF assms])

theorem store_insn_correct_witness:
  "\<exists>S'. sw demo_F32 (demo_inst 0 11 12 0xFFE) (demo_state ((\<lambda>_. 0)(11 := 0x380000, 12 := 0x11223344))) = Inr S' \<and>
     vbyte (mem S') 0x37FFFE = 0x44 \<and> vbyte (mem S') 0x380001 = 0x11"
proof -
  let ?S = "demo_state ((\<lambda>_. 0)(11 := 0x380000, 12 := 0x11223344))" and ?I = "demo_inst 0 11 12 0xFFE"
  have ea: "isa_ea demo_F32 ?I ?S = 0x37FFFE"
    by (simp add: isa_ea_def sext_def signed_take_bit_def mask_eq_exp_minus_1)
  have "vm_inv (mem ?S)" using vm_inv_new [of 4] by simp
  moreover have "ok_range (mem ?S) (isa_ea demo_F32 ?I ?S) (store_width ST_W)"
    using demo_mem_ok [of 4] by (simp add: ea)
  ultimately show ?thesis
    using store_insn_correct [of ?S demo_F32 ?I ST_W]
    by (auto simp: ea fits_def vstore_def le_bytes_def upt_rec store_supported_def)
qed

end
