(* ===== verification/Rev_RVA.thy ===== *)
theory Rev_RVA
  imports Rev_ISA_Mem
begin

text \<open>
  The atomic memory operations: \<open>RevMem::AMOMem\<close> in the configuration without a memory
  controller (src/RevMem.cc), the read-modify-write instructions of include/insns/RV32A.h and
  RV64A.h, and the PAN future instructions of RV64P.h. Load-reserved and store-conditional are not
  modelled: a reservation stores a raw pointer into the register file of the thread that made it,
  and the store-conditional reads and clears neighbouring storage through it.
\<close>

section \<open>Request flags\<close>

definition F_SEXT64 :: u32 where "F_SEXT64 = push_bit 18 1"
definition F_AMOADD :: u32 where "F_AMOADD = push_bit 21 1"
definition F_AMOXOR :: u32 where "F_AMOXOR = push_bit 22 1"
definition F_AMOAND :: u32 where "F_AMOAND = push_bit 23 1"
definition F_AMOOR :: u32 where "F_AMOOR = push_bit 24 1"
definition F_AMOMIN :: u32 where "F_AMOMIN = push_bit 25 1"
definition F_AMOMAX :: u32 where "F_AMOMAX = push_bit 26 1"
definition F_AMOMINU :: u32 where "F_AMOMINU = push_bit 27 1"
definition F_AMOMAXU :: u32 where "F_AMOMAXU = push_bit 28 1"
definition F_AMOSWAP :: u32 where "F_AMOSWAP = push_bit 29 1"
definition F_AQ :: u32 where "F_AQ = push_bit 30 1"
definition F_RL :: u32 where "F_RL = push_bit 31 1"

lemmas flag_defs = F_SEXT64_def F_AMOADD_def F_AMOXOR_def F_AMOAND_def F_AMOOR_def F_AMOMIN_def
  F_AMOMAX_def F_AMOMINU_def F_AMOMAXU_def F_AMOSWAP_def F_AQ_def F_RL_def


section \<open>\<open>AMOMem\<close>\<close>

text \<open>
  The chain of flag tests: what is stored into \<open>*TmpTarget\<close> from the loaded value and \<open>*TmpData\<close>.
  The sum is one of signed integers, undefined on overflow.
\<close>

definition amo_select :: "u32 \<Rightarrow> ('a::len word \<Rightarrow> 'a word \<Rightarrow> 'a word res) option" where
  "amo_select flags =
     (if flags AND F_AMOADD > 0 then Some s_add
      else if flags AND F_AMOXOR > 0 then Some (\<lambda>t d. Inr (t XOR d))
      else if flags AND F_AMOAND > 0 then Some (\<lambda>t d. Inr (t AND d))
      else if flags AND F_AMOOR > 0 then Some (\<lambda>t d. Inr (t OR d))
      else if flags AND F_AMOMIN > 0 then Some (\<lambda>t d. Inr (if sint d < sint t then d else t))
      else if flags AND F_AMOMAX > 0 then Some (\<lambda>t d. Inr (if sint t < sint d then d else t))
      else if flags AND F_AMOMINU > 0 then Some (\<lambda>t d. Inr (min t d))
      else if flags AND F_AMOMAXU > 0 then Some (\<lambda>t d. Inr (max t d))
      else if flags AND F_AMOSWAP > 0 then Some (\<lambda>t d. Inr d)
      else None)"

text \<open>
  \<open>Data\<close> and \<open>Target\<close> point at register slots of \<open>LENGTH('a) div 8\<close> bytes; \<open>aliased\<close> says that
  they are the same slot, in which case the load through \<open>Target\<close> overwrites \<open>*Data\<close> as well.
  \<open>t0\<close> is the old content of \<open>*Target\<close>; the result is its new content and the memory.
\<close>

definition AMOMem ::
  "u32 \<Rightarrow> u64 \<Rightarrow> 'a::len word \<Rightarrow> bool \<Rightarrow> 'a word \<Rightarrow> u32 \<Rightarrow> RevMem \<Rightarrow> ('a word \<times> RevMem) res" where
  "AMOMem hart Addr Data aliased t0 flags M =
     bind_res (CalcPhysAddr (pageNum Addr) Addr M) (\<lambda>(_, M1).
       case amo_select flags of
         None \<Rightarrow> Inr (t0, M1)
       | Some f \<Rightarrow>
           bind_res (ReadMem hart Addr (LENGTH('a) div 8) M1) (\<lambda>(bs, M2).
             let t = le_word bs; d = (if aliased then t else Data)
             in bind_res (f t d) (\<lambda>t'.
                  bind_res (WriteMem hart Addr (le_bytes (LENGTH('a) div 8) t') M2) (\<lambda>M3.
                    Inr (t', M3)))))"


section \<open>The instructions\<close>

text \<open>The aq and rl bits of the instruction become request flags.\<close>

definition amo_flags :: "u32 \<Rightarrow> RevInst \<Rightarrow> u32" where
  "amo_flags flag Inst =
     (if aq Inst \<noteq> 0 \<and> rl Inst \<noteq> 0 then flag OR (F_AQ OR F_RL)
      else if aq Inst \<noteq> 0 then flag OR F_AQ
      else if rl Inst \<noteq> 0 then flag OR F_RL
      else flag)"

text \<open>
  The bodies of the eighteen functions differ in the flag only. The word forms operate on the low
  four bytes of the 64-bit register slots; the upper bytes of \<open>rd\<close> stay.
\<close>

definition amo_w :: "u32 \<Rightarrow> insn" where
  "amo_w flag F Inst S =
     (let flags = amo_flags flag Inst; R = regs S
      in if IsRV32 F then
           bind_res (AMOMem (GetHart F) (ucast (get32 R (rs1 Inst))) (get32 R (rs2 Inst))
               (rd Inst = rs2 Inst) (get32 R (rd Inst)) flags (mem S)) (\<lambda>(t, M').
             addCost F (updR (\<lambda>R. incPC32 Inst (set32 (rd Inst) t R)) (S\<lparr>mem := M', hazard := False\<rparr>)))
         else
           bind_res (AMOMem (GetHart F) (get64 R (rs1 Inst)) (ucast (get64 R (rs2 Inst)) :: u32)
               (rd Inst = rs2 Inst) (ucast (get64 R (rd Inst))) (flags OR F_SEXT64) (mem S)) (\<lambda>(t, M').
             addCost F (updR (\<lambda>R. incPC64 Inst
                 (set64 (rd Inst) (overlay (le_bytes 4 t) (get64 R (rd Inst))) R))
               (S\<lparr>mem := M', hazard := False\<rparr>))))"

definition amo_d :: "u32 \<Rightarrow> insn" where
  "amo_d flag F Inst S =
     (let flags = amo_flags flag Inst; R = regs S
      in bind_res (AMOMem (GetHart F) (get64 R (rs1 Inst)) (get64 R (rs2 Inst))
             (rd Inst = rs2 Inst) (get64 R (rd Inst)) flags (mem S)) (\<lambda>(t, M').
           addCost F (updR (\<lambda>R. incPC64 Inst (set64 (rd Inst) t R)) (S\<lparr>mem := M', hazard := False\<rparr>))))"

definition amoswapw :: insn where "amoswapw = amo_w F_AMOSWAP"
definition amoaddw :: insn where "amoaddw = amo_w F_AMOADD"
definition amoxorw :: insn where "amoxorw = amo_w F_AMOXOR"
definition amoandw :: insn where "amoandw = amo_w F_AMOAND"
definition amoorw :: insn where "amoorw = amo_w F_AMOOR"
definition amominw :: insn where "amominw = amo_w F_AMOMIN"
definition amomaxw :: insn where "amomaxw = amo_w F_AMOMAX"
definition amominuw :: insn where "amominuw = amo_w F_AMOMINU"
definition amomaxuw :: insn where "amomaxuw = amo_w F_AMOMAXU"

definition amoswapd :: insn where "amoswapd = amo_d F_AMOSWAP"
definition amoaddd :: insn where "amoaddd = amo_d F_AMOADD"
definition amoxord :: insn where "amoxord = amo_d F_AMOXOR"
definition amoandd :: insn where "amoandd = amo_d F_AMOAND"
definition amoord :: insn where "amoord = amo_d F_AMOOR"
definition amomind :: insn where "amomind = amo_d F_AMOMIN"
definition amomaxd :: insn where "amomaxd = amo_d F_AMOMAX"
definition amominud :: insn where "amominud = amo_d F_AMOMINU"
definition amomaxud :: insn where "amomaxud = amo_d F_AMOMAXU"

lemmas amo_defs = amoswapw_def amoaddw_def amoxorw_def amoandw_def amoorw_def amominw_def amomaxw_def amominuw_def amomaxuw_def
  amoswapd_def amoaddd_def amoxord_def amoandd_def amoord_def amomind_def amomaxd_def amominud_def amomaxud_def


subsection \<open>PAN futures\<close>

text \<open>The three functions of RV64P.h do not advance the PC.\<close>

definition future :: insn where
  "future F Inst S =
     (let (b, M') = SetFuture (ea64 Inst (regs S)) (mem S)
      in onR (set64 (rd Inst) (if b then 1 else 0)) (S\<lparr>mem := M'\<rparr>))"

definition rfuture :: insn where
  "rfuture F Inst S =
     (let (b, M') = RevokeFuture (ea64 Inst (regs S)) (mem S)
      in onR (set64 (rd Inst) (if b then 1 else 0)) (S\<lparr>mem := M'\<rparr>))"

definition sfuture :: insn where
  "sfuture F Inst S =
     onR (set64 (rd Inst) (if StatusFuture (ea64 Inst (regs S)) (mem S) then 1 else 0)) S"


section \<open>Reference semantics\<close>

text \<open>What the A extension stores: a function of the old memory word and \<open>rs2\<close>.\<close>

datatype amo_op = AMO_SWAP | AMO_ADD | AMO_XOR | AMO_AND | AMO_OR | AMO_MIN | AMO_MAX
  | AMO_MINU | AMO_MAXU

fun isa_amo :: "amo_op \<Rightarrow> 'a::len word \<Rightarrow> 'a word \<Rightarrow> 'a word" where
  "isa_amo AMO_SWAP t d = d"
| "isa_amo AMO_ADD t d = t + d"
| "isa_amo AMO_XOR t d = t XOR d"
| "isa_amo AMO_AND t d = t AND d"
| "isa_amo AMO_OR t d = t OR d"
| "isa_amo AMO_MIN t d = (if t \<le>s d then t else d)"
| "isa_amo AMO_MAX t d = (if d \<le>s t then t else d)"
| "isa_amo AMO_MINU t d = (if t \<le> d then t else d)"
| "isa_amo AMO_MAXU t d = (if t \<le> d then d else t)"

fun amo_flag :: "amo_op \<Rightarrow> u32" where
  "amo_flag AMO_SWAP = F_AMOSWAP"
| "amo_flag AMO_ADD = F_AMOADD"
| "amo_flag AMO_XOR = F_AMOXOR"
| "amo_flag AMO_AND = F_AMOAND"
| "amo_flag AMO_OR = F_AMOOR"
| "amo_flag AMO_MIN = F_AMOMIN"
| "amo_flag AMO_MAX = F_AMOMAX"
| "amo_flag AMO_MINU = F_AMOMINU"
| "amo_flag AMO_MAXU = F_AMOMAXU"

fun amow_insn :: "amo_op \<Rightarrow> insn" where
  "amow_insn AMO_SWAP = amoswapw"
| "amow_insn AMO_ADD = amoaddw"
| "amow_insn AMO_XOR = amoxorw"
| "amow_insn AMO_AND = amoandw"
| "amow_insn AMO_OR = amoorw"
| "amow_insn AMO_MIN = amominw"
| "amow_insn AMO_MAX = amomaxw"
| "amow_insn AMO_MINU = amominuw"
| "amow_insn AMO_MAXU = amomaxuw"

fun amod_insn :: "amo_op \<Rightarrow> insn" where
  "amod_insn AMO_SWAP = amoswapd"
| "amod_insn AMO_ADD = amoaddd"
| "amod_insn AMO_XOR = amoxord"
| "amod_insn AMO_AND = amoandd"
| "amod_insn AMO_OR = amoord"
| "amod_insn AMO_MIN = amomind"
| "amod_insn AMO_MAX = amomaxd"
| "amod_insn AMO_MINU = amominud"
| "amod_insn AMO_MAXU = amomaxud"

lemma amow_insn_flag: "amow_insn op = amo_w (amo_flag op)"
  by (cases op) (simp_all add: amo_defs)

lemma amod_insn_flag: "amod_insn op = amo_d (amo_flag op)"
  by (cases op) (simp_all add: amo_defs)

text \<open>Signed addition is where the source may have undefined behaviour.\<close>

definition amo_defined :: "amo_op \<Rightarrow> 'a::len word \<Rightarrow> 'a word \<Rightarrow> bool" where
  "amo_defined op t d \<longleftrightarrow> (op = AMO_ADD \<longrightarrow> sint t + sint d = sint (t + d))"

lemma flag_test:
  "flags AND F_AMOADD > 0 \<longleftrightarrow> bit flags 21" "flags AND F_AMOXOR > 0 \<longleftrightarrow> bit flags 22"
  "flags AND F_AMOAND > 0 \<longleftrightarrow> bit flags 23" "flags AND F_AMOOR > 0 \<longleftrightarrow> bit flags 24"
  "flags AND F_AMOMIN > 0 \<longleftrightarrow> bit flags 25" "flags AND F_AMOMAX > 0 \<longleftrightarrow> bit flags 26"
  "flags AND F_AMOMINU > 0 \<longleftrightarrow> bit flags 27" "flags AND F_AMOMAXU > 0 \<longleftrightarrow> bit flags 28"
  "flags AND F_AMOSWAP > 0 \<longleftrightarrow> bit flags 29"
  by (simp_all only: flag_defs push_bit_of_1 and_exp_pos_iff)

lemma bit_flag:
  "bit F_SEXT64 k \<longleftrightarrow> k = 18" "bit F_AMOADD k \<longleftrightarrow> k = 21" "bit F_AMOXOR k \<longleftrightarrow> k = 22"
  "bit F_AMOAND k \<longleftrightarrow> k = 23" "bit F_AMOOR k \<longleftrightarrow> k = 24" "bit F_AMOMIN k \<longleftrightarrow> k = 25"
  "bit F_AMOMAX k \<longleftrightarrow> k = 26" "bit F_AMOMINU k \<longleftrightarrow> k = 27" "bit F_AMOMAXU k \<longleftrightarrow> k = 28"
  "bit F_AMOSWAP k \<longleftrightarrow> k = 29" "bit F_AQ k \<longleftrightarrow> k = 30" "bit F_RL k \<longleftrightarrow> k = 31"
  by (auto simp only: flag_defs push_bit_of_1 bit_exp_iff possible_bit_word) simp_all

lemma amo_select_flag:
  assumes "fl \<in> {amo_flags (amo_flag op) Inst, amo_flags (amo_flag op) Inst OR F_SEXT64}"
  shows "\<exists>f. amo_select fl = Some f \<and>
    (\<forall>t d :: 'a::len word. amo_defined op t d \<longrightarrow> f t d = Inr (isa_amo op t d))"
proof -
  have "bit fl k \<longleftrightarrow> bit (amo_flag op) k" if "20 < k" "k < 30" for k
    using assms that by (auto simp: amo_flags_def bit_or_iff bit_flag split: if_splits)
  then show ?thesis
    by (cases op) (simp_all add: amo_select_def flag_test bit_flag amo_defined_def s_add_def
        word_sle_eq min_def max_def not_le)
qed


section \<open>What the instructions do\<close>

lemma CalcPhysAddr_vm:
  assumes inv: "vm_inv M" and room: "page_room 1 M" and valid: "isValidVirtAddr M v"
  obtains p M' where "CalcPhysAddr (pageNum v) v M = Inr (p, M')" and "vm_inv M'"
    and "vbyte M' = vbyte M" and "mem_after M M'"
proof -
  have mi: "mem_inv M" and fz: "fresh_zero M" using inv by (simp_all add: vm_inv_def)
  obtain p M' where c: "CalcPhysAddr (pageNum v) v M = Inr (p, M')" and mi': "mem_inv M'"
    and e: "mem_extends M M'" and n: "unat (nextPage M') \<le> unat (nextPage M) + 1"
    by (rule CalcPhysAddr_spec [OF mi room]) (use valid in blast)+
  have "vbyte M' = vbyte M" by (rule HOL.ext) (rule vbyte_extends [OF e fz])
  moreover have "mem_after M M'"
    using e n by (auto simp: mem_after_def fun_eq_iff mem_extends_valid mem_extends_def [of M M'])
  ultimately show thesis using that c vm_inv_extends [OF inv e mi'] by blast
qed

text \<open>A supported range with room for the pages that three successive accesses may take.\<close>

definition amo_range :: "RevMem \<Rightarrow> u64 \<Rightarrow> nat \<Rightarrow> bool" where
  "amo_range M a n \<longleftrightarrow> ok_range M a n \<and> page_room 7 M \<and>
     (unat (nextPage M) + 6) * 2 ^ 18 \<le> unat (memSize M)"

lemma amo_range_after:
  assumes "amo_range M a n" and "mem_after M M'" and "mem_after M' M''"
  shows "ok_range M' a n" and "ok_range M'' a n"
  using assms by (simp_all add: amo_range_def mem_after_def ok_range_def page_room_def)

lemma AMOMem_spec:
  fixes Data t0 :: "'a::len word"
  defines "n \<equiv> LENGTH('a) div 8"
  assumes inv: "vm_inv M" and ok: "amo_range M Addr n"
    and sel: "amo_select flags = Some f" and old: "old = le_word (map (\<lambda>i. vbyte M (Addr + of_nat i)) [0..<n])"
    and res: "f old (if aliased then old else Data) = Inr new"
  shows "\<exists>M'. AMOMem hart Addr Data aliased t0 flags M = Inr (new, M') \<and> vm_inv M' \<and>
    vbyte M' = vstore Addr (le_bytes n new) (vbyte M)"
proof -
  have r: "ok_range M Addr n" "page_room 1 M" "isValidVirtAddr M Addr"
    using ok by (auto simp: amo_range_def ok_range_def page_room_def)
  obtain p M1 where c: "CalcPhysAddr (pageNum Addr) Addr M = Inr (p, M1)" and v1: "vm_inv M1"
    and b1: "vbyte M1 = vbyte M" and a1: "mem_after M M1"
    by (rule CalcPhysAddr_vm [OF inv r(2,3)])
  have ok1: "ok_range M1 Addr n" by (rule amo_range_after(1) [OF ok a1, of M1]) (simp add: mem_after_def)
  from ReadMem_spec [OF v1 ok1, of hart] obtain M2 where
    rd: "ReadMem hart Addr n M1 = Inr (map (\<lambda>i. vbyte M (Addr + of_nat i)) [0..<n], M2)"
    and v2: "vm_inv M2" "vbyte M2 = vbyte M" and a2: "mem_after M1 M2" by (auto simp: b1)
  have "ok_range M2 Addr (length (le_bytes n new))" using amo_range_after(2) [OF ok a1 a2] by simp
  from WriteMem_spec [OF v2(1) this, of hart] obtain M3 where
    "WriteMem hart Addr (le_bytes n new) M2 = Inr M3" "vm_inv M3"
    "vbyte M3 = vstore Addr (le_bytes n new) (vbyte M)" by (auto simp: v2)
  then show ?thesis
    using c sel rd res by (cases aliased) (simp_all add: AMOMem_def old [symmetric] Let_def flip: n_def)
qed

definition amo_addr :: "RevFeature \<Rightarrow> RevInst \<Rightarrow> mstate \<Rightarrow> u64" where
  "amo_addr F Inst S = xreg F S (rs1 Inst)"

definition mem_word :: "RevMem \<Rightarrow> u64 \<Rightarrow> 'a::len word" where
  "mem_word M a = le_word (map (\<lambda>i. vbyte M (a + of_nat i)) [0..<LENGTH('a) div 8])"

lemma overlay_low: "(ucast (overlay (le_bytes 4 (x :: u32)) (w :: u64)) :: u32) = x"
  by (rule bit_word_eqI) (auto simp: bit_simps bit_overlay le_bytes_def)

text \<open>
  C31. Atomic memory operations, word form. On a supported address, for \<open>rd \<noteq> rs2\<close> and a sum without
  signed overflow, the memory word becomes what the A extension says, every other byte stays, the
  registers other than \<open>rd\<close> stay, the hazard is cleared and the PC advances. The low word of \<open>rd\<close>
  receives the value that was stored (the ISA manual asks for the value that was loaded).
\<close>

theorem amow_insn_correct:
  assumes "vm_inv (mem S)" and "amo_range (mem S) (amo_addr F Inst S) 4" and "MaxCost F \<noteq> 0"
    and "rd Inst \<noteq> rs2 Inst"
    and "amo_defined op (mem_word (mem S) (amo_addr F Inst S)) (ucast (xreg F S (rs2 Inst)) :: u32)"
  shows "\<exists>S'. amow_insn op F Inst S = Inr S' \<and>
    (let new = isa_amo op (mem_word (mem S) (amo_addr F Inst S)) (ucast (xreg F S (rs2 Inst)) :: u32)
     in vbyte (mem S') = vstore (amo_addr F Inst S) (le_bytes 4 new) (vbyte (mem S)) \<and>
        (rd Inst \<noteq> 0 \<longrightarrow> ucast (xreg F S' (rd Inst)) = new)) \<and>
    (\<forall>r. r \<noteq> rd Inst \<longrightarrow> xreg F S' r = xreg F S r) \<and>
    vm_inv (mem S') \<and> xpc F S' = pc_next F Inst S \<and> \<not> hazard S'"
proof -
  let ?a = "amo_addr F Inst S" and ?d = "ucast (xreg F S (rs2 Inst)) :: u32"
  let ?new = "isa_amo op (mem_word (mem S) ?a) ?d"
  let ?fl = "if IsRV32 F then amo_flags (amo_flag op) Inst else amo_flags (amo_flag op) Inst OR F_SEXT64"
  have "?fl \<in> {amo_flags (amo_flag op) Inst, amo_flags (amo_flag op) Inst OR F_SEXT64}" by simp
  from amo_select_flag [OF this, where 'a = 32] obtain f where sel: "amo_select ?fl = Some f"
    and f: "f (mem_word (mem S) ?a) ?d = Inr ?new" using assms(5) by blast
  have "\<exists>M'. AMOMem (GetHart F) ?a ?d (rd Inst = rs2 Inst) (ucast (xreg F S (rd Inst))) ?fl (mem S) =
      Inr (?new, M') \<and> vm_inv M' \<and> vbyte M' = vstore ?a (le_bytes 4 ?new) (vbyte (mem S))"
    using AMOMem_spec [where 'a = 32, OF assms(1) _ sel refl, of ?a] assms(2,4) f
    by (simp add: mem_word_def)
  then obtain M' where M': "AMOMem (GetHart F) ?a ?d (rd Inst = rs2 Inst) (ucast (xreg F S (rd Inst)))
      ?fl (mem S) = Inr (?new, M')" "vm_inv M'" "vbyte M' = vstore ?a (le_bytes 4 ?new) (vbyte (mem S))"
    by blast
  let ?S1 = "if IsRV32 F then updR (\<lambda>R. incPC32 Inst (set32 (rd Inst) ?new R)) (S\<lparr>mem := M', hazard := False\<rparr>)
    else updR (\<lambda>R. incPC64 Inst (set64 (rd Inst) (overlay (le_bytes 4 ?new) (get64 R (rd Inst))) R))
      (S\<lparr>mem := M', hazard := False\<rparr>)"
  have eq: "amow_insn op F Inst S = addCost F ?S1"
    using M'(1) by (cases "IsRV32 F") (simp_all add: amow_insn_flag amo_w_def Let_def amo_addr_def xreg_def)
  have "rd Inst \<noteq> 0 \<longrightarrow> ucast (xreg F ?S1 (rd Inst)) = ?new"
    by (simp add: xreg_def overlay_low)
  moreover have "r \<noteq> rd Inst \<longrightarrow> xreg F ?S1 r = xreg F S r" for r by (simp add: xreg_def)
  moreover have "xpc F ?S1 = pc_next F Inst S" by (simp add: xpc_def pc_next_def)
  moreover obtain S' where "addCost F ?S1 = Inr S'"
    and "xreg F S' = xreg F ?S1" "xpc F S' = xpc F ?S1" "vbyte (mem S') = vbyte (mem ?S1)"
      "vm_inv (mem S') = vm_inv (mem ?S1)" "hazard S' = hazard ?S1" by (rule addCost_spec [OF assms(3), of ?S1])
  ultimately show ?thesis using eq M' by (simp add: Let_def)
qed

text \<open>The witnesses run on a memory with one supported word at \<open>0x37FFFE\<close>, over a page boundary.\<close>

lemma demo_amo:
  "0 < n \<Longrightarrow> n \<le> 64 \<Longrightarrow> amo_range demo_mem 0x37FFFE n" "vm_inv demo_mem"
  "mem_word demo_mem a = 0"
proof -
  have z: "vbyte demo_mem = (\<lambda>_. 0)"
    by (simp add: fun_eq_iff vbyte_def translate_def) (simp add: new_RevMem_def)
  have le0: "le_word (map (\<lambda>_. 0) xs) = 0" for xs :: "nat list" by (induction xs) simp_all
  show "mem_word demo_mem a = 0" using le0 by (simp add: mem_word_def z)
  show "0 < n \<Longrightarrow> n \<le> 64 \<Longrightarrow> amo_range demo_mem 0x37FFFE n"
    using demo_mem_ok [of n] by (simp add: amo_range_def page_room_def) (simp add: new_RevMem_def)
  show "vm_inv demo_mem" by (rule vm_inv_new) simp
qed

theorem amow_insn_correct_witness:
  "\<exists>S'. amoaddw demo_F64 (demo_inst 5 11 12 0) (demo_state ((\<lambda>_. 0)(11 := 0x37FFFE, 12 := 0x11223344))) = Inr S' \<and>
     vbyte (mem S') 0x37FFFE = 0x44 \<and> vbyte (mem S') 0x380001 = 0x11"
proof -
  let ?S = "demo_state ((\<lambda>_. 0)(11 := 0x37FFFE, 12 := 0x11223344))" and ?I = "demo_inst 5 11 12 0"
  have a: "amo_addr demo_F64 ?I ?S = 0x37FFFE" by (simp add: amo_addr_def)
  show ?thesis
    using amow_insn_correct [of ?S demo_F64 ?I AMO_ADD] demo_amo(1) [of 4] demo_amo(2)
    by (auto simp: a demo_amo(3) amo_defined_def vstore_def le_bytes_def upt_rec)
qed

text \<open>
  Atomic memory operations, doubleword form: as the word form, on the full register.
\<close>

theorem amod_insn_correct:
  assumes "\<not> IsRV32 F" and "vm_inv (mem S)" and "amo_range (mem S) (amo_addr F Inst S) 8"
    and "MaxCost F \<noteq> 0" and "rd Inst \<noteq> rs2 Inst"
    and "amo_defined op (mem_word (mem S) (amo_addr F Inst S)) (xreg F S (rs2 Inst))"
  shows "\<exists>S'. amod_insn op F Inst S = Inr S' \<and>
    (let new = isa_amo op (mem_word (mem S) (amo_addr F Inst S)) (xreg F S (rs2 Inst))
     in vbyte (mem S') = vstore (amo_addr F Inst S) (le_bytes 8 new) (vbyte (mem S)) \<and>
        (\<forall>r. xreg F S' r = (if r = rd Inst \<and> r \<noteq> 0 then new else xreg F S r))) \<and>
    vm_inv (mem S') \<and> xpc F S' = pc_next F Inst S \<and> \<not> hazard S'"
proof -
  let ?a = "amo_addr F Inst S" and ?d = "xreg F S (rs2 Inst)"
  let ?new = "isa_amo op (mem_word (mem S) ?a) ?d" and ?fl = "amo_flags (amo_flag op) Inst"
  obtain f where sel: "amo_select ?fl = Some f" and f: "f (mem_word (mem S) ?a) ?d = Inr ?new"
    using amo_select_flag [where 'a = 64, of ?fl op Inst] assms(6) by auto
  have "\<exists>M'. AMOMem (GetHart F) ?a ?d (rd Inst = rs2 Inst) (xreg F S (rd Inst)) ?fl (mem S) =
      Inr (?new, M') \<and> vm_inv M' \<and> vbyte M' = vstore ?a (le_bytes 8 ?new) (vbyte (mem S))"
    using AMOMem_spec [where 'a = 64, OF assms(2) _ sel refl, of ?a] assms(3,5) f
    by (simp add: mem_word_def)
  then obtain M' where M': "AMOMem (GetHart F) ?a ?d (rd Inst = rs2 Inst) (xreg F S (rd Inst))
      ?fl (mem S) = Inr (?new, M')" "vm_inv M'" "vbyte M' = vstore ?a (le_bytes 8 ?new) (vbyte (mem S))"
    by blast
  let ?S1 = "updR (\<lambda>R. incPC64 Inst (set64 (rd Inst) ?new R)) (S\<lparr>mem := M', hazard := False\<rparr>)"
  have eq: "amod_insn op F Inst S = addCost F ?S1"
    using M'(1) assms(1) by (simp add: amod_insn_flag amo_d_def Let_def amo_addr_def xreg_def)
  have "xreg F ?S1 r = (if r = rd Inst \<and> r \<noteq> 0 then ?new else xreg F S r)" for r
    using assms(1) by (simp add: xreg_def set64_def RF_get_set)
  moreover have "xpc F ?S1 = pc_next F Inst S" using assms(1) by (simp add: xpc_def pc_next_def)
  moreover obtain S' where "addCost F ?S1 = Inr S'"
    and "xreg F S' = xreg F ?S1" "xpc F S' = xpc F ?S1" "vbyte (mem S') = vbyte (mem ?S1)"
      "vm_inv (mem S') = vm_inv (mem ?S1)" "hazard S' = hazard ?S1" by (rule addCost_spec [OF assms(4), of ?S1])
  ultimately show ?thesis using eq M' by (simp add: Let_def)
qed

theorem amod_insn_correct_witness:
  "\<exists>S'. amoswapd demo_F64 (demo_inst 5 11 12 0) (demo_state ((\<lambda>_. 0)(11 := 0x37FFFE, 12 := 0x11223344))) = Inr S' \<and>
     vbyte (mem S') 0x37FFFE = 0x44 \<and> xreg demo_F64 S' 5 = 0x11223344"
proof -
  let ?S = "demo_state ((\<lambda>_. 0)(11 := 0x37FFFE, 12 := 0x11223344))" and ?I = "demo_inst 5 11 12 0"
  have a: "amo_addr demo_F64 ?I ?S = 0x37FFFE" by (simp add: amo_addr_def)
  show ?thesis
    using amod_insn_correct [of demo_F64 ?S ?I AMO_SWAP] demo_amo(1) [of 8] demo_amo(2)
    by (auto simp: a demo_amo(3) amo_defined_def vstore_def le_bytes_def upt_rec)
qed


section \<open>Futures\<close>

text \<open>Reads and writes reach the reservation list through \<open>RevokeFuture\<close> only.\<close>

lemma CalcPhysAddr_futures:
  "CalcPhysAddr pn v M = Inr (p, M') \<Longrightarrow> FutureRes M' = FutureRes M"
  by (auto simp: CalcPhysAddr_def SearchTLB_def AddToTLB_def Let_def
      split: option.splits if_splits prod.splits)

lemma phys_span_futures:
  "phys_span Addr Len M = Inr (p, sp, M') \<Longrightarrow> FutureRes M' = FutureRes M"
  by (auto simp: phys_span_def pageMap_index_def Let_def dest!: CalcPhysAddr_futures
      split: option.splits if_splits prod.splits)

lemma phys_write_futures: "phys_write p bs M = Inr M' \<Longrightarrow> FutureRes M' = FutureRes M"
  by (auto simp: phys_write_def split: if_splits)

lemma WriteMem_futures:
  "WriteMem hart Addr Data M = Inr M' \<Longrightarrow> FutureRes M' = FutureRes (snd (RevokeFuture Addr M))"
  by (auto simp: WriteMem_def Let_def dest!: phys_span_futures phys_write_futures
      split: option.splits if_splits prod.splits)

lemma distinct_remdups_adj_sorted: "sorted xs \<Longrightarrow> distinct (remdups_adj xs)"
  by (induction xs rule: remdups_adj.induct) force+

definition futures_ok :: "RevMem \<Rightarrow> bool" where
  "futures_ok M \<longleftrightarrow> sorted (FutureRes M) \<and> distinct (FutureRes M)"

text \<open>
  Futures are a set of addresses. The reservation list stays sorted without duplicates;
  \<open>SetFuture\<close> inserts, \<open>RevokeFuture\<close> reports and removes, \<open>StatusFuture\<close> tests, and every
  successful store to a reserved address revokes its future and no other.
\<close>

theorem futures_correct:
  assumes "futures_ok M"
  shows "futures_ok (snd (SetFuture Addr M)) \<and> futures_ok (snd (RevokeFuture Addr M)) \<and>
    (\<forall>a. StatusFuture a (snd (SetFuture Addr M)) = (a = Addr \<or> StatusFuture a M)) \<and>
    fst (RevokeFuture Addr M) = StatusFuture Addr M \<and>
    (\<forall>a. StatusFuture a (snd (RevokeFuture Addr M)) = (a \<noteq> Addr \<and> StatusFuture a M)) \<and>
    (\<forall>hart Data M'. WriteMem hart Addr Data M = Inr M' \<longrightarrow> futures_ok M' \<and>
       (\<forall>a. StatusFuture a M' = (a \<noteq> Addr \<and> StatusFuture a M)))"
proof -
  have r: "futures_ok (snd (RevokeFuture Addr M))"
    "StatusFuture a (snd (RevokeFuture Addr M)) = (a \<noteq> Addr \<and> StatusFuture a M)" for a
    using assms by (auto simp: futures_ok_def RevokeFuture_def StatusFuture_def sorted_remove1)
  have w: "futures_ok M' \<and> (\<forall>a. StatusFuture a M' = (a \<noteq> Addr \<and> StatusFuture a M))"
    if "WriteMem hart Addr Data M = Inr M'" for hart Data M'
    using WriteMem_futures [OF that] r by (simp add: futures_ok_def StatusFuture_def)
  have "futures_ok (snd (SetFuture Addr M))"
    by (simp add: futures_ok_def SetFuture_def distinct_remdups_adj_sorted)
  with r w show ?thesis by (auto simp: RevokeFuture_def SetFuture_def StatusFuture_def)
qed

theorem futures_correct_witness:
  "StatusFuture 0x37FFFE (snd (SetFuture 0x37FFFE demo_mem)) \<and>
   \<not> StatusFuture 0x37FFFE (snd (RevokeFuture 0x37FFFE (snd (SetFuture 0x37FFFE demo_mem))))"
proof -
  have ok: "futures_ok demo_mem" by (simp add: futures_ok_def new_RevMem_def)
  let ?M = "snd (SetFuture 0x37FFFE demo_mem)"
  have 1: "futures_ok ?M" "StatusFuture 0x37FFFE ?M"
    using futures_correct [OF ok, of "0x37FFFE"] by simp_all
  then show ?thesis using futures_correct [OF 1(1), of "0x37FFFE"] by simp
qed

end
