(* ===== verification/Rev_Tables.thy ===== *)
theory Rev_Tables
  imports Rev_RVM Rev_RVA
begin

text \<open>
  The instruction tables of include/insns and the machinery that loads them into a core:
  \<open>RevExt\<close> (include/RevExt.h, src/RevExt.cc) with its dispatch function, and the table part of
  \<open>RevProc\<close> (\<open>EnableExt\<close>, \<open>SeedInstTable\<close>, \<open>CompressEncoding\<close>, \<open>InitTableMapping\<close>,
  \<open>ReadOverrideTables\<close>, \<open>LoadInstructionTable\<close> of src/RevProc.cc). Instruction functions that are
  not modelled (floating point, load-reserved and store-conditional) are looked up by name in the
  parameter \<open>ext\<close>.
\<close>

section \<open>Extensions\<close>

record RevExt =
  x_name :: string
  x_table :: "insn RevInstEntry list"
  x_ctable :: "insn RevInstEntry list"
  x_otable :: "insn RevInstEntry list"

text \<open>
  \<open>RevExt::Execute\<close>. The index is checked against the standard table whatever table it is used
  on; the compressed table is indexed without a check of its own, and the optional table never.
\<close>

definition Execute :: "RevExt \<Rightarrow> nat \<Rightarrow> insn" where
  "Execute X i F payload S =
     (if (of_nat i :: u64) > of_nat (length (x_table X)) - 1 then Inl (Fatal_ExtIndex i (x_name X))
      else
        let t = (if compressed payload then x_ctable X else x_table X)
        in if i < length t then
             (case e_func (t ! i) of None \<Rightarrow> Inl UB_NullDeref | Some func \<Rightarrow> func F payload S)
           else Inl UB_OutOfBounds)"


section \<open>The instruction tables\<close>

text \<open>
  An entry is written as the source does: the defaults of its builder, then the setters in order.
\<close>

subsection \<open>RV32I\<close>

definition RV32ITable :: "insn RevInstEntry list" where
  "RV32ITable = [
    RevInstDefaults\<lparr>e_mnemonic := ''lui %rd, $imm'', e_cost := 1, e_opcode := 0b0110111,
      e_funct3 := 0, e_funct7 := 0, e_rdClass := RegGPR, e_rs1Class := RegUNKNOWN,
      e_rs2Class := RegUNKNOWN, e_rs3Class := RegUNKNOWN, e_imm12 := 0, e_imm := FUnk,
      e_format := RVTypeU,
      e_func := Some lui\<rparr>,
    RevInstDefaults\<lparr>e_mnemonic := ''auipc %rd, $imm'', e_cost := 1,
      e_opcode := 0b0010111, e_funct3 := 0, e_funct7 := 0, e_rdClass := RegGPR,
      e_rs1Class := RegUNKNOWN, e_rs2Class := RegUNKNOWN, e_rs3Class := RegUNKNOWN, e_imm12 := 0,
      e_imm := FUnk, e_format := RVTypeU,
      e_func := Some auipc\<rparr>,
    RevInstDefaults\<lparr>e_mnemonic := ''jal %rd, $imm'', e_cost := 1, e_opcode := 0b1101111,
      e_funct3 := 0, e_funct7 := 0, e_rdClass := RegGPR, e_rs1Class := RegUNKNOWN,
      e_rs2Class := RegUNKNOWN, e_rs3Class := RegUNKNOWN, e_imm12 := 0, e_imm := FUnk,
      e_format := RVTypeJ,
      e_func := Some jal\<rparr>,
    RevInstDefaults\<lparr>e_mnemonic := ''jalr %rd, %rs1, $imm'', e_cost := 1,
      e_opcode := 0b1100111, e_funct3 := 0, e_funct7 := 0, e_rdClass := RegGPR, e_rs1Class := RegGPR,
      e_rs2Class := RegUNKNOWN, e_rs3Class := RegUNKNOWN, e_imm12 := 0, e_imm := FImm,
      e_format := RVTypeI,
      e_func := Some jalr\<rparr>,
    RevInstDefaults\<lparr>e_mnemonic := ''beq %rs1, %rs2, $imm'', e_cost := 1,
      e_opcode := 0b1100011, e_funct3 := 0, e_funct7 := 0, e_rdClass := RegIMM, e_rs1Class := RegGPR,
      e_rs2Class := RegGPR, e_rs3Class := RegUNKNOWN, e_imm12 := 0, e_imm := FUnk,
      e_format := RVTypeB,
      e_func := Some beq\<rparr>,
    RevInstDefaults\<lparr>e_mnemonic := ''bne %rs1, %rs2, $imm'', e_cost := 1,
      e_opcode := 0b1100011, e_funct3 := 0b001, e_funct7 := 0, e_rdClass := RegIMM,
      e_rs1Class := RegGPR, e_rs2Class := RegGPR, e_rs3Class := RegUNKNOWN, e_imm12 := 0,
      e_imm := FUnk, e_format := RVTypeB,
      e_func := Some bne\<rparr>,
    RevInstDefaults\<lparr>e_mnemonic := ''blt %rs1, %rs2, $imm'', e_cost := 1,
      e_opcode := 0b1100011, e_funct3 := 0b100, e_funct7 := 0, e_rdClass := RegIMM,
      e_rs1Class := RegGPR, e_rs2Class := RegGPR, e_rs3Class := RegUNKNOWN, e_imm12 := 0,
      e_imm := FUnk, e_format := RVTypeB,
      e_func := Some blt\<rparr>,
    RevInstDefaults\<lparr>e_mnemonic := ''bge %rs1, %rs2, $imm'', e_cost := 1,
      e_opcode := 0b1100011, e_funct3 := 0b101, e_funct7 := 0, e_rdClass := RegIMM,
      e_rs1Class := RegGPR, e_rs2Class := RegGPR, e_rs3Class := RegUNKNOWN, e_imm12 := 0,
      e_imm := FUnk, e_format := RVTypeB,
      e_func := Some bge\<rparr>,
    RevInstDefaults\<lparr>e_mnemonic := ''bltu %rs1, %rs2, $imm'', e_cost := 1,
      e_opcode := 0b1100011, e_funct3 := 0b110, e_funct7 := 0, e_rdClass := RegIMM,
      e_rs1Class := RegGPR, e_rs2Class := RegGPR, e_rs3Class := RegUNKNOWN, e_imm12 := 0,
      e_imm := FUnk, e_format := RVTypeB,
      e_func := Some bltu\<rparr>,
    RevInstDefaults\<lparr>e_mnemonic := ''bgeu %rs1, %rs2, $imm'', e_cost := 1,
      e_opcode := 0b1100011, e_funct3 := 0b111, e_funct7 := 0, e_rdClass := RegIMM,
      e_rs1Class := RegGPR, e_rs2Class := RegGPR, e_rs3Class := RegUNKNOWN, e_imm12 := 0,
      e_imm := FUnk, e_format := RVTypeB,
      e_func := Some bgeu\<rparr>,
    RevInstDefaults\<lparr>e_mnemonic := ''lb %rd, $imm(%rs1)'', e_cost := 1,
      e_opcode := 0b0000011, e_funct3 := 0, e_funct7 := 0, e_rdClass := RegGPR, e_rs1Class := RegGPR,
      e_rs2Class := RegUNKNOWN, e_rs3Class := RegUNKNOWN, e_imm12 := 0, e_imm := FImm,
      e_format := RVTypeI,
      e_func := Some lb\<rparr>,
    RevInstDefaults\<lparr>e_mnemonic := ''lh %rd, $imm(%rs1)'', e_cost := 1,
      e_opcode := 0b0000011, e_funct3 := 0b001, e_funct7 := 0, e_rdClass := RegGPR,
      e_rs1Class := RegGPR, e_rs2Class := RegUNKNOWN, e_rs3Class := RegUNKNOWN, e_imm12 := 0,
      e_imm := FImm, e_format := RVTypeI,
      e_func := Some lh\<rparr>,
    RevInstDefaults\<lparr>e_mnemonic := ''lw %rd, $imm(%rs1)'', e_cost := 1,
      e_opcode := 0b0000011, e_funct3 := 0b010, e_funct7 := 0, e_rdClass := RegGPR,
      e_rs1Class := RegGPR, e_rs2Class := RegUNKNOWN, e_rs3Class := RegUNKNOWN, e_imm12 := 0,
      e_imm := FImm, e_format := RVTypeI,
      e_func := Some lw\<rparr>,
    RevInstDefaults\<lparr>e_mnemonic := ''lbu %rd, $imm(%rs1)'', e_cost := 1,
      e_opcode := 0b0000011, e_funct3 := 0b100, e_funct7 := 0, e_rdClass := RegGPR,
      e_rs1Class := RegGPR, e_rs2Class := RegUNKNOWN, e_rs3Class := RegUNKNOWN, e_imm12 := 0,
      e_imm := FImm, e_format := RVTypeI,
      e_func := Some lbu\<rparr>,
    RevInstDefaults\<lparr>e_mnemonic := ''lhu %rd, $imm(%rs1)'', e_cost := 1,
      e_opcode := 0b0000011, e_funct3 := 0b101, e_funct7 := 0, e_rdClass := RegGPR,
      e_rs1Class := RegGPR, e_rs2Class := RegUNKNOWN, e_rs3Class := RegUNKNOWN, e_imm12 := 0,
      e_imm := FImm, e_format := RVTypeI,
      e_func := Some lhu\<rparr>,
    RevInstDefaults\<lparr>e_mnemonic := ''sb %rs2, $imm(%rs1)'', e_cost := 1,
      e_opcode := 0b0100011, e_funct3 := 0, e_funct7 := 0, e_rdClass := RegIMM, e_rs1Class := RegGPR,
      e_rs2Class := RegGPR, e_rs3Class := RegUNKNOWN, e_imm12 := 0, e_imm := FUnk,
      e_format := RVTypeS,
      e_func := Some sb\<rparr>,
    RevInstDefaults\<lparr>e_mnemonic := ''sh %rs2, $imm(%rs1)'', e_cost := 1,
      e_opcode := 0b0100011, e_funct3 := 0b001, e_funct7 := 0, e_rdClass := RegIMM,
      e_rs1Class := RegGPR, e_rs2Class := RegGPR, e_rs3Class := RegUNKNOWN, e_imm12 := 0,
      e_imm := FUnk, e_format := RVTypeS,
      e_func := Some sh\<rparr>,
    RevInstDefaults\<lparr>e_mnemonic := ''sw %rs2, $imm(%rs1)'', e_cost := 1,
      e_opcode := 0b0100011, e_funct3 := 0b010, e_funct7 := 0, e_rdClass := RegIMM,
      e_rs1Class := RegGPR, e_rs2Class := RegGPR, e_rs3Class := RegUNKNOWN, e_imm12 := 0,
      e_imm := FUnk, e_format := RVTypeS,
      e_func := Some sw\<rparr>,
    RevInstDefaults\<lparr>e_mnemonic := ''addi %rd, %rs1, $imm'', e_cost := 1,
      e_opcode := 0b0010011, e_funct3 := 0, e_funct7 := 0, e_rdClass := RegGPR, e_rs1Class := RegGPR,
      e_rs2Class := RegUNKNOWN, e_rs3Class := RegUNKNOWN, e_imm12 := 0, e_imm := FImm,
      e_format := RVTypeI,
      e_func := Some addi\<rparr>,
    RevInstDefaults\<lparr>e_mnemonic := ''slti %rd, %rs1, $imm'', e_cost := 1,
      e_opcode := 0b0010011, e_funct3 := 0b010, e_funct7 := 0, e_rdClass := RegGPR,
      e_rs1Class := RegGPR, e_rs2Class := RegUNKNOWN, e_rs3Class := RegUNKNOWN, e_imm12 := 0,
      e_imm := FImm, e_format := RVTypeI,
      e_func := Some slti\<rparr>,
    RevInstDefaults\<lparr>e_mnemonic := ''sltiu %rd, %rs1, $imm'', e_cost := 1,
      e_opcode := 0b0010011, e_funct3 := 0b011, e_funct7 := 0, e_rdClass := RegGPR,
      e_rs1Class := RegGPR, e_rs2Class := RegUNKNOWN, e_rs3Class := RegUNKNOWN, e_imm12 := 0,
      e_imm := FImm, e_format := RVTypeI,
      e_func := Some sltiu\<rparr>,
    RevInstDefaults\<lparr>e_mnemonic := ''xori %rd, %rs1, $imm'', e_cost := 1,
      e_opcode := 0b0010011, e_funct3 := 0b100, e_funct7 := 0, e_rdClass := RegGPR,
      e_rs1Class := RegGPR, e_rs2Class := RegUNKNOWN, e_rs3Class := RegUNKNOWN, e_imm12 := 0,
      e_imm := FImm, e_format := RVTypeI,
      e_func := Some xori\<rparr>,
    RevInstDefaults\<lparr>e_mnemonic := ''ori %rd, %rs1, $imm'', e_cost := 1,
      e_opcode := 0b0010011, e_funct3 := 0b110, e_funct7 := 0, e_rdClass := RegGPR,
      e_rs1Class := RegGPR, e_rs2Class := RegUNKNOWN, e_rs3Class := RegUNKNOWN, e_imm12 := 0,
      e_imm := FImm, e_format := RVTypeI,
      e_func := Some ori\<rparr>,
    RevInstDefaults\<lparr>e_mnemonic := ''andi %rd, %rs1, $imm'', e_cost := 1,
      e_opcode := 0b0010011, e_funct3 := 0b111, e_funct7 := 0, e_rdClass := RegGPR,
      e_rs1Class := RegGPR, e_rs2Class := RegUNKNOWN, e_rs3Class := RegUNKNOWN, e_imm12 := 0,
      e_imm := FImm, e_format := RVTypeI,
      e_func := Some andi\<rparr>,
    RevInstDefaults\<lparr>e_mnemonic := ''slli %rd, %rs1, $imm'', e_cost := 1,
      e_opcode := 0b0010011, e_funct3 := 0b001, e_funct7 := 0, e_rdClass := RegGPR,
      e_rs1Class := RegGPR, e_rs2Class := RegUNKNOWN, e_rs3Class := RegUNKNOWN, e_imm12 := 0,
      e_imm := FImm, e_format := RVTypeI,
      e_func := Some slli\<rparr>,
    RevInstDefaults\<lparr>e_mnemonic := ''srli %rd, %rs1, $imm'', e_cost := 1,
      e_opcode := 0b0010011, e_funct3 := 0b101, e_funct7 := 0, e_rdClass := RegGPR,
      e_rs1Class := RegGPR, e_rs2Class := RegUNKNOWN, e_rs3Class := RegUNKNOWN, e_imm12 := 0,
      e_imm := FImm, e_format := RVTypeI,
      e_func := Some srli\<rparr>,
    RevInstDefaults\<lparr>e_mnemonic := ''srai %rd, %rs1, $imm'', e_cost := 1,
      e_opcode := 0b0010011, e_funct3 := 0b101, e_funct7 := 0b0010000, e_rdClass := RegGPR,
      e_rs1Class := RegGPR, e_rs2Class := RegUNKNOWN, e_rs3Class := RegUNKNOWN, e_imm12 := 0,
      e_imm := FImm, e_format := RVTypeI,
      e_func := Some srai\<rparr>,
    RevInstDefaults\<lparr>e_mnemonic := ''add %rd, %rs1, %rs2'', e_cost := 1,
      e_opcode := 0b0110011, e_funct3 := 0, e_funct7 := 0, e_rdClass := RegGPR, e_rs1Class := RegGPR,
      e_rs2Class := RegGPR, e_rs3Class := RegUNKNOWN, e_imm12 := 0, e_imm := FUnk,
      e_format := RVTypeR,
      e_func := Some add\<rparr>,
    RevInstDefaults\<lparr>e_mnemonic := ''sub %rd, %rs1, %rs2'', e_cost := 1,
      e_opcode := 0b0110011, e_funct3 := 0, e_funct7 := 0b0100000, e_rdClass := RegGPR,
      e_rs1Class := RegGPR, e_rs2Class := RegGPR, e_rs3Class := RegUNKNOWN, e_imm12 := 0,
      e_imm := FUnk, e_format := RVTypeR,
      e_func := Some sub\<rparr>,
    RevInstDefaults\<lparr>e_mnemonic := ''sll %rd, %rs1, %rs2'', e_cost := 1,
      e_opcode := 0b0110011, e_funct3 := 0b001, e_funct7 := 0, e_rdClass := RegGPR,
      e_rs1Class := RegGPR, e_rs2Class := RegGPR, e_rs3Class := RegUNKNOWN, e_imm12 := 0,
      e_imm := FUnk, e_format := RVTypeR,
      e_func := Some sll\<rparr>,
    RevInstDefaults\<lparr>e_mnemonic := ''slt %rd, %rs1, %rs2'', e_cost := 1,
      e_opcode := 0b0110011, e_funct3 := 0b010, e_funct7 := 0, e_rdClass := RegGPR,
      e_rs1Class := RegGPR, e_rs2Class := RegGPR, e_rs3Class := RegUNKNOWN, e_imm12 := 0,
      e_imm := FUnk, e_format := RVTypeR,
      e_func := Some slt\<rparr>,
    RevInstDefaults\<lparr>e_mnemonic := ''sltu %rd, %rs1, %rs2'', e_cost := 1,
      e_opcode := 0b0110011, e_funct3 := 0b011, e_funct7 := 0, e_rdClass := RegGPR,
      e_rs1Class := RegGPR, e_rs2Class := RegGPR, e_rs3Class := RegUNKNOWN, e_imm12 := 0,
      e_imm := FUnk, e_format := RVTypeR,
      e_func := Some sltu\<rparr>,
    RevInstDefaults\<lparr>e_mnemonic := ''xor %rd, %rs1, %rs2'', e_cost := 1,
      e_opcode := 0b0110011, e_funct3 := 0b100, e_funct7 := 0, e_rdClass := RegGPR,
      e_rs1Class := RegGPR, e_rs2Class := RegGPR, e_rs3Class := RegUNKNOWN, e_imm12 := 0,
      e_imm := FUnk, e_format := RVTypeR,
      e_func := Some f_xor\<rparr>,
    RevInstDefaults\<lparr>e_mnemonic := ''srl %rd, %rs1, %rs2'', e_cost := 1,
      e_opcode := 0b0110011, e_funct3 := 0b101, e_funct7 := 0, e_rdClass := RegGPR,
      e_rs1Class := RegGPR, e_rs2Class := RegGPR, e_rs3Class := RegUNKNOWN, e_imm12 := 0,
      e_imm := FUnk, e_format := RVTypeR,
      e_func := Some srl\<rparr>,
    RevInstDefaults\<lparr>e_mnemonic := ''sra %rd, %rs1, %rs2'', e_cost := 1,
      e_opcode := 0b0110011, e_funct3 := 0b101, e_funct7 := 0b0100000, e_rdClass := RegGPR,
      e_rs1Class := RegGPR, e_rs2Class := RegGPR, e_rs3Class := RegUNKNOWN, e_imm12 := 0,
      e_imm := FUnk, e_format := RVTypeR,
      e_func := Some sra\<rparr>,
    RevInstDefaults\<lparr>e_mnemonic := ''or %rd, %rs1, %rs2'', e_cost := 1,
      e_opcode := 0b0110011, e_funct3 := 0b110, e_funct7 := 0, e_rdClass := RegGPR,
      e_rs1Class := RegGPR, e_rs2Class := RegGPR, e_rs3Class := RegUNKNOWN, e_imm12 := 0,
      e_imm := FUnk, e_format := RVTypeR,
      e_func := Some f_or\<rparr>,
    RevInstDefaults\<lparr>e_mnemonic := ''and %rd, %rs1, %rs2'', e_cost := 1,
      e_opcode := 0b0110011, e_funct3 := 0b111, e_funct7 := 0, e_rdClass := RegGPR,
      e_rs1Class := RegGPR, e_rs2Class := RegGPR, e_rs3Class := RegUNKNOWN, e_imm12 := 0,
      e_imm := FUnk, e_format := RVTypeR,
      e_func := Some f_and\<rparr>,
    RevInstDefaults\<lparr>e_mnemonic := ''fence'', e_cost := 1, e_opcode := 0b0001111,
      e_funct3 := 0, e_funct7 := 0, e_rdClass := RegUNKNOWN, e_rs1Class := RegUNKNOWN,
      e_rs2Class := RegUNKNOWN, e_rs3Class := RegUNKNOWN, e_imm12 := 0, e_imm := FVal,
      e_format := RVTypeI,
      e_func := Some fence\<rparr>,
    RevInstDefaults\<lparr>e_mnemonic := ''fence.i'', e_cost := 1, e_opcode := 0b0001111,
      e_funct3 := 0b001, e_funct7 := 0, e_rdClass := RegUNKNOWN, e_rs1Class := RegUNKNOWN,
      e_rs2Class := RegUNKNOWN, e_rs3Class := RegUNKNOWN, e_imm12 := 0, e_imm := FUnk,
      e_format := RVTypeI,
      e_func := Some fencei\<rparr>,
    RevInstDefaults\<lparr>e_mnemonic := ''ecall'', e_cost := 1, e_opcode := 0b1110011,
      e_funct3 := 0, e_funct7 := 0, e_rdClass := RegUNKNOWN, e_rs1Class := RegUNKNOWN,
      e_rs2Class := RegUNKNOWN, e_rs3Class := RegUNKNOWN, e_imm12 := 0, e_imm := FEnc,
      e_format := RVTypeI,
      e_func := Some ecall\<rparr>,
    RevInstDefaults\<lparr>e_mnemonic := ''ebreak'', e_cost := 1, e_opcode := 0b1110011,
      e_funct3 := 0, e_funct7 := 0, e_rdClass := RegUNKNOWN, e_rs1Class := RegUNKNOWN,
      e_rs2Class := RegUNKNOWN, e_rs3Class := RegUNKNOWN, e_imm12 := 0b000000000001, e_imm := FEnc,
      e_format := RVTypeI,
      e_func := Some ebreak\<rparr>,
    RevInstDefaults\<lparr>e_mnemonic := ''csrrw %rd, %rs1, $imm'', e_cost := 1,
      e_opcode := 0b1110011, e_funct3 := 0b001, e_funct7 := 0, e_rdClass := RegGPR,
      e_rs1Class := RegGPR, e_rs2Class := RegUNKNOWN, e_rs3Class := RegUNKNOWN, e_imm12 := 0,
      e_imm := FVal, e_format := RVTypeU,
      e_func := Some csrrw\<rparr>,
    RevInstDefaults\<lparr>e_mnemonic := ''csrrs %rd, %rs1, $imm'', e_cost := 1,
      e_opcode := 0b1110011, e_funct3 := 0b010, e_funct7 := 0, e_rdClass := RegGPR,
      e_rs1Class := RegGPR, e_rs2Class := RegUNKNOWN, e_rs3Class := RegUNKNOWN, e_imm12 := 0,
      e_imm := FVal, e_format := RVTypeU,
      e_func := Some csrrs\<rparr>,
    RevInstDefaults\<lparr>e_mnemonic := ''csrrc %rd, %rs1, $imm'', e_cost := 1,
      e_opcode := 0b1110011, e_funct3 := 0b011, e_funct7 := 0, e_rdClass := RegGPR,
      e_rs1Class := RegGPR, e_rs2Class := RegUNKNOWN, e_rs3Class := RegUNKNOWN, e_imm12 := 0,
      e_imm := FVal, e_format := RVTypeU,
      e_func := Some csrrc\<rparr>,
    RevInstDefaults\<lparr>e_mnemonic := ''csrrwi %rd, %rs1, $imm'', e_cost := 1,
      e_opcode := 0b1110011, e_funct3 := 0b101, e_funct7 := 0, e_rdClass := RegGPR,
      e_rs1Class := RegGPR, e_rs2Class := RegUNKNOWN, e_rs3Class := RegUNKNOWN, e_imm12 := 0,
      e_imm := FVal, e_format := RVTypeU,
      e_func := Some csrrwi\<rparr>,
    RevInstDefaults\<lparr>e_mnemonic := ''csrrsi %rd, %rs1, $imm'', e_cost := 1,
      e_opcode := 0b1110011, e_funct3 := 0b110, e_funct7 := 0, e_rdClass := RegGPR,
      e_rs1Class := RegGPR, e_rs2Class := RegUNKNOWN, e_rs3Class := RegUNKNOWN, e_imm12 := 0,
      e_imm := FVal, e_format := RVTypeU,
      e_func := Some csrrsi\<rparr>,
    RevInstDefaults\<lparr>e_mnemonic := ''csrrci %rd, %rs1, $imm'', e_cost := 1,
      e_opcode := 0b1110011, e_funct3 := 0b111, e_funct7 := 0, e_rdClass := RegGPR,
      e_rs1Class := RegGPR, e_rs2Class := RegUNKNOWN, e_rs3Class := RegUNKNOWN, e_imm12 := 0,
      e_imm := FVal, e_format := RVTypeU,
      e_func := Some csrrci\<rparr>]"

definition RV32ICTable :: "insn RevInstEntry list" where
  "RV32ICTable = [
    RevInstDefaults\<lparr>e_mnemonic := ''c.addi4spn %rd, $imm'', e_cost := 1, e_opcode := 0,
      e_funct3 := 0, e_rdClass := RegGPR, e_imm := FVal, e_format := RVCTypeCIW,
      e_func := Some caddi4spn,
      e_compressed := True\<rparr>,
    RevInstDefaults\<lparr>e_mnemonic := ''c.lwsp %rd, $imm'', e_cost := 1, e_opcode := 0b10,
      e_funct3 := 0b010, e_rdClass := RegGPR, e_rs1Class := RegGPR, e_imm := FVal,
      e_format := RVCTypeCI, e_func := Some clwsp,
      e_compressed := True\<rparr>,
    RevInstDefaults\<lparr>e_mnemonic := ''c.swsp %rs2, $imm'', e_cost := 1, e_opcode := 0b10,
      e_funct3 := 0b110, e_rs2Class := RegGPR, e_rs1Class := RegGPR, e_imm := FVal,
      e_format := RVCTypeCSS, e_func := Some cswsp,
      e_compressed := True\<rparr>,
    RevInstDefaults\<lparr>e_mnemonic := ''c.lw %rd, $rs1, $imm'', e_cost := 1, e_opcode := 0,
      e_funct3 := 0b010, e_rs1Class := RegGPR, e_rdClass := RegGPR, e_imm := FVal,
      e_format := RVCTypeCL, e_func := Some clw,
      e_compressed := True\<rparr>,
    RevInstDefaults\<lparr>e_mnemonic := ''c.sw %rs2, %rs1, $imm'', e_cost := 1, e_opcode := 0,
      e_funct3 := 0b110, e_rs1Class := RegGPR, e_rs2Class := RegGPR, e_imm := FVal,
      e_format := RVCTypeCS, e_func := Some csw,
      e_compressed := True\<rparr>,
    RevInstDefaults\<lparr>e_mnemonic := ''c.j $imm'', e_cost := 1, e_opcode := 0b01,
      e_funct3 := 0b101, e_rdClass := RegGPR, e_imm := FVal, e_format := RVCTypeCJ, e_func := Some cj,
      e_compressed := True\<rparr>,
    RevInstDefaults\<lparr>e_mnemonic := ''c.jr %rs1'', e_cost := 1, e_opcode := 0b10,
      e_funct4 := 0b1000, e_rs1Class := RegGPR, e_format := RVCTypeCR, e_func := Some CRFUNC_1000,
      e_compressed := True\<rparr>,
    RevInstDefaults\<lparr>e_mnemonic := ''c.jalr %rs1'', e_cost := 1, e_opcode := 0b10,
      e_funct4 := 0b1001, e_rs1Class := RegGPR, e_format := RVCTypeCR, e_func := Some CRFUNC_1001,
      e_compressed := True\<rparr>,
    RevInstDefaults\<lparr>e_mnemonic := ''c.beqz %rs1, $imm'', e_cost := 1, e_opcode := 0b01,
      e_funct3 := 0b110, e_rs1Class := RegGPR, e_imm := FVal, e_format := RVCTypeCB,
      e_func := Some cbeqz,
      e_compressed := True\<rparr>,
    RevInstDefaults\<lparr>e_mnemonic := ''c.bnez %rs1, $imm'', e_cost := 1, e_opcode := 0b01,
      e_funct3 := 0b111, e_rs1Class := RegGPR, e_imm := FVal, e_format := RVCTypeCB,
      e_func := Some cbnez,
      e_compressed := True\<rparr>,
    RevInstDefaults\<lparr>e_mnemonic := ''c.li %rd, $imm'', e_cost := 1, e_opcode := 0b01,
      e_funct3 := 0b010, e_rdClass := RegGPR, e_imm := FVal, e_format := RVCTypeCI,
      e_func := Some cli,
      e_compressed := True\<rparr>,
    RevInstDefaults\<lparr>e_mnemonic := ''c.lui %rd, $imm'', e_cost := 1, e_opcode := 0b01,
      e_funct3 := 0b011, e_rdClass := RegGPR, e_imm := FVal, e_format := RVCTypeCI,
      e_func := Some CIFUNC,
      e_compressed := True\<rparr>,
    RevInstDefaults\<lparr>e_mnemonic := ''c.addi %rd, $imm'', e_cost := 1, e_opcode := 0b01,
      e_funct3 := 0, e_rdClass := RegGPR, e_imm := FVal, e_format := RVCTypeCI, e_func := Some caddi,
      e_compressed := True\<rparr>,
    RevInstDefaults\<lparr>e_mnemonic := ''c.slli %rd, $imm'', e_cost := 1, e_opcode := 0b10,
      e_funct3 := 0, e_rdClass := RegGPR, e_imm := FVal, e_format := RVCTypeCI, e_func := Some cslli,
      e_compressed := True\<rparr>,
    RevInstDefaults\<lparr>e_mnemonic := ''c.srli %rd, $imm'', e_cost := 1, e_opcode := 0b01,
      e_funct3 := 0b100, e_funct2 := 0, e_rdClass := RegGPR, e_imm := FVal, e_format := RVCTypeCB,
      e_func := Some csrli,
      e_compressed := True\<rparr>,
    RevInstDefaults\<lparr>e_mnemonic := ''c.srai %rd, $imm'', e_cost := 1, e_opcode := 0b01,
      e_funct3 := 0b100, e_funct2 := 0b01, e_rdClass := RegGPR, e_imm := FVal, e_format := RVCTypeCB,
      e_func := Some csrai,
      e_compressed := True\<rparr>,
    RevInstDefaults\<lparr>e_mnemonic := ''c.andi %rd, $imm'', e_cost := 1, e_opcode := 0b01,
      e_funct3 := 0b100, e_funct2 := 0b10, e_rdClass := RegGPR, e_imm := FVal, e_format := RVCTypeCB,
      e_func := Some candi,
      e_compressed := True\<rparr>,
    RevInstDefaults\<lparr>e_mnemonic := ''c.and %rd,%rs1'', e_cost := 1, e_opcode := 0b01,
      e_funct6 := 0b100011, e_funct2 := 0b11, e_rdClass := RegGPR, e_rs2Class := RegGPR,
      e_format := RVCTypeCA, e_func := Some cand,
      e_compressed := True\<rparr>,
    RevInstDefaults\<lparr>e_mnemonic := ''c.or %rd,%rs1'', e_cost := 1, e_opcode := 0b01,
      e_funct6 := 0b100011, e_funct2 := 0b10, e_rdClass := RegGPR, e_rs2Class := RegGPR,
      e_format := RVCTypeCA, e_func := Some cor,
      e_compressed := True\<rparr>,
    RevInstDefaults\<lparr>e_mnemonic := ''c.xor %rd,%rs1'', e_cost := 1, e_opcode := 0b01,
      e_funct6 := 0b100011, e_funct2 := 0b01, e_rdClass := RegGPR, e_rs2Class := RegGPR,
      e_format := RVCTypeCA, e_func := Some cxor,
      e_compressed := True\<rparr>,
    RevInstDefaults\<lparr>e_mnemonic := ''c.sub %rd,%rs1'', e_cost := 1, e_opcode := 0b01,
      e_funct6 := 0b100011, e_funct2 := 0, e_rdClass := RegGPR, e_rs2Class := RegGPR,
      e_format := RVCTypeCA, e_func := Some csub,
      e_compressed := True\<rparr>]"

definition RV32ICOTable :: "insn RevInstEntry list" where
  "RV32ICOTable = [
    RevInstDefaults\<lparr>e_mnemonic := ''c.jal $imm'', e_cost := 1, e_opcode := 0b01,
      e_funct3 := 0b001, e_rdClass := RegGPR, e_format := RVCTypeCJ, e_func := Some cjal,
      e_compressed := True\<rparr>]"

definition new_RV32I :: "RevExt" where
  "new_RV32I = \<lparr>x_name = ''RV32I'', x_table = RV32ITable, x_ctable = RV32ICTable, x_otable = RV32ICOTable\<rparr>"


subsection \<open>RV64I\<close>

definition RV64ITable :: "insn RevInstEntry list" where
  "RV64ITable = [
    RevInstDefaults\<lparr>e_mnemonic := ''lwu %rd, $imm(%rs1)'', e_cost := 1,
      e_opcode := 0b0000011, e_funct3 := 0b110, e_funct7 := 0, e_rdClass := RegGPR,
      e_rs1Class := RegGPR, e_rs2Class := RegUNKNOWN, e_rs3Class := RegUNKNOWN, e_imm := FImm,
      e_format := RVTypeI,
      e_func := Some lwu\<rparr>,
    RevInstDefaults\<lparr>e_mnemonic := ''ld %rd, $imm(%rs1)'', e_cost := 1,
      e_opcode := 0b0000011, e_funct3 := 0b011, e_funct7 := 0, e_rdClass := RegGPR,
      e_rs1Class := RegGPR, e_rs2Class := RegUNKNOWN, e_rs3Class := RegUNKNOWN, e_imm := FImm,
      e_format := RVTypeI,
      e_func := Some ld\<rparr>,
    RevInstDefaults\<lparr>e_mnemonic := ''sd %rs2, $imm(%rs1)'', e_cost := 1,
      e_opcode := 0b0100011, e_funct3 := 0b011, e_funct7 := 0, e_rdClass := RegIMM,
      e_rs1Class := RegGPR, e_rs2Class := RegGPR, e_rs3Class := RegUNKNOWN, e_imm := FUnk,
      e_format := RVTypeS,
      e_func := Some sd\<rparr>,
    RevInstDefaults\<lparr>e_mnemonic := ''addiw %rd, %rs1, $imm'', e_cost := 1,
      e_opcode := 0b0011011, e_funct3 := 0, e_funct7 := 0, e_rdClass := RegGPR, e_rs1Class := RegGPR,
      e_rs2Class := RegUNKNOWN, e_rs3Class := RegUNKNOWN, e_imm := FImm, e_format := RVTypeI,
      e_func := Some addiw\<rparr>,
    RevInstDefaults\<lparr>e_mnemonic := ''slliw %rd, %rs1, $imm'', e_cost := 1,
      e_opcode := 0b0011011, e_funct3 := 0b001, e_funct7 := 0, e_rdClass := RegGPR,
      e_rs1Class := RegGPR, e_rs2Class := RegUNKNOWN, e_rs3Class := RegUNKNOWN, e_imm := FImm,
      e_format := RVTypeI,
      e_func := Some slliw\<rparr>,
    RevInstDefaults\<lparr>e_mnemonic := ''srliw %rd, %rs1, $imm'', e_cost := 1,
      e_opcode := 0b0011011, e_funct3 := 0b101, e_funct7 := 0, e_rdClass := RegGPR,
      e_rs1Class := RegGPR, e_rs2Class := RegUNKNOWN, e_rs3Class := RegUNKNOWN, e_imm := FImm,
      e_format := RVTypeR,
      e_func := Some srliw\<rparr>,
    RevInstDefaults\<lparr>e_mnemonic := ''sraiw %rd, %rs1, $imm'', e_cost := 1,
      e_opcode := 0b0011011, e_funct3 := 0b101, e_funct7 := 0b0100000, e_rdClass := RegGPR,
      e_rs1Class := RegGPR, e_rs2Class := RegUNKNOWN, e_rs3Class := RegUNKNOWN, e_imm := FImm,
      e_format := RVTypeR,
      e_func := Some sraiw\<rparr>,
    RevInstDefaults\<lparr>e_mnemonic := ''addw %rd, %rs1, %rs2'', e_cost := 1,
      e_opcode := 0b0111011, e_funct3 := 0, e_funct7 := 0, e_rdClass := RegGPR, e_rs1Class := RegGPR,
      e_rs2Class := RegGPR, e_rs3Class := RegUNKNOWN, e_imm := FUnk, e_format := RVTypeR,
      e_func := Some addw\<rparr>,
    RevInstDefaults\<lparr>e_mnemonic := ''subw %rd, %rs1, %rs2'', e_cost := 1,
      e_opcode := 0b0111011, e_funct3 := 0, e_funct7 := 0b0100000, e_rdClass := RegGPR,
      e_rs1Class := RegGPR, e_rs2Class := RegGPR, e_rs3Class := RegUNKNOWN, e_imm := FUnk,
      e_format := RVTypeR,
      e_func := Some subw\<rparr>,
    RevInstDefaults\<lparr>e_mnemonic := ''sllw %rd, %rs1, %rs2'', e_cost := 1,
      e_opcode := 0b0111011, e_funct3 := 0b001, e_funct7 := 0, e_rdClass := RegGPR,
      e_rs1Class := RegGPR, e_rs2Class := RegGPR, e_rs3Class := RegUNKNOWN, e_imm := FUnk,
      e_format := RVTypeR,
      e_func := Some sllw\<rparr>,
    RevInstDefaults\<lparr>e_mnemonic := ''srlw %rd, %rs1, %rs2'', e_cost := 1,
      e_opcode := 0b0111011, e_funct3 := 0b101, e_funct7 := 0, e_rdClass := RegGPR,
      e_rs1Class := RegGPR, e_rs2Class := RegGPR, e_rs3Class := RegUNKNOWN, e_imm := FUnk,
      e_format := RVTypeR,
      e_func := Some srlw\<rparr>,
    RevInstDefaults\<lparr>e_mnemonic := ''sraw %rd, %rs1, %rs2'', e_cost := 1,
      e_opcode := 0b0111011, e_funct3 := 0b101, e_funct7 := 0b0100000, e_rdClass := RegGPR,
      e_rs1Class := RegGPR, e_rs2Class := RegGPR, e_rs3Class := RegUNKNOWN, e_imm := FUnk,
      e_format := RVTypeR,
      e_func := Some sraw\<rparr>]"

definition RV64ICTable :: "insn RevInstEntry list" where
  "RV64ICTable = [
    RevInstDefaults\<lparr>e_mnemonic := ''c.ldsp %rd, $imm'', e_cost := 1, e_opcode := 0b10,
      e_funct3 := 0b011, e_rdClass := RegGPR, e_rs1Class := RegGPR, e_imm := FVal,
      e_format := RVCTypeCI, e_func := Some cldsp,
      e_compressed := True\<rparr>,
    RevInstDefaults\<lparr>e_mnemonic := ''c.sdsp %rs2, $imm'', e_cost := 1, e_opcode := 0b10,
      e_funct3 := 0b111, e_rs2Class := RegGPR, e_rs1Class := RegGPR, e_imm := FVal,
      e_format := RVCTypeCSS, e_func := Some csdsp,
      e_compressed := True\<rparr>,
    RevInstDefaults\<lparr>e_mnemonic := ''c.ld %rd, %rs1, $imm'', e_cost := 1, e_opcode := 0,
      e_funct3 := 0b011, e_rdClass := RegGPR, e_rs1Class := RegGPR, e_imm := FVal,
      e_format := RVCTypeCL, e_func := Some cld,
      e_compressed := True\<rparr>,
    RevInstDefaults\<lparr>e_mnemonic := ''c.sd %rs2, %rs1, $imm'', e_cost := 1, e_opcode := 0,
      e_funct3 := 0b111, e_rs1Class := RegGPR, e_rs2Class := RegGPR, e_imm := FVal,
      e_format := RVCTypeCS, e_func := Some csd,
      e_compressed := True\<rparr>,
    RevInstDefaults\<lparr>e_mnemonic := ''c.addiw %rd, $imm'', e_cost := 1, e_opcode := 0b01,
      e_funct3 := 0b001, e_rs1Class := RegGPR, e_rdClass := RegGPR, e_imm := FVal,
      e_format := RVCTypeCI, e_func := Some caddiw,
      e_compressed := True\<rparr>,
    RevInstDefaults\<lparr>e_mnemonic := ''c.addw %rd,%rs1'', e_cost := 1, e_opcode := 0b01,
      e_funct6 := 0b100111, e_funct2 := 0b01, e_rdClass := RegGPR, e_rs2Class := RegGPR,
      e_format := RVCTypeCA, e_func := Some caddw,
      e_compressed := True\<rparr>,
    RevInstDefaults\<lparr>e_mnemonic := ''c.subw %rd,%rs1'', e_cost := 1, e_opcode := 0b01,
      e_funct6 := 0b100111, e_funct2 := 0, e_rdClass := RegGPR, e_rs2Class := RegGPR,
      e_format := RVCTypeCA, e_func := Some csubw,
      e_compressed := True\<rparr>]"

definition new_RV64I :: "RevExt" where
  "new_RV64I = \<lparr>x_name = ''RV64I'', x_table = RV64ITable, x_ctable = RV64ICTable, x_otable = []\<rparr>"


subsection \<open>RV32M\<close>

definition RevMInstDefaults :: "'f RevInstEntry" where
  "RevMInstDefaults = RevInstDefaults\<lparr>e_funct7 := 0b0000001, e_opcode := 0b0110011\<rparr>"

definition RV32MTable :: "insn RevInstEntry list" where
  "RV32MTable = [
    RevMInstDefaults\<lparr>e_mnemonic := ''mul %rd, %rs1, %rs2'', e_funct3 := 0,
      e_func := Some mul\<rparr>,
    RevMInstDefaults\<lparr>e_mnemonic := ''mulh %rd, %rs1, %rs2'', e_funct3 := 0b001,
      e_func := Some mulh\<rparr>,
    RevMInstDefaults\<lparr>e_mnemonic := ''mulhsu %rd, %rs1, %rs2'', e_funct3 := 0b010,
      e_func := Some mulhsu\<rparr>,
    RevMInstDefaults\<lparr>e_mnemonic := ''mulhu %rd, %rs1, %rs2'', e_funct3 := 0b011,
      e_func := Some mulhu\<rparr>,
    RevMInstDefaults\<lparr>e_mnemonic := ''div %rd, %rs1, %rs2'', e_funct3 := 0b100,
      e_func := Some div_insn\<rparr>,
    RevMInstDefaults\<lparr>e_mnemonic := ''divu %rd, %rs1, %rs2'', e_funct3 := 0b101,
      e_func := Some divu\<rparr>,
    RevMInstDefaults\<lparr>e_mnemonic := ''rem %rd, %rs1, %rs2'', e_funct3 := 0b110,
      e_func := Some rem\<rparr>,
    RevMInstDefaults\<lparr>e_mnemonic := ''remu %rd, %rs1, %rs20'', e_funct3 := 0b111,
      e_func := Some remu\<rparr>]"

definition new_RV32M :: "RevExt" where
  "new_RV32M = \<lparr>x_name = ''RV32M'', x_table = RV32MTable, x_ctable = [], x_otable = []\<rparr>"


subsection \<open>RV64M\<close>

definition Rev64MInstDefaults :: "'f RevInstEntry" where
  "Rev64MInstDefaults = RevInstDefaults\<lparr>e_opcode := 0b0111011, e_funct7 := 0b0000001\<rparr>"

definition RV64MTable :: "insn RevInstEntry list" where
  "RV64MTable = [
    Rev64MInstDefaults\<lparr>e_mnemonic := ''mulw %rd, %rs1, %rs2'', e_funct3 := 0,
      e_func := Some mulw\<rparr>,
    Rev64MInstDefaults\<lparr>e_mnemonic := ''divw %rd, %rs1, %rs2'', e_funct3 := 0b100,
      e_func := Some divw\<rparr>,
    Rev64MInstDefaults\<lparr>e_mnemonic := ''divuw %rd, %rs1, %rs2'', e_funct3 := 0b101,
      e_func := Some divuw\<rparr>,
    Rev64MInstDefaults\<lparr>e_mnemonic := ''remw %rd, %rs1, %rs2'', e_funct3 := 0b110,
      e_func := Some remw\<rparr>,
    Rev64MInstDefaults\<lparr>e_mnemonic := ''remuw %rd, %rs1, %rs2'', e_funct3 := 0b111,
      e_func := Some remuw\<rparr>]"

definition new_RV64M :: "RevExt" where
  "new_RV64M = \<lparr>x_name = ''RV64M'', x_table = RV64MTable, x_ctable = [], x_otable = []\<rparr>"


subsection \<open>RV32A\<close>

definition RV32ATable :: "(string \<Rightarrow> insn) \<Rightarrow> insn RevInstEntry list" where
  "RV32ATable ext = [
    RevInstDefaults\<lparr>e_mnemonic := ''lr.w %rd, (%rs1)'', e_cost := 1,
      e_opcode := 0b0101111, e_funct3 := 0b010, e_funct7 := 0b00010, e_func := Some (ext ''lrw''),
      e_rs2Class := RegUNKNOWN\<rparr>,
    RevInstDefaults\<lparr>e_mnemonic := ''sc.w %rd, %rs1, %rs2'', e_cost := 1,
      e_opcode := 0b0101111, e_funct3 := 0b010, e_funct7 := 0b00011,
      e_func := Some (ext ''scw'')\<rparr>,
    RevInstDefaults\<lparr>e_mnemonic := ''amoswap.w %rd, %rs1, %rs2'', e_cost := 1,
      e_opcode := 0b0101111, e_funct3 := 0b010, e_funct7 := 0b00001,
      e_func := Some amoswapw\<rparr>,
    RevInstDefaults\<lparr>e_mnemonic := ''amoadd.w %rd, %rs1, %rs2'', e_cost := 1,
      e_opcode := 0b0101111, e_funct3 := 0b010, e_funct7 := 0,
      e_func := Some amoaddw\<rparr>,
    RevInstDefaults\<lparr>e_mnemonic := ''amoxor.w %rd, %rs1, %rs2'', e_cost := 1,
      e_opcode := 0b0101111, e_funct3 := 0b010, e_funct7 := 0b00100,
      e_func := Some amoxorw\<rparr>,
    RevInstDefaults\<lparr>e_mnemonic := ''amoand.w %rd, %rs1, %rs2'', e_cost := 1,
      e_opcode := 0b0101111, e_funct3 := 0b010, e_funct7 := 0b01100,
      e_func := Some amoandw\<rparr>,
    RevInstDefaults\<lparr>e_mnemonic := ''amoor.w %rd, %rs1, %rs2'', e_cost := 1,
      e_opcode := 0b0101111, e_funct3 := 0b010, e_funct7 := 0b01000,
      e_func := Some amoorw\<rparr>,
    RevInstDefaults\<lparr>e_mnemonic := ''amomin.w %rd, %rs1, %rs2'', e_cost := 1,
      e_opcode := 0b0101111, e_funct3 := 0b010, e_funct7 := 0b10000,
      e_func := Some amominw\<rparr>,
    RevInstDefaults\<lparr>e_mnemonic := ''amomax.w %rd, %rs1, %rs2'', e_cost := 1,
      e_opcode := 0b0101111, e_funct3 := 0b010, e_funct7 := 0b10100,
      e_func := Some amomaxw\<rparr>,
    RevInstDefaults\<lparr>e_mnemonic := ''amominu.w %rd, %rs1, %rs2'', e_cost := 1,
      e_opcode := 0b0101111, e_funct3 := 0b010, e_funct7 := 0b11000,
      e_func := Some amominuw\<rparr>,
    RevInstDefaults\<lparr>e_mnemonic := ''amomaxu.w %rd, %rs1, %rs2'', e_cost := 1,
      e_opcode := 0b0101111, e_funct3 := 0b010, e_funct7 := 0b11100,
      e_func := Some amomaxuw\<rparr>]"

definition new_RV32A :: "(string \<Rightarrow> insn) \<Rightarrow> RevExt" where
  "new_RV32A ext = \<lparr>x_name = ''RV32A'', x_table = RV32ATable ext, x_ctable = [], x_otable = []\<rparr>"


subsection \<open>RV64A\<close>

definition Rev64AInstDefaults :: "'f RevInstEntry" where
  "Rev64AInstDefaults = RevInstDefaults\<lparr>e_opcode := 0b0101111, e_funct3 := 0b011, e_rs2Class := RegUNKNOWN\<rparr>"

definition RV64ATable :: "(string \<Rightarrow> insn) \<Rightarrow> insn RevInstEntry list" where
  "RV64ATable ext = [
    Rev64AInstDefaults\<lparr>e_mnemonic := ''lr.d %rd, (%rs1)'', e_funct7 := 0b00010,
      e_rs1Class := RegUNKNOWN, e_rs2Class := RegUNKNOWN,
      e_func := Some (ext ''lrd'')\<rparr>,
    Rev64AInstDefaults\<lparr>e_mnemonic := ''sc.d %rd, %rs1, %rs2'', e_funct7 := 0b00011,
      e_rs2Class := RegUNKNOWN,
      e_func := Some (ext ''scd'')\<rparr>,
    Rev64AInstDefaults\<lparr>e_mnemonic := ''amoswap.d %rd, %rs1, %rs2'', e_funct7 := 0b00001,
      e_rs2Class := RegUNKNOWN,
      e_func := Some amoswapd\<rparr>,
    Rev64AInstDefaults\<lparr>e_mnemonic := ''amoadd.d %rd, %rs1, %rs2'', e_funct7 := 0,
      e_rs2Class := RegUNKNOWN,
      e_func := Some amoaddd\<rparr>,
    Rev64AInstDefaults\<lparr>e_mnemonic := ''amoxor.d %rd, %rs1, %rs2'', e_funct7 := 0b00100,
      e_rs2Class := RegUNKNOWN,
      e_func := Some amoxord\<rparr>,
    Rev64AInstDefaults\<lparr>e_mnemonic := ''amoand.d %rd, %rs1, %rs2'', e_funct7 := 0b01100,
      e_rs2Class := RegUNKNOWN,
      e_func := Some amoandd\<rparr>,
    Rev64AInstDefaults\<lparr>e_mnemonic := ''amoor.d %rd, %rs1, %rs2'', e_funct7 := 0b01000,
      e_rs2Class := RegUNKNOWN,
      e_func := Some amoord\<rparr>,
    Rev64AInstDefaults\<lparr>e_mnemonic := ''amomin.d %rd, %rs1, %rs2'', e_funct7 := 0b10000,
      e_rs2Class := RegUNKNOWN,
      e_func := Some amomind\<rparr>,
    Rev64AInstDefaults\<lparr>e_mnemonic := ''amomax.d %rd, %rs1, %rs2'', e_funct7 := 0b10100,
      e_rs2Class := RegUNKNOWN,
      e_func := Some amomaxd\<rparr>,
    Rev64AInstDefaults\<lparr>e_mnemonic := ''amominu.d %rd, %rs1, %rs2'', e_funct7 := 0b11000,
      e_rs2Class := RegUNKNOWN,
      e_func := Some amominud\<rparr>,
    Rev64AInstDefaults\<lparr>e_mnemonic := ''amomaxu.d %rd, %rs1, %rs2'', e_funct7 := 0b11100,
      e_rs2Class := RegUNKNOWN,
      e_func := Some amomaxud\<rparr>]"

definition new_RV64A :: "(string \<Rightarrow> insn) \<Rightarrow> RevExt" where
  "new_RV64A ext = \<lparr>x_name = ''RV64A'', x_table = RV64ATable ext, x_ctable = [], x_otable = []\<rparr>"


subsection \<open>RV32F\<close>

definition Rev32FInstDefaults :: "'f RevInstEntry" where
  "Rev32FInstDefaults = RevInstDefaults\<lparr>e_rdClass := RegFLOAT, e_rs1Class := RegFLOAT, e_rs2Class := RegFLOAT\<rparr>"

definition RV32FTable :: "(string \<Rightarrow> insn) \<Rightarrow> insn RevInstEntry list" where
  "RV32FTable ext = [
    Rev32FInstDefaults\<lparr>e_mnemonic := ''flw %rd, $imm(%rs1)'', e_opcode := 0b0000111,
      e_funct3 := 0b010, e_funct7 := 0, e_rdClass := RegGPR, e_rs1Class := RegGPR,
      e_rs2Class := RegUNKNOWN, e_rs3Class := RegUNKNOWN, e_format := RVTypeI,
      e_func := Some (ext ''flw'')\<rparr>,
    Rev32FInstDefaults\<lparr>e_mnemonic := ''fsw %rs2, $imm(%rs1)'', e_opcode := 0b0100111,
      e_funct3 := 0b010, e_funct7 := 0, e_rdClass := RegIMM, e_rs1Class := RegGPR,
      e_rs2Class := RegFLOAT, e_rs3Class := RegUNKNOWN, e_format := RVTypeS,
      e_func := Some (ext ''fsw'')\<rparr>,
    Rev32FInstDefaults\<lparr>e_mnemonic := ''fmadd.s %rd, %rs1, %rs2, %rs3'',
      e_opcode := 0b1000011, e_funct3 := 0, e_funct7 := 0, e_rs2Class := RegFLOAT,
      e_rs3Class := RegFLOAT, e_format := RVTypeR4,
      e_func := Some (ext ''fmadds'')\<rparr>,
    Rev32FInstDefaults\<lparr>e_mnemonic := ''fmsub.s %rd, %rs1, %rs2, %rs3'',
      e_opcode := 0b1000111, e_funct3 := 0, e_funct7 := 0, e_rs2Class := RegFLOAT,
      e_rs3Class := RegFLOAT, e_format := RVTypeR4,
      e_func := Some (ext ''fmsubs'')\<rparr>,
    Rev32FInstDefaults\<lparr>e_mnemonic := ''fnmsub.s %rd, %rs1, %rs2, %rs3'',
      e_opcode := 0b1001011, e_funct3 := 0, e_funct7 := 0, e_rs2Class := RegFLOAT,
      e_rs3Class := RegFLOAT, e_format := RVTypeR4,
      e_func := Some (ext ''fnmsubs'')\<rparr>,
    Rev32FInstDefaults\<lparr>e_mnemonic := ''fnmadd.s %rd, %rs1, %rs2, %rs3'',
      e_opcode := 0b1001111, e_funct3 := 0, e_funct7 := 0, e_rs2Class := RegFLOAT,
      e_rs3Class := RegFLOAT, e_format := RVTypeR4,
      e_func := Some (ext ''fnmadds'')\<rparr>,
    Rev32FInstDefaults\<lparr>e_mnemonic := ''fadd.s %rd, %rs1, %rs2'', e_opcode := 0b1010011,
      e_funct3 := 0, e_funct7 := 0, e_rs2Class := RegFLOAT, e_rs3Class := RegUNKNOWN,
      e_format := RVTypeR,
      e_func := Some (ext ''fadds'')\<rparr>,
    Rev32FInstDefaults\<lparr>e_mnemonic := ''fsub.s %rd, %rs1, %rs2'', e_opcode := 0b1010011,
      e_funct3 := 0, e_funct7 := 0b0000100, e_rs2Class := RegFLOAT, e_rs3Class := RegUNKNOWN,
      e_format := RVTypeR,
      e_func := Some (ext ''fsubs'')\<rparr>,
    Rev32FInstDefaults\<lparr>e_mnemonic := ''fmul.s %rd, %rs1, %rs2'', e_opcode := 0b1010011,
      e_funct3 := 0, e_funct7 := 0b0001000, e_rs2Class := RegFLOAT, e_rs3Class := RegUNKNOWN,
      e_format := RVTypeR,
      e_func := Some (ext ''fmuls'')\<rparr>,
    Rev32FInstDefaults\<lparr>e_mnemonic := ''fdiv.s %rd, %rs1, %rs2'', e_opcode := 0b1010011,
      e_funct3 := 0, e_funct7 := 0b0001100, e_rs2Class := RegFLOAT, e_rs3Class := RegUNKNOWN,
      e_format := RVTypeR,
      e_func := Some (ext ''fdivs'')\<rparr>,
    Rev32FInstDefaults\<lparr>e_mnemonic := ''fsqrt.s %rd, %rs1'', e_opcode := 0b1010011,
      e_funct3 := 0, e_funct7 := 0b0101100, e_rs2Class := RegUNKNOWN, e_rs3Class := RegUNKNOWN,
      e_format := RVTypeR,
      e_func := Some (ext ''fsqrts'')\<rparr>,
    Rev32FInstDefaults\<lparr>e_mnemonic := ''fmin.s %rd, %rs1, %rs2'', e_opcode := 0b1010011,
      e_funct3 := 0, e_funct7 := 0b0010100, e_rs2Class := RegFLOAT, e_rs3Class := RegUNKNOWN,
      e_format := RVTypeR,
      e_func := Some (ext ''fmins'')\<rparr>,
    Rev32FInstDefaults\<lparr>e_mnemonic := ''fmax.s %rd, %rs1, %rs2'', e_opcode := 0b1010011,
      e_funct3 := 0b001, e_funct7 := 0b0010100, e_rs2Class := RegFLOAT, e_rs3Class := RegUNKNOWN,
      e_format := RVTypeR,
      e_func := Some (ext ''fmaxs'')\<rparr>,
    Rev32FInstDefaults\<lparr>e_mnemonic := ''fsgnj.s %rd, %rs1, %rs2'', e_opcode := 0b1010011,
      e_funct3 := 0, e_funct7 := 0b0010000, e_rs2Class := RegFLOAT, e_rs3Class := RegUNKNOWN,
      e_format := RVTypeR,
      e_func := Some (ext ''fsgnjs'')\<rparr>,
    Rev32FInstDefaults\<lparr>e_mnemonic := ''fsgnjn.s %rd, %rs1, %rs2'', e_opcode := 0b1010011,
      e_funct3 := 0b001, e_funct7 := 0b0010000, e_rs2Class := RegFLOAT, e_rs3Class := RegUNKNOWN,
      e_format := RVTypeR,
      e_func := Some (ext ''fsgnjns'')\<rparr>,
    Rev32FInstDefaults\<lparr>e_mnemonic := ''fsgnjx.s %rd, %rs1, %rs2'', e_opcode := 0b1010011,
      e_funct3 := 0b010, e_funct7 := 0b0010000, e_rs2Class := RegFLOAT, e_rs3Class := RegUNKNOWN,
      e_format := RVTypeR,
      e_func := Some (ext ''fsgnjxs'')\<rparr>,
    Rev32FInstDefaults\<lparr>e_mnemonic := ''fcvt.w.s %rd, %rs1'', e_opcode := 0b1010011,
      e_funct3 := 0, e_funct7 := 0b1100000, e_fpcvtOp := 0, e_rs2Class := RegUNKNOWN,
      e_rs3Class := RegUNKNOWN, e_format := RVTypeR,
      e_func := Some (ext ''fcvtws'')\<rparr>,
    Rev32FInstDefaults\<lparr>e_mnemonic := ''fcvt.wu.s %rd, %rs1'', e_opcode := 0b1010011,
      e_funct3 := 0, e_funct7 := 0b1100000, e_fpcvtOp := 0b00001, e_rs2Class := RegUNKNOWN,
      e_rs3Class := RegUNKNOWN, e_format := RVTypeR,
      e_func := Some (ext ''fcvtwus'')\<rparr>,
    Rev32FInstDefaults\<lparr>e_mnemonic := ''fmv.x.s %rd, %rs1'', e_opcode := 0b1010011,
      e_funct3 := 0, e_funct7 := 0b1110000, e_rs2Class := RegUNKNOWN, e_rs3Class := RegUNKNOWN,
      e_format := RVTypeR,
      e_func := Some (ext ''fmvxw'')\<rparr>,
    Rev32FInstDefaults\<lparr>e_mnemonic := ''feq.s %rd, %rs1, %rs2'', e_opcode := 0b1010011,
      e_funct3 := 0b010, e_funct7 := 0b1010000, e_rs2Class := RegFLOAT, e_rs3Class := RegUNKNOWN,
      e_format := RVTypeR,
      e_func := Some (ext ''feqs'')\<rparr>,
    Rev32FInstDefaults\<lparr>e_mnemonic := ''flt.s %rd, %rs1, %rs2'', e_opcode := 0b1010011,
      e_funct3 := 0b001, e_funct7 := 0b1010000, e_rs2Class := RegFLOAT, e_rs3Class := RegUNKNOWN,
      e_format := RVTypeR,
      e_func := Some (ext ''flts'')\<rparr>,
    Rev32FInstDefaults\<lparr>e_mnemonic := ''fle.s %rd, %rs1, %rs2'', e_opcode := 0b1010011,
      e_funct3 := 0, e_funct7 := 0b1010000, e_rs2Class := RegFLOAT, e_rs3Class := RegUNKNOWN,
      e_format := RVTypeR,
      e_func := Some (ext ''fles'')\<rparr>,
    Rev32FInstDefaults\<lparr>e_mnemonic := ''fclass.s %rd, %rs1'', e_opcode := 0b1010011,
      e_funct3 := 0b001, e_funct7 := 0b1110000, e_rs2Class := RegUNKNOWN, e_rs3Class := RegUNKNOWN,
      e_format := RVTypeR,
      e_func := Some (ext ''fclasss'')\<rparr>,
    Rev32FInstDefaults\<lparr>e_mnemonic := ''fcvt.s.w %rd, %rs1'', e_opcode := 0b1010011,
      e_funct3 := 0, e_funct7 := 0b1101000, e_fpcvtOp := 0, e_rs2Class := RegUNKNOWN,
      e_rs3Class := RegUNKNOWN, e_format := RVTypeR,
      e_func := Some (ext ''fcvtsw'')\<rparr>,
    Rev32FInstDefaults\<lparr>e_mnemonic := ''fcvt.s.wu %rd, %rs1'', e_opcode := 0b1010011,
      e_funct3 := 0, e_funct7 := 0b1101000, e_fpcvtOp := 0b00001, e_rs2Class := RegUNKNOWN,
      e_rs3Class := RegUNKNOWN, e_format := RVTypeR,
      e_func := Some (ext ''fcvtswu'')\<rparr>,
    Rev32FInstDefaults\<lparr>e_mnemonic := ''fmv.w.x %rd, %rs1'', e_opcode := 0b1010011,
      e_funct3 := 0, e_funct7 := 0b1111000, e_rs2Class := RegUNKNOWN, e_rs3Class := RegUNKNOWN,
      e_format := RVTypeR,
      e_func := Some (ext ''fmvwx'')\<rparr>]"

definition RV32FCOTable :: "(string \<Rightarrow> insn) \<Rightarrow> insn RevInstEntry list" where
  "RV32FCOTable ext = [
    RevInstDefaults\<lparr>e_mnemonic := ''c.flwsp %rd, $imm'', e_cost := 1, e_opcode := 0b10,
      e_funct3 := 0b011, e_rdClass := RegFLOAT, e_rs1Class := RegGPR, e_imm := FVal,
      e_format := RVCTypeCI, e_func := Some (ext ''cflwsp''),
      e_compressed := True\<rparr>,
    RevInstDefaults\<lparr>e_mnemonic := ''c.fswsp %rs2, $imm'', e_cost := 1, e_opcode := 0b10,
      e_funct3 := 0b111, e_rs2Class := RegFLOAT, e_rs1Class := RegGPR, e_imm := FVal,
      e_format := RVCTypeCSS, e_func := Some (ext ''cfswsp''),
      e_compressed := True\<rparr>,
    RevInstDefaults\<lparr>e_mnemonic := ''c.flw %rd, %rs1, $imm'', e_cost := 1, e_opcode := 0,
      e_funct3 := 0b011, e_rs1Class := RegGPR, e_rdClass := RegFLOAT, e_imm := FVal,
      e_format := RVCTypeCL, e_func := Some (ext ''cflw''),
      e_compressed := True\<rparr>,
    RevInstDefaults\<lparr>e_mnemonic := ''c.fsw %rs2, %rs1, $imm'', e_cost := 1, e_opcode := 0,
      e_funct3 := 0b111, e_rs1Class := RegGPR, e_rs2Class := RegFLOAT, e_imm := FVal,
      e_format := RVCTypeCS, e_func := Some (ext ''cfsw''),
      e_compressed := True\<rparr>]"

definition new_RV32F :: "(string \<Rightarrow> insn) \<Rightarrow> RevExt" where
  "new_RV32F ext = \<lparr>x_name = ''RV32F'', x_table = RV32FTable ext, x_ctable = [], x_otable = RV32FCOTable ext\<rparr>"


subsection \<open>RV64F\<close>

definition Rev64FInstDefaults :: "'f RevInstEntry" where
  "Rev64FInstDefaults = RevInstDefaults\<lparr>e_opcode := 0b1010011, e_rdClass := RegFLOAT, e_rs1Class := RegFLOAT, e_rs2Class := RegUNKNOWN, e_rs3Class := RegUNKNOWN\<rparr>"

definition RV64FTable :: "(string \<Rightarrow> insn) \<Rightarrow> insn RevInstEntry list" where
  "RV64FTable ext = [
    Rev64FInstDefaults\<lparr>e_mnemonic := ''fcvt.l.s  %rd, %rs1'', e_funct7 := 0b1100000,
      e_fpcvtOp := 0b00010, e_rs2Class := RegUNKNOWN,
      e_func := Some (ext ''fcvtls'')\<rparr>,
    Rev64FInstDefaults\<lparr>e_mnemonic := ''fcvt.lu.s %rd, %rs1'', e_funct7 := 0b1100000,
      e_fpcvtOp := 0b00011, e_rs2Class := RegUNKNOWN,
      e_func := Some (ext ''fcvtlus'')\<rparr>,
    Rev64FInstDefaults\<lparr>e_mnemonic := ''fcvt.s.l %rd, %rs1'', e_funct7 := 0b1101000,
      e_fpcvtOp := 0b00010, e_rs2Class := RegUNKNOWN,
      e_func := Some (ext ''fcvtsl'')\<rparr>,
    Rev64FInstDefaults\<lparr>e_mnemonic := ''fcvt.s.lu %rd, %rs1'', e_funct7 := 0b1101000,
      e_fpcvtOp := 0b00011, e_rs2Class := RegUNKNOWN,
      e_func := Some (ext ''fcvtslu'')\<rparr>]"

definition new_RV64F :: "(string \<Rightarrow> insn) \<Rightarrow> RevExt" where
  "new_RV64F ext = \<lparr>x_name = ''RV64F'', x_table = RV64FTable ext, x_ctable = [], x_otable = []\<rparr>"


subsection \<open>RV32D\<close>

definition Rev32DInstDefaults :: "'f RevInstEntry" where
  "Rev32DInstDefaults = RevInstDefaults\<lparr>e_rdClass := RegFLOAT, e_rs1Class := RegFLOAT, e_rs2Class := RegFLOAT\<rparr>"

definition RV32DTable :: "(string \<Rightarrow> insn) \<Rightarrow> insn RevInstEntry list" where
  "RV32DTable ext = [
    Rev32DInstDefaults\<lparr>e_mnemonic := ''fld %rd, $imm(%rs1)'', e_opcode := 0b0000111,
      e_funct3 := 0b011, e_funct7 := 0, e_rdClass := RegFLOAT, e_rs1Class := RegGPR,
      e_rs2Class := RegGPR, e_rs3Class := RegUNKNOWN, e_format := RVTypeI,
      e_func := Some (ext ''fld'')\<rparr>,
    Rev32DInstDefaults\<lparr>e_mnemonic := ''fsd %rs2, $imm(%rs1)'', e_opcode := 0b0100111,
      e_funct3 := 0b011, e_funct7 := 0, e_rdClass := RegIMM, e_rs1Class := RegFLOAT,
      e_rs2Class := RegFLOAT, e_rs3Class := RegUNKNOWN, e_format := RVTypeS,
      e_func := Some (ext ''fsd'')\<rparr>,
    Rev32DInstDefaults\<lparr>e_mnemonic := ''fmadd.d %rd, %rs1, %rs2, %rs3'',
      e_opcode := 0b1000011, e_funct3 := 0, e_funct7 := 0, e_rdClass := RegFLOAT,
      e_rs1Class := RegFLOAT, e_rs2Class := RegFLOAT, e_rs3Class := RegFLOAT, e_format := RVTypeR4,
      e_func := Some (ext ''fmaddd'')\<rparr>,
    Rev32DInstDefaults\<lparr>e_mnemonic := ''fmsub.d %rd, %rs1, %rs2, %rs3'',
      e_opcode := 0b1000111, e_funct3 := 0, e_funct7 := 0, e_rdClass := RegFLOAT,
      e_rs1Class := RegFLOAT, e_rs2Class := RegFLOAT, e_rs3Class := RegFLOAT, e_format := RVTypeR4,
      e_func := Some (ext ''fmsubd'')\<rparr>,
    Rev32DInstDefaults\<lparr>e_mnemonic := ''fnmsub.d %rd, %rs1, %rs2, %rs3'',
      e_opcode := 0b1001011, e_funct3 := 0, e_funct7 := 0, e_rdClass := RegFLOAT,
      e_rs1Class := RegFLOAT, e_rs2Class := RegFLOAT, e_rs3Class := RegFLOAT, e_format := RVTypeR4,
      e_func := Some (ext ''fnmsubd'')\<rparr>,
    Rev32DInstDefaults\<lparr>e_mnemonic := ''fnmadd.d %rd, %rs1, %rs2, %rs3'',
      e_opcode := 0b1001111, e_funct3 := 0, e_funct7 := 0, e_rdClass := RegFLOAT,
      e_rs1Class := RegFLOAT, e_rs2Class := RegFLOAT, e_rs3Class := RegFLOAT, e_format := RVTypeR4,
      e_func := Some (ext ''fnmaddd'')\<rparr>,
    Rev32DInstDefaults\<lparr>e_mnemonic := ''fadd.d %rd, %rs1, %rs2'', e_opcode := 0b1010011,
      e_funct3 := 0, e_funct7 := 0b0000001, e_rdClass := RegFLOAT, e_rs1Class := RegFLOAT,
      e_rs2Class := RegFLOAT, e_rs3Class := RegUNKNOWN, e_format := RVTypeR,
      e_func := Some (ext ''faddd'')\<rparr>,
    Rev32DInstDefaults\<lparr>e_mnemonic := ''fsub.d %rd, %rs1, %rs2'', e_opcode := 0b1010011,
      e_funct3 := 0, e_funct7 := 0b0000101, e_rdClass := RegFLOAT, e_rs1Class := RegFLOAT,
      e_rs2Class := RegFLOAT, e_rs3Class := RegUNKNOWN, e_format := RVTypeR,
      e_func := Some (ext ''fsubd'')\<rparr>,
    Rev32DInstDefaults\<lparr>e_mnemonic := ''fmul.d %rd, %rs1, %rs2'', e_opcode := 0b1010011,
      e_funct3 := 0, e_funct7 := 0b0001001, e_rdClass := RegFLOAT, e_rs1Class := RegFLOAT,
      e_rs2Class := RegFLOAT, e_rs3Class := RegUNKNOWN, e_format := RVTypeR,
      e_func := Some (ext ''fmuld'')\<rparr>,
    Rev32DInstDefaults\<lparr>e_mnemonic := ''fdiv.d %rd, %rs1, %rs2'', e_opcode := 0b1010011,
      e_funct3 := 0, e_funct7 := 0b0001101, e_rdClass := RegFLOAT, e_rs1Class := RegFLOAT,
      e_rs2Class := RegFLOAT, e_rs3Class := RegUNKNOWN, e_format := RVTypeR,
      e_func := Some (ext ''fdivd'')\<rparr>,
    Rev32DInstDefaults\<lparr>e_mnemonic := ''fsqrt.d %rd, %rs1'', e_opcode := 0b1010011,
      e_funct3 := 0, e_funct7 := 0b0101101, e_rdClass := RegFLOAT, e_rs1Class := RegFLOAT,
      e_rs2Class := RegUNKNOWN, e_rs3Class := RegUNKNOWN, e_format := RVTypeR,
      e_func := Some (ext ''fsqrtd'')\<rparr>,
    Rev32DInstDefaults\<lparr>e_mnemonic := ''fmin.d %rd, %rs1, %rs2'', e_opcode := 0b1010011,
      e_funct3 := 0, e_funct7 := 0b0010101, e_rdClass := RegFLOAT, e_rs1Class := RegFLOAT,
      e_rs2Class := RegFLOAT, e_rs3Class := RegUNKNOWN, e_format := RVTypeR,
      e_func := Some (ext ''fmind'')\<rparr>,
    Rev32DInstDefaults\<lparr>e_mnemonic := ''fmax.d %rd, %rs1, %rs2'', e_opcode := 0b1010011,
      e_funct3 := 0b001, e_funct7 := 0b0010101, e_rdClass := RegFLOAT, e_rs1Class := RegFLOAT,
      e_rs2Class := RegFLOAT, e_rs3Class := RegUNKNOWN, e_format := RVTypeR,
      e_func := Some (ext ''fmaxd'')\<rparr>,
    Rev32DInstDefaults\<lparr>e_mnemonic := ''fsgnj.d %rd, %rs1, %rs2'', e_opcode := 0b1010011,
      e_funct3 := 0, e_funct7 := 0b0010001, e_rdClass := RegFLOAT, e_rs1Class := RegFLOAT,
      e_rs2Class := RegFLOAT, e_rs3Class := RegUNKNOWN, e_format := RVTypeR,
      e_func := Some (ext ''fsgnjd'')\<rparr>,
    Rev32DInstDefaults\<lparr>e_mnemonic := ''fsgnjn.d %rd, %rs1, %rs2'', e_opcode := 0b1010011,
      e_funct3 := 0b001, e_funct7 := 0b0010001, e_rdClass := RegFLOAT, e_rs1Class := RegFLOAT,
      e_rs2Class := RegFLOAT, e_rs3Class := RegUNKNOWN, e_format := RVTypeR,
      e_func := Some (ext ''fsgnjnd'')\<rparr>,
    Rev32DInstDefaults\<lparr>e_mnemonic := ''fsgnjx.d %rd, %rs1, %rs2'', e_opcode := 0b1010011,
      e_funct3 := 0b010, e_funct7 := 0b0010001, e_rdClass := RegFLOAT, e_rs1Class := RegFLOAT,
      e_rs2Class := RegFLOAT, e_rs3Class := RegUNKNOWN, e_format := RVTypeR,
      e_func := Some (ext ''fsgnjxd'')\<rparr>,
    Rev32DInstDefaults\<lparr>e_mnemonic := ''fcvt.s.d %rd, %rs1'', e_opcode := 0b1010011,
      e_funct3 := 0, e_funct7 := 0b0100000, e_rdClass := RegFLOAT, e_rs1Class := RegFLOAT,
      e_rs2Class := RegUNKNOWN, e_rs3Class := RegUNKNOWN, e_format := RVTypeR,
      e_func := Some (ext ''fcvtsd'')\<rparr>,
    Rev32DInstDefaults\<lparr>e_mnemonic := ''fcvt.d.s %rd, %rs1'', e_opcode := 0b1010011,
      e_funct3 := 0, e_funct7 := 0b0100001, e_rdClass := RegFLOAT, e_rs1Class := RegFLOAT,
      e_rs2Class := RegUNKNOWN, e_rs3Class := RegUNKNOWN, e_format := RVTypeR,
      e_func := Some (ext ''fcvtsd'')\<rparr>,
    Rev32DInstDefaults\<lparr>e_mnemonic := ''feq.d %rd, %rs1, %rs2'', e_opcode := 0b1010011,
      e_funct3 := 0b010, e_funct7 := 0b1010001, e_rdClass := RegFLOAT, e_rs1Class := RegFLOAT,
      e_rs2Class := RegFLOAT, e_rs3Class := RegUNKNOWN, e_format := RVTypeR,
      e_func := Some (ext ''feqd'')\<rparr>,
    Rev32DInstDefaults\<lparr>e_mnemonic := ''flt.d %rd, %rs1, %rs2'', e_opcode := 0b1010011,
      e_funct3 := 0b001, e_funct7 := 0b1010001, e_rdClass := RegFLOAT, e_rs1Class := RegFLOAT,
      e_rs2Class := RegFLOAT, e_rs3Class := RegUNKNOWN, e_format := RVTypeR,
      e_func := Some (ext ''fltd'')\<rparr>,
    Rev32DInstDefaults\<lparr>e_mnemonic := ''fle.d %rd, %rs1, %rs2'', e_opcode := 0b1010011,
      e_funct3 := 0, e_funct7 := 0b1010001, e_rdClass := RegFLOAT, e_rs1Class := RegFLOAT,
      e_rs2Class := RegFLOAT, e_rs3Class := RegUNKNOWN, e_format := RVTypeR,
      e_func := Some (ext ''fled'')\<rparr>,
    Rev32DInstDefaults\<lparr>e_mnemonic := ''fclass.d %rd, %rs1'', e_opcode := 0b1010011,
      e_funct3 := 0b001, e_funct7 := 0b1110001, e_rdClass := RegFLOAT, e_rs1Class := RegFLOAT,
      e_rs2Class := RegUNKNOWN, e_rs3Class := RegUNKNOWN, e_format := RVTypeR,
      e_func := Some (ext ''fclassd'')\<rparr>,
    Rev32DInstDefaults\<lparr>e_mnemonic := ''fcvt.w.d %rd, %rs1'', e_opcode := 0b1010011,
      e_funct3 := 0, e_funct7 := 0b1100001, e_rdClass := RegFLOAT, e_rs1Class := RegFLOAT,
      e_rs2Class := RegUNKNOWN, e_rs3Class := RegUNKNOWN, e_format := RVTypeR,
      e_func := Some (ext ''fcvtwd'')\<rparr>,
    Rev32DInstDefaults\<lparr>e_mnemonic := ''fcvt.wu.d %rd, %rs1'', e_opcode := 0b1010011,
      e_funct3 := 0, e_funct7 := 0b1100001, e_rdClass := RegFLOAT, e_rs1Class := RegFLOAT,
      e_rs2Class := RegUNKNOWN, e_rs3Class := RegUNKNOWN, e_format := RVTypeR,
      e_func := Some (ext ''fcvtwud'')\<rparr>,
    Rev32DInstDefaults\<lparr>e_mnemonic := ''fcvt.d.w %rd, %rs1'', e_opcode := 0b1010011,
      e_funct3 := 0, e_funct7 := 0b1101001, e_rdClass := RegFLOAT, e_rs1Class := RegFLOAT,
      e_rs2Class := RegUNKNOWN, e_rs3Class := RegUNKNOWN, e_format := RVTypeR,
      e_func := Some (ext ''fcvtdw'')\<rparr>,
    Rev32DInstDefaults\<lparr>e_mnemonic := ''fcvt.d.wu %rd, %rs1'', e_opcode := 0b1010011,
      e_funct3 := 0, e_funct7 := 0b1101001, e_rdClass := RegFLOAT, e_rs1Class := RegFLOAT,
      e_rs2Class := RegUNKNOWN, e_rs3Class := RegUNKNOWN, e_format := RVTypeR,
      e_func := Some (ext ''fcvtdwu'')\<rparr>]"

definition RV32DCTable :: "(string \<Rightarrow> insn) \<Rightarrow> insn RevInstEntry list" where
  "RV32DCTable ext = [
    RevInstDefaults\<lparr>e_mnemonic := ''c.fldsp %rd, $imm'', e_cost := 1, e_opcode := 0b10,
      e_funct3 := 0b001, e_rdClass := RegFLOAT, e_rs1Class := RegGPR, e_imm := FVal,
      e_format := RVCTypeCI, e_func := Some (ext ''cfldsp''),
      e_compressed := True\<rparr>,
    RevInstDefaults\<lparr>e_mnemonic := ''c.fsdsp %rs1, $imm'', e_cost := 1, e_opcode := 0b10,
      e_funct3 := 0b101, e_rs2Class := RegFLOAT, e_rs1Class := RegGPR, e_imm := FVal,
      e_format := RVCTypeCSS, e_func := Some (ext ''cfsdsp''),
      e_compressed := True\<rparr>,
    RevInstDefaults\<lparr>e_mnemonic := ''c.fld %rd, %rs1, $imm'', e_cost := 1, e_opcode := 0,
      e_funct3 := 0b001, e_rs1Class := RegGPR, e_rdClass := RegFLOAT, e_imm := FVal,
      e_format := RVCTypeCL, e_func := Some (ext ''cfld''),
      e_compressed := True\<rparr>,
    RevInstDefaults\<lparr>e_mnemonic := ''c.fsd %rs2, %rs1, $imm'', e_cost := 1, e_opcode := 0,
      e_funct3 := 0b101, e_rs1Class := RegGPR, e_rs2Class := RegGPR, e_imm := FVal,
      e_format := RVCTypeCS, e_func := Some (ext ''cfsd''),
      e_compressed := True\<rparr>]"

definition new_RV32D :: "(string \<Rightarrow> insn) \<Rightarrow> RevExt" where
  "new_RV32D ext = \<lparr>x_name = ''RV32D'', x_table = RV32DTable ext, x_ctable = RV32DCTable ext, x_otable = []\<rparr>"


subsection \<open>RV64D\<close>

definition Rev64DInstDefaults :: "'f RevInstEntry" where
  "Rev64DInstDefaults = RevInstDefaults\<lparr>e_opcode := 0b1010011, e_rdClass := RegFLOAT, e_rs1Class := RegFLOAT, e_rs2Class := RegUNKNOWN\<rparr>"

definition RV64DTable :: "(string \<Rightarrow> insn) \<Rightarrow> insn RevInstEntry list" where
  "RV64DTable ext = [
    Rev64DInstDefaults\<lparr>e_mnemonic := ''fcvt.l.d %rd, %rs1'', e_funct7 := 0b1100001,
      e_func := Some (ext ''fcvtld'')\<rparr>,
    Rev64DInstDefaults\<lparr>e_mnemonic := ''fcvt.lu.d %rd, %rs1'', e_funct7 := 0b1100001,
      e_func := Some (ext ''fcvtlud'')\<rparr>,
    Rev64DInstDefaults\<lparr>e_mnemonic := ''fcvt.d.l %rd, %rs1'', e_funct7 := 0b1101001,
      e_func := Some (ext ''fcvtdl'')\<rparr>,
    Rev64DInstDefaults\<lparr>e_mnemonic := ''fcvt.d.lu %rd, %rs1'', e_funct7 := 0b1101001,
      e_func := Some (ext ''fcvtdlu'')\<rparr>,
    Rev64DInstDefaults\<lparr>e_mnemonic := ''fmv.x.d %rd, %rs1'', e_funct7 := 0b1110001,
      e_func := Some (ext ''fmvxd'')\<rparr>,
    Rev64DInstDefaults\<lparr>e_mnemonic := ''fmv.d.x %rd, %rs1'', e_funct7 := 0b1111001,
      e_func := Some (ext ''fmvdx'')\<rparr>,
    Rev64DInstDefaults\<lparr>e_mnemonic := ''fcvt.w.d %rd, %rs1'', e_funct7 := 0b1100001,
      e_func := Some (ext ''fcvtwd'')\<rparr>]"

definition new_RV64D :: "(string \<Rightarrow> insn) \<Rightarrow> RevExt" where
  "new_RV64D ext = \<lparr>x_name = ''RV64D'', x_table = RV64DTable ext, x_ctable = [], x_otable = []\<rparr>"


subsection \<open>RV64P\<close>

definition Rev64PInstDefaults :: "'f RevInstEntry" where
  "Rev64PInstDefaults = RevInstDefaults\<lparr>e_opcode := 0b1110111, e_rs2Class := RegUNKNOWN, e_imm := FImm, e_format := RVTypeI\<rparr>"

definition RV64PTable :: "insn RevInstEntry list" where
  "RV64PTable = [
    Rev64PInstDefaults\<lparr>e_mnemonic := ''future %rd, $imm(%rs1)'', e_funct3 := 0b111,
      e_func := Some future\<rparr>,
    Rev64PInstDefaults\<lparr>e_mnemonic := ''rfuture %rd, $imm(%rs1)'', e_funct3 := 0b101,
      e_func := Some rfuture\<rparr>,
    Rev64PInstDefaults\<lparr>e_mnemonic := ''sfuture %rd, $imm(%rs1)'', e_funct3 := 0b100,
      e_func := Some sfuture\<rparr>]"

definition new_RV64P :: "RevExt" where
  "new_RV64P = \<lparr>x_name = ''RV64P'', x_table = RV64PTable, x_ctable = [], x_otable = []\<rparr>"


section \<open>Loading the tables\<close>

record RevTables =
  Extensions :: "RevExt list"
  InstTable :: "insn RevInstEntry list"
  EntryToExt :: "nat \<rightharpoonup> nat \<times> nat"
  NameToEntry :: "string \<rightharpoonup> nat"
  EncToEntry :: "u32 \<rightharpoonup> nat"
  CEncToEntry :: "u32 \<rightharpoonup> nat"

definition empty_tables :: RevTables where
  "empty_tables = \<lparr>Extensions = [], InstTable = [], EntryToExt = Map.empty, NameToEntry = Map.empty,
     EncToEntry = Map.empty, CEncToEntry = Map.empty\<rparr>"

text \<open>\<open>std::map::insert\<close> keeps an existing binding.\<close>

definition map_insert :: "'k \<Rightarrow> 'v \<Rightarrow> ('k \<rightharpoonup> 'v) \<Rightarrow> ('k \<rightharpoonup> 'v)" where
  "map_insert k v m = (if m k = None then m(k \<mapsto> v) else m)"

text \<open>The loop of \<open>EnableExt\<close> over one table of the extension with number \<open>k\<close>, from index \<open>i\<close> on.\<close>

fun push_entries :: "nat \<Rightarrow> nat \<Rightarrow> insn RevInstEntry list \<Rightarrow> RevTables \<Rightarrow> RevTables" where
  "push_entries k i [] T = T"
| "push_entries k i (e # es) T =
     (let T1 = T\<lparr>InstTable := InstTable T @ [e]\<rparr>
      in push_entries k (Suc i) es
           (T1\<lparr>EntryToExt := map_insert (length (InstTable T1) - 1) (k, i) (EntryToExt T1)\<rparr>))"

definition EnableExt :: "RevFeature \<Rightarrow> RevExt \<Rightarrow> bool \<Rightarrow> RevTables \<Rightarrow> RevTables" where
  "EnableExt F X Opt T =
     (let T1 = T\<lparr>Extensions := Extensions T @ [X]\<rparr>;
          k = length (Extensions T1) - 1;
          T2 = push_entries k 0 (x_table X) T1
      in if IsModeEnabled F RV_C then
           (let T3 = push_entries k 0 (x_ctable X) T2
            in if Opt then push_entries k 0 (x_otable X) T3 else T3)
         else T2)"

text \<open>The extensions \<open>SeedInstTable\<close> enables, in order, each with the flag for its optional table.\<close>

definition SeedInstTable :: "(string \<Rightarrow> insn) \<Rightarrow> RevFeature \<Rightarrow> RevTables \<Rightarrow> RevTables" where
  "SeedInstTable ext F T =
     (let T1 = (if IsModeEnabled F RV_I then
                  if GetXlen F = 64 then EnableExt F new_RV64I False (EnableExt F new_RV32I False T)
                  else EnableExt F new_RV32I True T
                else T);
          T2 = (if IsModeEnabled F RV_M then
                  let T' = EnableExt F new_RV32M False T1
                  in if GetXlen F = 64 then EnableExt F new_RV64M False T' else T'
                else T1);
          T3 = (if IsModeEnabled F RV_A then
                  let T' = EnableExt F (new_RV32A ext) False T2
                  in if GetXlen F = 64 then EnableExt F (new_RV64A ext) False T' else T'
                else T2);
          T4 = (if IsModeEnabled F RV_F then
                  if \<not> IsModeEnabled F RV_D \<and> GetXlen F = 32 then EnableExt F (new_RV32F ext) True T3
                  else EnableExt F (new_RV64F ext) False (EnableExt F (new_RV32F ext) False T3)
                else T3);
          T5 = (if IsModeEnabled F RV_D then
                  let T' = EnableExt F (new_RV32D ext) False T4
                  in if GetXlen F = 64 then EnableExt F (new_RV64D ext) False T' else T'
                else T4)
      in if IsModeEnabled F RV_P then EnableExt F new_RV64P False T5 else T5)"

definition CompressCEncoding :: "insn RevInstEntry \<Rightarrow> u32" where
  "CompressCEncoding e =
     (let Value = 0;
          Value = Value OR ucast (e_opcode e);
          Value = Value OR push_bit 2 (ucast (e_funct2 e));
          Value = Value OR push_bit 4 (ucast (e_funct3 e));
          Value = Value OR push_bit 8 (ucast (e_funct4 e));
          Value = Value OR push_bit 12 (ucast (e_funct6 e))
      in Value)"

definition CompressEncoding :: "insn RevInstEntry \<Rightarrow> u32" where
  "CompressEncoding e =
     (let Value = 0;
          Value = Value OR ucast (e_opcode e);
          Value = Value OR push_bit 8 (ucast (e_funct3 e));
          Value = Value OR push_bit 11 (ucast (e_funct7 e));
          Value = Value OR push_bit 18 (ucast (e_imm12 e));
          Value = Value OR push_bit 30 (ucast (e_fpcvtOp e))
      in Value)"

text \<open>\<open>splitStr\<close>: the pieces between the occurrences of the delimiter.\<close>

fun splitStr :: "string \<Rightarrow> char \<Rightarrow> string list" where
  "splitStr [] c = [[]]"
| "splitStr (x # xs) c =
     (if x = c then [] # splitStr xs c
      else case splitStr xs c of [] \<Rightarrow> [[x]] | v # vs \<Rightarrow> (x # v) # vs)"

definition ExtractMnemonic :: "insn RevInstEntry \<Rightarrow> string" where
  "ExtractMnemonic e = splitStr (e_mnemonic e) CHR '' '' ! 0"

definition map_entry :: "nat \<Rightarrow> RevTables \<Rightarrow> RevTables" where
  "map_entry i T =
     (let e = InstTable T ! i;
          T1 = T\<lparr>NameToEntry := map_insert (ExtractMnemonic e) i (NameToEntry T)\<rparr>
      in if \<not> e_compressed e then
           T1\<lparr>EncToEntry := map_insert (CompressEncoding e) i (EncToEntry T1)\<rparr>
         else T1\<lparr>CEncToEntry := map_insert (CompressCEncoding e) i (CEncToEntry T1)\<rparr>)"

definition InitTableMapping :: "RevTables \<Rightarrow> RevTables" where
  "InitTableMapping T = fold map_entry [0..<length (InstTable T)] T"

text \<open>
  \<open>ReadOverrideTables\<close>: \<open>None\<close> stands for the table name \<open>_REV_INTERNAL_\<close>, else the list holds the
  pairs of mnemonic and cost read from the file.
\<close>

fun override_costs :: "(string \<times> u32) list \<Rightarrow> RevTables \<Rightarrow> RevTables res" where
  "override_costs [] T = Inr T"
| "override_costs ((Inst, Cost) # fs) T =
     (case NameToEntry T Inst of
        None \<Rightarrow> Inl (Fatal_Override Inst)
      | Some i \<Rightarrow> override_costs fs
          (T\<lparr>InstTable := (InstTable T)[i := (InstTable T ! i)\<lparr>e_cost := Cost\<rparr>]\<rparr>))"

definition ReadOverrideTables :: "(string \<times> u32) list option \<Rightarrow> RevTables \<Rightarrow> RevTables res" where
  "ReadOverrideTables tbl T = (case tbl of None \<Rightarrow> Inr T | Some fs \<Rightarrow> override_costs fs T)"

definition LoadInstructionTable ::
  "(string \<Rightarrow> insn) \<Rightarrow> RevFeature \<Rightarrow> (string \<times> u32) list option \<Rightarrow> RevTables res" where
  "LoadInstructionTable ext F tbl =
     ReadOverrideTables tbl (InitTableMapping (SeedInstTable ext F empty_tables))"


section \<open>First-match lookup\<close>

lemma fold_map_insert:
  "fold (\<lambda>(k, v). map_insert k v) xs m k = (case m k of Some v \<Rightarrow> Some v | None \<Rightarrow> map_of xs k)"
proof (induction xs arbitrary: m)
  case Nil
  show ?case by (simp split: option.split)
next
  case (Cons x xs)
  then show ?case by (cases x) (auto simp: map_insert_def split: option.splits)
qed

text \<open>The key/index pairs of the entries that satisfy \<open>P\<close>, in table order.\<close>

definition key_pairs ::
  "(insn RevInstEntry \<Rightarrow> bool) \<Rightarrow> (insn RevInstEntry \<Rightarrow> 'k) \<Rightarrow> insn RevInstEntry list \<Rightarrow> ('k \<times> nat) list" where
  "key_pairs P key es = map (\<lambda>i. (key (es ! i), i)) (filter (\<lambda>i. P (es ! i)) [0..<length es])"

lemma map_of_filter_upt:
  "map_of (map (\<lambda>i. (g i, i)) (filter P [m..<n])) k = Some i \<longleftrightarrow>
   m \<le> i \<and> i < n \<and> P i \<and> g i = k \<and> (\<forall>j. m \<le> j \<longrightarrow> j < i \<longrightarrow> P j \<longrightarrow> g j \<noteq> k)"
proof (induction "n - m" arbitrary: m)
  case 0
  then show ?case by simp
next
  case (Suc d)
  then have mn: "m < n" and d: "d = n - Suc m" by simp_all
  have split: "(\<forall>j. m \<le> j \<longrightarrow> j < i \<longrightarrow> P j \<longrightarrow> g j \<noteq> k) \<longleftrightarrow>
      (m < i \<longrightarrow> P m \<longrightarrow> g m \<noteq> k) \<and> (\<forall>j. Suc m \<le> j \<longrightarrow> j < i \<longrightarrow> P j \<longrightarrow> g j \<noteq> k)"
    by (metis Suc_leI Suc_leD le_eq_less_or_eq)
  have up: "[m..<n] = m # [Suc m..<n]" using mn by (rule upt_conv_Cons)
  show ?case
  proof (cases "P m \<and> g m = k")
    case True
    then show ?thesis using mn by (auto simp: up)
  next
    case False
    then have "map_of (map (\<lambda>i. (g i, i)) (filter P [m..<n])) k =
        map_of (map (\<lambda>i. (g i, i)) (filter P [Suc m..<n])) k" by (auto simp: up)
    moreover have "m \<le> i \<and> P i \<and> g i = k \<longleftrightarrow> Suc m \<le> i \<and> P i \<and> g i = k"
      using False by (metis Suc_leD Suc_leI le_neq_implies_less)
    ultimately show ?thesis using Suc(1) [OF d] False unfolding split by (simp only:) blast
  qed
qed

lemma key_pairs_first:
  "map_of (key_pairs P key es) k = Some i \<longleftrightarrow>
   i < length es \<and> P (es ! i) \<and> key (es ! i) = k \<and> (\<forall>j<i. P (es ! j) \<longrightarrow> key (es ! j) \<noteq> k)"
  unfolding key_pairs_def map_of_filter_upt by auto

lemma map_entry_frame:
  "InstTable (map_entry i T) = InstTable T" "Extensions (map_entry i T) = Extensions T"
  "EntryToExt (map_entry i T) = EntryToExt T"
  by (simp_all add: map_entry_def Let_def)

lemma fold_map_entry_frame:
  "InstTable (fold map_entry is T) = InstTable T" "Extensions (fold map_entry is T) = Extensions T"
  "EntryToExt (fold map_entry is T) = EntryToExt T"
  by (induction "is" arbitrary: T) (simp_all add: map_entry_frame)

lemma fold_map_entry:
  "EncToEntry (fold map_entry is T) = fold (\<lambda>(k, v). map_insert k v)
     (map (\<lambda>i. (CompressEncoding (InstTable T ! i), i)) (filter (\<lambda>i. \<not> e_compressed (InstTable T ! i)) is))
     (EncToEntry T)"
  "CEncToEntry (fold map_entry is T) = fold (\<lambda>(k, v). map_insert k v)
     (map (\<lambda>i. (CompressCEncoding (InstTable T ! i), i)) (filter (\<lambda>i. e_compressed (InstTable T ! i)) is))
     (CEncToEntry T)"
  "NameToEntry (fold map_entry is T) = fold (\<lambda>(k, v). map_insert k v)
     (map (\<lambda>i. (ExtractMnemonic (InstTable T ! i), i)) is) (NameToEntry T)"
  by (induction "is" arbitrary: T) (simp_all add: map_entry_frame, simp_all add: map_entry_def Let_def)

text \<open>Loading starts from empty maps, so each map is the first-match lookup of the table.\<close>

lemma push_entries_frame:
  "EncToEntry (push_entries k i es T) = EncToEntry T"
  "CEncToEntry (push_entries k i es T) = CEncToEntry T"
  "NameToEntry (push_entries k i es T) = NameToEntry T"
  "Extensions (push_entries k i es T) = Extensions T"
  "InstTable (push_entries k i es T) = InstTable T @ es"
  by (induction k i es T rule: push_entries.induct) (simp_all add: Let_def)

lemma EnableExt_frame:
  "EncToEntry (EnableExt F X b T) = EncToEntry T"
  "CEncToEntry (EnableExt F X b T) = CEncToEntry T"
  "NameToEntry (EnableExt F X b T) = NameToEntry T"
  "Extensions (EnableExt F X b T) = Extensions T @ [X]"
  "InstTable (EnableExt F X b T) = InstTable T @ x_table X @
     (if IsModeEnabled F RV_C then x_ctable X @ (if b then x_otable X else []) else [])"
  by (simp_all add: EnableExt_def Let_def push_entries_frame)

lemma SeedInstTable_maps:
  "EncToEntry (SeedInstTable ext F T) = EncToEntry T"
  "CEncToEntry (SeedInstTable ext F T) = CEncToEntry T"
  "NameToEntry (SeedInstTable ext F T) = NameToEntry T"
  by (simp_all add: SeedInstTable_def Let_def EnableExt_frame)

definition same_but_cost :: "insn RevInstEntry list \<Rightarrow> insn RevInstEntry list \<Rightarrow> bool" where
  "same_but_cost es es' \<longleftrightarrow> list_all2 (\<lambda>e e'. e'\<lparr>e_cost := 0\<rparr> = e\<lparr>e_cost := 0\<rparr>) es es'"

lemma same_but_cost_nth:
  assumes "same_but_cost es es'" and "i < length es"
  shows "e_compressed (es' ! i) = e_compressed (es ! i)" "e_func (es' ! i) = e_func (es ! i)"
    "e_format (es' ! i) = e_format (es ! i)" "CompressEncoding (es' ! i) = CompressEncoding (es ! i)"
    "CompressCEncoding (es' ! i) = CompressCEncoding (es ! i)"
    "ExtractMnemonic (es' ! i) = ExtractMnemonic (es ! i)"
    "(es' ! i)\<lparr>e_cost := 0\<rparr> = (es ! i)\<lparr>e_cost := 0\<rparr>"
proof -
  have eq: "(es' ! i)\<lparr>e_cost := 0\<rparr> = (es ! i)\<lparr>e_cost := 0\<rparr>"
    using assms by (simp add: same_but_cost_def list_all2_conv_all_nth)
  then show "e_compressed (es' ! i) = e_compressed (es ! i)" "e_func (es' ! i) = e_func (es ! i)"
    "e_format (es' ! i) = e_format (es ! i)" "CompressEncoding (es' ! i) = CompressEncoding (es ! i)"
    "CompressCEncoding (es' ! i) = CompressCEncoding (es ! i)"
    "ExtractMnemonic (es' ! i) = ExtractMnemonic (es ! i)"
    "(es' ! i)\<lparr>e_cost := 0\<rparr> = (es ! i)\<lparr>e_cost := 0\<rparr>"
    by (cases "es' ! i"; cases "es ! i"; simp add: CompressEncoding_def CompressCEncoding_def
        ExtractMnemonic_def)+
qed

lemma override_costs_frame:
  assumes "override_costs fs T = Inr T'"
  shows "same_but_cost (InstTable T) (InstTable T') \<and> Extensions T' = Extensions T \<and>
    EntryToExt T' = EntryToExt T \<and> EncToEntry T' = EncToEntry T \<and> CEncToEntry T' = CEncToEntry T \<and>
    NameToEntry T' = NameToEntry T"
  using assms
proof (induction fs T rule: override_costs.induct)
  case (1 T)
  then show ?case by (simp add: same_but_cost_def list_all2_refl)
next
  case (2 n c fs T)
  then obtain i where i: "NameToEntry T n = Some i" by (auto split: option.splits)
  let ?T = "T\<lparr>InstTable := (InstTable T)[i := (InstTable T ! i)\<lparr>e_cost := c\<rparr>]\<rparr>"
  have "same_but_cost (InstTable T) (InstTable ?T)"
    by (cases "i < length (InstTable T)")
      (auto simp: same_but_cost_def list_all2_conv_all_nth nth_list_update)
  moreover have "same_but_cost (InstTable ?T) (InstTable T')"
    using 2 i by simp
  ultimately have "same_but_cost (InstTable T) (InstTable T')"
    unfolding same_but_cost_def by (rule list_all2_trans [rotated]) simp
  then show ?case using 2 i by simp
qed

lemma LoadInstructionTable_cases:
  assumes "LoadInstructionTable ext F tbl = Inr T"
  defines "es \<equiv> InstTable (SeedInstTable ext F empty_tables)"
  shows "same_but_cost es (InstTable T)"
    and "Extensions T = Extensions (SeedInstTable ext F empty_tables)"
    and "EntryToExt T = EntryToExt (SeedInstTable ext F empty_tables)"
    and "EncToEntry T = map_of (key_pairs (\<lambda>e. \<not> e_compressed e) CompressEncoding es)"
    and "CEncToEntry T = map_of (key_pairs e_compressed CompressCEncoding es)"
    and "NameToEntry T = map_of (key_pairs (\<lambda>_. True) ExtractMnemonic es)"
proof -
  let ?S = "SeedInstTable ext F empty_tables"
  let ?I = "InitTableMapping ?S"
  have I: "InstTable ?I = es" "Extensions ?I = Extensions ?S" "EntryToExt ?I = EntryToExt ?S"
    by (simp_all add: InitTableMapping_def fold_map_entry_frame es_def)
  have maps: "EncToEntry ?I = map_of (key_pairs (\<lambda>e. \<not> e_compressed e) CompressEncoding es)"
    "CEncToEntry ?I = map_of (key_pairs e_compressed CompressCEncoding es)"
    "NameToEntry ?I = map_of (key_pairs (\<lambda>_. True) ExtractMnemonic es)"
    by (intro HOL.ext, simp add: InitTableMapping_def fold_map_entry fold_map_insert key_pairs_def es_def
        SeedInstTable_maps empty_tables_def)+
  have "same_but_cost es (InstTable T) \<and> Extensions T = Extensions ?I \<and>
    EntryToExt T = EntryToExt ?I \<and> EncToEntry T = EncToEntry ?I \<and> CEncToEntry T = CEncToEntry ?I \<and>
    NameToEntry T = NameToEntry ?I"
  proof (cases tbl)
    case None
    then show ?thesis using assms(1)
      by (auto simp: LoadInstructionTable_def ReadOverrideTables_def I same_but_cost_def list_all2_refl)
  next
    case (Some fs)
    then have "override_costs fs ?I = Inr T"
      using assms(1) by (simp add: LoadInstructionTable_def ReadOverrideTables_def)
    from override_costs_frame [OF this] show ?thesis by (simp add: I)
  qed
  then show "same_but_cost es (InstTable T)" "Extensions T = Extensions ?S"
    "EntryToExt T = EntryToExt ?S"
    "EncToEntry T = map_of (key_pairs (\<lambda>e. \<not> e_compressed e) CompressEncoding es)"
    "CEncToEntry T = map_of (key_pairs e_compressed CompressCEncoding es)"
    "NameToEntry T = map_of (key_pairs (\<lambda>_. True) ExtractMnemonic es)"
    using I maps by simp_all
qed


section \<open>Dispatch\<close>

text \<open>The function \<open>Execute\<close> runs for an index, if it runs one.\<close>

definition exec_slot :: "RevExt \<Rightarrow> nat \<Rightarrow> bool \<Rightarrow> insn option" where
  "exec_slot X i c =
     (let t = (if c then x_ctable X else x_table X)
      in if i < length (x_table X) \<and> i < length t then e_func (t ! i) else None)"

definition ext_ok :: "RevExt \<Rightarrow> bool" where
  "ext_ok X \<longleftrightarrow> x_table X \<noteq> [] \<and> length (x_table X) < 2 ^ 32 \<and> length (x_ctable X) \<le> length (x_table X) \<and>
     (\<forall>e\<in>set (x_table X). \<not> e_compressed e \<and> e_func e \<noteq> None) \<and>
     (\<forall>e\<in>set (x_ctable X). e_compressed e \<and> e_func e \<noteq> None)"

lemma Execute_slot:
  assumes "ext_ok X" and "exec_slot X i (compressed I) = Some f"
  shows "Execute X i F I S = f F I S"
proof -
  have i: "i < length (x_table X)" and n: "length (x_table X) < 2 ^ 32"
    using assms by (auto simp: exec_slot_def ext_ok_def Let_def split: if_splits)
  have u: "unat (of_nat (length (x_table X)) - 1 :: u64) = length (x_table X) - 1"
    using i n by (subst unat_minus_one) (auto simp: unat_of_nat_u64 unat_eq_0 dest: arg_cong [of _ _ unat])
  have "\<not> of_nat i > (of_nat (length (x_table X)) - 1 :: u64)"
    using i n by (simp add: word_less_nat_alt u unat_of_nat_u64)
  then show ?thesis
    using assms(2) by (simp add: Execute_def exec_slot_def Let_def split: if_splits)
qed

text \<open>Every entry of the table dispatches to its own function.\<close>

definition dispatch_ok :: "RevTables \<Rightarrow> bool" where
  "dispatch_ok T \<longleftrightarrow> (\<forall>X\<in>set (Extensions T). ext_ok X) \<and> dom (EntryToExt T) = {..<length (InstTable T)} \<and>
     (\<forall>i<length (InstTable T). \<exists>k j f. EntryToExt T i = Some (k, j) \<and> k < length (Extensions T) \<and>
        e_func (InstTable T ! i) = Some f \<and>
        exec_slot (Extensions T ! k) j (e_compressed (InstTable T ! i)) = Some f)"

lemma push_entries_ok:
  assumes "dispatch_ok T" and "k < length (Extensions T)"
    and "\<And>j. j < length es \<Longrightarrow> e_func (es ! j) \<noteq> None \<and>
      exec_slot (Extensions T ! k) (i + j) (e_compressed (es ! j)) = e_func (es ! j)"
  shows "dispatch_ok (push_entries k i es T)"
  using assms
proof (induction k i es T rule: push_entries.induct)
  case (1 k i T)
  then show ?case by simp
next
  case (2 k i e es T)
  let ?T1 = "T\<lparr>InstTable := InstTable T @ [e]\<rparr>"
  let ?T2 = "?T1\<lparr>EntryToExt := map_insert (length (InstTable ?T1) - 1) (k, i) (EntryToExt ?T1)\<rparr>"
  have fresh: "EntryToExt T (length (InstTable T)) = None"
    using 2(2) by (auto simp: dispatch_ok_def)
  have slot: "e_func e \<noteq> None" "exec_slot (Extensions T ! k) i (e_compressed e) = e_func e"
    using 2(4) [of 0] by simp_all
  have "dispatch_ok ?T2"
    using 2(2,3) fresh slot
    by (auto simp: dispatch_ok_def map_insert_def nth_append less_Suc_eq)
  moreover have "e_func (es ! j) \<noteq> None \<and>
      exec_slot (Extensions ?T2 ! k) (Suc i + j) (e_compressed (es ! j)) = e_func (es ! j)"
    if "j < length es" for j using 2(4) [of "Suc j"] that by simp
  ultimately show ?case using 2(1) [of ?T1 ] 2(3) by (simp add: Let_def)
qed

lemma EnableExt_ok:
  assumes ok: "dispatch_ok T" and X: "ext_ok X" and b: "\<not> b \<or> \<not> IsModeEnabled F RV_C"
  shows "dispatch_ok (EnableExt F X b T)"
proof -
  let ?T1 = "T\<lparr>Extensions := Extensions T @ [X]\<rparr>"
  have 1: "dispatch_ok ?T1"
    using ok X unfolding dispatch_ok_def
    by (auto simp: nth_append less_Suc_eq) (metis (no_types, lifting))+
  have 2: "dispatch_ok (push_entries (length (Extensions T)) 0 (x_table X) ?T1)"
    by (rule push_entries_ok [OF 1])
      (use X in \<open>auto simp: exec_slot_def ext_ok_def Let_def\<close>)
  have "dispatch_ok (push_entries (length (Extensions T)) 0 (x_ctable X)
      (push_entries (length (Extensions T)) 0 (x_table X) ?T1))"
    by (rule push_entries_ok [OF 2])
      (use X in \<open>auto simp: exec_slot_def ext_ok_def Let_def push_entries_frame\<close>)
  then show ?thesis using 2 b by (auto simp: EnableExt_def Let_def)
qed

lemmas table_defs = RV32ITable_def RV32ICTable_def RV32ICOTable_def RV64ITable_def RV64ICTable_def
  RV32MTable_def RV64MTable_def RV32ATable_def RV64ATable_def RV32FTable_def RV32FCOTable_def
  RV64FTable_def RV32DTable_def RV32DCTable_def RV64DTable_def RV64PTable_def

lemmas defaults_defs = RevInstDefaults_def RevMInstDefaults_def Rev64MInstDefaults_def
  Rev64AInstDefaults_def Rev32FInstDefaults_def Rev64FInstDefaults_def Rev32DInstDefaults_def
  Rev64DInstDefaults_def Rev64PInstDefaults_def

lemma ext_ok_all:
  "ext_ok new_RV32I" "ext_ok new_RV64I" "ext_ok new_RV32M" "ext_ok new_RV64M"
  "ext_ok (new_RV32A ext)" "ext_ok (new_RV64A ext)" "ext_ok (new_RV32F ext)"
  "ext_ok (new_RV64F ext)" "ext_ok (new_RV32D ext)" "ext_ok (new_RV64D ext)" "ext_ok new_RV64P"
  by (simp_all add: ext_ok_def new_RV32I_def new_RV64I_def new_RV32M_def new_RV64M_def new_RV32A_def
      new_RV64A_def new_RV32F_def new_RV64F_def new_RV32D_def new_RV64D_def new_RV64P_def
      table_defs defaults_defs)

lemma SeedInstTable_ok:
  assumes "GetXlen F = 64 \<or> \<not> IsModeEnabled F RV_C"
  shows "dispatch_ok (SeedInstTable ext F empty_tables)"
proof -
  have 0: "dispatch_ok empty_tables" by (simp add: dispatch_ok_def empty_tables_def)
  show ?thesis
    using assms unfolding SeedInstTable_def Let_def
    by (auto intro!: EnableExt_ok ext_ok_all 0)
qed

text \<open>The base instructions are loaded first, so their indices do not depend on the other extensions.\<close>

lemma Seed_RV32I_prefix:
  "IsModeEnabled F RV_I \<Longrightarrow>
   \<exists>es. InstTable (SeedInstTable ext F empty_tables) = RV32ITable @ es"
  by (simp add: SeedInstTable_def Let_def EnableExt_frame empty_tables_def new_RV32I_def)

lemma Load_RV32I_prefix:
  assumes "LoadInstructionTable ext F None = Inr T" and "IsModeEnabled F RV_I"
  obtains es where "InstTable T = RV32ITable @ es"
proof -
  have "InstTable T = InstTable (SeedInstTable ext F empty_tables)"
    using assms(1) by (auto simp: LoadInstructionTable_def ReadOverrideTables_def InitTableMapping_def
        fold_map_entry_frame)
  then show thesis using that Seed_RV32I_prefix [OF assms(2), of ext] by auto
qed

lemma Load_RV64I_prefix:
  assumes "LoadInstructionTable ext F None = Inr T" and "IsModeEnabled F RV_I" and "GetXlen F = 64"
  obtains es where "InstTable T = RV32ITable @ (if IsModeEnabled F RV_C then RV32ICTable else []) @ RV64ITable @ es"
proof -
  have "InstTable T = InstTable (SeedInstTable ext F empty_tables)"
    using assms(1) by (auto simp: LoadInstructionTable_def ReadOverrideTables_def InitTableMapping_def
        fold_map_entry_frame)
  moreover have "\<exists>es. InstTable (SeedInstTable ext F empty_tables) =
      RV32ITable @ (if IsModeEnabled F RV_C then RV32ICTable else []) @ RV64ITable @ es"
    using assms(2,3) by (simp add: SeedInstTable_def Let_def EnableExt_frame empty_tables_def new_RV32I_def new_RV64I_def)
  ultimately show thesis using that by auto
qed

text \<open>A 64-bit core with I, M, A and C for the concrete instances, and a 32-bit one with I and C.\<close>

abbreviation demo_RV64IMAC :: RevFeature where
  "demo_RV64IMAC \<equiv> \<lparr>machine = ''RV64IMAC'', MinCost = 1, MaxCost = 10, Hart = 0, features = 0x4E, xlen = 64\<rparr>"

abbreviation demo_RV32IC :: RevFeature where
  "demo_RV32IC \<equiv> \<lparr>machine = ''RV32IC'', MinCost = 1, MaxCost = 10, Hart = 0, features = 0x42, xlen = 32\<rparr>"

lemma demo_RV_I [simp]: "IsModeEnabled demo_RV64IMAC RV_I" "GetXlen demo_RV64IMAC = 64"
  "IsModeEnabled demo_RV32IC RV_I" "GetXlen demo_RV32IC = 32" "IsModeEnabled demo_RV32IC RV_C"
  by (simp_all add: IsModeEnabled_def GetXlen_def)

text \<open>
  C11. The instruction tables are indexed correctly. After loading (with or without a cost file),
  each of the three maps sends a key to the first table entry that has it: the 32-bit encodings
  to the uncompressed entries, the 16-bit encodings to the compressed ones, and the mnemonics.
\<close>

theorem LoadInstructionTable_index:
  assumes "LoadInstructionTable ext F tbl = Inr T"
  shows "(EncToEntry T enc = Some i \<longleftrightarrow>
      i < length (InstTable T) \<and> \<not> e_compressed (InstTable T ! i) \<and> CompressEncoding (InstTable T ! i) = enc \<and>
      (\<forall>j<i. \<not> e_compressed (InstTable T ! j) \<longrightarrow> CompressEncoding (InstTable T ! j) \<noteq> enc)) \<and>
    (CEncToEntry T enc = Some i \<longleftrightarrow>
      i < length (InstTable T) \<and> e_compressed (InstTable T ! i) \<and> CompressCEncoding (InstTable T ! i) = enc \<and>
      (\<forall>j<i. e_compressed (InstTable T ! j) \<longrightarrow> CompressCEncoding (InstTable T ! j) \<noteq> enc)) \<and>
    (NameToEntry T nm = Some i \<longleftrightarrow>
      i < length (InstTable T) \<and> ExtractMnemonic (InstTable T ! i) = nm \<and>
      (\<forall>j<i. ExtractMnemonic (InstTable T ! j) \<noteq> nm))"
proof -
  note L = LoadInstructionTable_cases [OF assms]
  have len: "length (InstTable T) = length (InstTable (SeedInstTable ext F empty_tables))"
    using L(1) by (simp add: same_but_cost_def list_all2_lengthD)
  show ?thesis
    unfolding L(4-6) key_pairs_first len using same_but_cost_nth [OF L(1)] by auto
qed

theorem LoadInstructionTable_index_witness:
  "\<exists>T. LoadInstructionTable (\<lambda>_. fence) demo_RV64IMAC None = Inr T \<and> EncToEntry T 0x37 = Some 0"
proof -
  obtain T where T: "LoadInstructionTable (\<lambda>_. fence) demo_RV64IMAC None = Inr T"
    by (simp add: LoadInstructionTable_def ReadOverrideTables_def)
  obtain es where es: "InstTable T = RV32ITable @ es"
    by (rule Load_RV32I_prefix [OF T demo_RV_I(1)])
  have "0 < length (InstTable T) \<and> \<not> e_compressed (InstTable T ! 0) \<and>
      CompressEncoding (InstTable T ! 0) = 0x37"
    by (simp add: es RV32ITable_def RevInstDefaults_def CompressEncoding_def)
  then show ?thesis using LoadInstructionTable_index [OF T, of "0x37" 0] T by blast
qed

lemma dispatch_entry:
  assumes "LoadInstructionTable ext F tbl = Inr T" and "GetXlen F = 64 \<or> \<not> IsModeEnabled F RV_C"
    and "i < length (InstTable T)"
  shows "\<exists>k j f. EntryToExt T i = Some (k, j) \<and> k < length (Extensions T) \<and>
    e_func (InstTable T ! i) = Some f \<and>
    (\<forall>I S. compressed I = e_compressed (InstTable T ! i) \<longrightarrow> Execute (Extensions T ! k) j F I S = f F I S)"
proof -
  note L = LoadInstructionTable_cases [OF assms(1)]
  let ?S = "SeedInstTable ext F empty_tables"
  have i: "i < length (InstTable ?S)"
    using assms(3) L(1) by (simp add: same_but_cost_def list_all2_lengthD)
  note ok = SeedInstTable_ok [OF assms(2), of ext, unfolded dispatch_ok_def]
  obtain k j f where kj: "EntryToExt ?S i = Some (k, j)" "k < length (Extensions ?S)"
    "e_func (InstTable ?S ! i) = Some f"
    "exec_slot (Extensions ?S ! k) j (e_compressed (InstTable ?S ! i)) = Some f"
    using ok i by blast
  have "ext_ok (Extensions ?S ! k)" using ok kj(2) by simp
  from Execute_slot [OF this] kj have
    "\<forall>I S. compressed I = e_compressed (InstTable ?S ! i) \<longrightarrow> Execute (Extensions ?S ! k) j F I S = f F I S"
    by simp
  then show ?thesis using kj same_but_cost_nth [OF L(1) i] L(2,3) by auto
qed

text \<open>
  C10. Dispatch reaches the right function. On a 64-bit core, and on any core without compressed
  instructions, every entry of the loaded table leads through \<open>EntryToExt\<close> to an extension and an
  index at which \<open>RevExt::Execute\<close> runs exactly that entry's implementation function.
\<close>

theorem dispatch_correct:
  assumes "LoadInstructionTable ext F tbl = Inr T" and "GetXlen F = 64 \<or> \<not> IsModeEnabled F RV_C"
    and "i < length (InstTable T)"
  shows "\<exists>k j f. EntryToExt T i = Some (k, j) \<and> k < length (Extensions T) \<and>
    e_func (InstTable T ! i) = Some f \<and>
    (\<forall>I S. compressed I = e_compressed (InstTable T ! i) \<longrightarrow> Execute (Extensions T ! k) j F I S = f F I S)"
  by (rule dispatch_entry [OF assms])

theorem dispatch_correct_witness:
  "\<exists>T k j. LoadInstructionTable (\<lambda>_. fence) demo_RV64IMAC None = Inr T \<and> EntryToExt T 0 = Some (k, j) \<and>
     Execute (Extensions T ! k) j demo_RV64IMAC (demo_inst 5 0 0 1) (demo_state (\<lambda>_. 0)) =
     lui demo_RV64IMAC (demo_inst 5 0 0 1) (demo_state (\<lambda>_. 0))"
proof -
  obtain T where T: "LoadInstructionTable (\<lambda>_. fence) demo_RV64IMAC None = Inr T"
    by (simp add: LoadInstructionTable_def ReadOverrideTables_def)
  obtain es where es: "InstTable T = RV32ITable @ es"
    by (rule Load_RV32I_prefix [OF T demo_RV_I(1)])
  have e0: "0 < length (InstTable T)" "e_func (InstTable T ! 0) = Some lui" "\<not> e_compressed (InstTable T ! 0)"
    by (simp_all add: es RV32ITable_def RevInstDefaults_def)
  have "GetXlen demo_RV64IMAC = 64 \<or> \<not> IsModeEnabled demo_RV64IMAC RV_C" by simp
  from dispatch_correct [OF T this e0(1)] e0 T show ?thesis by force
qed

text \<open>
  The optional tables break dispatch: on a 32-bit core with compressed instructions \<open>c.jal\<close> is the
  entry with index 68, \<open>EntryToExt\<close> sends it to index 0, and \<open>Execute\<close> looks that up in the
  compressed table, where it finds \<open>c.addi4spn\<close>.
\<close>

lemma push_entries_EntryToExt:
  assumes "\<And>n. length (InstTable T) \<le> n \<Longrightarrow> EntryToExt T n = None" and "m < length es"
  shows "EntryToExt (push_entries k i es T) (length (InstTable T) + m) = Some (k, i + m)"
  using assms
proof (induction k i es T arbitrary: m rule: push_entries.induct)
  case (1 k i T)
  then show ?case by simp
next
  case (2 k i e es T)
  have keep: "EntryToExt (push_entries k' i' es' T') n = EntryToExt T' n" if "n < length (InstTable T')"
    for k' i' es' T' n
    using that by (induction k' i' es' T' rule: push_entries.induct)
      (auto simp: Let_def map_insert_def split: if_splits)
  show ?case
  proof (cases m)
    case 0
    then show ?thesis using 2(2) by (simp add: Let_def keep map_insert_def)
  next
    case (Suc m')
    then show ?thesis using 2(1) [OF refl, of m'] 2(2,3) by (simp add: Let_def map_insert_def)
  qed
qed

lemma push_entries_None:
  "EntryToExt T n = None \<Longrightarrow> length (InstTable T) + length es \<le> n \<Longrightarrow>
   EntryToExt (push_entries k i es T) n = None"
  by (induction k i es T rule: push_entries.induct) (auto simp: Let_def map_insert_def split: if_splits)

lemma cjal_misdispatched:
  assumes "LoadInstructionTable ext demo_RV32IC None = Inr T" and "compressed I"
  shows "\<exists>i. CEncToEntry T 0x11 = Some i \<and> e_func (InstTable T ! i) = Some cjal \<and>
    (\<exists>k j. EntryToExt T i = Some (k, j) \<and> Execute (Extensions T ! k) j F I S = caddi4spn F I S)"
proof -
  let ?S = "SeedInstTable ext demo_RV32IC empty_tables"
  have modes: "\<not> IsModeEnabled demo_RV32IC RV_M" "\<not> IsModeEnabled demo_RV32IC RV_A"
    "\<not> IsModeEnabled demo_RV32IC RV_F" "\<not> IsModeEnabled demo_RV32IC RV_D" "\<not> IsModeEnabled demo_RV32IC RV_P"
    by (simp_all add: IsModeEnabled_def)
  have seed: "?S = EnableExt demo_RV32IC new_RV32I True empty_tables"
    by (simp add: SeedInstTable_def Let_def modes)
  note L = LoadInstructionTable_cases [OF assms(1)]
  have em: "InstTable empty_tables = []" "Extensions empty_tables = []" "EntryToExt empty_tables = Map.empty"
    by (simp_all add: empty_tables_def)
  have tab: "InstTable ?S = RV32ITable @ RV32ICTable @ RV32ICOTable" and ex: "Extensions ?S = [new_RV32I]"
    unfolding seed by (simp_all add: EnableExt_frame em, simp_all add: new_RV32I_def)
  have len: "length RV32ITable = 47" "length RV32ICTable = 21" "length RV32ICOTable = 1"
    by (simp_all add: table_defs)
  have e: "InstTable ?S ! 68 = RV32ICOTable ! 0" "68 < length (InstTable ?S)"
    by (simp_all add: tab nth_append len)
  have nc: "\<forall>x\<in>set RV32ITable. \<not> e_compressed x" "\<forall>x\<in>set RV32ICTable. CompressCEncoding x \<noteq> 0x11"
    by (simp_all add: table_defs RevInstDefaults_def CompressCEncoding_def)
  have "\<not> e_compressed (InstTable ?S ! j) \<or> CompressCEncoding (InstTable ?S ! j) \<noteq> 0x11" if "j < 68" for j
    using nc that by (cases "j < 47") (auto simp: tab nth_append len)
  then have enc: "CEncToEntry T 0x11 = Some 68"
    unfolding L(5) key_pairs_first using e
    by (auto simp: RV32ICOTable_def RevInstDefaults_def CompressCEncoding_def)
  have pos: "EntryToExt ?S 68 = Some (0, 0)"
  proof -
    let ?T3 = "push_entries 0 0 RV32ICTable (push_entries 0 0 RV32ITable (empty_tables\<lparr>Extensions := [new_RV32I]\<rparr>))"
    have "length (InstTable ?T3) = 68" by (simp add: push_entries_frame em len)
    moreover have "EntryToExt ?T3 n = None" if "68 \<le> n" for n
      by (intro push_entries_None) (use that in \<open>simp_all add: push_entries_frame em len\<close>)
    moreover have "?S = push_entries 0 0 RV32ICOTable ?T3"
      unfolding seed EnableExt_def Let_def by (simp add: em) (simp add: new_RV32I_def)
    ultimately show ?thesis using push_entries_EntryToExt [of ?T3 0 RV32ICOTable 0 0] by (simp add: len)
  qed
  have func: "e_func (InstTable T ! 68) = Some cjal"
    using same_but_cost_nth(2) [OF L(1) e(2)] e(1) by (simp add: RV32ICOTable_def)
  have "Execute new_RV32I 0 F I S = caddi4spn F I S"
    using assms(2) by (simp add: Execute_def new_RV32I_def len) (simp add: table_defs)
  then show ?thesis using enc func pos L(2,3) ex by auto
qed

end
