(* ===== verification/Rev_Decode.thy ===== *)
theory Rev_Decode
  imports Rev_Tables
begin

text \<open>
  The crack and decode stage of \<open>RevProc\<close> (src/RevProc.cc): the seven decoders of the 32-bit formats,
  the nine of the compressed formats, and the two functions that find the table entry and choose
  among them. A decoder starts from an uninitialised \<open>RevInst\<close>; its content is the parameter \<open>junk\<close>.
  The table entry is a parameter of each decoder, as \<open>InstTable[Entry]\<close>. Every decoder sets the cost
  of the register file to that of the entry.
\<close>

section \<open>The 32-bit formats\<close>

definition IsFloat :: "insn RevInstEntry \<Rightarrow> bool" where
  "IsFloat e = (e_rdClass e = RegFLOAT \<or> e_rs1Class e = RegFLOAT \<or> e_rs2Class e = RegFLOAT \<or>
     e_rs3Class e = RegFLOAT)"

definition DecodeRInst :: "RevInst \<Rightarrow> u32 \<Rightarrow> insn RevInstEntry \<Rightarrow> RevInst" where
  "DecodeRInst junk Inst e =
     (let D = junk\<lparr>opcode := e_opcode e, funct3 := e_funct3 e, funct2 := 0, funct7 := e_funct7 e,
            rd := 0, rs1 := 0, rs2 := 0, rs3 := 0\<rparr>;
          D = (if e_rdClass e \<noteq> RegUNKNOWN then D\<lparr>rd := unat (DECODE_RD Inst)\<rparr> else D);
          D = (if e_rs1Class e \<noteq> RegUNKNOWN then D\<lparr>rs1 := unat (DECODE_RS1 Inst)\<rparr> else D);
          D = (if e_rs2Class e \<noteq> RegUNKNOWN then D\<lparr>rs2 := unat (DECODE_RS2 Inst)\<rparr> else D);
          D = (if e_imm e = FImm \<and> e_rs2Class e = RegUNKNOWN then D\<lparr>imm := DECODE_IMM12 Inst AND 0b011111\<rparr>
               else D\<lparr>imm := 0\<rparr>);
          D = D\<lparr>fmt := 0, rm := 0, instSize := 4\<rparr>;
          D = (if opcode D = 0b0101111 then D\<lparr>rl := ucast (DECODE_RL Inst), aq := ucast (DECODE_AQ Inst)\<rparr>
               else D);
          D = (if IsFloat e then D\<lparr>rm := ucast (DECODE_FUNCT3 Inst)\<rparr> else D)
      in D\<lparr>compressed := False\<rparr>)"

definition DecodeIInst :: "RevInst \<Rightarrow> u32 \<Rightarrow> insn RevInstEntry \<Rightarrow> RevInst" where
  "DecodeIInst junk Inst e =
     (let D = junk\<lparr>opcode := e_opcode e, funct3 := e_funct3 e, funct2 := 0, funct7 := 0,
            rd := 0, rs1 := 0, rs2 := 0, rs3 := 0\<rparr>;
          D = (if e_rdClass e \<noteq> RegUNKNOWN then D\<lparr>rd := unat (DECODE_RD Inst)\<rparr> else D);
          D = (if e_rs1Class e \<noteq> RegUNKNOWN then D\<lparr>rs1 := unat (DECODE_RS1 Inst)\<rparr> else D);
          D = D\<lparr>imm := DECODE_IMM12 Inst, fmt := 0, rm := 0, instSize := 4\<rparr>;
          D = (if IsFloat e then D\<lparr>rm := ucast (DECODE_FUNCT3 Inst)\<rparr> else D)
      in D\<lparr>compressed := False\<rparr>)"

definition DecodeSInst :: "RevInst \<Rightarrow> u32 \<Rightarrow> insn RevInstEntry \<Rightarrow> RevInst" where
  "DecodeSInst junk Inst e =
     (let D = junk\<lparr>opcode := e_opcode e, funct3 := e_funct3 e, funct2 := 0, funct7 := 0,
            rd := 0, rs1 := 0, rs2 := 0, rs3 := 0\<rparr>;
          D = (if e_rs1Class e \<noteq> RegUNKNOWN then D\<lparr>rs1 := unat (DECODE_RS1 Inst)\<rparr> else D);
          D = (if e_rs2Class e \<noteq> RegUNKNOWN then D\<lparr>rs2 := unat (DECODE_RS2 Inst)\<rparr> else D);
          D = D\<lparr>imm := DECODE_RD Inst OR push_bit 5 (DECODE_FUNCT7 Inst), fmt := 0, rm := 0, instSize := 4\<rparr>;
          D = (if IsFloat e then D\<lparr>rm := ucast (DECODE_FUNCT3 Inst)\<rparr> else D)
      in D\<lparr>compressed := False\<rparr>)"

definition DecodeUInst :: "RevInst \<Rightarrow> u32 \<Rightarrow> insn RevInstEntry \<Rightarrow> RevInst" where
  "DecodeUInst junk Inst e =
     (let D = junk\<lparr>opcode := e_opcode e, funct3 := 0, funct2 := 0, funct7 := 0,
            rd := 0, rs1 := 0, rs2 := 0, rs3 := 0\<rparr>;
          D = (if e_rdClass e \<noteq> RegUNKNOWN then D\<lparr>rd := unat (DECODE_RD Inst)\<rparr> else D)
      in D\<lparr>imm := DECODE_IMM20 Inst, fmt := 0, rm := 0, instSize := 4, compressed := False\<rparr>)"

definition DecodeBInst :: "RevInst \<Rightarrow> u32 \<Rightarrow> insn RevInstEntry \<Rightarrow> RevInst" where
  "DecodeBInst junk Inst e =
     (let D = junk\<lparr>opcode := e_opcode e, funct3 := e_funct3 e, funct2 := 0, funct7 := 0,
            rd := 0, rs1 := 0, rs2 := 0, rs3 := 0\<rparr>;
          D = (if e_rs1Class e \<noteq> RegUNKNOWN then D\<lparr>rs1 := unat (DECODE_RS1 Inst)\<rparr> else D);
          D = (if e_rs2Class e \<noteq> RegUNKNOWN then D\<lparr>rs2 := unat (DECODE_RS2 Inst)\<rparr> else D)
      in D\<lparr>imm := (push_bit 4 Inst AND 0b100000000000) OR
                  drop_bit 7 (Inst AND 0b111100000000) OR
                  (drop_bit 20 Inst AND 0b11111100000) OR
                  (drop_bit 19 Inst AND 0b1000000000000),
            fmt := 0, rm := 0, instSize := 4, compressed := False\<rparr>)"

definition DecodeJInst :: "RevInst \<Rightarrow> u32 \<Rightarrow> insn RevInstEntry \<Rightarrow> RevInst" where
  "DecodeJInst junk Inst e =
     (let D = junk\<lparr>opcode := e_opcode e, funct3 := e_funct3 e, funct2 := 0, funct7 := 0,
            rd := 0, rs1 := 0, rs2 := 0, rs3 := 0\<rparr>;
          D = (if e_rdClass e \<noteq> RegUNKNOWN then D\<lparr>rd := unat (DECODE_RD Inst)\<rparr> else D)
      in D\<lparr>imm := (drop_bit 20 Inst AND 0b11111111110) OR
                  (Inst AND 0b11111111000000000000) OR
                  (drop_bit 9 Inst AND 0b100000000000) OR
                  (drop_bit 11 Inst AND 0b100000000000000000000),
            fmt := 0, rm := 0, instSize := 4, compressed := False\<rparr>)"

definition DecodeR4Inst :: "RevInst \<Rightarrow> u32 \<Rightarrow> insn RevInstEntry \<Rightarrow> RevInst" where
  "DecodeR4Inst junk Inst e =
     (let D = junk\<lparr>opcode := e_opcode e, funct3 := e_funct3 e, funct2 := ucast (DECODE_FUNCT2 Inst),
            funct7 := e_funct7 e, rd := 0, rs1 := 0, rs2 := 0, rs3 := 0\<rparr>;
          D = (if e_rdClass e \<noteq> RegUNKNOWN then D\<lparr>rd := unat (DECODE_RD Inst)\<rparr> else D);
          D = (if e_rs1Class e \<noteq> RegUNKNOWN then D\<lparr>rs1 := unat (DECODE_RS1 Inst)\<rparr> else D);
          D = (if e_rs2Class e \<noteq> RegUNKNOWN then D\<lparr>rs2 := unat (DECODE_RS2 Inst)\<rparr> else D);
          D = (if e_rs3Class e \<noteq> RegUNKNOWN then D\<lparr>rs3 := unat (DECODE_RS3 Inst)\<rparr> else D)
      in D\<lparr>imm := 0, fmt := 0, rm := 0, instSize := 4, compressed := False\<rparr>)"


section \<open>The compressed formats\<close>

text \<open>
  The 16-bit instruction is promoted to a 32-bit integer before every mask and shift; \<open>w\<close> is the
  promoted value. Masks written in decimal in the source (\<open>1100\<close> for \<open>c.lwsp\<close> and \<open>c.flwsp\<close>) stay
  decimal here.
\<close>

definition DecodeCRInst :: "RevInst \<Rightarrow> u16 \<Rightarrow> insn RevInstEntry \<Rightarrow> RevInst" where
  "DecodeCRInst junk Inst e =
     junk\<lparr>opcode := e_opcode e, funct4 := e_funct4 e, rd := unat (DECODE_RD Inst),
       rs1 := unat (DECODE_RD Inst), rs2 := unat (DECODE_LOWER_CRS2 Inst), imm := 0,
       instSize := 2, compressed := True\<rparr>"

definition DecodeCIInst :: "RevFeature \<Rightarrow> RevInst \<Rightarrow> u16 \<Rightarrow> insn RevInstEntry \<Rightarrow> RevInst" where
  "DecodeCIInst F junk Inst e =
     (let w = (ucast Inst :: u32);
          D = junk\<lparr>opcode := e_opcode e, funct3 := e_funct3 e, rd := unat (DECODE_RD Inst),
                rs1 := unat (DECODE_RD Inst),
                imm := DECODE_LOWER_CRS2 w OR drop_bit 7 (w AND 0b1000000000000)\<rparr>;
          ld_imm = drop_bit 2 (w AND 0b1100000) OR drop_bit 7 (w AND 0b1000000000000) OR
                   push_bit 4 (w AND 0b11100);
          lw_imm = drop_bit 2 (w AND 0b1110000) OR drop_bit 7 (w AND 0b1000000000000) OR
                   push_bit 4 (w AND 1100);
          D = (if opcode D = 0b10 \<and> funct3 D = 0b001 then D\<lparr>imm := ld_imm\<rparr>
               else if opcode D = 0b10 \<and> funct3 D = 0b010 then D\<lparr>imm := lw_imm\<rparr>
               else if opcode D = 0b10 \<and> funct3 D = 0b011 then
                 (if GetXlen F = 64 then D\<lparr>imm := ld_imm\<rparr> else D\<lparr>imm := lw_imm\<rparr>)
               else if opcode D = 0b01 \<and> funct3 D = 0b011 \<and> rd D = 2 then
                 (let i = drop_bit 2 (w AND 0b1000000) OR push_bit 3 (w AND 0b100) OR
                          push_bit 1 (w AND 0b100000) OR push_bit 4 (w AND 0b11000) OR
                          drop_bit 3 (w AND 0b1000000000000)
                  in D\<lparr>imm := (if i AND 0b1000000000 > 0
                              then i OR 0b11111111111111111111111000000000 else i)\<rparr>)
               else if opcode D = 0b01 \<and> funct3 D = 0b011 \<and> rd D \<noteq> 0 \<and> rd D \<noteq> 2 then
                 (let i = push_bit 10 (w AND 0b1111100) OR push_bit 5 (w AND 0b1000000000000);
                      i = (if i AND 0b100000000000000000 > 0
                           then i OR 0b11111111111111000000000000000000 else i)
                  in D\<lparr>imm := drop_bit 12 i\<rparr>)
               else if opcode D = 0b01 \<and> funct3 D = 0b010 \<and> rd D \<noteq> 0 then
                 (let i = drop_bit 2 (w AND 0b1111100) OR drop_bit 7 (w AND 0b1000000000000)
                  in D\<lparr>imm := (if i AND 0b100000 > 0
                              then i OR 0b11111111111111111111111111000000 else i)\<rparr>)
               else if imm D AND 0b100000 > 0 then
                 D\<lparr>imm := imm D OR 0b11111111111111111111111111100000\<rparr>
               else D)
      in D\<lparr>instSize := 2, compressed := True\<rparr>)"

definition DecodeCSSInst :: "RevFeature \<Rightarrow> RevInst \<Rightarrow> u16 \<Rightarrow> insn RevInstEntry \<Rightarrow> RevInst" where
  "DecodeCSSInst F junk Inst e =
     (let w = (ucast Inst :: u32);
          D = junk\<lparr>opcode := e_opcode e, funct3 := e_funct3 e, rs2 := unat (DECODE_LOWER_CRS2 Inst),
                imm := drop_bit 7 (w AND 0b1111110000000)\<rparr>;
          sd_imm = drop_bit 7 (w AND 0b1110000000000) OR drop_bit 1 (w AND 0b1110000000);
          sw_imm = drop_bit 7 (w AND 0b1111000000000) OR drop_bit 1 (w AND 0b110000000);
          D = (if funct3 D = 0b101 then D\<lparr>imm := sd_imm\<rparr>
               else if funct3 D = 0b110 then D\<lparr>imm := sw_imm\<rparr>
               else if funct3 D = 0b111 then
                 (if GetXlen F = 64 then D\<lparr>imm := sd_imm\<rparr> else D\<lparr>imm := sw_imm\<rparr>)
               else D)
      in D\<lparr>instSize := 2, compressed := True\<rparr>)"

text \<open>The swizzles through \<open>std::bitset\<close>: bit \<open>i\<close> of the result is bit \<open>ps ! i\<close> of the operand.\<close>

definition swizzle :: "nat list \<Rightarrow> 'a::len word \<Rightarrow> 'a word" where
  "swizzle ps x = fold (\<lambda>i t. if bit x (ps ! i) then set_bit i t else t) [0..<length ps] 0"

definition DecodeCIWInst :: "RevInst \<Rightarrow> u16 \<Rightarrow> insn RevInstEntry \<Rightarrow> RevInst" where
  "DecodeCIWInst junk Inst e =
     (let w = (ucast Inst :: u32)
      in junk\<lparr>opcode := e_opcode e, funct3 := e_funct3 e, rd := unat (drop_bit 2 (w AND 0b11100)),
           imm := swizzle [1, 0, 6, 7, 2, 3, 4, 5] (drop_bit 5 (w AND 0b1111111100000)),
           instSize := 2, compressed := True\<rparr>)"

definition DecodeCLInst :: "RevFeature \<Rightarrow> RevInst \<Rightarrow> u16 \<Rightarrow> insn RevInstEntry \<Rightarrow> RevInst" where
  "DecodeCLInst F junk Inst e =
     (let w = (ucast Inst :: u32);
          D = junk\<lparr>opcode := e_opcode e, funct3 := e_funct3 e, rd := unat (drop_bit 2 (w AND 0b11100)),
                rs1 := unat (drop_bit 7 (w AND 0b1110000000))\<rparr>;
          d_imm = push_bit 1 (w AND 0b1100000) OR drop_bit 7 (w AND 0b1110000000000);
          w_imm = push_bit 1 (w AND 0b100000) OR drop_bit 4 (w AND 0b1000000) OR
                  drop_bit 7 (w AND 0b1110000000000);
          D = (if funct3 D = 0b001 then D\<lparr>imm := d_imm\<rparr>
               else if funct3 D = 0b010 then D\<lparr>imm := w_imm\<rparr>
               else if funct3 D = 0b011 then
                 (if GetXlen F = 64 then D\<lparr>imm := d_imm\<rparr> else D\<lparr>imm := w_imm\<rparr>)
               else if funct3 D = 0b101 then D\<lparr>imm := d_imm\<rparr>
               else if funct3 D = 0b110 then D\<lparr>imm := w_imm\<rparr>
               else if funct3 D = 0b111 then
                 (if GetXlen F = 64 then D\<lparr>imm := d_imm\<rparr> else D\<lparr>imm := w_imm\<rparr>)
               else D)
      in D\<lparr>instSize := 2, compressed := True\<rparr>)"

text \<open>
  \<open>c.sw\<close> shifts the field \<open>offset[5:3]\<close> by 6, and the second assignment of \<open>c.fsw\<close> overwrites the
  first, as in the source.
\<close>

definition DecodeCSInst :: "RevFeature \<Rightarrow> RevInst \<Rightarrow> u16 \<Rightarrow> insn RevInstEntry \<Rightarrow> RevInst" where
  "DecodeCSInst F junk Inst e =
     (let w = (ucast Inst :: u32);
          D = junk\<lparr>opcode := e_opcode e, funct3 := e_funct3 e, rs2 := unat (drop_bit 2 (w AND 0b011100)),
                rs1 := unat (drop_bit 7 (w AND 0b01110000000))\<rparr>;
          D = (if funct3 D = 0b110 then
                 D\<lparr>imm := push_bit 1 (w AND 0b0100000) OR drop_bit 6 (w AND 0b01110000000000) OR
                         drop_bit 4 (w AND 0b01000000)\<rparr>
               else if GetXlen F = 32 then
                 D\<lparr>imm := push_bit 4 (w AND 0b01000000) OR drop_bit 7 (w AND 0b01110000000000)\<rparr>
               else
                 D\<lparr>imm := push_bit 1 (w AND 0b01100000) OR drop_bit 7 (w AND 0b01110000000000)\<rparr>)
      in D\<lparr>instSize := 2, compressed := True\<rparr>)"

definition DecodeCAInst :: "RevInst \<Rightarrow> u16 \<Rightarrow> insn RevInstEntry \<Rightarrow> RevInst" where
  "DecodeCAInst junk Inst e =
     (let w = (ucast Inst :: u32)
      in junk\<lparr>opcode := e_opcode e, funct2 := e_funct2 e, funct6 := e_funct6 e,
           rs2 := unat (drop_bit 2 (w AND 0b11100)), rs1 := unat (drop_bit 7 (w AND 0b1110000000)),
           rd := unat (drop_bit 7 (w AND 0b1110000000)), instSize := 2, compressed := True\<rparr>)"

definition DecodeCBInst :: "RevInst \<Rightarrow> u16 \<Rightarrow> insn RevInstEntry \<Rightarrow> RevInst" where
  "DecodeCBInst junk Inst e =
     (let w = (ucast Inst :: u32);
          D = junk\<lparr>opcode := e_opcode e, funct3 := e_funct3 e,
                rs1 := unat (drop_bit 7 (w AND 0b1110000000)),
                offset := ucast (drop_bit 2 (w AND 0b1111100)) OR ucast (drop_bit 5 (w AND 0b1110000000000))\<rparr>;
          tmp = (if opcode D = 0b01 \<and> funct3 D \<ge> 0b110 then swizzle [1, 2, 5, 6, 0, 3, 4, 7] (offset D) else 0);
          D = (if \<not> (opcode D = 0b01 \<and> funct3 D \<ge> 0b110) \<and> opcode D = 0b01 \<and> funct3 D = 0b100
               then D\<lparr>rd := rs1 D\<rparr> else D)
      in D\<lparr>offset := push_bit 1 tmp,
           imm := drop_bit 2 (w AND 0b01111100) OR drop_bit 7 (w AND 0b01000000000000),
           instSize := 2, compressed := True\<rparr>)"

definition DecodeCJInst :: "RevInst \<Rightarrow> u16 \<Rightarrow> insn RevInstEntry \<Rightarrow> RevInst" where
  "DecodeCJInst junk Inst e =
     (let off = (ucast (drop_bit 2 ((ucast Inst :: u32) AND 0b1111111111100)) :: u16)
      in junk\<lparr>opcode := e_opcode e, funct3 := e_funct3 e,
           jumpTarget := push_bit 1 (swizzle [1, 2, 3, 9, 0, 5, 4, 7, 8, 6, 10] off),
           instSize := 2, compressed := True\<rparr>)"


section \<open>Finding the table entry\<close>

definition GetPC :: "RevFeature \<Rightarrow> RevRegFile \<Rightarrow> u64" where
  "GetPC F R = (if GetXlen F = 32 then ucast (RV32_PC R) else RV64_PC R)"

definition SetPC :: "RevFeature \<Rightarrow> u64 \<Rightarrow> RevRegFile \<Rightarrow> RevRegFile" where
  "SetPC F PC R = (if GetXlen F = 32 then R\<lparr>RV32_PC := ucast PC\<rparr> else R\<lparr>RV64_PC := PC\<rparr>)"

definition ResetInst :: "RevInst \<Rightarrow> RevInst" where
  "ResetInst I = I\<lparr>opcode := 0, funct2 := 0, funct3 := 0, funct4 := 0, funct6 := 0, funct7 := 0,
     rd := 255, rs1 := 255, rs2 := 255, rs3 := 255, imm := 0, fmt := 0, rm := 0, aq := 0, rl := 0,
     offset := 0, jumpTarget := 0, instSize := 0, compressed := False\<rparr>"

text \<open>
  A coprocessor is an SST subcomponent: it says whether it takes the instruction, and may change the
  registers and the memory.
\<close>

type_synonym coproc = "RevFeature \<Rightarrow> u32 \<Rightarrow> mstate \<Rightarrow> bool \<times> mstate"

text \<open>\<open>Entry > InstTable.size() - 1\<close>, then the assignments common to both decoders.\<close>

definition with_entry ::
  "RevTables \<Rightarrow> u64 \<Rightarrow> nat \<Rightarrow> (insn RevInstEntry \<Rightarrow> RevInst option) \<Rightarrow> mstate \<Rightarrow> (RevInst \<times> mstate) res" where
  "with_entry T PC i dec S =
     (if (of_nat i :: u64) > of_nat (length (InstTable T)) - 1 then Inl (Fatal_NoEntry PC)
      else if \<not> i < length (InstTable T) then Inl UB_OutOfBounds
      else
        let e = InstTable T ! i
        in case dec e of
             None \<Rightarrow> Inl (Fatal_Format PC)
           | Some D \<Rightarrow> Inr (D, updR (\<lambda>R. R\<lparr>Entry := i, trigger := False, rf_cost := e_cost e\<rparr>) S))"

definition decode_cformat :: "RevFeature \<Rightarrow> RevInst \<Rightarrow> u16 \<Rightarrow> insn RevInstEntry \<Rightarrow> RevInst option" where
  "decode_cformat F junk TmpInst e =
     (case e_format e of
        RVCTypeCR \<Rightarrow> Some (DecodeCRInst junk TmpInst e)
      | RVCTypeCI \<Rightarrow> Some (DecodeCIInst F junk TmpInst e)
      | RVCTypeCSS \<Rightarrow> Some (DecodeCSSInst F junk TmpInst e)
      | RVCTypeCIW \<Rightarrow> Some (DecodeCIWInst junk TmpInst e)
      | RVCTypeCL \<Rightarrow> Some (DecodeCLInst F junk TmpInst e)
      | RVCTypeCS \<Rightarrow> Some (DecodeCSInst F junk TmpInst e)
      | RVCTypeCA \<Rightarrow> Some (DecodeCAInst junk TmpInst e)
      | RVCTypeCB \<Rightarrow> Some (DecodeCBInst junk TmpInst e)
      | RVCTypeCJ \<Rightarrow> Some (DecodeCJInst junk TmpInst e)
      | _ \<Rightarrow> None)"

text \<open>The key of a compressed instruction: opcode and function fields, by quadrant.\<close>

definition c_key :: "u16 \<Rightarrow> u32" where
  "c_key TmpInst =
     (let opc = TmpInst AND 0b11;
          l3 = drop_bit 13 (TmpInst AND 0b1110000000000000);
          (f2, f3, f4, f6) =
            (if opc = 0b00 then (0, l3, 0, 0)
             else if opc = 0b01 then
               if l3 \<le> 0b011 then (0, l3, 0, 0)
               else if l3 > 0b011 \<and> l3 < 0b101 then
                 (let opSelect = drop_bit 10 (TmpInst AND 0b110000000000)
                  in if opSelect = 0b11 then
                       (drop_bit 5 (TmpInst AND 0b01100000), 0, 0, drop_bit 10 (TmpInst AND 0b1111110000000000))
                     else (opSelect, l3, 0, 0))
               else (0, l3, 0, 0)
             else if opc = 0b10 then
               if l3 = 0b000 then (0, l3, 0, 0)
               else if l3 < 0b100 then (0, l3, 0, 0)
               else if l3 = 0b100 then (0, 0, drop_bit 12 (TmpInst AND 0b1111000000000000), 0)
               else (0, l3, 0, 0)
             else (0, 0, 0, 0))
      in ucast opc OR push_bit 2 (ucast f2) OR push_bit 4 (ucast f3) OR push_bit 8 (ucast f4) OR
         push_bit 12 (ucast f6))"

text \<open>
  When a coprocessor takes the instruction, \<open>Inst\<close> is set to 0 but the decoder goes on with the
  original \<open>TmpInst\<close>.
\<close>

definition DecodeCompressed ::
  "RevFeature \<Rightarrow> RevTables \<Rightarrow> coproc option \<Rightarrow> RevInst \<Rightarrow> u32 \<Rightarrow> mstate \<Rightarrow> (RevInst \<times> mstate) res" where
  "DecodeCompressed F T coProc junk Inst S =
     (let TmpInst = (ucast (Inst AND 0b1111111111111111) :: u16);
          PC = GetPC F (regs S);
          Enc = c_key TmpInst
      in if \<not> HasCompressed F then Inl (Fatal_CompressedDisabled PC)
         else case CEncToEntry T Enc of
             Some i \<Rightarrow> with_entry T PC i (decode_cformat F junk TmpInst) S
           | None \<Rightarrow>
               (case coProc of
                  None \<Rightarrow> Inl (Fatal_Decode PC Enc)
                | Some cp \<Rightarrow>
                    let (isCoProcInst, S1) = cp F Inst S
                    in if isCoProcInst then
                         (case CEncToEntry T 0b01 of
                            None \<Rightarrow> Inl UB_NullDeref
                          | Some i \<Rightarrow> with_entry T PC i (decode_cformat F junk TmpInst) S1)
                       else Inl (Fatal_Decode PC Enc)))"

text \<open>Stages 2 to 6 of \<open>DecodeInst\<close>: the fields of a 32-bit instruction and its key.\<close>

definition Opcode_of :: "u32 \<Rightarrow> u32" where "Opcode_of Inst = Inst AND 0b1111111"
definition inst42 :: "u32 \<Rightarrow> u32" where "inst42 Inst = drop_bit 2 (Opcode_of Inst AND 0b11100)"
definition inst65 :: "u32 \<Rightarrow> u32" where "inst65 Inst = drop_bit 5 (Opcode_of Inst AND 0b1100000)"

definition Funct3_of :: "u32 \<Rightarrow> u32" where
  "Funct3_of Inst =
     (if inst42 Inst = 0b011 \<and> inst65 Inst = 0b11 then 0
      else if inst42 Inst = 0b101 \<and> inst65 Inst = 0b00 then 0
      else if inst42 Inst = 0b101 \<and> inst65 Inst = 0b01 then 0
      else drop_bit 12 (Inst AND 0b111000000000000))"

definition Funct7_of :: "u32 \<Rightarrow> u32" where
  "Funct7_of Inst =
     (if inst65 Inst = 0b01 then
        if inst42 Inst = 0b011 \<or> inst42 Inst = 0b100 \<or> inst42 Inst = 0b110 then
          (let f7 = drop_bit 25 Inst AND 0b1111111
           in if Opcode_of Inst = 0b0101111 then drop_bit 2 (f7 AND 0b01111100) else f7)
        else 0
      else if inst65 Inst = 0b10 \<and> inst42 Inst = 0b100 then drop_bit 25 Inst AND 0b1111111
      else if inst65 Inst = 0b00 \<and> inst42 Inst = 0b110 \<and> Funct3_of Inst \<noteq> 0 then
        drop_bit 25 Inst AND 0b1111111
      else if inst65 Inst = 0b00 \<and> inst42 Inst = 0b100 \<and> Funct3_of Inst = 0b101 then
        drop_bit 26 Inst AND 0b1111111
      else 0)"

definition fcvtOp_of :: "u32 \<Rightarrow> u32" where
  "fcvtOp_of Inst =
     (if Opcode_of Inst = 0b1010011 \<and> (Funct7_of Inst = 0b1100000 \<or> Funct7_of Inst = 0b1101000)
      then DECODE_RS2 Inst else 0)"

text \<open>The shift by 19 is the source's; the field starts at bit 20.\<close>

definition Imm12_of :: "u32 \<Rightarrow> u32" where
  "Imm12_of Inst =
     (if inst42 Inst = 0b100 \<and> inst65 Inst = 0b11 \<and> Funct3_of Inst = 0
      then drop_bit 19 Inst AND 0b111111111111 else 0)"

definition Enc_of :: "u32 \<Rightarrow> u32" where
  "Enc_of Inst = Opcode_of Inst OR push_bit 8 (Funct3_of Inst) OR push_bit 11 (Funct7_of Inst) OR
     push_bit 18 (Imm12_of Inst) OR push_bit 30 (fcvtOp_of Inst)"

text \<open>The key without \<open>funct3\<close>, tried when that field may be a rounding mode.\<close>

definition Enc_rm_of :: "u32 \<Rightarrow> u32" where
  "Enc_rm_of Inst = Opcode_of Inst OR push_bit 11 (Funct7_of Inst) OR push_bit 18 (Imm12_of Inst) OR
     push_bit 30 (fcvtOp_of Inst)"

definition decode_format :: "RevInst \<Rightarrow> u32 \<Rightarrow> insn RevInstEntry \<Rightarrow> RevInst option" where
  "decode_format junk Inst e =
     (case e_format e of
        RVTypeR \<Rightarrow> Some (DecodeRInst junk Inst e)
      | RVTypeI \<Rightarrow> Some (DecodeIInst junk Inst e)
      | RVTypeS \<Rightarrow> Some (DecodeSInst junk Inst e)
      | RVTypeU \<Rightarrow> Some (DecodeUInst junk Inst e)
      | RVTypeB \<Rightarrow> Some (DecodeBInst junk Inst e)
      | RVTypeJ \<Rightarrow> Some (DecodeJInst junk Inst e)
      | RVTypeR4 \<Rightarrow> Some (DecodeR4Inst junk Inst e)
      | _ \<Rightarrow> None)"

text \<open>Offer the instruction to the coprocessor; if it takes it, a \<open>nop\<close> is decoded in its place.\<close>

definition coproc_or_fail ::
  "RevFeature \<Rightarrow> RevTables \<Rightarrow> coproc option \<Rightarrow> RevInst \<Rightarrow> u32 \<Rightarrow> rev_error \<Rightarrow> mstate \<Rightarrow> (RevInst \<times> mstate) res" where
  "coproc_or_fail F T coProc junk Inst err S =
     (case coProc of
        None \<Rightarrow> Inl err
      | Some cp \<Rightarrow>
          let (isCoProcInst, S1) = cp F Inst S
          in if isCoProcInst then
               (case EncToEntry T 0b0010011 of
                  None \<Rightarrow> Inl UB_NullDeref
                | Some i \<Rightarrow> with_entry T (GetPC F (regs S)) i (decode_format junk 0) S1)
             else Inl err)"

text \<open>
  Stages 2 to 8 of \<open>DecodeInst\<close>, for the instruction word that stage 1 fetched. An entry found in
  the map is always inside the table, so the second call of the coprocessor, for an index past the
  end of the table, is not reached; here it is the error branch of \<open>with_entry\<close>.
\<close>

definition DecodeWord ::
  "RevFeature \<Rightarrow> RevTables \<Rightarrow> coproc option \<Rightarrow> RevInst \<Rightarrow> u32 \<Rightarrow> mstate \<Rightarrow> (RevInst \<times> mstate) res" where
  "DecodeWord F T coProc junk Inst S =
     (let PC = GetPC F (regs S); Enc = Enc_of Inst
      in if Opcode_of Inst AND 0b11 \<noteq> 0b11 then DecodeCompressed F T coProc junk Inst S
         else case EncToEntry T Enc of
             Some i \<Rightarrow> with_entry T PC i (decode_format junk Inst) S
           | None \<Rightarrow>
               if (Funct3_of Inst = 7 \<or> Funct3_of Inst = 1) \<and> inst65 Inst = 0b10 then
                 (case EncToEntry T (Enc_rm_of Inst) of
                    Some i \<Rightarrow> with_entry T PC i (decode_format junk Inst) S
                  | None \<Rightarrow> coproc_or_fail F T coProc junk Inst (Fatal_Decode PC (Enc_rm_of Inst)) S)
               else coproc_or_fail F T coProc junk Inst (Fatal_Decode PC Enc) S)"


section \<open>Execution of a decoded instruction\<close>

text \<open>
  The lookup of the extension by \<open>RegFile->Entry\<close> and the call of \<open>Execute\<close> in \<open>ClockTick\<close>.
\<close>

definition ExecInst :: "RevFeature \<Rightarrow> RevTables \<Rightarrow> u64 \<Rightarrow> RevInst \<Rightarrow> mstate \<Rightarrow> mstate res" where
  "ExecInst F T ExecPC Inst S =
     (case EntryToExt T (Entry (regs S)) of
        None \<Rightarrow> Inl (Fatal_NoExtension ExecPC)
      | Some (k, j) \<Rightarrow>
          if k < length (Extensions T) then Execute (Extensions T ! k) j F Inst S else Inl UB_OutOfBounds)"

end
