(* ===== verification/Rev_Prefetcher.thy ===== *)
theory Rev_Prefetcher
  imports Rev_MemRW Rev_Feature
begin

text \<open>
  The instruction prefetcher (include/RevPrefetcher.h, src/RevPrefetcher.cc): stream buffers of
  \<open>depth\<close> words that are filled from memory when the address of a fetch is in none of them. The
  memory is the one without a controller, so a fill is complete when \<open>Fill\<close> returns.
\<close>

section \<open>State and operations\<close>

definition REVPREF_INIT_ADDR :: u32 where "REVPREF_INIT_ADDR = 0xdeadbeef"

record RevPrefetcher =
  depth :: u32
  baseAddr :: "u64 list"
  iStack :: "u32 list list"
  iHazard :: "bool list list"

definition new_RevPrefetcher :: "u32 \<Rightarrow> RevPrefetcher" where
  "new_RevPrefetcher d = \<lparr>depth = d, baseAddr = [], iStack = [], iHazard = []\<rparr>"

text \<open>The fill loop: the words at \<open>Addr + 4 * y\<close>, where \<open>y * 4\<close> is a 32-bit product.\<close>

fun fill_words :: "u32 \<Rightarrow> u64 \<Rightarrow> nat list \<Rightarrow> RevMem \<Rightarrow> (u32 list \<times> RevMem) res" where
  "fill_words hart Addr [] M = Inr ([], M)"
| "fill_words hart Addr (y # ys) M =
     bind_res (ReadMem hart (Addr + ucast (of_nat y * 4 :: u32)) 4 M) (\<lambda>(bs, M1).
     bind_res (fill_words hart Addr ys M1) (\<lambda>(ws, M2). Inr (le_word bs # ws, M2)))"

definition Fill :: "RevFeature \<Rightarrow> u64 \<Rightarrow> RevPrefetcher \<Rightarrow> RevMem \<Rightarrow> (RevPrefetcher \<times> RevMem) res" where
  "Fill F Addr P M =
     (let A = (if Addr mod 4 \<noteq> 0 then Addr AND 0xFFFFFFFFFFFFFFFC else Addr);
          d = unat (depth P)
      in bind_res (fill_words (GetHart F) A [0..<d] M) (\<lambda>(ws, M').
           Inr (P\<lparr>baseAddr := baseAddr P @ [A], iStack := iStack P @ [ws],
                  iHazard := iHazard P @ [replicate d False]\<rparr>, M')))"

definition DeleteStream :: "nat \<Rightarrow> RevPrefetcher \<Rightarrow> RevPrefetcher res" where
  "DeleteStream i P =
     (if baseAddr P = [] then Inl UB_OutOfBounds
      else if i > length (baseAddr P) - 1 then Inr P
      else Inr (P\<lparr>iStack := take i (iStack P) @ drop (Suc i) (iStack P),
                  iHazard := take i (iHazard P) @ drop (Suc i) (iHazard P),
                  baseAddr := take i (baseAddr P) @ drop (Suc i) (baseAddr P)\<rparr>))"

text \<open>The range test of the three scans, the word offset, and the first stream that is hit.\<close>

definition lastAddr :: "u32 \<Rightarrow> u64 \<Rightarrow> u64" where
  "lastAddr d b = b + ucast (d * 4)"

definition in_stream :: "u32 \<Rightarrow> u64 \<Rightarrow> u64 \<Rightarrow> bool" where
  "in_stream d Addr b = (Addr \<ge> b \<and> Addr < lastAddr d b)"

definition Off :: "u64 \<Rightarrow> u64 \<Rightarrow> u32" where
  "Off Addr b = (if Addr = b then 0 else ucast ((Addr - b) div 4))"

fun find_stream :: "u32 \<Rightarrow> u64 \<Rightarrow> u64 list \<Rightarrow> nat option" where
  "find_stream d Addr [] = None"
| "find_stream d Addr (b # bs) =
     (if in_stream d Addr b then Some 0 else map_option Suc (find_stream d Addr bs))"

text \<open>
  The scan of \<open>FetchUpper\<close>: \<open>Some (ret, w)\<close> when it returns inside the loop (\<open>Fetched\<close> is
  whether \<open>w\<close> is a word), \<open>None\<close> when the loop runs to its end; a stream that holds the address
  at a position that is not a multiple of 4 is passed over.
\<close>

fun upper_scan :: "u32 \<Rightarrow> u64 \<Rightarrow> u64 list \<Rightarrow> u32 list list \<Rightarrow> (bool \<times> u32 option) option" where
  "upper_scan d Addr (b # bs) (s # ss) =
     (if in_stream d Addr b then
        (if Off Addr b > d - 1 then Some (False, None)
         else if s ! unat (Off Addr b) = REVPREF_INIT_ADDR then Some (True, None)
         else if Addr = b + ucast (Off Addr b * 4)
         then Some (True, Some (push_bit 16 (s ! unat (Off Addr b))))
         else upper_scan d Addr bs ss)
      else upper_scan d Addr bs ss)"
| "upper_scan d Addr _ _ = None"

definition FetchUpper :: "RevFeature \<Rightarrow> u64 \<Rightarrow> RevPrefetcher \<Rightarrow> RevMem \<Rightarrow>
    (bool \<times> u32 option \<times> RevPrefetcher \<times> RevMem) res" where
  "FetchUpper F Addr P M =
     (case upper_scan (depth P) Addr (baseAddr P) (iStack P) of
        Some (r, w) \<Rightarrow> Inr (r, w, P, M)
      | None \<Rightarrow> bind_res (Fill F Addr P M) (\<lambda>(P', M'). Inr (True, None, P', M')))"

text \<open>
  \<open>InstFetch\<close> returns its own result, \<open>Fetched\<close> and \<open>Inst\<close>, which keeps the caller's value
  \<open>Inst0\<close> on the paths that do not assign it.
\<close>

definition InstFetch :: "RevFeature \<Rightarrow> u64 \<Rightarrow> u32 \<Rightarrow> RevPrefetcher \<Rightarrow> RevMem \<Rightarrow>
    (bool \<times> bool \<times> u32 \<times> RevPrefetcher \<times> RevMem) res" where
  "InstFetch F Addr Inst0 P M =
     (case find_stream (depth P) Addr (baseAddr P) of
        None \<Rightarrow> bind_res (Fill F Addr P M) (\<lambda>(P', M'). Inr (True, False, Inst0, P', M'))
      | Some i \<Rightarrow>
         (let b = baseAddr P ! i;
              k = Off Addr b;
              w = iStack P ! i ! unat k;
              finish = (\<lambda>Inst P1 M1.
                if k = depth P1 - 1 then
                  bind_res (DeleteStream i P1) (\<lambda>P2.
                  bind_res (Fill F (Addr + 2) P2 M1) (\<lambda>(P3, M2). Inr (True, True, Inst, P3, M2)))
                else Inr (True, True, Inst, P1, M1))
          in if k > depth P - 1 then Inr (False, False, Inst0, P, M)
             else if w = REVPREF_INIT_ADDR then Inr (True, False, Inst0, P, M)
             else if Addr = b + ucast (k * 4) then finish w P M
             else bind_res (FetchUpper F (Addr + 2) P M) (\<lambda>(r, u, P1, M1).
                    if \<not> r then Inr (False, u \<noteq> None, drop_bit 16 w, P1, M1)
                    else case u of
                           None \<Rightarrow> Inr (True, False, drop_bit 16 w, P1, M1)
                         | Some t \<Rightarrow> finish (drop_bit 16 w OR t) P1 M1)))"

definition IsAvail :: "RevFeature \<Rightarrow> u64 \<Rightarrow> RevPrefetcher \<Rightarrow> RevMem \<Rightarrow>
    (bool \<times> RevPrefetcher \<times> RevMem) res" where
  "IsAvail F Addr P M =
     (case find_stream (depth P) Addr (baseAddr P) of
        None \<Rightarrow> bind_res (Fill F Addr P M) (\<lambda>(P', M'). Inr (False, P', M'))
      | Some i \<Rightarrow>
         (let b = baseAddr P ! i; k = Off Addr b
          in if k > depth P - 1 then Inr (False, P, M)
             else if iStack P ! i ! unat k = REVPREF_INIT_ADDR then Inr (False, P, M)
             else if lastAddr (depth P) b - Addr < 4 then
               bind_res (FetchUpper F (Addr + 2) P M) (\<lambda>(r, u, P1, M1).
                 Inr (r \<and> u \<noteq> None, P1, M1))
             else Inr (True, P, M)))"


section \<open>Specification\<close>

text \<open>
  The word of the virtual address space at an address. The streams are coherent when every
  buffered word is the memory's: this is what a program that does not modify its code keeps.
\<close>

definition code_word :: "(u64 \<Rightarrow> u8) \<Rightarrow> u64 \<Rightarrow> u32" where
  "code_word f a = le_word (map (\<lambda>i. f (a + of_nat i)) [0..<4])"

definition stream_ok :: "(u64 \<Rightarrow> u8) \<Rightarrow> u32 \<Rightarrow> u64 \<Rightarrow> u32 list \<Rightarrow> bool" where
  "stream_ok f d b s \<longleftrightarrow> unat b mod 4 = 0 \<and> unat b + 4 * unat d \<le> 2 ^ 50 \<and>
     s = map (\<lambda>y. code_word f (b + of_nat (4 * y))) [0..<unat d]"

definition streams_ok :: "(u64 \<Rightarrow> u8) \<Rightarrow> RevPrefetcher \<Rightarrow> bool" where
  "streams_ok f P \<longleftrightarrow> 0 < unat (depth P) \<and> unat (depth P) \<le> 2 ^ 29 \<and>
     length (iHazard P) = length (baseAddr P) \<and> list_all2 (stream_ok f (depth P)) (baseAddr P) (iStack P)"

text \<open>Room for \<open>k\<close> more accesses, each of which may take two physical pages.\<close>

definition access_room :: "nat \<Rightarrow> RevMem \<Rightarrow> bool" where
  "access_room k M \<longleftrightarrow> unat (nextPage M) + 2 * k + 1 \<le> 2 ^ 14 \<and>
     (unat (nextPage M) + 2 * k) * 2 ^ 18 \<le> unat (memSize M)"

definition valid_window :: "RevMem \<Rightarrow> u64 \<Rightarrow> nat \<Rightarrow> bool" where
  "valid_window M a n \<longleftrightarrow> unat a + n \<le> 2 ^ 50 \<and> (\<forall>i<n. isValidVirtAddr M (a + of_nat i))"

lemma access_room_after:
  "mem_after M M' \<Longrightarrow> access_room (Suc k) M \<Longrightarrow> access_room k M'"
  by (simp add: mem_after_def access_room_def)

lemma valid_window_after: "mem_after M M' \<Longrightarrow> valid_window M' = valid_window M"
  by (simp add: fun_eq_iff mem_after_def valid_window_def)

lemma ok_range_window:
  assumes "valid_window M a n" and "access_room (Suc k) M" and "i + l \<le> n" and "0 < l" "l \<le> 2 ^ 18"
  shows "ok_range M (a + of_nat i) l"
proof -
  have u: "unat (a + of_nat i) = unat a + i"
    using assms(1,3) by (intro unat_add_of_nat) (simp add: valid_window_def)
  have "isValidVirtAddr M (a + of_nat i + of_nat j)" if "j < l" for j
    using assms(1,3) that by (auto simp: valid_window_def add.assoc simp flip: of_nat_add)
  then show ?thesis
    using assms u by (simp add: ok_range_def valid_window_def access_room_def page_room_def)
qed

lemma stream_index: "y < 2 ^ 29 \<Longrightarrow> (ucast (of_nat y * 4 :: u32) :: u64) = of_nat (4 * y)"
proof -
  assume y: "y < 2 ^ 29"
  have "unat (of_nat y * 4 :: u32) = 4 * y" "unat (of_nat (4 * y) :: u64) = 4 * y"
    using y by (simp_all add: unat_word_ariths unsigned_of_nat take_bit_eq_mod)
  then show ?thesis by (intro unat_eqI) (simp add: unat_ucast_u64)
qed

lemma fill_words_spec:
  assumes "vm_inv M" and "valid_window M A n" and "access_room (length ys + k) M"
    and "\<forall>y\<in>set ys. 4 * y + 4 \<le> n \<and> y < 2 ^ 29"
  shows "\<exists>M'. fill_words h A ys M = Inr (map (\<lambda>y. code_word (vbyte M) (A + of_nat (4 * y))) ys, M') \<and>
    vm_inv M' \<and> vbyte M' = vbyte M \<and> valid_window M' = valid_window M \<and> access_room k M'"
  using assms
proof (induction ys arbitrary: M)
  case (Cons y ys)
  let ?a = "A + of_nat (4 * y)"
  have "ok_range M ?a 4"
    using ok_range_window [OF Cons.prems(2), of "length ys + k" "4 * y" 4] Cons.prems(3,4) by simp
  from ReadMem_spec [OF Cons.prems(1) this, of h] obtain M1 where
    r: "ReadMem h ?a 4 M = Inr (map (\<lambda>i. vbyte M (?a + of_nat i)) [0..<4], M1)"
    and M1: "vm_inv M1" "vbyte M1 = vbyte M" "mem_after M M1" by blast
  have "access_room (length ys + k) M1"
    using access_room_after [OF M1(3)] Cons.prems(3) by simp
  with Cons.IH [OF M1(1)] Cons.prems(2,4) valid_window_after [OF M1(3)] obtain M2 where
    "fill_words h A ys M1 = Inr (map (\<lambda>y. code_word (vbyte M1) (A + of_nat (4 * y))) ys, M2)"
    "vm_inv M2 \<and> vbyte M2 = vbyte M1 \<and> valid_window M2 = valid_window M1 \<and> access_room k M2"
    by auto
  moreover have "(ucast (of_nat y * 4 :: u32) :: u64) = of_nat (4 * y)"
    using Cons.prems(4) by (intro stream_index) simp
  ultimately show ?case
    using r M1 valid_window_after [OF M1(3)] by (simp add: code_word_def)
qed simp

definition align4 :: "u64 \<Rightarrow> u64" where
  "align4 a = a AND 0xFFFFFFFFFFFFFFFC"

lemma align4_eq: "align4 a = a - of_nat (unat a mod 4)"
proof -
  have c: "(0xFFFFFFFFFFFFFFFC :: u64) = - 4" by (simp add: eq_neg_iff_add_eq_0)
  have n3: "align4 a = a AND NOT 3" unfolding align4_def c by simp
  have "align4 a + (a AND 3) = align4 a OR (a AND 3)"
    unfolding n3 by (rule disjunctive_add_eq_or) (rule bit_word_eqI, simp add: bit_simps)
  also have "\<dots> = a" unfolding n3 by (rule bit_word_eqI) (auto simp: bit_simps)
  finally have "a = align4 a + (a AND 3)" by simp
  moreover have "unat (a AND 3) = unat a mod 4"
    using take_bit_eq_mask [of 2 "unat a"] take_bit_eq_mod [of 2 "unat a"]
    by (simp add: unsigned_and_eq mask_eq_exp_minus_1)
  then have "a AND 3 = of_nat (unat a mod 4)" by (metis of_nat_unat ucast_id)
  ultimately show ?thesis by (metis add_diff_cancel_right')
qed

lemma unat_align4: "unat (align4 a) = unat a - unat a mod 4"
proof -
  have "unat a mod 4 \<le> unat a" by (rule mod_less_eq_dividend)
  then have "unat (of_nat (unat a mod 4) :: u64) = unat a mod 4"
    by (simp add: unsigned_of_nat take_bit_eq_mod)
  then show ?thesis unfolding align4_eq by (subst unat_sub) (simp_all add: word_le_nat_alt)
qed

lemma align4_aligned: "unat a mod 4 = 0 \<Longrightarrow> align4 a = a"
  by (simp add: align4_eq)

lemma mod4_word: "(a :: u64) mod 4 \<noteq> 0 \<longleftrightarrow> unat a mod 4 \<noteq> 0"
proof -
  have "unat (a mod 4) = unat a mod 4" by (simp add: unat_mod)
  then show ?thesis by (metis unat_eq_0)
qed

lemma Fill_spec:
  assumes inv: "vm_inv M" and ok: "streams_ok (vbyte M) P"
    and win: "valid_window M (align4 a) (4 * unat (depth P))"
    and room: "access_room (unat (depth P) + k) M"
  shows "\<exists>P' M'. Fill F a P M = Inr (P', M') \<and> vm_inv M' \<and> vbyte M' = vbyte M \<and>
    valid_window M' = valid_window M \<and> access_room k M' \<and> streams_ok (vbyte M) P' \<and>
    depth P' = depth P \<and> baseAddr P' = baseAddr P @ [align4 a]"
proof -
  let ?d = "unat (depth P)"
  have d: "0 < ?d" "?d \<le> 2 ^ 29" using ok by (simp_all add: streams_ok_def)
  have A: "(if a mod 4 \<noteq> 0 then a AND 0xFFFFFFFFFFFFFFFC else a) = align4 a"
    using align4_aligned [of a] mod4_word [of a] by (auto simp: align4_def)
  have "\<exists>M'. fill_words (GetHart F) (align4 a) [0..<?d] M =
      Inr (map (\<lambda>y. code_word (vbyte M) (align4 a + of_nat (4 * y))) [0..<?d], M') \<and>
      vm_inv M' \<and> vbyte M' = vbyte M \<and> valid_window M' = valid_window M \<and> access_room k M'"
    using d by (intro fill_words_spec [OF inv win]) (auto simp: room)
  moreover have "unat (align4 a) mod 4 = 0" by (simp add: unat_align4 minus_mod_eq_mult_div)
  ultimately show ?thesis
    using ok win unfolding Fill_def A Let_def
    by (auto simp: streams_ok_def stream_ok_def valid_window_def intro!: list_all2_appendI)
qed

lemma in_stream_iff:
  assumes "stream_ok f d b s" and "unat d \<le> 2 ^ 29"
  shows "in_stream d a b \<longleftrightarrow> unat b \<le> unat a \<and> unat a < unat b + 4 * unat d"
proof -
  have "unat (d * 4) = 4 * unat d" using assms(2) by (simp add: unat_word_ariths)
  then have "unat (lastAddr d b) = unat b + 4 * unat d"
    using assms by (simp add: lastAddr_def stream_ok_def unat_word_ariths unat_ucast_u64)
  then show ?thesis by (simp add: in_stream_def word_le_nat_alt word_less_nat_alt)
qed

lemma in_stream_facts:
  assumes st: "stream_ok f d b s" and d: "0 < unat d" "unat d \<le> 2 ^ 29" and hit: "in_stream d a b"
  shows "unat (Off a b) = (unat a - unat b) div 4" (is ?k)
    and "\<not> Off a b > d - 1" (is ?r)
    and "s ! unat (Off a b) = code_word f (align4 a)" (is ?w)
    and "a = b + ucast (Off a b * 4) \<longleftrightarrow> unat a mod 4 = 0" (is ?e)
proof -
  have h: "unat b \<le> unat a" "unat a < unat b + 4 * unat d"
    using hit in_stream_iff [OF st d(2)] by simp_all
  have sub: "unat (a - b) = unat a - unat b" using h by (simp add: unat_sub word_le_nat_alt)
  let ?j = "unat a - unat b"
  have j: "?j div 4 < unat d" using h by (simp add: less_mult_imp_div_less)
  have "unat ((a - b) div 4) = ?j div 4" by (simp add: unat_div sub)
  then have "unat (ucast ((a - b) div 4) :: u32) = ?j div 4"
    using j d by (simp add: unsigned_ucast_eq take_bit_nat_eq_self_iff)
  then show k: ?k by (auto simp: Off_def)
  have "unat (d - 1) = unat d - 1" using d(1) by (simp add: unat_minus_one unat_gt_0)
  then show ?r using j k by (simp add: word_less_nat_alt)
  have bm: "unat b mod 4 = 0" using st by (simp add: stream_ok_def)
  have aj: "unat a = unat b + ?j" using h by simp
  have am: "unat a mod 4 = ?j mod 4" using bm by (subst aj) (simp add: mod_add_left_eq [symmetric])
  have bb: "unat b + 4 * unat d \<le> 2 ^ 50" using st by (simp add: stream_ok_def)
  have ub: "unat (b + of_nat (4 * (?j div 4))) = unat b + 4 * (?j div 4)"
    using bb j by (intro unat_add_of_nat) simp
  have al: "align4 a = b + of_nat (4 * (?j div 4))"
  proof (rule unat_eqI)
    have "unat a - ?j mod 4 = unat b + (?j - ?j mod 4)"
      by (subst aj) (rule diff_add_assoc, rule mod_less_eq_dividend)
    also have "?j - ?j mod 4 = 4 * (?j div 4)" by (rule minus_mod_eq_mult_div)
    finally show "unat (align4 a) = unat (b + of_nat (4 * (?j div 4)))"
      unfolding ub unat_align4 am .
  qed
  show ?w using st j by (simp add: stream_ok_def k al)
  have "Off a b * 4 = of_nat (?j div 4) * 4" using k by (metis of_nat_unat ucast_id)
  then have "(ucast (Off a b * 4) :: u64) = of_nat (4 * (?j div 4))"
    using j d by (simp only: stream_index)
  then have "a = b + ucast (Off a b * 4) \<longleftrightarrow> a = align4 a" using al by simp
  also have "\<dots> \<longleftrightarrow> unat a mod 4 = 0"
    using unat_align4 [of a] align4_aligned [of a] mod_less_eq_dividend [of "unat a" 4]
    by (metis diff_is_0_eq diff_diff_cancel le_refl)
  finally show ?e .
qed

text \<open>An address is buffered when some stream holds it.\<close>

definition buffered :: "RevPrefetcher \<Rightarrow> u64 \<Rightarrow> bool" where
  "buffered P a \<longleftrightarrow> (\<exists>b\<in>set (baseAddr P). in_stream (depth P) a b)"

lemma find_stream_Some:
  "find_stream d a bs = Some i \<Longrightarrow> i < length bs \<and> in_stream d a (bs ! i)"
  by (induction bs arbitrary: i) (auto split: if_splits)

lemma find_stream_None: "find_stream d a bs = None \<longleftrightarrow> (\<forall>b\<in>set bs. \<not> in_stream d a b)"
  by (induction bs) auto

lemma upper_scan_spec:
  assumes "list_all2 (stream_ok f d) bs ss" and d: "0 < unat d" "unat d \<le> 2 ^ 29"
    and a: "unat a mod 4 = 0"
  shows "upper_scan d a bs ss =
    (if \<exists>b\<in>set bs. in_stream d a b
     then Some (True, if code_word f a = REVPREF_INIT_ADDR then None
                      else Some (push_bit 16 (code_word f a)))
     else None)"
  using assms(1)
proof (induction rule: list_all2_induct)
  case (Cons b bs s ss)
  show ?case
  proof (cases "in_stream d a b")
    case True
    note facts = in_stream_facts [OF Cons(1) d True]
    show ?thesis using True a by (simp add: facts(2,3) facts(4) [symmetric] align4_aligned)
  next
    case False
    then show ?thesis using Cons by simp
  qed
qed simp


section \<open>Fetching\<close>

lemma step16: "(16 + n) div 8 = n div 8 + 2" "(16 + n) mod 8 = n mod 8" for n :: nat
  using mod_mult_self2 [of n 8 2] by (simp_all add: add.commute)

lemma code_word_halves:
  "drop_bit 16 (code_word f a) OR push_bit 16 (code_word f (a + 4)) = code_word f (a + 2)"
proof (rule bit_word_eqI)
  fix n assume "n < LENGTH(32)"
  then have n: "n < 32" by simp
  show "bit (drop_bit 16 (code_word f a) OR push_bit 16 (code_word f (a + 4))) n =
      bit (code_word f (a + 2)) n"
  proof (cases "n < 16")
    case True
    then have "n div 8 + 2 < 4" by (simp add: less_mult_imp_div_less)
    then show ?thesis using True n step16 [of n]
      by (simp add: bit_simps code_word_def bit_le_word add.assoc add.commute)
  next
    case False
    then obtain m where m: "n = 16 + m" using le_Suc_ex by (metis not_less)
    have "m div 8 + 2 < 4" using n m by (simp add: less_mult_imp_div_less)
    then show ?thesis using n m step16 [of m]
      by (simp add: bit_simps code_word_def bit_le_word add.assoc add.commute)
  qed
qed

lemma align4_odd_half:
  assumes "even (unat a)" and "unat a mod 4 \<noteq> 0" and "unat a < 2 ^ 51"
  shows "a = align4 a + 2" and "a + 2 = align4 a + 4" and "unat (a + 2) mod 4 = 0"
    and "align4 (a + 2) = a + 2"
proof -
  have m: "unat a mod 4 = 2" using assms(1,2) by presburger
  show a: "a = align4 a + 2" by (simp add: align4_eq m)
  show "a + 2 = align4 a + 4" by (subst (1) a) simp
  have "unat (a + 2) = unat a + 2" using unat_add_of_nat [of a 2] assms(3) by simp
  then show z: "unat (a + 2) mod 4 = 0" using m by presburger
  show "align4 (a + 2) = a + 2" using z by (rule align4_aligned)
qed

lemma DeleteStream_spec:
  assumes ok: "streams_ok f P" and i: "i < length (baseAddr P)"
  shows "\<exists>P'. DeleteStream i P = Inr P' \<and> streams_ok f P' \<and> depth P' = depth P"
proof -
  have "baseAddr P \<noteq> []" "\<not> i > length (baseAddr P) - 1" using i by auto
  moreover have "length (iStack P) = length (baseAddr P)"
    using ok by (auto simp: streams_ok_def dest: list_all2_lengthD)
  ultimately show ?thesis using ok i
    by (auto simp: DeleteStream_def streams_ok_def intro!: list_all2_appendI list_all2_takeI
        list_all2_dropI)
qed

lemma buffered_fill:
  assumes ok: "streams_ok f P'" and d: "depth P' = depth P"
    and b: "baseAddr P' = baseAddr P @ [align4 a]"
  shows "buffered P' a" and "buffered P x \<Longrightarrow> buffered P' x"
proof -
  obtain ws where st: "stream_ok f (depth P') (align4 a) ws"
    using ok b by (auto simp: streams_ok_def list_all2_append1 list_all2_Cons1)
  have "0 < unat (depth P')" using ok by (simp add: streams_ok_def)
  moreover have "unat a mod 4 < 4" "unat a mod 4 \<le> unat a" by simp_all
  ultimately have "unat a < unat a - unat a mod 4 + 4 * unat (depth P')" by linarith
  then have "in_stream (depth P') a (align4 a)"
    using in_stream_iff [OF st] ok by (simp add: streams_ok_def unat_align4)
  then show "buffered P' a" by (simp add: buffered_def b)
  show "buffered P x \<Longrightarrow> buffered P' x" by (auto simp: buffered_def b d)
qed

lemma FetchUpper_spec:
  assumes "streams_ok f P" and "unat a mod 4 = 0"
  shows "FetchUpper F a P M =
    (if buffered P a
     then Inr (True, if code_word f a = REVPREF_INIT_ADDR then None
                     else Some (push_bit 16 (code_word f a)), P, M)
     else bind_res (Fill F a P M) (\<lambda>(P', M'). Inr (True, None, P', M')))"
  using upper_scan_spec [of f "depth P" "baseAddr P" "iStack P" a] assms
  by (simp add: streams_ok_def FetchUpper_def buffered_def)

text \<open>
  One fetch, given that the code around the address is valid: it succeeds, keeps the streams
  coherent and the address space unchanged, and either fetches the word at the address or
  brings one more stream into the buffer.
\<close>

definition fetch_step_ok :: "u64 \<Rightarrow> nat \<Rightarrow> RevPrefetcher \<Rightarrow> RevMem \<Rightarrow>
    bool \<times> bool \<times> u32 \<times> RevPrefetcher \<times> RevMem \<Rightarrow> bool" where
  "fetch_step_ok a k P M r \<longleftrightarrow> (case r of (ret, fetched, w, P', M') \<Rightarrow>
     ret \<and> vm_inv M' \<and> vbyte M' = vbyte M \<and> valid_window M' = valid_window M \<and> access_room k M' \<and>
     streams_ok (vbyte M) P' \<and> depth P' = depth P \<and> (fetched \<longrightarrow> w = code_word (vbyte M) a))"

definition no_init_words :: "(u64 \<Rightarrow> u8) \<Rightarrow> u64 \<Rightarrow> bool" where
  "no_init_words f a \<longleftrightarrow> code_word f (align4 a) \<noteq> REVPREF_INIT_ADDR \<and>
     code_word f (align4 a + 4) \<noteq> REVPREF_INIT_ADDR"

lemma stream_at:
  assumes ok: "streams_ok f P" and i: "find_stream (depth P) a (baseAddr P) = Some i"
  shows "i < length (baseAddr P)" and "\<not> Off a (baseAddr P ! i) > depth P - 1"
    and "iStack P ! i ! unat (Off a (baseAddr P ! i)) = code_word f (align4 a)"
    and "a = baseAddr P ! i + ucast (Off a (baseAddr P ! i) * 4) \<longleftrightarrow> unat a mod 4 = 0"
proof -
  show il: "i < length (baseAddr P)" using find_stream_Some [OF i] by simp
  have hit: "in_stream (depth P) a (baseAddr P ! i)" using find_stream_Some [OF i] by simp
  have st: "stream_ok f (depth P) (baseAddr P ! i) (iStack P ! i)"
    using ok il by (auto simp: streams_ok_def dest: list_all2_nthD)
  have d: "0 < unat (depth P)" "unat (depth P) \<le> 2 ^ 29" using ok by (simp_all add: streams_ok_def)
  note facts = in_stream_facts [OF st d hit]
  show "\<not> Off a (baseAddr P ! i) > depth P - 1" by (rule facts(2))
  show "iStack P ! i ! unat (Off a (baseAddr P ! i)) = code_word f (align4 a)" by (rule facts(3))
  show "a = baseAddr P ! i + ucast (Off a (baseAddr P ! i) * 4) \<longleftrightarrow> unat a mod 4 = 0"
    by (rule facts(4))
qed

lemma access_room_mono: "access_room k M \<Longrightarrow> j \<le> k \<Longrightarrow> access_room j M"
  by (auto simp: access_room_def intro: le_trans [OF mult_le_mono1])

text \<open>The end of a successful fetch: the last word of a stream gives the stream back.\<close>

lemma fetch_finish:
  assumes inv: "vm_inv M" and ok: "streams_ok (vbyte M) P" and i: "i < length (baseAddr P)"
    and win: "valid_window M (align4 (a + 2)) (4 * unat (depth P))"
    and room: "access_room (unat (depth P) + k) M" and w: "w = code_word (vbyte M) a"
  shows "\<exists>r. (if c then bind_res (DeleteStream i P) (\<lambda>P2.
        bind_res (Fill F (a + 2) P2 M) (\<lambda>(P3, M2). Inr (True, True, w, P3, M2)))
      else Inr (True, True, w, P, M)) = Inr r \<and> fetch_step_ok a k P M r \<and> fst (snd r)"
proof (cases c)
  case True
  obtain P2 where P2: "DeleteStream i P = Inr P2" "streams_ok (vbyte M) P2" "depth P2 = depth P"
    using DeleteStream_spec [OF ok i] by blast
  from Fill_spec [OF inv P2(2), of "a + 2" k F] win room P2(3) obtain P3 M3 where
    "Fill F (a + 2) P2 M = Inr (P3, M3)" "vm_inv M3" "vbyte M3 = vbyte M" "access_room k M3"
    "valid_window M3 = valid_window M" "streams_ok (vbyte M) P3" "depth P3 = depth P"
    by auto
  with True P2 w show ?thesis by (simp add: fetch_step_ok_def)
next
  case False
  then show ?thesis
    using assms access_room_mono [OF room, of k] by (simp add: fetch_step_ok_def)
qed

lemma window_bound: "valid_window M (align4 a) n \<Longrightarrow> unat a < 2 ^ 51"
proof -
  assume "valid_window M (align4 a) n"
  then have "unat (align4 a) \<le> 2 ^ 50" unfolding valid_window_def by linarith
  then have "unat a - unat a mod 4 \<le> 2 ^ 50" by (simp only: unat_align4)
  moreover have "unat a mod 4 < 4" by simp
  ultimately show ?thesis by (simp add: le_diff_conv)
qed

lemma windows:
  assumes "valid_window M (align4 a) (4 * n + 4)" and "even (unat a)"
  shows "valid_window M (align4 a) (4 * n)" and "valid_window M (align4 (a + 2)) (4 * n)"
proof -
  have bnd: "unat (align4 a) + (4 * n + 4) \<le> 2 ^ 50"
    and val: "\<And>i. i < 4 * n + 4 \<Longrightarrow> isValidVirtAddr M (align4 a + of_nat i)"
    using assms(1) by (simp_all add: valid_window_def)
  show w0: "valid_window M (align4 a) (4 * n)"
    using bnd val by (simp add: valid_window_def)
  have ab: "unat a < 2 ^ 51" using assms(1) by (rule window_bound)
  show "valid_window M (align4 (a + 2)) (4 * n)"
  proof (cases "unat a mod 4 = 0")
    case True
    have "unat (a + 2) = unat a + 2" using unat_add_of_nat [of a 2] ab by simp
    moreover have "(unat a + 2) mod 4 = 2" using True by presburger
    ultimately have "unat (align4 (a + 2)) = unat (align4 a)"
      using True by (simp add: unat_align4 del: add_2_eq_Suc')
    then have "align4 (a + 2) = align4 a" by (rule unat_eqI)
    with w0 show ?thesis by simp
  next
    case False
    note al = align4_odd_half [OF assms(2) False ab]
    have "unat (align4 a + 4) = unat (align4 a) + 4"
      using unat_add_of_nat [of "align4 a" 4] bnd by simp
    moreover have "isValidVirtAddr M (align4 a + 4 + of_nat i)" if "i < 4 * n" for i
      using val [of "4 + i"] that by (simp add: add.assoc)
    ultimately show ?thesis
      using bnd unfolding al(4) unfolding al(2) valid_window_def by simp
  qed
qed

lemma InstFetch_step:
  assumes inv: "vm_inv M" and ok: "streams_ok (vbyte M) P" and ev: "even (unat a)"
    and win: "valid_window M (align4 a) (4 * unat (depth P) + 4)"
    and room: "access_room (unat (depth P) + k) M"
  shows "\<exists>r. InstFetch F a I P M = Inr r \<and> fetch_step_ok a k P M r \<and>
    (no_init_words (vbyte M) a \<longrightarrow> fst (snd r) \<or>
      (\<not> buffered P a \<and> buffered (fst (snd (snd (snd r)))) a) \<or>
      (\<not> buffered P (a + 2) \<and> buffered (fst (snd (snd (snd r)))) a \<and>
         buffered (fst (snd (snd (snd r)))) (a + 2)))"
proof (cases "find_stream (depth P) a (baseAddr P)")
  case None
  note w = windows [OF win ev]
  from Fill_spec [OF inv ok w(1) room, of F] obtain P' M' where
    f: "Fill F a P M = Inr (P', M')" and
    r: "vm_inv M' \<and> vbyte M' = vbyte M \<and> valid_window M' = valid_window M \<and> access_room k M' \<and>
      streams_ok (vbyte M) P' \<and> depth P' = depth P" and b: "baseAddr P' = baseAddr P @ [align4 a]"
    by blast
  have "buffered P' a" using buffered_fill(1) [of "vbyte M" P' P a] r b by blast
  moreover have "\<not> buffered P a" using None by (simp add: find_stream_None buffered_def)
  ultimately show ?thesis using f r None by (simp add: InstFetch_def fetch_step_ok_def)
next
  case (Some i)
  note w = windows [OF win ev]
  note at = stream_at [OF ok Some]
  let ?k = "Off a (baseAddr P ! i)"
  have ba: "buffered P a" using find_stream_Some [OF Some] by (auto simp: buffered_def)
  have room': "access_room k M" using access_room_mono [OF room] by simp
  have stall: "fetch_step_ok a k P M (True, False, j, P, M)" for j
    using inv ok room' by (simp add: fetch_step_ok_def)
  note fin = fetch_finish [OF inv ok at(1) w(2) room]
  show ?thesis
  proof (cases "code_word (vbyte M) (align4 a) = REVPREF_INIT_ADDR")
    case True
    then show ?thesis using Some at(2,3) stall [of I]
      by (simp add: InstFetch_def Let_def no_init_words_def)
  next
    case word: False
    show ?thesis
    proof (cases "unat a mod 4 = 0")
      case True
      have eq: "InstFetch F a I P M =
          (if ?k = depth P - 1 then bind_res (DeleteStream i P) (\<lambda>P2. bind_res (Fill F (a + 2) P2 M)
             (\<lambda>(P3, M2). Inr (True, True, code_word (vbyte M) a, P3, M2)))
           else Inr (True, True, code_word (vbyte M) a, P, M))"
        unfolding InstFetch_def Some option.case Let_def at(3) align4_aligned [OF True]
        using word by (simp add: align4_aligned [OF True] at(2,4) True)
      obtain r where "InstFetch F a I P M = Inr r" "fetch_step_ok a k P M r" "fst (snd r)"
        using fin [OF refl, of "?k = depth P - 1" F] unfolding eq by blast
      then show ?thesis by (intro exI [of _ r]) simp
    next
      case half: False
      note al = align4_odd_half [OF ev half window_bound [OF win]]
      have eq: "InstFetch F a I P M =
          bind_res (FetchUpper F (a + 2) P M) (\<lambda>(r, u, P1, M1).
            if \<not> r then Inr (False, u \<noteq> None, drop_bit 16 (code_word (vbyte M) (align4 a)), P1, M1)
            else case u of
              None \<Rightarrow> Inr (True, False, drop_bit 16 (code_word (vbyte M) (align4 a)), P1, M1)
            | Some t \<Rightarrow> if ?k = depth P1 - 1 then
                bind_res (DeleteStream i P1) (\<lambda>P2. bind_res (Fill F (a + 2) P2 M1)
                  (\<lambda>(P3, M2). Inr (True, True, drop_bit 16 (code_word (vbyte M) (align4 a)) OR t, P3, M2)))
              else Inr (True, True, drop_bit 16 (code_word (vbyte M) (align4 a)) OR t, P1, M1))"
        unfolding InstFetch_def Some option.case Let_def at(3)
        using word by (simp add: at(2,4) half)
      have halves: "code_word (vbyte M) a =
          drop_bit 16 (code_word (vbyte M) (align4 a)) OR push_bit 16 (code_word (vbyte M) (align4 a + 4))"
        by (subst al(1)) (simp add: code_word_halves)
      note up = FetchUpper_spec [OF ok al(3), of F M, unfolded al(2)]
      show ?thesis
      proof (cases "buffered P (a + 2)")
        case True
        show ?thesis
        proof (cases "code_word (vbyte M) (align4 a + 4) = REVPREF_INIT_ADDR")
          case True
          then show ?thesis using eq up \<open>buffered P (a + 2)\<close> al(2) stall
            by (simp add: no_init_words_def)
        next
          case False
          have eq': "InstFetch F a I P M =
              (if ?k = depth P - 1 then bind_res (DeleteStream i P) (\<lambda>P2.
                 bind_res (Fill F (a + 2) P2 M)
                   (\<lambda>(P3, M2). Inr (True, True, code_word (vbyte M) a, P3, M2)))
               else Inr (True, True, code_word (vbyte M) a, P, M))"
            unfolding eq halves using up True False by (simp add: al(2))
          obtain r where "InstFetch F a I P M = Inr r" "fetch_step_ok a k P M r" "fst (snd r)"
            using fin [OF refl, of "?k = depth P - 1" F] unfolding eq' by blast
          then show ?thesis by (intro exI [of _ r]) simp
        qed
      next
        case False
        have w2: "valid_window M (align4 (align4 a + 4)) (4 * unat (depth P))"
          using w(2) al(2) by simp
        from Fill_spec [OF inv ok w2 room, of F] obtain P' M' where
          f: "Fill F (align4 a + 4) P M = Inr (P', M')" and
          r: "vm_inv M' \<and> vbyte M' = vbyte M \<and> valid_window M' = valid_window M \<and> access_room k M' \<and>
            streams_ok (vbyte M) P' \<and> depth P' = depth P"
          and b: "baseAddr P' = baseAddr P @ [align4 (a + 2)]"
          using al(2) by metis
        have "buffered P' (a + 2)" "buffered P' a"
          using buffered_fill [of "vbyte M" P' P "a + 2"] r b ba by blast+
        moreover have "InstFetch F a I P M =
            Inr (True, False, drop_bit 16 (code_word (vbyte M) (align4 a)), P', M')"
          unfolding eq using up False f by (simp add: al(2))
        ultimately show ?thesis using False r by (simp add: fetch_step_ok_def)
      qed
    qed
  qed
qed


section \<open>Properties\<close>


text \<open>The processor repeats a fetch in every cycle until it succeeds.\<close>

fun fetch_loop :: "nat \<Rightarrow> RevFeature \<Rightarrow> u64 \<Rightarrow> RevPrefetcher \<Rightarrow> RevMem \<Rightarrow> (u32 \<times> RevPrefetcher \<times> RevMem) option"
where
  "fetch_loop 0 F a P M = None"
| "fetch_loop (Suc n) F a P M =
     (case InstFetch F a 0 P M of
        Inr (True, True, w, P', M') \<Rightarrow> Some (w, P', M')
      | Inr (True, False, w, P', M') \<Rightarrow> fetch_loop n F a P' M'
      | _ \<Rightarrow> None)"

text \<open>How many streams the fetch still needs.\<close>

definition missing :: "RevPrefetcher \<Rightarrow> u64 \<Rightarrow> nat" where
  "missing P a = of_bool (\<not> buffered P a) + of_bool (\<not> (buffered P a \<and> buffered P (a + 2)))"

lemma fetch_loop_step:
  assumes "vm_inv M" and "streams_ok (vbyte M) P" and "even (unat a)"
    and "valid_window M (align4 a) (4 * unat (depth P) + 4)"
    and "no_init_words (vbyte M) a" and "access_room (n * unat (depth P)) M" and "missing P a < n"
  shows "\<exists>P' M'. fetch_loop n F a P M = Some (code_word (vbyte M) a, P', M') \<and> vbyte M' = vbyte M"
  using assms
proof (induction n arbitrary: P M)
  case (Suc n)
  have "access_room (unat (depth P) + n * unat (depth P)) M" using Suc.prems(6) by simp
  from InstFetch_step [OF Suc.prems(1-4) this, of F 0] obtain fetched w P' M' where
    r: "InstFetch F a 0 P M = Inr (True, fetched, w, P', M')"
    and ok: "vm_inv M'" "vbyte M' = vbyte M" "valid_window M' = valid_window M"
      "access_room (n * unat (depth P)) M'" "streams_ok (vbyte M) P'" "depth P' = depth P"
      "fetched \<longrightarrow> w = code_word (vbyte M) a"
    and prog: "fetched \<or> (\<not> buffered P a \<and> buffered P' a) \<or>
      (\<not> buffered P (a + 2) \<and> buffered P' a \<and> buffered P' (a + 2))"
    using Suc.prems(5) by (auto simp: fetch_step_ok_def)
  show ?case
  proof (cases fetched)
    case True
    then show ?thesis using r ok by simp
  next
    case False
    have "missing P' a < n" using prog False Suc.prems(7) by (auto simp: missing_def split: if_splits)
    with Suc.IH [of M' P'] Suc.prems ok r False show ?thesis by simp
  qed
qed simp

text \<open>
  C36. Progress of the fetch: at an even address, when the memory a stream buffer is filled from is valid and neither of the two
  memory words around the address is the marker value \<open>0xdeadbeef\<close>, at most three attempts deliver the word at the address.
  (A fetch of the marker value never ends.)
\<close>

theorem InstFetch_progress:
  assumes "vm_inv M" and "streams_ok (vbyte M) P" and "even (unat a)"
    and "valid_window M (align4 a) (4 * unat (depth P) + 4)"
    and "no_init_words (vbyte M) a" and "access_room (3 * unat (depth P)) M"
  shows "\<exists>P' M'. fetch_loop 3 F a P M = Some (code_word (vbyte M) a, P', M') \<and> vbyte M' = vbyte M"
proof -
  have "missing P a < 3" by (simp add: missing_def)
  from fetch_loop_step [OF assms this] show ?thesis .
qed

text \<open>A word equal to the marker is never delivered: the fetch stalls for ever.\<close>

lemma InstFetch_init_word_stalls:
  assumes "streams_ok f P" and "find_stream (depth P) a (baseAddr P) = Some i"
    and "code_word f (align4 a) = REVPREF_INIT_ADDR"
  shows "InstFetch F a I P M = Inr (True, False, I, P, M)"
  using stream_at [OF assms(1,2)] assms(2,3) by (simp add: InstFetch_def Let_def)

lemma streams_ok_new: "0 < unat d \<Longrightarrow> unat d \<le> 2 ^ 29 \<Longrightarrow> streams_ok f (new_RevPrefetcher d)"
  by (simp add: streams_ok_def new_RevPrefetcher_def)

lemma demo_window: "valid_window demo_mem (align4 0x37FFFE) 12"
proof -
  have a: "align4 0x37FFFE = 0x37FFFC" by (simp add: align4_def)
  have "isValidVirtAddr demo_mem (0x37FFFC + of_nat i)" if "i < 12" for i
  proof -
    have "unat (0x37FFFC + of_nat i :: u64) = 0x37FFFC + i"
      using unat_add_of_nat [of "0x37FFFC" i] that by simp
    then show ?thesis using that
      by (simp add: isValidVirtAddr_new STACK_SIZE_def word_le_nat_alt word_less_nat_alt)
  qed
  then show ?thesis by (simp add: valid_window_def a)
qed

lemma vbyte_demo: "vbyte demo_mem = (\<lambda>_. 0)"
  by (simp add: fun_eq_iff vbyte_def translate_def) (simp add: new_RevMem_def)

lemma code_word_zero: "code_word (\<lambda>_. 0) a = 0"
  by (simp add: code_word_def upt_rec)

lemma demo_room: "access_room 7 demo_mem"
  by (simp add: access_room_def new_RevMem_def)

abbreviation demo_RV64I :: RevFeature where
  "demo_RV64I \<equiv> \<lparr>machine = ''RV64I'', MinCost = 0, MaxCost = 1, Hart = 0, features = 1, xlen = 64\<rparr>"


theorem InstFetch_progress_witness:
  "\<exists>P' M'. fetch_loop 3 demo_RV64I 0x37FFFE (new_RevPrefetcher 2) demo_mem = Some (0, P', M')"
proof -
  have "vm_inv demo_mem" by (rule vm_inv_new) simp
  moreover have "streams_ok (vbyte demo_mem) (new_RevPrefetcher 2)" by (rule streams_ok_new) simp_all
  moreover have "even (unat (0x37FFFE :: u64))" by simp
  moreover have "valid_window demo_mem (align4 0x37FFFE) (4 * unat (depth (new_RevPrefetcher 2)) + 4)"
    using demo_window by (simp add: new_RevPrefetcher_def)
  moreover have "no_init_words (vbyte demo_mem) 0x37FFFE"
    by (simp add: no_init_words_def vbyte_demo code_word_zero REVPREF_INIT_ADDR_def)
  moreover have "access_room (3 * unat (depth (new_RevPrefetcher 2))) demo_mem"
    using access_room_mono [OF demo_room] by (simp add: new_RevPrefetcher_def)
  ultimately have "\<exists>P' M'. fetch_loop 3 demo_RV64I 0x37FFFE (new_RevPrefetcher 2) demo_mem =
      Some (code_word (vbyte demo_mem) 0x37FFFE, P', M') \<and> vbyte M' = vbyte demo_mem"
    by (rule InstFetch_progress)
  then show ?thesis by (auto simp: vbyte_demo code_word_zero)
qed

end
