(* ===== verification/Rev_PanExec.thy ===== *)
theory Rev_PanExec
  imports Rev_Prelude
begin

text \<open>
  The PAN execution queue (include/PanExec.h, src/PanExec.cc): a bounded queue of start
  addresses, numbered by a cyclic counter and handed out in the order of insertion. The queue
  is a state machine; its invariant is proved by induction over its steps.
\<close>

section \<open>State and operations\<close>

datatype PanStatus = QExec | QValid | QNull | QError

record PanExec =
  CurEntry :: u32
  ExecQueue :: "(u32 \<times> PanStatus \<times> u64) list"

definition PANEXEC_MAX_ENTRY :: nat where "PANEXEC_MAX_ENTRY = 64"

definition new_PanExec :: PanExec where
  "new_PanExec = \<lparr>CurEntry = 0, ExecQueue = []\<rparr>"

definition GetNewEntry :: "PanExec \<Rightarrow> u32 \<times> PanExec" where
  "GetNewEntry Q =
     (let c = CurEntry Q + 1; c' = (if c \<ge> of_nat PANEXEC_MAX_ENTRY then 0 else c)
      in (c', Q\<lparr>CurEntry := c'\<rparr>))"

text \<open>The index is \<open>Some\<close> exactly when the source writes \<open>*Idx\<close>.\<close>

definition AddEntry :: "u64 \<Rightarrow> PanExec \<Rightarrow> bool \<times> u32 option \<times> PanExec" where
  "AddEntry Addr Q =
     (if length (ExecQueue Q) = PANEXEC_MAX_ENTRY then (False, None, Q)
      else let (e, Q1) = GetNewEntry Q
           in (True, Some e, Q1\<lparr>ExecQueue := ExecQueue Q1 @ [(e, QValid, Addr)]\<rparr>))"

fun erase_idx :: "u32 \<Rightarrow> (u32 \<times> PanStatus \<times> u64) list \<Rightarrow> (u32 \<times> PanStatus \<times> u64) list option" where
  "erase_idx i [] = None"
| "erase_idx i (e # es) =
     (if i = fst e then Some es else map_option (\<lambda>es'. e # es') (erase_idx i es))"

definition RemoveEntry :: "u32 \<Rightarrow> PanExec \<Rightarrow> bool \<times> PanExec" where
  "RemoveEntry Idx Q =
     (case erase_idx Idx (ExecQueue Q) of
        None \<Rightarrow> (False, Q)
      | Some es \<Rightarrow> (True, Q\<lparr>ExecQueue := es\<rparr>))"

fun status_of :: "u32 \<Rightarrow> (u32 \<times> PanStatus \<times> u64) list \<Rightarrow> PanStatus" where
  "status_of i [] = QError"
| "status_of i (e # es) = (if i = fst e then fst (snd e) else status_of i es)"

definition StatusEntry :: "u32 \<Rightarrow> PanExec \<Rightarrow> PanStatus" where
  "StatusEntry Idx Q = status_of Idx (ExecQueue Q)"

fun take_valid :: "(u32 \<times> PanStatus \<times> u64) list \<Rightarrow>
    ((u32 \<times> u64) \<times> (u32 \<times> PanStatus \<times> u64) list) option" where
  "take_valid [] = None"
| "take_valid ((i, st, a) # es) =
     (if st = QValid then Some ((i, a), (i, QExec, a) # es)
      else map_option (\<lambda>(r, es'). (r, (i, st, a) # es')) (take_valid es))"

definition GetNextEntry :: "PanExec \<Rightarrow> PanStatus \<times> (u32 \<times> u64) option \<times> PanExec" where
  "GetNextEntry Q =
     (if ExecQueue Q = [] then (QNull, None, Q)
      else case take_valid (ExecQueue Q) of
             Some (r, es) \<Rightarrow> (QExec, Some r, Q\<lparr>ExecQueue := es\<rparr>)
           | None \<Rightarrow> (QError, None, Q))"


section \<open>The queue as a state machine\<close>

text \<open>
  The steps of a client that removes an entry only when it is the oldest one, in any order with
  the other operations.
\<close>

inductive pan_step :: "PanExec \<Rightarrow> PanExec \<Rightarrow> bool" where
  add: "AddEntry a Q = (r, i, Q') \<Longrightarrow> pan_step Q Q'"
| get_next: "GetNextEntry Q = (st, r, Q') \<Longrightarrow> pan_step Q Q'"
| remove: "ExecQueue Q = (i, st, a) # es \<Longrightarrow> RemoveEntry i Q = (r, Q') \<Longrightarrow> pan_step Q Q'"

inductive_cases pan_stepE: "pan_step Q Q'"

inductive pan_reach :: "PanExec \<Rightarrow> bool" where
  init: "pan_reach new_PanExec"
| step: "pan_reach Q \<Longrightarrow> pan_step Q Q' \<Longrightarrow> pan_reach Q'"

text \<open>
  The invariant: the indices in the queue are the last values of the cyclic counter, in the
  order in which it took them.
\<close>

definition window_idx :: "nat \<Rightarrow> nat \<Rightarrow> nat \<Rightarrow> u32" where
  "window_idx c n k = of_nat ((c + 64 - (n - 1 - k)) mod 64)"

definition pan_inv :: "PanExec \<Rightarrow> bool" where
  "pan_inv Q \<longleftrightarrow> unat (CurEntry Q) < 64 \<and> length (ExecQueue Q) \<le> 64 \<and>
     map fst (ExecQueue Q) =
       map (window_idx (unat (CurEntry Q)) (length (ExecQueue Q))) [0..<length (ExecQueue Q)]"

lemma unat_window_idx: "unat (window_idx c n k) = (c + 64 - (n - 1 - k)) mod 64"
proof -
  have "(c + 64 - (n - 1 - k)) mod 64 < 64" by simp
  then show ?thesis
    unfolding window_idx_def by (simp add: unsigned_of_nat take_bit_eq_mod)
qed

lemma unat_GetNewEntry:
  assumes "unat (CurEntry Q) < 64"
  shows "unat (fst (GetNewEntry Q)) = (unat (CurEntry Q) + 1) mod 64"
proof -
  have u: "unat (CurEntry Q + 1) = unat (CurEntry Q) + 1"
    using assms by (simp add: unat_word_ariths)
  show ?thesis
  proof (cases "unat (CurEntry Q) = 63")
    case True
    then have "CurEntry Q + 1 \<ge> 64" using u by (simp add: word_le_nat_alt)
    then show ?thesis using True by (simp add: GetNewEntry_def PANEXEC_MAX_ENTRY_def Let_def)
  next
    case False
    then have "\<not> CurEntry Q + 1 \<ge> 64" using u assms by (simp add: word_le_nat_alt)
    then show ?thesis using False u assms
      by (simp add: GetNewEntry_def PANEXEC_MAX_ENTRY_def Let_def)
  qed
qed

lemma GetNewEntry_queue:
  "GetNewEntry Q = (e, Q') \<Longrightarrow> ExecQueue Q' = ExecQueue Q \<and> CurEntry Q' = e"
  by (auto simp: GetNewEntry_def Let_def)

lemma take_valid_idx: "take_valid es = Some (r, es') \<Longrightarrow> map fst es' = map fst es"
  by (induction es arbitrary: es' rule: take_valid.induct) (auto split: if_splits)

lemma cyclic_pred:
  assumes "x < 63" and "c < 64"
  shows "((c + 1) mod 64 + 64 - Suc x) mod 64 = (c + 64 - x) mod (64 :: nat)"
proof (cases "c = 63")
  case True
  have "127 - x = (63 - x) + 64" using assms(1) by simp
  then have "(127 - x) mod 64 = (63 - x) mod 64" by (simp only: mod_add_self2)
  then show ?thesis using True assms(1) by simp
next
  case False
  then show ?thesis using assms(2) by (simp add: add.commute)
qed

lemma window_idx_shift:
  assumes "k < n" and "n < 64" and "c < 64"
  shows "window_idx ((c + 1) mod 64) (Suc n) k = window_idx c n k"
proof -
  have s: "Suc n - 1 - k = Suc (n - 1 - k)" "n - 1 - k < 63" using assms by auto
  show ?thesis unfolding window_idx_def s(1) cyclic_pred [OF s(2) assms(3)] ..
qed

lemma pan_inv_add:
  assumes "pan_inv Q" and "AddEntry a Q = (r, i, Q')"
  shows "pan_inv Q'"
proof (cases "length (ExecQueue Q) = 64")
  case True
  then show ?thesis using assms by (simp add: AddEntry_def PANEXEC_MAX_ENTRY_def)
next
  case False
  let ?n = "length (ExecQueue Q)" and ?c = "unat (CurEntry Q)"
  have inv: "?c < 64" "?n < 64"
    "map fst (ExecQueue Q) = map (window_idx ?c ?n) [0..<?n]"
    using assms(1) False by (simp_all add: pan_inv_def)
  obtain e Q1 where g: "GetNewEntry Q = (e, Q1)" by (cases "GetNewEntry Q")
  note q1 = GetNewEntry_queue [OF g]
  have Q': "Q' = Q1\<lparr>ExecQueue := ExecQueue Q @ [(e, QValid, a)]\<rparr>"
    using assms(2) False g q1 by (simp add: AddEntry_def PANEXEC_MAX_ENTRY_def)
  have e: "unat e = (?c + 1) mod 64" using unat_GetNewEntry [OF inv(1)] g by simp
  have last: "window_idx ((?c + 1) mod 64) (Suc ?n) ?n = e"
    using e by (intro unat_eqI) (simp add: unat_window_idx)
  have "map (window_idx ((?c + 1) mod 64) (Suc ?n)) [0..<?n] = map fst (ExecQueue Q)"
    unfolding inv(3) using window_idx_shift inv(1,2) by (intro map_cong) auto
  then show ?thesis
    using inv(2) e q1 last by (simp add: pan_inv_def Q')
qed

lemma pan_inv_remove_oldest:
  assumes "pan_inv Q" and "ExecQueue Q = (i, st, a) # es" and "RemoveEntry i Q = (r, Q')"
  shows "pan_inv Q'"
proof -
  let ?n = "length es" and ?c = "unat (CurEntry Q)"
  have Q': "Q' = Q\<lparr>ExecQueue := es\<rparr>" using assms(2,3) by (simp add: RemoveEntry_def)
  have "i # map fst es = map (window_idx ?c (Suc ?n)) [0..<Suc ?n]"
    using assms(1,2) by (simp add: pan_inv_def del: upt_Suc)
  then have "map fst es = map (window_idx ?c (Suc ?n)) (map Suc [0..<?n])"
    by (simp add: upt_conv_Cons map_Suc_upt del: upt_Suc)
  then show ?thesis using assms(1,2) by (simp add: pan_inv_def Q' window_idx_def)
qed

lemma pan_inv_get_next:
  assumes "pan_inv Q" and "GetNextEntry Q = (st, r, Q')"
  shows "pan_inv Q'"
proof (cases "ExecQueue Q = [] \<or> take_valid (ExecQueue Q) = None")
  case True
  then show ?thesis using assms by (auto simp: GetNextEntry_def split: if_splits)
next
  case False
  then obtain e es where tv: "take_valid (ExecQueue Q) = Some (e, es)" by auto
  have same: "map fst es = map fst (ExecQueue Q)" by (rule take_valid_idx [OF tv])
  then have "length es = length (ExecQueue Q)" by (metis length_map)
  moreover have "Q' = Q\<lparr>ExecQueue := es\<rparr>" using assms(2) False tv by (simp add: GetNextEntry_def)
  ultimately show ?thesis using assms(1) same by (simp add: pan_inv_def)
qed

lemma pan_inv_step: "pan_step Q Q' \<Longrightarrow> pan_inv Q \<Longrightarrow> pan_inv Q'"
  by (erule pan_stepE) (blast intro: pan_inv_add pan_inv_get_next pan_inv_remove_oldest)+

lemma pan_inv_reach: "pan_reach Q \<Longrightarrow> pan_inv Q"
proof (induction rule: pan_reach.induct)
  case init
  show ?case by (simp add: new_PanExec_def pan_inv_def)
next
  case (step Q Q')
  then show ?case by (blast intro: pan_inv_step)
qed

lemma window_inj:
  assumes "c < 64" and "n \<le> 64"
  shows "inj_on (window_idx c n) {0..<n}"
proof (rule inj_onI)
  fix j k assume jk: "j \<in> {0..<n}" "k \<in> {0..<n}" and eq: "window_idx c n j = window_idx c n k"
  define x y where "x = n - 1 - j" and "y = n - 1 - k"
  have xy: "x < 64" "y < 64" using jk assms(2) by (auto simp: x_def y_def)
  have "(c + 64 - x) mod 64 = (c + 64 - y) mod 64"
    using arg_cong [OF eq, of unat] by (simp add: unat_window_idx x_def y_def)
  moreover have "c + 64 - z = (if z \<le> c then (c - z) + 64 else c + 64 - z)" for z by auto
  ultimately have "x = y"
    using xy assms(1) by (auto simp: mod_if split: if_splits)
  then show "j = k" using jk by (auto simp: x_def y_def)
qed

lemma pan_inv_distinct: "pan_inv Q \<Longrightarrow> distinct (map fst (ExecQueue Q))"
  using window_inj by (simp add: pan_inv_def distinct_map)

lemma status_of_entry: "distinct (map fst es) \<Longrightarrow> (i, st, a) \<in> set es \<Longrightarrow> status_of i es = st"
  by (induction es) force+

text \<open>
  C37. In every reachable state of the queue, when finished entries are removed oldest first, there
  are at most 64 entries, their indices are below 64 and pairwise distinct, and \<open>StatusEntry\<close>
  reports the status of the entry with the given index.
\<close>

theorem PanExec_reachable:
  assumes "pan_reach Q"
  shows "length (ExecQueue Q) \<le> PANEXEC_MAX_ENTRY \<and> unat (CurEntry Q) < PANEXEC_MAX_ENTRY \<and>
    distinct (map fst (ExecQueue Q)) \<and>
    (\<forall>(i, st, a)\<in>set (ExecQueue Q). unat i < PANEXEC_MAX_ENTRY \<and> StatusEntry i Q = st)"
proof -
  note inv = pan_inv_reach [OF assms]
  have "unat i < 64" if "(i, st, a) \<in> set (ExecQueue Q)" for i st a
  proof -
    have "i \<in> fst ` set (ExecQueue Q)" using that by force
    also have "\<dots> = set (map fst (ExecQueue Q))" by simp
    finally show ?thesis using inv unfolding pan_inv_def by (auto simp: unat_window_idx)
  qed
  then show ?thesis
    using inv pan_inv_distinct [OF inv] status_of_entry [OF pan_inv_distinct [OF inv]]
    by (auto simp: pan_inv_def PANEXEC_MAX_ENTRY_def StatusEntry_def)
qed

theorem PanExec_reachable_witness:
  "ExecQueue (snd (snd (AddEntry 0x1000 new_PanExec))) = [(1, QValid, 0x1000)] \<and>
   length (ExecQueue (snd (snd (AddEntry 0x1000 new_PanExec)))) \<le> PANEXEC_MAX_ENTRY"
proof -
  have "pan_step new_PanExec (snd (snd (AddEntry 0x1000 new_PanExec)))"
    by (rule pan_step.add [of "0x1000" _ True "Some 1"])
      (simp add: AddEntry_def new_PanExec_def PANEXEC_MAX_ENTRY_def GetNewEntry_def word_le_nat_alt)
  then have "pan_reach (snd (snd (AddEntry 0x1000 new_PanExec)))"
    by (rule pan_reach.step [OF pan_reach.init])
  from PanExec_reachable [OF this] show ?thesis
    by (simp add: AddEntry_def new_PanExec_def PANEXEC_MAX_ENTRY_def GetNewEntry_def word_le_nat_alt)
qed

text \<open>
  With removals in another order the counter comes round to an index that is still in the queue:
  with one entry left at index 1, the 64th later insertion, all others being removed, is given
  index 1 again.
\<close>

lemma AddEntry_reuses_index:
  "fst (snd (AddEntry 0x2000 \<lparr>CurEntry = 0, ExecQueue = [(1, QExec, 0x1000)]\<rparr>)) = Some 1"
  by (simp add: AddEntry_def PANEXEC_MAX_ENTRY_def GetNewEntry_def word_le_nat_alt)


section \<open>First in, first out\<close>

text \<open>The interface of a bounded queue: what is put in comes out once, in order.\<close>

locale work_queue =
  fixes put :: "'a \<Rightarrow> 's \<Rightarrow> 's option" and pull :: "'s \<Rightarrow> ('a \<times> 's) option"
    and pending :: "'s \<Rightarrow> 'a list"
  assumes put_law: "put x s = Some s' \<Longrightarrow> pending s' = pending s @ [x]"
    and pull_law: "pull s = (case pending s of [] \<Rightarrow> None | x # xs \<Rightarrow> Some (x, snd (the (pull s))))"
    and pull_rest: "pull s = Some (x, s') \<Longrightarrow> pending s' = tl (pending s)"
begin

fun pull_n :: "nat \<Rightarrow> 's \<Rightarrow> 'a list \<times> 's" where
  "pull_n 0 s = ([], s)"
| "pull_n (Suc n) s =
     (case pull s of None \<Rightarrow> ([], s) | Some (x, s1) \<Rightarrow> (let (xs, s2) = pull_n n s1 in (x # xs, s2)))"

lemma pull_n_take: "fst (pull_n n s) = take n (pending s) \<and> pending (snd (pull_n n s)) = drop n (pending s)"
proof (induction n arbitrary: s)
  case (Suc n)
  show ?case
  proof (cases "pending s")
    case Nil
    then show ?thesis using pull_law [of s] by simp
  next
    case (Cons x xs)
    then obtain s1 where p: "pull s = Some (x, s1)" using pull_law [of s] by auto
    then have "pending s1 = xs" using pull_rest Cons by fastforce
    with Suc.IH [of s1] p Cons show ?thesis by (auto simp: Let_def split: prod.splits)
  qed
qed simp

lemma served_in_order:
  assumes "put x s = Some s'" and "length (pending s) < n"
  shows "\<exists>ys. fst (pull_n n s') = pending s @ x # ys"
  using pull_n_take [of n s'] put_law [OF assms(1)] assms(2)
  by (cases "n - length (pending s)") auto

end

definition valid_addrs :: "PanExec \<Rightarrow> u64 list" where
  "valid_addrs Q = map (\<lambda>(i, st, a). a) (filter (\<lambda>(i, st, a). st = QValid) (ExecQueue Q))"

definition pan_put :: "u64 \<Rightarrow> PanExec \<Rightarrow> PanExec option" where
  "pan_put a Q = (case AddEntry a Q of (ok, _, Q') \<Rightarrow> if ok then Some Q' else None)"

definition pan_pull :: "PanExec \<Rightarrow> (u64 \<times> PanExec) option" where
  "pan_pull Q = (case GetNextEntry Q of (_, r, Q') \<Rightarrow> map_option (\<lambda>(i, a). (a, Q')) r)"

lemma take_valid_spec:
  "case take_valid es of
     None \<Rightarrow> filter (\<lambda>(i, st, a). st = QValid) es = []
   | Some ((i, a), es') \<Rightarrow>
       filter (\<lambda>(i, st, a). st = QValid) es =
         (i, QValid, a) # filter (\<lambda>(i, st, a). st = QValid) es'"
  by (induction es rule: take_valid.induct) (auto split: option.splits prod.splits)

interpretation pan: work_queue pan_put pan_pull valid_addrs
proof
  fix a Q Q'
  show "pan_put a Q = Some Q' \<Longrightarrow> valid_addrs Q' = valid_addrs Q @ [a]"
    by (auto simp: pan_put_def AddEntry_def valid_addrs_def Let_def GetNewEntry_def
        split: if_splits prod.splits)
next
  fix Q
  show "pan_pull Q = (case valid_addrs Q of [] \<Rightarrow> None | a # as \<Rightarrow> Some (a, snd (the (pan_pull Q))))"
    using take_valid_spec [of "ExecQueue Q"]
    by (auto simp: pan_pull_def GetNextEntry_def valid_addrs_def split: option.splits)
next
  fix a Q Q'
  show "pan_pull Q = Some (a, Q') \<Longrightarrow> valid_addrs Q' = tl (valid_addrs Q)"
    using take_valid_spec [of "ExecQueue Q"]
    by (auto simp: pan_pull_def GetNextEntry_def valid_addrs_def split: option.splits if_splits)
qed

text \<open>
  The queue serves its entries in the order of insertion: an address that \<open>AddEntry\<close>
  accepts is returned by \<open>GetNextEntry\<close> after exactly the addresses that were waiting before
  it.
\<close>

theorem PanExec_fifo:
  assumes "AddEntry a Q = (True, i, Q')" and "length (valid_addrs Q) < n"
  shows "\<exists>later. fst (pan.pull_n n Q') = valid_addrs Q @ a # later"
  using pan.served_in_order [of a Q Q' n] assms by (simp add: pan_put_def)

theorem PanExec_fifo_witness:
  "\<exists>later. fst (pan.pull_n 3 (snd (snd (AddEntry 0x1000 new_PanExec)))) = 0x1000 # later"
  using PanExec_fifo [of "0x1000" new_PanExec "Some 1" "snd (snd (AddEntry 0x1000 new_PanExec))" 3]
  by (simp add: AddEntry_def new_PanExec_def PANEXEC_MAX_ENTRY_def GetNewEntry_def valid_addrs_def
      word_le_nat_alt)

end
