(* ===== verification/Rev_ThreadCtx.thy ===== *)
theory Rev_ThreadCtx
  imports Rev_InstTable "HOL-Library.Multiset"
begin

text \<open>
  Software thread contexts (include/RevThreadCtx.h, src/RevThreadCtx.cc): a register file, the
  identity of the thread and of its parent, and the file descriptors the thread owns.
\<close>

section \<open>State\<close>

datatype ThreadState = Running | Waiting | Sleeping | Dead

record RevThreadCtx =
  PID :: u32
  ParentPID :: u32
  t_State :: ThreadState
  t_RegFile :: RevRegFile
  ChildrenPIDs :: "u32 list"
  fildes :: "32 word list"

text \<open>\<open>RevRegFile()\<close> is value-initialised: all of it is zero.\<close>

definition new_RevRegFile :: RevRegFile where
  "new_RevRegFile =
     \<lparr>RV32 = (\<lambda>_. 0), RV64 = (\<lambda>_. 0), SPF = (\<lambda>_. 0), DPF = (\<lambda>_. 0),
      RV64_SSTATUS = 0, RV64_SEPC = 0, RV64_SCAUSE = 0, RV64_STVAL = 0, RV64_STVEC = 0,
      RV32_SSTATUS = 0, RV32_SEPC = 0, RV32_SCAUSE = 0, RV32_STVAL = 0, RV32_STVEC = 0,
      RV32_Scoreboard = (\<lambda>_. False), RV64_Scoreboard = (\<lambda>_. False),
      SPF_Scoreboard = (\<lambda>_. False), DPF_Scoreboard = (\<lambda>_. False),
      RV32_PC = 0, RV64_PC = 0, FCSR = 0, rf_cost = 0, trigger = False, Entry = 0\<rparr>"

definition new_RevThreadCtx :: "u32 \<Rightarrow> u32 \<Rightarrow> RevThreadCtx" where
  "new_RevThreadCtx inputPID inputParentPID =
     \<lparr>PID = inputPID, ParentPID = inputParentPID, t_State = Waiting, t_RegFile = new_RevRegFile,
      ChildrenPIDs = [], fildes = [0, 1, 2]\<rparr>"


section \<open>Operations\<close>

text \<open>The condition of \<open>AddChildPID\<close> is the source's: a pid is added if it is already there.\<close>

definition AddChildPID :: "u32 \<Rightarrow> RevThreadCtx \<Rightarrow> bool \<times> RevThreadCtx" where
  "AddChildPID pid c =
     (if pid \<in> set (ChildrenPIDs c) then (True, c\<lparr>ChildrenPIDs := ChildrenPIDs c @ [pid]\<rparr>)
      else (False, c))"

definition RemoveChildPID :: "u32 \<Rightarrow> RevThreadCtx \<Rightarrow> bool \<times> RevThreadCtx" where
  "RemoveChildPID pid c =
     (if pid \<in> set (ChildrenPIDs c) then (True, c\<lparr>ChildrenPIDs := remove1 pid (ChildrenPIDs c)\<rparr>)
      else (False, c))"

text \<open>
  Register by register, the reads through the const-less \<open>operator[]\<close>: register 0 of the source
  is set to 0 and copied as 0. \<open>RV32_SCAUSE\<close> is not copied but cleared.
\<close>

definition DuplicateRegFile :: "RevRegFile \<Rightarrow> RevThreadCtx \<Rightarrow> RevThreadCtx" where
  "DuplicateRegFile r c =
     c\<lparr>t_RegFile := (t_RegFile c)\<lparr>
         RV32 := (\<lambda>i. if i < 32 then RF_get (RV32 r) i else RV32 (t_RegFile c) i),
         RV64 := (\<lambda>i. if i < 32 then RF_get (RV64 r) i else RV64 (t_RegFile c) i),
         SPF := (\<lambda>i. if i < 32 then SPF r i else SPF (t_RegFile c) i),
         DPF := (\<lambda>i. if i < 32 then DPF r i else DPF (t_RegFile c) i),
         RV32_Scoreboard := (\<lambda>i. if i < 32 then RV32_Scoreboard r i else RV32_Scoreboard (t_RegFile c) i),
         RV64_Scoreboard := (\<lambda>i. if i < 32 then RV64_Scoreboard r i else RV64_Scoreboard (t_RegFile c) i),
         SPF_Scoreboard := (\<lambda>i. if i < 32 then SPF_Scoreboard r i else SPF_Scoreboard (t_RegFile c) i),
         DPF_Scoreboard := (\<lambda>i. if i < 32 then DPF_Scoreboard r i else DPF_Scoreboard (t_RegFile c) i),
         RV64_SSTATUS := RV64_SSTATUS r, RV64_SEPC := RV64_SEPC r, RV64_SCAUSE := RV64_SCAUSE r,
         RV64_STVAL := RV64_STVAL r, RV64_STVEC := RV64_STVEC r,
         RV32_SSTATUS := RV32_SSTATUS r, RV32_SEPC := RV32_SEPC r, RV32_SCAUSE := 0,
         RV32_STVAL := RV32_STVAL r, RV32_STVEC := RV32_STVEC r,
         RV32_PC := RV32_PC r, RV64_PC := RV64_PC r, FCSR := FCSR r,
         rf_cost := rf_cost r, trigger := trigger r, Entry := Entry r\<rparr>\<rparr>"

definition AddFD :: "32 word \<Rightarrow> RevThreadCtx \<Rightarrow> RevThreadCtx" where
  "AddFD fd c = c\<lparr>fildes := fildes c @ [fd]\<rparr>"

definition FindFD :: "32 word \<Rightarrow> RevThreadCtx \<Rightarrow> bool" where
  "FindFD fd c = (fd \<in> set (fildes c))"

definition RemoveFD :: "32 word \<Rightarrow> RevThreadCtx \<Rightarrow> bool \<times> RevThreadCtx" where
  "RemoveFD fd c =
     (if fd \<in> set (fildes c) then (True, c\<lparr>fildes := remove1 fd (fildes c)\<rparr>) else (False, c))"


section \<open>Lemmas\<close>

text \<open>Descriptor ownership is a multiset: adding and then removing a descriptor restores it.\<close>

lemma FindFD_AddFD [simp]: "FindFD fd (AddFD fd' c) \<longleftrightarrow> fd = fd' \<or> FindFD fd c"
  by (auto simp: FindFD_def AddFD_def)

lemma RemoveFD_AddFD:
  "fst (RemoveFD fd (AddFD fd c)) \<and>
   mset (fildes (snd (RemoveFD fd (AddFD fd c)))) = mset (fildes c)"
  by (simp add: RemoveFD_def AddFD_def)

lemma RemoveFD_FindFD:
  "fst (RemoveFD fd c) = FindFD fd c"
  "distinct (fildes c) \<Longrightarrow> FindFD x (snd (RemoveFD fd c)) \<longleftrightarrow> FindFD x c \<and> x \<noteq> fd"
  by (auto simp: RemoveFD_def FindFD_def)

text \<open>No child is ever recorded: the list starts empty and only known pids are added.\<close>

lemma AddChildPID_never:
  "ChildrenPIDs c = [] \<Longrightarrow> AddChildPID pid c = (False, c)"
  by (simp add: AddChildPID_def)

text \<open>The copy agrees with the original on every architectural register and the program counter.\<close>

lemma DuplicateRegFile_get:
  "i < 32 \<Longrightarrow> get32 (t_RegFile (DuplicateRegFile r c)) i = get32 r i"
  "i < 32 \<Longrightarrow> get64 (t_RegFile (DuplicateRegFile r c)) i = get64 r i"
  "RV32_PC (t_RegFile (DuplicateRegFile r c)) = RV32_PC r"
  "RV64_PC (t_RegFile (DuplicateRegFile r c)) = RV64_PC r"
  "PID (DuplicateRegFile r c) = PID c" "ParentPID (DuplicateRegFile r c) = ParentPID c"
  "fildes (DuplicateRegFile r c) = fildes c"
  by (simp_all add: DuplicateRegFile_def RF_get_def)

end
