(* ===== verification/Rev_MemAlloc.thy ===== *)
theory Rev_MemAlloc
  imports Rev_MemRW
begin

text \<open>
  The segment allocator of \<open>RevMem\<close> (src/RevMem.cc): \<open>AddMemSegAt\<close>, \<open>AddRoundedMemSeg\<close>,
  \<open>AllocMem\<close>, \<open>AllocMemAt\<close>, \<open>DeallocMem\<close>, \<open>InitHeap\<close> and \<open>ExpandHeap\<close>. \<open>MemSegs\<close> and
  \<open>FreeMemSegs\<close> own their segments (no segment object is in both vectors), so the vectors of
  shared pointers are lists of segments and an update through a pointer replaces the element.
  The specification counts how many segments of a list cover an address; the allocator moves
  addresses between the two lists.
\<close>

section \<open>Operations\<close>

definition AddMemSegAt :: "u64 \<Rightarrow> u64 \<Rightarrow> RevMem \<Rightarrow> u64 \<times> RevMem" where
  "AddMemSegAt base n M = (base, M\<lparr>MemSegs := MemSegs M @ [new_MemSegment base n]\<rparr>)"

text \<open>
  The loop of \<open>AddRoundedMemSeg\<close> over the allocated segments: \<open>None\<close> when no segment holds the
  base or the top of the request (\<open>Added\<close> stays false), else the address to return and the
  updated vector. \<open>BytesToExpandBy\<close> of the downward case is computed after \<open>setBaseAddr\<close>.
\<close>

fun expand_seg :: "u64 \<Rightarrow> u64 \<Rightarrow> MemSegment list \<Rightarrow> (u64 \<times> MemSegment list) option" where
  "expand_seg base tp [] = None"
| "expand_seg base tp (s # ss) =
     (if seg_contains s base then
        (if \<not> seg_contains s tp
         then let s' = setSize (Size s + (tp - getTopAddr s)) s in Some (BaseAddr s', s' # ss)
         else Some (BaseAddr s, s # ss))
      else if \<not> seg_contains s base \<and> seg_contains s tp then
        (let s1 = setBaseAddr base s;
             s2 = setSize (Size s1 + (BaseAddr s1 - base)) s1
         in Some (base, s2 # ss))
      else map_option (\<lambda>(b, ss'). (b, s # ss')) (expand_seg base tp ss))"

definition rounded_size :: "u64 \<Rightarrow> u64 \<Rightarrow> u64" where
  "rounded_size n r = (let m = n mod r in if m = 0 then n else n + r - m)"

definition AddRoundedMemSeg :: "u64 \<Rightarrow> u64 \<Rightarrow> u64 \<Rightarrow> RevMem \<Rightarrow> (u64 \<times> RevMem) res" where
  "AddRoundedMemSeg base n r M =
     (if r = 0 then Inl Fatal_RoundUpZero
      else let rs = rounded_size n r in
        case expand_seg base (base + rs) (MemSegs M) of
          Some (b, ss) \<Rightarrow> Inr (b, M\<lparr>MemSegs := ss\<rparr>)
        | None \<Rightarrow> Inr (base, M\<lparr>MemSegs := MemSegs M @ [new_MemSegment base rs]\<rparr>))"

definition ExpandHeap :: "u64 \<Rightarrow> RevMem \<Rightarrow> (u64 \<times> RevMem) res" where
  "ExpandHeap n M =
     (let e = heapend M + n
      in if e > ucast (maxHeapSize M) then Inl (Fatal_OutOfMemory e)
         else Inr (e, M\<lparr>heapend := e\<rparr>))"

text \<open>The first-fit loop of \<open>AllocMem\<close>: the base of the block and the new free list.\<close>

fun alloc_fit :: "u64 \<Rightarrow> MemSegment list \<Rightarrow> (u64 \<times> MemSegment list) option" where
  "alloc_fit n [] = None"
| "alloc_fit n (s # ss) =
     (if Size s > n then
        Some (BaseAddr s, setSize (Size s - n) (setBaseAddr (BaseAddr s + n) s) # ss)
      else if Size s = n then Some (BaseAddr s, ss)
      else map_option (\<lambda>(b, ss'). (b, s # ss')) (alloc_fit n ss))"

definition AllocMem :: "u64 \<Rightarrow> RevMem \<Rightarrow> (u64 \<times> RevMem) res" where
  "AllocMem n M =
     (case alloc_fit n (FreeMemSegs M) of
        Some (b, ss) \<Rightarrow>
          Inr (b, M\<lparr>MemSegs := MemSegs M @ [new_MemSegment b n], FreeMemSegs := ss\<rparr>)
      | None \<Rightarrow>
          (let b = heapend M;
               M1 = M\<lparr>MemSegs := MemSegs M @ [new_MemSegment b n]\<rparr>
           in bind_res (ExpandHeap n M1) (\<lambda>(_, M2). Inr (b, M2))))"

text \<open>
  The loop of \<open>AllocMemAt\<close> over the free list: the list without the block and the segments to
  append, \<open>None\<close> when no free segment holds the range. In the second case only the base of the
  free segment is set.
\<close>

fun carve :: "u64 \<Rightarrow> u64 \<Rightarrow> MemSegment list \<Rightarrow> (MemSegment list \<times> MemSegment list) option" where
  "carve base n [] = None"
| "carve base n (s # ss) =
     (if seg_contains_range s base n then
        (if BaseAddr s \<noteq> base \<and> getTopAddr s \<noteq> base + n then
           Some (setSize (base - BaseAddr s) s # ss,
                 [new_MemSegment (base + n) (getTopAddr s - (base + n))])
         else if BaseAddr s = base \<and> getTopAddr s \<noteq> base + n then
           Some (setBaseAddr (base + n) s # ss, [])
         else if BaseAddr s \<noteq> base \<and> getTopAddr s = base + n then
           Some (setSize (Size s - n) s # ss, [])
         else Some (ss, []))
      else map_option (\<lambda>(ss', new). (s # ss', new)) (carve base n ss))"

text \<open>\<open>ret\<close> is a signed 32-bit \<open>int\<close>: the base is truncated to it and widened on return.\<close>

definition AllocMemAt :: "u64 \<Rightarrow> u64 \<Rightarrow> RevMem \<Rightarrow> (u64 \<times> RevMem) res" where
  "AllocMemAt base n M =
     (case carve base n (FreeMemSegs M) of
        None \<Rightarrow> Inr (0, M)
      | Some (ss, new) \<Rightarrow>
          (let ret = ucast base :: 32 word;
               M1 = M\<lparr>FreeMemSegs := ss @ new\<rparr>
           in if ret \<noteq> 0 then
                (if list_ex (\<lambda>s. seg_contains s base \<or> seg_contains s (base + n)) (MemSegs M1)
                 then Inl (Fatal_AlreadyAllocated base n)
                 else Inr (scast ret, M1\<lparr>MemSegs := MemSegs M1 @ [new_MemSegment base n]\<rparr>))
              else Inr (scast ret, M1)))"

text \<open>
  The two loops of \<open>DeallocMem\<close>. The first stops at the first segment with the given base and
  is \<open>Inr None\<close> when there is none.
\<close>

fun release_seg :: "u64 \<Rightarrow> u64 \<Rightarrow> MemSegment list \<Rightarrow> MemSegment list option res" where
  "release_seg base n [] = Inr None"
| "release_seg base n (s # ss) =
     (if BaseAddr s \<noteq> base then
        bind_res (release_seg base n ss) (\<lambda>r. Inr (map_option (\<lambda>ss'. s # ss') r))
      else if n > Size s then Inl (Fatal_Dealloc base n)
      else if n < Size s then
        Inr (Some (setSize (Size s - n) (setBaseAddr (base + n) s) # ss))
      else Inr (Some ss))"

fun merge_free :: "u64 \<Rightarrow> u64 \<Rightarrow> MemSegment list \<Rightarrow> MemSegment list option" where
  "merge_free base n [] = None"
| "merge_free base n (s # ss) =
     (if seg_contains s (base - 1) then Some (setSize (Size s + n) s # ss)
      else map_option (\<lambda>ss'. s # ss') (merge_free base n ss))"

definition DeallocMem :: "u64 \<Rightarrow> u64 \<Rightarrow> RevMem \<Rightarrow> (u64 \<times> RevMem) res" where
  "DeallocMem base n M =
     bind_res (release_seg base n (MemSegs M))
       (\<lambda>r. case r of
          None \<Rightarrow> Inr (- 1, M)
        | Some ss \<Rightarrow>
            Inr (0, M\<lparr>MemSegs := ss,
                      FreeMemSegs :=
                        (case merge_free base n (FreeMemSegs M) of
                           Some fs \<Rightarrow> fs
                         | None \<Rightarrow> FreeMemSegs M @ [new_MemSegment base n])\<rparr>))"

definition InitHeap :: "u64 \<Rightarrow> RevMem \<Rightarrow> RevMem res" where
  "InitHeap e M =
     (if e = 0 then Inl Fatal_NoStaticData
      else Inr (M\<lparr>FreeMemSegs := FreeMemSegs M @ [new_MemSegment (e + 1) (ucast (maxHeapSize M))],
                  heapend := e + 1, heapstart := e + 1\<rparr>))"


section \<open>Coverage of addresses by segments\<close>

text \<open>
  \<open>in_block b n\<close> is the block of \<open>n\<close> bytes at \<open>b\<close>. A segment is well formed when it is not
  empty, its top field is its base plus its size, and it ends below the top of the address
  space.
\<close>

definition in_block :: "u64 \<Rightarrow> u64 \<Rightarrow> u64 \<Rightarrow> bool" where
  "in_block b n a \<longleftrightarrow> unat b \<le> unat a \<and> unat a < unat b + unat n"

definition seg_wf :: "MemSegment \<Rightarrow> bool" where
  "seg_wf s \<longleftrightarrow> 0 < Size s \<and> TopAddr s = BaseAddr s + Size s \<and>
     unat (BaseAddr s) + unat (Size s) < 2 ^ 64"

definition cover :: "MemSegment list \<Rightarrow> u64 \<Rightarrow> nat" where
  "cover ss a = length (filter (\<lambda>s. seg_contains s a) ss)"

definition heap_ok :: "RevMem \<Rightarrow> bool" where
  "heap_ok M \<longleftrightarrow> list_all seg_wf (MemSegs M) \<and> list_all seg_wf (FreeMemSegs M) \<and>
     (\<forall>a. cover (MemSegs M) a + cover (FreeMemSegs M) a \<le> 1)"

definition allocated :: "RevMem \<Rightarrow> u64 set" where
  "allocated M = {a. 0 < cover (MemSegs M) a}"

definition free_addrs :: "RevMem \<Rightarrow> u64 set" where
  "free_addrs M = {a. 0 < cover (FreeMemSegs M) a}"

definition block :: "u64 \<Rightarrow> u64 \<Rightarrow> u64 set" where
  "block b n = {a. in_block b n a}"

lemma cover_simps [simp]:
  "cover [] a = 0"
  "cover (s # ss) a = of_bool (seg_contains s a) + cover ss a"
  "cover (ss @ ts) a = cover ss a + cover ts a"
  by (simp_all add: cover_def)

lemma unat_add_small:
  "unat (x :: u64) + unat y < 2 ^ 64 \<Longrightarrow> unat (x + y) = unat x + unat y"
  by (simp add: unat_word_ariths)

lemma unat_sub_small: "(y :: u64) \<le> x \<Longrightarrow> unat (x - y) = unat x - unat y"
  by (rule unat_sub)

lemma seg_contains_wf:
  "seg_wf s \<Longrightarrow> seg_contains s a \<longleftrightarrow> in_block (BaseAddr s) (Size s) a"
  by (auto simp: seg_wf_def seg_contains_def in_block_def word_le_nat_alt word_less_nat_alt
      unat_add_small)

lemma seg_wf_new:
  "0 < n \<Longrightarrow> unat b + unat n < 2 ^ 64 \<Longrightarrow> seg_wf (new_MemSegment b n)"
  by (simp add: seg_wf_def new_MemSegment_def)

lemma seg_contains_new:
  "0 < n \<Longrightarrow> unat b + unat n < 2 ^ 64 \<Longrightarrow> seg_contains (new_MemSegment b n) a \<longleftrightarrow> in_block b n a"
  using seg_contains_wf [OF seg_wf_new] by (simp add: new_MemSegment_def)

text \<open>Cutting \<open>n\<close> bytes off the front of a segment, the step of \<open>AllocMem\<close> and \<open>DeallocMem\<close>.\<close>

definition cut_front :: "u64 \<Rightarrow> MemSegment \<Rightarrow> MemSegment" where
  "cut_front n s = setSize (Size s - n) (setBaseAddr (BaseAddr s + n) s)"

lemma cut_front_fields:
  "BaseAddr (cut_front n s) = BaseAddr s + n" "Size (cut_front n s) = Size s - n"
  "TopAddr (cut_front n s) = BaseAddr s + n + (Size s - n)"
  by (simp_all add: cut_front_def setSize_def setBaseAddr_def Let_def)

lemma cut_front_wf:
  assumes "seg_wf s" and "n < Size s"
  shows "seg_wf (cut_front n s)"
    and "of_bool (seg_contains s a) =
      of_bool (in_block (BaseAddr s) n a) + (of_bool (seg_contains (cut_front n s) a) :: nat)"
proof -
  have n: "unat n < unat (Size s)" using assms(2) by (simp add: word_less_nat_alt)
  have b: "unat (BaseAddr s + n) = unat (BaseAddr s) + unat n"
    using assms n by (intro unat_add_small) (simp add: seg_wf_def)
  have sz: "unat (Size s - n) = unat (Size s) - unat n"
    using assms(2) by (intro unat_sub_small) simp
  show wf: "seg_wf (cut_front n s)"
    using assms n b sz by (simp add: seg_wf_def cut_front_fields word_less_nat_alt)
  show "of_bool (seg_contains s a) =
      of_bool (in_block (BaseAddr s) n a) + (of_bool (seg_contains (cut_front n s) a) :: nat)"
    using n b sz by (auto simp: seg_contains_wf [OF assms(1)] seg_contains_wf [OF wf]
        cut_front_fields in_block_def)
qed

lemma seg_wf_block_bound: "seg_wf s \<Longrightarrow> unat n \<le> unat (Size s) \<Longrightarrow>
    unat (BaseAddr s) + unat n < 2 ^ 64"
  by (simp add: seg_wf_def)

lemma alloc_fit_None: "alloc_fit n ss = None \<longleftrightarrow> (\<forall>s\<in>set ss. Size s < n)"
  by (induction ss) auto

lemma alloc_fit_Some: "alloc_fit n ss \<noteq> None \<longleftrightarrow> (\<exists>s\<in>set ss. n \<le> Size s)"
  unfolding alloc_fit_None by (auto simp: not_less)

lemma alloc_fit_spec:
  assumes "alloc_fit n ss = Some (b, ss')" and "list_all seg_wf ss" and "0 < n"
  shows "list_all seg_wf ss' \<and> unat b + unat n < 2 ^ 64 \<and>
    (\<forall>a. cover ss a = of_bool (in_block b n a) + cover ss' a)"
  using assms
proof (induction ss arbitrary: ss')
  case (Cons s ss)
  have wf: "seg_wf s" and wfs: "list_all seg_wf ss" using Cons.prems(2) by simp_all
  consider "n < Size s" | "n = Size s" | "Size s < n" by fastforce
  then show ?case
  proof cases
    case 1
    with Cons.prems(1) have "b = BaseAddr s" "ss' = cut_front n s # ss"
      by (auto simp: cut_front_def)
    then show ?thesis
      using wfs cut_front_wf [OF wf 1] seg_wf_block_bound [OF wf, of n] 1
      by (simp add: word_less_nat_alt)
  next
    case 2
    then show ?thesis
      using Cons.prems(1) wf wfs seg_wf_block_bound [OF wf, of n]
      by (simp add: seg_contains_wf)
  next
    case 3
    then obtain ss2 where "ss' = s # ss2" "alloc_fit n ss = Some (b, ss2)"
      using Cons.prems(1) by (auto split: if_splits)
    with Cons.IH [OF _ wfs Cons.prems(3)] wf show ?thesis by auto
  qed
qed simp

lemma release_seg_spec:
  assumes "release_seg base n ss = Inr (Some ss')" and "list_all seg_wf ss" and "0 < n"
  shows "list_all seg_wf ss' \<and> unat base + unat n < 2 ^ 64 \<and>
    (\<forall>a. cover ss a = of_bool (in_block base n a) + cover ss' a)"
  using assms
proof (induction ss arbitrary: ss')
  case (Cons s ss)
  have wf: "seg_wf s" and wfs: "list_all seg_wf ss" using Cons.prems(2) by simp_all
  consider "BaseAddr s \<noteq> base" | "BaseAddr s = base" "n < Size s" | "BaseAddr s = base" "n = Size s"
    using Cons.prems(1) by (fastforce split: if_splits)
  then show ?case
  proof cases
    case 1
    then obtain ss2 where "ss' = s # ss2" "release_seg base n ss = Inr (Some ss2)"
      using Cons.prems(1) by (auto split: if_splits)
    with Cons.IH [OF _ wfs Cons.prems(3)] wf show ?thesis by auto
  next
    case 2
    with Cons.prems(1) have "ss' = cut_front n s # ss"
      by (auto simp: cut_front_def split: if_splits)
    then show ?thesis
      using wfs cut_front_wf [OF wf 2(2)] seg_wf_block_bound [OF wf, of n] 2
      by (simp add: word_less_nat_alt)
  next
    case 3
    then show ?thesis
      using Cons.prems(1) wf wfs seg_wf_block_bound [OF wf, of n]
      by (auto simp: seg_contains_wf)
  qed
qed simp

lemma merge_seg_wf:
  assumes wf: "seg_wf s" and prev: "seg_contains s (base - 1)" and out: "\<not> seg_contains s base"
    and "0 < n" and bnd: "unat base + unat n < 2 ^ 64"
  shows "seg_wf (setSize (Size s + n) s)"
    and "of_bool (seg_contains (setSize (Size s + n) s) a) =
      of_bool (in_block base n a) + (of_bool (seg_contains s a) :: nat)"
proof -
  have b0: "base \<noteq> 0"
  proof
    assume "base = 0"
    with prev show False using word_order.extremum [of "TopAddr s"]
      by (simp add: seg_contains_def)
  qed
  then have p: "unat (base - 1) = unat base - 1" by (simp add: unat_minus_one)
  have b1: "0 < unat base" using b0 by (simp add: unat_gt_0)
  have top: "unat (BaseAddr s) + unat (Size s) = unat base"
    using prev out b1 by (auto simp: seg_contains_wf [OF wf] in_block_def p)
  then have sz: "unat (Size s + n) = unat (Size s) + unat n"
    using bnd by (intro unat_add_small) simp
  show wf': "seg_wf (setSize (Size s + n) s)"
    using wf bnd top sz by (simp add: seg_wf_def setSize_def word_less_nat_alt)
  show "of_bool (seg_contains (setSize (Size s + n) s) a) =
      of_bool (in_block base n a) + (of_bool (seg_contains s a) :: nat)"
    unfolding seg_contains_wf [OF wf'] seg_contains_wf [OF wf]
    using top sz by (auto simp: in_block_def setSize_def)
qed

lemma merge_free_spec:
  assumes "merge_free base n fs = Some fs'" and "list_all seg_wf fs" and "cover fs base = 0"
    and "0 < n" and "unat base + unat n < 2 ^ 64"
  shows "list_all seg_wf fs' \<and> (\<forall>a. cover fs' a = of_bool (in_block base n a) + cover fs a)"
  using assms
proof (induction fs arbitrary: fs')
  case (Cons s fs)
  show ?case
  proof (cases "seg_contains s (base - 1)")
    case True
    with Cons.prems(1) have fs': "fs' = setSize (Size s + n) s # fs" by simp
    have "seg_wf s" "\<not> seg_contains s base" using Cons.prems(2,3) by auto
    from merge_seg_wf [OF this(1) True this(2) Cons.prems(4,5)] Cons.prems(2) show ?thesis
      unfolding fs' by simp
  next
    case False
    then obtain fs2 where "fs' = s # fs2" "merge_free base n fs = Some fs2"
      using Cons.prems(1) by (auto split: if_splits)
    with Cons.IH [of fs2] Cons.prems(2-5) show ?thesis by auto
  qed
qed simp

lemma seg_contains_base: "seg_wf s \<Longrightarrow> seg_contains s (BaseAddr s)"
  by (simp add: seg_contains_wf in_block_def) (simp add: seg_wf_def unat_gt_0 word_neq_0_conv)

lemma release_seg_last:
  "\<forall>s\<in>set ss. BaseAddr s \<noteq> b \<Longrightarrow> release_seg b n (ss @ [new_MemSegment b n]) = Inr (Some ss)"
  by (induction ss) (auto simp: new_MemSegment_def)


section \<open>The allocator as an interface\<close>

text \<open>
  What a client of the heap relies on: an allocation moves a block from the free addresses to
  the allocated ones, a deallocation moves it back.
\<close>

locale region_allocator =
  fixes inv :: "'s \<Rightarrow> bool" and used avail :: "'s \<Rightarrow> u64 set"
    and alloc :: "u64 \<Rightarrow> 's \<Rightarrow> (u64 \<times> 's) option"
    and dealloc :: "u64 \<Rightarrow> u64 \<Rightarrow> 's \<Rightarrow> 's option"
  assumes alloc_law: "inv s \<Longrightarrow> 0 < n \<Longrightarrow> alloc n s = Some (b, s') \<Longrightarrow>
      inv s' \<and> block b n \<subseteq> avail s \<and> used s' = used s \<union> block b n \<and> avail s' = avail s - block b n"
    and dealloc_law: "inv s \<Longrightarrow> 0 < n \<Longrightarrow> dealloc b n s = Some s' \<Longrightarrow>
      inv s' \<and> block b n \<subseteq> used s \<and> used s' = used s - block b n \<and> avail s' = avail s \<union> block b n"
    and separate: "inv s \<Longrightarrow> used s \<inter> avail s = {}"
begin

fun alloc_seq :: "u64 list \<Rightarrow> 's \<Rightarrow> (u64 list \<times> 's) option" where
  "alloc_seq [] s = Some ([], s)"
| "alloc_seq (n # ns) s =
     (case alloc n s of
        None \<Rightarrow> None
      | Some (b, s1) \<Rightarrow> map_option (\<lambda>(bs, s2). (b # bs, s2)) (alloc_seq ns s1))"

lemma alloc_seq_blocks:
  assumes "alloc_seq ns s = Some (bs, s')" and "inv s" and "\<forall>n\<in>set ns. 0 < n"
  shows "inv s' \<and> length bs = length ns \<and>
    (\<forall>(b, n)\<in>set (zip bs ns). block b n \<subseteq> avail s) \<and>
    sorted_wrt (\<lambda>(b, n) (c, m). block b n \<inter> block c m = {}) (zip bs ns) \<and>
    used s' = used s \<union> (\<Union>(b, n)\<in>set (zip bs ns). block b n)"
  using assms
proof (induction ns arbitrary: s bs)
  case (Cons n ns)
  then obtain b s1 bs1 where step: "alloc n s = Some (b, s1)" "alloc_seq ns s1 = Some (bs1, s')"
    and bs: "bs = b # bs1"
    by (auto split: option.splits prod.splits)
  note law = alloc_law [OF Cons.prems(2) _ step(1)]
  have "0 < n" using Cons.prems(3) by simp
  note law = law [OF this]
  have IH: "inv s' \<and> length bs1 = length ns \<and>
      (\<forall>(b, n)\<in>set (zip bs1 ns). block b n \<subseteq> avail s1) \<and>
      sorted_wrt (\<lambda>(b, n) (c, m). block b n \<inter> block c m = {}) (zip bs1 ns) \<and>
      used s' = used s1 \<union> (\<Union>(b, n)\<in>set (zip bs1 ns). block b n)"
    using Cons.IH [OF step(2)] law Cons.prems(3) by simp
  have "block c m \<subseteq> avail s \<and> block b n \<inter> block c m = {}" if "(c, m) \<in> set (zip bs1 ns)" for c m
    using IH law that by blast
  with IH law show ?case unfolding bs by auto
qed simp

lemma alloc_dealloc:
  assumes "inv s" and "0 < n" and a: "alloc n s = Some (b, s1)" and d: "dealloc b n s1 = Some s2"
  shows "inv s2 \<and> used s2 = used s \<and> avail s2 = avail s"
  using alloc_law [OF assms(1,2) a] dealloc_law [OF _ assms(2) d] separate [OF assms(1)]
  by blast

end


section \<open>\<open>AllocMem\<close> and \<open>DeallocMem\<close> implement it\<close>

lemma heap_ok_cover:
  assumes "heap_ok M"
  shows "list_all seg_wf (MemSegs M)" "list_all seg_wf (FreeMemSegs M)"
    "cover (MemSegs M) a + cover (FreeMemSegs M) a \<le> 1"
  using assms by (simp_all add: heap_ok_def)

lemma in_block_base: "0 < n \<Longrightarrow> unat b + unat n < 2 ^ 64 \<Longrightarrow> in_block b n b"
  by (simp add: in_block_def unat_gt_0 word_neq_0_conv)

text \<open>A move of a block between the two lists, in terms of coverage, gives the set equations.\<close>

lemma cover_move:
  assumes "\<And>a. cover xs a + cover ys a \<le> 1"
    and "\<And>a. cover ys a = of_bool (in_block b n a) + cover ys' a"
    and "\<And>a. cover xs' a = of_bool (in_block b n a) + cover xs a"
  shows "\<And>a. cover xs' a + cover ys' a \<le> 1"
    and "block b n \<subseteq> {a. 0 < cover ys a}"
    and "{a. 0 < cover xs' a} = {a. 0 < cover xs a} \<union> block b n"
    and "{a. 0 < cover ys' a} = {a. 0 < cover ys a} - block b n"
proof -
  fix a
  show "cover xs' a + cover ys' a \<le> 1"
    using assms(1) [of a] assms(2) [of a] assms(3) [of a] by simp
next
  show "block b n \<subseteq> {a. 0 < cover ys a}" using assms(2) by (auto simp: block_def)
  show "{a. 0 < cover xs' a} = {a. 0 < cover xs a} \<union> block b n"
    using assms(3) by (auto simp: block_def)
  have "0 < cover ys' a \<longleftrightarrow> 0 < cover ys a \<and> \<not> in_block b n a" for a
    using assms(1) [of a] assms(2) [of a] by auto
  then show "{a. 0 < cover ys' a} = {a. 0 < cover ys a} - block b n"
    by (auto simp: block_def)
qed

lemma AllocMem_fit:
  assumes ok: "heap_ok M" and n: "0 < n" and fit: "alloc_fit n (FreeMemSegs M) = Some (b, ss)"
  shows "\<exists>M'. AllocMem n M = Inr (b, M') \<and> heap_ok M' \<and> block b n \<subseteq> free_addrs M \<and>
    allocated M' = allocated M \<union> block b n \<and> free_addrs M' = free_addrs M - block b n \<and>
    (\<forall>a\<in>block b n. isValidVirtAddr M' a)"
proof -
  let ?M = "M\<lparr>MemSegs := MemSegs M @ [new_MemSegment b n], FreeMemSegs := ss\<rparr>"
  note spec = alloc_fit_spec [OF fit heap_ok_cover(2) [OF ok] n]
  have new: "seg_contains (new_MemSegment b n) a \<longleftrightarrow> in_block b n a" for a
    using spec n by (simp add: seg_contains_new)
  have cov: "cover (MemSegs ?M) a = of_bool (in_block b n a) + cover (MemSegs M) a" for a
    by (simp add: new)
  note move = cover_move [OF heap_ok_cover(3) [OF ok] _ cov, of ss]
  have wf: "list_all seg_wf (MemSegs ?M)" "list_all seg_wf (FreeMemSegs ?M)"
    using spec n heap_ok_cover(1) [OF ok] by (simp_all add: seg_wf_new)
  have "isValidVirtAddr ?M a" if "a \<in> block b n" for a
    using that by (auto simp: isValidVirtAddr_def new block_def)
  then show ?thesis
    using spec wf move fit by (auto simp: AllocMem_def heap_ok_def allocated_def free_addrs_def)
qed

lemma DeallocMem_spec:
  assumes ok: "heap_ok M" and n: "0 < n" and rel: "release_seg base n (MemSegs M) = Inr (Some ss)"
  shows "\<exists>M'. DeallocMem base n M = Inr (0, M') \<and> heap_ok M' \<and> block base n \<subseteq> allocated M \<and>
    allocated M' = allocated M - block base n \<and> free_addrs M' = free_addrs M \<union> block base n"
proof -
  note spec = release_seg_spec [OF rel heap_ok_cover(1) [OF ok] n]
  let ?fs = "case merge_free base n (FreeMemSegs M) of Some fs \<Rightarrow> fs
             | None \<Rightarrow> FreeMemSegs M @ [new_MemSegment base n]"
  have "of_bool (in_block base n base) + cover ss base + cover (FreeMemSegs M) base \<le> 1"
    using spec heap_ok_cover(3) [OF ok, of base] by simp
  then have "cover (FreeMemSegs M) base = 0"
    using in_block_base [OF n] spec by simp
  then have fs: "list_all seg_wf ?fs \<and>
      (\<forall>a. cover ?fs a = of_bool (in_block base n a) + cover (FreeMemSegs M) a)"
    using merge_free_spec [of base n "FreeMemSegs M"] spec n heap_ok_cover(2) [OF ok]
    by (auto simp: seg_wf_new seg_contains_new split: option.splits)
  have le: "cover (FreeMemSegs M) a + cover (MemSegs M) a \<le> 1" for a
    using heap_ok_cover(3) [OF ok, of a] by simp
  note move = cover_move [OF le, of base n ss ?fs]
  have sum: "cover ss a + cover ?fs a \<le> 1" for a
    using move(1) spec fs by (simp add: add.commute)
  show ?thesis
    using rel spec fs move(2-4) sum
    by (auto simp: DeallocMem_def heap_ok_def allocated_def free_addrs_def)
qed

definition heap_alloc :: "u64 \<Rightarrow> RevMem \<Rightarrow> (u64 \<times> RevMem) option" where
  "heap_alloc n M =
     (if alloc_fit n (FreeMemSegs M) = None then None
      else case AllocMem n M of Inr r \<Rightarrow> Some r | Inl _ \<Rightarrow> None)"

definition heap_dealloc :: "u64 \<Rightarrow> u64 \<Rightarrow> RevMem \<Rightarrow> RevMem option" where
  "heap_dealloc b n M =
     (case DeallocMem b n M of Inr (r, M') \<Rightarrow> (if r = 0 then Some M' else None) | Inl _ \<Rightarrow> None)"

interpretation heap: region_allocator heap_ok allocated free_addrs heap_alloc heap_dealloc
proof unfold_locales
  fix M M' :: RevMem and n b :: u64
  assume ok: "heap_ok M" and n: "0 < n"
  show "heap_ok M' \<and> block b n \<subseteq> free_addrs M \<and> allocated M' = allocated M \<union> block b n \<and>
      free_addrs M' = free_addrs M - block b n"
    if "heap_alloc n M = Some (b, M')"
    using that AllocMem_fit [OF ok n]
    by (auto simp: heap_alloc_def split: if_splits sum.splits option.splits)
  show "heap_ok M' \<and> block b n \<subseteq> allocated M \<and> allocated M' = allocated M - block b n \<and>
      free_addrs M' = free_addrs M \<union> block b n"
    if dl: "heap_dealloc b n M = Some M'"
  proof -
    obtain ss where "release_seg b n (MemSegs M) = Inr (Some ss)"
      using dl by (auto simp: heap_dealloc_def DeallocMem_def split: sum.splits if_splits option.splits)
    from DeallocMem_spec [OF ok n this] dl show ?thesis by (auto simp: heap_dealloc_def)
  qed
next
  show "allocated M \<inter> free_addrs M = {}" if "heap_ok M" for M
  proof -
    have "\<not> (0 < cover (MemSegs M) a \<and> 0 < cover (FreeMemSegs M) a)" for a
      using heap_ok_cover(3) [OF that, of a] by linarith
    then show ?thesis unfolding allocated_def free_addrs_def by blast
  qed
qed


text \<open>
  C34. When there is a free segment of at least the size, allocating a block and deallocating it again succeeds and restores
  the allocated and the free addresses. (Without one the block is placed at the heap end, where it can overlap another.)
\<close>

theorem AllocMem_DeallocMem:
  assumes ok: "heap_ok M" and n: "0 < n" and fit: "\<exists>s\<in>set (FreeMemSegs M). n \<le> Size s"
    and alloc: "AllocMem n M = Inr (b, M1)"
  shows "\<exists>M2. DeallocMem b n M1 = Inr (0, M2) \<and> heap_ok M2 \<and> allocated M2 = allocated M \<and>
    free_addrs M2 = free_addrs M"
proof -
  have "alloc_fit n (FreeMemSegs M) \<noteq> None"
    using fit by (simp only: alloc_fit_Some)
  then obtain ss where f: "alloc_fit n (FreeMemSegs M) = Some (b, ss)"
    using alloc by (auto simp: AllocMem_def split: option.splits)
  have ha: "heap_alloc n M = Some (b, M1)" using f alloc by (simp add: heap_alloc_def)
  have ok1: "heap_ok M1" using heap.alloc_law [OF ok n ha] by simp
  have segs: "MemSegs M1 = MemSegs M @ [new_MemSegment b n]" using alloc f by (auto simp: AllocMem_def)
  have bnd: "unat b + unat n < 2 ^ 64"
    using alloc_fit_spec [OF f heap_ok_cover(2) [OF ok] n] by simp
  have "cover (MemSegs M) b = 0"
    using heap_ok_cover(3) [OF ok1, of b] in_block_base [OF n bnd]
    by (simp add: segs seg_contains_new [OF n bnd])
  then have "BaseAddr s \<noteq> b" if "s \<in> set (MemSegs M)" for s
    using that heap_ok_cover(1) [OF ok] seg_contains_base [of s]
    by (auto simp: cover_def list_all_iff filter_empty_conv)
  then have "release_seg b n (MemSegs M1) = Inr (Some (MemSegs M))"
    unfolding segs by (intro release_seg_last) simp
  then obtain M2 where "DeallocMem b n M1 = Inr (0, M2)"
    using DeallocMem_spec [OF ok1 n] by blast
  then show ?thesis
    using heap.alloc_dealloc [OF ok n ha, of M2] by (auto simp: heap_dealloc_def)
qed

text \<open>A fresh memory whose heap of 4096 bytes starts at 0x1001.\<close>

definition demo_heap :: RevMem where
  "demo_heap = (new_RevMem 0x100000 4 0x2000 (\<lambda>_. 0))\<lparr>
     FreeMemSegs := [new_MemSegment 0x1001 0x1000], heapend := 0x1001, heapstart := 0x1001\<rparr>"

lemma demo_heap_ok: "heap_ok demo_heap"
  by (simp add: heap_ok_def demo_heap_def new_RevMem_def seg_wf_def new_MemSegment_def)

lemma demo_heap_InitHeap:
  "InitHeap 0x1000 (new_RevMem 0x100000 4 0x1000 (\<lambda>_. 0)) = Inr (demo_heap\<lparr>maxHeapSize := 0x1000\<rparr>)"
  by (simp add: InitHeap_def demo_heap_def new_RevMem_def)


theorem AllocMem_DeallocMem_witness:
  "\<exists>b M1 M2. AllocMem 0x100 demo_heap = Inr (b, M1) \<and> DeallocMem b 0x100 M1 = Inr (0, M2) \<and>
     allocated M2 = allocated demo_heap"
proof -
  obtain b M1 where a: "AllocMem 0x100 demo_heap = Inr (b, M1)"
    by (simp add: AllocMem_def demo_heap_def new_MemSegment_def)
  have "\<exists>s\<in>set (FreeMemSegs demo_heap). 0x100 \<le> Size s"
    by (simp add: demo_heap_def new_MemSegment_def)
  from AllocMem_DeallocMem [OF demo_heap_ok _ this a] a show ?thesis by auto
qed

text \<open>A sequence of allocations hands out pairwise disjoint blocks.\<close>

lemma AllocMem_sequence_disjoint:
  "heap.alloc_seq ns M = Some (bs, M') \<Longrightarrow> heap_ok M \<Longrightarrow> \<forall>n\<in>set ns. 0 < n \<Longrightarrow>
   sorted_wrt (\<lambda>(b, n) (c, m). block b n \<inter> block c m = {}) (zip bs ns)"
  using heap.alloc_seq_blocks by blast

text \<open>
  When no free segment fits, the block is placed at \<open>heapend\<close>, which \<open>InitHeap\<close> sets to the
  start of the free heap segment: two live blocks share addresses.
\<close>

lemma AllocMem_overlap:
  "\<exists>M b M1 c M2. InitHeap 0x10 (new_RevMem 0x100000 4 1000 (\<lambda>_. 0)) = Inr M \<and> heap_ok M \<and>
     AllocMem 600 M = Inr (b, M1) \<and> AllocMem 500 M1 = Inr (c, M2) \<and> 17 \<in> block b 600 \<inter> block c 500"
  by (simp add: InitHeap_def new_RevMem_def heap_ok_def seg_wf_def AllocMem_def ExpandHeap_def
      new_MemSegment_def setSize_def setBaseAddr_def block_def in_block_def Let_def)


section \<open>Allocation at a given address\<close>

lemma seg_contains_rangeD:
  assumes wf: "seg_wf s" and "0 < n" and r: "seg_contains_range s base n"
    and bnd: "unat base + unat n < 2 ^ 64"
  shows "unat (BaseAddr s) \<le> unat base" "unat base + unat n \<le> unat (BaseAddr s) + unat (Size s)"
proof -
  have n0: "0 < unat n" using assms(2) by (simp add: unat_gt_0 word_neq_0_conv)
  have n1: "unat (n - 1) = unat n - 1" using assms(2) by (simp add: unat_minus_one)
  have "unat (base + (n - 1)) = unat base + unat n - 1"
    using bnd n0 n1 by (subst unat_add_small) auto
  then have "unat (base + n - 1) = unat base + unat n - 1" by (simp add: add_diff_eq)
  then show "unat (BaseAddr s) \<le> unat base"
    and "unat base + unat n \<le> unat (BaseAddr s) + unat (Size s)"
    using r n0 by (auto simp: seg_contains_range_def seg_contains_wf [OF wf] in_block_def Let_def)
qed

lemma getTopAddr_wf: "seg_wf s \<Longrightarrow> unat (getTopAddr s) = unat (BaseAddr s) + unat (Size s)"
  by (simp add: getTopAddr_def seg_wf_def unat_add_small)

lemma setSize_wf:
  assumes "seg_wf s" and "0 < m" and "m \<le> Size s"
  shows "seg_wf (setSize m s)"
    and "seg_contains (setSize m s) a \<longleftrightarrow> in_block (BaseAddr s) m a"
proof -
  show wf: "seg_wf (setSize m s)"
    using assms by (simp add: seg_wf_def setSize_def word_le_nat_alt)
  show "seg_contains (setSize m s) a \<longleftrightarrow> in_block (BaseAddr s) m a"
    using seg_contains_wf [OF wf] by (simp add: setSize_def)
qed

text \<open>
  Carving a block out of the free list, except at the start of a larger segment (there only the
  base is updated and the segment keeps its size).
\<close>

lemma carve_spec:
  assumes "carve base n fs = Some (fs', new)" and "list_all seg_wf fs" and "0 < n"
    and bnd: "unat base + unat n < 2 ^ 64"
    and start: "\<forall>s\<in>set fs. BaseAddr s = base \<longrightarrow> Size s = n"
  shows "list_all seg_wf (fs' @ new) \<and>
    (\<forall>a. cover fs a = of_bool (in_block base n a) + cover (fs' @ new) a)"
  using assms(1,2,5)
proof (induction fs arbitrary: fs')
  case (Cons s fs)
  have wf: "seg_wf s" and wfs: "list_all seg_wf fs" using Cons.prems(2) by simp_all
  show ?case
  proof (cases "seg_contains_range s base n")
    case False
    with Cons.IH [OF _ wfs] Cons.prems show ?thesis using wf by fastforce
  next
    case True
    note r = seg_contains_rangeD [OF wf assms(3) True bnd]
    have top: "unat (base + n) = unat base + unat n" using bnd by (rule unat_add_small)
    have topeq: "getTopAddr s = base + n \<longleftrightarrow>
        unat (BaseAddr s) + unat (Size s) = unat base + unat n"
      using getTopAddr_wf [OF wf] top by (metis unat_eqI)
    have beq: "BaseAddr s = base \<longleftrightarrow> unat (BaseAddr s) = unat base" by (metis unat_eqI)
    have n0: "0 < unat n" using assms(3) by (simp add: unat_gt_0 word_neq_0_conv)
    have lo: "unat (base - BaseAddr s) = unat base - unat (BaseAddr s)"
      using r(1) by (intro unat_sub_small) (simp add: word_le_nat_alt)
    have hi: "unat (getTopAddr s - (base + n)) =
        unat (BaseAddr s) + unat (Size s) - (unat base + unat n)"
      using r(2) getTopAddr_wf [OF wf] top
      by (subst unat_sub_small) (auto simp: word_le_nat_alt)
    have sn: "unat (Size s - n) = unat (Size s) - unat n"
      using r by (intro unat_sub_small) (simp add: word_le_nat_alt)
    have sb: "unat (BaseAddr s) + unat (Size s) < 2 ^ 64" using wf by (simp add: seg_wf_def)
    consider (mid) "BaseAddr s \<noteq> base" "getTopAddr s \<noteq> base + n"
      | (upper) "BaseAddr s \<noteq> base" "getTopAddr s = base + n"
      | (all) "BaseAddr s = base" "Size s = n"
      using Cons.prems(3) by auto
    then show ?thesis
    proof cases
      case mid
      let ?m = "getTopAddr s - (base + n)"
      have new: "0 < ?m" "unat (base + n) + unat ?m < 2 ^ 64"
        using mid r topeq beq hi top sb by (auto simp: word_less_nat_alt)
      have low: "0 < base - BaseAddr s" "base - BaseAddr s \<le> Size s"
        using mid r beq lo n0 by (auto simp: word_less_nat_alt word_le_nat_alt)
      show ?thesis
        using Cons.prems(1) True mid wfs r setSize_wf [OF wf low] seg_wf_new [OF new]
          seg_contains_new [OF new] hi lo top
        by (auto simp: seg_contains_wf [OF wf] in_block_def)
    next
      case upper
      have "0 < Size s - n" "Size s - n \<le> Size s"
        using upper r topeq beq sn by (auto simp: word_less_nat_alt word_le_nat_alt)
      note ss = setSize_wf [OF wf this]
      have eq: "unat (BaseAddr s) + unat (Size s) = unat base + unat n"
        using upper(2) topeq by simp
      have "fs' = setSize (Size s - n) s # fs" "new = []"
        using Cons.prems(1) True upper by auto
      then show ?thesis
        using wfs ss eq r sn by (auto simp: seg_contains_wf [OF wf] in_block_def)
    next
      case all
      then show ?thesis
        using Cons.prems(1) True wfs by (auto simp: getTopAddr_def seg_contains_wf [OF wf])
    qed
  qed
qed simp

lemma AllocMemAt_spec:
  assumes ok: "heap_ok M" and n: "0 < n" and bnd: "unat base + unat n < 2 ^ 64"
    and start: "\<forall>s\<in>set (FreeMemSegs M). BaseAddr s = base \<longrightarrow> Size s = n"
    and ret: "AllocMemAt base n M = Inr (r, M')" and nz: "r \<noteq> 0"
  shows "heap_ok M' \<and> block base n \<subseteq> free_addrs M \<and> allocated M' = allocated M \<union> block base n \<and>
    free_addrs M' = free_addrs M - block base n"
proof -
  obtain ss new where c: "carve base n (FreeMemSegs M) = Some (ss, new)"
    and M': "M' = M\<lparr>FreeMemSegs := ss @ new, MemSegs := MemSegs M @ [new_MemSegment base n]\<rparr>"
    using ret nz by (auto simp: AllocMemAt_def Let_def split: option.splits if_splits)
  note spec = carve_spec [OF c heap_ok_cover(2) [OF ok] n bnd start]
  have cov: "cover (MemSegs M') a = of_bool (in_block base n a) + cover (MemSegs M) a" for a
    by (simp add: M' seg_contains_new [OF n bnd])
  note move = cover_move [OF heap_ok_cover(3) [OF ok] _ cov, of "ss @ new"]
  show ?thesis
    using spec move heap_ok_cover(1) [OF ok] seg_wf_new [OF n bnd]
    by (auto simp: heap_ok_def allocated_def free_addrs_def M')
qed

text \<open>
  At the start of a larger free segment the segment's size is not reduced: after the allocation
  the free list reaches past the end of the heap. An allocation directly below an allocated
  segment is refused, because the exclusive top of the block is tested for containment. A base
  whose low 32 bits are zero returns 0 although its block has left the free list.
\<close>

lemma AllocMemAt_start_grows:
  "heap_ok demo_heap \<and> 0x2001 \<notin> free_addrs demo_heap \<and>
   (\<exists>M'. AllocMemAt 0x1001 0x100 demo_heap = Inr (0x1001, M') \<and> 0x2001 \<in> free_addrs M')"
  by (rule conjI [OF demo_heap_ok])
    (simp add: AllocMemAt_def seg_contains_range_def seg_contains_def free_addrs_def
      demo_heap_def new_MemSegment_def new_RevMem_def getTopAddr_def setBaseAddr_def Let_def cover_def)

lemma AllocMemAt_adjacent_refused:
  "\<exists>M1. AllocMemAt 0x1101 0x100 demo_heap = Inr (0x1101, M1) \<and> heap_ok M1 \<and>
     AllocMemAt 0x1001 0x100 M1 = Inl (Fatal_AlreadyAllocated 0x1001 0x100)"
proof -
  let ?M1 = "demo_heap\<lparr>FreeMemSegs := [new_MemSegment 0x1001 0x100, new_MemSegment 0x1201 0xE00],
      MemSegs := [new_MemSegment 0x1101 0x100]\<rparr>"
  have a: "AllocMemAt 0x1101 0x100 demo_heap = Inr (0x1101, ?M1)"
    by (simp add: AllocMemAt_def seg_contains_range_def seg_contains_def demo_heap_def
        new_MemSegment_def new_RevMem_def getTopAddr_def setSize_def Let_def)
  have "heap_ok ?M1"
    using AllocMemAt_spec [OF demo_heap_ok _ _ _ a]
    by (simp add: demo_heap_def new_MemSegment_def)
  moreover have "AllocMemAt 0x1001 0x100 ?M1 = Inl (Fatal_AlreadyAllocated 0x1001 0x100)"
    by (simp add: AllocMemAt_def seg_contains_range_def seg_contains_def demo_heap_def
        new_MemSegment_def new_RevMem_def getTopAddr_def setBaseAddr_def Let_def)
  ultimately show ?thesis using a by blast
qed


section \<open>Static segments of the loader\<close>

lemma rounded_size_bounds:
  assumes "r \<noteq> 0" and "unat n + unat r < 2 ^ 64"
  shows "unat n \<le> unat (rounded_size n r)" and "unat (rounded_size n r) < unat n + unat r"
    and "unat r dvd unat (rounded_size n r)"
proof -
  let ?m = "unat n mod unat r"
  have r: "0 < unat r" using assms(1) by (simp add: unat_gt_0)
  then have m: "?m < unat r" by simp
  have um: "unat (n mod r) = ?m" by (rule unat_mod)
  have z: "n mod r = 0 \<longleftrightarrow> ?m = 0" using um by (metis unat_eq_0)
  have "unat (n + r - n mod r) = unat n + unat r - ?m"
    using assms(2) m um by (subst unat_sub_small) (auto simp: word_le_nat_alt unat_add_small)
  then have eq: "unat (rounded_size n r) = (if ?m = 0 then unat n else unat n + unat r - ?m)"
    by (simp add: rounded_size_def Let_def z)
  show "unat n \<le> unat (rounded_size n r)" "unat (rounded_size n r) < unat n + unat r"
    using m r less_imp_le [OF m] by (auto simp: eq simp del: mod_less_divisor)
  have "unat n + unat r - ?m = unat n div unat r * unat r + unat r"
    using div_mult_mod_eq [of "unat n" "unat r"] by linarith
  then show "unat r dvd unat (rounded_size n r)" by (auto simp: eq)
qed

lemma expand_seg_None:
  "expand_seg base tp ss = None \<longleftrightarrow> (\<forall>s\<in>set ss. \<not> seg_contains s base \<and> \<not> seg_contains s tp)"
  by (induction ss) (auto simp: Let_def)

lemma expand_seg_spec:
  assumes "expand_seg base tp ss = Some (b, ss')" and "list_all seg_wf ss"
    and "\<forall>s\<in>set ss. seg_contains s tp \<longrightarrow> seg_contains s base"
    and le: "unat base \<le> unat tp"
  shows "(\<forall>a. unat base \<le> unat a \<and> unat a < unat tp \<longrightarrow> 0 < cover ss' a) \<and>
    (\<forall>a. cover ss a \<le> cover ss' a)"
  using assms(1-3)
proof (induction ss arbitrary: ss')
  case (Cons s ss)
  have wf: "seg_wf s" using Cons.prems(2) by simp
  show ?case
  proof (cases "seg_contains s base")
    case base: True
    show ?thesis
    proof (cases "seg_contains s tp")
      case True
      then show ?thesis using Cons.prems(1) base wf
        by (auto simp: seg_contains_wf in_block_def)
    next
      case False
      let ?s = "setSize (Size s + (tp - getTopAddr s)) s"
      have ge: "unat (BaseAddr s) + unat (Size s) \<le> unat tp"
        using base False le by (auto simp: seg_contains_wf [OF wf] in_block_def)
      have "TopAddr ?s = tp" by (simp add: setSize_def getTopAddr_def)
      then have "seg_contains ?s a \<longleftrightarrow> unat (BaseAddr s) \<le> unat a \<and> unat a < unat tp" for a
        by (simp add: seg_contains_def word_le_nat_alt word_less_nat_alt) (simp add: setSize_def)
      moreover have "ss' = ?s # ss" using Cons.prems(1) base False by (simp add: Let_def)
      ultimately show ?thesis
        using base ge by (auto simp: seg_contains_wf [OF wf] in_block_def)
    qed
  next
    case False
    then obtain ss2 where "ss' = s # ss2" "expand_seg base tp ss = Some (b, ss2)"
      using Cons.prems(1,3) by (auto split: if_splits)
    with Cons.IH [of ss2] Cons.prems(2,3) show ?thesis by auto
  qed
qed simp

text \<open>
  A static segment of the loader: the size is rounded up to the next multiple of the
  rounding unit, and after the call every address of the rounded range is covered by an
  allocated segment and nothing that was covered is lost, unless an existing segment holds the
  top of the range but not its base. A rounding unit of 0 is a fatal error.
\<close>

theorem AddRoundedMemSeg_correct:
  assumes wf: "list_all seg_wf (MemSegs M)"
    and bnd: "unat base + (unat n + unat r) < 2 ^ 64" and n: "0 < n"
    and dn: "\<forall>s\<in>set (MemSegs M). seg_contains s (base + rounded_size n r) \<longrightarrow> seg_contains s base"
  shows "if r = 0 then AddRoundedMemSeg base n r M = Inl Fatal_RoundUpZero
    else unat r dvd unat (rounded_size n r) \<and>
      unat n \<le> unat (rounded_size n r) \<and> unat (rounded_size n r) < unat n + unat r \<and>
      (\<exists>b M'. AddRoundedMemSeg base n r M = Inr (b, M') \<and>
        block base (rounded_size n r) \<subseteq> allocated M' \<and> allocated M \<subseteq> allocated M' \<and>
        FreeMemSegs M' = FreeMemSegs M)"
proof (cases "r = 0")
  case False
  let ?m = "rounded_size n r" and ?t = "base + rounded_size n r"
  note rb = rounded_size_bounds [OF False, of n]
  have m: "unat n \<le> unat ?m" "unat base + unat ?m < 2 ^ 64" "0 < ?m"
    using rb bnd n by (auto simp: word_less_nat_alt)
  have t: "unat ?t = unat base + unat ?m" using m(2) by (rule unat_add_small)
  have "\<exists>b M'. AddRoundedMemSeg base n r M = Inr (b, M') \<and>
      block base ?m \<subseteq> allocated M' \<and> allocated M \<subseteq> allocated M' \<and> FreeMemSegs M' = FreeMemSegs M"
  proof (cases "expand_seg base ?t (MemSegs M)")
    case None
    then show ?thesis using False m
      by (auto simp: AddRoundedMemSeg_def Let_def allocated_def block_def seg_contains_new)
  next
    case (Some p)
    obtain b ss where p: "p = (b, ss)" by (cases p)
    have "unat base \<le> unat ?t" using t by simp
    from expand_seg_spec [OF Some [unfolded p] wf dn this]
    have "block base ?m \<subseteq> {a. 0 < cover ss a}" "allocated M \<subseteq> {a. 0 < cover ss a}"
      by (auto simp: block_def in_block_def t allocated_def intro: less_le_trans)
    then show ?thesis using False Some p by (simp add: AddRoundedMemSeg_def Let_def allocated_def)
  qed
  then show ?thesis using False rb bnd by auto
qed (simp add: AddRoundedMemSeg_def)

theorem AddRoundedMemSeg_correct_witness:
  "unat (rounded_size 0x123 0x1000) = 0x1000 \<and>
   (\<exists>b M'. AddRoundedMemSeg 0x10000 0x123 0x1000 demo_heap = Inr (b, M') \<and>
     block 0x10000 0x1000 \<subseteq> allocated M')"
  using AddRoundedMemSeg_correct [of demo_heap "0x10000" "0x123" "0x1000"]
  by (auto simp: demo_heap_def new_RevMem_def rounded_size_def)

text \<open>The excluded case moves the existing segment down without enlarging it.\<close>

lemma AddRoundedMemSeg_downward_loses:
  "\<exists>M M'. MemSegs M = [new_MemSegment 0x2000 0x1000] \<and> 0x2FFF \<in> allocated M \<and>
     AddRoundedMemSeg 0x1800 0x1000 0x1000 M = Inr (0x1800, M') \<and> 0x2FFF \<notin> allocated M'"
  by (rule exI [of _ "demo_heap\<lparr>MemSegs := [new_MemSegment 0x2000 0x1000]\<rparr>"])
    (simp add: AddRoundedMemSeg_def rounded_size_def new_MemSegment_def seg_contains_def
      setBaseAddr_def setSize_def allocated_def cover_def Let_def)

end
