(* ===== verification/Rev_Proc.thy ===== *)
theory Rev_Proc
  imports Rev_Decode Rev_Prefetcher Rev_PanExec Rev_ThreadCtx Rev_MemAlloc
begin

text \<open>
  The processor core \<open>RevProc\<close> (include/RevProc.h, src/RevProc.cc) around the decoder: its state,
  the thread table and the active register file, the scoreboard, the choice of the hart to decode,
  halting and single stepping, register access of the debugger, reset, fault injection, and the
  fetch stage of \<open>DecodeInst\<close>.
\<close>

section \<open>State\<close>

definition REV_HART_COUNT :: nat where "REV_HART_COUNT = 1"
definition REV_NUM_REGS :: nat where "REV_NUM_REGS = 32"
definition REV_INVALID_HART_ID :: u16 where "REV_INVALID_HART_ID = 0xFFFF"
definition PAN_FWARE_JUMP :: u64 where "PAN_FWARE_JUMP = 0x10000"

record RevProcStats =
  totalCycles :: u64
  cyclesBusy :: u64
  cyclesIdle_Total :: u64
  cyclesStalled :: u64
  floatsExec :: u64
  cyclesIdle_Pipeline :: u64
  cyclesIdle_MemoryFetch :: u64

text \<open>
  The pointer \<open>RegFile\<close> always points into a thread context; the model keeps the key of that
  context in the thread table, so that two pointers to one register file alias. An element of
  the pipeline is the hart, the instruction and the flag its \<open>hazard\<close> pointer refers to.
  The bit sets \<open>HART_CTS\<close> and \<open>HART_CTE\<close> are static variables of a header in the sources, so all cores of a simulation share
  those of RevProc.cc; here they are fields of the core, which is faithful for a simulation with one core.
\<close>

record RevProc =
  Halted :: bool
  Stalled :: bool
  SingleStep :: bool
  CrackFault :: bool
  ALUFault :: bool
  fault_width :: u32
  p_id :: u32
  ExecPC :: u64
  HartToDecode :: u16
  HartToExec :: u16
  Retired :: u64
  PendingCtxSwitch :: bool
  SwapToParent :: bool
  NextPID :: u32
  p_mem :: RevMem
  p_feature :: RevFeature
  p_tables :: RevTables
  PExec :: "PanExec option"
  Stats :: RevProcStats
  sfetch :: RevPrefetcher
  RegFile :: "u32 option"
  ThreadTable :: "u32 \<rightharpoonup> RevThreadCtx"
  ActivePIDs :: "u32 list"
  Pipeline :: "(u16 \<times> RevInst \<times> bool) list"
  p_Inst :: RevInst
  HART_CTS :: "bool list"
  HART_CTE :: "bool list"
  ECALL_buf :: "u8 list"
  ECALL_string :: "u8 list"
  ECALL_bytesRead :: u32


section \<open>Register files of the thread table\<close>

text \<open>\<open>ActivePIDs.at(HartID)\<close>, and the register file behind a pointer.\<close>

definition GetActivePID :: "u16 \<Rightarrow> RevProc \<Rightarrow> u32 res" where
  "GetActivePID HartID P =
     (if unat HartID < length (ActivePIDs P) then Inr (ActivePIDs P ! unat HartID)
      else Inl Exc_out_of_range)"

definition GetRegFile :: "u16 \<Rightarrow> RevProc \<Rightarrow> u32 res" where
  "GetRegFile HartID P =
     bind_res (GetActivePID HartID P) (\<lambda>pid.
       case ThreadTable P pid of
         Some _ \<Rightarrow> Inr pid
       | None \<Rightarrow> Inl (Fatal_NoRegFile pid HartID))"

definition rf_at :: "u32 \<Rightarrow> RevProc \<Rightarrow> RevRegFile res" where
  "rf_at p P = (case ThreadTable P p of Some c \<Rightarrow> Inr (t_RegFile c) | None \<Rightarrow> Inl UB_NullDeref)"

definition upd_rf :: "u32 \<Rightarrow> (RevRegFile \<Rightarrow> RevRegFile) \<Rightarrow> RevProc \<Rightarrow> RevProc" where
  "upd_rf p f P =
     P\<lparr>ThreadTable := (ThreadTable P)(p := map_option (\<lambda>c. c\<lparr>t_RegFile := f (t_RegFile c)\<rparr>) (ThreadTable P p))\<rparr>"

text \<open>\<open>*RegFile\<close>: the key of the active register file, its contents, and its update.\<close>

definition active_key :: "RevProc \<Rightarrow> u32 res" where
  "active_key P =
     (case RegFile P of
        None \<Rightarrow> Inl UB_NullDeref
      | Some p \<Rightarrow> (case ThreadTable P p of None \<Rightarrow> Inl UB_NullDeref | Some _ \<Rightarrow> Inr p))"

definition cur_rf :: "RevProc \<Rightarrow> RevRegFile res" where
  "cur_rf P = bind_res (active_key P) (\<lambda>p. rf_at p P)"

definition upd_cur :: "(RevRegFile \<Rightarrow> RevRegFile) \<Rightarrow> RevProc \<Rightarrow> RevProc res" where
  "upd_cur f P = bind_res (active_key P) (\<lambda>p. Inr (upd_rf p f P))"

definition on_hart :: "u16 \<Rightarrow> (RevRegFile \<Rightarrow> RevRegFile) \<Rightarrow> RevProc \<Rightarrow> RevProc res" where
  "on_hart h f P = bind_res (GetRegFile h P) (\<lambda>p. Inr (upd_rf p f P))"


section \<open>Choice of the hart\<close>

text \<open>The round-robin scan of \<open>GetHartID\<close> over \<open>n\<close> harts, at most \<open>k\<close> steps.\<close>

fun scan_hart :: "nat \<Rightarrow> nat \<Rightarrow> u16 \<Rightarrow> bool list \<Rightarrow> u16" where
  "scan_hart n 0 h cts = h"
| "scan_hart n (Suc k) h cts =
     (let h1 = h + 1; h2 = (if unat h1 \<ge> n then 0 else h1)
      in if cts ! unat h2 then h2 else scan_hart n k h2 cts)"

definition GetHartID :: "RevProc \<Rightarrow> u16" where
  "GetHartID P =
     (if \<not> list_ex (\<lambda>b. b) (HART_CTS P) then HartToDecode P
      else if HART_CTS P ! unat (HartToDecode P) then HartToDecode P
      else scan_hart REV_HART_COUNT REV_HART_COUNT (HartToDecode P) (HART_CTS P))"


section \<open>Threads\<close>

definition UpdateRegFile :: "RevProc \<Rightarrow> RevProc res" where
  "UpdateRegFile P =
     (let h = GetHartID P
      in bind_res (GetActivePID h P) (\<lambda>pid.
           case ThreadTable P pid of
             Some _ \<Rightarrow> Inr (P\<lparr>RegFile := Some pid\<rparr>)
           | None \<Rightarrow> Inl (Fatal_NoRegFile pid h)))"

definition CtxSwitchAlert :: "u32 \<Rightarrow> RevProc \<Rightarrow> RevProc" where
  "CtxSwitchAlert NewPID P = P\<lparr>NextPID := NewPID, PendingCtxSwitch := True\<rparr>"

text \<open>The bound test is the source's: the active pid is read exactly when it does not exist.\<close>

definition HartToExecPID :: "RevProc \<Rightarrow> u32 res" where
  "HartToExecPID P =
     (if length (ActivePIDs P) \<le> unat (HartToExec P) then GetActivePID (HartToExec P) P else Inr 0)"

definition HartToDecodePID :: "RevProc \<Rightarrow> u32 res" where
  "HartToDecodePID P =
     (if length (ActivePIDs P) \<le> unat (HartToDecode P) then GetActivePID (HartToDecode P) P
      else Inl (Fatal_NoHart (HartToExec P)))"

text \<open>The key of the context in the thread table; \<open>None\<close> is the null pointer.\<close>

definition HartToExecCtx :: "RevProc \<Rightarrow> u32 option res" where
  "HartToExecCtx P =
     (if unat (HartToExec P) \<le> length (ActivePIDs P) then
        bind_res (GetActivePID (HartToExec P) P) (\<lambda>pid.
          case ThreadTable P pid of None \<Rightarrow> Inl Exc_out_of_range | Some _ \<Rightarrow> Inr (Some pid))
      else Inr None)"

fun init_threads :: "nat \<Rightarrow> RevProc \<Rightarrow> RevProc" where
  "init_threads 0 P = P"
| "init_threads (Suc n) P =
     (let (pid, M1) = GetNewThreadPID (p_mem P);
          tt = ThreadTable P;
          tt1 = (case tt pid of None \<Rightarrow> tt(pid \<mapsto> new_RevThreadCtx pid 0) | Some _ \<Rightarrow> tt)
      in init_threads n (P\<lparr>p_mem := M1, RegFile := Some pid, ActivePIDs := ActivePIDs P @ [pid],
                           ThreadTable := tt1\<rparr>))"

definition InitThreadTable :: "RevProc \<Rightarrow> RevProc" where
  "InitThreadTable P = init_threads REV_HART_COUNT P"

definition set_active :: "u16 \<Rightarrow> u32 \<Rightarrow> RevProc \<Rightarrow> RevProc res" where
  "set_active h pid P =
     (if unat h < length (ActivePIDs P) then Inr (P\<lparr>ActivePIDs := (ActivePIDs P)[unat h := pid]\<rparr>)
      else Inl Exc_out_of_range)"

definition ChangeActivePID :: "u32 \<Rightarrow> RevProc \<Rightarrow> RevProc res" where
  "ChangeActivePID NewPID P =
     (case ThreadTable P NewPID of
        None \<Rightarrow> Inl (Fatal_NoPID NewPID (HartToExec P))
      | Some _ \<Rightarrow>
          bind_res (if SwapToParent P
                    then bind_res (GetActivePID (HartToExec P) P) (\<lambda>old.
                           Inr (P\<lparr>ThreadTable := (ThreadTable P)(old := None)\<rparr>))
                    else Inr P) (\<lambda>P1.
          bind_res (set_active (HartToExec P) NewPID P1) (\<lambda>P2.
          bind_res (set_active (HartToDecode P) NewPID P2) UpdateRegFile)))"

text \<open>The second overload stores the pid in the slot of \<open>HartToExec\<close>, not of \<open>HartID\<close>.\<close>

definition ChangeActivePID_hart :: "u32 \<Rightarrow> u16 \<Rightarrow> RevProc \<Rightarrow> RevProc res" where
  "ChangeActivePID_hart pid HartID P =
     (case ThreadTable P pid of
        None \<Rightarrow> Inl (Fatal_NoPID pid (HartToExec P))
      | Some _ \<Rightarrow>
          if unat HartID \<le> length (ActivePIDs P) then set_active (HartToExec P) pid P
          else Inl (Fatal_NoHart (HartToExec P)))"

definition GetPIDs :: "RevProc \<Rightarrow> u32 set" where
  "GetPIDs P = dom (ThreadTable P)"

text \<open>\<open>emplace\<close> does not replace an existing context.\<close>

definition CreateChildCtx :: "RevProc \<Rightarrow> (u32 \<times> RevProc) res" where
  "CreateChildCtx P =
     bind_res (GetActivePID (HartToExec P) P) (\<lambda>parent.
       case ThreadTable P parent of
         None \<Rightarrow> Inl Exc_out_of_range
       | Some pctx \<Rightarrow>
           (let (child, M1) = GetNewThreadPID (p_mem P)
            in bind_res (cur_rf P) (\<lambda>R.
                 let cctx = DuplicateRegFile R (new_RevThreadCtx child parent);
                     cctx1 = cctx\<lparr>t_RegFile := set64 10 0 ((t_RegFile cctx)\<lparr>RV64_SCAUSE := 0, RV32_SCAUSE := 0\<rparr>)\<rparr>;
                     tt = (case ThreadTable P child of
                             None \<Rightarrow> (ThreadTable P)(child \<mapsto> cctx1) | Some _ \<Rightarrow> ThreadTable P);
                     tt1 = tt(parent := map_option (\<lambda>c. snd (AddChildPID child c)) (tt parent))
                 in Inr (child, P\<lparr>p_mem := M1, ThreadTable := tt1\<rparr>))))"


section \<open>Scoreboard\<close>

text \<open>
  The array the four cases of the three functions select, and its update. A register number
  of 32 passes the test \<open><= _REV_NUM_REGS_\<close> and reads past the array.
\<close>

definition board :: "RevFeature \<Rightarrow> bool \<Rightarrow> RevRegFile \<Rightarrow> nat \<Rightarrow> bool" where
  "board F isFloat R =
     (if IsRV32 F then (if isFloat then SPF_Scoreboard R else RV32_Scoreboard R)
      else (if isFloat then DPF_Scoreboard R else RV64_Scoreboard R))"

definition set_board :: "RevFeature \<Rightarrow> bool \<Rightarrow> nat \<Rightarrow> bool \<Rightarrow> RevRegFile \<Rightarrow> RevRegFile" where
  "set_board F isFloat r v R =
     (if IsRV32 F then
        (if isFloat then R\<lparr>SPF_Scoreboard := (SPF_Scoreboard R)(r := v)\<rparr>
         else R\<lparr>RV32_Scoreboard := (RV32_Scoreboard R)(r := v)\<rparr>)
      else
        (if isFloat then R\<lparr>DPF_Scoreboard := (DPF_Scoreboard R)(r := v)\<rparr>
         else R\<lparr>RV64_Scoreboard := (RV64_Scoreboard R)(r := v)\<rparr>))"

definition inst_float :: "RevInst \<Rightarrow> RevProc \<Rightarrow> bool res" where
  "inst_float I P =
     (if entry I < length (InstTable (p_tables P)) then Inr (IsFloat (InstTable (p_tables P) ! entry I))
      else Inl UB_OutOfBounds)"

definition dep_on :: "(nat \<Rightarrow> bool) \<Rightarrow> nat \<Rightarrow> bool res" where
  "dep_on b r = (if r < REV_NUM_REGS then Inr (b r)
                 else if r = REV_NUM_REGS then Inl UB_OutOfBounds else Inr False)"

text \<open>\<open>hz\<close> is the flag behind \<open>I->hazard\<close>, \<open>None\<close> for the null pointer.\<close>

definition DependencyCheck :: "u16 \<Rightarrow> RevInst \<Rightarrow> bool option \<Rightarrow> RevProc \<Rightarrow> bool res" where
  "DependencyCheck HartID I hz P =
     bind_res (inst_float I P) (\<lambda>isFloat.
     bind_res (GetRegFile HartID P) (\<lambda>p.
     bind_res (rf_at p P) (\<lambda>R.
       if hz = Some True then Inr True
       else let b = board (p_feature P) isFloat R
            in bind_res (dep_on b (rs1 I)) (\<lambda>d1.
               bind_res (dep_on b (rs2 I)) (\<lambda>d2.
               bind_res (dep_on b (rs3 I)) (\<lambda>d3. Inr (d1 \<or> d2 \<or> d3)))))))"

definition DependencySet :: "u16 \<Rightarrow> RevInst \<Rightarrow> RevProc \<Rightarrow> RevProc res" where
  "DependencySet HartID I P =
     bind_res (GetRegFile HartID P) (\<lambda>p.
       if rd I \<noteq> 0 \<and> rd I < REV_NUM_REGS then
         bind_res (inst_float I P) (\<lambda>isFloat.
           Inr (upd_rf p (set_board (p_feature P) isFloat (rd I) True) P))
       else Inr P)"

definition DependencySet_reg :: "u16 \<Rightarrow> nat \<Rightarrow> bool \<Rightarrow> RevProc \<Rightarrow> RevProc res" where
  "DependencySet_reg HartID RegNum isFloat P =
     bind_res (GetRegFile HartID P) (\<lambda>p.
       if RegNum \<noteq> 0 \<and> RegNum < REV_NUM_REGS
       then Inr (upd_rf p (set_board (p_feature P) isFloat RegNum True) P) else Inr P)"

definition DependencyClear :: "u16 \<Rightarrow> RevInst \<Rightarrow> RevProc \<Rightarrow> RevProc res" where
  "DependencyClear HartID I P =
     bind_res (GetRegFile HartID P) (\<lambda>p.
       if rd I < REV_NUM_REGS then
         bind_res (inst_float I P) (\<lambda>isFloat.
           Inr (upd_rf p (set_board (p_feature P) isFloat (rd I) False) P))
       else Inr P)"

definition DependencyClear_reg :: "u16 \<Rightarrow> nat \<Rightarrow> bool \<Rightarrow> RevProc \<Rightarrow> RevProc res" where
  "DependencyClear_reg HartID RegNum isFloat P =
     bind_res (GetRegFile HartID P) (\<lambda>p.
       if RegNum \<noteq> 0 \<and> RegNum < REV_NUM_REGS
       then Inr (upd_rf p (set_board (p_feature P) isFloat RegNum False) P) else Inr P)"


section \<open>Halting and the debugger\<close>

definition Halt :: "RevProc \<Rightarrow> bool \<times> RevProc" where
  "Halt P = (if Halted P then (False, P) else (True, P\<lparr>Halted := True, SingleStep := False\<rparr>))"

definition Resume :: "RevProc \<Rightarrow> bool \<times> RevProc" where
  "Resume P = (if Halted P then (True, P\<lparr>Halted := False, SingleStep := False\<rparr>) else (False, P))"

definition SingleStepHart :: "RevProc \<Rightarrow> bool \<times> RevProc" where
  "SingleStepHart P =
     (if SingleStep P then (True, P)
      else if Halted P then (True, P\<lparr>Halted := False, SingleStep := True\<rparr>)
      else (False, P))"

text \<open>\<open>None\<close> when the function returns false and \<open>*Value\<close> is not written.\<close>

definition DebugReadReg :: "u32 \<Rightarrow> RevProc \<Rightarrow> u64 option res" where
  "DebugReadReg Idx P =
     bind_res (GetRegFile (HartToExec P) P) (\<lambda>p.
       if \<not> Halted P then Inr None
       else if unat Idx > REV_NUM_REGS - 1 then Inr None
       else bind_res (rf_at p P) (\<lambda>R.
         Inr (Some (if GetXlen (p_feature P) = 32 then ucast (get32 R (unat Idx))
                    else get64 R (unat Idx)))))"

definition DebugWriteReg :: "u32 \<Rightarrow> u64 \<Rightarrow> RevProc \<Rightarrow> (bool \<times> RevProc) res" where
  "DebugWriteReg Idx Value P =
     bind_res (GetRegFile (HartToExec P) P) (\<lambda>p.
       if \<not> Halted P then Inr (False, P)
       else if unat Idx > REV_NUM_REGS - 1 then Inr (False, P)
       else Inr (True, upd_rf p
              (if GetXlen (p_feature P) = 32 then set32 (unat Idx) (ucast (Value AND 0xFFFFFFFF))
               else set64 (unat Idx) Value) P))"


section \<open>Reset\<close>

text \<open>
  \<open>GetSymbolAddr\<close> is the loader's symbol lookup (0 when the symbol is missing), \<open>StartAddrOpt\<close>
  and \<open>StartSymbolOpt\<close> are the results of \<open>opts->GetStartAddr\<close> and \<open>opts->GetStartSymbol\<close>
  (\<open>None\<close> when they return false), \<open>Argv\<close> is \<open>opts->GetArgv()\<close>.
\<close>

definition reset_rf :: "(string \<Rightarrow> u64) \<Rightarrow> RevMem \<Rightarrow> RevRegFile \<Rightarrow> RevRegFile" where
  "reset_rf GetSymbolAddr M R =
     (let R1 = R\<lparr>RV32_PC := 0, RV64_PC := 0,
           RV32 := (\<lambda>i. if i < REV_NUM_REGS then 0 else RV32 R i),
           RV64 := (\<lambda>i. if i < REV_NUM_REGS then 0 else RV64 R i),
           SPF := (\<lambda>i. if i < REV_NUM_REGS then 0 else SPF R i),
           DPF := (\<lambda>i. if i < REV_NUM_REGS then 0 else DPF R i),
           RV32_Scoreboard := (\<lambda>i. if i < REV_NUM_REGS then False else RV32_Scoreboard R i),
           RV64_Scoreboard := (\<lambda>i. if i < REV_NUM_REGS then False else RV64_Scoreboard R i),
           SPF_Scoreboard := (\<lambda>i. if i < REV_NUM_REGS then False else SPF_Scoreboard R i),
           DPF_Scoreboard := (\<lambda>i. if i < REV_NUM_REGS then False else DPF_Scoreboard R i)\<rparr>;
          gp = GetSymbolAddr ''__global_pointer$'';
          R2 = set64 2 (stacktop M) (set32 2 (ucast (stacktop M)) R1);
          R3 = set64 3 gp (set32 3 (ucast gp) R2);
          R4 = set64 8 (get64 R3 3) (set32 8 (get32 R3 3) R3)
      in R4\<lparr>rf_cost := 0\<rparr>)"

definition for_harts :: "(u16 \<Rightarrow> RevProc \<Rightarrow> RevProc res) \<Rightarrow> RevProc \<Rightarrow> RevProc res" where
  "for_harts f P = fold (\<lambda>t r. bind_res r (f (of_nat t))) [0..<REV_HART_COUNT] (Inr P)"

definition SetupArgs :: "string list \<Rightarrow> RevProc \<Rightarrow> RevProc res" where
  "SetupArgs Argv P =
     for_harts (\<lambda>h. on_hart h (\<lambda>R.
       set64 11 (stacktop (p_mem P) + 60) (set32 11 (ucast (stacktop (p_mem P) + 60))
         (set64 10 (of_nat (length Argv)) (set32 10 (of_nat (length Argv)) R))))) P"

definition start_address :: "(string \<Rightarrow> u64) \<Rightarrow> u64 option \<Rightarrow> string option \<Rightarrow> u64 res" where
  "start_address GetSymbolAddr StartAddrOpt StartSymbolOpt =
     (case StartAddrOpt of
        None \<Rightarrow> Inl Fatal_StartAddr
      | Some a \<Rightarrow>
          bind_res (if a = 0 then (case StartSymbolOpt of
                                     None \<Rightarrow> Inl Fatal_StartAddr
                                   | Some sy \<Rightarrow> Inr (GetSymbolAddr sy))
                    else Inr a) (\<lambda>a1.
            if a1 = 0 then
              (let m = GetSymbolAddr ''main'' in if m = 0 then Inl Fatal_StartAddr else Inr m)
            else Inr a1))"

definition Reset :: "(string \<Rightarrow> u64) \<Rightarrow> u64 option \<Rightarrow> string option \<Rightarrow> string list \<Rightarrow> RevProc \<Rightarrow> RevProc res" where
  "Reset GetSymbolAddr StartAddrOpt StartSymbolOpt Argv P =
     bind_res (for_harts (\<lambda>h P. bind_res (on_hart h (reset_rf GetSymbolAddr (p_mem P)) P)
                                  (\<lambda>P1. Inr (P1\<lparr>Pipeline := []\<rparr>))) P) (\<lambda>P1.
     bind_res (start_address GetSymbolAddr StartAddrOpt StartSymbolOpt) (\<lambda>a.
     bind_res (SetupArgs Argv P1) (\<lambda>P2.
     bind_res (for_harts (\<lambda>h. on_hart h (\<lambda>R. R\<lparr>RV32_PC := ucast a, RV64_PC := a\<rparr>)) P2) (\<lambda>P3.
       Inr (P3\<lparr>HART_CTS := replicate REV_HART_COUNT True, ECALL_buf := (ECALL_buf P3)[0 := 0],
               ECALL_bytesRead := 0, ECALL_string := []\<rparr>)))))"

text \<open>
  The constructor. \<open>Depth\<close> is the configured prefetch depth (0 selects 16); \<open>buf\<close> and \<open>junk\<close> are the
  contents of the members the constructor leaves uninitialised: the buffer of 64 characters
  and the instruction record.
\<close>

definition init_RevProc :: "u32 \<Rightarrow> RevFeature \<Rightarrow> RevTables \<Rightarrow> u32 \<Rightarrow> RevMem \<Rightarrow> u8 list \<Rightarrow> RevInst \<Rightarrow> RevProc" where
  "init_RevProc pid F T Depth M buf junk =
     InitThreadTable
       \<lparr>Halted = False, Stalled = False, SingleStep = False, CrackFault = False, ALUFault = False,
        fault_width = 0, p_id = pid, ExecPC = 0, HartToDecode = 0, HartToExec = 0, Retired = 0,
        PendingCtxSwitch = False, SwapToParent = False, NextPID = 0, p_mem = M, p_feature = F,
        p_tables = T, PExec = None,
        Stats = \<lparr>totalCycles = 0, cyclesBusy = 0, cyclesIdle_Total = 0, cyclesStalled = 0,
                 floatsExec = 0, cyclesIdle_Pipeline = 0, cyclesIdle_MemoryFetch = 0\<rparr>,
        sfetch = new_RevPrefetcher (if Depth = 0 then 16 else Depth), RegFile = None,
        ThreadTable = Map.empty, ActivePIDs = [], Pipeline = [], p_Inst = junk,
        HART_CTS = replicate REV_HART_COUNT False, HART_CTE = replicate REV_HART_COUNT False,
        ECALL_buf = buf[0 := 0], ECALL_string = [], ECALL_bytesRead = 0\<rparr>"

definition new_RevProc :: "u32 \<Rightarrow> RevFeature \<Rightarrow> RevTables \<Rightarrow> u32 \<Rightarrow> RevMem \<Rightarrow> u8 list \<Rightarrow> RevInst \<Rightarrow>
    (string \<Rightarrow> u64) \<Rightarrow> u64 option \<Rightarrow> string option \<Rightarrow> string list \<Rightarrow> RevProc res" where
  "new_RevProc pid F T Depth M buf junk GetSymbolAddr StartAddrOpt StartSymbolOpt Argv =
     Reset GetSymbolAddr StartAddrOpt StartSymbolOpt Argv (init_RevProc pid F T Depth M buf junk)"


section \<open>Fault injection\<close>

text \<open>
  \<open>rand() % (2^(width))\<close>: the operator is the exclusive or, so width 2 divides by zero. \<open>rnd\<close> is
  the value \<open>rand()\<close> returns after it is seeded with the time of day.
\<close>

definition fault_value :: "nat \<Rightarrow> u32 \<Rightarrow> u32 res" where
  "fault_value rnd width =
     (if (2 XOR width) = 0 then Inl UB_DivByZero else Inr (of_nat rnd mod (2 XOR width)))"

definition HandleCrackFault :: "u32 \<Rightarrow> RevProc \<Rightarrow> RevProc" where
  "HandleCrackFault width P = P\<lparr>CrackFault := True, fault_width := width\<rparr>"

text \<open>The source stores \<open>true\<close>, that is 1, as the width.\<close>

definition HandleALUFault :: "u32 \<Rightarrow> RevProc \<Rightarrow> RevProc" where
  "HandleALUFault width P = P\<lparr>ALUFault := True, fault_width := 1\<rparr>"

text \<open>
  The candidate registers are the 32 integer registers, followed by the 32 single precision ones
  with F, else the 32 double precision ones with D; \<open>RegIdx\<close> is the index the random device
  picks among them. A write through the pointer changes the low bits of the register.
\<close>

definition fault_regs :: "RevFeature \<Rightarrow> nat" where
  "fault_regs F = (if IsModeEnabled F RV_F \<or> IsModeEnabled F RV_D then 64 else 32)"

definition HandleRegFault :: "nat \<Rightarrow> nat \<Rightarrow> u32 \<Rightarrow> RevProc \<Rightarrow> RevProc res" where
  "HandleRegFault rnd RegIdx width P =
     (let F = p_feature P;
          LWidth = (if GetXlen F = 32 \<and> unat width > GetXlen F then of_nat (GetXlen F) else width)
      in bind_res (GetRegFile (HartToExec P) P) (\<lambda>p.
         bind_res (fault_value rnd LWidth) (\<lambda>rval.
           Inr (upd_rf p (\<lambda>R.
             if RegIdx < 32 then
               (if GetXlen F = 32 then set32 RegIdx (get32 R RegIdx OR rval) R
                else set64 RegIdx (get64 R RegIdx OR ucast rval) R)
             else if IsModeEnabled F RV_F
               then R\<lparr>SPF := (SPF R)(RegIdx - 32 := SPF R (RegIdx - 32) OR rval)\<rparr>
             else R\<lparr>DPF := (DPF R)(RegIdx - 32 := DPF R (RegIdx - 32) OR ucast rval)\<rparr>) P))))"


section \<open>Fetch\<close>

definition PrefetchInst :: "RevProc \<Rightarrow> (bool \<times> RevProc) res" where
  "PrefetchInst P =
     bind_res (cur_rf P) (\<lambda>R.
       let PC = GetPC (p_feature P) R
       in if PC = 0 \<or> PC = PAN_FWARE_JUMP then Inr (False, P)
          else bind_res (IsAvail (p_feature P) PC (sfetch P) (p_mem P)) (\<lambda>(a, Q, M).
                 Inr (a, P\<lparr>sfetch := Q, p_mem := M\<rparr>)))"

text \<open>
  \<open>DecodeInst\<close>: stage 1 with the fault injection, then the decoder of the fetched word. \<open>junk\<close> is
  the uninitialised instruction record of the decoders. The decoder writes the active register
  file and, through a coprocessor, the memory.
\<close>

definition DecodeInst :: "coproc option \<Rightarrow> nat \<Rightarrow> RevInst \<Rightarrow> RevProc \<Rightarrow> (RevInst \<times> RevProc) res" where
  "DecodeInst coProc rnd junk P =
     bind_res (cur_rf P) (\<lambda>R.
       let F = p_feature P; PC = GetPC F R
       in bind_res (InstFetch F PC 0 (sfetch P) (p_mem P)) (\<lambda>(ok, Fetched, w, Q, M).
          if \<not> ok then Inl (Fatal_Fetch PC)
          else if w = 0 then Inl (Fatal_NullInst PC)
          else
            bind_res (if CrackFault P then bind_res (fault_value rnd (fault_width P)) (\<lambda>v. Inr (w OR v))
                      else Inr w) (\<lambda>w1.
              let P1 = P\<lparr>sfetch := Q, p_mem := M, CrackFault := False\<rparr>
              in bind_res (DecodeWord F (p_tables P) coProc junk w1
                             \<lparr>regs = R, mem = M, hazard = False\<rparr>) (\<lambda>(D, S).
                 bind_res (upd_cur (\<lambda>_. regs S) P1) (\<lambda>P2. Inr (D, P2\<lparr>p_mem := mem S\<rparr>))))))"


section \<open>Lemmas on the thread table\<close>

lemma rf_at_upd [simp]:
  "rf_at p (upd_rf q f P) =
     (if p = q then bind_res (rf_at p P) (\<lambda>R. Inr (f R)) else rf_at p P)"
  by (simp add: rf_at_def upd_rf_def split: option.split)

lemma upd_rf_fields [simp]:
  "ActivePIDs (upd_rf p f P) = ActivePIDs P" "p_feature (upd_rf p f P) = p_feature P"
  "p_tables (upd_rf p f P) = p_tables P" "p_mem (upd_rf p f P) = p_mem P"
  "RegFile (upd_rf p f P) = RegFile P" "Pipeline (upd_rf p f P) = Pipeline P"
  "HartToExec (upd_rf p f P) = HartToExec P" "HartToDecode (upd_rf p f P) = HartToDecode P"
  "Halted (upd_rf p f P) = Halted P" "HART_CTS (upd_rf p f P) = HART_CTS P"
  "dom (ThreadTable (upd_rf p f P)) = dom (ThreadTable P)"
  by (auto simp: upd_rf_def dom_def split: if_splits)

lemma GetActivePID_upd [simp]: "GetActivePID h (upd_rf p f P) = GetActivePID h P"
  by (simp add: GetActivePID_def)

lemma GetRegFile_upd [simp]: "GetRegFile h (upd_rf p f P) = GetRegFile h P"
  by (auto simp: GetRegFile_def upd_rf_def GetActivePID_def split: option.splits
      intro!: bind_res_cong)

lemma inst_float_upd [simp]: "inst_float I (upd_rf p f P) = inst_float I P"
  by (simp add: inst_float_def)

lemma GetRegFile_rf: "GetRegFile h P = Inr p \<Longrightarrow> \<exists>R. rf_at p P = Inr R"
  by (auto simp: GetRegFile_def rf_at_def split: option.splits)

lemma board_set_board:
  "board F fl (set_board F fl r v R) x = (if x = r then v else board F fl R x)"
  by (simp add: board_def set_board_def)

text \<open>
  The scoreboard detects read-after-write hazards: after \<open>DependencySet\<close> for an instruction
  with a destination other than register 0, the check of any instruction of the same register
  class that reads this register reports a dependency; an instruction that does not read it is
  judged as before; and \<open>DependencyClear\<close> of the instruction removes its mark.
\<close>

theorem scoreboard_hazard:
  assumes "GetRegFile h P = Inr p" and "rf_at p P = Inr R"
    and "inst_float I P = Inr fl" and "inst_float J P = Inr fl"
    and "0 < rd I" and "rd I < 32"
    and "rs1 J \<noteq> 32" and "rs2 J \<noteq> 32" and "rs3 J \<noteq> 32"
  shows "\<exists>P1 P2. DependencySet h I P = Inr P1 \<and> DependencyClear h I P1 = Inr P2 \<and>
    (rd I \<in> {rs1 J, rs2 J, rs3 J} \<longrightarrow> DependencyCheck h J None P1 = Inr True) \<and>
    (rd I \<notin> {rs1 J, rs2 J, rs3 J} \<longrightarrow> DependencyCheck h J None P1 = DependencyCheck h J None P \<and>
       DependencyCheck h J None P2 = DependencyCheck h J None P) \<and>
    (rd I \<in> {rs1 J, rs2 J, rs3 J} \<longrightarrow>
       DependencyCheck h J None P2 =
         Inr (\<exists>r\<in>{rs1 J, rs2 J, rs3 J} - {rd I}. r < 32 \<and> board (p_feature P) fl R r))"
proof -
  let ?F = "p_feature P"
  let ?P1 = "upd_rf p (set_board ?F fl (rd I) True) P"
  let ?P2 = "upd_rf p (set_board ?F fl (rd I) False) ?P1"
  have check: "DependencyCheck h J None Q =
      Inr (\<exists>r\<in>{rs1 J, rs2 J, rs3 J}. r < 32 \<and> board (p_feature Q) fl R' r)"
    if "GetRegFile h Q = Inr p" "rf_at p Q = Inr R'" "inst_float J Q = Inr fl" for Q R'
    using that assms(7-9)
    by (simp add: DependencyCheck_def dep_on_def REV_NUM_REGS_def Let_def)
  have "DependencySet h I P = Inr ?P1" and "DependencyClear h I ?P1 = Inr ?P2"
    using assms by (simp_all add: DependencySet_def DependencyClear_def REV_NUM_REGS_def)
  moreover note check [of P R] check [of ?P1 "set_board ?F fl (rd I) True R"]
    check [of ?P2 "set_board ?F fl (rd I) False (set_board ?F fl (rd I) True R)"]
  ultimately show ?thesis
    using assms by (auto simp: board_set_board)
qed

text \<open>A core without instruction tables, for the witnesses.\<close>

abbreviation junk_inst :: RevInst where
  "junk_inst \<equiv> \<lparr>opcode = 0, funct2 = 0, funct3 = 0, funct4 = 0, funct6 = 0, funct7 = 0, rd = 0, rs1 = 0,
     rs2 = 0, rs3 = 0, imm = 0, fmt = 0, rm = 0, aq = 0, rl = 0, offset = 0, jumpTarget = 0,
     instSize = 0, compressed = False, cost = 0, entry = 0\<rparr>"

definition demo_proc :: "RevMem \<Rightarrow> RevProc" where
  "demo_proc M = init_RevProc 0 demo_RV64I
     (empty_tables\<lparr>InstTable := [RevInstDefaults]\<rparr>) 2 M (replicate 64 0) junk_inst"

lemma demo_proc_fields [simp]:
  "RegFile (demo_proc M) = Some (PIDCount M + 1)" "ActivePIDs (demo_proc M) = [PIDCount M + 1]"
  "ThreadTable (demo_proc M) = [PIDCount M + 1 \<mapsto> new_RevThreadCtx (PIDCount M + 1) 0]"
  "p_mem (demo_proc M) = M\<lparr>PIDCount := PIDCount M + 1\<rparr>" "p_feature (demo_proc M) = demo_RV64I"
  "InstTable (p_tables (demo_proc M)) = [RevInstDefaults]" "HartToExec (demo_proc M) = 0"
  "ECALL_bytesRead (demo_proc M) = 0" "ECALL_string (demo_proc M) = []"
  "ECALL_buf (demo_proc M) = replicate 64 0" "Pipeline (demo_proc M) = []"
  by (simp_all add: demo_proc_def init_RevProc_def InitThreadTable_def REV_HART_COUNT_def
      GetNewThreadPID_def Let_def numeral_eq_Suc)

lemma demo_proc_rf [simp]:
  "GetRegFile 0 (demo_proc M) = Inr (PIDCount M + 1)"
  "rf_at (PIDCount M + 1) (demo_proc M) = Inr new_RevRegFile"
  by (simp_all add: GetRegFile_def GetActivePID_def rf_at_def new_RevThreadCtx_def)

theorem scoreboard_hazard_witness:
  "\<exists>P1. DependencySet 0 (junk_inst\<lparr>rd := 5\<rparr>) (demo_proc demo_mem) = Inr P1 \<and>
     DependencyCheck 0 (junk_inst\<lparr>rs2 := 5\<rparr>) None P1 = Inr True"
  using scoreboard_hazard [of 0 "demo_proc demo_mem" "PIDCount demo_mem + 1" new_RevRegFile
      "junk_inst\<lparr>rd := 5\<rparr>" False "junk_inst\<lparr>rs2 := 5\<rparr>"]
  by (auto simp: inst_float_def IsFloat_def RevInstDefaults_def)

end
