(* ===== verification/Rev_Ecall.thy ===== *)
theory Rev_Ecall
  imports Rev_Proc
begin

text \<open>
  The system calls of the core (\<open>ECALL_*\<close>, \<open>InitEcallTable\<close> and \<open>ExecEcall\<close> in src/RevProc.cc).
  A handler that needs bytes of the simulated memory reads them over several invocations: it
  returns \<open>CONTINUE\<close>, the program counter is set back, and the next execution of the same
  instruction goes on from the state in \<open>ECALL_buf\<close>, \<open>ECALL_string\<close> and \<open>ECALL_bytesRead\<close>. The
  functions of the host's C library are parameters.
\<close>

section \<open>Handlers\<close>

datatype ECALL_status_t = SUCCESS | CONTINUE | ERROR

primrec status_code :: "ECALL_status_t \<Rightarrow> u64" where
  "status_code SUCCESS = 0"
| "status_code CONTINUE = 8"
| "status_code ERROR = 255"

text \<open>
  \<open>h_read\<close> returns the result and the contents of the whole buffer afterwards; \<open>h_cwd\<close> are the
  bytes of the \<open>std::string\<close> object that \<open>getcwd\<close> copies from.
\<close>

record host =
  h_setxattr :: "u64 \<Rightarrow> u64 \<Rightarrow> u64 \<Rightarrow> u64 \<Rightarrow> u64 \<Rightarrow> u64"
  h_chdir :: "u8 list \<Rightarrow> u32"
  h_mkdirat :: "u32 \<Rightarrow> u8 list \<Rightarrow> u32 \<Rightarrow> u32"
  h_openat :: "u8 list \<Rightarrow> u32"
  h_write :: "u32 \<Rightarrow> u8 list \<Rightarrow> u32"
  h_read :: "u32 \<Rightarrow> u64 \<Rightarrow> u64 \<times> u8 list"
  h_close :: "u32 \<Rightarrow> u32"
  h_cwd :: "u8 list"

type_synonym ecall = "RevInst \<Rightarrow> RevProc \<Rightarrow> (ECALL_status_t \<times> RevProc) res"

text \<open>\<open>RegFile->RV64[n]\<close> as a value and as a target.\<close>

definition areg :: "nat \<Rightarrow> RevProc \<Rightarrow> u64 res" where
  "areg n P = bind_res (cur_rf P) (\<lambda>R. Inr (get64 R n))"

definition set_areg :: "nat \<Rightarrow> u64 \<Rightarrow> RevProc \<Rightarrow> RevProc res" where
  "set_areg n v P = upd_cur (set64 n v) P"

definition set_a0 :: "u64 \<Rightarrow> RevProc \<Rightarrow> (ECALL_status_t \<times> RevProc) res" where
  "set_a0 v P = bind_res (set_areg 10 v P) (\<lambda>P1. Inr (SUCCESS, P1))"

text \<open>
  \<open>mem->ReadVal<T>(HartToExec, Addr, ECALL_buf, inst.hazard, flags)\<close>: the first bytes of the buffer
  are overwritten, the hazard flag of the executing instruction is lowered.
\<close>

definition clear_hazard :: "(u16 \<times> RevInst \<times> bool) list \<Rightarrow> (u16 \<times> RevInst \<times> bool) list" where
  "clear_hazard ps =
     (if ps = [] then [] else butlast ps @ [(fst (last ps), fst (snd (last ps)), False)])"

definition read_buf :: "nat \<Rightarrow> u64 \<Rightarrow> RevProc \<Rightarrow> RevProc res" where
  "read_buf n Addr P =
     bind_res (ReadMem (ucast (HartToExec P)) Addr n (p_mem P)) (\<lambda>(bs, M).
       Inr (P\<lparr>p_mem := M, ECALL_buf := bs @ drop n (ECALL_buf P), Pipeline := clear_hazard (Pipeline P)\<rparr>))"

text \<open>\<open>ECALL_string.append(ECALL_buf)\<close> appends up to the first null byte of the buffer.\<close>

definition append_buf :: "RevProc \<Rightarrow> RevProc res" where
  "append_buf P =
     (if 0 \<in> set (ECALL_buf P)
      then Inr (P\<lparr>ECALL_string := ECALL_string P @ takeWhile (\<lambda>b. b \<noteq> 0) (ECALL_buf P)\<rparr>)
      else Inl UB_OutOfBounds)"

definition ECALL_setxattr :: "host \<Rightarrow> ecall" where
  "ECALL_setxattr H I P =
     bind_res (cur_rf P) (\<lambda>R.
       set_a0 (h_setxattr H (get64 R 10) (get64 R 11) (get64 R 12) (get64 R 13) (get64 R 14)) P)"

definition ECALL_brk :: ecall where
  "ECALL_brk I P =
     bind_res (areg 10 P) (\<lambda>Addr.
       if Addr > 0 \<and> Addr > heapend (p_mem P) then
         bind_res (ExpandHeap (Addr - heapend (p_mem P)) (p_mem P)) (\<lambda>(_, M).
           Inr (SUCCESS, P\<lparr>p_mem := M\<rparr>))
       else Inl (Fatal_Brk Addr))"

text \<open>The loop over the clone flags has no effect.\<close>

definition ECALL_clone :: ecall where
  "ECALL_clone I P =
     bind_res (areg 10 P) (\<lambda>CloneArgsAddr.
       if ECALL_bytesRead P = 0 then
         bind_res (read_buf 8 CloneArgsAddr P) (\<lambda>P1. Inr (CONTINUE, P1\<lparr>ECALL_bytesRead := 8\<rparr>))
       else
         bind_res (GetActivePID (HartToExec P) P) (\<lambda>parent.
         if ThreadTable P parent = None then Inl Exc_out_of_range
         else
           bind_res (CreateChildCtx P) (\<lambda>(child, P1).
           if ThreadTable P1 child = None then Inl Exc_out_of_range
           else
             bind_res (set_areg 10 (ucast child) (CtxSwitchAlert child P1)) (\<lambda>P2.
               Inr (SUCCESS, (upd_rf child (set64 10 0) P2)\<lparr>ECALL_bytesRead := 0,
                               ECALL_buf := (ECALL_buf P2)[0 := 0]\<rparr>)))))"

text \<open>
  The three handlers that read a path, one character per invocation. \<open>path_step\<close> is their common
  case distinction; \<open>finish\<close> is what they do with the complete path, which includes the null
  byte. \<open>chdir\<close> does not mark the result register while it reads on.
\<close>

definition path_step :: "bool \<Rightarrow> u64 \<Rightarrow> (u8 list \<Rightarrow> RevProc \<Rightarrow> RevProc res) \<Rightarrow> RevProc \<Rightarrow>
    (ECALL_status_t \<times> RevProc) res" where
  "path_step mark Addr finish P =
     (let c = hd (ECALL_buf P) in
      if c \<noteq> 0 then
        (let str = ECALL_string P @ [c] in
         bind_res (read_buf 1 (Addr + of_nat (length str)) (P\<lparr>ECALL_string := str\<rparr>)) (\<lambda>P1.
         bind_res (if mark then DependencySet_reg (HartToExec P) 10 False P1 else Inr P1) (\<lambda>P2.
           Inr (CONTINUE, P2))))
      else if ECALL_string P \<noteq> [] then
        (let str = ECALL_string P @ [c] in
         bind_res (finish str (P\<lparr>ECALL_string := str\<rparr>)) (\<lambda>P1.
         bind_res (DependencyClear_reg (HartToExec P) 10 False
                     (P1\<lparr>ECALL_string := [], ECALL_buf := (ECALL_buf P1)[0 := 0]\<rparr>)) (\<lambda>P2.
           Inr (SUCCESS, P2))))
      else
        bind_res (read_buf 1 Addr P) (\<lambda>P1.
        bind_res (DependencySet_reg (HartToExec P) 10 False P1) (\<lambda>P2. Inr (CONTINUE, P2))))"

definition ECALL_chdir :: "host \<Rightarrow> ecall" where
  "ECALL_chdir H I P =
     bind_res (areg 10 P) (\<lambda>Addr.
       path_step False Addr (\<lambda>str. set_areg 10 (scast (h_chdir H str))) P)"

definition ECALL_mkdirat :: "host \<Rightarrow> ecall" where
  "ECALL_mkdirat H I P =
     bind_res (cur_rf P) (\<lambda>R.
       path_step True (get64 R 11)
         (\<lambda>str. set_areg 10 (scast (h_mkdirat H (ucast (get64 R 10)) str (ucast (get64 R 12))))) P)"

text \<open>The file name's address is truncated to an \<open>int\<close>.\<close>

definition ECALL_openat :: "host \<Rightarrow> ecall" where
  "ECALL_openat H I P =
     bind_res (areg 11 P) (\<lambda>a1.
       path_step True (scast (ucast a1 :: u32))
         (\<lambda>str P1.
           let fd = h_openat H str in
           bind_res (HartToExecCtx P1) (\<lambda>ctx.
             case ctx of
               None \<Rightarrow> Inl UB_NullDeref
             | Some pid \<Rightarrow>
                 set_areg 10 (scast fd)
                   (P1\<lparr>ThreadTable := (ThreadTable P1)(pid := map_option (AddFD fd) (ThreadTable P1 pid))\<rparr>))) P)"

definition ECALL_exit :: ecall where
  "ECALL_exit I P =
     bind_res (HartToExecCtx P) (\<lambda>ctx.
     bind_res (areg 10 P) (\<lambda>status.
       case ctx of
         None \<Rightarrow> Inl UB_NullDeref
       | Some pid \<Rightarrow>
           (case ThreadTable P pid of
              None \<Rightarrow> Inl UB_NullDeref
            | Some c \<Rightarrow>
                if ParentPID c = 0 then Inl (Exit status)
                else Inr (SUCCESS, CtxSwitchAlert (ParentPID c) P))))"

definition ECALL_getcwd :: "host \<Rightarrow> ecall" where
  "ECALL_getcwd H I P =
     bind_res (areg 10 P) (\<lambda>BufAddr.
     bind_res (areg 11 P) (\<lambda>n.
       if unat n > length (h_cwd H) then Inl UB_OutOfBounds
       else bind_res (WriteMem (GetHart (p_feature P)) BufAddr (take (unat n) (h_cwd H)) (p_mem P)) (\<lambda>M.
              set_a0 BufAddr (P\<lparr>p_mem := M\<rparr>))))"

definition ECALL_getpid :: ecall where
  "ECALL_getpid I P =
     bind_res (GetActivePID (HartToExec P) P) (\<lambda>pid.
       if ThreadTable P pid = None then Inl Exc_out_of_range else set_a0 (ucast pid) P)"

definition ECALL_getppid :: ecall where
  "ECALL_getppid I P =
     bind_res (GetActivePID (HartToExec P) P) (\<lambda>pid.
       case ThreadTable P pid of
         None \<Rightarrow> Inl Exc_out_of_range
       | Some c \<Rightarrow> set_a0 (ucast (ParentPID c)) P)"

text \<open>
  \<open>write\<close> reads the buffer in pieces of 8, 4, 2 and 1 bytes; each piece is terminated by a null
  byte in \<open>ECALL_buf\<close> and appended to the string at the next invocation. The host call reads
  \<open>nbytes\<close> bytes of the string's storage, which ends with one null byte.
\<close>

definition write_chunk :: "u64 \<Rightarrow> nat" where
  "write_chunk left = (if left = 1 then 1 else if 3 \<ge> left then 2 else if 7 \<ge> left then 4 else 8)"

definition ECALL_write :: "host \<Rightarrow> ecall" where
  "ECALL_write H I P =
     bind_res (cur_rf P) (\<lambda>R.
       let fd = ucast (get64 R 10) :: u32; nbytes = get64 R 12 in
       if ucast (ECALL_bytesRead P) = nbytes then
         bind_res (append_buf P) (\<lambda>P1.
           if unat nbytes > length (ECALL_string P1) + 1 then Inl UB_OutOfBounds
           else
             bind_res (set_areg 10 (scast (h_write H fd (take (unat nbytes) (ECALL_string P1 @ [0])))) P1) (\<lambda>P2.
             bind_res (DependencyClear_reg (HartToExec P) 10 False
                         (P2\<lparr>ECALL_bytesRead := 0, ECALL_buf := (ECALL_buf P2)[0 := 0], ECALL_string := []\<rparr>))
               (\<lambda>P3. Inr (SUCCESS, P3))))
       else
         bind_res (if ECALL_bytesRead P > 0 then append_buf P else Inr P) (\<lambda>P1.
           let n = write_chunk (nbytes - ucast (ECALL_bytesRead P)) in
           bind_res (read_buf n (get64 R 11 + ucast (ECALL_bytesRead P)) P1) (\<lambda>P2.
           bind_res (DependencySet_reg (HartToExec P) 10 False
                       (P2\<lparr>ECALL_buf := (ECALL_buf P2)[n := 0],
                           ECALL_bytesRead := ECALL_bytesRead P + of_nat n\<rparr>)) (\<lambda>P3.
             Inr (CONTINUE, P3)))))"

definition ECALL_mmap :: ecall where
  "ECALL_mmap I P =
     bind_res (areg 10 P) (\<lambda>Addr.
     bind_res (areg 11 P) (\<lambda>n.
       if Addr = 0 then
         bind_res (AllocMem (n + 1) (p_mem P)) (\<lambda>(a, M). set_a0 a (P\<lparr>p_mem := M\<rparr>))
       else
         bind_res (AllocMemAt Addr n (p_mem P)) (\<lambda>(r, M).
           if r = 0 then Inl Fatal_Mmap else set_a0 Addr (P\<lparr>p_mem := M\<rparr>))))"

text \<open>
  \<open>rc\<close> is the truth value of the comparison with \<open>-1\<close>, so the test for the fatal error that
  follows never holds.
\<close>

definition ECALL_munmap :: ecall where
  "ECALL_munmap I P =
     bind_res (areg 10 P) (\<lambda>Addr.
     bind_res (areg 11 P) (\<lambda>n.
     bind_res (DeallocMem Addr n (p_mem P)) (\<lambda>(r, M).
       let rc = (if r = - 1 then 1 else 0 :: u32)
       in if rc = - 1 then Inl (Fatal_Munmap Addr n)
          else set_a0 (scast rc) (P\<lparr>p_mem := M\<rparr>))))"

definition ECALL_gettid :: ecall where
  "ECALL_gettid I P = set_a0 (ucast (HartToExec P)) P"

definition ECALL_read :: "host \<Rightarrow> ecall" where
  "ECALL_read H I P =
     bind_res (cur_rf P) (\<lambda>R.
       let fd = ucast (get64 R 10) :: u32; n = get64 R 12 in
       bind_res (HartToExecCtx P) (\<lambda>ctx.
         case ctx of
           None \<Rightarrow> Inl UB_NullDeref
         | Some pid \<Rightarrow>
             (case ThreadTable P pid of
                None \<Rightarrow> Inl UB_NullDeref
              | Some c \<Rightarrow>
                  if \<not> FindFD fd c then Inl (Fatal_Ecall 63)
                  else let (rc, bs) = h_read H fd n in
                    if length bs \<noteq> unat n then Inl UB_OutOfBounds
                    else bind_res (WriteMem (GetHart (p_feature P)) (get64 R 11) bs (p_mem P)) (\<lambda>M.
                           set_a0 rc (P\<lparr>p_mem := M\<rparr>)))))"

definition ECALL_close :: "host \<Rightarrow> ecall" where
  "ECALL_close H I P =
     bind_res (areg 10 P) (\<lambda>a0.
       let fd = ucast a0 :: u32 in
       bind_res (HartToExecCtx P) (\<lambda>ctx.
         case ctx of
           None \<Rightarrow> Inl UB_NullDeref
         | Some pid \<Rightarrow>
             (case ThreadTable P pid of
                None \<Rightarrow> Inl UB_NullDeref
              | Some c \<Rightarrow>
                  if \<not> FindFD fd c then Inl (Fatal_Ecall 57)
                  else set_a0 (scast (h_close H fd))
                         (P\<lparr>ThreadTable := (ThreadTable P)(pid \<mapsto> snd (RemoveFD fd c))\<rparr>))))"

text \<open>Handlers that only report success.\<close>

definition ecall_success :: ecall where
  "ecall_success I P = Inr (SUCCESS, P)"

definition ECALL_timer_settime :: ecall where "ECALL_timer_settime = ecall_success"
definition ECALL_timer_gettime :: ecall where "ECALL_timer_gettime = ecall_success"
definition ECALL_clock_settime :: ecall where "ECALL_clock_settime = ecall_success"
definition ECALL_clock_gettime :: ecall where "ECALL_clock_gettime = ecall_success"
definition ECALL_settimeofday :: ecall where "ECALL_settimeofday = ecall_success"
definition ECALL_gettimeofday :: ecall where "ECALL_gettimeofday = ecall_success"
definition ECALL_rt_sigprocmask :: ecall where "ECALL_rt_sigprocmask = ecall_success"
definition ECALL_timer_delete :: ecall where "ECALL_timer_delete = ecall_success"
definition ECALL_timer_create :: ecall where "ECALL_timer_create = ecall_success"
definition ECALL_nanosleep :: ecall where "ECALL_nanosleep = ecall_success"
definition ECALL_get_robust_list :: ecall where "ECALL_get_robust_list = ecall_success"
definition ECALL_set_robust_list :: ecall where "ECALL_set_robust_list = ecall_success"
definition ECALL_waitid :: ecall where "ECALL_waitid = ecall_success"
definition ECALL_exit_group :: ecall where "ECALL_exit_group = ecall_success"
definition ECALL_fdatasync :: ecall where "ECALL_fdatasync = ecall_success"
definition ECALL_fsync :: ecall where "ECALL_fsync = ecall_success"
definition ECALL_sync :: ecall where "ECALL_sync = ecall_success"
definition ECALL_tee :: ecall where "ECALL_tee = ecall_success"
definition ECALL_fchown :: ecall where "ECALL_fchown = ecall_success"
definition ECALL_fchownat :: ecall where "ECALL_fchownat = ecall_success"
definition ECALL_dup3 :: ecall where "ECALL_dup3 = ecall_success"
definition ECALL_dup :: ecall where "ECALL_dup = ecall_success"


section \<open>Dispatch\<close>

text \<open>The table is keyed by 32-bit codes, so the upper half of \<open>a7\<close> is ignored.\<close>

definition InitEcallTable :: "host \<Rightarrow> (u32 \<times> ecall) list" where
  "InitEcallTable H =
     [(5, ECALL_setxattr H), (17, ECALL_getcwd H), (23, ECALL_dup), (24, ECALL_dup3),
      (34, ECALL_mkdirat H), (49, ECALL_chdir H), (54, ECALL_fchownat), (55, ECALL_fchown),
      (56, ECALL_openat H), (57, ECALL_close H), (63, ECALL_read H), (64, ECALL_write H),
      (77, ECALL_tee), (81, ECALL_sync), (82, ECALL_fsync), (83, ECALL_fdatasync),
      (93, ECALL_exit), (94, ECALL_exit_group), (95, ECALL_waitid),
      (99, ECALL_set_robust_list), (100, ECALL_get_robust_list), (101, ECALL_nanosleep),
      (107, ECALL_timer_create), (110, ECALL_timer_delete), (135, ECALL_rt_sigprocmask),
      (169, ECALL_gettimeofday), (170, ECALL_settimeofday), (172, ECALL_getpid),
      (173, ECALL_getppid), (178, ECALL_gettid), (214, ECALL_brk), (215, ECALL_munmap),
      (220, ECALL_clone), (222, ECALL_mmap), (403, ECALL_clock_gettime),
      (404, ECALL_clock_settime), (408, ECALL_timer_gettime), (409, ECALL_timer_settime)]"

definition ExecEcall :: "host \<Rightarrow> RevInst \<Rightarrow> RevProc \<Rightarrow> RevProc res" where
  "ExecEcall H I P =
     (let F = p_feature P in
      if \<not> IsRV32 F \<and> \<not> IsRV64 F then Inr P
      else bind_res (cur_rf P) (\<lambda>R.
        let EcallCode = (if IsRV32 F then ucast (get32 R 17) else get64 R 17) :: u64 in
        case map_of (InitEcallTable H) (ucast EcallCode) of
          None \<Rightarrow> Inl (Fatal_Ecall EcallCode)
        | Some f \<Rightarrow>
            bind_res (f I P) (\<lambda>(st, P1).
            bind_res (upd_cur (\<lambda>R. R\<lparr>RV64_SCAUSE := status_code st, RV32_SCAUSE := ucast (status_code st)\<rparr>) P1)
              (\<lambda>P2.
                if st \<noteq> SUCCESS then
                  upd_cur (\<lambda>R. if IsRV32 F then R\<lparr>RV32_PC := RV32_PC R - ucast (instSize I)\<rparr>
                               else R\<lparr>RV64_PC := RV64_PC R - instSize I\<rparr>) P2
                else Inr P2))))"

end
