(* ===== verification/Rev_DecodeProps.thy ===== *)
theory Rev_DecodeProps
  imports Rev_Decode
begin

text \<open>
  Correctness of the decoder: it inverts the instruction encodings of the RISC-V manual, finds the
  table entry of every base instruction, and yields fields in range; with the instruction theorems
  this gives the meaning of an encoded instruction.
\<close>

section \<open>Bitwise comparison of instruction words\<close>

lemma u32_eq_iff:
  "(a :: u32) = b \<longleftrightarrow>
   (bit a 0 = bit b 0) \<and> (bit a 1 = bit b 1) \<and> (bit a 2 = bit b 2) \<and> (bit a 3 = bit b 3) \<and>
   (bit a 4 = bit b 4) \<and> (bit a 5 = bit b 5) \<and> (bit a 6 = bit b 6) \<and> (bit a 7 = bit b 7) \<and>
   (bit a 8 = bit b 8) \<and> (bit a 9 = bit b 9) \<and> (bit a 10 = bit b 10) \<and> (bit a 11 = bit b 11) \<and>
   (bit a 12 = bit b 12) \<and> (bit a 13 = bit b 13) \<and> (bit a 14 = bit b 14) \<and> (bit a 15 = bit b 15) \<and>
   (bit a 16 = bit b 16) \<and> (bit a 17 = bit b 17) \<and> (bit a 18 = bit b 18) \<and> (bit a 19 = bit b 19) \<and>
   (bit a 20 = bit b 20) \<and> (bit a 21 = bit b 21) \<and> (bit a 22 = bit b 22) \<and> (bit a 23 = bit b 23) \<and>
   (bit a 24 = bit b 24) \<and> (bit a 25 = bit b 25) \<and> (bit a 26 = bit b 26) \<and> (bit a 27 = bit b 27) \<and>
   (bit a 28 = bit b 28) \<and> (bit a 29 = bit b 29) \<and> (bit a 30 = bit b 30) \<and> (bit a 31 = bit b 31)"
proof -
  have "a = b \<longleftrightarrow> (\<forall>n<32. bit a n = bit b n)"
    using bit_word_eqI [of a b] by auto
  also have "\<dots> = (\<forall>n\<in>set [0..<32]. bit a n = bit b n)" by auto
  also have "\<dots> = ((bit a 0 = bit b 0) \<and> (bit a 1 = bit b 1) \<and> (bit a 2 = bit b 2) \<and> (bit a 3 = bit b 3) \<and>
   (bit a 4 = bit b 4) \<and> (bit a 5 = bit b 5) \<and> (bit a 6 = bit b 6) \<and> (bit a 7 = bit b 7) \<and>
   (bit a 8 = bit b 8) \<and> (bit a 9 = bit b 9) \<and> (bit a 10 = bit b 10) \<and> (bit a 11 = bit b 11) \<and>
   (bit a 12 = bit b 12) \<and> (bit a 13 = bit b 13) \<and> (bit a 14 = bit b 14) \<and> (bit a 15 = bit b 15) \<and>
   (bit a 16 = bit b 16) \<and> (bit a 17 = bit b 17) \<and> (bit a 18 = bit b 18) \<and> (bit a 19 = bit b 19) \<and>
   (bit a 20 = bit b 20) \<and> (bit a 21 = bit b 21) \<and> (bit a 22 = bit b 22) \<and> (bit a 23 = bit b 23) \<and>
   (bit a 24 = bit b 24) \<and> (bit a 25 = bit b 25) \<and> (bit a 26 = bit b 26) \<and> (bit a 27 = bit b 27) \<and>
   (bit a 28 = bit b 28) \<and> (bit a 29 = bit b 29) \<and> (bit a 30 = bit b 30) \<and> (bit a 31 = bit b 31))" by (simp add: upt_rec eval_nat_numeral del: bit_0)
  finally show ?thesis .
qed


lemma bit_word_ge: "LENGTH('a) \<le> n \<Longrightarrow> \<not> bit (w :: 'a::len word) n"
  by (auto dest: bit_imp_le_length)

text \<open>Comparing two instruction words field by field, bit by bit.\<close>

lemmas bitwise = u32_eq_iff bit_simps bit_word_ge


section \<open>Encodings of the RISC-V manual\<close>

type_synonym reg = "5 word"

definition enc_R :: "7 word \<Rightarrow> 3 word \<Rightarrow> 7 word \<Rightarrow> reg \<Rightarrow> reg \<Rightarrow> reg \<Rightarrow> u32" where
  "enc_R opc f3 f7 d s1 s2 = ucast opc OR push_bit 7 (ucast d) OR push_bit 12 (ucast f3) OR
     push_bit 15 (ucast s1) OR push_bit 20 (ucast s2) OR push_bit 25 (ucast f7)"

definition enc_I :: "7 word \<Rightarrow> 3 word \<Rightarrow> reg \<Rightarrow> reg \<Rightarrow> 12 word \<Rightarrow> u32" where
  "enc_I opc f3 d s1 i = ucast opc OR push_bit 7 (ucast d) OR push_bit 12 (ucast f3) OR
     push_bit 15 (ucast s1) OR push_bit 20 (ucast i)"

definition enc_S :: "7 word \<Rightarrow> 3 word \<Rightarrow> reg \<Rightarrow> reg \<Rightarrow> 12 word \<Rightarrow> u32" where
  "enc_S opc f3 s1 s2 i = ucast opc OR push_bit 7 (take_bit 5 (ucast i)) OR push_bit 12 (ucast f3) OR
     push_bit 15 (ucast s1) OR push_bit 20 (ucast s2) OR push_bit 25 (drop_bit 5 (ucast i))"

text \<open>Branch and jump offsets are even; bit 0 of the 13-bit and 21-bit offsets is not encoded.\<close>

definition enc_B :: "7 word \<Rightarrow> 3 word \<Rightarrow> reg \<Rightarrow> reg \<Rightarrow> 13 word \<Rightarrow> u32" where
  "enc_B opc f3 s1 s2 off =
     (let w = ucast off :: u32
      in ucast opc OR drop_bit 4 (w AND 0b100000000000) OR push_bit 8 (take_bit 4 (drop_bit 1 w)) OR
         push_bit 12 (ucast f3) OR push_bit 15 (ucast s1) OR push_bit 20 (ucast s2) OR
         push_bit 25 (take_bit 6 (drop_bit 5 w)) OR push_bit 31 (drop_bit 12 w))"

definition enc_U :: "7 word \<Rightarrow> reg \<Rightarrow> 20 word \<Rightarrow> u32" where
  "enc_U opc d i = ucast opc OR push_bit 7 (ucast d) OR push_bit 12 (ucast i)"

definition enc_J :: "7 word \<Rightarrow> reg \<Rightarrow> 21 word \<Rightarrow> u32" where
  "enc_J opc d off =
     (let w = ucast off :: u32
      in ucast opc OR push_bit 7 (ucast d) OR push_bit 12 (take_bit 8 (drop_bit 12 w)) OR
         push_bit 9 (w AND 0b100000000000) OR push_bit 21 (take_bit 10 (drop_bit 1 w)) OR
         push_bit 31 (drop_bit 20 w))"

lemma dec_R:
  "DECODE_RD (enc_R opc f3 f7 d s1 s2) = ucast d"
  "DECODE_RS1 (enc_R opc f3 f7 d s1 s2) = ucast s1"
  "DECODE_RS2 (enc_R opc f3 f7 d s1 s2) = ucast s2"
  "Opcode_of (enc_R opc f3 f7 d s1 s2) = ucast opc"
  "drop_bit 25 (enc_R opc f3 f7 d s1 s2) AND 0b1111111 = ucast f7"
  "drop_bit 12 (enc_R opc f3 f7 d s1 s2) AND 0b111 = ucast f3"
  by (simp_all add: enc_R_def DECODE_defs Opcode_of_def bitwise del: bit_0)

lemma dec_I:
  "DECODE_RD (enc_I opc f3 d s1 i) = ucast d"
  "DECODE_RS1 (enc_I opc f3 d s1 i) = ucast s1"
  "DECODE_IMM12 (enc_I opc f3 d s1 i) = ucast i"
  "Opcode_of (enc_I opc f3 d s1 i) = ucast opc"
  "drop_bit 12 (enc_I opc f3 d s1 i) AND 0b111 = ucast f3"
  "drop_bit 26 (enc_I opc f3 d s1 i) AND 0b1111111 = ucast (drop_bit 6 i)"
  by (simp_all add: enc_I_def DECODE_defs Opcode_of_def bitwise del: bit_0)

lemma dec_S:
  "DECODE_RS1 (enc_S opc f3 s1 s2 i) = ucast s1"
  "DECODE_RS2 (enc_S opc f3 s1 s2 i) = ucast s2"
  "DECODE_RD (enc_S opc f3 s1 s2 i) OR push_bit 5 (DECODE_FUNCT7 (enc_S opc f3 s1 s2 i)) = ucast i"
  "Opcode_of (enc_S opc f3 s1 s2 i) = ucast opc"
  "drop_bit 12 (enc_S opc f3 s1 s2 i) AND 0b111 = ucast f3"
  by (simp_all add: enc_S_def DECODE_defs Opcode_of_def bitwise del: bit_0)

lemma dec_B:
  "DECODE_RS1 (enc_B opc f3 s1 s2 off) = ucast s1"
  "DECODE_RS2 (enc_B opc f3 s1 s2 off) = ucast s2"
  "Opcode_of (enc_B opc f3 s1 s2 off) = ucast opc"
  "drop_bit 12 (enc_B opc f3 s1 s2 off) AND 0b111 = ucast f3"
  "imm (DecodeBInst junk (enc_B opc f3 s1 s2 off) e) = ucast (off AND NOT 1)"
  by (simp_all add: enc_B_def DECODE_defs Opcode_of_def DecodeBInst_def Let_def bitwise
      flip: numeral_2_eq_2 del: bit_0)

lemma dec_U:
  "DECODE_RD (enc_U opc d i) = ucast d"
  "DECODE_IMM20 (enc_U opc d i) = ucast i"
  "Opcode_of (enc_U opc d i) = ucast opc"
  by (simp_all add: enc_U_def DECODE_defs Opcode_of_def bitwise del: bit_0)

lemma dec_J:
  "DECODE_RD (enc_J opc d off) = ucast d"
  "Opcode_of (enc_J opc d off) = ucast opc"
  "imm (DecodeJInst junk (enc_J opc d off) e) = ucast (off AND NOT 1)"
  by (simp_all add: enc_J_def DECODE_defs Opcode_of_def DecodeJInst_def Let_def bitwise
      flip: numeral_2_eq_2 del: bit_0)


section \<open>Decoder fields\<close>

text \<open>The fields the decoders set.\<close>

lemma DecodeRInst_fields:
  "rd (DecodeRInst junk Inst e) = (if e_rdClass e = RegUNKNOWN then 0 else unat (DECODE_RD Inst))"
  "rs1 (DecodeRInst junk Inst e) = (if e_rs1Class e = RegUNKNOWN then 0 else unat (DECODE_RS1 Inst))"
  "rs2 (DecodeRInst junk Inst e) = (if e_rs2Class e = RegUNKNOWN then 0 else unat (DECODE_RS2 Inst))"
  "rs3 (DecodeRInst junk Inst e) = 0"
  "imm (DecodeRInst junk Inst e) = (if e_imm e = FImm \<and> e_rs2Class e = RegUNKNOWN then DECODE_IMM12 Inst AND 0b011111 else 0)"
  "instSize (DecodeRInst junk Inst e) = 4" "\<not> compressed (DecodeRInst junk Inst e)"
  by (simp_all add: DecodeRInst_def Let_def) auto

lemma DecodeIInst_fields:
  "rd (DecodeIInst junk Inst e) = (if e_rdClass e = RegUNKNOWN then 0 else unat (DECODE_RD Inst))"
  "rs1 (DecodeIInst junk Inst e) = (if e_rs1Class e = RegUNKNOWN then 0 else unat (DECODE_RS1 Inst))"
  "rs2 (DecodeIInst junk Inst e) = 0"
  "rs3 (DecodeIInst junk Inst e) = 0"
  "imm (DecodeIInst junk Inst e) = DECODE_IMM12 Inst"
  "instSize (DecodeIInst junk Inst e) = 4" "\<not> compressed (DecodeIInst junk Inst e)"
  by (simp_all add: DecodeIInst_def Let_def)

lemma DecodeSInst_fields:
  "rd (DecodeSInst junk Inst e) = 0"
  "rs1 (DecodeSInst junk Inst e) = (if e_rs1Class e = RegUNKNOWN then 0 else unat (DECODE_RS1 Inst))"
  "rs2 (DecodeSInst junk Inst e) = (if e_rs2Class e = RegUNKNOWN then 0 else unat (DECODE_RS2 Inst))"
  "rs3 (DecodeSInst junk Inst e) = 0"
  "imm (DecodeSInst junk Inst e) = DECODE_RD Inst OR push_bit 5 (DECODE_FUNCT7 Inst)"
  "instSize (DecodeSInst junk Inst e) = 4" "\<not> compressed (DecodeSInst junk Inst e)"
  by (simp_all add: DecodeSInst_def Let_def)

lemma DecodeUInst_fields:
  "rd (DecodeUInst junk Inst e) = (if e_rdClass e = RegUNKNOWN then 0 else unat (DECODE_RD Inst))"
  "rs1 (DecodeUInst junk Inst e) = 0"
  "rs2 (DecodeUInst junk Inst e) = 0"
  "rs3 (DecodeUInst junk Inst e) = 0"
  "imm (DecodeUInst junk Inst e) = DECODE_IMM20 Inst"
  "instSize (DecodeUInst junk Inst e) = 4" "\<not> compressed (DecodeUInst junk Inst e)"
  by (simp_all add: DecodeUInst_def Let_def)

lemma DecodeBInst_fields:
  "rd (DecodeBInst junk Inst e) = 0"
  "rs1 (DecodeBInst junk Inst e) = (if e_rs1Class e = RegUNKNOWN then 0 else unat (DECODE_RS1 Inst))"
  "rs2 (DecodeBInst junk Inst e) = (if e_rs2Class e = RegUNKNOWN then 0 else unat (DECODE_RS2 Inst))"
  "rs3 (DecodeBInst junk Inst e) = 0"
  "instSize (DecodeBInst junk Inst e) = 4" "\<not> compressed (DecodeBInst junk Inst e)"
  by (simp_all add: DecodeBInst_def Let_def)

lemma DecodeJInst_fields:
  "rd (DecodeJInst junk Inst e) = (if e_rdClass e = RegUNKNOWN then 0 else unat (DECODE_RD Inst))"
  "rs1 (DecodeJInst junk Inst e) = 0"
  "rs2 (DecodeJInst junk Inst e) = 0"
  "rs3 (DecodeJInst junk Inst e) = 0"
  "instSize (DecodeJInst junk Inst e) = 4" "\<not> compressed (DecodeJInst junk Inst e)"
  by (simp_all add: DecodeJInst_def Let_def)

lemma DecodeR4Inst_fields:
  "rd (DecodeR4Inst junk Inst e) = (if e_rdClass e = RegUNKNOWN then 0 else unat (DECODE_RD Inst))"
  "rs1 (DecodeR4Inst junk Inst e) = (if e_rs1Class e = RegUNKNOWN then 0 else unat (DECODE_RS1 Inst))"
  "rs2 (DecodeR4Inst junk Inst e) = (if e_rs2Class e = RegUNKNOWN then 0 else unat (DECODE_RS2 Inst))"
  "rs3 (DecodeR4Inst junk Inst e) = (if e_rs3Class e = RegUNKNOWN then 0 else unat (DECODE_RS3 Inst))"
  "imm (DecodeR4Inst junk Inst e) = 0"
  "instSize (DecodeR4Inst junk Inst e) = 4" "\<not> compressed (DecodeR4Inst junk Inst e)"
  by (simp_all add: DecodeR4Inst_def Let_def)


section \<open>Round trip\<close>

text \<open>
  C9. The decoders invert the encodings of the RISC-V manual. For each of the formats R, I, S, B,
  U and J, decoding an encoded instruction returns the encoded registers (those the entry uses) and
  the encoded immediate, whatever the other fields; branch and jump offsets come back with the bit 0
  that is not encoded cleared.
\<close>

theorem decode_encode:
  "(let I = DecodeRInst junk (enc_R opc f3 f7 d s1 s2) e
    in rd I = (if e_rdClass e = RegUNKNOWN then 0 else unat d) \<and>
       rs1 I = (if e_rs1Class e = RegUNKNOWN then 0 else unat s1) \<and>
       rs2 I = (if e_rs2Class e = RegUNKNOWN then 0 else unat s2)) \<and>
   (let I = DecodeIInst junk (enc_I opc f3 d s1 i) e
    in rd I = (if e_rdClass e = RegUNKNOWN then 0 else unat d) \<and>
       rs1 I = (if e_rs1Class e = RegUNKNOWN then 0 else unat s1) \<and> imm I = ucast i) \<and>
   (let I = DecodeSInst junk (enc_S opc f3 s1 s2 i) e
    in rs1 I = (if e_rs1Class e = RegUNKNOWN then 0 else unat s1) \<and>
       rs2 I = (if e_rs2Class e = RegUNKNOWN then 0 else unat s2) \<and> imm I = ucast i) \<and>
   (let I = DecodeBInst junk (enc_B opc f3 s1 s2 boff) e
    in rs1 I = (if e_rs1Class e = RegUNKNOWN then 0 else unat s1) \<and>
       rs2 I = (if e_rs2Class e = RegUNKNOWN then 0 else unat s2) \<and> imm I = ucast (boff AND NOT 1)) \<and>
   (let I = DecodeUInst junk (enc_U opc d ui) e
    in rd I = (if e_rdClass e = RegUNKNOWN then 0 else unat d) \<and> imm I = ucast ui) \<and>
   (let I = DecodeJInst junk (enc_J opc d joff) e
    in rd I = (if e_rdClass e = RegUNKNOWN then 0 else unat d) \<and> imm I = ucast (joff AND NOT 1))"
proof -
  have u: "unat (ucast (r :: reg) :: u32) = unat r" for r
    by (simp add: unsigned_ucast_eq take_bit_nat_eq_self less_trans [OF unsigned_less])
  show ?thesis
    by (simp add: Let_def DecodeRInst_fields DecodeIInst_fields DecodeSInst_fields DecodeUInst_fields
        DecodeBInst_fields DecodeJInst_fields dec_R dec_I dec_S dec_B dec_U dec_J u)
qed


section \<open>Ranges\<close>

lemma fits_take_bit: "take_bit n x = x \<Longrightarrow> fits n (x :: 'a::len word)"
  unfolding fits_def by (metis take_bit_nat_less_exp unsigned_take_bit_eq)

lemma DECODE_reg_less:
  "unat (DECODE_RD (x :: u32)) < 32" "unat (DECODE_RS1 x) < 32" "unat (DECODE_RS2 x) < 32"
  "unat (DECODE_RS3 x) < 32" "unat (DECODE_RD (y :: u16)) < 32" "unat (DECODE_LOWER_CRS2 y) < 32"
  by (simp_all add: DECODE_defs unat_and_31)

text \<open>What the immediate of each format looks like.\<close>

definition imm_ok :: "RevInstF \<Rightarrow> u32 \<Rightarrow> bool" where
  "imm_ok f x = (case f of RVTypeR \<Rightarrow> fits 5 x | RVTypeI \<Rightarrow> fits 12 x | RVTypeS \<Rightarrow> fits 12 x
     | RVTypeU \<Rightarrow> fits 20 x | RVTypeB \<Rightarrow> fits 13 x \<and> even x | RVTypeJ \<Rightarrow> fits 21 x \<and> even x | _ \<Rightarrow> x = 0)"

lemma decode_format_wf:
  assumes "decode_format junk Inst e = Some D"
  shows "rd D < 32 \<and> rs1 D < 32 \<and> rs2 D < 32 \<and> rs3 D < 32 \<and> instSize D = 4 \<and> \<not> compressed D \<and>
    imm_ok (e_format e) (imm D)"
proof -
  have i: "fits 5 (DECODE_IMM12 Inst AND 0b011111)" "fits 12 (DECODE_IMM12 Inst)"
    "fits 12 (DECODE_RD Inst OR push_bit 5 (DECODE_FUNCT7 Inst))" "fits 20 (DECODE_IMM20 Inst)"
    "fits 13 (imm (DecodeBInst junk Inst e))" "fits 21 (imm (DecodeJInst junk Inst e))" "fits 5 (0 :: u32)"
    by (rule fits_take_bit, simp add: DECODE_defs DecodeBInst_def DecodeJInst_def Let_def bitwise del: bit_0)+
  have ev: "even (imm (DecodeBInst junk Inst e))" "even (imm (DecodeJInst junk Inst e))"
    by (simp_all add: DecodeBInst_def DecodeJInst_def Let_def even_or_iff even_and_iff)
  show ?thesis
    using assms
    by (cases "e_format e"; simp add: decode_format_def)
      (drule sym, simp add: imm_ok_def i ev DECODE_reg_less
        DecodeRInst_fields DecodeIInst_fields DecodeSInst_fields DecodeUInst_fields DecodeBInst_fields
        DecodeJInst_fields DecodeR4Inst_fields)+
qed

text \<open>
  C12. Decoded instructions are well formed. Whatever the 32-bit word and the table entry, a
  decoder that returns leaves all four register numbers below 32 (so every access of an
  instruction function stays inside the register file), the size 4, and an immediate that fits the field of its
  format: 5 bits for R, 12 for I and S, 20 for U, 13 for B and 21 for J, the last two even, and 0 for R4. (\<open>jal\<close>
  sign-extends this immediate from 20 bits only, which is a bug of the instruction function.) An entry with a
  compressed or unknown format is rejected.
\<close>

theorem decode_format_in_range:
  assumes "decode_format junk Inst e = Some D"
  shows "rd D < 32 \<and> rs1 D < 32 \<and> rs2 D < 32 \<and> rs3 D < 32 \<and> instSize D = 4 \<and> \<not> compressed D \<and>
    imm_ok (e_format e) (imm D)"
  by (rule decode_format_wf [OF assms])

theorem decode_format_in_range_witness:
  "fits 12 (imm (DecodeIInst (demo_inst 0 0 0 0) 0xFFF58593 (RV32ITable ! 18)))"
proof -
  have "decode_format (demo_inst 0 0 0 0) 0xFFF58593 (RV32ITable ! 18) =
      Some (DecodeIInst (demo_inst 0 0 0 0) 0xFFF58593 (RV32ITable ! 18))" "e_format (RV32ITable ! 18) = RVTypeI"
    by (simp_all add: decode_format_def RV32ITable_def RevInstDefaults_def)
  from decode_format_in_range [OF this(1)] this(2) show ?thesis by (simp add: imm_ok_def)
qed


section \<open>The base instructions are found\<close>

lemma RV32I_encodings:
  "map CompressEncoding RV32ITable =
    [0x37, 0x17, 0x6F, 0x67, 0x63, 0x163, 0x463, 0x563, 0x663, 0x763, 0x3, 0x103, 0x203, 0x403,
     0x503, 0x23, 0x123, 0x223, 0x13, 0x213, 0x313, 0x413, 0x613, 0x713, 0x113, 0x513, 0x8513,
     0x33, 0x10033, 0x133, 0x233, 0x333, 0x433, 0x533, 0x10533, 0x633, 0x733, 0xF, 0x10F, 0x73,
     0x40073, 0x173, 0x273, 0x373, 0x573, 0x673, 0x773]"
  by (simp add: RV32ITable_def RevInstDefaults_def CompressEncoding_def)

lemma RV64I_encodings:
  "map CompressEncoding RV64ITable =
    [0x603, 0x303, 0x323, 0x1B, 0x11B, 0x51B, 0x1051B, 0x3B, 0x1003B, 0x13B, 0x53B, 0x1053B]"
  by (simp add: RV64ITable_def RevInstDefaults_def CompressEncoding_def)

lemma base_distinct: "distinct (map CompressEncoding (RV32ITable @ RV64ITable))"
  unfolding map_append RV32I_encodings RV64I_encodings by simp

lemma RV32I_length: "length RV32ITable = 47"
  by (simp add: RV32ITable_def)


lemma unat_length_pred:
  "0 < n \<Longrightarrow> n < 2 ^ 32 \<Longrightarrow> unat (of_nat n - 1 :: u64) = n - 1"
  by (subst unat_minus_one) (auto simp: unat_of_nat_u64 unat_eq_0 dest: arg_cong [of _ _ unat])

lemma with_entry_in:
  assumes "i < length (InstTable T)" and "length (InstTable T) < 2 ^ 32"
  shows "with_entry T PC i dec S =
    (case dec (InstTable T ! i) of
       None \<Rightarrow> Inl (Fatal_Format PC)
     | Some D \<Rightarrow> Inr (D, updR (\<lambda>R. R\<lparr>Entry := i, trigger := False, rf_cost := e_cost (InstTable T ! i)\<rparr>) S))"
proof -
  have "\<not> of_nat i > (of_nat (length (InstTable T)) - 1 :: u64)"
    using assms unat_length_pred [of "length (InstTable T)"]
    by (cases "InstTable T = []") (auto simp: word_less_nat_alt unat_of_nat_u64)
  then show ?thesis using assms(1) by (simp add: with_entry_def Let_def)
qed

text \<open>No extension has more than 100 entries, and at most 11 are loaded.\<close>

definition table_small :: "RevTables \<Rightarrow> bool" where
  "table_small T \<longleftrightarrow> length (InstTable T) \<le> 100 * length (Extensions T)"

definition ext_small :: "RevExt \<Rightarrow> bool" where
  "ext_small X \<longleftrightarrow> length (x_table X) + length (x_ctable X) + length (x_otable X) \<le> 100"

lemma ext_small_all:
  "ext_small new_RV32I" "ext_small new_RV64I" "ext_small new_RV32M" "ext_small new_RV64M"
  "ext_small (new_RV32A ext)" "ext_small (new_RV64A ext)" "ext_small (new_RV32F ext)"
  "ext_small (new_RV64F ext)" "ext_small (new_RV32D ext)" "ext_small (new_RV64D ext)" "ext_small new_RV64P"
  by (simp_all add: ext_small_def new_RV32I_def new_RV64I_def new_RV32M_def new_RV64M_def new_RV32A_def
      new_RV64A_def new_RV32F_def new_RV64F_def new_RV32D_def new_RV64D_def new_RV64P_def table_defs)

lemma EnableExt_small: "table_small T \<Longrightarrow> ext_small X \<Longrightarrow> table_small (EnableExt F X b T)"
  by (simp add: table_small_def ext_small_def EnableExt_frame)

lemma Seed_length: "length (InstTable (SeedInstTable ext F empty_tables)) < 2 ^ 32"
proof -
  have 0: "table_small empty_tables" by (simp add: table_small_def empty_tables_def)
  have "table_small (SeedInstTable ext F empty_tables)"
    unfolding SeedInstTable_def Let_def by (auto intro!: EnableExt_small ext_small_all 0)
  moreover have "length (Extensions (SeedInstTable ext F empty_tables)) \<le> 11"
    by (simp add: SeedInstTable_def Let_def EnableExt_frame empty_tables_def)
  ultimately show ?thesis by (simp add: table_small_def)
qed

lemma Load_None:
  assumes "LoadInstructionTable ext F None = Inr T"
  shows "InstTable T = InstTable (SeedInstTable ext F empty_tables)"
  using assms by (auto simp: LoadInstructionTable_def ReadOverrideTables_def InitTableMapping_def
      fold_map_entry_frame)

text \<open>The tables of the base instructions: those of RV32I and, on a 64-bit core, those of RV64I.\<close>

definition base_table :: "RevFeature \<Rightarrow> insn RevInstEntry set" where
  "base_table F = set RV32ITable \<union> (if GetXlen F = 64 then set RV64ITable else {})"

lemma base_table_cost: "\<forall>e\<in>set RV32ITable. e_cost e = 1" "\<forall>e\<in>set RV64ITable. e_cost e = 1"
  by (simp_all add: RV32ITable_def RV64ITable_def RevInstDefaults_def)

lemma base_table_wide: "\<forall>e\<in>set RV32ITable. \<not> e_compressed e" "\<forall>e\<in>set RV64ITable. \<not> e_compressed e"
  using ext_ok_all(1,2) by (simp_all add: ext_ok_def new_RV32I_def new_RV64I_def)

lemma base_table_cases: "e \<in> base_table F \<Longrightarrow> e \<in> set RV32ITable \<or> e \<in> set RV64ITable"
  unfolding base_table_def by (auto split: if_splits)

lemma base_table_facts:
  assumes "e \<in> base_table F"
  shows "\<not> e_compressed e" and "e_cost e = 1"
  using base_table_cases [OF assms]
  by (auto dest: bspec [OF base_table_wide(1)] bspec [OF base_table_wide(2)]
      bspec [OF base_table_cost(1)] bspec [OF base_table_cost(2)])

lemma base_table_inj:
  assumes "e \<in> base_table F" and "e' \<in> base_table F" and "CompressEncoding e = CompressEncoding e'"
  shows "e = e'"
proof -
  have "inj_on CompressEncoding (set (RV32ITable @ RV64ITable))" using base_distinct by (simp only: distinct_map)
  moreover have "base_table F \<subseteq> set (RV32ITable @ RV64ITable)" by (simp add: base_table_def)
  ultimately show ?thesis using assms by (meson inj_onD subsetD)
qed

lemma base_table_entries:
  assumes "LoadInstructionTable ext F None = Inr T" and "IsModeEnabled F RV_I"
  obtains n where "n \<le> length (InstTable T)" and "base_table F \<subseteq> set (take n (InstTable T))"
    and "\<forall>e\<in>set (take n (InstTable T)). e_compressed e \<or> e \<in> base_table F"
proof (cases "GetXlen F = 64")
  case True
  obtain es where es: "InstTable T = RV32ITable @ (if IsModeEnabled F RV_C then RV32ICTable else []) @ RV64ITable @ es"
    by (rule Load_RV64I_prefix [OF assms True])
  have "\<forall>e\<in>set RV32ICTable. e_compressed e" using ext_ok_all(1) by (simp add: ext_ok_def new_RV32I_def)
  then show thesis using that [of "length (InstTable T) - length es"] True
    by (auto simp: es base_table_def)
next
  case False
  obtain es where es: "InstTable T = RV32ITable @ es" by (rule Load_RV32I_prefix [OF assms])
  then show thesis using that [of "length RV32ITable"] False by (simp add: base_table_def)
qed

text \<open>An instruction word with the key of a base instruction is decoded with that instruction's entry.\<close>

lemma base_found:
  assumes load: "LoadInstructionTable ext F None = Inr T" and I: "IsModeEnabled F RV_I" and e: "e \<in> base_table F"
    and key: "Enc_of w = CompressEncoding e" and low: "Opcode_of w AND 0b11 = 0b11"
  obtains i where "EncToEntry T (Enc_of w) = Some i" and "InstTable T ! i = e" and "i < length (InstTable T)"
    and "length (InstTable T) < 2 ^ 32"
    and "\<And>cp junk S. DecodeWord F T cp junk w S = with_entry T (GetPC F (regs S)) i (decode_format junk w) S"
proof -
  obtain n where n: "n \<le> length (InstTable T)" "base_table F \<subseteq> set (take n (InstTable T))"
    "\<forall>e\<in>set (take n (InstTable T)). e_compressed e \<or> e \<in> base_table F"
    by (rule base_table_entries [OF load I])
  define P where "P i \<longleftrightarrow> i < n \<and> InstTable T ! i = e" for i
  have "\<exists>i. P i" using n(1,2) e by (auto simp: P_def subset_eq in_set_conv_nth) (metis nth_take)
  then have P: "P (LEAST i. P i)" by (rule LeastI_ex)
  have least: "j < (LEAST i. P i) \<Longrightarrow> \<not> P j" for j by (rule not_less_Least)
  define i where "i = (LEAST i. P i)"
  have i: "i < n" "InstTable T ! i = e" "i < length (InstTable T)" using P n(1) by (simp_all add: P_def i_def)
  have first: "e_compressed (InstTable T ! j) \<or> CompressEncoding (InstTable T ! j) \<noteq> Enc_of w" if "j < i" for j
  proof -
    have "InstTable T ! j \<in> set (take n (InstTable T))"
      using that i n(1) by (metis in_set_conv_nth length_take less_trans min.absorb2 nth_take)
    moreover have "InstTable T ! j \<noteq> e" using least [of j] that i by (auto simp: P_def i_def)
    ultimately show ?thesis using n(3) base_table_inj [OF _ e] key by metis
  qed
  have "EncToEntry T (Enc_of w) = Some i"
    using key_pairs_first [of "\<lambda>e. \<not> e_compressed e" CompressEncoding "InstTable T" "Enc_of w" i]
      LoadInstructionTable_cases(4) [OF load] i key base_table_facts(1) [OF e] first
    by (auto simp: Load_None [OF load, symmetric])
  moreover from this have "DecodeWord F T cp junk w S = with_entry T (GetPC F (regs S)) i (decode_format junk w) S" for cp junk S
    using low by (simp add: DecodeWord_def Let_def)
  moreover have "length (InstTable T) < 2 ^ 32" unfolding Load_None [OF load] by (rule Seed_length)
  ultimately show thesis using that i by blast
qed


section \<open>Decode and execute\<close>

text \<open>One fetched instruction word: decode it, then run the function its entry dispatches to.\<close>

definition decode_exec ::
  "RevFeature \<Rightarrow> RevTables \<Rightarrow> coproc option \<Rightarrow> RevInst \<Rightarrow> u32 \<Rightarrow> mstate \<Rightarrow> mstate res" where
  "decode_exec F T cp junk w S =
     bind_res (DecodeWord F T cp junk w S) (\<lambda>(I, S1). ExecInst F T (GetPC F (regs S)) I S1)"

text \<open>A core whose tables were loaded for its own feature set, with the base instructions.\<close>

definition core_ok :: "(string \<Rightarrow> insn) \<Rightarrow> RevFeature \<Rightarrow> RevTables \<Rightarrow> bool" where
  "core_ok ext F T \<longleftrightarrow> LoadInstructionTable ext F None = Inr T \<and> IsModeEnabled F RV_I \<and>
     (GetXlen F = 64 \<or> \<not> IsModeEnabled F RV_C)"

text \<open>
  The entry \<open>i\<close> of the table is that of the base instruction \<open>e\<close>: the word is decoded with it, and the dispatch
  reaches its function.
\<close>

lemma base_dispatch:
  assumes core: "core_ok ext F T" and e: "e \<in> base_table F" and f: "e_func e = Some f"
    and key: "Enc_of w = CompressEncoding e" and low: "Opcode_of w AND 0b11 = 0b11"
    and dec: "decode_format junk w e = Some D"
  obtains i k j where "EncToEntry T (Enc_of w) = Some i" and "i < length (InstTable T)"
    and "EntryToExt T i = Some (k, j)" and "k < length (Extensions T)"
    and "\<And>I S. \<not> compressed I \<Longrightarrow> Execute (Extensions T ! k) j F I S = f F I S"
    and "\<And>cp S. DecodeWord F T cp junk w S =
      Inr (D, updR (\<lambda>R. R\<lparr>Entry := i, trigger := False, rf_cost := 1\<rparr>) S)"
proof -
  have load: "LoadInstructionTable ext F None = Inr T" and I: "IsModeEnabled F RV_I"
    and x: "GetXlen F = 64 \<or> \<not> IsModeEnabled F RV_C" using core by (simp_all add: core_ok_def)
  obtain i where i: "EncToEntry T (Enc_of w) = Some i" "InstTable T ! i = e" "i < length (InstTable T)"
    "length (InstTable T) < 2 ^ 32"
    "\<And>cp S. DecodeWord F T cp junk w S = with_entry T (GetPC F (regs S)) i (decode_format junk w) S"
    by (rule base_found [OF load I e key low]) blast
  have "DecodeWord F T cp junk w S = Inr (D, updR (\<lambda>R. R\<lparr>Entry := i, trigger := False, rf_cost := 1\<rparr>) S)" for cp S
    by (simp add: i with_entry_in [OF i(3,4)] dec base_table_facts(2) [OF e])
  moreover obtain k j where "EntryToExt T i = Some (k, j)" "k < length (Extensions T)"
    "\<forall>I S. compressed I = e_compressed e \<longrightarrow> Execute (Extensions T ! k) j F I S = f F I S"
    using dispatch_entry [OF load x i(3)] f by (auto simp: i(2))
  ultimately show thesis using that i base_table_facts(1) [OF e] by simp
qed

lemma base_exec:
  assumes core: "core_ok ext F T" and e: "e \<in> base_table F" and f: "e_func e = Some f"
    and key: "Enc_of w = CompressEncoding e" and low: "Opcode_of w AND 0b11 = 0b11"
    and dec: "decode_format junk w e = Some D"
  shows "\<exists>i. decode_exec F T cp junk w S =
    f F D (updR (\<lambda>R. R\<lparr>Entry := i, trigger := False, rf_cost := 1\<rparr>) S)"
proof -
  obtain i k j where i: "EntryToExt T i = Some (k, j)" "k < length (Extensions T)"
    "\<And>I S. \<not> compressed I \<Longrightarrow> Execute (Extensions T ! k) j F I S = f F I S"
    "\<And>cp S. DecodeWord F T cp junk w S = Inr (D, updR (\<lambda>R. R\<lparr>Entry := i, trigger := False, rf_cost := 1\<rparr>) S)"
    by (rule base_dispatch [OF assms]) blast
  moreover have "\<not> compressed D" using decode_format_wf [OF dec] by simp
  ultimately show ?thesis by (auto simp: decode_exec_def ExecInst_def)
qed

end
