(* ===== verification/Rev_EndToEnd.thy ===== *)
theory Rev_EndToEnd
  imports Rev_DecodeProps
begin

text \<open>
  From the instruction word to its effect: the encoding of the RISC-V manual is decoded, dispatched
  and executed with the effect the manual gives it. The statements join the decoder, the tables, the
  dispatch and the instruction functions.
\<close>

section \<open>Encodings by operation\<close>

text \<open>Function fields and table entry of the operations.\<close>

fun alu_f3 :: "alu_op \<Rightarrow> 3 word" where
  "alu_f3 ALU_ADD = 0" | "alu_f3 ALU_SUB = 0" | "alu_f3 ALU_SLL = 1" | "alu_f3 ALU_SLT = 2"
| "alu_f3 ALU_SLTU = 3" | "alu_f3 ALU_XOR = 4" | "alu_f3 ALU_SRL = 5" | "alu_f3 ALU_SRA = 5"
| "alu_f3 ALU_OR = 6" | "alu_f3 ALU_AND = 7"

fun alu_f7 :: "alu_op \<Rightarrow> 7 word" where
  "alu_f7 ALU_SUB = 0b0100000" | "alu_f7 ALU_SRA = 0b0100000" | "alu_f7 op = 0"

fun alu_idx :: "alu_op \<Rightarrow> nat" where
  "alu_idx ALU_ADD = 27" | "alu_idx ALU_SUB = 28" | "alu_idx ALU_SLL = 29" | "alu_idx ALU_SLT = 30"
| "alu_idx ALU_SLTU = 31" | "alu_idx ALU_XOR = 32" | "alu_idx ALU_SRL = 33" | "alu_idx ALU_SRA = 34"
| "alu_idx ALU_OR = 35" | "alu_idx ALU_AND = 36"

abbreviation alu_entry_of :: "alu_op \<Rightarrow> insn RevInstEntry" where
  "alu_entry_of op \<equiv> RV32ITable ! alu_idx op"

fun branch_f3 :: "branch_op \<Rightarrow> 3 word" where
  "branch_f3 BR_EQ = 0" | "branch_f3 BR_NE = 1" | "branch_f3 BR_LT = 4" | "branch_f3 BR_GE = 5"
| "branch_f3 BR_LTU = 6" | "branch_f3 BR_GEU = 7"

fun branch_idx :: "branch_op \<Rightarrow> nat" where
  "branch_idx BR_EQ = 4" | "branch_idx BR_NE = 5" | "branch_idx BR_LT = 6" | "branch_idx BR_GE = 7"
| "branch_idx BR_LTU = 8" | "branch_idx BR_GEU = 9"

abbreviation branch_entry_of :: "branch_op \<Rightarrow> insn RevInstEntry" where
  "branch_entry_of op \<equiv> RV32ITable ! branch_idx op"

fun load_f3 :: "load_op \<Rightarrow> 3 word" where
  "load_f3 LD_B = 0" | "load_f3 LD_H = 1" | "load_f3 LD_W = 2" | "load_f3 LD_BU = 4" | "load_f3 LD_HU = 5"
| "load_f3 LD_WU = 6" | "load_f3 LD_D = 3"

fun load_entry_of :: "load_op \<Rightarrow> insn RevInstEntry" where
  "load_entry_of LD_B = RV32ITable ! 10" | "load_entry_of LD_H = RV32ITable ! 11"
| "load_entry_of LD_W = RV32ITable ! 12" | "load_entry_of LD_BU = RV32ITable ! 13"
| "load_entry_of LD_HU = RV32ITable ! 14" | "load_entry_of LD_WU = RV64ITable ! 0"
| "load_entry_of LD_D = RV64ITable ! 1"

fun store_f3 :: "store_op \<Rightarrow> 3 word" where
  "store_f3 ST_B = 0" | "store_f3 ST_H = 1" | "store_f3 ST_W = 2"
| "store_f3 ST_D = 3"

fun store_entry_of :: "store_op \<Rightarrow> insn RevInstEntry" where
  "store_entry_of ST_B = RV32ITable ! 15" | "store_entry_of ST_H = RV32ITable ! 16"
| "store_entry_of ST_W = RV32ITable ! 17" | "store_entry_of ST_D = RV64ITable ! 2"

definition enc_alu :: "alu_op \<Rightarrow> reg \<Rightarrow> reg \<Rightarrow> reg \<Rightarrow> u32" where
  "enc_alu op d s1 s2 = enc_R 0b0110011 (alu_f3 op) (alu_f7 op) d s1 s2"

definition enc_branch :: "branch_op \<Rightarrow> reg \<Rightarrow> reg \<Rightarrow> 13 word \<Rightarrow> u32" where
  "enc_branch op s1 s2 off = enc_B 0b1100011 (branch_f3 op) s1 s2 off"

definition enc_load :: "load_op \<Rightarrow> reg \<Rightarrow> reg \<Rightarrow> 12 word \<Rightarrow> u32" where
  "enc_load op d s1 i = enc_I 0b0000011 (load_f3 op) d s1 i"

definition enc_store :: "store_op \<Rightarrow> reg \<Rightarrow> reg \<Rightarrow> 12 word \<Rightarrow> u32" where
  "enc_store op s1 s2 i = enc_S 0b0100011 (store_f3 op) s1 s2 i"


section \<open>Keys and entries\<close>

lemma alu_fields:
  "inst42 (enc_R 0b0110011 f3 f7 d s1 s2) = 4" "inst65 (enc_R 0b0110011 f3 f7 d s1 s2) = 1"
  by (simp_all add: inst42_def inst65_def dec_R)

lemma alu_Enc: "Enc_of (enc_R 0b0110011 f3 f7 d s1 s2) = 0b0110011 OR push_bit 8 (ucast f3) OR push_bit 11 (ucast f7)"
proof -
  let ?w = "enc_R 0b0110011 f3 f7 d s1 s2"
  have f3: "Funct3_of ?w = ucast f3" by (simp add: Funct3_of_def alu_fields dec_R)
  have "Funct7_of ?w = ucast f7" by (simp add: Funct7_of_def f3 alu_fields dec_R)
  moreover have "Imm12_of ?w = 0" "fcvtOp_of ?w = 0"
    by (simp_all add: Imm12_of_def fcvtOp_of_def alu_fields dec_R)
  ultimately show ?thesis by (simp add: Enc_of_def f3 dec_R)
qed

lemma branch_fields:
  "inst42 (enc_B 0b1100011 f3 s1 s2 off) = 0" "inst65 (enc_B 0b1100011 f3 s1 s2 off) = 3"
  by (simp_all add: inst42_def inst65_def dec_B)

lemma branch_Enc: "Enc_of (enc_B 0b1100011 f3 s1 s2 off) = 0b1100011 OR push_bit 8 (ucast f3)"
proof -
  let ?w = "enc_B 0b1100011 f3 s1 s2 off"
  have f3: "Funct3_of ?w = ucast f3" by (simp add: Funct3_of_def branch_fields dec_B)
  have "Funct7_of ?w = 0" by (simp add: Funct7_of_def f3 branch_fields dec_B)
  moreover have "Imm12_of ?w = 0" "fcvtOp_of ?w = 0"
    by (simp_all add: Imm12_of_def fcvtOp_of_def branch_fields dec_B)
  ultimately show ?thesis by (simp add: Enc_of_def f3 dec_B)
qed

lemma load_fields:
  "inst42 (enc_I 0b0000011 f3 d s1 i) = 0" "inst65 (enc_I 0b0000011 f3 d s1 i) = 0"
  by (simp_all add: inst42_def inst65_def dec_I)

lemma load_Enc: "Enc_of (enc_I 0b0000011 f3 d s1 i) = 0b0000011 OR push_bit 8 (ucast f3)"
proof -
  let ?w = "enc_I 0b0000011 f3 d s1 i"
  have f3: "Funct3_of ?w = ucast f3" by (simp add: Funct3_of_def load_fields dec_I)
  have "Funct7_of ?w = 0" by (simp add: Funct7_of_def f3 load_fields dec_I)
  moreover have "Imm12_of ?w = 0" "fcvtOp_of ?w = 0"
    by (simp_all add: Imm12_of_def fcvtOp_of_def load_fields dec_I)
  ultimately show ?thesis by (simp add: Enc_of_def f3 dec_I)
qed

lemma store_fields:
  "inst42 (enc_S 0b0100011 f3 s1 s2 i) = 0" "inst65 (enc_S 0b0100011 f3 s1 s2 i) = 1"
  by (simp_all add: inst42_def inst65_def dec_S)

lemma store_Enc: "Enc_of (enc_S 0b0100011 f3 s1 s2 i) = 0b0100011 OR push_bit 8 (ucast f3)"
proof -
  let ?w = "enc_S 0b0100011 f3 s1 s2 i"
  have f3: "Funct3_of ?w = ucast f3" by (simp add: Funct3_of_def store_fields dec_S)
  have "Funct7_of ?w = 0" by (simp add: Funct7_of_def f3 store_fields dec_S)
  moreover have "Imm12_of ?w = 0" "fcvtOp_of ?w = 0"
    by (simp_all add: Imm12_of_def fcvtOp_of_def store_fields dec_S)
  ultimately show ?thesis by (simp add: Enc_of_def f3 dec_S)
qed

lemma RV64I_length: "length RV64ITable = 12"
  by (simp add: RV64ITable_def)

lemma entry_encodings:
  "i < 47 \<Longrightarrow> CompressEncoding (RV32ITable ! i) = map CompressEncoding RV32ITable ! i"
  "i < 12 \<Longrightarrow> CompressEncoding (RV64ITable ! i) = map CompressEncoding RV64ITable ! i"
  by (simp_all add: RV32I_length RV64I_length)

lemma in_base_table:
  "i < 47 \<Longrightarrow> RV32ITable ! i \<in> base_table F" "i < 12 \<Longrightarrow> GetXlen F = 64 \<Longrightarrow> RV64ITable ! i \<in> base_table F"
  by (simp_all add: base_table_def RV32I_length RV64I_length)

lemmas key_simps = entry_encodings RV32I_encodings RV64I_encodings

lemma alu_key:
  "Enc_of (enc_alu op d s1 s2) = CompressEncoding (alu_entry_of op)"
  "Opcode_of (enc_alu op d s1 s2) AND 0b11 = 0b11"
  unfolding enc_alu_def alu_Enc by (cases op; simp add: key_simps) (simp add: dec_R)

lemma alu_entry:
  "e_func (alu_entry_of op) = Some (alu_insn op)" "e_format (alu_entry_of op) = RVTypeR"
  "e_rdClass (alu_entry_of op) = RegGPR" "e_rs1Class (alu_entry_of op) = RegGPR"
  "e_rs2Class (alu_entry_of op) = RegGPR"
  by (cases op; simp add: RV32ITable_def RevInstDefaults_def)+

lemma alu_in_table: "alu_entry_of op \<in> base_table F"
  by (cases op; simp add: in_base_table)

lemma branch_key:
  "Enc_of (enc_branch op s1 s2 off) = CompressEncoding (branch_entry_of op)"
  "Opcode_of (enc_branch op s1 s2 off) AND 0b11 = 0b11"
  unfolding enc_branch_def branch_Enc by (cases op; simp add: key_simps) (simp add: dec_B)

lemma branch_entry:
  "e_func (branch_entry_of op) = Some (branch_insn op)" "e_format (branch_entry_of op) = RVTypeB"
  "e_rs1Class (branch_entry_of op) = RegGPR" "e_rs2Class (branch_entry_of op) = RegGPR"
  by (cases op; simp add: RV32ITable_def RevInstDefaults_def)+

lemma branch_in_table: "branch_entry_of op \<in> base_table F"
  by (cases op; simp add: in_base_table)

lemma load_key:
  "Enc_of (enc_load op d s1 i) = CompressEncoding (load_entry_of op)"
  "Opcode_of (enc_load op d s1 i) AND 0b11 = 0b11"
  unfolding enc_load_def load_Enc by (cases op; simp add: key_simps) (simp add: dec_I)

lemma load_entry:
  "e_func (load_entry_of op) = Some (load_insn op)" "e_format (load_entry_of op) = RVTypeI"
  "e_rdClass (load_entry_of op) = RegGPR" "e_rs1Class (load_entry_of op) = RegGPR"
  by (cases op; simp add: RV32ITable_def RV64ITable_def RevInstDefaults_def)+

lemma load_in_table: "op \<in> {LD_WU, LD_D} \<longrightarrow> GetXlen F = 64 \<Longrightarrow> load_entry_of op \<in> base_table F"
  by (cases op; simp add: in_base_table)

lemma store_key:
  "Enc_of (enc_store op s1 s2 i) = CompressEncoding (store_entry_of op)"
  "Opcode_of (enc_store op s1 s2 i) AND 0b11 = 0b11"
  unfolding enc_store_def store_Enc by (cases op; simp add: key_simps) (simp add: dec_S)

lemma store_entry:
  "e_func (store_entry_of op) = Some (store_insn op)" "e_format (store_entry_of op) = RVTypeS"
  "e_rs1Class (store_entry_of op) = RegGPR" "e_rs2Class (store_entry_of op) = RegGPR"
  by (cases op; simp add: RV32ITable_def RV64ITable_def RevInstDefaults_def)+

lemma store_in_table: "op = ST_D \<longrightarrow> GetXlen F = 64 \<Longrightarrow> store_entry_of op \<in> base_table F"
  by (cases op; simp add: in_base_table)


section \<open>Decoded fields\<close>

lemma unat_reg: "unat (ucast (r :: reg) :: u32) = unat r"
  by (simp add: unsigned_ucast_eq take_bit_nat_eq_self less_trans [OF unsigned_less])

lemma alu_fields_of:
  fixes junk op d s1 s2 defines "D \<equiv> DecodeRInst junk (enc_alu op d s1 s2) (alu_entry_of op)"
  shows "rd D = unat d" "rs1 D = unat s1" "rs2 D = unat s2" "instSize D = 4"
    "decode_format junk (enc_alu op d s1 s2) (alu_entry_of op) = Some D"
  by (simp_all add: D_def enc_alu_def DecodeRInst_fields dec_R alu_entry unat_reg decode_format_def)

lemma branch_fields_of:
  fixes junk op s1 s2 off defines "D \<equiv> DecodeBInst junk (enc_branch op s1 s2 off) (branch_entry_of op)"
  shows "rs1 D = unat s1" "rs2 D = unat s2" "imm D = ucast (off AND NOT 1)" "instSize D = 4"
    "decode_format junk (enc_branch op s1 s2 off) (branch_entry_of op) = Some D"
  by (simp_all add: D_def enc_branch_def DecodeBInst_fields dec_B branch_entry unat_reg decode_format_def)

lemma load_fields_of:
  fixes junk op d s1 i defines "D \<equiv> DecodeIInst junk (enc_load op d s1 i) (load_entry_of op)"
  shows "rd D = unat d" "rs1 D = unat s1" "imm D = ucast i" "instSize D = 4"
    "decode_format junk (enc_load op d s1 i) (load_entry_of op) = Some D"
  by (simp_all add: D_def enc_load_def DecodeIInst_fields dec_I load_entry unat_reg decode_format_def)

lemma store_fields_of:
  fixes junk op s1 s2 i defines "D \<equiv> DecodeSInst junk (enc_store op s1 s2 i) (store_entry_of op)"
  shows "rs1 D = unat s1" "rs2 D = unat s2" "imm D = ucast i" "instSize D = 4"
    "decode_format junk (enc_store op s1 s2 i) (store_entry_of op) = Some D"
  by (simp_all add: D_def enc_store_def DecodeSInst_fields dec_S store_entry unat_reg decode_format_def)

lemma sext_ucast_scast:
  assumes "LENGTH('b) \<le> LENGTH('a)"
  shows "sext (LENGTH('b)) (ucast (x :: 'b::len word) :: 'a::len word) = scast x"
proof (rule bit_word_eqI)
  fix n assume n: "n < LENGTH('a)"
  have L: "0 < LENGTH('b)" by simp
  show "bit (sext LENGTH('b) (ucast x :: 'a word)) n = bit (scast x :: 'a word) n"
  proof (cases "n < LENGTH('b) - 1")
    case True
    then have "n < LENGTH('b)" "min (LENGTH('b) - 1) n = n" "min n (LENGTH('b) - 1) = n" by simp_all
    then show ?thesis using n L assms by (simp add: bit_sext bit_simps)
  next
    case False
    then have "min (LENGTH('b) - 1) n = LENGTH('b) - 1" "min n (LENGTH('b) - 1) = LENGTH('b) - 1" by simp_all
    moreover have "n = LENGTH('b) - 1" if "n < LENGTH('b)" using False that by linarith
    ultimately show ?thesis using n L assms by (cases "n < LENGTH('b)") (simp_all add: bit_sext bit_simps)
  qed
qed

lemma fits_ucast_up: "fits (LENGTH('b)) (ucast (x :: 'b::len word) :: 'a::len word)"
  by (rule fits_take_bit, rule bit_word_eqI) (auto simp: bit_simps dest: bit_imp_le_length)

lemma ucast_up_32 [simp]:
  "LENGTH('b) \<le> 32 \<Longrightarrow> (ucast (ucast (x :: 'b::len word) :: u32) :: u64) = ucast x"
  by (rule bit_word_eqI) (auto simp: bit_simps dest: bit_imp_le_length)

lemmas imm_scast = sext_ucast_scast [where 'b = 12 and 'a = 32, simplified]
  sext_ucast_scast [where 'b = 12 and 'a = 64, simplified]
  sext_ucast_scast [where 'b = 13 and 'a = 32, simplified]
  sext_ucast_scast [where 'b = 13 and 'a = 64, simplified]
  fits_ucast_up [where 'b = 12 and 'a = 32, simplified]
  fits_ucast_up [where 'b = 13 and 'a = 32, simplified]


section \<open>Properties\<close>

text \<open>The bookkeeping of the decoder in the register file is not visible to the instruction.\<close>

lemma decoded_state [simp]:
  "xreg F (updR (\<lambda>R. R\<lparr>Entry := i, trigger := b, rf_cost := c\<rparr>) S) = xreg F S"
  "xpc F (updR (\<lambda>R. R\<lparr>Entry := i, trigger := b, rf_cost := c\<rparr>) S) = xpc F S"
  by (simp_all add: xreg_def xpc_def fun_eq_iff)

text \<open>
  C5. Arithmetic, end to end. On a core with the base instructions, the RISC-V encoding of a
  register-register operation, except \<open>slt\<close> and \<open>srl\<close> on RV64, which the code gets wrong, is decoded, dispatched and executed
  with the specified result: \<open>rd\<close> gets the value of the operation on the two source registers, every other register and the
  memory stay, and the PC moves on by 4.
\<close>

theorem alu_end_to_end:
  assumes "core_ok ext F T" and "IsRV32 F \<or> op \<notin> {ALU_SRL, ALU_SLT}"
  shows "\<exists>S'. decode_exec F T cp junk (enc_alu op d s1 s2) S = Inr S' \<and>
    (\<forall>r. xreg F S' r =
       (if r = unat d \<and> r \<noteq> 0 then
          (if IsRV32 F then ucast (isa_alu op (get32 (regs S) (unat s1)) (get32 (regs S) (unat s2)))
           else isa_alu op (get64 (regs S) (unat s1)) (get64 (regs S) (unat s2)))
        else xreg F S r)) \<and>
    xpc F S' = (if IsRV32 F then ucast (RV32_PC (regs S) + 4) else RV64_PC (regs S) + 4) \<and>
    mem S' = mem S \<and> hazard S' = hazard S"
proof -
  let ?D = "DecodeRInst junk (enc_alu op d s1 s2) (alu_entry_of op)"
  obtain n where "decode_exec F T cp junk (enc_alu op d s1 s2) S = alu_insn op F ?D
      (updR (\<lambda>R. R\<lparr>Entry := n, trigger := False, rf_cost := 1\<rparr>) S)"
    using base_exec [OF assms(1) alu_in_table alu_entry(1) alu_key alu_fields_of(5)] by blast
  then show ?thesis
    using alu_insn_effect [OF assms(2), of ?D "updR (\<lambda>R. R\<lparr>Entry := n, trigger := False, rf_cost := 1\<rparr>) S"]
    by (simp add: alu_fields_of pc_next_def cong: if_cong)
qed

text \<open>The core of the concrete instances.\<close>

lemma demo_core: "\<exists>T. core_ok (\<lambda>_. fence) demo_RV64IMAC T"
  by (simp add: core_ok_def LoadInstructionTable_def ReadOverrideTables_def)

lemma demo_RV64IMAC_width [simp]: "\<not> IsRV32 demo_RV64IMAC"
  by (simp add: IsRV32_def)

theorem alu_end_to_end_witness:
  "\<exists>T S'. core_ok (\<lambda>_. fence) demo_RV64IMAC T \<and>
     decode_exec demo_RV64IMAC T None (demo_inst 0 0 0 0) 0x00C586B3
       (demo_state ((\<lambda>_. 0)(11 := - 1, 12 := 8))) = Inr S' \<and>
     xreg demo_RV64IMAC S' 13 = 7 \<and> xpc demo_RV64IMAC S' = 0x1004"
proof -
  obtain T where T: "core_ok (\<lambda>_. fence) demo_RV64IMAC T" using demo_core by blast
  have w: "enc_alu ALU_ADD 13 11 12 = 0x00C586B3" by (simp add: enc_alu_def enc_R_def)
  show ?thesis
    using alu_end_to_end [OF T, of ALU_ADD None "demo_inst 0 0 0 0" 13 11 12
        "demo_state ((\<lambda>_. 0)(11 := - 1, 12 := 8))"] T
    by (auto simp: w)
qed

text \<open>
  C8. Branches, end to end. The encoding of a conditional branch with an even offset moves the PC
  by the sign-extended offset exactly when the condition holds, by 4 otherwise, and changes no
  register and no memory.
\<close>

theorem branch_end_to_end:
  assumes "core_ok ext F T"
  shows "\<exists>S'. decode_exec F T cp junk (enc_branch op s1 s2 off) S = Inr S' \<and>
    xpc F S' =
      (if IsRV32 F then
         ucast (RV32_PC (regs S) +
           (if isa_taken op (get32 (regs S) (unat s1)) (get32 (regs S) (unat s2)) then scast (off AND NOT 1) else 4))
       else RV64_PC (regs S) +
           (if isa_taken op (get64 (regs S) (unat s1)) (get64 (regs S) (unat s2)) then scast (off AND NOT 1) else 4)) \<and>
    xreg F S' = xreg F S \<and> mem S' = mem S \<and> hazard S' = hazard S"
proof -
  let ?D = "DecodeBInst junk (enc_branch op s1 s2 off) (branch_entry_of op)"
  obtain n where "decode_exec F T cp junk (enc_branch op s1 s2 off) S = branch_insn op F ?D
      (updR (\<lambda>R. R\<lparr>Entry := n, trigger := False, rf_cost := 1\<rparr>) S)"
    using base_exec [OF assms branch_in_table branch_entry(1) branch_key branch_fields_of(5)] by blast
  moreover have "fits 13 (imm ?D)" unfolding branch_fields_of(3) by (rule imm_scast)
  ultimately show ?thesis
    using branch_insn_effect [of ?D op F "updR (\<lambda>R. R\<lparr>Entry := n, trigger := False, rf_cost := 1\<rparr>) S"]
    by (simp add: branch_fields_of imm_scast cong: if_cong)
qed

theorem branch_end_to_end_witness:
  "\<exists>T S'. core_ok (\<lambda>_. fence) demo_RV64IMAC T \<and>
     decode_exec demo_RV64IMAC T None (demo_inst 0 0 0 0) (enc_branch BR_LTU 11 12 0x1FF8)
       (demo_state ((\<lambda>_. 0)(11 := 3, 12 := 8))) = Inr S' \<and> xpc demo_RV64IMAC S' = 0xFF8"
proof -
  obtain T where T: "core_ok (\<lambda>_. fence) demo_RV64IMAC T" using demo_core by blast
  show ?thesis
    using branch_end_to_end [OF T, of None "demo_inst 0 0 0 0" BR_LTU 11 12 "0x1FF8"
        "demo_state ((\<lambda>_. 0)(11 := 3, 12 := 8))"] T
    by auto
qed

text \<open>
  C6. Loads, end to end. The encoding of \<open>lb\<close>, \<open>lh\<close>, \<open>lw\<close> and \<open>lbu\<close>, and on RV64 of \<open>lhu\<close>, \<open>lwu\<close> and \<open>ld\<close> (\<open>lhu\<close> on RV32 is
  wrong in the code), from a supported address, on a core with a non-empty range of costs, puts the
  little-endian value of the bytes at \<open>rs1\<close> plus the sign-extended offset, extended as the operation says, into
  \<open>rd\<close>; other registers and the memory contents stay, and the PC moves on by 4.
\<close>

theorem load_end_to_end:
  fixes S F s1 i
  defines "ea \<equiv> if IsRV32 F then ucast (get32 (regs S) (unat s1) + scast (i :: 12 word))
                 else get64 (regs S) (unat (s1 :: reg)) + scast i"
  assumes "core_ok ext F T" and "vm_inv (mem S)" and "ok_range (mem S) ea (load_width op)"
    and "MaxCost F \<noteq> 0" and "load_supported F op" and "op \<in> {LD_WU, LD_D} \<longrightarrow> GetXlen F = 64"
  shows "\<exists>S'. decode_exec F T cp junk (enc_load op d s1 i) S = Inr S' \<and>
    (let bs = map (\<lambda>k. vbyte (mem S) (ea + of_nat k)) [0..<load_width op]
     in \<forall>r. xreg F S' r =
         (if r = unat d \<and> r \<noteq> 0 then
            (if IsRV32 F then ucast (load_value op bs :: u32) else load_value op bs)
          else xreg F S r)) \<and>
    vbyte (mem S') = vbyte (mem S) \<and> vm_inv (mem S') \<and>
    xpc F S' = (if IsRV32 F then ucast (RV32_PC (regs S) + 4) else RV64_PC (regs S) + 4) \<and> \<not> hazard S'"
proof -
  let ?D = "DecodeIInst junk (enc_load op d s1 i) (load_entry_of op)"
  obtain n where ex: "decode_exec F T cp junk (enc_load op d s1 i) S = load_insn op F ?D
      (updR (\<lambda>R. R\<lparr>Entry := n, trigger := False, rf_cost := 1\<rparr>) S)"
    using base_exec [OF assms(2) load_in_table [OF assms(7)] load_entry(1) load_key load_fields_of(5)] by blast
  let ?S = "updR (\<lambda>R. R\<lparr>Entry := n, trigger := False, rf_cost := 1\<rparr>) S"
  have fit: "fits 12 (imm ?D)" unfolding load_fields_of(3) by (rule imm_scast)
  have ea: "isa_ea F ?D ?S = ea" by (simp add: isa_ea_def ea_def load_fields_of imm_scast)
  have mem: "mem ?S = mem S" by simp
  have "vm_inv (mem ?S)" "ok_range (mem ?S) (isa_ea F ?D ?S) (load_width op)"
    using assms(3,4) by (simp_all only: ea mem)
  from load_insn_effect [OF this fit assms(5,6)] show ?thesis
    unfolding ex ea mem by (simp add: load_fields_of pc_next_def cong: if_cong)
qed

theorem load_end_to_end_witness:
  "\<exists>T S'. core_ok (\<lambda>_. fence) demo_RV64IMAC T \<and>
     decode_exec demo_RV64IMAC T None (demo_inst 0 0 0 0) (enc_load LD_D 5 11 0xFFE)
       (demo_state ((\<lambda>_. 7)(11 := 0x380000))) = Inr S' \<and>
     xreg demo_RV64IMAC S' 5 = 0 \<and> xreg demo_RV64IMAC S' 6 = 7"
proof -
  obtain T where T: "core_ok (\<lambda>_. fence) demo_RV64IMAC T" using demo_core by blast
  have "vbyte demo_mem = (\<lambda>_. 0)"
    by (simp add: fun_eq_iff vbyte_def translate_def) (simp add: new_RevMem_def)
  then show ?thesis
    using load_end_to_end [OF T, of "demo_state ((\<lambda>_. 7)(11 := 0x380000))" 11 "0xFFE" LD_D None
        "demo_inst 0 0 0 0" 5] T demo_mem_ok [of 8] vm_inv_new [of 4]
    by (auto simp: Let_def upt_rec xreg_def load_supported_def)
qed



end
