(* ===== verification/Rev_Clock.thy ===== *)
theory Rev_Clock
  imports Rev_Ecall Rev_EndToEnd
begin

text \<open>
  One clock cycle of a core: \<open>RevProc::ClockTick\<close> (src/RevProc.cc), stage by stage in the order of
  the source: a pending context switch, the choice of the hart and the decode stage, the execute
  stage with system calls and fault injection, the retire stage, and the completion test.
\<close>

section \<open>The stages\<close>

definition upd_stats :: "(RevProcStats \<Rightarrow> RevProcStats) \<Rightarrow> RevProc \<Rightarrow> RevProc" where
  "upd_stats f P = P\<lparr>Stats := f (Stats P)\<rparr>"

definition tick_switch :: "RevProc \<Rightarrow> RevProc res" where
  "tick_switch P =
     (if PendingCtxSwitch P \<and> Pipeline P = [] then
        bind_res (ChangeActivePID (NextPID P) P) (\<lambda>P1.
        bind_res (upd_cur (\<lambda>R. R\<lparr>trigger := False, rf_cost := 0\<rparr>) P1) (\<lambda>P2.
        bind_res (cur_rf P2) (\<lambda>R.
          Inr (P2\<lparr>ExecPC := GetPC (p_feature P2) R, PendingCtxSwitch := False, NextPID := 0\<rparr>))))
      else Inr P)"

definition tick_cts :: "RevProc \<Rightarrow> RevProc res" where
  "tick_cts P =
     for_harts (\<lambda>h P. bind_res (GetRegFile h P) (\<lambda>p. bind_res (rf_at p P) (\<lambda>R.
       Inr (P\<lparr>HART_CTS := (HART_CTS P)[unat h := rf_cost R = 0]\<rparr>)))) P"

text \<open>The decode stage; \<open>dep\<close> is the condition \<open>Stalled || DependencyCheck(...)\<close>.\<close>

definition tick_decode :: "coproc option \<Rightarrow> nat \<Rightarrow> RevInst \<Rightarrow> RevProc \<Rightarrow> RevProc res" where
  "tick_decode coProc rnd junk P =
     (let P1 = P\<lparr>p_Inst := ResetInst (p_Inst P)\<rparr>;
          P2 = P1\<lparr>HartToDecode := GetHartID P1\<rparr>
      in bind_res (PrefetchInst P2) (\<lambda>(ok, P3).
         let P4 = (if ok then P3\<lparr>Stalled := False\<rparr>
                   else upd_stats (\<lambda>s. s\<lparr>cyclesStalled := cyclesStalled s + 1\<rparr>) (P3\<lparr>Stalled := True\<rparr>))
         in bind_res (cur_rf P4) (\<lambda>R4.
            bind_res (if GetPC (p_feature P4) R4 \<noteq> PAN_FWARE_JUMP \<and> \<not> Stalled P4 then
                        bind_res (DecodeInst coProc rnd junk P4) (\<lambda>(D, Q).
                        bind_res (cur_rf Q) (\<lambda>R. Inr (Q\<lparr>p_Inst := D\<lparr>entry := Entry R\<rparr>\<rparr>)))
                      else Inr P4) (\<lambda>P5.
            bind_res (if Stalled P5 then Inr True
                      else DependencyCheck (HartToDecode P5) (p_Inst P5) None P5) (\<lambda>dep.
            bind_res (if dep then
                        bind_res (upd_cur (\<lambda>R. R\<lparr>rf_cost := 0\<rparr>) P5) (\<lambda>Q.
                          Inr (upd_stats (\<lambda>s. s\<lparr>cyclesIdle_Pipeline := cyclesIdle_Pipeline s + 1\<rparr>)
                            (Q\<lparr>HART_CTE := (HART_CTE Q)[unat (HartToDecode Q) := False],
                               HartToExec := REV_INVALID_HART_ID\<rparr>)))
                      else
                        Inr (upd_stats (\<lambda>s. s\<lparr>cyclesBusy := cyclesBusy s + 1\<rparr>)
                          (P5\<lparr>HART_CTE := (HART_CTE P5)[unat (HartToDecode P5) := True],
                              HartToExec := HartToDecode P5\<rparr>))) (\<lambda>P6.
            bind_res (cur_rf P6) (\<lambda>R6.
              Inr (P6\<lparr>p_Inst := (p_Inst P6)\<lparr>cost := rf_cost R6, entry := Entry R6\<rparr>,
                      ExecPC := GetPC (p_feature P6) R6\<rparr>))))))))"

definition is_fp_ext :: "string \<Rightarrow> bool" where
  "is_fp_ext nm = (nm = ''RV32F'' \<or> nm = ''RV32D'' \<or> nm = ''RV64F'' \<or> nm = ''RV64D'')"

text \<open>
  The call of \<open>Ext->Execute\<close> on the last instruction of the pipeline: it works on the active
  register file, the memory and the instruction's hazard flag.
\<close>

definition exec_back :: "RevProc \<Rightarrow> RevProc res" where
  "exec_back P =
     (if Pipeline P = [] then Inl UB_EmptyContainer
      else let (h, I, hz) = last (Pipeline P) in
        bind_res (cur_rf P) (\<lambda>R.
        bind_res (ExecInst (p_feature P) (p_tables P) (ExecPC P) I
                    \<lparr>regs = R, mem = p_mem P, hazard = hz\<rparr>) (\<lambda>S.
        bind_res (upd_cur (\<lambda>_. regs S) P) (\<lambda>P1.
          Inr (P1\<lparr>p_mem := mem S, Pipeline := butlast (Pipeline P) @ [(h, I, hazard S)]\<rparr>)))))"

text \<open>
  The fault in the result of the arithmetic unit. \<open>ffault\<close> is the modification of a floating point
  register, which converts between numbers and their integer parts.
\<close>

definition alu_fault :: "(string \<Rightarrow> nat \<Rightarrow> u32 \<Rightarrow> RevRegFile \<Rightarrow> RevRegFile) \<Rightarrow> nat \<Rightarrow> string \<Rightarrow> RevProc \<Rightarrow> RevProc res" where
  "alu_fault ffault rnd nm P =
     (if ALUFault P then
        bind_res (fault_value rnd (fault_width P)) (\<lambda>rval.
        bind_res (upd_cur (\<lambda>R.
                    let d = rd (p_Inst P) in
                    if is_fp_ext nm then ffault nm d rval R
                    else if GetXlen (p_feature P) = 32 then set32 d (get32 R d OR rval) R
                    else set64 d (get64 R d OR ucast rval) R) P) (\<lambda>P1.
          Inr (P1\<lparr>ALUFault := False\<rparr>)))
      else Inr P)"

record tick_env =
  t_coproc :: "coproc option"
  t_rnd :: nat
  t_junk :: RevInst
  t_host :: host
  t_ffault :: "string \<Rightarrow> nat \<Rightarrow> u32 \<Rightarrow> RevRegFile \<Rightarrow> RevRegFile"

definition exec_body :: "tick_env \<Rightarrow> RevProc \<Rightarrow> RevProc res" where
  "exec_body V P =
     (if ExecPC P = PAN_FWARE_JUMP then Inr P
      else bind_res (cur_rf P) (\<lambda>R.
        case EntryToExt (p_tables P) (Entry R) of
          None \<Rightarrow> Inl (Fatal_NoExtension (ExecPC P))
        | Some (k, j) \<Rightarrow>
            if \<not> k < length (Extensions (p_tables P)) then Inl UB_OutOfBounds
            else
              let nm = x_name (Extensions (p_tables P) ! k);
                  P1 = (if PendingCtxSwitch P then P
                        else P\<lparr>Pipeline := Pipeline P @ [(HartToExec P, p_Inst P, False)]\<rparr>);
                  P2 = (if is_fp_ext nm then upd_stats (\<lambda>s. s\<lparr>floatsExec := floatsExec s + 1\<rparr>) P1 else P1)
              in if Pipeline P2 = [] then Inl UB_EmptyContainer
                 else
                   bind_res (DependencySet (HartToExec P2) (fst (snd (last (Pipeline P2)))) P2) (\<lambda>P3.
                   bind_res (exec_back P3) (\<lambda>P4.
                   bind_res (cur_rf P4) (\<lambda>R4.
                   bind_res (if RV64_SCAUSE R4 = 8 \<or> RV32_SCAUSE R4 = 8
                             then ExecEcall (t_host V) (fst (snd (last (Pipeline P4)))) P4
                             else Inr P4)
                     (alu_fault (t_ffault V) (t_rnd V) nm))))))"

definition tick_exec :: "tick_env \<Rightarrow> RevProc \<Rightarrow> RevProc res" where
  "tick_exec V P =
     bind_res (cur_rf P) (\<lambda>R.
       if HartToExec P \<noteq> REV_INVALID_HART_ID \<and> \<not> trigger R \<and> \<not> Halted P \<and>
          HART_CTE P ! unat (HartToExec P) then
         bind_res (upd_cur (\<lambda>R. R\<lparr>trigger := True\<rparr>) P) (\<lambda>P1.
         bind_res (exec_body V P1) (\<lambda>P2.
           Inr (if SingleStep P2 then P2\<lparr>SingleStep := False, Halted := True\<rparr> else P2)))
       else
         Inr (upd_stats (\<lambda>s. s\<lparr>cyclesIdle_Total := cyclesIdle_Total s + 1,
                cyclesIdle_MemoryFetch := cyclesIdle_MemoryFetch s +
                  (if list_ex (\<lambda>b. b) (HART_CTE P) then 1 else 0)\<rparr>) P))"

text \<open>
  The walk over the hazards increments the cost of copies and changes nothing. At the head of the
  pipeline, an instruction that cannot retire after the decrement has its cost restored.
\<close>

definition tick_retire :: "RevProc \<Rightarrow> RevProc res" where
  "tick_retire P =
     (case Pipeline P of
        [] \<Rightarrow> Inr P
      | (tID, I, hz) # rest \<Rightarrow>
          if cost I > 0 then
            if cost I - 1 = 0 \<and> \<not> hz then
              bind_res (DependencyClear tID (I\<lparr>cost := cost I - 1\<rparr>)
                          (P\<lparr>Retired := Retired P + 1, Pipeline := (tID, I\<lparr>cost := cost I - 1\<rparr>, hz) # rest\<rparr>)) (\<lambda>P1.
                on_hart tID (\<lambda>R. R\<lparr>rf_cost := 0\<rparr>) (P1\<lparr>Pipeline := rest\<rparr>))
            else Inr (P\<lparr>Pipeline := (tID, I\<lparr>cost := cost I - 1 + 1\<rparr>, hz) # rest\<rparr>)
          else Inr P)"

text \<open>
  The completion test: \<open>done\<close> and the state, or \<open>None\<close> when the program counter is at neither of
  the two completion addresses. Without a memory controller there are no outstanding requests.
\<close>

definition tick_done :: "RevProc \<Rightarrow> (bool option \<times> RevProc) res" where
  "tick_done P =
     bind_res (cur_rf P) (\<lambda>R.
       let PC = GetPC (p_feature P) R in
       if PC \<noteq> PAN_FWARE_JUMP \<and> PC \<noteq> 0 then Inr (None, P)
       else
         bind_res
           (if PC = PAN_FWARE_JUMP then
              (case PExec P of
                 None \<Rightarrow> Inr (True, P)
               | Some Q \<Rightarrow>
                   (case GetNextEntry Q of
                      (st, r, Q') \<Rightarrow>
                        (case (st, r) of
                           (QExec, Some (i, a)) \<Rightarrow>
                             bind_res (upd_cur (SetPC (p_feature P) a) (P\<lparr>PExec := Some Q'\<rparr>)) (\<lambda>P1. Inr (False, P1))
                         | (QNull, _) \<Rightarrow>
                             bind_res (upd_cur (SetPC (p_feature P) PAN_FWARE_JUMP) (P\<lparr>PExec := Some Q'\<rparr>))
                               (\<lambda>P1. Inr (False, P1))
                         | _ \<Rightarrow> Inr (True, P\<lparr>PExec := Some Q'\<rparr>))))
            else Inr (True, P)) (\<lambda>(d, P1).
         if HartToExec P1 \<noteq> REV_INVALID_HART_ID \<and> length (ActivePIDs P1) > unat (HartToExec P1) then
           bind_res (GetActivePID (HartToExec P1) P1) (\<lambda>pid.
             case ThreadTable P1 pid of
               None \<Rightarrow> Inl Exc_out_of_range
             | Some c \<Rightarrow>
                 if ParentPID c \<noteq> 0 then
                   Inr (Some False,
                     (CtxSwitchAlert (ParentPID c) P1)\<lparr>SwapToParent := True,
                        ThreadTable := (ThreadTable P1)(pid \<mapsto> c\<lparr>t_State := Dead\<rparr>)\<rparr>)
                 else Inr (Some True, P1))
         else Inr (Some d, P1)))"

definition ClockTick :: "tick_env \<Rightarrow> RevProc \<Rightarrow> (bool \<times> RevProc) res" where
  "ClockTick V P =
     bind_res (tick_switch (upd_stats (\<lambda>s. s\<lparr>totalCycles := totalCycles s + 1\<rparr>) P)) (\<lambda>P1.
     bind_res (tick_cts P1) (\<lambda>P2.
     bind_res (if list_ex (\<lambda>b. b) (HART_CTS P2) \<and> \<not> Halted P2
               then tick_decode (t_coproc V) (t_rnd V) (t_junk V) P2 else Inr P2) (\<lambda>P3.
     bind_res (tick_exec V P3) (\<lambda>P4.
     bind_res (tick_retire P4) (\<lambda>P5.
     bind_res (tick_done P5) (\<lambda>(d, P6).
       Inr (d \<noteq> Some True, P6)))))))"

end
