(* ===== verification/Rev_BaseInsn.thy ===== *)
theory Rev_BaseInsn
  imports Rev_EndToEnd
begin

text \<open>
  The integer instructions of RV32I and RV64I as one datatype: their encodings, the table entries they are
  decoded with, and the fields of the decoded instruction. Not included are the fences, the system instructions
  and the accesses to control registers.
\<close>

section \<open>Instructions and encodings\<close>

text \<open>
  The suffix \<open>i\<close> is for the immediate forms and \<open>w\<close> for the word forms of RV64. Subtraction has no immediate
  form, and only additions, subtractions and shifts have word forms (\<open>base_form\<close>).
\<close>

datatype base_insn =
    B_alu alu_op reg reg reg
  | B_alui alu_op reg reg "12 word"
  | B_aluw alu_op reg reg reg
  | B_aluwi alu_op reg reg "12 word"
  | B_lui reg "20 word"
  | B_auipc reg "20 word"
  | B_jal reg "21 word"
  | B_jalr reg reg "12 word"
  | B_branch branch_op reg reg "13 word"
  | B_load load_op reg reg "12 word"
  | B_store store_op reg reg "12 word"

fun base_form :: "base_insn \<Rightarrow> bool" where
  "base_form (B_alui op d s1 i) \<longleftrightarrow> alui_insn op \<noteq> None"
| "base_form (B_aluw op d s1 s2) \<longleftrightarrow> aluw_insn op \<noteq> None"
| "base_form (B_aluwi op d s1 i) \<longleftrightarrow> aluwi_insn op \<noteq> None"
| "base_form b \<longleftrightarrow> True"

text \<open>The immediate field: shifts have the amount in its low \<open>n\<close> bits, and arithmetic shifts to the right the bit 10.\<close>

definition imm_field :: "nat \<Rightarrow> alu_op \<Rightarrow> 12 word \<Rightarrow> 12 word" where
  "imm_field n op i = (if op = ALU_SLL \<or> op = ALU_SRL then take_bit n i
     else if op = ALU_SRA then take_bit n i OR 0x400 else i)"

definition enc_alui :: "alu_op \<Rightarrow> reg \<Rightarrow> reg \<Rightarrow> 12 word \<Rightarrow> u32" where
  "enc_alui op d s1 i = enc_I 0b0010011 (alu_f3 op) d s1 (imm_field 6 op i)"

definition enc_aluw :: "alu_op \<Rightarrow> reg \<Rightarrow> reg \<Rightarrow> reg \<Rightarrow> u32" where
  "enc_aluw op d s1 s2 = enc_R 0b0111011 (alu_f3 op) (alu_f7 op) d s1 s2"

definition enc_aluwi :: "alu_op \<Rightarrow> reg \<Rightarrow> reg \<Rightarrow> 12 word \<Rightarrow> u32" where
  "enc_aluwi op d s1 i = enc_I 0b0011011 (alu_f3 op) d s1 (imm_field 5 op i)"

fun enc_base :: "base_insn \<Rightarrow> u32" where
  "enc_base (B_alu op d s1 s2) = enc_alu op d s1 s2"
| "enc_base (B_alui op d s1 i) = enc_alui op d s1 i"
| "enc_base (B_aluw op d s1 s2) = enc_aluw op d s1 s2"
| "enc_base (B_aluwi op d s1 i) = enc_aluwi op d s1 i"
| "enc_base (B_lui d i) = enc_U 0b0110111 d i"
| "enc_base (B_auipc d i) = enc_U 0b0010111 d i"
| "enc_base (B_jal d off) = enc_J 0b1101111 d off"
| "enc_base (B_jalr d s1 i) = enc_I 0b1100111 0 d s1 i"
| "enc_base (B_branch op s1 s2 off) = enc_branch op s1 s2 off"
| "enc_base (B_load op d s1 i) = enc_load op d s1 i"
| "enc_base (B_store op s1 s2 i) = enc_store op s1 s2 i"

text \<open>The function of the simulator and the table entry of each instruction.\<close>

fun base_fn :: "base_insn \<Rightarrow> insn" where
  "base_fn (B_alu op d s1 s2) = alu_insn op"
| "base_fn (B_alui op d s1 i) = the (alui_insn op)"
| "base_fn (B_aluw op d s1 s2) = the (aluw_insn op)"
| "base_fn (B_aluwi op d s1 i) = the (aluwi_insn op)"
| "base_fn (B_lui d i) = lui"
| "base_fn (B_auipc d i) = auipc"
| "base_fn (B_jal d off) = jal"
| "base_fn (B_jalr d s1 i) = jalr"
| "base_fn (B_branch op s1 s2 off) = branch_insn op"
| "base_fn (B_load op d s1 i) = load_insn op"
| "base_fn (B_store op s1 s2 i) = store_insn op"

fun alui_idx :: "alu_op \<Rightarrow> nat" where
  "alui_idx ALU_SLT = 19" | "alui_idx ALU_SLTU = 20" | "alui_idx ALU_XOR = 21" | "alui_idx ALU_OR = 22"
| "alui_idx ALU_AND = 23" | "alui_idx ALU_SLL = 24" | "alui_idx ALU_SRL = 25" | "alui_idx ALU_SRA = 26"
| "alui_idx op = 18"

fun aluw_idx :: "alu_op \<Rightarrow> nat" where
  "aluw_idx ALU_SUB = 8" | "aluw_idx ALU_SLL = 9" | "aluw_idx ALU_SRL = 10" | "aluw_idx ALU_SRA = 11"
| "aluw_idx op = 7"

fun aluwi_idx :: "alu_op \<Rightarrow> nat" where
  "aluwi_idx ALU_SLL = 4" | "aluwi_idx ALU_SRL = 5" | "aluwi_idx ALU_SRA = 6" | "aluwi_idx op = 3"

fun base_entry :: "base_insn \<Rightarrow> insn RevInstEntry" where
  "base_entry (B_alu op d s1 s2) = alu_entry_of op"
| "base_entry (B_alui op d s1 i) = RV32ITable ! alui_idx op"
| "base_entry (B_aluw op d s1 s2) = RV64ITable ! aluw_idx op"
| "base_entry (B_aluwi op d s1 i) = RV64ITable ! aluwi_idx op"
| "base_entry (B_lui d i) = RV32ITable ! 0"
| "base_entry (B_auipc d i) = RV32ITable ! 1"
| "base_entry (B_jal d off) = RV32ITable ! 2"
| "base_entry (B_jalr d s1 i) = RV32ITable ! 3"
| "base_entry (B_branch op s1 s2 off) = branch_entry_of op"
| "base_entry (B_load op d s1 i) = load_entry_of op"
| "base_entry (B_store op s1 s2 i) = store_entry_of op"

text \<open>The instructions of RV64I.\<close>

fun only64 :: "base_insn \<Rightarrow> bool" where
  "only64 (B_aluw op d s1 s2) \<longleftrightarrow> True"
| "only64 (B_aluwi op d s1 i) \<longleftrightarrow> True"
| "only64 (B_load op d s1 i) \<longleftrightarrow> op \<in> {LD_WU, LD_D}"
| "only64 (B_store op s1 s2 i) \<longleftrightarrow> op = ST_D"
| "only64 b \<longleftrightarrow> False"

text \<open>The fields of the decoded instruction that the instruction functions use.\<close>

fun fields_ok :: "base_insn \<Rightarrow> RevInst \<Rightarrow> bool" where
  "fields_ok (B_alu op d s1 s2) I \<longleftrightarrow> rd I = unat d \<and> rs1 I = unat s1 \<and> rs2 I = unat s2 \<and> instSize I = 4"
| "fields_ok (B_alui op d s1 i) I \<longleftrightarrow>
     rd I = unat d \<and> rs1 I = unat s1 \<and> imm I = ucast (imm_field 6 op i) \<and> instSize I = 4"
| "fields_ok (B_aluw op d s1 s2) I \<longleftrightarrow> rd I = unat d \<and> rs1 I = unat s1 \<and> rs2 I = unat s2 \<and> instSize I = 4"
| "fields_ok (B_aluwi op d s1 i) I \<longleftrightarrow> rd I = unat d \<and> rs1 I = unat s1 \<and>
     imm I = ucast (if op = ALU_ADD then i else take_bit 5 i) \<and> instSize I = 4"
| "fields_ok (B_lui d i) I \<longleftrightarrow> rd I = unat d \<and> imm I = ucast i \<and> instSize I = 4"
| "fields_ok (B_auipc d i) I \<longleftrightarrow> rd I = unat d \<and> imm I = ucast i \<and> instSize I = 4"
| "fields_ok (B_jal d off) I \<longleftrightarrow> rd I = unat d \<and> imm I = ucast (off AND NOT 1) \<and> instSize I = 4"
| "fields_ok (B_jalr d s1 i) I \<longleftrightarrow> rd I = unat d \<and> rs1 I = unat s1 \<and> imm I = ucast i \<and> instSize I = 4"
| "fields_ok (B_branch op s1 s2 off) I \<longleftrightarrow>
     rs1 I = unat s1 \<and> rs2 I = unat s2 \<and> imm I = ucast (off AND NOT 1) \<and> instSize I = 4"
| "fields_ok (B_load op d s1 i) I \<longleftrightarrow> rd I = unat d \<and> rs1 I = unat s1 \<and> imm I = ucast i \<and> instSize I = 4"
| "fields_ok (B_store op s1 s2 i) I \<longleftrightarrow> rs1 I = unat s1 \<and> rs2 I = unat s2 \<and> imm I = ucast i \<and> instSize I = 4"


section \<open>Keys\<close>

text \<open>The key the decoder computes for the opcodes that the end-to-end properties do not cover.\<close>

lemma dec_I_funct7: "drop_bit 25 (enc_I opc f3 d s1 i) AND 0b1111111 = ucast (drop_bit 5 i)"
  by (simp add: enc_I_def bitwise del: bit_0)

lemma alui_Enc:
  "Enc_of (enc_I 0b0010011 f3 d s1 i) =
     0b0010011 OR push_bit 8 (ucast f3) OR push_bit 11 (if (ucast f3 :: u32) = 5 then ucast (drop_bit 6 i) else 0)"
proof -
  let ?w = "enc_I 0b0010011 f3 d s1 i"
  have b: "inst42 ?w = 4" "inst65 ?w = 0" by (simp_all add: inst42_def inst65_def dec_I)
  have f3: "Funct3_of ?w = ucast f3" by (simp add: Funct3_of_def b dec_I)
  have "Funct7_of ?w = (if (ucast f3 :: u32) = 5 then ucast (drop_bit 6 i) else 0)"
    by (simp add: Funct7_of_def f3 b dec_I)
  moreover have "Imm12_of ?w = 0" "fcvtOp_of ?w = 0" by (simp_all add: Imm12_of_def fcvtOp_of_def b dec_I)
  ultimately show ?thesis by (simp add: Enc_of_def f3 dec_I)
qed

lemma aluwi_Enc:
  "Enc_of (enc_I 0b0011011 f3 d s1 i) =
     0b0011011 OR push_bit 8 (ucast f3) OR push_bit 11 (if (ucast f3 :: u32) \<noteq> 0 then ucast (drop_bit 5 i) else 0)"
proof -
  let ?w = "enc_I 0b0011011 f3 d s1 i"
  have b: "inst42 ?w = 6" "inst65 ?w = 0" by (simp_all add: inst42_def inst65_def dec_I)
  have f3: "Funct3_of ?w = ucast f3" by (simp add: Funct3_of_def b dec_I)
  have "Funct7_of ?w = (if (ucast f3 :: u32) \<noteq> 0 then ucast (drop_bit 5 i) else 0)"
    by (simp add: Funct7_of_def f3 b dec_I_funct7)
  moreover have "Imm12_of ?w = 0" "fcvtOp_of ?w = 0" by (simp_all add: Imm12_of_def fcvtOp_of_def b dec_I)
  ultimately show ?thesis by (simp add: Enc_of_def f3 dec_I)
qed

lemma aluw_Enc: "Enc_of (enc_R 0b0111011 f3 f7 d s1 s2) = 0b0111011 OR push_bit 8 (ucast f3) OR push_bit 11 (ucast f7)"
proof -
  let ?w = "enc_R 0b0111011 f3 f7 d s1 s2"
  have b: "inst42 ?w = 6" "inst65 ?w = 1" by (simp_all add: inst42_def inst65_def dec_R)
  have f3: "Funct3_of ?w = ucast f3" by (simp add: Funct3_of_def b dec_R)
  have "Funct7_of ?w = ucast f7" by (simp add: Funct7_of_def f3 b dec_R)
  moreover have "Imm12_of ?w = 0" "fcvtOp_of ?w = 0" by (simp_all add: Imm12_of_def fcvtOp_of_def b dec_R)
  ultimately show ?thesis by (simp add: Enc_of_def f3 dec_R)
qed

lemma upper_Enc: "Enc_of (enc_U 0b0110111 d i) = 0b0110111" "Enc_of (enc_U 0b0010111 d i) = 0b0010111"
proof -
  have b: "inst42 (enc_U 0b0110111 d i) = 5" "inst65 (enc_U 0b0110111 d i) = 1"
    "inst42 (enc_U 0b0010111 d i) = 5" "inst65 (enc_U 0b0010111 d i) = 0"
    by (simp_all add: inst42_def inst65_def dec_U)
  show "Enc_of (enc_U 0b0110111 d i) = 0b0110111" "Enc_of (enc_U 0b0010111 d i) = 0b0010111"
    by (simp_all add: Enc_of_def Funct3_of_def Funct7_of_def Imm12_of_def fcvtOp_of_def b dec_U)
qed

lemma jump_Enc: "Enc_of (enc_J 0b1101111 d off) = 0b1101111" "Enc_of (enc_I 0b1100111 0 d s1 i) = 0b1100111"
proof -
  have b: "inst42 (enc_J 0b1101111 d off) = 3" "inst65 (enc_J 0b1101111 d off) = 3"
    "inst42 (enc_I 0b1100111 0 d s1 i) = 1" "inst65 (enc_I 0b1100111 0 d s1 i) = 3"
    by (simp_all add: inst42_def inst65_def dec_J dec_I)
  show "Enc_of (enc_J 0b1101111 d off) = 0b1101111" "Enc_of (enc_I 0b1100111 0 d s1 i) = 0b1100111"
    by (simp_all add: Enc_of_def Funct3_of_def Funct7_of_def Imm12_of_def fcvtOp_of_def b dec_J dec_I)
qed

lemma imm_field_top:
  "drop_bit 6 (imm_field 6 ALU_SRL i) = 0" "drop_bit 6 (imm_field 6 ALU_SRA i) = 0x10"
  "drop_bit 5 (imm_field 5 ALU_SLL i) = 0" "drop_bit 5 (imm_field 5 ALU_SRL i) = 0"
  "drop_bit 5 (imm_field 5 ALU_SRA i) = 0x20"
  by (simp_all add: imm_field_def drop_bit_take_bit drop_bit_or)

lemma base_key:
  assumes "base_form b"
  shows "Enc_of (enc_base b) = CompressEncoding (base_entry b)" and "Opcode_of (enc_base b) AND 0b11 = 0b11"
proof -
  show "Enc_of (enc_base b) = CompressEncoding (base_entry b)"
  proof (cases b)
    case (B_alui op d s1 i)
    then show ?thesis using assms unfolding B_alui enc_base.simps enc_alui_def alui_Enc
      by (cases op; simp add: key_simps imm_field_top)
  next
    case (B_aluw op d s1 s2)
    then show ?thesis using assms unfolding B_aluw enc_base.simps enc_aluw_def aluw_Enc
      by (cases op; simp add: key_simps)
  next
    case (B_aluwi op d s1 i)
    then show ?thesis using assms unfolding B_aluwi enc_base.simps enc_aluwi_def aluwi_Enc
      by (cases op; simp add: key_simps imm_field_top)
  qed (simp_all add: alu_key branch_key load_key store_key upper_Enc jump_Enc key_simps)
  show "Opcode_of (enc_base b) AND 0b11 = 0b11"
    by (cases b) (simp_all add: alu_key branch_key load_key store_key enc_alui_def enc_aluw_def enc_aluwi_def
        dec_I dec_R dec_U dec_J)
qed

lemma base_in_table: "only64 b \<longrightarrow> GetXlen F = 64 \<Longrightarrow> base_entry b \<in> base_table F"
proof (cases b)
  case (B_alui op d s1 i)
  then show ?thesis by (cases op; simp add: in_base_table)
next
  case (B_aluw op d s1 s2)
  then show "only64 b \<longrightarrow> GetXlen F = 64 \<Longrightarrow> ?thesis" by (cases op; simp add: in_base_table)
next
  case (B_aluwi op d s1 i)
  then show "only64 b \<longrightarrow> GetXlen F = 64 \<Longrightarrow> ?thesis" by (cases op; simp add: in_base_table)
qed (simp_all add: alu_in_table branch_in_table load_in_table store_in_table in_base_table)

lemma base_entry_fn: "base_form b \<Longrightarrow> e_func (base_entry b) = Some (base_fn b)"
proof (cases b)
  case (B_alui op d s1 i)
  then show "base_form b \<Longrightarrow> ?thesis" by (cases op; simp add: RV32ITable_def RevInstDefaults_def)
next
  case (B_aluw op d s1 s2)
  then show "base_form b \<Longrightarrow> ?thesis" by (cases op; simp add: RV64ITable_def RevInstDefaults_def)
next
  case (B_aluwi op d s1 i)
  then show "base_form b \<Longrightarrow> ?thesis" by (cases op; simp add: RV64ITable_def RevInstDefaults_def)
qed (simp_all add: alu_entry branch_entry load_entry store_entry, simp_all add: RV32ITable_def RevInstDefaults_def)


section \<open>Decoded fields\<close>

lemma alui_fields_of:
  "\<exists>D. decode_format junk (enc_alui op d s1 i) (RV32ITable ! alui_idx op) = Some D \<and> fields_ok (B_alui op d s1 i) D"
proof -
  let ?e = "RV32ITable ! alui_idx op"
  have "e_format ?e = RVTypeI" "e_rdClass ?e = RegGPR" "e_rs1Class ?e = RegGPR"
    by (cases op; simp add: RV32ITable_def RevInstDefaults_def)+
  then show ?thesis by (simp add: decode_format_def DecodeIInst_fields enc_alui_def dec_I unat_reg)
qed

lemma aluw_fields_of:
  "\<exists>D. decode_format junk (enc_aluw op d s1 s2) (RV64ITable ! aluw_idx op) = Some D \<and> fields_ok (B_aluw op d s1 s2) D"
proof -
  let ?e = "RV64ITable ! aluw_idx op"
  have "e_format ?e = RVTypeR" "e_rdClass ?e = RegGPR" "e_rs1Class ?e = RegGPR" "e_rs2Class ?e = RegGPR"
    by (cases op; simp add: RV64ITable_def RevInstDefaults_def)+
  then show ?thesis by (simp add: decode_format_def DecodeRInst_fields enc_aluw_def dec_R unat_reg)
qed

text \<open>The right shifts by immediates have entries of format R, which keep the low five bits of the field.\<close>

lemma aluwi_fields_of:
  assumes "aluwi_insn op \<noteq> None"
  shows "\<exists>D. decode_format junk (enc_aluwi op d s1 i) (RV64ITable ! aluwi_idx op) = Some D \<and> fields_ok (B_aluwi op d s1 i) D"
proof -
  let ?e = "RV64ITable ! aluwi_idx op"
  have e: "e_format ?e = (if op = ALU_SRL \<or> op = ALU_SRA then RVTypeR else RVTypeI)" "e_rdClass ?e = RegGPR"
    "e_rs1Class ?e = RegGPR" "e_rs2Class ?e = RegUNKNOWN" "e_imm ?e = FImm"
    by (cases op; simp add: RV64ITable_def RevInstDefaults_def)+
  show ?thesis
  proof (cases "op = ALU_SRL \<or> op = ALU_SRA")
    case True
    then have "(ucast (imm_field 5 op i) :: u32) AND 0b011111 = ucast (take_bit 5 i)" "op \<noteq> ALU_ADD"
      by (auto simp: imm_field_def bitwise simp del: bit_0)
    with True show ?thesis by (simp add: decode_format_def DecodeRInst_fields enc_aluwi_def e dec_I unat_reg)
  next
    case False
    then have "imm_field 5 op i = (if op = ALU_ADD then i else take_bit 5 i)"
      using assms by (cases op) (simp_all add: imm_field_def)
    with False show ?thesis by (simp add: decode_format_def DecodeIInst_fields enc_aluwi_def e dec_I unat_reg)
  qed
qed

lemma base_fields: "base_form b \<Longrightarrow> \<exists>D. decode_format junk (enc_base b) (base_entry b) = Some D \<and> fields_ok b D"
proof (cases b)
  case (B_aluwi op d s1 i)
  then show "base_form b \<Longrightarrow> ?thesis" using aluwi_fields_of by simp
next
  case (B_lui d i)
  then show ?thesis
    by (simp add: decode_format_def RV32ITable_def RevInstDefaults_def DecodeUInst_fields dec_U unat_reg)
next
  case (B_auipc d i)
  then show ?thesis
    by (simp add: decode_format_def RV32ITable_def RevInstDefaults_def DecodeUInst_fields dec_U unat_reg)
next
  case (B_jal d off)
  then show ?thesis
    by (simp add: decode_format_def RV32ITable_def RevInstDefaults_def DecodeJInst_fields dec_J unat_reg)
next
  case (B_jalr d s1 i)
  then show ?thesis
    by (simp add: decode_format_def RV32ITable_def RevInstDefaults_def DecodeIInst_fields dec_I unat_reg)
qed (use alui_fields_of aluw_fields_of in \<open>auto simp: alu_fields_of branch_fields_of load_fields_of store_fields_of\<close>)

end
