(* ===== verification/Rev_Step.thy ===== *)
theory Rev_Step
  imports Rev_Clock Rev_BaseInsn
begin

text \<open>
  The instruction set as one step function, and the clock cycle of the core as its implementation.
  An abstract machine has registers, a program counter and bytes of memory; the cycles of
  \<open>RevProc::ClockTick\<close> that fetch, decode, execute and retire one instruction of the base set change
  the abstract machine the way the instruction set manual does.
\<close>

section \<open>The abstract machine\<close>

record isa_state =
  i_x :: "nat \<Rightarrow> u64"
  i_pc :: u64
  i_bytes :: "u64 \<Rightarrow> u8"

text \<open>Addition to an address or the program counter, at the width of the machine.\<close>

definition isa_add :: "bool \<Rightarrow> u64 \<Rightarrow> 'a::len word \<Rightarrow> u64" where
  "isa_add rv32 a off = (if rv32 then ucast (ucast a + scast off :: u32) else a + scast off)"

definition isa_put :: "reg \<Rightarrow> u64 \<Rightarrow> (nat \<Rightarrow> u64) \<Rightarrow> nat \<Rightarrow> u64" where
  "isa_put d v x = (if d = 0 then x else x(unat d := v))"

fun isa_step :: "bool \<Rightarrow> base_insn \<Rightarrow> isa_state \<Rightarrow> isa_state" where
  "isa_step rv32 (B_alu op d s1 s2) s =
     (let a = i_x s (unat s1); b = i_x s (unat s2)
      in s\<lparr>i_x := isa_put d (if rv32 then ucast (isa_alu op (ucast a :: u32) (ucast b)) else isa_alu op a b) (i_x s),
           i_pc := isa_add rv32 (i_pc s) (4 :: u32)\<rparr>)"
| "isa_step rv32 (B_alui op d s1 i) s =
     (let a = i_x s (unat s1); f = imm_field 6 op i
      in s\<lparr>i_x := isa_put d (if rv32 then ucast (isa_alu op (ucast a :: u32) (scast f)) else isa_alu op a (scast f)) (i_x s),
           i_pc := isa_add rv32 (i_pc s) (4 :: u32)\<rparr>)"
| "isa_step rv32 (B_aluw op d s1 s2) s =
     s\<lparr>i_x := isa_put d (isa_aluw op (i_x s (unat s1)) (i_x s (unat s2))) (i_x s),
       i_pc := isa_add rv32 (i_pc s) (4 :: u32)\<rparr>"
| "isa_step rv32 (B_aluwi op d s1 i) s =
     s\<lparr>i_x := isa_put d (isa_aluw op (i_x s (unat s1)) (scast (imm_field 5 op i))) (i_x s),
       i_pc := isa_add rv32 (i_pc s) (4 :: u32)\<rparr>"
| "isa_step rv32 (B_lui d i) s =
     s\<lparr>i_x := isa_put d (isa_add rv32 0 (push_bit 12 (ucast i) :: u32)) (i_x s),
       i_pc := isa_add rv32 (i_pc s) (4 :: u32)\<rparr>"
| "isa_step rv32 (B_auipc d i) s =
     s\<lparr>i_x := isa_put d (isa_add rv32 (i_pc s) (push_bit 12 (ucast i) :: u32)) (i_x s),
       i_pc := isa_add rv32 (i_pc s) (4 :: u32)\<rparr>"
| "isa_step rv32 (B_jal d off) s =
     s\<lparr>i_x := isa_put d (isa_add rv32 (i_pc s) (4 :: u32)) (i_x s),
       i_pc := isa_add rv32 (i_pc s) (off AND NOT 1)\<rparr>"
| "isa_step rv32 (B_jalr d s1 i) s =
     s\<lparr>i_x := isa_put d (isa_add rv32 (i_pc s) (4 :: u32)) (i_x s),
       i_pc := isa_add rv32 (i_x s (unat s1)) i AND NOT 1\<rparr>"
| "isa_step rv32 (B_branch op s1 s2 off) s =
     (let a = i_x s (unat s1); b = i_x s (unat s2);
          taken = (if rv32 then isa_taken op (ucast a :: u32) (ucast b) else isa_taken op a b)
      in s\<lparr>i_pc := (if taken then isa_add rv32 (i_pc s) (off AND NOT 1) else isa_add rv32 (i_pc s) (4 :: u32))\<rparr>)"
| "isa_step rv32 (B_load op d s1 i) s =
     (let ea = isa_add rv32 (i_x s (unat s1)) i;
          bs = map (\<lambda>k. i_bytes s (ea + of_nat k)) [0..<load_width op]
      in s\<lparr>i_x := isa_put d (if rv32 then ucast (load_value op bs :: u32) else load_value op bs) (i_x s),
           i_pc := isa_add rv32 (i_pc s) (4 :: u32)\<rparr>)"
| "isa_step rv32 (B_store op s1 s2 i) s =
     (let ea = isa_add rv32 (i_x s (unat s1)) i
      in s\<lparr>i_bytes := vstore ea (le_bytes (store_width op) (i_x s (unat s2))) (i_bytes s),
           i_pc := isa_add rv32 (i_pc s) (4 :: u32)\<rparr>)"

text \<open>The abstract machine of a state of the execution unit.\<close>

definition isa_of :: "RevFeature \<Rightarrow> mstate \<Rightarrow> isa_state" where
  "isa_of F S = \<lparr>i_x = xreg F S, i_pc = xpc F S, i_bytes = vbyte (mem S)\<rparr>"


section \<open>Execution of a decoded instruction\<close>

text \<open>
  The instructions and operands the implementation treats as the manual does. Excepted are, on RV64, \<open>slt\<close> and \<open>srl\<close>,
  \<open>sraw\<close> when bit 5 of the amount is set, \<open>srliw\<close> by 0 onto its own source, and \<open>addiw\<close> when the 32-bit sum overflows; on
  RV32 \<open>addi\<close> when the sum overflows, and \<open>lhu\<close>. The offset of \<open>jal\<close> must have 20 bits instead of 21. Loads and stores
  access \<open>valid\<close> windows of memory, and the cost of a load is drawn from a range that is not empty.
\<close>

fun operands_ok :: "RevFeature \<Rightarrow> base_insn \<Rightarrow> isa_state \<Rightarrow> (u64 \<Rightarrow> nat \<Rightarrow> bool) \<Rightarrow> bool" where
  "operands_ok F (B_alu op d s1 s2) s valid \<longleftrightarrow> IsRV32 F \<or> op \<noteq> ALU_SRL \<and> op \<noteq> ALU_SLT"
| "operands_ok F (B_alui op d s1 i) s valid \<longleftrightarrow>
     (IsRV32 F \<and> op = ALU_ADD \<longrightarrow> s_add (ucast (i_x s (unat s1)) :: u32) (scast i) \<noteq> Inl UB_SignedOverflow)"
| "operands_ok F (B_aluw op d s1 s2) s valid \<longleftrightarrow> (op = ALU_SRA \<longrightarrow> unat (i_x s (unat s2)) mod 64 < 32)"
| "operands_ok F (B_aluwi op d s1 i) s valid \<longleftrightarrow>
     (op = ALU_ADD \<longrightarrow> s_add (ucast (i_x s (unat s1)) :: u32) (scast i) \<noteq> Inl UB_SignedOverflow) \<and>
     (op = ALU_SRL \<and> take_bit 5 i = 0 \<longrightarrow> d \<noteq> s1)"
| "operands_ok F (B_jal d off) s valid \<longleftrightarrow> bit off 19 = bit off 20 \<and>
     (if IsRV32 F then s_add (ucast (i_pc s) :: u32) (scast (off AND NOT 1)) \<noteq> Inl UB_SignedOverflow
      else s_add (i_pc s) (scast (off AND NOT 1)) \<noteq> Inl UB_SignedOverflow)"
| "operands_ok F (B_load op d s1 i) s valid \<longleftrightarrow>
     valid (isa_add (IsRV32 F) (i_x s (unat s1)) i) (load_width op) \<and> MaxCost F \<noteq> 0 \<and> load_supported F op"
| "operands_ok F (B_store op s1 s2 i) s valid \<longleftrightarrow>
     valid (isa_add (IsRV32 F) (i_x s (unat s1)) i) (store_width op) \<and> store_supported F op"
| "operands_ok F b s valid \<longleftrightarrow> True"

definition data_ok :: "RevFeature \<Rightarrow> base_insn \<Rightarrow> isa_state \<Rightarrow> (u64 \<Rightarrow> nat \<Rightarrow> bool) \<Rightarrow> bool" where
  "data_ok F b s valid \<longleftrightarrow> base_form b \<and> (only64 b \<longrightarrow> GetXlen F = 64) \<and> operands_ok F b s valid"

lemma data_ok_parts:
  assumes "data_ok F b s valid"
  shows "base_form b" and "only64 b \<longrightarrow> GetXlen F = 64" and "operands_ok F b s valid"
    and "only64 b \<Longrightarrow> \<not> IsRV32 F"
  using assms by (simp_all add: data_ok_def IsRV32_def GetXlen_def)

text \<open>What an instruction leaves alone besides the architectural state.\<close>

definition same_book :: "RevRegFile \<Rightarrow> RevRegFile \<Rightarrow> bool" where
  "same_book R R' \<longleftrightarrow> RV32_Scoreboard R' = RV32_Scoreboard R \<and> RV64_Scoreboard R' = RV64_Scoreboard R \<and>
     SPF_Scoreboard R' = SPF_Scoreboard R \<and> DPF_Scoreboard R' = DPF_Scoreboard R \<and>
     RV64_SCAUSE R' = RV64_SCAUSE R \<and> RV32_SCAUSE R' = RV32_SCAUSE R"

lemma same_book_simps [simp]:
  "same_book R R" "same_book R (incPC F I R') = same_book R R'"
  "same_book R (set32 i v R') = same_book R R'" "same_book R (set64 i u R') = same_book R R'"
  "same_book R (R'\<lparr>RV32_PC := a\<rparr>) = same_book R R'" "same_book R (R'\<lparr>RV64_PC := b\<rparr>) = same_book R R'"
  "same_book R (R'\<lparr>rf_cost := c\<rparr>) = same_book R R'"
  by (simp_all add: same_book_def incPC_def incPC32_def incPC64_def set32_def set64_def)

lemma same_book_wb [simp]: "same_book (regs S) (regs (wb F I v w S))"
  by (simp add: wb_def updR_def incPC32_def incPC64_def)

lemma same_book_trans: "same_book R R' \<Longrightarrow> same_book R' R'' \<Longrightarrow> same_book R R''"
  by (simp add: same_book_def)

lemma isa_of_simps [simp]:
  "i_x (isa_of F S) = xreg F S" "i_pc (isa_of F S) = xpc F S" "i_bytes (isa_of F S) = vbyte (mem S)"
  by (simp_all add: isa_of_def)

lemma isa_eqI:
  "xreg F S' = i_x s \<Longrightarrow> xpc F S' = i_pc s \<Longrightarrow> vbyte (mem S') = i_bytes s \<Longrightarrow> isa_of F S' = s"
  by (simp add: isa_of_def)

lemma ucast_xreg: "IsRV32 F \<Longrightarrow> (ucast (xreg F S r) :: u32) = get32 (regs S) r"
  by (simp add: xreg_def)

lemma ucast_xpc: "IsRV32 F \<Longrightarrow> (ucast (xpc F S) :: u32) = RV32_PC (regs S)"
  by (simp add: xpc_def)

lemma isa_next: "instSize I = 4 \<Longrightarrow> pc_next F I S = isa_add (IsRV32 F) (xpc F S) (4 :: u32)"
  by (simp add: pc_next_def isa_add_def xpc_def)

lemma isa_ea_add:
  "rs1 I = unat s1 \<Longrightarrow> imm I = ucast (i :: 12 word) \<Longrightarrow>
   isa_ea F I S = isa_add (IsRV32 F) (xreg F S (unat (s1 :: reg))) i"
  by (simp add: isa_ea_def isa_add_def xreg_def imm_scast)

lemma xreg_put:
  "xreg F (wb F I v w S) = isa_put d (if IsRV32 F then ucast v else w) (xreg F S)" if "rd I = unat d"
  using that by (auto simp: fun_eq_iff xreg_wb isa_put_def unat_eq_0)

text \<open>
  Every instruction function takes the step of the abstract machine, and touches nothing of the
  register file that the pipeline or the exception check looks at.
\<close>

definition step_ok :: "RevFeature \<Rightarrow> base_insn \<Rightarrow> mstate \<Rightarrow> mstate \<Rightarrow> bool" where
  "step_ok F b S S' \<longleftrightarrow> isa_of F S' = isa_step (IsRV32 F) b (isa_of F S) \<and> vm_inv (mem S') \<and>
     mem_after (mem S) (mem S') \<and> \<not> hazard S' \<and> same_book (regs S) (regs S')"

lemma reg_step:
  assumes "r = Inr (wb F I v32 v64 S)" and "rd I = unat d" and "instSize I = 4" and "vm_inv (mem S)" and "\<not> hazard S"
    and "i_x (isa_step (IsRV32 F) b (isa_of F S)) = isa_put d (if IsRV32 F then ucast v32 else v64) (xreg F S)"
    and "i_pc (isa_step (IsRV32 F) b (isa_of F S)) = isa_add (IsRV32 F) (xpc F S) (4 :: u32)"
    and "i_bytes (isa_step (IsRV32 F) b (isa_of F S)) = vbyte (mem S)"
  shows "\<exists>S'. r = Inr S' \<and> step_ok F b S S'"
  using assms
  by (auto simp: step_ok_def xreg_put xpc_wb isa_next mem_after_def intro!: isa_eqI) (simp_all add: wb_def)

lemma alu_step:
  assumes "fields_ok (B_alu op d s1 s2) I" and "data_ok F (B_alu op d s1 s2) s valid"
    and "vm_inv (mem S)" and "\<not> hazard S"
  shows "\<exists>S'. alu_insn op F I S = Inr S' \<and> step_ok F (B_alu op d s1 s2) S S'"
proof -
  have supp: "IsRV32 F \<or> op \<notin> {ALU_SRL, ALU_SLT}" using data_ok_parts(3) [OF assms(2)] by auto
  show ?thesis
    by (rule reg_step [where d = d, OF alu.exec [OF supp, of I S]]) (use assms in \<open>simp_all add: Let_def xreg_def\<close>)
qed

lemma alui_step:
  assumes "fields_ok (B_alui op d s1 i) I" and "data_ok F (B_alui op d s1 i) (isa_of F S) valid"
    and "vm_inv (mem S)" and "\<not> hazard S"
  shows "\<exists>S'. the (alui_insn op) F I S = Inr S' \<and> step_ok F (B_alui op d s1 i) S S'"
proof -
  note d = data_ok_parts [OF assms(2)]
  have im: "imm I = ucast (imm_field 6 op i)" using assms(1) by simp
  have fit: "fits 12 (imm I)" unfolding im by (rule imm_scast)
  have "alui_ok op F I (regs S)"
    using d(1,3) assms(1) fit by (auto simp: alui_ok_def im imm_scast imm_field_def xreg_def)
  from alui.exec [OF this] show ?thesis
    by (rule reg_step [where d = d]) (use assms in \<open>simp_all add: Let_def xreg_def imm_scast\<close>)
qed

lemma aluw_step:
  assumes "fields_ok (B_aluw op d s1 s2) I" and "data_ok F (B_aluw op d s1 s2) (isa_of F S) valid"
    and "vm_inv (mem S)" and "\<not> hazard S"
  shows "\<exists>S'. the (aluw_insn op) F I S = Inr S' \<and> step_ok F (B_aluw op d s1 s2) S S'"
proof -
  note d = data_ok_parts [OF assms(2)]
  have F: "\<not> IsRV32 F" using d(4) by simp
  have "aluw_ok op F I (regs S)" using d(1,3) assms(1) F by (auto simp: aluw_ok_def xreg_def)
  from aluw.exec [OF this] show ?thesis
    by (rule reg_step [where d = d]) (use assms F in \<open>simp_all add: xreg_def\<close>)
qed

text \<open>The word shifts look at the low five bits of the immediate only.\<close>

lemma scast_low5: "unat (ucast (scast (x :: 12 word) :: u64) :: u32) mod 32 = unat (take_bit 5 x)"
proof -
  have "take_bit 5 (ucast (scast x :: u64) :: u32) = ucast (take_bit 5 x)"
    by (rule bit_word_eqI) (auto simp: bit_simps)
  then have "take_bit 5 (unat (ucast (scast x :: u64) :: u32)) = unat (ucast (take_bit 5 x) :: u32)"
    by (metis unsigned_take_bit_eq)
  moreover have "unat (take_bit 5 x) < 2 ^ 5" unfolding unsigned_take_bit_eq by (rule take_bit_nat_less_exp)
  then have "unat (ucast (take_bit 5 x) :: u32) = unat (take_bit 5 x)"
    unfolding unsigned_ucast_eq by (intro take_bit_nat_eq_self) simp
  ultimately show ?thesis by (simp add: take_bit_eq_mod)
qed

lemma take5_imm_field: "take_bit 5 (imm_field 5 op i) = take_bit 5 i"
  by (simp add: imm_field_def take_bit_or)

lemma isa_aluw_imm:
  assumes "aluwi_insn op \<noteq> None" and "op \<noteq> ALU_ADD"
  shows "isa_aluw op a (scast (take_bit 5 i)) = isa_aluw op a (scast (imm_field 5 op i))"
  using assms scast_low5 [of "take_bit 5 i"] scast_low5 [of "imm_field 5 op i"]
  by (cases op) (simp_all add: isa_aluw_def take5_imm_field)

lemma aluwi_step:
  assumes "fields_ok (B_aluwi op d s1 i) I" and "data_ok F (B_aluwi op d s1 i) (isa_of F S) valid"
    and "vm_inv (mem S)" and "\<not> hazard S"
  shows "\<exists>S'. the (aluwi_insn op) F I S = Inr S' \<and> step_ok F (B_aluwi op d s1 i) S S'"
proof -
  note d = data_ok_parts [OF assms(2)]
  have F: "\<not> IsRV32 F" using d(4) by simp
  let ?f = "if op = ALU_ADD then i else take_bit 5 i"
  have im: "imm I = ucast ?f" using assms(1) by simp
  have fit: "fits 12 (imm I)" unfolding im by (rule imm_scast)
  have low: "unat (take_bit 5 i) < 32" using take_bit_nat_less_exp [of 5 "unat i"] by (simp only: unsigned_take_bit_eq) simp
  have "unat (ucast (take_bit 5 i) :: u32) = unat (take_bit 5 i)"
    using low by (simp only: unsigned_ucast_eq take_bit_eq_mod) simp
  then have u: "unat (imm I) = unat (take_bit 5 i)" if "op \<noteq> ALU_ADD" using that by (simp add: im)
  have "unat (imm I) mod 64 = unat (take_bit 5 i)" "unat (imm I) mod 128 = unat (take_bit 5 i)" if "op \<noteq> ALU_ADD"
    using u [OF that] low by simp_all
  then have ok: "aluwi_ok op F I (regs S)"
    using d(1,3) assms(1) fit F low
    by (cases op) (simp_all add: aluwi_ok_def imm_scast xreg_def unat_eq_zero word_unat_eq_iff [symmetric])
  have "isa_aluw op a (sext 12 (ucast (imm I))) = isa_aluw op a (scast (imm_field 5 op i))" for a
    using isa_aluw_imm [of op a i] d(1) by (cases "op = ALU_ADD") (simp_all add: im imm_scast imm_field_def)
  then have "the (aluwi_insn op) F I S =
      Inr (wb F I 0 (isa_aluw op (get64 (regs S) (rs1 I)) (scast (imm_field 5 op i))) S)"
    using aluwi.exec [OF ok] by simp
  then show ?thesis
    by (rule reg_step [where d = d]) (use assms F in \<open>simp_all add: xreg_def\<close>)
qed

lemma lui_step:
  assumes "fields_ok (B_lui d i) I" and "vm_inv (mem S)" and "\<not> hazard S"
  shows "\<exists>S'. lui F I S = Inr S' \<and> step_ok F (B_lui d i) S S'"
  by (rule reg_step [where d = d, OF lui.exec [OF TrueI, of F I S]]) (use assms in \<open>simp_all add: isa_add_def\<close>)

lemma auipc_step:
  assumes "fields_ok (B_auipc d i) I" and "vm_inv (mem S)" and "\<not> hazard S"
  shows "\<exists>S'. auipc F I S = Inr S' \<and> step_ok F (B_auipc d i) S S'"
  by (rule reg_step [where d = d, OF auipc.exec [OF TrueI, of F I S]])
    (use assms in \<open>simp_all add: isa_add_def xpc_def add.commute\<close>)

text \<open>The offset of \<open>jal\<close> is extended from 20 bits, which is right when its bits 19 and 20 agree.\<close>

lemma td_bits:
  assumes "0 < n"
  shows "n \<le> 32 \<Longrightarrow> bit (td_u32 x n) i \<longleftrightarrow> i < 32 \<and> (bit x i \<or> bit x (n - 1) \<and> n \<le> i)"
    and "n \<le> 64 \<Longrightarrow> bit (td_u64 y n) i \<longleftrightarrow> i < 64 \<and> (bit y i \<or> bit y (n - 1) \<and> n \<le> i)"
  using assms by (auto simp: td_u32_eq td_u64_eq bit_simps bit_fold_set_bits not_less dest: bit_imp_le_length)

lemma td_20:
  assumes "bit y 19 = bit (y :: 21 word) 20"
  shows "td_u32 (ucast y) 20 = scast y" and "td_u64 (ucast y) 20 = scast y"
proof -
  have b: "bit y i \<or> bit y 19 \<and> 20 \<le> i \<longleftrightarrow> bit y (min 20 i)" for i
  proof (cases "i < 20")
    case False
    then have "bit y i \<Longrightarrow> i = 20" using bit_imp_le_length [of y i] by auto
    then show ?thesis using assms False by (auto simp: min_def)
  qed (simp add: min_def)
  show "td_u32 (ucast y) 20 = scast y" "td_u64 (ucast y) 20 = scast y"
    by (rule bit_word_eqI, simp add: td_bits bit_unsigned_iff bit_signed_iff b)+
qed

lemma jal_offset:
  assumes "bit off 19 = bit (off :: 21 word) 20"
  shows "td_u32 (ucast (off AND NOT 1)) 20 = scast (off AND NOT 1)"
    and "td_u64 (ucast (off AND NOT 1)) 20 = scast (off AND NOT 1)"
proof -
  have "bit (off AND NOT 1) 19 = bit (off AND NOT 1) 20" using assms by (simp add: bit_and_iff bit_not_iff bit_1_iff)
  then show "td_u32 (ucast (off AND NOT 1)) 20 = scast (off AND NOT 1)" "td_u64 (ucast (off AND NOT 1)) 20 = scast (off AND NOT 1)"
    by (rule td_20)+
qed

text \<open>The jumps write 0 to register 0 at the end, which does not change what it reads as.\<close>

lemma get_set_if:
  "get32 (set32 i v R) r = (if r = i \<and> i \<noteq> 0 then v else get32 R r)"
  "get64 (set64 i w R) r = (if r = i \<and> i \<noteq> 0 then w else get64 R r)"
  by (cases "r = i"; simp)+

lemma get_set_0 [simp]: "get32 (set32 0 v R) r = get32 R r" "get64 (set64 0 w R) r = get64 R r"
  by (cases "r = 0"; simp)+

lemma jump_frame [simp]: "hazard (S\<lparr>regs := R\<rparr>) = hazard S" "mem (S\<lparr>regs := R\<rparr>) = mem S"
  by simp_all

lemma jump_step:
  assumes "vm_inv (mem S)" and "\<not> hazard S" and "same_book (regs S) R"
    and "xreg F (S\<lparr>regs := R\<rparr>) = i_x (isa_step (IsRV32 F) b (isa_of F S))"
    and "xpc F (S\<lparr>regs := R\<rparr>) = i_pc (isa_step (IsRV32 F) b (isa_of F S))"
    and "i_bytes (isa_step (IsRV32 F) b (isa_of F S)) = vbyte (mem S)"
  shows "step_ok F b S (S\<lparr>regs := R\<rparr>)"
  using assms by (auto simp: step_ok_def mem_after_def intro!: isa_eqI)

lemma s_add_ok: "s_add a b \<noteq> Inl UB_SignedOverflow \<Longrightarrow> s_add a b = Inr (a + b)"
  by (auto simp: s_add_def split: if_splits)

lemma jal_step:
  assumes f: "fields_ok (B_jal d off) I" and d: "data_ok F (B_jal d off) (isa_of F S) valid"
    and "vm_inv (mem S)" and "\<not> hazard S"
  shows "\<exists>S'. jal F I S = Inr S' \<and> step_ok F (B_jal d off) S S'"
proof -
  have o: "operands_ok F (B_jal d off) (isa_of F S) valid" by (rule data_ok_parts(3) [OF d])
  then have b: "bit off 19 = bit off 20" by simp
  have add: "IsRV32 F \<Longrightarrow> s_add (RV32_PC (regs S)) (scast (off AND NOT 1)) = Inr (RV32_PC (regs S) + scast (off AND NOT 1))"
    "\<not> IsRV32 F \<Longrightarrow> s_add (RV64_PC (regs S)) (scast (off AND NOT 1)) = Inr (RV64_PC (regs S) + scast (off AND NOT 1))"
    using o by (auto intro!: s_add_ok simp: xpc_def)
  let ?R = "if IsRV32 F
    then set32 0 0 ((set32 (rd I) (RV32_PC (regs S) + 4) (regs S))\<lparr>RV32_PC := RV32_PC (regs S) + scast (off AND NOT 1)\<rparr>)
    else set64 0 0 ((set64 (rd I) (RV64_PC (regs S) + 4) (regs S))\<lparr>RV64_PC := RV64_PC (regs S) + scast (off AND NOT 1)\<rparr>)"
  have "jal F I S = Inr (S\<lparr>regs := ?R\<rparr>)"
    using f add jal_offset [OF b] by (simp add: jal_def onR_res_def Let_def)
  moreover have "step_ok F (B_jal d off) S (S\<lparr>regs := ?R\<rparr>)"
    by (rule jump_step)
      (use assms in \<open>auto simp: xreg_def xpc_def isa_put_def isa_add_def fun_eq_iff RF_get_set unat_eq_0 get_set_if\<close>)
  ultimately show ?thesis by blast
qed

lemma jalr_step:
  assumes f: "fields_ok (B_jalr d s1 i) I" and "vm_inv (mem S)" and "\<not> hazard S"
  shows "\<exists>S'. jalr F I S = Inr S' \<and> step_ok F (B_jalr d s1 i) S S'"
proof -
  have im: "imm I = ucast i" using f by simp
  have fit: "fits 12 (imm I)" unfolding im by (rule imm_scast)
  note fit = fit fits_ucast [OF fit, where 'b = 64]
  have "(ucast (x AND NOT 1 :: u32) :: u64) = ucast x AND NOT 1" for x
    by (rule bit_word_eqI) (auto simp: bit_and_iff bit_not_iff bit_unsigned_iff bit_1_iff dest: bit_imp_le_length)
  then have u: "(ucast (x AND - 2 :: u32) :: u64) = ucast x AND - 2" for x by simp
  let ?R = "if IsRV32 F
    then set32 0 0 (set32 (rd I) (RV32_PC (regs S) + 4) ((regs S)\<lparr>RV32_PC := (get32 (regs S) (rs1 I) + scast i) AND NOT 1\<rparr>))
    else set64 0 0 (set64 (rd I) (RV64_PC (regs S) + 4) ((regs S)\<lparr>RV64_PC := (get64 (regs S) (rs1 I) + scast i) AND NOT 1\<rparr>))"
  have "jalr F I S = Inr (S\<lparr>regs := ?R\<rparr>)"
    using f fit by (simp add: jalr_def onR_def updR_def Let_def im imm_scast)
  moreover have "step_ok F (B_jalr d s1 i) S (S\<lparr>regs := ?R\<rparr>)"
    by (rule jump_step)
      (use assms in \<open>auto simp: xreg_def xpc_def isa_put_def isa_add_def fun_eq_iff unat_eq_0 get_set_if u\<close>)
  ultimately show ?thesis by blast
qed

lemma branch_step:
  assumes "fields_ok (B_branch op s1 s2 off) I" and "vm_inv (mem S)" and "\<not> hazard S"
  shows "\<exists>S'. branch_insn op F I S = Inr S' \<and> step_ok F (B_branch op s1 s2 off) S S'"
proof -
  have im: "imm I = ucast (off AND NOT 1)" using assms(1) by simp
  have "fits 13 (imm I)" unfolding im by (rule imm_scast)
  from branch_insn_pc [OF this, of op F S] show ?thesis
    using assms
    by (auto simp: step_ok_def pc_rel_def Let_def mem_after_def xreg_def xpc_def isa_add_def imm_scast
        fun_eq_iff intro!: isa_eqI)
qed

lemma ok_range_data:
  assumes "valid_window M a n" and "access_room 1 M" and "0 < n" and "n \<le> 2 ^ 18"
  shows "ok_range M a n"
  using ok_range_window [OF assms(1), of 0 0 n] assms by simp

lemma load_width_pos: "0 < load_width op" "load_width op \<le> 2 ^ 18"
  by (cases op; simp)+

lemma store_width_pos: "0 < store_width op" "store_width op \<le> 2 ^ 18"
  by (cases op; simp)+

lemma addCost_quiet:
  assumes "MaxCost F \<noteq> 0"
  shows "\<exists>S'. addCost F S = Inr S' \<and> isa_of F S' = isa_of F S \<and> vm_inv (mem S') = vm_inv (mem S) \<and>
    mem_after (mem S) (mem S') \<and> hazard S' = hazard S \<and> same_book (regs S) (regs S') \<and>
    nextPage (mem S') = nextPage (mem S)"
  using assms by (simp add: addCost_def RandCost_def isa_of_def xreg_def xpc_def mem_after_def
      isValidVirtAddr_def fun_eq_iff)

lemma load_step:
  assumes f: "fields_ok (B_load op d s1 i) I" and d: "data_ok F (B_load op d s1 i) (isa_of F S) (valid_window (mem S))"
    and inv: "vm_inv (mem S)" and room: "access_room 1 (mem S)"
  shows "\<exists>S'. load_insn op F I S = Inr S' \<and> step_ok F (B_load op d s1 i) S S'"
proof -
  let ?ea = "isa_ea F I S" and ?n = "load_width op"
  have ea: "?ea = isa_add (IsRV32 F) (xreg F S (unat s1)) i" using f by (intro isa_ea_add) simp_all
  have im: "imm I = ucast i" using f by simp
  have fit: "fits 12 (imm I)" unfolding im by (rule imm_scast)
  have "ok_range (mem S) ?ea ?n"
    using data_ok_parts(3) [OF d] room load_width_pos unfolding ea by (intro ok_range_data) simp_all
  from ReadMem_spec [OF inv this, of "GetHart F"] obtain M' where
    read: "ReadMem (GetHart F) ?ea ?n (mem S) = Inr (map (\<lambda>k. vbyte (mem S) (?ea + of_nat k)) [0..<?n], M')"
    and M': "vm_inv M'" "vbyte M' = vbyte (mem S)" "mem_after (mem S) M'" by blast
  have supp: "load_supported F op" and mx: "MaxCost F \<noteq> 0" using data_ok_parts(3) [OF d] by simp_all
  let ?bs = "map (\<lambda>k. vbyte (mem S) (?ea + of_nat k)) [0..<?n]"
  let ?W = "wb F I (load_value op ?bs) (load_value op ?bs) S"
  let ?S1 = "?W\<lparr>mem := M', hazard := False\<rparr>"
  from load_insn_eq [OF fit supp read] have eq: "load_insn op F I S = addCost F ?S1"
    by simp
  have S1: "xreg F (?W\<lparr>mem := M', hazard := False\<rparr>) = xreg F ?W" "xpc F (?W\<lparr>mem := M', hazard := False\<rparr>) = xpc F ?W"
    by (simp_all add: xreg_def xpc_def fun_eq_iff)
  obtain S' where S': "load_insn op F I S = Inr S'" "isa_of F S' = isa_of F ?S1" "vm_inv (mem S') = vm_inv M'"
    "mem_after M' (mem S')" "hazard S' = False" "same_book (regs ?S1) (regs S')" "nextPage (mem S') = nextPage M'"
    using addCost_quiet [OF mx, of ?S1] eq by auto
  have "same_book (regs S) (regs S')" by (rule same_book_trans [OF same_book_wb]) (use S'(6) in simp)
  moreover have "mem_after (mem S) (mem S')" using M'(3) S'(4,7) by (simp add: mem_after_def)
  ultimately show ?thesis
    using S' M' f by (auto simp: step_ok_def Let_def S1 xreg_put xpc_wb isa_next ea intro!: isa_eqI)
qed

lemma store_step:
  assumes f: "fields_ok (B_store op s1 s2 i) I" and d: "data_ok F (B_store op s1 s2 i) (isa_of F S) (valid_window (mem S))"
    and inv: "vm_inv (mem S)" and room: "access_room 1 (mem S)" and hz: "\<not> hazard S"
  shows "\<exists>S'. store_insn op F I S = Inr S' \<and> step_ok F (B_store op s1 s2 i) S S'"
proof -
  let ?bs = "le_bytes (store_width op) (xreg F S (unat s2))"
  have ea: "isa_ea F I S = isa_add (IsRV32 F) (xreg F S (unat s1)) i" using f by (intro isa_ea_add) simp_all
  have im: "imm I = ucast i" using f by simp
  have fit: "fits 12 (imm I)" unfolding im by (rule imm_scast)
  have "ok_range (mem S) (isa_ea F I S) (length ?bs)"
    using data_ok_parts(3) [OF d] room store_width_pos unfolding ea by (intro ok_range_data) simp_all
  have supp: "store_supported F op" using data_ok_parts(3) [OF d] by simp
  from WriteMem_spec [OF inv \<open>ok_range _ _ _\<close>, of "GetHart F"] obtain M' where
    w: "WriteMem (GetHart F) (isa_ea F I S) ?bs (mem S) = Inr M'"
    and M': "vm_inv M'" "vbyte M' = vstore (isa_ea F I S) ?bs (vbyte (mem S))" "mem_after (mem S) M'" by blast
  have pc: "xpc F (updR (incPC F I) S) = pc_next F I S" "xreg F (updR (incPC F I) S) = xreg F S"
    by (simp_all add: xreg_def xpc_def pc_next_def incPC_def fun_eq_iff)
  show ?thesis
    using w M' f hz by (auto simp: store_insn_eq [OF fit supp] step_ok_def Let_def pc isa_next ea intro!: isa_eqI)
qed

lemma base_step:
  assumes "fields_ok b I" and "data_ok F b (isa_of F S) (valid_window (mem S))" and "vm_inv (mem S)"
    and "access_room 1 (mem S)" and "\<not> hazard S"
  shows "\<exists>S'. base_fn b F I S = Inr S' \<and> step_ok F b S S'"
proof (cases b)
  case (B_alu op d s1 s2)
  then show ?thesis using alu_step [of op d s1 s2 I F "isa_of F S" "valid_window (mem S)" S] assms by simp
next
  case (B_alui op d s1 i)
  then show ?thesis using alui_step [of op d s1 i I F S "valid_window (mem S)"] assms by simp
next
  case (B_aluw op d s1 s2)
  then show ?thesis using aluw_step [of op d s1 s2 I F S "valid_window (mem S)"] assms by simp
next
  case (B_aluwi op d s1 i)
  then show ?thesis using aluwi_step [of op d s1 i I F S "valid_window (mem S)"] assms by simp
next
  case (B_lui d i)
  then show ?thesis using lui_step [of d i I S F] assms by simp
next
  case (B_auipc d i)
  then show ?thesis using auipc_step [of d i I S F] assms by simp
next
  case (B_jal d off)
  then show ?thesis using jal_step [of d off I F S "valid_window (mem S)"] assms by simp
next
  case (B_jalr d s1 i)
  then show ?thesis using jalr_step [of d s1 i I S F] assms by simp
next
  case (B_branch op s1 s2 off)
  then show ?thesis using branch_step [of op s1 s2 off I S F] assms by simp
next
  case (B_load op d s1 i)
  then show ?thesis using load_step [of op d s1 i I F S] assms by simp
next
  case (B_store op s1 s2 i)
  then show ?thesis using store_step [of op s1 s2 i I F S] assms by simp
qed


section \<open>Decoding and dispatch\<close>

text \<open>The index of the entry with which the decoder of a core finds an instruction.\<close>

definition base_idx :: "RevTables \<Rightarrow> base_insn \<Rightarrow> nat" where
  "base_idx T b = the (EncToEntry T (Enc_of (enc_base b)))"

lemma base_decode:
  assumes core: "core_ok ext F T" and form: "base_form b" and x: "only64 b \<longrightarrow> GetXlen F = 64"
  obtains D k j where
    "\<And>cp S. DecodeWord F T cp junk (enc_base b) S =
       Inr (D, updR (\<lambda>R. R\<lparr>Entry := base_idx T b, trigger := False, rf_cost := 1\<rparr>) S)"
    and "fields_ok b D" and "rd D < 32" "rs1 D < 32" "rs2 D < 32" "rs3 D < 32" "\<not> compressed D"
    and "base_idx T b < length (InstTable T)" and "EntryToExt T (base_idx T b) = Some (k, j)"
    and "k < length (Extensions T)"
    and "\<And>I S. \<not> compressed I \<Longrightarrow> Execute (Extensions T ! k) j F I S = base_fn b F I S"
proof -
  obtain D where D: "decode_format junk (enc_base b) (base_entry b) = Some D" "fields_ok b D"
    using base_fields [OF form] by blast
  obtain i k j where "EncToEntry T (Enc_of (enc_base b)) = Some i" "i < length (InstTable T)"
    "EntryToExt T i = Some (k, j)" "k < length (Extensions T)"
    "\<And>I S. \<not> compressed I \<Longrightarrow> Execute (Extensions T ! k) j F I S = base_fn b F I S"
    "\<And>cp S. DecodeWord F T cp junk (enc_base b) S =
      Inr (D, updR (\<lambda>R. R\<lparr>Entry := i, trigger := False, rf_cost := 1\<rparr>) S)"
    by (rule base_dispatch [OF core base_in_table [OF x] base_entry_fn [OF form] base_key [OF form] D(1)]) blast
  then show ?thesis using that [of D k j] D(2) decode_format_wf [OF D(1)] by (simp add: base_idx_def)
qed


section \<open>Fetching an aligned word\<close>

lemma stream_of:
  assumes "streams_ok f P" and "find_stream (depth P) a (baseAddr P) = Some i"
  shows "stream_ok f (depth P) (baseAddr P ! i) (iStack P ! i)" and "unat (depth P) \<le> 2 ^ 29"
  using assms find_stream_Some [OF assms(2)] by (auto simp: streams_ok_def dest: list_all2_nthD)

lemma aligned_gap:
  assumes ok: "streams_ok f P" and i: "find_stream (depth P) a (baseAddr P) = Some i"
    and al: "unat a mod 4 = 0"
  shows "\<not> lastAddr (depth P) (baseAddr P ! i) - a < 4" and "in_stream (depth P) (a + 2) (baseAddr P ! i)"
proof -
  let ?b = "baseAddr P ! i" and ?d = "unat (depth P)"
  note st = stream_of [OF ok i]
  have h: "unat ?b \<le> unat a" "unat a < unat ?b + 4 * ?d"
    using find_stream_Some [OF i] in_stream_iff [OF st] by auto
  have b: "unat ?b mod 4 = 0" "unat ?b + 4 * ?d \<le> 2 ^ 50" using st(1) by (simp_all add: stream_ok_def)
  obtain p q where pq: "unat a = 4 * p" "unat ?b = 4 * q"
    using al b(1) by (metis mod_0_imp_dvd dvd_def)
  have le: "unat a + 4 \<le> unat ?b + 4 * ?d" using h(2) unfolding pq by presburger
  have "unat (depth P * 4) = 4 * ?d" using st(2) by (simp add: unat_word_ariths)
  then have la: "unat (lastAddr (depth P) ?b) = unat ?b + 4 * ?d"
    using b(2) by (simp add: lastAddr_def unat_word_ariths unat_ucast_u64)
  have "unat (lastAddr (depth P) ?b - a) = unat ?b + 4 * ?d - unat a"
    using la le by (simp add: unat_sub word_le_nat_alt)
  then show "\<not> lastAddr (depth P) ?b - a < 4" using le by (simp add: word_less_nat_alt)
  have "unat (a + 2) = unat a + 2" using unat_add_of_nat [of a 2] le b(2) by simp
  then show "in_stream (depth P) (a + 2) ?b" using in_stream_iff [OF st] h le by simp
qed

lemma IsAvail_aligned:
  assumes ok: "streams_ok f P" and al: "unat a mod 4 = 0" and w: "code_word f a \<noteq> REVPREF_INIT_ADDR"
  shows "IsAvail F a P M = (if buffered P a then Inr (True, P, M)
    else bind_res (Fill F a P M) (\<lambda>(P', M'). Inr (False, P', M')))"
proof (cases "find_stream (depth P) a (baseAddr P)")
  case None
  then have "\<not> buffered P a" by (simp add: find_stream_None buffered_def)
  then show ?thesis using None by (simp add: IsAvail_def)
next
  case (Some i)
  then have "buffered P a" using find_stream_Some by (fastforce simp: buffered_def)
  then show ?thesis
    using stream_at [OF ok Some] aligned_gap [OF ok Some al] w Some
    by (simp add: IsAvail_def Let_def align4_aligned [OF al])
qed

lemma DeleteStream_bases: "DeleteStream i P = Inr P' \<Longrightarrow> set (baseAddr P') \<subseteq> set (baseAddr P)"
  by (auto simp: DeleteStream_def dest: in_set_takeD in_set_dropD split: if_splits)

lemma Fill_bases: "Fill F a P M = Inr (P', M') \<Longrightarrow> baseAddr P' = baseAddr P @ [align4 a]"
  using align4_aligned [of a] mod4_word [of a]
  by (auto simp: Fill_def Let_def align4_def bind_res_def split: sum.splits if_splits)

lemma align4_half:
  assumes "unat a mod 4 = 0" and "unat a < 2 ^ 51"
  shows "align4 (a + 2) = a"
proof -
  have "unat (a + 2) = unat a + 2" using unat_add_of_nat [of a 2] assms(2) by simp
  then have "unat (a + 2) mod 4 = 2" using assms(1) by presburger
  then show ?thesis by (simp add: align4_eq)
qed

lemma InstFetch_aligned:
  assumes "vm_inv M" and ok: "streams_ok (vbyte M) P" and al: "unat a mod 4 = 0" and "buffered P a"
    and "valid_window M a (4 * unat (depth P) + 4)" and "access_room (unat (depth P) + k) M"
    and w: "code_word (vbyte M) a \<noteq> REVPREF_INIT_ADDR"
  obtains P' M' where "InstFetch F a I P M = Inr (True, True, code_word (vbyte M) a, P', M')"
    and "fetch_step_ok a k P M (True, True, code_word (vbyte M) a, P', M')"
    and "set (baseAddr P') \<subseteq> insert a (set (baseAddr P))"
proof -
  obtain i where i: "find_stream (depth P) a (baseAddr P) = Some i"
    using assms(4) find_stream_None by (fastforce simp: buffered_def)
  note at = stream_at [OF ok i] and ev = align4_aligned [OF al]
  have win: "valid_window M (align4 a) (4 * unat (depth P) + 4)" using assms(5) by (simp add: ev)
  have evn: "even (unat a)" using al by presburger
  let ?c = "Off a (baseAddr P ! i) = depth P - 1"
  have eq: "InstFetch F a I P M =
      (if ?c then bind_res (DeleteStream i P) (\<lambda>P2. bind_res (Fill F (a + 2) P2 M)
         (\<lambda>(P3, M2). Inr (True, True, code_word (vbyte M) a, P3, M2)))
       else Inr (True, True, code_word (vbyte M) a, P, M))"
    unfolding InstFetch_def i option.case Let_def at(3) ev using w by (simp add: at(2,4) al)
  from fetch_finish [OF assms(1) ok at(1) windows(2) [OF win evn] assms(6) refl, of ?c F]
  obtain r where r: "InstFetch F a I P M = Inr r" "fetch_step_ok a k P M r" "fst (snd r)"
    unfolding eq by blast
  obtain P' M' where "r = (True, True, code_word (vbyte M) a, P', M')"
    using r(2,3) by (cases r) (auto simp: fetch_step_ok_def)
  moreover have "set (baseAddr P') \<subseteq> insert a (set (baseAddr P))"
    if fe: "InstFetch F a I P M = Inr (True, True, code_word (vbyte M) a, P', M')" for P' M'
  proof (cases ?c)
    case True
    then obtain P2 where "DeleteStream i P = Inr P2" "Fill F (a + 2) P2 M = Inr (P', M')"
      using fe unfolding eq by auto
    then show ?thesis using DeleteStream_bases Fill_bases align4_half [OF al window_bound [OF win]] by fastforce
  qed (use fe eq in auto)
  ultimately show ?thesis using that r by simp
qed

end
