(* ===== verification/Rev_EcallProps.thy ===== *)
theory Rev_EcallProps
  imports Rev_Ecall
begin

text \<open>
  Properties of the system calls: \<open>write\<close> passes exactly the bytes of the simulated buffer to the
  host, however many invocations it takes; the calls that manage memory; and the error paths of
  the dispatcher.
\<close>

section \<open>The active register file\<close>

text \<open>A core whose active register file is that of context \<open>p\<close>, which is also the executing hart's.\<close>

definition runs :: "u32 \<Rightarrow> RevRegFile \<Rightarrow> RevProc \<Rightarrow> bool" where
  "runs p R P \<longleftrightarrow> RegFile P = Some p \<and> GetRegFile (HartToExec P) P = Inr p \<and> rf_at p P = Inr R"

lemma runs_active: "runs p R P \<Longrightarrow> active_key P = Inr p"
  by (auto simp: runs_def active_key_def rf_at_def split: option.splits)

lemma runs_cur: "runs p R P \<Longrightarrow> cur_rf P = Inr R"
  by (simp add: cur_rf_def runs_active) (simp add: runs_def)

lemma runs_upd_cur: "runs p R P \<Longrightarrow> upd_cur f P = Inr (upd_rf p f P) \<and> runs p (f R) (upd_rf p f P)"
  by (simp add: upd_cur_def runs_active) (simp add: runs_def)

lemma runs_other: "runs p R P \<Longrightarrow> q \<noteq> p \<Longrightarrow> runs p R (upd_rf q f P)"
  by (simp add: runs_def)

lemma runs_cong:
  assumes "RegFile Q = RegFile P" and "HartToExec Q = HartToExec P"
    and "ActivePIDs Q = ActivePIDs P" and "ThreadTable Q = ThreadTable P"
  shows "runs p R Q = runs p R P"
  using assms by (simp add: runs_def GetRegFile_def GetActivePID_def rf_at_def)

lemma runs_fields [simp]:
  "runs p R (P\<lparr>p_mem := M\<rparr>) = runs p R P"
  "runs p R (P\<lparr>ECALL_buf := b\<rparr>) = runs p R P"
  "runs p R (P\<lparr>ECALL_string := c\<rparr>) = runs p R P"
  "runs p R (P\<lparr>ECALL_bytesRead := n\<rparr>) = runs p R P"
  "runs p R (P\<lparr>Pipeline := ps\<rparr>) = runs p R P"
  by (rule runs_cong; simp)+

lemma get64_set_board [simp]: "get64 (set_board F fl r v R) i = get64 R i"
  by (simp add: set_board_def)

lemma runs_dep_set:
  "runs p R P \<Longrightarrow> 0 < r \<Longrightarrow> r < 32 \<Longrightarrow>
   DependencySet_reg (HartToExec P) r fl P = Inr (upd_rf p (set_board (p_feature P) fl r True) P) \<and>
   runs p (set_board (p_feature P) fl r True R) (upd_rf p (set_board (p_feature P) fl r True) P)"
  by (simp add: DependencySet_reg_def REV_NUM_REGS_def runs_def)

lemma runs_dep_clear:
  "runs p R P \<Longrightarrow> 0 < r \<Longrightarrow> r < 32 \<Longrightarrow>
   DependencyClear_reg (HartToExec P) r fl P = Inr (upd_rf p (set_board (p_feature P) fl r False) P) \<and>
   runs p (set_board (p_feature P) fl r False R) (upd_rf p (set_board (p_feature P) fl r False) P)"
  by (simp add: DependencyClear_reg_def REV_NUM_REGS_def runs_def)


section \<open>write\<close>

text \<open>A system call is executed again, with the state it left, until it reports success.\<close>

fun ecall_loop :: "nat \<Rightarrow> ecall \<Rightarrow> RevInst \<Rightarrow> RevProc \<Rightarrow> RevProc option" where
  "ecall_loop 0 f I P = None"
| "ecall_loop (Suc k) f I P =
     (case f I P of
        Inr (SUCCESS, P') \<Rightarrow> Some P'
      | Inr (CONTINUE, P') \<Rightarrow> ecall_loop k f I P'
      | _ \<Rightarrow> None)"

text \<open>
  The invariant after \<open>k\<close> bytes: what the string and the pending piece in the buffer hold together
  are the first \<open>k\<close> bytes of the simulated memory at \<open>a\<close>.
\<close>

definition bytes_at :: "(u64 \<Rightarrow> u8) \<Rightarrow> u64 \<Rightarrow> nat \<Rightarrow> u8 list" where
  "bytes_at f a n = map (\<lambda>i. f (a + of_nat i)) [0..<n]"

definition write_inv :: "u32 \<Rightarrow> u64 \<Rightarrow> u64 \<Rightarrow> u64 \<Rightarrow> (u64 \<Rightarrow> u8) \<Rightarrow> nat \<Rightarrow> RevProc \<Rightarrow> bool" where
  "write_inv p fd a n f k P \<longleftrightarrow>
     (\<exists>R. runs p R P \<and> get64 R 10 = fd \<and> get64 R 11 = a \<and> get64 R 12 = n) \<and>
     vm_inv (p_mem P) \<and> vbyte (p_mem P) = f \<and> valid_window (p_mem P) a (unat n) \<and>
     access_room (unat n - k) (p_mem P) \<and>
     k \<le> unat n \<and> unat n < 2 ^ 32 \<and> unat (ECALL_bytesRead P) = k \<and>
     length (ECALL_buf P) = 64 \<and> 0 \<in> set (ECALL_buf P) \<and>
     ECALL_string P @ takeWhile (\<lambda>b. b \<noteq> 0) (ECALL_buf P) = bytes_at f a k"

lemma write_chunk_bounds:
  assumes "unat left = m" and "0 < m"
  shows "0 < write_chunk left \<and> write_chunk left \<le> m \<and> write_chunk left \<le> 8"
proof -
  have "left = 1 \<longleftrightarrow> m = 1" using assms(1) unat_eqI [of left 1] by auto
  moreover have "3 \<ge> left \<longleftrightarrow> 3 \<ge> m" "7 \<ge> left \<longleftrightarrow> 7 \<ge> m"
    using assms(1) by (simp_all add: word_le_nat_alt)
  ultimately show ?thesis using assms(2) by (auto simp: write_chunk_def)
qed

lemma bytes_at_split: "bytes_at f a (k + c) = bytes_at f a k @ bytes_at f (a + of_nat k) c"
proof -
  have "[0..<k + c] = [0..<k] @ map (\<lambda>i. k + i) [0..<c]"
    using map_add_upt [of k c] upt_add_eq_append [of 0 k c] by (simp add: add.commute)
  then show ?thesis by (simp add: bytes_at_def add.assoc o_def)
qed

lemma takeWhile_terminated:
  assumes "\<forall>b\<in>set bs. b \<noteq> 0" and "length bs = c" and "c < length buf"
  shows "takeWhile (\<lambda>b. b \<noteq> 0) ((bs @ drop c buf)[c := 0 :: u8]) = bs"
    and "0 \<in> set ((bs @ drop c buf)[c := 0 :: u8])"
proof -
  have "(bs @ drop c buf)[c := 0] = bs @ 0 # drop (Suc c) buf"
    using assms(2,3) by (simp add: list_update_append flip: Cons_nth_drop_Suc)
  then show "takeWhile (\<lambda>b. b \<noteq> 0) ((bs @ drop c buf)[c := 0 :: u8]) = bs"
    and "0 \<in> set ((bs @ drop c buf)[c := 0 :: u8])"
    using assms(1) by (simp_all add: takeWhile_tail)
qed

lemma write_step:
  assumes inv: "write_inv p fd a n f k P" and k: "k < unat n"
    and nz: "\<forall>i<unat n. f (a + of_nat i) \<noteq> 0"
  shows "\<exists>P' k'. ECALL_write H I P = Inr (CONTINUE, P') \<and> k < k' \<and> write_inv p fd a n f k' P'"
proof -
  obtain R where R: "runs p R P" "get64 R 10 = fd" "get64 R 11 = a" "get64 R 12 = n"
    using inv by (auto simp: write_inv_def)
  have br: "unat (ECALL_bytesRead P) = k" and lb: "length (ECALL_buf P) = 64"
    and z: "0 \<in> set (ECALL_buf P)"
    and str: "ECALL_string P @ takeWhile (\<lambda>b. b \<noteq> 0) (ECALL_buf P) = bytes_at f a k"
    and n32: "unat n < 2 ^ 32"
    and mem: "vm_inv (p_mem P)" "vbyte (p_mem P) = f" "valid_window (p_mem P) a (unat n)"
      "access_room (unat n - k) (p_mem P)"
    using inv by (simp_all add: write_inv_def)
  have ub: "unat (ucast (ECALL_bytesRead P) :: u64) = k" using br by (simp add: unat_ucast_u64)
  have ok: "ucast (ECALL_bytesRead P) = (of_nat k :: u64)" using ub by (metis of_nat_unat ucast_id)
  have ne: "ucast (ECALL_bytesRead P) \<noteq> n" using ub k by auto
  have left: "unat (n - ucast (ECALL_bytesRead P)) = unat n - k"
    using ub k by (subst unat_sub) (simp_all add: word_le_nat_alt)
  define c where "c = write_chunk (n - ucast (ECALL_bytesRead P))"
  have c: "0 < c" "c \<le> unat n - k" "c \<le> 8"
    using write_chunk_bounds [OF left] k by (simp_all add: c_def)
  define P1 where "P1 = P\<lparr>ECALL_string := bytes_at f a k\<rparr>"
  have app: "(if ECALL_bytesRead P > 0 then append_buf P else Inr P) = Inr P1"
  proof (cases "ECALL_bytesRead P > 0")
    case True
    then show ?thesis using z str by (simp add: append_buf_def P1_def)
  next
    case False
    then have "k = 0" using br by (simp add: word_less_nat_alt)
    then have "ECALL_string P = bytes_at f a k" using str by (simp add: bytes_at_def)
    then show ?thesis using False by (simp add: P1_def)
  qed
  obtain r where r: "unat n - k = Suc r" using k by (metis Suc_diff_Suc)
  have "ok_range (p_mem P) (a + of_nat k) c"
    using ok_range_window [OF mem(3) mem(4) [unfolded r], of k c] c k by simp
  from ReadMem_spec [OF mem(1) this, of "ucast (HartToExec P)"] obtain M where
    rd: "ReadMem (ucast (HartToExec P)) (a + of_nat k) c (p_mem P) = Inr (bytes_at f (a + of_nat k) c, M)"
    and M: "vm_inv M" "vbyte M = f" "mem_after (p_mem P) M"
    using mem(2) by (auto simp: bytes_at_def)
  let ?bs = "bytes_at f (a + of_nat k) c"
  let ?buf = "(?bs @ drop c (ECALL_buf P))[c := 0]"
  define P2 where "P2 = P1\<lparr>p_mem := M, Pipeline := clear_hazard (Pipeline P), ECALL_buf := ?buf,
      ECALL_bytesRead := ECALL_bytesRead P + of_nat c\<rparr>"
  have run2: "runs p R P2" using R(1) by (simp add: P2_def P1_def)
  have h2: "HartToExec P2 = HartToExec P" by (simp add: P2_def P1_def)
  let ?P3 = "upd_rf p (set_board (p_feature P2) False 10 True) P2"
  have step: "ECALL_write H I P = Inr (CONTINUE, ?P3)"
    using runs_dep_set [OF run2, of 10 False] ne app rd
    by (simp add: ECALL_write_def runs_cur [OF R(1)] R Let_def ok c_def [symmetric, unfolded ok]
        read_buf_def P2_def P1_def)
  have nzb: "\<forall>b\<in>set ?bs. b \<noteq> 0"
  proof
    fix b assume "b \<in> set ?bs"
    then obtain i where "i < c" "b = f (a + of_nat (k + i))"
      by (auto simp: bytes_at_def add.assoc)
    then show "b \<noteq> 0" using nz [rule_format, of "k + i"] c(2) by simp
  qed
  have len: "length ?bs = c" by (simp add: bytes_at_def)
  note tw = takeWhile_terminated [OF nzb len, of "ECALL_buf P"]
  have room: "access_room (unat n - (k + c)) M"
    using access_room_mono [OF access_room_after [OF M(3) mem(4) [unfolded r]]] r c(1) by simp
  have "unat (ECALL_bytesRead P + of_nat c) = k + c"
    using br c k n32 by (simp add: unat_word_ariths unsigned_of_nat take_bit_eq_mod)
  then have "write_inv p fd a n f (k + c) ?P3"
    unfolding write_inv_def
    using runs_dep_set [OF run2, of 10 False] R M room c n32 k tw lb len
      valid_window_after [OF M(3)] mem(3)
    by (auto simp: P2_def P1_def bytes_at_split upd_rf_def)
  then show ?thesis using step c(1) by (intro exI [of _ ?P3] exI [of _ "k + c"]) simp
qed

lemma upd_rf_ecall [simp]:
  "ECALL_buf (upd_rf p f P) = ECALL_buf P" "ECALL_string (upd_rf p f P) = ECALL_string P"
  "ECALL_bytesRead (upd_rf p f P) = ECALL_bytesRead P"
  by (simp_all add: upd_rf_def)

lemma write_finish:
  assumes inv: "write_inv p fd a n f (unat n) P"
  shows "\<exists>P' R'. ECALL_write H I P = Inr (SUCCESS, P') \<and> runs p R' P' \<and>
    get64 R' 10 = scast (h_write H (ucast fd) (bytes_at f a (unat n))) \<and>
    \<not> board (p_feature P) False R' 10 \<and> vbyte (p_mem P') = f \<and>
    ECALL_bytesRead P' = 0 \<and> ECALL_string P' = [] \<and> hd (ECALL_buf P') = 0"
proof -
  obtain R where R: "runs p R P" "get64 R 10 = fd" "get64 R 11 = a" "get64 R 12 = n"
    using inv by (auto simp: write_inv_def)
  have br: "unat (ucast (ECALL_bytesRead P) :: u64) = unat n"
    using inv by (simp add: write_inv_def unat_ucast_u64)
  then have eq: "ucast (ECALL_bytesRead P) = n" by (rule unat_eqI)
  have str: "ECALL_string P @ takeWhile (\<lambda>b. b \<noteq> 0) (ECALL_buf P) = bytes_at f a (unat n)"
    and z: "0 \<in> set (ECALL_buf P)" and lb: "length (ECALL_buf P) = 64" and vb: "vbyte (p_mem P) = f"
    using inv by (simp_all add: write_inv_def)
  let ?v = "scast (h_write H (ucast fd) (bytes_at f a (unat n))) :: u64"
  define P1 where "P1 = P\<lparr>ECALL_string := bytes_at f a (unat n)\<rparr>"
  have app: "append_buf P = Inr P1" using z str by (simp add: append_buf_def P1_def)
  have len: "length (bytes_at f a (unat n)) = unat n" by (simp add: bytes_at_def)
  have run1: "runs p R P1" using R(1) by (simp add: P1_def)
  note set1 = runs_upd_cur [OF run1, of "set64 10 ?v"]
  define P2 where "P2 = (upd_rf p (set64 10 ?v) P1)\<lparr>ECALL_bytesRead := 0,
      ECALL_buf := (ECALL_buf P)[0 := 0], ECALL_string := []\<rparr>"
  have run2: "runs p (set64 10 ?v R) P2" using set1 by (simp add: P2_def)
  have h2: "HartToExec P2 = HartToExec P" by (simp add: P2_def P1_def)
  note clr = runs_dep_clear [OF run2, of 10 False]
  let ?P3 = "upd_rf p (set_board (p_feature P2) False 10 False) P2"
  have buf1: "ECALL_buf P1 = ECALL_buf P" and s1: "ECALL_string P1 = bytes_at f a (unat n)"
    by (simp_all add: P1_def)
  have dc: "DependencyClear_reg (HartToExec P) 10 False
      ((upd_rf p (set64 10 ?v) P1)\<lparr>ECALL_bytesRead := 0, ECALL_buf := (ECALL_buf P)[0 := 0],
        ECALL_string := []\<rparr>) = Inr ?P3"
    using clr h2 unfolding P2_def by simp
  have "ECALL_write H I P = Inr (SUCCESS, ?P3)"
    using set1 dc
    by (simp add: ECALL_write_def runs_cur [OF R(1)] R Let_def eq app s1 buf1 len set_areg_def)
  moreover have "hd ((ECALL_buf P)[0 := 0]) = 0" using lb by (cases "ECALL_buf P") auto
  ultimately show ?thesis
    using clr vb by (auto simp: P2_def P1_def board_set_board)
qed

lemma write_loop:
  assumes "write_inv p fd a n f k P" and "\<forall>i<unat n. f (a + of_nat i) \<noteq> 0" and "unat n - k < m"
  shows "\<exists>P' R'. ecall_loop m (ECALL_write H) I P = Some P' \<and> runs p R' P' \<and>
    get64 R' 10 = scast (h_write H (ucast fd) (bytes_at f a (unat n))) \<and>
    vbyte (p_mem P') = f \<and> ECALL_bytesRead P' = 0 \<and> ECALL_string P' = [] \<and> hd (ECALL_buf P') = 0"
  using assms
proof (induction m arbitrary: k P)
  case (Suc m)
  show ?case
  proof (cases "k < unat n")
    case True
    from write_step [OF Suc.prems(1) True Suc.prems(2), of H I] obtain P' k' where
      st: "ECALL_write H I P = Inr (CONTINUE, P')" "k < k'" "write_inv p fd a n f k' P'" by blast
    then have "unat n - k' < m" using Suc.prems(3) True by linarith
    from Suc.IH [OF st(3) Suc.prems(2) this] st(1) show ?thesis by simp
  next
    case False
    then have "k = unat n" using Suc.prems(1) by (simp add: write_inv_def)
    with write_finish [of p fd a n f P H I] Suc.prems(1) show ?thesis by auto
  qed
qed simp


lemma PIDCount_upd [simp]:
  "vm_inv (M\<lparr>PIDCount := c\<rparr>) = vm_inv M" "vbyte (M\<lparr>PIDCount := c\<rparr>) = vbyte M"
  "valid_window (M\<lparr>PIDCount := c\<rparr>) = valid_window M" "access_room k (M\<lparr>PIDCount := c\<rparr>) = access_room k M"
proof -
  have t: "translate (M\<lparr>PIDCount := c\<rparr>) = translate M" by (simp add: fun_eq_iff translate_def)
  show "vm_inv (M\<lparr>PIDCount := c\<rparr>) = vm_inv M"
    by (simp add: vm_inv_def mem_inv_def fresh_zero_def tlb_ok_def tlb_coherent_def pages_ok_def t)
  show "vbyte (M\<lparr>PIDCount := c\<rparr>) = vbyte M"
    by (simp add: fun_eq_iff vbyte_def t split: option.split)
  show "valid_window (M\<lparr>PIDCount := c\<rparr>) = valid_window M"
    by (simp add: fun_eq_iff valid_window_def isValidVirtAddr_def)
  show "access_room k (M\<lparr>PIDCount := c\<rparr>) = access_room k M" by (simp add: access_room_def)
qed

text \<open>
  A host whose \<open>write\<close> accepts everything; the text "Hi" in memory across a page boundary is
  written to descriptor 1.
\<close>

abbreviation demo_host :: host where
  "demo_host \<equiv> \<lparr>h_setxattr = (\<lambda>_ _ _ _ _. 0), h_chdir = (\<lambda>_. 0), h_mkdirat = (\<lambda>_ _ _. 0),
     h_openat = (\<lambda>_. 3), h_write = (\<lambda>fd bs. if fd = 1 \<and> bs = [72, 105] then 2 else 0),
     h_read = (\<lambda>_ _. (0, [])), h_close = (\<lambda>_. 0), h_cwd = []\<rparr>"



section \<open>Memory management\<close>

lemma demo_runs: "runs 1024 new_RevRegFile (demo_proc demo_mem)"
proof -
  have "runs (PIDCount demo_mem + 1) new_RevRegFile (demo_proc demo_mem)" by (simp add: runs_def)
  moreover have "PIDCount demo_mem + 1 = 1024" by (simp add: new_RevMem_def)
  ultimately show ?thesis by simp
qed

text \<open>
  \<open>brk\<close>, all branches: a break at or below the current end of the heap is a fatal error, one
  above the configured maximum is out of memory, any other moves the end of the heap there and
  reports success; registers and thread table stay as they are.
\<close>

theorem ECALL_brk_correct:
  assumes run: "runs p R P"
  shows "let Addr = get64 R 10; M = p_mem P in
    if Addr \<le> heapend M then ECALL_brk I P = Inl (Fatal_Brk Addr)
    else if Addr > ucast (maxHeapSize M) then ECALL_brk I P = Inl (Fatal_OutOfMemory Addr)
    else ECALL_brk I P = Inr (SUCCESS, P\<lparr>p_mem := M\<lparr>heapend := Addr\<rparr>\<rparr>)"
proof -
  have "0 < get64 R 10" if "heapend (p_mem P) < get64 R 10"
    using that word_neq_0_conv by fastforce
  then show ?thesis
    by (auto simp: ECALL_brk_def areg_def runs_cur [OF run] ExpandHeap_def Let_def not_le)
qed

theorem ECALL_brk_correct_witness:
  "\<exists>P. ECALL_brk junk_inst P = Inl (Fatal_Brk 0) \<and> runs 1024 new_RevRegFile P"
proof -
  have run: "runs 1024 new_RevRegFile (demo_proc demo_mem)" by (rule demo_runs)
  have "heapend (p_mem (demo_proc demo_mem)) = 0" by (simp add: new_RevMem_def)
  then show ?thesis
    using ECALL_brk_correct [OF run, of junk_inst] run
    by (auto simp: new_RevRegFile_def RF_get_def)
qed

lemma runs_set_a0:
  "runs p R P \<Longrightarrow> set_a0 v P = Inr (SUCCESS, upd_rf p (set64 10 v) P) \<and>
     runs p (set64 10 v R) (upd_rf p (set64 10 v) P)"
  using runs_upd_cur [of p R P "set64 10 v"] by (simp add: set_a0_def set_areg_def)

text \<open>\<open>mmap\<close> without an address takes a block of one byte more than requested from the heap.\<close>

lemma ECALL_mmap_null:
  assumes run: "runs p R P" and "get64 R 10 = 0"
    and alloc: "AllocMem (get64 R 11 + 1) (p_mem P) = Inr (b, M)"
  shows "ECALL_mmap I P = Inr (SUCCESS, upd_rf p (set64 10 b) (P\<lparr>p_mem := M\<rparr>))"
proof -
  have "runs p R (P\<lparr>p_mem := M\<rparr>)" using run by simp
  from runs_set_a0 [OF this] show ?thesis
    using assms by (simp add: ECALL_mmap_def areg_def runs_cur [OF run])
qed

text \<open>\<open>munmap\<close> of memory that is not allocated succeeds with result 1: the fatal error is never raised.\<close>

lemma ECALL_munmap_never_fatal: "ECALL_munmap I P \<noteq> Inl (Fatal_Munmap a n)"
proof -
  have "DeallocMem x y M \<noteq> Inl (Fatal_Munmap a n)" for x y M
  proof -
    have "release_seg x y ss \<noteq> Inl (Fatal_Munmap a n)" for ss
      by (induction ss) (auto simp: bind_res_def split: sum.splits)
    then show ?thesis by (auto simp: DeallocMem_def bind_res_def split: sum.splits option.splits)
  qed
  moreover have "set_a0 v Q \<noteq> Inl (Fatal_Munmap a n)" "areg k Q \<noteq> Inl (Fatal_Munmap a n)" for v Q k
    by (auto simp: set_a0_def set_areg_def upd_cur_def areg_def cur_rf_def active_key_def rf_at_def
        bind_res_def split: option.splits sum.splits)
  ultimately show ?thesis
    by (auto simp: ECALL_munmap_def bind_res_def Let_def split: sum.splits)
qed


section \<open>Threads\<close>

lemma set64_csr:
  "RV64_SCAUSE (set64 i v R) = RV64_SCAUSE R" "RV32_SCAUSE (set64 i v R) = RV32_SCAUSE R"
  "RV64_PC (set64 i v R) = RV64_PC R" "RV32_PC (set64 i v R) = RV32_PC R"
  by (simp_all add: set64_def)

lemma get64_upd:
  "get64 (R\<lparr>RV64_SCAUSE := c\<rparr>) i = get64 R i" "get64 (R\<lparr>RV32_SCAUSE := d\<rparr>) i = get64 R i"
  by simp_all

text \<open>
  \<open>clone\<close>, once its argument has been read, forks: the new context has the next free process
  id, the current thread as its parent, and the caller's registers and program counter, except
  that its \<open>a0\<close> and its pending exception cause are 0; the caller's \<open>a0\<close> becomes the child's id, all
  its other registers stay; and a switch to the child is requested.
\<close>

theorem ECALL_clone_forks:
  assumes run: "runs p R P" and second: "ECALL_bytesRead P \<noteq> 0"
    and free: "ThreadTable P (PIDCount (p_mem P) + 1) = None"
  shows "\<exists>P' R' C. let child = PIDCount (p_mem P) + 1 in
    ECALL_clone I P = Inr (SUCCESS, P') \<and>
    ThreadTable P' child = Some C \<and> PID C = child \<and> ParentPID C = p \<and>
    (\<forall>i. i < 32 \<and> i \<noteq> 10 \<longrightarrow> get64 (t_RegFile C) i = get64 R i) \<and> get64 (t_RegFile C) 10 = 0 \<and>
    RV64_PC (t_RegFile C) = RV64_PC R \<and> RV64_SCAUSE (t_RegFile C) = 0 \<and> RV32_SCAUSE (t_RegFile C) = 0 \<and>
    runs p R' P' \<and> get64 R' 10 = ucast child \<and> (\<forall>i. i \<noteq> 10 \<longrightarrow> get64 R' i = get64 R i) \<and>
    RV64_PC R' = RV64_PC R \<and> PendingCtxSwitch P' \<and> NextPID P' = child \<and> ECALL_bytesRead P' = 0 \<and>
    (\<forall>q. q \<notin> {p, child} \<longrightarrow> ThreadTable P' q = ThreadTable P q)"
proof -
  let ?c = "PIDCount (p_mem P) + 1"
  obtain C0 where C0: "ThreadTable P p = Some C0" "t_RegFile C0 = R"
    using run by (auto simp: runs_def rf_at_def split: option.splits)
  have key: "GetActivePID (HartToExec P) P = Inr p"
    using run by (auto simp: runs_def GetRegFile_def split: option.splits)
  have ne: "p \<noteq> ?c" using C0 free by auto
  let ?C = "(DuplicateRegFile R (new_RevThreadCtx ?c p))"
  let ?C1 = "?C\<lparr>t_RegFile := set64 10 0 ((t_RegFile ?C)\<lparr>RV64_SCAUSE := 0, RV32_SCAUSE := 0\<rparr>)\<rparr>"
  let ?tt = "(ThreadTable P)(?c \<mapsto> ?C1, p \<mapsto> snd (AddChildPID ?c C0))"
  let ?P1 = "P\<lparr>p_mem := (p_mem P)\<lparr>PIDCount := ?c\<rparr>, ThreadTable := ?tt\<rparr>"
  have create: "CreateChildCtx P = Inr (?c, ?P1)"
    using ne by (simp add: CreateChildCtx_def key C0 GetNewThreadPID_def Let_def runs_cur [OF run] free)
  have rf: "t_RegFile (snd (AddChildPID ?c C0)) = R"
    using C0 by (simp add: AddChildPID_def)
  have run1: "runs p R (CtxSwitchAlert ?c ?P1)"
    using run key rf ne
    by (auto simp: runs_def GetRegFile_def rf_at_def GetActivePID_def CtxSwitchAlert_def
        split: if_splits)
  note st = runs_upd_cur [OF run1, of "set64 10 (ucast ?c)"]
  let ?P2 = "upd_rf p (set64 10 (ucast ?c)) (CtxSwitchAlert ?c ?P1)"
  let ?P3 = "(upd_rf ?c (set64 10 0) ?P2)\<lparr>ECALL_bytesRead := 0, ECALL_buf := (ECALL_buf ?P2)[0 := 0]\<rparr>"
  have "ECALL_clone I P = Inr (SUCCESS, ?P3)"
    using second st
    by (simp add: ECALL_clone_def areg_def runs_cur [OF run] key C0 create set_areg_def Let_def)
  moreover have "runs p (set64 10 (ucast ?c) R) ?P3"
    using runs_other [of p _ ?P2 ?c] st ne by simp
  moreover have "ThreadTable ?P3 ?c = Some (?C1\<lparr>t_RegFile := set64 10 0 (t_RegFile ?C1)\<rparr>)"
    using ne by (simp add: upd_rf_def CtxSwitchAlert_def)
  moreover have "ThreadTable ?P3 q = ThreadTable P q" if "q \<notin> {p, ?c}" for q
    using that by (simp add: upd_rf_def CtxSwitchAlert_def)
  moreover have "PendingCtxSwitch ?P3" "NextPID ?P3 = ?c" "ECALL_bytesRead ?P3 = 0"
    by (simp_all add: upd_rf_def CtxSwitchAlert_def)
  ultimately show ?thesis
    unfolding Let_def
    by (intro exI [of _ ?P3] exI [of _ "set64 10 (ucast ?c) R"]
        exI [of _ "?C1\<lparr>t_RegFile := set64 10 0 (t_RegFile ?C1)\<rparr>"])
      (auto simp: DuplicateRegFile_get set64_csr get64_upd new_RevThreadCtx_def)
qed

theorem ECALL_clone_forks_witness:
  "\<exists>P P' C. ECALL_clone junk_inst P = Inr (SUCCESS, P') \<and> ThreadTable P' 1025 = Some C \<and>
     ParentPID C = 1024 \<and> get64 (t_RegFile C) 10 = 0 \<and> PendingCtxSwitch P' \<and> NextPID P' = 1025"
proof -
  let ?P = "(demo_proc demo_mem)\<lparr>ECALL_bytesRead := 8\<rparr>"
  have run: "runs 1024 new_RevRegFile ?P" using demo_runs by simp
  have pc: "PIDCount (p_mem ?P) + 1 = 1025" and tt: "ThreadTable ?P 1025 = None"
    by (simp_all add: new_RevMem_def)
  show ?thesis
    using ECALL_clone_forks [OF run, of junk_inst] tt unfolding pc Let_def by auto
qed

end
