(* ===== verification/Rev_Run.thy ===== *)
theory Rev_Run
  imports Rev_Step Rev_EcallProps
begin

text \<open>
  Runs of the core. A simulation relation joins the state of the processor between two
  instructions to the abstract machine; one cycle either fills the instruction buffer or commits
  the instruction at the program counter, so a program runs on the core as it runs on the
  abstract machine.
\<close>

section \<open>Accessors under updates\<close>

lemma active_key_upd [simp]:
  "active_key (P\<lparr>p_Inst := a1\<rparr>) = active_key P" "active_key (P\<lparr>HartToDecode := a2\<rparr>) = active_key P"
  "active_key (P\<lparr>HartToExec := a3\<rparr>) = active_key P" "active_key (P\<lparr>Stalled := a4\<rparr>) = active_key P"
  "active_key (P\<lparr>sfetch := a5\<rparr>) = active_key P" "active_key (P\<lparr>p_mem := a6\<rparr>) = active_key P"
  "active_key (P\<lparr>CrackFault := a7\<rparr>) = active_key P" "active_key (P\<lparr>ExecPC := a8\<rparr>) = active_key P"
  "active_key (P\<lparr>HART_CTE := a9\<rparr>) = active_key P" "active_key (P\<lparr>HART_CTS := a9\<rparr>) = active_key P"
  "active_key (P\<lparr>Pipeline := a10\<rparr>) = active_key P" "active_key (P\<lparr>Retired := a11\<rparr>) = active_key P"
  "active_key (P\<lparr>Stats := a12\<rparr>) = active_key P" "active_key (upd_rf p f P) = active_key P"
  "active_key (P\<lparr>ECALL_buf := b1\<rparr>) = active_key P" "active_key (P\<lparr>ECALL_bytesRead := b2\<rparr>) = active_key P"
  "active_key (P\<lparr>ECALL_string := b1\<rparr>) = active_key P"
  by (simp_all add: active_key_def upd_rf_def split: option.split)

lemma rf_at_updates [simp]:
  "rf_at p (P\<lparr>p_Inst := a1\<rparr>) = rf_at p P" "rf_at p (P\<lparr>HartToDecode := a2\<rparr>) = rf_at p P"
  "rf_at p (P\<lparr>HartToExec := a3\<rparr>) = rf_at p P" "rf_at p (P\<lparr>Stalled := a4\<rparr>) = rf_at p P"
  "rf_at p (P\<lparr>sfetch := a5\<rparr>) = rf_at p P" "rf_at p (P\<lparr>p_mem := a6\<rparr>) = rf_at p P"
  "rf_at p (P\<lparr>CrackFault := a7\<rparr>) = rf_at p P" "rf_at p (P\<lparr>ExecPC := a8\<rparr>) = rf_at p P"
  "rf_at p (P\<lparr>HART_CTE := a9\<rparr>) = rf_at p P" "rf_at p (P\<lparr>HART_CTS := a9\<rparr>) = rf_at p P"
  "rf_at p (P\<lparr>Pipeline := a10\<rparr>) = rf_at p P" "rf_at p (P\<lparr>Retired := a11\<rparr>) = rf_at p P"
  "rf_at p (P\<lparr>Stats := a12\<rparr>) = rf_at p P" "rf_at p (P\<lparr>ECALL_buf := b1\<rparr>) = rf_at p P"
  "rf_at p (P\<lparr>ECALL_bytesRead := b2\<rparr>) = rf_at p P" "rf_at p (P\<lparr>ECALL_string := b1\<rparr>) = rf_at p P"
  by (simp_all add: rf_at_def)

lemma GetRegFile_updates [simp]:
  "GetRegFile h (P\<lparr>p_Inst := a1\<rparr>) = GetRegFile h P" "GetRegFile h (P\<lparr>HartToDecode := a2\<rparr>) = GetRegFile h P"
  "GetRegFile h (P\<lparr>HartToExec := a3\<rparr>) = GetRegFile h P" "GetRegFile h (P\<lparr>Stalled := a4\<rparr>) = GetRegFile h P"
  "GetRegFile h (P\<lparr>sfetch := a5\<rparr>) = GetRegFile h P" "GetRegFile h (P\<lparr>p_mem := a6\<rparr>) = GetRegFile h P"
  "GetRegFile h (P\<lparr>CrackFault := a7\<rparr>) = GetRegFile h P" "GetRegFile h (P\<lparr>ExecPC := a8\<rparr>) = GetRegFile h P"
  "GetRegFile h (P\<lparr>HART_CTE := a9\<rparr>) = GetRegFile h P" "GetRegFile h (P\<lparr>HART_CTS := a9\<rparr>) = GetRegFile h P"
  "GetRegFile h (P\<lparr>Pipeline := a10\<rparr>) = GetRegFile h P" "GetRegFile h (P\<lparr>Retired := a11\<rparr>) = GetRegFile h P"
  "GetRegFile h (P\<lparr>Stats := a12\<rparr>) = GetRegFile h P" "GetRegFile h (P\<lparr>ECALL_buf := b1\<rparr>) = GetRegFile h P"
  "GetRegFile h (P\<lparr>ECALL_bytesRead := b2\<rparr>) = GetRegFile h P" "GetRegFile h (P\<lparr>ECALL_string := b1\<rparr>) = GetRegFile h P"
  by (simp_all add: GetRegFile_def GetActivePID_def)

lemma upd_rf_more [simp]:
  "HART_CTE (upd_rf p f P) = HART_CTE P" "Stalled (upd_rf p f P) = Stalled P"
  "SingleStep (upd_rf p f P) = SingleStep P" "CrackFault (upd_rf p f P) = CrackFault P"
  "ALUFault (upd_rf p f P) = ALUFault P" "PendingCtxSwitch (upd_rf p f P) = PendingCtxSwitch P"
  "sfetch (upd_rf p f P) = sfetch P" "p_Inst (upd_rf p f P) = p_Inst P" "ExecPC (upd_rf p f P) = ExecPC P"
  "Stats (upd_rf p f P) = Stats P" "Retired (upd_rf p f P) = Retired P" "PExec (upd_rf p f P) = PExec P"
  by (simp_all add: upd_rf_def)

definition parent_of :: "u32 \<Rightarrow> RevProc \<Rightarrow> u32 option" where
  "parent_of p P = map_option ParentPID (ThreadTable P p)"

lemma parent_of_updates [simp]:
  "parent_of p (P\<lparr>p_Inst := a1\<rparr>) = parent_of p P" "parent_of p (P\<lparr>HartToDecode := a2\<rparr>) = parent_of p P"
  "parent_of p (P\<lparr>HartToExec := a3\<rparr>) = parent_of p P" "parent_of p (P\<lparr>Stalled := a4\<rparr>) = parent_of p P"
  "parent_of p (P\<lparr>sfetch := a5\<rparr>) = parent_of p P" "parent_of p (P\<lparr>p_mem := a6\<rparr>) = parent_of p P"
  "parent_of p (P\<lparr>CrackFault := a7\<rparr>) = parent_of p P" "parent_of p (P\<lparr>ExecPC := a8\<rparr>) = parent_of p P"
  "parent_of p (P\<lparr>HART_CTE := a9\<rparr>) = parent_of p P" "parent_of p (P\<lparr>HART_CTS := a9\<rparr>) = parent_of p P"
  "parent_of p (P\<lparr>Pipeline := a10\<rparr>) = parent_of p P" "parent_of p (P\<lparr>Retired := a11\<rparr>) = parent_of p P"
  "parent_of p (P\<lparr>Stats := a12\<rparr>) = parent_of p P" "parent_of p (upd_rf q f P) = parent_of p P"
  "parent_of p (P\<lparr>ECALL_buf := b1\<rparr>) = parent_of p P" "parent_of p (P\<lparr>ECALL_bytesRead := b2\<rparr>) = parent_of p P"
  "parent_of p (P\<lparr>ECALL_string := b1\<rparr>) = parent_of p P"
  by (simp_all add: parent_of_def upd_rf_def option.map_comp comp_def)

text \<open>\<open>p\<close> is the thread on the only hart, which has no parent, and \<open>R\<close> its register file.\<close>

definition on_core :: "u32 \<Rightarrow> RevRegFile \<Rightarrow> RevProc \<Rightarrow> bool" where
  "on_core p R P \<longleftrightarrow> active_key P = Inr p \<and> GetRegFile 0 P = Inr p \<and> rf_at p P = Inr R \<and> parent_of p P = Some 0"

text \<open>
  Between two instructions: nothing pending, no fault to inject, the pipeline empty, hart 0 next,
  no register marked in the scoreboard and no exception raised.
\<close>

definition quiet_rf :: "RevRegFile \<Rightarrow> bool" where
  "quiet_rf R \<longleftrightarrow> rf_cost R = 0 \<and> RV64_SCAUSE R \<noteq> 8 \<and> RV32_SCAUSE R \<noteq> 8 \<and>
     RV32_Scoreboard R = (\<lambda>_. False) \<and> RV64_Scoreboard R = (\<lambda>_. False) \<and>
     SPF_Scoreboard R = (\<lambda>_. False) \<and> DPF_Scoreboard R = (\<lambda>_. False)"

definition quiet :: "RevProc \<Rightarrow> bool" where
  "quiet P \<longleftrightarrow> \<not> Halted P \<and> \<not> PendingCtxSwitch P \<and> \<not> SingleStep P \<and> \<not> CrackFault P \<and> \<not> ALUFault P \<and>
     Pipeline P = [] \<and> HartToDecode P = 0 \<and> length (HART_CTS P) = 1 \<and> length (HART_CTE P) = 1"


section \<open>The stages on a quiet core\<close>

lemma tick_cts_quiet:
  "on_core p R P \<Longrightarrow> length (HART_CTS P) = 1 \<Longrightarrow> tick_cts P = Inr (P\<lparr>HART_CTS := [rf_cost R = 0]\<rparr>)"
  by (cases "HART_CTS P") (simp_all add: on_core_def tick_cts_def for_harts_def REV_HART_COUNT_def)

lemma GetHartID_one: "HART_CTS P = [True] \<Longrightarrow> HartToDecode P = 0 \<Longrightarrow> GetHartID P = 0"
  by (simp add: GetHartID_def)

lemma one_elem: "length xs = Suc 0 \<Longrightarrow> xs[0 := b] = [b]"
  by (cases xs) simp_all

text \<open>A cycle in which the instruction is not yet buffered changes the instruction buffer only.\<close>

lemma tick_decode_miss:
  assumes "on_core p R P" and "quiet P" and "HART_CTS P = [True]"
    and "GetPC (p_feature P) R \<noteq> 0" and "GetPC (p_feature P) R \<noteq> PAN_FWARE_JUMP"
    and "IsAvail (p_feature P) (GetPC (p_feature P) R) (sfetch P) (p_mem P) = Inr (False, Q, M)"
  shows "\<exists>P'. tick_decode cp rnd junk P = Inr P' \<and> on_core p (R\<lparr>rf_cost := 0\<rparr>) P' \<and> quiet P' \<and>
    HartToExec P' = REV_INVALID_HART_ID \<and> p_mem P' = M \<and> sfetch P' = Q \<and> Retired P' = Retired P \<and>
    p_feature P' = p_feature P \<and> p_tables P' = p_tables P"
  using assms
  by (simp add: on_core_def quiet_def tick_decode_def Let_def GetHartID_one PrefetchInst_def
      cur_rf_def upd_cur_def upd_stats_def one_elem)

lemma quiet_check:
  assumes "GetRegFile 0 P = Inr p" and "rf_at p P = Inr R'" and "entry I < length (InstTable (p_tables P))"
    and "rs1 I < 32" "rs2 I < 32" "rs3 I < 32" and "\<And>fl r. board (p_feature P) fl R' r = False"
  shows "DependencyCheck 0 I None P = Inr False"
  using assms by (simp add: DependencyCheck_def inst_float_def dep_on_def REV_NUM_REGS_def Let_def)

text \<open>A cycle that finds the instruction decodes it and clears it for execution.\<close>

lemma tick_decode_hit:
  assumes core: "on_core p R P" and q: "quiet P" and "HART_CTS P = [True]" and qr: "quiet_rf R"
    and pc: "GetPC (p_feature P) R \<noteq> 0" "GetPC (p_feature P) R \<noteq> PAN_FWARE_JUMP"
    and avail: "IsAvail (p_feature P) (GetPC (p_feature P) R) (sfetch P) (p_mem P) = Inr (True, sfetch P, p_mem P)"
    and fetch: "InstFetch (p_feature P) (GetPC (p_feature P) R) 0 (sfetch P) (p_mem P) = Inr (True, True, w, Q, M)"
    and w: "w \<noteq> 0"
    and dec: "\<And>S. DecodeWord (p_feature P) (p_tables P) cp junk w S =
       Inr (D, updR (\<lambda>R. R\<lparr>Entry := i, trigger := False, rf_cost := 1\<rparr>) S)"
    and D: "rs1 D < 32" "rs2 D < 32" "rs3 D < 32" and i: "i < length (InstTable (p_tables P))"
  shows "\<exists>P'. tick_decode cp rnd junk P = Inr P' \<and>
    on_core p (R\<lparr>Entry := i, trigger := False, rf_cost := 1\<rparr>) P' \<and> quiet P' \<and>
    HartToExec P' = 0 \<and> HART_CTE P' = [True] \<and> p_mem P' = M \<and> sfetch P' = Q \<and> Retired P' = Retired P \<and>
    p_Inst P' = D\<lparr>cost := 1, entry := i\<rparr> \<and> ExecPC P' = GetPC (p_feature P) R \<and>
    p_feature P' = p_feature P \<and> p_tables P' = p_tables P"
proof -
  let ?R1 = "R\<lparr>Entry := i, trigger := False, rf_cost := 1\<rparr>"
  let ?P0 = "P\<lparr>p_Inst := ResetInst (p_Inst P), HartToDecode := 0, Stalled := False\<rparr>"
  let ?P1 = "(upd_rf p (\<lambda>_. ?R1) (?P0\<lparr>sfetch := Q, p_mem := M, CrackFault := False\<rparr>))\<lparr>p_mem := M\<rparr>"
  let ?P2 = "?P1\<lparr>p_Inst := D\<lparr>entry := i\<rparr>\<rparr>"
  have k: "active_key P = Inr p" "GetRegFile 0 P = Inr p" "rf_at p P = Inr R" "parent_of p P = Some 0"
    using core by (simp_all add: on_core_def)
  have hart: "GetHartID (P\<lparr>p_Inst := ResetInst (p_Inst P)\<rparr>) = 0"
    using assms(2,3) by (intro GetHartID_one) (simp_all add: quiet_def)
  have pre: "PrefetchInst (P\<lparr>p_Inst := ResetInst (p_Inst P), HartToDecode := 0\<rparr>) =
      Inr (True, P\<lparr>p_Inst := ResetInst (p_Inst P), HartToDecode := 0\<rparr>)"
    using pc avail k by (simp add: PrefetchInst_def cur_rf_def Let_def)
  have di: "DecodeInst cp rnd junk ?P0 = Inr (D, ?P1)"
    using fetch w q k by (simp add: DecodeInst_def cur_rf_def upd_cur_def quiet_def dec Let_def updR_def)
  have dep: "DependencyCheck 0 (D\<lparr>entry := i\<rparr>) None ?P2 = Inr False"
    using D i k qr by (intro quiet_check [of _ p ?R1]) (simp_all add: board_def quiet_rf_def)
  show ?thesis
    unfolding tick_decode_def Let_def hart pre
    using di dep k pc q
    by (simp add: cur_rf_def upd_stats_def quiet_def on_core_def one_elem GetPC_def)
qed

text \<open>
  The register file as the instruction function sees it: the instruction is triggered, and its
  destination is marked in the scoreboard.
\<close>

definition exec_rf :: "RevFeature \<Rightarrow> bool \<Rightarrow> RevInst \<Rightarrow> RevRegFile \<Rightarrow> RevRegFile" where
  "exec_rf F fl I R =
     (if rd I \<noteq> 0 then set_board F fl (rd I) True (R\<lparr>trigger := True\<rparr>) else R\<lparr>trigger := True\<rparr>)"

lemma exec_rf_simps [simp]:
  "Entry (exec_rf F fl I R) = Entry R" "RV64_SCAUSE (exec_rf F fl I R) = RV64_SCAUSE R"
  "RV32_SCAUSE (exec_rf F fl I R) = RV32_SCAUSE R"
  by (simp_all add: exec_rf_def set_board_def)

lemma isa_of_exec_rf [simp]:
  "isa_of F \<lparr>regs = exec_rf F fl I R, mem = M, hazard = h\<rparr> = isa_of F \<lparr>regs = R, mem = M, hazard = False\<rparr>"
  by (simp add: isa_of_def xreg_def xpc_def exec_rf_def set_board_def fun_eq_iff)

lemma upd_rf_twice [simp]: "upd_rf p f (upd_rf p g P) = upd_rf p (\<lambda>R. f (g R)) P"
  by (simp add: upd_rf_def map_option.compositionality comp_def)

lemma upd_rf_id [simp]: "upd_rf p (\<lambda>R. R) P = P"
  by (simp add: upd_rf_def option.map_ident)

lemma DependencySet_quiet:
  assumes "GetRegFile 0 P = Inr p" and "rd I < 32" and "entry I < length (InstTable (p_tables P))"
    and "fl = IsFloat (InstTable (p_tables P) ! entry I)"
  shows "DependencySet 0 I P =
    Inr (upd_rf p (\<lambda>R. if rd I \<noteq> 0 then set_board (p_feature P) fl (rd I) True R else R) P)"
  using assms by (simp add: DependencySet_def REV_NUM_REGS_def inst_float_def)

lemma exec_back_one:
  assumes "Pipeline P = [(h, I, hz)]" and "active_key P = Inr p" and "rf_at p P = Inr R"
    and "EntryToExt (p_tables P) (Entry R) = Some (k, j)" and "k < length (Extensions (p_tables P))"
    and "Execute (Extensions (p_tables P) ! k) j (p_feature P) I \<lparr>regs = R, mem = p_mem P, hazard = hz\<rparr> = Inr S"
  shows "exec_back P = Inr ((upd_rf p (\<lambda>_. regs S) P)\<lparr>p_mem := mem S, Pipeline := [(h, I, hazard S)]\<rparr>)"
  using assms by (simp add: exec_back_def cur_rf_def upd_cur_def ExecInst_def)

text \<open>The execute stage runs the instruction function on the instruction it has just queued.\<close>

lemma exec_body_quiet:
  assumes k: "active_key P = Inr p" "GetRegFile 0 P = Inr p" "rf_at p P = Inr R"
    and P: "Pipeline P = []" "\<not> PendingCtxSwitch P" "\<not> ALUFault P" "HartToExec P = 0"
    and pc: "ExecPC P \<noteq> PAN_FWARE_JUMP"
    and I: "rd (p_Inst P) < 32" "entry (p_Inst P) < length (InstTable (p_tables P))"
    and fl: "fl = IsFloat (InstTable (p_tables P) ! entry (p_Inst P))"
    and ext: "EntryToExt (p_tables P) (Entry R) = Some (k, j)" "k < length (Extensions (p_tables P))"
    and ex: "Execute (Extensions (p_tables P) ! k) j (p_feature P) (p_Inst P)
       \<lparr>regs = (if rd (p_Inst P) \<noteq> 0 then set_board (p_feature P) fl (rd (p_Inst P)) True R else R),
        mem = p_mem P, hazard = False\<rparr> = Inr S"
    and S: "RV64_SCAUSE (regs S) \<noteq> 8" "RV32_SCAUSE (regs S) \<noteq> 8"
  shows "\<exists>st. exec_body V P = Inr ((upd_rf p (\<lambda>_. regs S) P)
    \<lparr>Stats := st, p_mem := mem S, Pipeline := [(0, p_Inst P, hazard S)]\<rparr>)"
proof -
  let ?F = "p_feature P" and ?I = "p_Inst P" and ?nm = "x_name (Extensions (p_tables P) ! k)"
  define st where "st = (if is_fp_ext ?nm then (Stats P)\<lparr>floatsExec := floatsExec (Stats P) + 1\<rparr> else Stats P)"
  let ?P2 = "P\<lparr>Pipeline := [(0, ?I, False)], Stats := st\<rparr>"
  let ?g = "\<lambda>R. if rd ?I \<noteq> 0 then set_board ?F fl (rd ?I) True R else R"
  have P2: "(if is_fp_ext ?nm then upd_stats (\<lambda>s. s\<lparr>floatsExec := floatsExec s + 1\<rparr>) (P\<lparr>Pipeline := [(0, ?I, False)]\<rparr>)
      else P\<lparr>Pipeline := [(0, ?I, False)]\<rparr>) = ?P2"
    by (simp add: upd_stats_def st_def)
  have ds: "DependencySet 0 ?I ?P2 = Inr (upd_rf p ?g ?P2)"
    using DependencySet_quiet [of ?P2 p ?I fl] k I fl by (simp cong: if_cong)
  have "Entry (?g R) = Entry R" by (simp add: set_board_def)
  then have eb: "exec_back (upd_rf p ?g ?P2) =
      Inr ((upd_rf p (\<lambda>_. regs S) ?P2)\<lparr>p_mem := mem S, Pipeline := [(0, ?I, hazard S)]\<rparr>)"
    using exec_back_one [of "upd_rf p ?g ?P2" 0 ?I False p "?g R" k j S] k ext ex by simp
  have "exec_body V P = Inr ((upd_rf p (\<lambda>_. regs S) ?P2)\<lparr>p_mem := mem S, Pipeline := [(0, ?I, hazard S)]\<rparr>)"
    unfolding exec_body_def Let_def
    using k P pc ext S ds eb P2 by (simp add: cur_rf_def alu_fault_def cong: if_cong)
  then show ?thesis by (intro exI [of _ st]) (simp add: upd_rf_def)
qed

lemma tick_exec_quiet:
  assumes core: "on_core p R P" and q: "quiet P" and h: "HartToExec P = 0" "HART_CTE P = [True]"
    and R: "\<not> trigger R" "RV64_SCAUSE R \<noteq> 8" "RV32_SCAUSE R \<noteq> 8" and pc: "ExecPC P \<noteq> PAN_FWARE_JUMP"
    and I: "rd (p_Inst P) < 32" "entry (p_Inst P) < length (InstTable (p_tables P))"
    and fl: "fl = IsFloat (InstTable (p_tables P) ! entry (p_Inst P))"
    and ext: "EntryToExt (p_tables P) (Entry R) = Some (k, j)" "k < length (Extensions (p_tables P))"
    and ex: "Execute (Extensions (p_tables P) ! k) j (p_feature P) (p_Inst P)
       \<lparr>regs = exec_rf (p_feature P) fl (p_Inst P) R, mem = p_mem P, hazard = False\<rparr> = Inr S"
    and S: "same_book (exec_rf (p_feature P) fl (p_Inst P) R) (regs S)"
  shows "\<exists>P'. tick_exec V P = Inr P' \<and> on_core p (regs S) P' \<and> quiet (P'\<lparr>Pipeline := []\<rparr>) \<and>
    Pipeline P' = [(0, p_Inst P, hazard S)] \<and> p_mem P' = mem S \<and> sfetch P' = sfetch P \<and> HartToExec P' = 0 \<and>
    Retired P' = Retired P \<and> p_feature P' = p_feature P \<and> p_tables P' = p_tables P"
proof -
  let ?P1 = "upd_rf p (\<lambda>R. R\<lparr>trigger := True\<rparr>) P"
  have k: "active_key P = Inr p" "GetRegFile 0 P = Inr p" "rf_at p P = Inr R" "parent_of p P = Some 0"
    using core by (simp_all add: on_core_def)
  have "RV64_SCAUSE (regs S) \<noteq> 8" "RV32_SCAUSE (regs S) \<noteq> 8" using S R by (simp_all add: same_book_def)
  with exec_body_quiet [of ?P1 p "R\<lparr>trigger := True\<rparr>" fl k j S V] k q h pc I fl ext ex
  obtain st where "exec_body V ?P1 = Inr ((upd_rf p (\<lambda>_. regs S) ?P1)
      \<lparr>Stats := st, p_mem := mem S, Pipeline := [(0, p_Inst P, hazard S)]\<rparr>)"
    by (auto simp: quiet_def exec_rf_def cong: if_cong)
  then show ?thesis
    using k q h R by (simp add: tick_exec_def cur_rf_def upd_cur_def quiet_def on_core_def
        REV_INVALID_HART_ID_def)
qed

text \<open>The retire stage takes an instruction of cost 1 out of the pipeline and clears its mark.\<close>

lemma tick_retire_quiet:
  assumes core: "on_core p R P" and "Pipeline P = [(0, I, False)]" and "cost I = 1" and "rd I < 32"
    and "entry I < length (InstTable (p_tables P))" and "fl = IsFloat (InstTable (p_tables P) ! entry I)"
  shows "tick_retire P = Inr (upd_rf p (\<lambda>R. (set_board (p_feature P) fl (rd I) False R)\<lparr>rf_cost := 0\<rparr>)
    (P\<lparr>Retired := Retired P + 1, Pipeline := []\<rparr>))"
  using assms
  by (simp add: tick_retire_def on_core_def DependencyClear_def REV_NUM_REGS_def inst_float_def on_hart_def)
    (simp add: upd_rf_def map_option.compositionality comp_def)

lemma exec_rf_book:
  assumes "quiet_rf (R\<lparr>rf_cost := 0\<rparr>)" and "same_book (exec_rf F fl I R) R'"
  shows "quiet_rf ((set_board F fl (rd I) False R')\<lparr>rf_cost := 0\<rparr>)"
  using assms by (auto simp: quiet_rf_def same_book_def exec_rf_def set_board_def fun_eq_iff split: if_splits)

lemma isa_of_board [simp]:
  "isa_of F \<lparr>regs = set_board G fl r v R, mem = M, hazard = h\<rparr> = isa_of F \<lparr>regs = R, mem = M, hazard = h\<rparr>"
  by (simp add: isa_of_def xreg_def xpc_def set_board_def fun_eq_iff)

lemma isa_of_parts: "isa_of F \<lparr>regs = regs S, mem = mem S, hazard = h\<rparr> = isa_of F S"
  by (simp add: isa_of_def xreg_def xpc_def fun_eq_iff)

lemma tick_done_running:
  "on_core p R P \<Longrightarrow> GetPC (p_feature P) R \<noteq> 0 \<Longrightarrow> GetPC (p_feature P) R \<noteq> PAN_FWARE_JUMP \<Longrightarrow>
   tick_done P = Inr (None, P)"
  by (simp add: tick_done_def on_core_def cur_rf_def)

text \<open>At address 0 the thread, which has no parent, is done.\<close>

lemma tick_done_returned:
  assumes "on_core p R P" and "GetPC (p_feature P) R = 0" and "HartToExec P = 0 \<or> HartToExec P = REV_INVALID_HART_ID"
  shows "tick_done P = Inr (Some True, P)"
proof -
  have "cur_rf P = Inr R" and g: "GetRegFile 0 P = Inr p" and par: "parent_of p P = Some 0"
    using assms(1) by (simp_all add: on_core_def cur_rf_def)
  moreover obtain c where "ThreadTable P p = Some c" "ParentPID c = 0" using par by (auto simp: parent_of_def)
  moreover have "GetActivePID 0 P = Inr p" "ActivePIDs P \<noteq> []"
    using g by (auto simp: GetRegFile_def GetActivePID_def split: if_splits option.splits)
  ultimately show ?thesis using assms(2,3)
    by (auto simp: tick_done_def PAN_FWARE_JUMP_def REV_INVALID_HART_ID_def)
qed

lemma tick_switch_quiet: "\<not> PendingCtxSwitch P \<Longrightarrow> tick_switch P = Inr P"
  by (simp add: tick_switch_def)

lemma GetPC_isa: "i_pc (isa_of F \<lparr>regs = R, mem = M, hazard = h\<rparr>) = GetPC F R"
  by (simp add: isa_of_def xpc_def GetPC_def IsRV32_def GetXlen_def)


section \<open>The simulation relation\<close>

text \<open>The instruction streams lie in the region of \<open>n\<close> bytes from \<open>lo\<close> that holds the program.\<close>

definition streams_in :: "u64 \<Rightarrow> nat \<Rightarrow> RevPrefetcher \<Rightarrow> bool" where
  "streams_in lo n Q \<longleftrightarrow>
     (\<forall>b\<in>set (baseAddr Q). unat lo \<le> unat b \<and> unat b + 4 * unat (depth Q) \<le> unat lo + n)"

definition sim :: "(string \<Rightarrow> insn) \<Rightarrow> u64 \<Rightarrow> nat \<Rightarrow> nat \<Rightarrow> isa_state \<Rightarrow> RevProc \<Rightarrow> bool" where
  "sim ext lo n k s P \<longleftrightarrow> quiet P \<and> core_ok ext (p_feature P) (p_tables P) \<and> vm_inv (p_mem P) \<and>
     streams_ok (vbyte (p_mem P)) (sfetch P) \<and> streams_in lo n (sfetch P) \<and> access_room k (p_mem P) \<and>
     (\<exists>p R. on_core p R P \<and> quiet_rf R \<and>
        isa_of (p_feature P) \<lparr>regs = R, mem = p_mem P, hazard = False\<rparr> = s)"

text \<open>What the cycles of the core do not change.\<close>

definition same_machine :: "RevProc \<Rightarrow> RevProc \<Rightarrow> bool" where
  "same_machine P P' \<longleftrightarrow> p_feature P' = p_feature P \<and> depth (sfetch P') = depth (sfetch P) \<and>
     valid_window (p_mem P') = valid_window (p_mem P)"

text \<open>
  The instruction \<open>b\<close> is at the program counter, which is aligned and in the program region, with
  room to prefetch; its encoding is not the word that marks an empty buffer; its operands are supported, it does not
  modify the program, and it does not jump to the firmware address.
\<close>

definition insn_here :: "RevFeature \<Rightarrow> nat \<Rightarrow> (u64 \<Rightarrow> nat \<Rightarrow> bool) \<Rightarrow> u64 \<Rightarrow> nat \<Rightarrow> base_insn \<Rightarrow> isa_state \<Rightarrow> bool" where
  "insn_here F d valid lo n b s \<longleftrightarrow>
     unat (i_pc s) mod 4 = 0 \<and> i_pc s \<noteq> 0 \<and> i_pc s \<noteq> PAN_FWARE_JUMP \<and>
     unat lo \<le> unat (i_pc s) \<and> unat (i_pc s) + (4 * d + 4) \<le> unat lo + n \<and>
     code_word (i_bytes s) (i_pc s) = enc_base b \<and> enc_base b \<noteq> REVPREF_INIT_ADDR \<and> data_ok F b s valid \<and>
     (\<forall>a. unat lo \<le> unat a \<and> unat a < unat lo + n \<longrightarrow> i_bytes (isa_step (IsRV32 F) b s) a = i_bytes s a) \<and>
     i_pc (isa_step (IsRV32 F) b s) \<noteq> PAN_FWARE_JUMP"

text \<open>An instruction after which the program goes on, and one with which it returns to address 0.\<close>

definition insn_at :: "RevFeature \<Rightarrow> nat \<Rightarrow> (u64 \<Rightarrow> nat \<Rightarrow> bool) \<Rightarrow> u64 \<Rightarrow> nat \<Rightarrow> base_insn \<Rightarrow> isa_state \<Rightarrow> bool" where
  "insn_at F d valid lo n b s \<longleftrightarrow> insn_here F d valid lo n b s \<and> i_pc (isa_step (IsRV32 F) b s) \<noteq> 0"

definition return_at :: "RevFeature \<Rightarrow> nat \<Rightarrow> (u64 \<Rightarrow> nat \<Rightarrow> bool) \<Rightarrow> u64 \<Rightarrow> nat \<Rightarrow> base_insn \<Rightarrow> isa_state \<Rightarrow> bool" where
  "return_at F d valid lo n b s \<longleftrightarrow> insn_here F d valid lo n b s \<and> i_pc (isa_step (IsRV32 F) b s) = 0"

lemma enc_base_nonzero: "enc_base b \<noteq> 0"
proof -
  have "Opcode_of (enc_base b) \<noteq> 0"
    by (cases b) (simp_all add: enc_alu_def enc_alui_def enc_aluw_def enc_aluwi_def enc_branch_def enc_load_def enc_store_def
        dec_R dec_B dec_I dec_S dec_U dec_J)
  then show ?thesis by (auto simp: Opcode_of_def)
qed

lemma valid_window_sub:
  assumes "valid_window M lo n" and "unat lo \<le> unat a" and "unat a + m \<le> unat lo + n"
  shows "valid_window M a m"
proof -
  have "isValidVirtAddr M (a + of_nat i)" if "i < m" for i
  proof -
    have "a = lo + of_nat (unat a - unat lo)" using assms(2) by (metis le_add_diff_inverse of_nat_add of_nat_unat ucast_id)
    then have eq: "a + of_nat i = lo + of_nat (unat a - unat lo + i)" by (simp add: add.assoc)
    have "unat a - unat lo + i < n" using assms(2,3) that by linarith
    then show ?thesis using assms(1) unfolding eq valid_window_def by blast
  qed
  then show ?thesis using assms by (simp add: valid_window_def)
qed

text \<open>Streams stay coherent under a change of memory outside the program.\<close>

lemma streams_ok_region:
  assumes ok: "streams_ok f Q" and reg: "streams_in lo n Q"
    and same: "\<And>a. unat lo \<le> unat a \<Longrightarrow> unat a < unat lo + n \<Longrightarrow> g a = f a"
  shows "streams_ok g Q"
proof -
  have word: "code_word g (b + of_nat (4 * y)) = code_word f (b + of_nat (4 * y))"
    if b: "unat lo \<le> unat b" "unat b + 4 * unat (depth Q) \<le> unat lo + n" "unat b + 4 * unat (depth Q) \<le> 2 ^ 50"
      and y: "y < unat (depth Q)" for b y
  proof -
    have "g (b + of_nat (4 * y) + of_nat i) = f (b + of_nat (4 * y) + of_nat i)" if "i < 4" for i
    proof -
      have "unat (b + of_nat (4 * y + i)) = unat b + (4 * y + i)"
        using b(3) y that by (intro unat_add_of_nat) simp
      then have "g (b + of_nat (4 * y + i)) = f (b + of_nat (4 * y + i))"
        using b y that by (intro same) linarith+
      then show ?thesis by (simp add: add.assoc)
    qed
    then show ?thesis unfolding code_word_def by (intro arg_cong [where f = le_word] map_cong) auto
  qed
  have "list_all2 (stream_ok g (depth Q)) (baseAddr Q) (iStack Q)"
    using ok reg unfolding streams_ok_def streams_in_def
    by (auto simp: list_all2_conv_all_nth stream_ok_def word [simplified] nth_mem)
  then show ?thesis using ok by (simp add: streams_ok_def)
qed


section \<open>One cycle\<close>

text \<open>The first stages of the cycle, and the state the decode stage starts from.\<close>

definition tick_start :: "RevProc \<Rightarrow> RevProc" where
  "tick_start P = (upd_stats (\<lambda>s. s\<lparr>totalCycles := totalCycles s + 1\<rparr>) P)\<lparr>HART_CTS := [True]\<rparr>"

lemma tick_start_simps:
  "on_core p R (tick_start P) = on_core p R P" "quiet P \<Longrightarrow> quiet (tick_start P)"
  "HART_CTS (tick_start P) = [True]" "p_feature (tick_start P) = p_feature P"
  "p_tables (tick_start P) = p_tables P" "p_mem (tick_start P) = p_mem P"
  "sfetch (tick_start P) = sfetch P" "Retired (tick_start P) = Retired P"
  by (simp_all add: tick_start_def upd_stats_def on_core_def quiet_def)

lemma ClockTick_quiet:
  assumes "on_core p R P" and "quiet P" and "rf_cost R = 0"
  shows "ClockTick V P =
    bind_res (tick_decode (t_coproc V) (t_rnd V) (t_junk V) (tick_start P)) (\<lambda>P3.
    bind_res (tick_exec V P3) (\<lambda>P4. bind_res (tick_retire P4) (\<lambda>P5.
    bind_res (tick_done P5) (\<lambda>(d, P6). Inr (d \<noteq> Some True, P6)))))"
proof -
  let ?P0 = "upd_stats (\<lambda>s. s\<lparr>totalCycles := totalCycles s + 1\<rparr>) P"
  have P0: "on_core p R ?P0" "\<not> PendingCtxSwitch ?P0" "length (HART_CTS ?P0) = 1"
    using assms by (simp_all add: upd_stats_def on_core_def quiet_def)
  have "tick_cts ?P0 = Inr (tick_start P)"
    using tick_cts_quiet [OF P0(1,3)] assms(3) by (simp add: tick_start_def)
  moreover have "\<not> Halted (tick_start P)"
    using tick_start_simps(2) [OF assms(2)] by (simp add: quiet_def)
  ultimately show ?thesis
    using tick_switch_quiet [OF P0(2)] by (simp add: ClockTick_def tick_start_simps)
qed

lemma isa_of_cost [simp]: "isa_of F \<lparr>regs = R\<lparr>rf_cost := c\<rparr>, mem = M, hazard = h\<rparr> = isa_of F \<lparr>regs = R, mem = M, hazard = h\<rparr>"
  by (simp add: isa_of_def xreg_def xpc_def fun_eq_iff)

lemma isa_of_mem: "vbyte M' = vbyte M \<Longrightarrow>
  isa_of F \<lparr>regs = R, mem = M', hazard = h\<rparr> = isa_of F \<lparr>regs = R, mem = M, hazard = h\<rparr>"
  by (simp add: isa_of_def xreg_def xpc_def fun_eq_iff)

lemma GetPC_book [simp]: "GetPC F (R\<lparr>rf_cost := c\<rparr>) = GetPC F R"
  by (simp add: GetPC_def)

lemma isa_of_entry [simp]:
  "isa_of F \<lparr>regs = R\<lparr>Entry := i\<rparr>, mem = M, hazard = h\<rparr> = isa_of F \<lparr>regs = R, mem = M, hazard = h\<rparr>"
  "isa_of F \<lparr>regs = R\<lparr>trigger := b\<rparr>, mem = M, hazard = h\<rparr> = isa_of F \<lparr>regs = R, mem = M, hazard = h\<rparr>"
  by (simp_all add: isa_of_def xreg_def xpc_def fun_eq_iff)

lemma tick_exec_idle:
  "on_core p R P \<Longrightarrow> HartToExec P = REV_INVALID_HART_ID \<Longrightarrow> \<exists>st. tick_exec V P = Inr (P\<lparr>Stats := st\<rparr>)"
  by (auto simp: tick_exec_def on_core_def cur_rf_def upd_stats_def)

lemma simI:
  assumes "on_core p R P" and "quiet P" and "quiet_rf R" and "core_ok ext (p_feature P) (p_tables P)"
    and "vm_inv (p_mem P)" and "streams_ok (vbyte (p_mem P)) (sfetch P)" and "streams_in lo n (sfetch P)"
    and "access_room k (p_mem P)" and "isa_of (p_feature P) \<lparr>regs = R, mem = p_mem P, hazard = False\<rparr> = s"
  shows "sim ext lo n k s P"
  using assms unfolding sim_def by blast

lemma simE:
  assumes "sim ext lo n k s P"
  obtains p R where "on_core p R P" and "quiet P" and "quiet_rf R"
    and "isa_of (p_feature P) \<lparr>regs = R, mem = p_mem P, hazard = False\<rparr> = s"
    and "GetPC (p_feature P) R = i_pc s" and "vbyte (p_mem P) = i_bytes s"
  using assms GetPC_isa unfolding sim_def by fastforce

lemma insn_hereD:
  assumes "insn_here F d valid lo n b s"
  shows "unat (i_pc s) mod 4 = 0" and "i_pc s \<noteq> 0" and "i_pc s \<noteq> PAN_FWARE_JUMP"
    and "unat lo \<le> unat (i_pc s)" and "unat (i_pc s) + (4 * d + 4) \<le> unat lo + n"
    and "code_word (i_bytes s) (i_pc s) = enc_base b" and "align4 (i_pc s) = i_pc s"
    and "enc_base b \<noteq> REVPREF_INIT_ADDR" and "data_ok F b s valid"
  using assms align4_aligned by (simp_all add: insn_here_def)

text \<open>A cycle that does not find the instruction in the buffer brings it there.\<close>

lemma ClockTick_fill:
  assumes sim: "sim ext lo n (unat (depth (sfetch P)) + k) s P" and win: "valid_window (p_mem P) lo n"
    and at: "insn_here (p_feature P) (unat (depth (sfetch P))) valid lo n b s" and nb: "\<not> buffered (sfetch P) (i_pc s)"
  shows "\<exists>P'. ClockTick V P = Inr (True, P') \<and> sim ext lo n k s P' \<and> same_machine P P' \<and>
    buffered (sfetch P') (i_pc s) \<and> Retired P' = Retired P"
proof -
  let ?F = "p_feature P" and ?Q = "sfetch P" and ?M = "p_mem P" and ?a = "i_pc s"
  let ?d = "unat (depth ?Q)"
  obtain p R where on: "on_core p R P" and q: "quiet P" and qr: "quiet_rf R"
    and s: "isa_of ?F \<lparr>regs = R, mem = ?M, hazard = False\<rparr> = s" and pc: "GetPC ?F R = ?a"
    and bytes: "vbyte ?M = i_bytes s" by (rule simE [OF sim])
  have core: "core_ok ext ?F (p_tables P)" and inv: "vm_inv ?M" and ok: "streams_ok (vbyte ?M) ?Q"
    and reg: "streams_in lo n ?Q" and room: "access_room (?d + k) ?M"
    using sim by (simp_all add: sim_def)
  note A = insn_hereD [OF at]
  have "valid_window ?M (align4 ?a) (4 * ?d)"
    using valid_window_sub [OF win A(4), of "4 * ?d"] A(5,7) by simp
  from Fill_spec [OF inv ok this room, of ?F] obtain Q' M' where
    fill: "Fill ?F ?a ?Q ?M = Inr (Q', M')" and M': "vm_inv M'" "vbyte M' = vbyte ?M"
      "valid_window M' = valid_window ?M" "access_room k M'"
    and Q': "streams_ok (vbyte ?M) Q'" "depth Q' = depth ?Q" "baseAddr Q' = baseAddr ?Q @ [?a]"
    unfolding A(7) by blast
  have "IsAvail ?F ?a ?Q ?M = Inr (False, Q', M')"
    using IsAvail_aligned [OF ok A(1)] nb A(6,8) fill by (simp add: bytes)
  with tick_decode_miss [of p R "tick_start P" Q' M' "t_coproc V" "t_rnd V" "t_junk V"] on q A(2,3) pc
  obtain P3 where P3: "tick_decode (t_coproc V) (t_rnd V) (t_junk V) (tick_start P) = Inr P3"
    "on_core p (R\<lparr>rf_cost := 0\<rparr>) P3" "quiet P3" "HartToExec P3 = REV_INVALID_HART_ID"
    "p_mem P3 = M'" "sfetch P3 = Q'" "p_feature P3 = ?F" "p_tables P3 = p_tables P"
    "Retired P3 = Retired P" by (auto simp: tick_start_simps)
  obtain st where ex: "tick_exec V P3 = Inr (P3\<lparr>Stats := st\<rparr>)"
    using tick_exec_idle [OF P3(2,4)] by blast
  let ?P' = "P3\<lparr>Stats := st\<rparr>"
  have on': "on_core p (R\<lparr>rf_cost := 0\<rparr>) ?P'" using P3(2) by (simp add: on_core_def)
  have "tick_retire ?P' = Inr ?P'" using P3(3) by (simp add: tick_retire_def quiet_def)
  moreover have "tick_done ?P' = Inr (None, ?P')"
    using A(2,3) pc P3 by (intro tick_done_running [OF on']) simp_all
  ultimately have tick: "ClockTick V P = Inr (True, ?P')"
    using ClockTick_quiet [OF on q] qr P3(1) ex by (simp add: quiet_rf_def)
  have "streams_in lo n Q'" using reg A(4,5) Q' by (auto simp: streams_in_def)
  then have "sim ext lo n k s ?P'"
    using core M' Q' P3 qr s isa_of_mem [OF M'(2), of ?F R False]
    by (intro simI [OF on']) (simp_all add: quiet_def quiet_rf_def)
  moreover have "buffered Q' ?a"
    using buffered_fill(1) [of "vbyte ?M" Q' ?Q ?a] Q' A(7) by simp
  ultimately show ?thesis using tick P3 M' Q' by (simp add: same_machine_def)
qed

text \<open>The execute and retire stages on a decoded instruction of the base set.\<close>

lemma exec_retire:
  assumes on: "on_core p R P" and q: "quiet P" and h: "HartToExec P = 0" "HART_CTE P = [True]"
    and R: "\<not> trigger R" "quiet_rf (R\<lparr>rf_cost := 0\<rparr>)" and pc: "ExecPC P \<noteq> PAN_FWARE_JUMP"
    and I: "rd (p_Inst P) < 32" "cost (p_Inst P) = 1" "entry (p_Inst P) < length (InstTable (p_tables P))"
    and ext: "EntryToExt (p_tables P) (Entry R) = Some (e, j)" "e < length (Extensions (p_tables P))"
    and fn: "\<And>S. Execute (Extensions (p_tables P) ! e) j (p_feature P) (p_Inst P) S = base_fn b (p_feature P) (p_Inst P) S"
    and b: "fields_ok b (p_Inst P)" "data_ok (p_feature P) b s (valid_window (p_mem P))"
    and M: "vm_inv (p_mem P)" "access_room 1 (p_mem P)"
    and s: "isa_of (p_feature P) \<lparr>regs = R, mem = p_mem P, hazard = False\<rparr> = s"
    and jump: "i_pc (isa_step (IsRV32 (p_feature P)) b s) \<noteq> PAN_FWARE_JUMP"
  shows "\<exists>P4 P' R'. tick_exec V P = Inr P4 \<and> tick_retire P4 = Inr P' \<and>
    tick_done P' = Inr (if i_pc (isa_step (IsRV32 (p_feature P)) b s) = 0 then Some True else None, P') \<and>
    on_core p R' P' \<and> quiet P' \<and> quiet_rf R' \<and>
    isa_of (p_feature P) \<lparr>regs = R', mem = p_mem P', hazard = False\<rparr> = isa_step (IsRV32 (p_feature P)) b s \<and>
    vm_inv (p_mem P') \<and> mem_after (p_mem P) (p_mem P') \<and> sfetch P' = sfetch P \<and>
    p_feature P' = p_feature P \<and> p_tables P' = p_tables P \<and> Retired P' = Retired P + 1"
proof -
  let ?F = "p_feature P" and ?I = "p_Inst P"
  define fl where "fl = IsFloat (InstTable (p_tables P) ! entry ?I)"
  let ?S = "\<lparr>regs = exec_rf ?F fl ?I R, mem = p_mem P, hazard = False\<rparr>"
  from base_step [of b ?I ?F ?S] b M s obtain S' where
    S': "base_fn b ?F ?I ?S = Inr S'" "step_ok ?F b ?S S'" by auto
  have st: "isa_of ?F S' = isa_step (IsRV32 ?F) b s" "vm_inv (mem S')" "mem_after (p_mem P) (mem S')"
    "\<not> hazard S'" "same_book (exec_rf ?F fl ?I R) (regs S')" using S'(2) s by (simp_all add: step_ok_def)
  obtain P4 where P4: "tick_exec V P = Inr P4" "on_core p (regs S') P4" "quiet (P4\<lparr>Pipeline := []\<rparr>)"
    "Pipeline P4 = [(0, ?I, False)]" "p_mem P4 = mem S'" "sfetch P4 = sfetch P" "HartToExec P4 = 0" "Retired P4 = Retired P"
    "p_feature P4 = ?F" "p_tables P4 = p_tables P"
    using tick_exec_quiet [OF on q h R(1) _ _ pc I(1,3) fl_def ext, of S' V] R(2) fn S'(1) st(4,5)
    by (auto simp: quiet_rf_def)
  let ?R' = "(set_board ?F fl (rd ?I) False (regs S'))\<lparr>rf_cost := 0\<rparr>"
  obtain P' where P': "tick_retire P4 = Inr P'" "on_core p ?R' P'" "quiet P'" "p_mem P' = mem S'"
    "sfetch P' = sfetch P" "p_feature P' = ?F" "p_tables P' = p_tables P" "Retired P' = Retired P + 1" "HartToExec P' = 0"
    using tick_retire_quiet [OF P4(2,4) I(2,1), of fl] I(3) P4 by (auto simp: fl_def on_core_def quiet_def)
  have isa: "isa_of ?F \<lparr>regs = ?R', mem = mem S', hazard = False\<rparr> = isa_step (IsRV32 ?F) b s"
    using st(1) by (simp add: isa_of_parts)
  then have "GetPC ?F ?R' = i_pc (isa_step (IsRV32 ?F) b s)" using GetPC_isa by metis
  then have "tick_done P' = Inr (if i_pc (isa_step (IsRV32 ?F) b s) = 0 then Some True else None, P')"
    using jump P'(6,9) tick_done_running [OF P'(2)] tick_done_returned [OF P'(2)] by simp
  then show ?thesis using P4(1) P' isa st exec_rf_book [OF R(2) st(5)] by auto
qed

text \<open>
  The state between the decode and the execute stage: the instruction \<open>b\<close> is in \<open>p_Inst\<close>, cleared
  for execution, and the abstract machine is still in the state before it.
\<close>

definition decoded :: "(string \<Rightarrow> insn) \<Rightarrow> u64 \<Rightarrow> nat \<Rightarrow> nat \<Rightarrow> base_insn \<Rightarrow> isa_state \<Rightarrow> RevProc \<Rightarrow> u32 \<Rightarrow> RevRegFile \<Rightarrow> bool" where
  "decoded ext lo n k b s P p R \<longleftrightarrow> on_core p R P \<and> quiet P \<and> HartToExec P = 0 \<and> HART_CTE P = [True] \<and>
     \<not> trigger R \<and> quiet_rf (R\<lparr>rf_cost := 0\<rparr>) \<and> Entry R = base_idx (p_tables P) b \<and> ExecPC P \<noteq> PAN_FWARE_JUMP \<and>
     rd (p_Inst P) < 32 \<and> cost (p_Inst P) = 1 \<and> entry (p_Inst P) = base_idx (p_tables P) b \<and> fields_ok b (p_Inst P) \<and>
     \<not> compressed (p_Inst P) \<and> core_ok ext (p_feature P) (p_tables P) \<and> vm_inv (p_mem P) \<and>
     streams_ok (vbyte (p_mem P)) (sfetch P) \<and> streams_in lo n (sfetch P) \<and> access_room k (p_mem P) \<and>
     isa_of (p_feature P) \<lparr>regs = R, mem = p_mem P, hazard = False\<rparr> = s"

lemma commit_decode:
  assumes sim: "sim ext lo n (unat (depth (sfetch P)) + k) s P" and win: "valid_window (p_mem P) lo n"
    and at: "insn_here (p_feature P) (unat (depth (sfetch P))) (valid_window (p_mem P)) lo n b s"
    and bf: "buffered (sfetch P) (i_pc s)"
  shows "\<exists>P' p R. tick_decode (t_coproc V) (t_rnd V) (t_junk V) (tick_start P) = Inr P' \<and>
    decoded ext lo n k b s P' p R \<and> same_machine P P' \<and> Retired P' = Retired P"
proof -
  let ?F = "p_feature P" and ?Q = "sfetch P" and ?M = "p_mem P" and ?a = "i_pc s" and ?T = "p_tables P"
  let ?d = "unat (depth ?Q)"
  obtain p R where on: "on_core p R P" and q: "quiet P" and qr: "quiet_rf R"
    and s: "isa_of ?F \<lparr>regs = R, mem = ?M, hazard = False\<rparr> = s" and pc: "GetPC ?F R = ?a"
    and bytes: "vbyte ?M = i_bytes s" by (rule simE [OF sim])
  have core: "core_ok ext ?F ?T" and inv: "vm_inv ?M" and ok: "streams_ok (vbyte ?M) ?Q"
    and reg: "streams_in lo n ?Q" and room: "access_room (?d + k) ?M"
    using sim by (simp_all add: sim_def)
  note A = insn_hereD [OF at]
  have w: "code_word (vbyte ?M) ?a = enc_base b" using A(6) by (simp add: bytes)
  have win': "valid_window ?M ?a (4 * ?d + 4)" using valid_window_sub [OF win A(4,5)] .
  obtain Q' M' where fetch: "InstFetch ?F ?a 0 ?Q ?M = Inr (True, True, enc_base b, Q', M')"
    and fs: "fetch_step_ok ?a k ?Q ?M (True, True, enc_base b, Q', M')"
    and bases: "set (baseAddr Q') \<subseteq> insert ?a (set (baseAddr ?Q))"
    using InstFetch_aligned [OF inv ok A(1) bf win' room] w A(8) by metis
  have M': "vm_inv M'" "vbyte M' = vbyte ?M" "valid_window M' = valid_window ?M" "access_room k M'"
    and Q': "streams_ok (vbyte ?M) Q'" "depth Q' = depth ?Q" using fs by (simp_all add: fetch_step_ok_def)
  have avail: "IsAvail ?F ?a ?Q ?M = Inr (True, ?Q, ?M)"
    using IsAvail_aligned [OF ok A(1)] bf w A(8) by simp
  obtain D e j where dec: "\<And>S. DecodeWord ?F ?T (t_coproc V) (t_junk V) (enc_base b) S =
       Inr (D, updR (\<lambda>R. R\<lparr>Entry := base_idx ?T b, trigger := False, rf_cost := 1\<rparr>) S)"
    and D: "fields_ok b D" "rd D < 32" "rs1 D < 32" "rs2 D < 32" "rs3 D < 32" "\<not> compressed D"
    and T: "base_idx ?T b < length (InstTable ?T)" "EntryToExt ?T (base_idx ?T b) = Some (e, j)"
      "e < length (Extensions ?T)" "\<And>I S. \<not> compressed I \<Longrightarrow> Execute (Extensions ?T ! e) j ?F I S = base_fn b ?F I S"
    by (rule base_decode [OF core data_ok_parts(1,2) [OF A(9)], where junk = "t_junk V"]) blast
  let ?R1 = "R\<lparr>Entry := base_idx ?T b, trigger := False, rf_cost := 1\<rparr>"
  obtain P3 where P3: "tick_decode (t_coproc V) (t_rnd V) (t_junk V) (tick_start P) = Inr P3"
    "on_core p ?R1 P3" "quiet P3" "HartToExec P3 = 0" "HART_CTE P3 = [True]" "p_mem P3 = M'" "sfetch P3 = Q'"
    "Retired P3 = Retired P" "p_Inst P3 = D\<lparr>cost := 1, entry := base_idx ?T b\<rparr>" "ExecPC P3 = ?a"
    "p_feature P3 = ?F" "p_tables P3 = ?T"
    using tick_decode_hit [of p R "tick_start P" "enc_base b" Q' M' "t_coproc V" "t_junk V" D "base_idx ?T b" "t_rnd V"]
      on q qr pc A(2,3) avail fetch dec D T(1) by (auto simp: tick_start_simps enc_base_nonzero)
  have "streams_in lo n Q'" using reg bases A(4,5) unfolding streams_in_def Q'(2) by auto
  moreover have "fields_ok b (D\<lparr>cost := 1, entry := base_idx ?T b\<rparr>)" using D(1) by (cases b) simp_all
  ultimately have "decoded ext lo n k b s P3 p ?R1"
    using P3 core M' Q' qr D s A(3) isa_of_mem [OF M'(2), of ?F R False]
    by (simp add: decoded_def quiet_rf_def)
  moreover have "same_machine P P3" using P3 M' Q' by (simp add: same_machine_def)
  ultimately show ?thesis using P3(1,8) by blast
qed

text \<open>A cycle that finds the instruction commits it, and stops the core if the program has returned to address 0.\<close>

lemma ClockTick_commit:
  assumes sim: "sim ext lo n (unat (depth (sfetch P)) + Suc k) s P" and win: "valid_window (p_mem P) lo n"
    and at: "insn_here (p_feature P) (unat (depth (sfetch P))) (valid_window (p_mem P)) lo n b s"
    and bf: "buffered (sfetch P) (i_pc s)"
  shows "\<exists>P'. ClockTick V P = Inr (i_pc (isa_step (IsRV32 (p_feature P)) b s) \<noteq> 0, P') \<and>
    sim ext lo n k (isa_step (IsRV32 (p_feature P)) b s) P' \<and> same_machine P P' \<and> Retired P' = Retired P + 1"
proof -
  let ?F = "p_feature P" and ?s' = "isa_step (IsRV32 (p_feature P)) b s"
  obtain P3 p R1 where d: "tick_decode (t_coproc V) (t_rnd V) (t_junk V) (tick_start P) = Inr P3"
    and D: "decoded ext lo n (Suc k) b s P3 p R1" and m: "same_machine P P3" and r: "Retired P3 = Retired P"
    using commit_decode [OF sim win at bf] by blast
  have F: "p_feature P3 = ?F" and V: "valid_window (p_mem P3) = valid_window (p_mem P)"
    using m by (simp_all add: same_machine_def)
  have core: "core_ok ext ?F (p_tables P3)" and room: "access_room (Suc k) (p_mem P3)"
    and str: "streams_ok (vbyte (p_mem P3)) (sfetch P3)" "streams_in lo n (sfetch P3)"
    and s: "isa_of ?F \<lparr>regs = R1, mem = p_mem P3, hazard = False\<rparr> = s" using D F by (simp_all add: decoded_def)
  obtain e j where T: "base_idx (p_tables P3) b < length (InstTable (p_tables P3))"
      "EntryToExt (p_tables P3) (base_idx (p_tables P3) b) = Some (e, j)" "e < length (Extensions (p_tables P3))"
    and fn: "\<And>I S. \<not> compressed I \<Longrightarrow> Execute (Extensions (p_tables P3) ! e) j ?F I S = base_fn b ?F I S"
    by (rule base_decode [OF core data_ok_parts(1,2) [OF insn_hereD(9) [OF at]], where junk = "t_junk V"]) blast
  obtain P4 P' R' where ticks: "tick_exec V P3 = Inr P4" "tick_retire P4 = Inr P'"
      "tick_done P' = Inr (if i_pc ?s' = 0 then Some True else None, P')"
    and on': "on_core p R' P'" "quiet P'" "quiet_rf R'" "isa_of ?F \<lparr>regs = R', mem = p_mem P', hazard = False\<rparr> = ?s'"
    and M': "vm_inv (p_mem P')" "mem_after (p_mem P3) (p_mem P')"
    and P': "sfetch P' = sfetch P3" "p_feature P' = ?F" "p_tables P' = p_tables P3" "Retired P' = Retired P3 + 1"
    using exec_retire [of p R1 P3 e j b s V] D T fn at F V access_room_mono [OF room, of 1]
    by (auto simp: decoded_def insn_here_def)
  obtain p0 R0 where "on_core p0 R0 P" "quiet P" "quiet_rf R0" by (rule simE [OF sim])
  then have tick: "ClockTick V P = Inr (i_pc ?s' \<noteq> 0, P')"
    using ClockTick_quiet [of p0 R0 P V] d ticks by (simp add: quiet_rf_def)
  have "vbyte (p_mem P') = i_bytes ?s'" "vbyte (p_mem P3) = i_bytes s"
    using arg_cong [OF on'(4), of i_bytes] arg_cong [OF s, of i_bytes] by simp_all
  then have "streams_ok (vbyte (p_mem P')) (sfetch P')"
    using streams_ok_region [OF str] at by (simp add: P' insn_here_def)
  then have "sim ext lo n k ?s' P'"
    using on' M' P' core str room access_room_after [OF M'(2)] by (intro simI [OF on'(1-3)]) simp_all
  then show ?thesis
    using tick m r P' valid_window_after [OF M'(2)] by (auto simp: same_machine_def)
qed


section \<open>Runs\<close>

text \<open>At most \<open>m\<close> cycles; the core is not clocked again after \<open>ClockTick\<close> has returned false.\<close>

fun run_ticks :: "tick_env \<Rightarrow> nat \<Rightarrow> RevProc \<Rightarrow> (bool \<times> RevProc) res" where
  "run_ticks V 0 P = Inr (True, P)"
| "run_ticks V (Suc m) P =
     bind_res (ClockTick V P) (\<lambda>(c, P'). if c then run_ticks V m P' else Inr (False, P'))"

text \<open>The instructions of a run of the abstract machine, each at the program counter of its state.\<close>

fun program_ok :: "RevFeature \<Rightarrow> nat \<Rightarrow> (u64 \<Rightarrow> nat \<Rightarrow> bool) \<Rightarrow> u64 \<Rightarrow> nat \<Rightarrow> base_insn list \<Rightarrow> isa_state \<Rightarrow> bool" where
  "program_ok F d valid lo n [] s = True"
| "program_ok F d valid lo n (b # bs) s =
     (insn_at F d valid lo n b s \<and> program_ok F d valid lo n bs (isa_step (IsRV32 F) b s))"

lemma run_ticks_add:
  "run_ticks V m P = Inr (True, P') \<Longrightarrow> run_ticks V (m + j) P = run_ticks V j P'"
  by (induction m arbitrary: P) (auto simp: bind_res_Inr_iff split: if_splits)

lemma sim_mono: "sim ext lo n k s P \<Longrightarrow> j \<le> k \<Longrightarrow> sim ext lo n j s P"
  by (auto simp: sim_def intro: access_room_mono)

text \<open>One instruction takes at most two cycles.\<close>

lemma insn_runs:
  assumes sim: "sim ext lo n (2 * unat (depth (sfetch P)) + 1 + k) s P" and win: "valid_window (p_mem P) lo n"
    and at: "insn_here (p_feature P) (unat (depth (sfetch P))) (valid_window (p_mem P)) lo n b s"
  shows "\<exists>m P'. m \<le> 2 \<and> run_ticks V m P = Inr (i_pc (isa_step (IsRV32 (p_feature P)) b s) \<noteq> 0, P') \<and>
    sim ext lo n k (isa_step (IsRV32 (p_feature P)) b s) P' \<and> same_machine P P' \<and> Retired P' = Retired P + 1"
proof (cases "buffered (sfetch P) (i_pc s)")
  case True
  have "sim ext lo n (unat (depth (sfetch P)) + Suc k) s P" by (rule sim_mono [OF sim]) simp
  from ClockTick_commit [OF this win at True, of V] show ?thesis by (auto intro: exI [of _ "Suc 0"])
next
  case False
  have "sim ext lo n (unat (depth (sfetch P)) + (unat (depth (sfetch P)) + Suc k)) s P"
    by (rule sim_mono [OF sim]) simp
  from ClockTick_fill [OF this win at False, of V] obtain P1 where
    P1: "ClockTick V P = Inr (True, P1)" "sim ext lo n (unat (depth (sfetch P)) + Suc k) s P1"
      "same_machine P P1" "buffered (sfetch P1) (i_pc s)" "Retired P1 = Retired P" by blast
  from P1 win at have "sim ext lo n (unat (depth (sfetch P1)) + Suc k) s P1" "valid_window (p_mem P1) lo n"
    "insn_here (p_feature P1) (unat (depth (sfetch P1))) (valid_window (p_mem P1)) lo n b s"
    by (simp_all add: same_machine_def)
  from ClockTick_commit [OF this P1(4), of V] obtain P2 where
    "ClockTick V P1 = Inr (i_pc (isa_step (IsRV32 (p_feature P1)) b s) \<noteq> 0, P2)"
    "sim ext lo n k (isa_step (IsRV32 (p_feature P1)) b s) P2" "same_machine P1 P2" "Retired P2 = Retired P1 + 1"
    by blast
  then show ?thesis using P1
    by (intro exI [of _ "Suc (Suc 0)"] exI [of _ P2]) (simp add: same_machine_def)
qed

lemma program_runs_sim:
  assumes "sim ext lo n (length bs * (2 * unat (depth (sfetch P)) + 1) + k) s P" and "valid_window (p_mem P) lo n"
    and "program_ok (p_feature P) (unat (depth (sfetch P))) (valid_window (p_mem P)) lo n bs s"
  shows "\<exists>m P'. m \<le> 2 * length bs \<and> run_ticks V m P = Inr (True, P') \<and>
    sim ext lo n k (fold (isa_step (IsRV32 (p_feature P))) bs s) P' \<and> same_machine P P' \<and>
    Retired P' = Retired P + of_nat (length bs)"
  using assms
proof (induction bs arbitrary: P s)
  case Nil
  then show ?case by (intro exI [of _ 0] exI [of _ P]) (simp add: same_machine_def)
next
  case (Cons b bs)
  let ?d = "unat (depth (sfetch P))"
  have "sim ext lo n (2 * ?d + 1 + (length bs * (2 * ?d + 1) + k)) s P"
    using Cons.prems(1) by (simp add: algebra_simps)
  from insn_runs [OF this Cons.prems(2), of b V] Cons.prems(3) obtain m1 P1 where
    P1: "m1 \<le> 2" "run_ticks V m1 P = Inr (True, P1)" "same_machine P P1" "Retired P1 = Retired P + 1"
      "sim ext lo n (length bs * (2 * ?d + 1) + k) (isa_step (IsRV32 (p_feature P)) b s) P1" by (auto simp: insn_at_def)
  with Cons.IH [of P1 "isa_step (IsRV32 (p_feature P)) b s"] Cons.prems(2,3) obtain m2 P2 where
    "m2 \<le> 2 * length bs" "run_ticks V m2 P1 = Inr (True, P2)"
    "sim ext lo n k (fold (isa_step (IsRV32 (p_feature P))) (b # bs) s) P2" "same_machine P1 P2"
    "Retired P2 = Retired P1 + of_nat (length bs)" by (auto simp: same_machine_def)
  then show ?case using P1(1,3,4) run_ticks_add [OF P1(2), of m2]
    by (intro exI [of _ "m1 + m2"] exI [of _ P2]) (simp add: algebra_simps same_machine_def)
qed

text \<open>A program that returns to address 0 stops the core in the cycle of its last instruction.\<close>

lemma program_completes_sim:
  assumes sim: "sim ext lo n (Suc (length bs) * (2 * unat (depth (sfetch P)) + 1)) s P" and win: "valid_window (p_mem P) lo n"
    and ok: "program_ok (p_feature P) (unat (depth (sfetch P))) (valid_window (p_mem P)) lo n bs s"
    and ret: "return_at (p_feature P) (unat (depth (sfetch P))) (valid_window (p_mem P)) lo n b
      (fold (isa_step (IsRV32 (p_feature P))) bs s)"
  shows "\<exists>m P'. m \<le> 2 * Suc (length bs) \<and> run_ticks V m P = Inr (False, P') \<and>
    sim ext lo n 0 (fold (isa_step (IsRV32 (p_feature P))) (bs @ [b]) s) P' \<and> p_feature P' = p_feature P \<and>
    Retired P' = Retired P + of_nat (Suc (length bs))"
proof -
  let ?F = "p_feature P" and ?d = "unat (depth (sfetch P))"
  let ?s = "fold (isa_step (IsRV32 ?F)) bs s"
  have "sim ext lo n (length bs * (2 * ?d + 1) + (2 * ?d + 1)) s P" using sim by (simp add: algebra_simps)
  from program_runs_sim [OF this win ok, of V] obtain m1 P1 where
    P1: "m1 \<le> 2 * length bs" "run_ticks V m1 P = Inr (True, P1)" "sim ext lo n (2 * ?d + 1) ?s P1" "same_machine P P1"
      "Retired P1 = Retired P + of_nat (length bs)" by blast
  from P1 win ret insn_runs [of ext lo n P1 0 ?s b V] obtain m2 P2 where
    "m2 \<le> 2" "run_ticks V m2 P1 = Inr (False, P2)" "sim ext lo n 0 (isa_step (IsRV32 ?F) b ?s) P2"
    "same_machine P1 P2" "Retired P2 = Retired P1 + 1"
    by (auto simp: same_machine_def return_at_def)
  then show ?thesis using P1 run_ticks_add [OF P1(2), of m2]
    by (intro exI [of _ "m1 + m2"] exI [of _ P2]) (simp add: same_machine_def)
qed


section \<open>The initial state\<close>

text \<open>The registers a new core starts with: stack and global pointers, and the arguments.\<close>

definition start_regs :: "u64 \<Rightarrow> u64 \<Rightarrow> nat \<Rightarrow> nat \<Rightarrow> u64" where
  "start_regs sp gp argc =
     (\<lambda>r. if r = 2 then sp else if r = 3 \<or> r = 8 then gp else if r = 10 then of_nat argc
          else if r = 11 then sp + 60 else 0)"

lemma one_hart: "for_harts f P = f 0 P"
  by (simp add: for_harts_def REV_HART_COUNT_def)

text \<open>The register file after the constructor and \<open>Reset\<close>.\<close>

definition start_rf :: "(string \<Rightarrow> u64) \<Rightarrow> RevMem \<Rightarrow> nat \<Rightarrow> u64 \<Rightarrow> RevRegFile" where
  "start_rf gsa M argc a =
     (set64 11 (stacktop M + 60) (set32 11 (ucast (stacktop M + 60)) (set64 10 (of_nat argc)
       (set32 10 (of_nat argc) (reset_rf gsa M new_RevRegFile)))))\<lparr>RV32_PC := ucast a, RV64_PC := a\<rparr>"

lemma start_rf_facts:
  "quiet_rf (start_rf gsa M argc a)" "RV64_PC (start_rf gsa M argc a) = a"
  "RV32_PC (start_rf gsa M argc a) = ucast a"
  "get64 (start_rf gsa M argc a) r = start_regs (stacktop M) (gsa ''__global_pointer$'') argc r"
  by (simp_all add: start_rf_def reset_rf_def new_RevRegFile_def Let_def quiet_rf_def fun_eq_iff
      set32_def set64_def RF_get_set start_regs_def)
    (simp add: RF_get_def)

lemma new_RevProc_state:
  assumes "start_address gsa sa ss = Inr a"
  shows "\<exists>P R. new_RevProc pid F T Depth M buf junk gsa sa ss argv = Inr P \<and>
    on_core (PIDCount M + 1) R P \<and> quiet P \<and> quiet_rf R \<and> p_feature P = F \<and> p_tables P = T \<and>
    p_mem P = M\<lparr>PIDCount := PIDCount M + 1\<rparr> \<and> sfetch P = new_RevPrefetcher (if Depth = 0 then 16 else Depth) \<and>
    RV64_PC R = a \<and> RV32_PC R = ucast a \<and> Retired P = 0 \<and>
    (\<forall>r. get64 R r = start_regs (stacktop M) (gsa ''__global_pointer$'') (length argv) r)"
proof -
  let ?P = "init_RevProc pid F T Depth M buf junk" and ?p = "PIDCount M + 1"
  have on: "on_core ?p new_RevRegFile ?P" and q: "quiet ?P"
    and f: "p_feature ?P = F" "p_tables ?P = T" "p_mem ?P = M\<lparr>PIDCount := ?p\<rparr>"
      "sfetch ?P = new_RevPrefetcher (if Depth = 0 then 16 else Depth)" "Retired ?P = 0"
    by (simp_all add: init_RevProc_def InitThreadTable_def REV_HART_COUNT_def GetNewThreadPID_def Let_def
        on_core_def active_key_def GetRegFile_def GetActivePID_def rf_at_def parent_of_def new_RevThreadCtx_def quiet_def)
  let ?R = "start_rf gsa (p_mem ?P) (length argv) a"
  obtain P where "new_RevProc pid F T Depth M buf junk gsa sa ss argv = Inr P"
    "on_core ?p ?R P" "quiet P" "p_feature P = F" "p_tables P = T" "p_mem P = p_mem ?P" "sfetch P = sfetch ?P" "Retired P = 0"
    using assms on q f
    by (simp add: new_RevProc_def Reset_def one_hart on_hart_def SetupArgs_def on_core_def quiet_def
        start_rf_def REV_HART_COUNT_def)
  then show ?thesis using start_rf_facts [of gsa "p_mem ?P" "length argv" a] f by auto
qed

text \<open>A new core is ready to run the program at its start address.\<close>

lemma new_RevProc_sim:
  assumes "core_ok ext F T" and "\<not> IsRV32 F" and "vm_inv M" and "access_room k M" and "unat Depth \<le> 2 ^ 29"
    and "start_address gsa sa ss = Inr a"
  shows "\<exists>P. new_RevProc pid F T Depth M buf junk gsa sa ss argv = Inr P \<and>
    sim ext lo n k \<lparr>i_x = start_regs (stacktop M) (gsa ''__global_pointer$'') (length argv), i_pc = a,
                     i_bytes = vbyte M\<rparr> P \<and>
    p_feature P = F \<and> valid_window (p_mem P) = valid_window M \<and>
    depth (sfetch P) = (if Depth = 0 then 16 else Depth) \<and> Retired P = 0"
proof -
  obtain P R where P: "new_RevProc pid F T Depth M buf junk gsa sa ss argv = Inr P"
    "on_core (PIDCount M + 1) R P" "quiet P" "quiet_rf R" "p_feature P = F" "p_tables P = T"
    "p_mem P = M\<lparr>PIDCount := PIDCount M + 1\<rparr>" "sfetch P = new_RevPrefetcher (if Depth = 0 then 16 else Depth)"
    "RV64_PC R = a" "\<forall>r. get64 R r = start_regs (stacktop M) (gsa ''__global_pointer$'') (length argv) r"
    "Retired P = 0"
    using new_RevProc_state [OF assms(6), of pid F T Depth M buf junk argv] by blast
  have "0 < unat (if Depth = 0 then 16 else Depth)" "unat (if Depth = 0 then 16 else Depth) \<le> 2 ^ 29"
    using assms(5) by (simp_all add: unat_gt_0)
  note new = streams_ok_new [OF this]
  have "isa_of F \<lparr>regs = R, mem = p_mem P, hazard = False\<rparr> =
      \<lparr>i_x = start_regs (stacktop M) (gsa ''__global_pointer$'') (length argv), i_pc = a, i_bytes = vbyte M\<rparr>"
    using P assms(2) by (intro isa_eqI) (simp_all add: xreg_def xpc_def fun_eq_iff)
  then have "sim ext lo n k \<lparr>i_x = start_regs (stacktop M) (gsa ''__global_pointer$'') (length argv), i_pc = a,
      i_bytes = vbyte M\<rparr> P"
    using P assms(1,3,4) new by (intro simI [OF P(2-4)]) (simp_all add: streams_in_def new_RevPrefetcher_def)
  then show ?thesis using P by (simp add: new_RevPrefetcher_def)
qed


section \<open>Properties\<close>


text \<open>A memory with the words of \<open>add x13, x11, x12\<close> and \<open>ret\<close> at address \<open>0x380000\<close>.\<close>

lemma demo_program:
  obtains M where "vm_inv M" and "vbyte M = vstore 0x37FFFE [0, 0, 0xB3, 0x86, 0xC5, 0x00, 0x67, 0x80, 0x00, 0x00] (\<lambda>_. 0)"
    and "access_room 6 M" and "valid_window M 0x380000 16"
proof -
  have inv: "vm_inv demo_mem" by (rule vm_inv_new) simp
  have "ok_range demo_mem 0x37FFFE (length [0, 0, 0xB3, 0x86, 0xC5, 0x00, 0x67, 0x80, 0x00, 0x00 :: u8])" by (rule demo_mem_ok) simp_all
  from WriteMem_spec [OF inv this, of 0] obtain M where M: "vm_inv M"
    "vbyte M = vstore 0x37FFFE [0, 0, 0xB3, 0x86, 0xC5, 0x00, 0x67, 0x80, 0x00, 0x00] (vbyte demo_mem)" "mem_after demo_mem M" by blast
  have "valid_window demo_mem 0x37FFFE 64"
    using demo_mem_ok [of 64] unfolding valid_window_def ok_range_def by simp
  then have "valid_window demo_mem 0x380000 16" by (rule valid_window_sub) simp_all
  then show ?thesis
    using that [of M] M vbyte_demo access_room_after [OF M(3), of 6] demo_room valid_window_after [OF M(3)] by simp
qed

abbreviation demo_env :: tick_env where
  "demo_env \<equiv> \<lparr>t_coproc = None, t_rnd = 0, t_junk = junk_inst, t_host = demo_host, t_ffault = \<lambda>_ _ _ R. R\<rparr>"



section \<open>Completion and deadlock\<close>



text \<open>
  An instruction of cost 2 or more never retires: the retire stage decrements its cost and, since it
  has not reached 0, increments it again. The register file keeps its cost, so nothing else is
  fetched: the core is in a state it never leaves.
\<close>

definition stuck :: "u32 \<Rightarrow> RevRegFile \<Rightarrow> RevInst \<Rightarrow> RevProc \<Rightarrow> bool" where
  "stuck p R I P \<longleftrightarrow> on_core p R P \<and> \<not> Halted P \<and> Pipeline P = [(0, I, False)] \<and> 1 < cost I \<and> rf_cost R \<noteq> 0 \<and>
     trigger R \<and> length (HART_CTS P) = 1 \<and> GetPC (p_feature P) R \<noteq> 0 \<and> GetPC (p_feature P) R \<noteq> PAN_FWARE_JUMP"

lemma ClockTick_stuck:
  assumes st: "stuck p R I P"
  shows "\<exists>P'. ClockTick V P = Inr (True, P') \<and> stuck p R I P' \<and> Retired P' = Retired P"
proof -
  let ?P0 = "upd_stats (\<lambda>s. s\<lparr>totalCycles := totalCycles s + 1\<rparr>) P"
  let ?P2 = "?P0\<lparr>HART_CTS := [False]\<rparr>"
  have on: "on_core p R ?P0" "length (HART_CTS ?P0) = 1"
    using st by (simp_all add: stuck_def upd_stats_def on_core_def)
  have cts: "tick_cts ?P0 = Inr ?P2" using tick_cts_quiet [OF on] st by (simp add: stuck_def)
  have sw: "tick_switch ?P0 = Inr ?P0" using st by (simp add: tick_switch_def stuck_def upd_stats_def)
  obtain s' where ex: "tick_exec V ?P2 = Inr (?P2\<lparr>Stats := s'\<rparr>)"
    using on st by (auto simp: tick_exec_def on_core_def stuck_def cur_rf_def upd_stats_def)
  let ?P4 = "?P2\<lparr>Stats := s'\<rparr>"
  have "cost I \<noteq> 0" "cost I - 1 \<noteq> 0" using st by (auto simp: stuck_def)
  then have ret: "tick_retire ?P4 = Inr ?P4"
    using st by (simp add: tick_retire_def stuck_def upd_stats_def word_gt_0)
  have on4: "on_core p R ?P4" using st by (simp add: stuck_def on_core_def upd_stats_def)
  have "tick_done ?P4 = Inr (None, ?P4)"
    using st by (intro tick_done_running [OF on4]) (simp_all add: stuck_def upd_stats_def)
  then have "ClockTick V P = Inr (True, ?P4)"
    using sw cts ex ret by (simp add: ClockTick_def)
  then show ?thesis using st by (simp add: stuck_def on_core_def upd_stats_def)
qed

lemma run_ticks_stuck: "stuck p R I P \<Longrightarrow> \<exists>P'. run_ticks V m P = Inr (True, P') \<and> stuck p R I P' \<and> Retired P' = Retired P"
proof (induction m arbitrary: P)
  case (Suc m)
  then show ?case using ClockTick_stuck [OF Suc.prems, of V] by fastforce
qed simp

end
