(* ===== verification/Rev_MemCtrl.thy ===== *)
theory Rev_MemCtrl
  imports Rev_RVA
begin

text \<open>
  The memory controller \<open>RevBasicMemCtrl\<close> (include/RevMemCtrl.h, src/RevMemCtrl.cc): memory
  operations are queued, split into requests for single cache lines, sent to the memory hierarchy
  and completed by responses, which arrive in any order. The memory hierarchy is SST's
  \<open>StandardMem\<close>: the requests handed to it are kept in the order they were sent, and its numbering
  of requests is a parameter \<open>ids\<close>, the identifier of the \<open>n\<close>-th request that is created.

  Operations are objects of a heap \<open>mc_ops\<close>; a pointer to one is its number, and \<open>delete\<close> removes it. A
  \<open>target\<close> is an address in the simulator's own memory \<open>mc_host\<close> (a register slot or a buffer), a
  \<open>hazard\<close> pointer the number of a flag in \<open>mc_hz\<close>; \<open>None\<close> is the null pointer.
\<close>

section \<open>Flags and operations\<close>

definition F_NONCACHEABLE :: u32 where "F_NONCACHEABLE = push_bit 1 1"
definition F_SEXT32 :: u32 where "F_SEXT32 = push_bit 17 1"
definition F_ZEXT32 :: u32 where "F_ZEXT32 = push_bit 19 1"
definition F_ZEXT64 :: u32 where "F_ZEXT64 = push_bit 20 1"

datatype MemOp = MemOpREAD | MemOpWRITE | MemOpFLUSH | MemOpREADLOCK | MemOpWRITEUNLOCK
  | MemOpLOADLINK | MemOpSTORECOND | MemOpCUSTOM | MemOpFENCE | MemOpAMO

record RevMemOp =
  o_Hart :: u32
  o_Addr :: u64
  o_PAddr :: u64
  o_Size :: u32
  o_Inv :: bool
  o_Op :: MemOp
  o_CustomOpc :: u32
  o_SplitRqst :: u32
  o_membuf :: "u8 list"
  o_flags :: u32
  o_target :: "u64 option"
  o_hazard :: "nat option"

text \<open>
  The constructors: \<open>buffer\<close> is the copied contents of the caller's buffer, empty in the overloads
  without one.
\<close>

definition new_RevMemOp ::
  "u32 \<Rightarrow> u64 \<Rightarrow> u64 \<Rightarrow> u32 \<Rightarrow> u8 list \<Rightarrow> u64 option \<Rightarrow> u32 \<Rightarrow> MemOp \<Rightarrow> u32 \<Rightarrow> RevMemOp" where
  "new_RevMemOp hart Addr PAddr sz buffer tgt CustomOpc Op flags =
     \<lparr>o_Hart = hart, o_Addr = Addr, o_PAddr = PAddr, o_Size = sz, o_Inv = False, o_Op = Op,
      o_CustomOpc = CustomOpc, o_SplitRqst = 1, o_membuf = buffer, o_flags = flags, o_target = tgt,
      o_hazard = None\<rparr>"

definition isAMOOp :: "u32 \<Rightarrow> bool" where
  "isAMOOp flags =
     (flags AND (F_AMOADD OR F_AMOXOR OR F_AMOAND OR F_AMOOR OR F_AMOMIN OR F_AMOMAX OR F_AMOMINU OR
                 F_AMOMAXU OR F_AMOSWAP) > 0)"

definition getStdFlags :: "RevMemOp \<Rightarrow> u32" where
  "getStdFlags op = o_flags op AND 0b1111111111111111"

definition getNonCacheFlags :: "RevMemOp \<Rightarrow> u32" where
  "getNonCacheFlags op = o_flags op AND 0b1111111111111101"

definition isCacheable :: "RevMemOp \<Rightarrow> bool" where
  "isCacheable op = (if o_flags op AND 0b10 > 0 then False else True)"


section \<open>State\<close>

text \<open>The requests of \<open>StandardMem\<close> that the controller sends.\<close>

datatype StdReq =
    SR_Read u64 u64 u32
  | SR_Write u64 u64 "u8 list" u32
  | SR_FlushAddr u64 u64 bool u64 u32
  | SR_ReadLock u64 u64 u32
  | SR_WriteUnlock u64 u64 "u8 list" bool u32
  | SR_LoadLink u64 u64 u32
  | SR_StoreConditional u64 u64 "u8 list" u32
  | SR_CustomReq u32

datatype MemCtrlStats =
    ReadInFlight | ReadPending | ReadBytes | WriteInFlight | WritePending | WriteBytes | FlushInFlight
  | FlushPending | ReadLockInFlight | ReadLockPending | ReadLockBytes | WriteUnlockInFlight
  | WriteUnlockPending | WriteUnlockBytes | LoadLinkInFlight | LoadLinkPending | StoreCondInFlight
  | StoreCondPending | CustomInFlight | CustomPending | CustomBytes | FencePending | AMOAddBytes
  | AMOAddPending | AMOXorBytes | AMOXorPending | AMOAndBytes | AMOAndPending | AMOOrBytes
  | AMOOrPending | AMOMinBytes | AMOMinPending | AMOMaxBytes | AMOMaxPending | AMOMinuBytes
  | AMOMinuPending | AMOMaxuBytes | AMOMaxuPending | AMOSwapBytes | AMOSwapPending

text \<open>
  An entry of the AMO table: hart, target, flags, operation and direction. (The second component of
  the source's tuple, the caller's buffer, is never read.) The multimap is the list of its
  pairs in the order of insertion.
\<close>

type_synonym amo_entry = "u32 \<times> u64 option \<times> u32 \<times> nat \<times> bool"

record RevBasicMemCtrl =
  hasCache :: bool
  lineSize :: u32
  max_loads :: u32
  max_stores :: u32
  max_flush :: u32
  max_llsc :: u32
  max_readlock :: u32
  max_writeunlock :: u32
  max_custom :: u32
  max_ops :: u32
  num_read :: u64
  num_write :: u64
  num_flush :: u64
  num_llsc :: u64
  num_readlock :: u64
  num_writeunlock :: u64
  num_custom :: u64
  num_fence :: u64
  requests :: "nat list"
  rqstQ :: "nat list"
  outstanding :: "(nat \<times> nat) list"
  AMOTable :: "(u64 \<times> amo_entry) list"
  mc_stats :: "(MemCtrlStats \<times> u64) list"
  mc_ops :: "nat \<rightharpoonup> RevMemOp"
  mc_nops :: nat
  mc_count :: nat
  mc_sent :: "(nat \<times> StdReq) list"
  mc_host :: "u64 \<Rightarrow> u8"
  mc_hz :: "nat \<Rightarrow> bool"

text \<open>
  The constructor with the parameters of the configuration; \<open>host\<close> and \<open>hz\<close> are the simulator's memory
  outside the controller. \<open>init_ctrl\<close> is phase 1 of the initialisation.
\<close>

definition new_RevBasicMemCtrl ::
  "u32 \<Rightarrow> u32 \<Rightarrow> u32 \<Rightarrow> u32 \<Rightarrow> u32 \<Rightarrow> u32 \<Rightarrow> u32 \<Rightarrow> u32 \<Rightarrow> (u64 \<Rightarrow> u8) \<Rightarrow> (nat \<Rightarrow> bool) \<Rightarrow> RevBasicMemCtrl" where
  "new_RevBasicMemCtrl ml ms mf mll mrl mwu mc mo host hz =
     \<lparr>hasCache = False, lineSize = 0, max_loads = ml, max_stores = ms, max_flush = mf, max_llsc = mll,
      max_readlock = mrl, max_writeunlock = mwu, max_custom = mc, max_ops = mo,
      num_read = 0, num_write = 0, num_flush = 0, num_llsc = 0, num_readlock = 0, num_writeunlock = 0,
      num_custom = 0, num_fence = 0, requests = [], rqstQ = [], outstanding = [], AMOTable = [],
      mc_stats = [], mc_ops = Map.empty, mc_nops = 0, mc_count = 0, mc_sent = [], mc_host = host, mc_hz = hz\<rparr>"

definition init_ctrl :: "u32 \<Rightarrow> RevBasicMemCtrl \<Rightarrow> RevBasicMemCtrl" where
  "init_ctrl line C = C\<lparr>lineSize := line, hasCache := line > 0\<rparr>"

definition recordStat :: "MemCtrlStats \<Rightarrow> u64 \<Rightarrow> RevBasicMemCtrl \<Rightarrow> RevBasicMemCtrl" where
  "recordStat st d C = C\<lparr>mc_stats := mc_stats C @ [(st, d)]\<rparr>"

definition new_op :: "RevMemOp \<Rightarrow> RevBasicMemCtrl \<Rightarrow> nat \<times> RevBasicMemCtrl" where
  "new_op op C = (mc_nops C, C\<lparr>mc_ops := (mc_ops C)(mc_nops C \<mapsto> op), mc_nops := Suc (mc_nops C)\<rparr>)"

definition delete_op :: "nat \<Rightarrow> RevBasicMemCtrl \<Rightarrow> RevBasicMemCtrl" where
  "delete_op p C = C\<lparr>mc_ops := (mc_ops C)(p := None)\<rparr>"

definition get_op :: "nat \<Rightarrow> RevBasicMemCtrl \<Rightarrow> RevMemOp res" where
  "get_op p C = (case mc_ops C p of None \<Rightarrow> Inl UB_NullDeref | Some op \<Rightarrow> Inr op)"

definition set_hazard :: "nat \<Rightarrow> bool \<Rightarrow> RevBasicMemCtrl \<Rightarrow> RevBasicMemCtrl" where
  "set_hazard h b C = C\<lparr>mc_hz := (mc_hz C)(h := b)\<rparr>"


text \<open>The map of outstanding requests as the list of its pairs: assignment and erasure.\<close>

definition out_put :: "nat \<Rightarrow> nat \<Rightarrow> (nat \<times> nat) list \<Rightarrow> (nat \<times> nat) list" where
  "out_put i p m = filter (\<lambda>(j, _). j \<noteq> i) m @ [(i, p)]"

definition out_erase :: "nat \<Rightarrow> (nat \<times> nat) list \<Rightarrow> (nat \<times> nat) list" where
  "out_erase i m = filter (\<lambda>(j, _). j \<noteq> i) m"


section \<open>Queueing of operations\<close>

text \<open>Allocate the operation, append it to the queue, count it; every such call returns true.\<close>

definition enqueue :: "MemCtrlStats \<Rightarrow> RevMemOp \<Rightarrow> RevBasicMemCtrl \<Rightarrow> RevBasicMemCtrl" where
  "enqueue st op C =
     (let (p, C1) = new_op op C in recordStat st 1 (C1\<lparr>rqstQ := rqstQ C1 @ [p]\<rparr>))"

definition sendFLUSHRequest :: "u32 \<Rightarrow> u64 \<Rightarrow> u64 \<Rightarrow> u32 \<Rightarrow> bool \<Rightarrow> u32 \<Rightarrow> RevBasicMemCtrl \<Rightarrow> RevBasicMemCtrl" where
  "sendFLUSHRequest hart Addr PAddr sz Inv flags C =
     (if sz = 0 then C
      else enqueue FlushPending ((new_RevMemOp hart Addr PAddr sz [] None 0 MemOpFLUSH flags)\<lparr>o_Inv := Inv\<rparr>) C)"

definition sendREADRequest :: "u32 \<Rightarrow> u64 \<Rightarrow> u64 \<Rightarrow> u32 \<Rightarrow> u64 \<Rightarrow> nat \<Rightarrow> u32 \<Rightarrow> RevBasicMemCtrl \<Rightarrow> RevBasicMemCtrl" where
  "sendREADRequest hart Addr PAddr sz tgt Hazard flags C =
     (if sz = 0 then C
      else enqueue ReadPending
             ((new_RevMemOp hart Addr PAddr sz [] (Some tgt) 0 MemOpREAD flags)\<lparr>o_hazard := Some Hazard\<rparr>)
             (set_hazard Hazard True C))"

text \<open>\<open>buffer\<close> is the caller's buffer, which holds at least \<open>Size\<close> bytes; the constructor copies \<open>Size\<close> of them.\<close>

definition sendWRITERequest :: "u32 \<Rightarrow> u64 \<Rightarrow> u64 \<Rightarrow> u32 \<Rightarrow> u8 list \<Rightarrow> u32 \<Rightarrow> RevBasicMemCtrl \<Rightarrow> RevBasicMemCtrl" where
  "sendWRITERequest hart Addr PAddr sz buffer flags C =
     (if sz = 0 then C
      else enqueue WritePending
             (new_RevMemOp hart Addr PAddr sz (take (unat sz) buffer) None 0 MemOpWRITE flags) C)"

definition amo_stat :: "u32 \<Rightarrow> MemCtrlStats option" where
  "amo_stat flags =
     (if flags AND F_AMOADD > 0 then Some AMOAddPending
      else if flags AND F_AMOXOR > 0 then Some AMOXorPending
      else if flags AND F_AMOAND > 0 then Some AMOAndPending
      else if flags AND F_AMOOR > 0 then Some AMOOrPending
      else if flags AND F_AMOMIN > 0 then Some AMOMinPending
      else if flags AND F_AMOMAX > 0 then Some AMOMaxPending
      else if flags AND F_AMOMINU > 0 then Some AMOMinuPending
      else if flags AND F_AMOMAXU > 0 then Some AMOMaxuPending
      else if flags AND F_AMOSWAP > 0 then Some AMOSwapPending
      else None)"

definition sendAMORequest ::
  "u32 \<Rightarrow> u64 \<Rightarrow> u64 \<Rightarrow> u32 \<Rightarrow> u8 list \<Rightarrow> u64 \<Rightarrow> nat \<Rightarrow> u32 \<Rightarrow> RevBasicMemCtrl \<Rightarrow> RevBasicMemCtrl" where
  "sendAMORequest hart Addr PAddr sz buffer tgt Hazard flags C =
     (if sz = 0 then C
      else if flags AND 0x3FE00000 = 0 then C
      else
        let op = (new_RevMemOp hart Addr PAddr sz (take (unat sz) buffer) (Some tgt) 0 MemOpREAD flags)
                   \<lparr>o_hazard := Some Hazard\<rparr>;
            (p, C1) = new_op op C;
            C2 = set_hazard Hazard True C1;
            C3 = C2\<lparr>AMOTable := AMOTable C2 @ [(Addr, hart, Some tgt, flags, p, False)]\<rparr>;
            C4 = C3\<lparr>rqstQ := rqstQ C3 @ [p]\<rparr>
        in case amo_stat flags of None \<Rightarrow> C4 | Some st \<Rightarrow> recordStat st 1 C4)"

definition sendREADLOCKRequest :: "u32 \<Rightarrow> u64 \<Rightarrow> u64 \<Rightarrow> u32 \<Rightarrow> u64 \<Rightarrow> nat \<Rightarrow> u32 \<Rightarrow> RevBasicMemCtrl \<Rightarrow> RevBasicMemCtrl" where
  "sendREADLOCKRequest hart Addr PAddr sz tgt Hazard flags C =
     (if sz = 0 then C
      else enqueue ReadLockPending
             ((new_RevMemOp hart Addr PAddr sz [] (Some tgt) 0 MemOpREADLOCK flags)\<lparr>o_hazard := Some Hazard\<rparr>)
             (set_hazard Hazard True C))"

definition sendWRITELOCKRequest :: "u32 \<Rightarrow> u64 \<Rightarrow> u64 \<Rightarrow> u32 \<Rightarrow> u8 list \<Rightarrow> u32 \<Rightarrow> RevBasicMemCtrl \<Rightarrow> RevBasicMemCtrl" where
  "sendWRITELOCKRequest hart Addr PAddr sz buffer flags C =
     (if sz = 0 then C
      else enqueue WriteUnlockPending
             (new_RevMemOp hart Addr PAddr sz (take (unat sz) buffer) None 0 MemOpWRITEUNLOCK flags) C)"

definition sendLOADLINKRequest :: "u32 \<Rightarrow> u64 \<Rightarrow> u64 \<Rightarrow> u32 \<Rightarrow> u32 \<Rightarrow> RevBasicMemCtrl \<Rightarrow> RevBasicMemCtrl" where
  "sendLOADLINKRequest hart Addr PAddr sz flags C =
     (if sz = 0 then C
      else enqueue LoadLinkPending (new_RevMemOp hart Addr PAddr sz [] None 0 MemOpLOADLINK flags) C)"

definition sendSTORECONDRequest :: "u32 \<Rightarrow> u64 \<Rightarrow> u64 \<Rightarrow> u32 \<Rightarrow> u8 list \<Rightarrow> u32 \<Rightarrow> RevBasicMemCtrl \<Rightarrow> RevBasicMemCtrl" where
  "sendSTORECONDRequest hart Addr PAddr sz buffer flags C =
     (if sz = 0 then C
      else enqueue StoreCondPending
             (new_RevMemOp hart Addr PAddr sz (take (unat sz) buffer) None 0 MemOpSTORECOND flags) C)"

definition sendCUSTOMREADRequest :: "u32 \<Rightarrow> u64 \<Rightarrow> u64 \<Rightarrow> u32 \<Rightarrow> u64 \<Rightarrow> u32 \<Rightarrow> u32 \<Rightarrow> RevBasicMemCtrl \<Rightarrow> RevBasicMemCtrl" where
  "sendCUSTOMREADRequest hart Addr PAddr sz tgt Opc flags C =
     (if sz = 0 then C
      else enqueue CustomPending (new_RevMemOp hart Addr PAddr sz [] (Some tgt) Opc MemOpCUSTOM flags) C)"

definition sendCUSTOMWRITERequest :: "u32 \<Rightarrow> u64 \<Rightarrow> u64 \<Rightarrow> u32 \<Rightarrow> u8 list \<Rightarrow> u32 \<Rightarrow> u32 \<Rightarrow> RevBasicMemCtrl \<Rightarrow> RevBasicMemCtrl" where
  "sendCUSTOMWRITERequest hart Addr PAddr sz buffer Opc flags C =
     (if sz = 0 then C
      else enqueue CustomPending
             (new_RevMemOp hart Addr PAddr sz (take (unat sz) buffer) None Opc MemOpCUSTOM flags) C)"

definition sendFENCE :: "u32 \<Rightarrow> RevBasicMemCtrl \<Rightarrow> RevBasicMemCtrl" where
  "sendFENCE hart C = enqueue FencePending (new_RevMemOp hart 0 0 0 [] None 0 MemOpFENCE 0) C"


section \<open>Cache lines\<close>

definition getNumCacheLines :: "u64 \<Rightarrow> u32 \<Rightarrow> RevBasicMemCtrl \<Rightarrow> u32" where
  "getNumCacheLines Addr sz C =
     (if \<not> hasCache C then 1
      else
        let line = ucast (lineSize C) :: u64
        in if Addr mod line \<noteq> 0 then
             (if ucast sz \<le> line - Addr mod line then 1
              else if sz < lineSize C then 2
              else sz div lineSize C + (if Addr mod line > 1 then 1 else 0))
           else if sz \<le> lineSize C then 1
           else sz div lineSize C + 1)"

text \<open>The loop that steps down to the first address of the cache line; the line size is not 0.\<close>

function cache_base :: "u64 \<Rightarrow> u64 \<Rightarrow> u64" where
  "cache_base line a = (if a mod line = 0 then a else cache_base line (a - 1))"
  by pat_completeness auto
termination
proof (relation "measure (\<lambda>(line, a). unat a)")
  fix line a :: u64
  assume "a mod line \<noteq> 0"
  then have "a \<noteq> 0" by auto
  then show "((line, a - 1), line, a) \<in> measure (\<lambda>(line, a). unat a)"
    by (simp add: unat_minus_one unat_gt_0)
qed simp

declare cache_base.simps [simp del]

lemma cache_base_eq: "line \<noteq> 0 \<Longrightarrow> cache_base line a = a - a mod line"
proof (induction line a rule: cache_base.induct)
  case (1 line a)
  show ?case
  proof (cases "a mod line = 0")
    case True
    then show ?thesis by (simp add: cache_base.simps)
  next
    case False
    have l: "0 < unat line" using 1(2) by (simp add: unat_gt_0)
    have m: "unat a mod unat line \<noteq> 0" using False by (metis unat_mod unat_eq_0)
    then have "a \<noteq> 0" by auto
    then have u: "unat (a - 1) = unat a - 1" by (simp add: unat_minus_one)
    obtain k where k: "unat a = Suc k" using \<open>a \<noteq> 0\<close> by (cases "unat a") (auto simp: unat_eq_0)
    have "unat a mod unat line = Suc (k mod unat line)" using m k by (simp add: mod_Suc split: if_splits)
    then have "unat ((a - 1) mod line) = unat (a mod line) - 1" by (simp add: unat_mod u k)
    moreover have "unat (a mod line - 1) = unat (a mod line) - 1" using False by (simp add: unat_minus_one)
    ultimately have "(a - 1) mod line = a mod line - 1" by (intro unat_eqI) simp
    then show ?thesis using 1 False by (simp add: cache_base.simps [of line a])
  qed
qed

definition getBaseCacheLineSize :: "u64 \<Rightarrow> u32 \<Rightarrow> RevBasicMemCtrl \<Rightarrow> u32" where
  "getBaseCacheLineSize Addr sz C =
     (let line = ucast (lineSize C); b = cache_base line Addr
      in if Addr = b then (if sz < lineSize C then sz else lineSize C)
         else if Addr + ucast sz \<le> b + line then sz
         else ucast ((b + line) - Addr))"


section \<open>Building requests\<close>

text \<open>
  The switches over the kind of operation: the free slots, the request of a piece of the operation,
  the counter and the statistic of the requests in flight. A fence never reaches them.
\<close>

fun free_slots :: "MemOp \<Rightarrow> RevBasicMemCtrl \<Rightarrow> u64 option" where
  "free_slots MemOpREAD C = Some (ucast (max_loads C) - num_read C)"
| "free_slots MemOpWRITE C = Some (ucast (max_stores C) - num_write C)"
| "free_slots MemOpFLUSH C = Some (ucast (max_flush C) - num_flush C)"
| "free_slots MemOpREADLOCK C = Some (ucast (max_readlock C) - num_readlock C)"
| "free_slots MemOpWRITEUNLOCK C = Some (ucast (max_writeunlock C) - num_writeunlock C)"
| "free_slots MemOpLOADLINK C = Some (ucast (max_llsc C) - num_llsc C)"
| "free_slots MemOpSTORECOND C = Some (ucast (max_llsc C) - num_llsc C)"
| "free_slots MemOpCUSTOM C = Some (ucast (max_custom C) - num_custom C)"
| "free_slots MemOpFENCE C = None"
| "free_slots MemOpAMO C = None"

fun has_data :: "MemOp \<Rightarrow> bool" where
  "has_data MemOpWRITE = True" | "has_data MemOpWRITEUNLOCK = True" | "has_data MemOpSTORECOND = True"
| "has_data _ = False"

fun std_rqst :: "MemOp \<Rightarrow> bool \<Rightarrow> u64 \<Rightarrow> u64 \<Rightarrow> u8 list \<Rightarrow> u32 \<Rightarrow> StdReq option" where
  "std_rqst MemOpREAD v a n d fl = Some (SR_Read a n fl)"
| "std_rqst MemOpWRITE v a n d fl = Some (SR_Write a n d fl)"
| "std_rqst MemOpFLUSH v a n d fl = Some (SR_FlushAddr a n v n fl)"
| "std_rqst MemOpREADLOCK v a n d fl = Some (SR_ReadLock a n fl)"
| "std_rqst MemOpWRITEUNLOCK v a n d fl = Some (SR_WriteUnlock a n d False fl)"
| "std_rqst MemOpLOADLINK v a n d fl = Some (SR_LoadLink a n fl)"
| "std_rqst MemOpSTORECOND v a n d fl = Some (SR_StoreConditional a n d fl)"
| "std_rqst MemOpCUSTOM v a n d fl = Some (SR_CustomReq fl)"
| "std_rqst MemOpFENCE v a n d fl = None"
| "std_rqst MemOpAMO v a n d fl = None"

fun in_flight :: "MemOp \<Rightarrow> MemCtrlStats" where
  "in_flight MemOpREAD = ReadInFlight" | "in_flight MemOpWRITE = WriteInFlight"
| "in_flight MemOpFLUSH = FlushInFlight" | "in_flight MemOpREADLOCK = ReadLockInFlight"
| "in_flight MemOpWRITEUNLOCK = WriteUnlockInFlight" | "in_flight MemOpLOADLINK = LoadLinkInFlight"
| "in_flight MemOpSTORECOND = StoreCondInFlight" | "in_flight _ = CustomInFlight"

fun count_op :: "MemOp \<Rightarrow> u64 \<Rightarrow> RevBasicMemCtrl \<Rightarrow> RevBasicMemCtrl" where
  "count_op MemOpREAD d C = C\<lparr>num_read := num_read C + d\<rparr>"
| "count_op MemOpWRITE d C = C\<lparr>num_write := num_write C + d\<rparr>"
| "count_op MemOpFLUSH d C = C\<lparr>num_flush := num_flush C + d\<rparr>"
| "count_op MemOpREADLOCK d C = C\<lparr>num_readlock := num_readlock C + d\<rparr>"
| "count_op MemOpWRITEUNLOCK d C = C\<lparr>num_writeunlock := num_writeunlock C + d\<rparr>"
| "count_op MemOpLOADLINK d C = C\<lparr>num_llsc := num_llsc C + d\<rparr>"
| "count_op MemOpSTORECOND d C = C\<lparr>num_llsc := num_llsc C + d\<rparr>"
| "count_op MemOpCUSTOM d C = C\<lparr>num_custom := num_custom C + d\<rparr>"
| "count_op MemOpFENCE d C = C"
| "count_op MemOpAMO d C = C"

text \<open>Create a request for operation \<open>p\<close>, register it as outstanding and send it.\<close>

definition issue :: "(nat \<Rightarrow> nat) \<Rightarrow> nat \<Rightarrow> MemOp \<Rightarrow> StdReq \<Rightarrow> RevBasicMemCtrl \<Rightarrow> RevBasicMemCtrl" where
  "issue ids p k rq C =
     (let i = ids (mc_count C)
      in count_op k 1 (recordStat (in_flight k) 1
           (C\<lparr>mc_count := Suc (mc_count C), requests := requests C @ [i],
              outstanding := out_put i p (outstanding C), mc_sent := mc_sent C @ [(i, rq)]\<rparr>)))"

text \<open>The bytes \<open>i\<close> to \<open>i + n - 1\<close> of a vector, undefined beyond its end.\<close>

definition slice :: "u8 list \<Rightarrow> nat \<Rightarrow> nat \<Rightarrow> u8 list res" where
  "slice xs i n = (if i + n \<le> length xs then Inr (take n (drop i xs)) else Inl UB_OutOfBounds)"

text \<open>One request for the bytes of \<open>op\<close> from offset \<open>cur\<close> on; \<open>None\<close> is the result false.\<close>

definition send_piece ::
  "(nat \<Rightarrow> nat) \<Rightarrow> nat \<Rightarrow> RevMemOp \<Rightarrow> u32 \<Rightarrow> u64 \<Rightarrow> u64 \<Rightarrow> nat \<Rightarrow> RevBasicMemCtrl \<Rightarrow> RevBasicMemCtrl option res" where
  "send_piece ids p op fl a n cur C =
     bind_res (if has_data (o_Op op) then slice (o_membuf op) cur (unat n) else Inr []) (\<lambda>d.
       Inr (case std_rqst (o_Op op) (o_Inv op) a n d fl of
              None \<Rightarrow> None
            | Some rq \<Rightarrow> Some (issue ids p (o_Op op) rq C)))"

text \<open>The loop over the cache lines after the first.\<close>

fun send_lines ::
  "(nat \<Rightarrow> nat) \<Rightarrow> nat \<Rightarrow> RevMemOp \<Rightarrow> u32 \<Rightarrow> nat \<Rightarrow> u64 \<Rightarrow> u64 \<Rightarrow> nat \<Rightarrow> RevBasicMemCtrl \<Rightarrow> RevBasicMemCtrl option res"
where
  "send_lines ids p op fl 0 newBase bytesLeft cur C = Inr (Some C)"
| "send_lines ids p op fl (Suc k) newBase bytesLeft cur C =
     (let newSize = (if bytesLeft < ucast (lineSize C) then bytesLeft else ucast (lineSize C))
      in bind_res (send_piece ids p op fl newBase newSize cur C) (\<lambda>r.
           case r of
             None \<Rightarrow> Inr None
           | Some C1 \<Rightarrow> send_lines ids p op fl k (newBase + newSize) (bytesLeft - newSize) (cur + unat newSize) C1))"

text \<open>
  \<open>buildCacheMemRqst\<close>: \<open>None\<close> is the result false, otherwise \<open>Success\<close> and the new state.
\<close>

definition buildCacheMemRqst :: "(nat \<Rightarrow> nat) \<Rightarrow> nat \<Rightarrow> RevBasicMemCtrl \<Rightarrow> (bool \<times> RevBasicMemCtrl) option res" where
  "buildCacheMemRqst ids p C =
     bind_res (get_op p C) (\<lambda>op.
       let NumLines = getNumCacheLines (o_Addr op) (o_Size op) C
       in case free_slots (o_Op op) C of
            None \<Rightarrow> Inr None
          | Some free \<Rightarrow>
              if free < ucast NumLines then Inr (Some (False, C))
              else
                let C1 = C\<lparr>mc_ops := (mc_ops C)(p \<mapsto> op\<lparr>o_SplitRqst := NumLines\<rparr>)\<rparr>;
                    base = (if NumLines > 1 then getBaseCacheLineSize (o_Addr op) (o_Size op) C else o_Size op)
                in bind_res (send_piece ids p op (getStdFlags op) (o_Addr op) (ucast base) 0 C1) (\<lambda>r.
                     case r of
                       None \<Rightarrow> Inr None
                     | Some C2 \<Rightarrow>
                         bind_res (send_lines ids p op (getStdFlags op) (unat NumLines - 1) (o_Addr op + ucast base)
                                     (ucast (o_Size op) - ucast base) (unat base) C2) (\<lambda>r'.
                           Inr (map_option (\<lambda>C3. (True, C3)) r'))))"

definition buildRawMemRqst :: "(nat \<Rightarrow> nat) \<Rightarrow> nat \<Rightarrow> u32 \<Rightarrow> RevBasicMemCtrl \<Rightarrow> RevBasicMemCtrl option res" where
  "buildRawMemRqst ids p TmpFlags C =
     bind_res (get_op p C) (\<lambda>op.
       Inr (case std_rqst (o_Op op) (o_Inv op) (o_Addr op) (ucast (o_Size op)) (o_membuf op) TmpFlags of
              None \<Rightarrow> None
            | Some rq \<Rightarrow> Some (issue ids p (o_Op op) rq C)))"

definition buildStandardMemRqst :: "(nat \<Rightarrow> nat) \<Rightarrow> nat \<Rightarrow> RevBasicMemCtrl \<Rightarrow> (bool \<times> RevBasicMemCtrl) option res" where
  "buildStandardMemRqst ids p C =
     bind_res (get_op p C) (\<lambda>op.
       if hasCache C \<and> isCacheable op then buildCacheMemRqst ids p C
       else if hasCache C \<and> \<not> isCacheable op then
         bind_res (buildRawMemRqst ids p (getStdFlags op) C) (\<lambda>r. Inr (map_option (\<lambda>C1. (True, C1)) r))
       else
         bind_res (buildRawMemRqst ids p (getNonCacheFlags op) C) (\<lambda>r. Inr (map_option (\<lambda>C1. (True, C1)) r)))"


section \<open>Processing the queue\<close>

text \<open>The counters of one cycle, passed by reference.\<close>

record tick_max =
  t_loads :: u32
  t_stores :: u32
  t_flush :: u32
  t_llsc :: u32
  t_readlock :: u32
  t_writeunlock :: u32
  t_custom :: u32
  t_ops :: u32

fun isMemOpAvail :: "MemOp \<Rightarrow> RevBasicMemCtrl \<Rightarrow> tick_max \<Rightarrow> (bool \<times> tick_max) res" where
  "isMemOpAvail MemOpREAD C t =
     Inr (if t_loads t < max_loads C then (True, t\<lparr>t_loads := t_loads t + 1\<rparr>) else (False, t))"
| "isMemOpAvail MemOpWRITE C t =
     Inr (if t_stores t < max_stores C then (True, t\<lparr>t_stores := t_stores t + 1\<rparr>) else (False, t))"
| "isMemOpAvail MemOpFLUSH C t =
     Inr (if t_flush t < max_flush C then (True, t\<lparr>t_flush := t_flush t + 1\<rparr>) else (False, t))"
| "isMemOpAvail MemOpREADLOCK C t =
     Inr (if t_readlock t < max_readlock C then (True, t\<lparr>t_readlock := t_readlock t + 1\<rparr>) else (False, t))"
| "isMemOpAvail MemOpWRITEUNLOCK C t =
     Inr (if t_writeunlock t < max_writeunlock C then (True, t\<lparr>t_writeunlock := t_writeunlock t + 1\<rparr>) else (False, t))"
| "isMemOpAvail MemOpLOADLINK C t =
     Inr (if t_llsc t < max_llsc C then (True, t\<lparr>t_llsc := t_llsc t + 1\<rparr>) else (False, t))"
| "isMemOpAvail MemOpSTORECOND C t =
     Inr (if t_llsc t < max_llsc C then (True, t\<lparr>t_llsc := t_llsc t + 1\<rparr>) else (False, t))"
| "isMemOpAvail MemOpCUSTOM C t =
     Inr (if t_custom t < max_custom C then (True, t\<lparr>t_custom := t_custom t + 1\<rparr>) else (False, t))"
| "isMemOpAvail MemOpFENCE C t = Inr (True, t)"
| "isMemOpAvail MemOpAMO C t = Inl (Fatal_MemCtrl ''unknown memory operation type'')"

text \<open>Whether one of the operations satisfies the test, looking at them in order.\<close>

fun any_op :: "(RevMemOp \<Rightarrow> bool) \<Rightarrow> nat list \<Rightarrow> RevBasicMemCtrl \<Rightarrow> bool res" where
  "any_op f [] C = Inr False"
| "any_op f (p # ps) C = bind_res (get_op p C) (\<lambda>op. if f op then Inr True else any_op f ps C)"

definition isAQ :: "nat \<Rightarrow> RevBasicMemCtrl \<Rightarrow> bool res" where
  "isAQ Slot C =
     (if AMOTable C = [] then Inr False
      else if Slot = 0 then Inr False
      else bind_res (get_op (rqstQ C ! Slot) C) (\<lambda>s.
             any_op (\<lambda>op. o_flags op AND 0x3FE00000 > 0 \<and> o_Hart op = o_Hart s \<and> o_flags op AND F_AQ > 0)
               (take Slot (rqstQ C)) C))"

definition isRL :: "nat \<Rightarrow> RevBasicMemCtrl \<Rightarrow> bool res" where
  "isRL Slot C =
     (if AMOTable C = [] then Inr False
      else if Slot = 0 then Inr False
      else bind_res (get_op (rqstQ C ! Slot) C) (\<lambda>s.
             if o_flags s AND 0x3FE00000 > 0 \<and> o_flags s AND F_RL > 0
             then any_op (\<lambda>op. o_Hart op = o_Hart s) (take Slot (rqstQ C)) C
             else Inr False))"

definition isPendingAMO :: "nat \<Rightarrow> RevBasicMemCtrl \<Rightarrow> bool res" where
  "isPendingAMO Slot C = bind_res (isAQ Slot C) (\<lambda>a. if a then Inr True else isRL Slot C)"

definition erase_at :: "nat \<Rightarrow> 'a list \<Rightarrow> 'a list" where
  "erase_at i xs = take i xs @ drop (Suc i) xs"

text \<open>The loop of \<open>processNextRqst\<close> over the queue, at position \<open>i\<close> with the pointers that are left.\<close>

fun scan_rqst :: "(nat \<Rightarrow> nat) \<Rightarrow> nat \<Rightarrow> nat list \<Rightarrow> tick_max \<Rightarrow> RevBasicMemCtrl \<Rightarrow> (tick_max \<times> RevBasicMemCtrl) res" where
  "scan_rqst ids i [] t C = Inr (t\<lparr>t_ops := max_ops C\<rparr>, C)"
| "scan_rqst ids i (p # ps) t C =
     bind_res (get_op p C) (\<lambda>op.
     bind_res (isMemOpAvail (o_Op op) C t) (\<lambda>(avail, t1).
       if \<not> avail then scan_rqst ids (Suc i) ps t1 C
       else
         let t2 = t1\<lparr>t_ops := t_ops t1 + 1\<rparr>
         in if o_Op op = MemOpFENCE then
              Inr (t2\<lparr>t_ops := max_ops C\<rparr>,
                   delete_op p (C\<lparr>rqstQ := erase_at i (rqstQ C), num_fence := num_fence C + 1\<rparr>))
            else
              bind_res (isPendingAMO i C) (\<lambda>pend.
                if pend then Inr (t2\<lparr>t_ops := max_ops C\<rparr>, C)
                else bind_res (buildStandardMemRqst ids p C) (\<lambda>r.
                  case r of
                    None \<Rightarrow> Inl (Fatal_MemCtrl ''failed to build memory request'')
                  | Some (ok, C1) \<Rightarrow>
                      if ok then Inr (t2, C1\<lparr>rqstQ := erase_at i (rqstQ C1)\<rparr>)
                      else Inr (t2\<lparr>t_ops := max_ops C\<rparr>, C1)))))"

definition processNextRqst :: "(nat \<Rightarrow> nat) \<Rightarrow> tick_max \<Rightarrow> RevBasicMemCtrl \<Rightarrow> (tick_max \<times> RevBasicMemCtrl) res" where
  "processNextRqst ids t C =
     (if rqstQ C = [] then Inr (t\<lparr>t_ops := max_ops C\<rparr>, C) else scan_rqst ids 0 (rqstQ C) t C)"

text \<open>
  The loop of \<open>clockTick\<close> with fuel, \<open>None\<close> when the fuel is used up; every round takes an operation
  out of the queue or is the last one.
\<close>

fun tick_loop :: "(nat \<Rightarrow> nat) \<Rightarrow> nat \<Rightarrow> tick_max \<Rightarrow> RevBasicMemCtrl \<Rightarrow> RevBasicMemCtrl res option" where
  "tick_loop ids 0 t C = None"
| "tick_loop ids (Suc n) t C =
     (case processNextRqst ids t C of
        Inl e \<Rightarrow> Some (Inl e)
      | Inr (t', C') \<Rightarrow> if t_ops t' = max_ops C' then Some (Inr C') else tick_loop ids n t' C')"

definition tick_zero :: tick_max where
  "tick_zero = \<lparr>t_loads = 0, t_stores = 0, t_flush = 0, t_llsc = 0, t_readlock = 0, t_writeunlock = 0,
     t_custom = 0, t_ops = 0\<rparr>"

definition busy_count :: "RevBasicMemCtrl \<Rightarrow> u64" where
  "busy_count C = num_read C + num_write C + num_llsc C + num_readlock C + num_writeunlock C + num_custom C"

definition clockTick :: "(nat \<Rightarrow> nat) \<Rightarrow> RevBasicMemCtrl \<Rightarrow> RevBasicMemCtrl res option" where
  "clockTick ids C =
     (if num_fence C > 0 \<and> busy_count C \<noteq> 0 then Some (Inr (recordStat FencePending 1 C))
      else
        let C1 = (if num_fence C > 0 then C\<lparr>num_fence := num_fence C - 1\<rparr> else C)
        in tick_loop ids (Suc (length (rqstQ C1))) tick_zero C1)"

definition getTotalRqsts :: "RevBasicMemCtrl \<Rightarrow> u64" where
  "getTotalRqsts C = num_read C + num_write C + num_llsc C + num_readlock C + num_writeunlock C + num_custom C"

definition outstandingRqsts :: "RevBasicMemCtrl \<Rightarrow> bool" where
  "outstandingRqsts C = (length (requests C) > 0)"


section \<open>Responses\<close>

text \<open>A response carries the identifier of its request, and for reads the address, size and data.\<close>

record ReadResp =
  ev_id :: nat
  ev_pAddr :: u64
  ev_size :: u64
  ev_data :: "u8 list"

definition host_bytes :: "RevBasicMemCtrl \<Rightarrow> u64 \<Rightarrow> nat \<Rightarrow> u8 list" where
  "host_bytes C a n = map (\<lambda>i. mc_host C (a + of_nat i)) [0..<n]"

definition host_store :: "u64 \<Rightarrow> u8 list \<Rightarrow> RevBasicMemCtrl \<Rightarrow> RevBasicMemCtrl" where
  "host_store a bs C = C\<lparr>mc_host := vstore a bs (mc_host C)\<rparr>"

text \<open>\<open>SEXTI(*target,32)\<close> and its relatives, through a pointer of the width given.\<close>

definition handleFlagResp :: "RevMemOp \<Rightarrow> RevBasicMemCtrl \<Rightarrow> RevBasicMemCtrl res" where
  "handleFlagResp op C =
     (if o_flags op AND (F_SEXT32 OR F_SEXT64 OR F_ZEXT32 OR F_ZEXT64) = 0 then Inr C
      else case o_target op of
        None \<Rightarrow> Inl UB_NullDeref
      | Some a \<Rightarrow>
          let v32 = le_word (host_bytes C a 4) :: u32; v64 = le_word (host_bytes C a 8) :: u64
          in Inr (if o_flags op AND F_SEXT32 \<noteq> 0 then
                    host_store a (le_bytes 4 (ucast ((ucast v32 XOR push_bit 31 1) - push_bit 31 1 :: u64) :: u32)) C
                  else if o_flags op AND F_SEXT64 \<noteq> 0 then
                    host_store a (le_bytes 8 ((v64 XOR push_bit 63 1) - push_bit 63 1)) C
                  else if o_flags op AND F_ZEXT32 \<noteq> 0 then
                    host_store a (le_bytes 4 (ucast (ucast v32 AND (push_bit 32 1 - 1) :: u64) :: u32)) C
                  else host_store a (le_bytes 8 (v64 AND (push_bit 63 1 - 1))) C))"

definition getNumSplitRqsts :: "nat \<Rightarrow> RevBasicMemCtrl \<Rightarrow> nat" where
  "getNumSplitRqsts p C = length (filter (\<lambda>(_, q). q = p) (outstanding C))"

text \<open>
  \<open>TmpBuf |= (buffer[i] << (i*8))\<close> shifts an \<open>int\<close>: with more than four bytes the shift is undefined.
\<close>

definition amo_buffer :: "u8 list \<Rightarrow> 'a::len word res" where
  "amo_buffer bs = (if length bs \<le> 4 then Inr (scast (le_word bs :: u32)) else Inl UB_Shift)"

text \<open>The modification in the target, at the width of the operation.\<close>

definition amo_modify :: "RevMemOp \<Rightarrow> u64 \<Rightarrow> RevBasicMemCtrl \<Rightarrow> RevBasicMemCtrl res" where
  "amo_modify op a C =
     (if o_Size op = 4 then
        bind_res (amo_buffer (o_membuf op)) (\<lambda>b.
          case amo_select (o_flags op) of
            None \<Rightarrow> Inr C
          | Some f \<Rightarrow> bind_res (f (le_word (host_bytes C a 4)) (b :: u32)) (\<lambda>v. Inr (host_store a (le_bytes 4 v) C)))
      else
        bind_res (amo_buffer (o_membuf op)) (\<lambda>b.
          case amo_select (o_flags op) of
            None \<Rightarrow> Inr C
          | Some f \<Rightarrow> bind_res (f (le_word (host_bytes C a 8)) (b :: u64)) (\<lambda>v. Inr (host_store a (le_bytes 8 v) C))))"

definition performAMO :: "nat \<Rightarrow> RevBasicMemCtrl \<Rightarrow> RevBasicMemCtrl res" where
  "performAMO p C =
     bind_res (get_op p C) (\<lambda>tmp.
       case (o_target tmp, o_hazard tmp) of
         (Some a, Some h) \<Rightarrow>
           bind_res (amo_modify tmp a C) (\<lambda>C1.
             let op = (new_RevMemOp (o_Hart tmp) (o_Addr tmp) (o_PAddr tmp) (o_Size tmp)
                         (host_bytes C1 a (unat (o_Size tmp))) None 0 MemOpWRITE (o_flags tmp))\<lparr>o_hazard := Some h\<rparr>;
                 (q, C2) = new_op op C1;
                 C3 = set_hazard h True C2;
                 C4 = C3\<lparr>AMOTable := AMOTable C3 @ [(o_Addr op, o_Hart op, o_target op, o_flags op, q, True)]\<rparr>
             in Inr (C4\<lparr>rqstQ := rqstQ C4 @ [q]\<rparr>))
       | _ \<Rightarrow> Inl UB_NullDeref)"

definition amo_entry_of :: "u64 \<Rightarrow> nat \<Rightarrow> u64 \<times> amo_entry \<Rightarrow> bool" where
  "amo_entry_of Addr p e = (case e of (a, _, _, _, q, _) \<Rightarrow> a = Addr \<and> q = p)"

text \<open>
  The first entry of the operation is processed and then erased; the entry the modification adds comes
  later in the table.
\<close>

fun erase_first :: "('a \<Rightarrow> bool) \<Rightarrow> 'a list \<Rightarrow> 'a list" where
  "erase_first f [] = []"
| "erase_first f (x # xs) = (if f x then xs else x # erase_first f xs)"

definition handleAMO :: "nat \<Rightarrow> RevBasicMemCtrl \<Rightarrow> RevBasicMemCtrl res" where
  "handleAMO p C =
     bind_res (get_op p C) (\<lambda>op.
       if list_ex (amo_entry_of (o_Addr op) p) (AMOTable C) then
         bind_res (performAMO p C) (\<lambda>C1. Inr (C1\<lparr>AMOTable := erase_first (amo_entry_of (o_Addr op) p) (AMOTable C1)\<rparr>))
       else Inr C)"

text \<open>
  The start of every response handler: the identifier is taken off the list of requests and looked
  up; the word is that of the fatal error of an unknown response.
\<close>

definition take_response :: "string \<Rightarrow> nat \<Rightarrow> RevBasicMemCtrl \<Rightarrow> (nat \<times> RevMemOp \<times> RevBasicMemCtrl) res" where
  "take_response what i C =
     (if i \<notin> set (requests C) then Inl (Fatal_MemCtrl what)
      else
        let C1 = C\<lparr>requests := remove1 i (requests C)\<rparr>
        in case map_of (outstanding C1) i of
             None \<Rightarrow> Inl (Fatal_MemCtrl ''RevMemOp is null'')
           | Some p \<Rightarrow> bind_res (get_op p C1) (\<lambda>op. Inr (p, op, C1)))"

definition finish_response :: "nat \<Rightarrow> MemOp \<Rightarrow> RevBasicMemCtrl \<Rightarrow> RevBasicMemCtrl" where
  "finish_response i k C = count_op k (- 1) (C\<lparr>outstanding := out_erase i (outstanding C)\<rparr>)"

text \<open>Completion of a read whose data has been stored: \<open>strict\<close> says that the hazard pointer is not tested.\<close>

definition complete_read :: "bool \<Rightarrow> bool \<Rightarrow> nat \<Rightarrow> RevMemOp \<Rightarrow> RevBasicMemCtrl \<Rightarrow> RevBasicMemCtrl res" where
  "complete_read strict isAMO p op C =
     bind_res (handleFlagResp op C) (\<lambda>C1.
     bind_res (if isAMO then handleAMO p C1 else Inr C1) (\<lambda>C2.
       case o_hazard op of
         None \<Rightarrow> if strict then Inl UB_NullDeref else Inr (delete_op p C2)
       | Some h \<Rightarrow> Inr (delete_op p (set_hazard h False C2))))"

definition handleReadResp :: "ReadResp \<Rightarrow> RevBasicMemCtrl \<Rightarrow> RevBasicMemCtrl res" where
  "handleReadResp ev C =
     bind_res (take_response ''found unknown ReadResp'' (ev_id ev) C) (\<lambda>(p, op, C1).
       let isAMO = list_ex (amo_entry_of (o_Addr op) p) (AMOTable C1)
       in case o_target op of
            None \<Rightarrow> Inl UB_NullDeref
          | Some a \<Rightarrow>
              if o_SplitRqst op > 1 then
                let startByte = (ucast (ucast (ev_pAddr ev - o_Addr op) :: u32) :: u8)
                in bind_res (slice (ev_data ev) 0 (unat (ucast (ev_size ev) :: u32))) (\<lambda>d.
                   let C2 = host_store (a + ucast startByte) d C1
                   in bind_res (if getNumSplitRqsts p C2 = 1 then complete_read True isAMO p op C2 else Inr C2) (\<lambda>C3.
                        Inr (finish_response (ev_id ev) MemOpREAD C3)))
              else
                bind_res (slice (ev_data ev) 0 (unat (o_Size op))) (\<lambda>d.
                bind_res (complete_read False isAMO p op (host_store a d C1)) (\<lambda>C3.
                  Inr (finish_response (ev_id ev) MemOpREAD C3))))"

definition handleWriteResp :: "nat \<Rightarrow> RevBasicMemCtrl \<Rightarrow> RevBasicMemCtrl res" where
  "handleWriteResp i C =
     bind_res (take_response ''found unknown WriteResp'' i C) (\<lambda>(p, op, C1).
       let C2 = C1\<lparr>AMOTable := filter (\<lambda>e. \<not> amo_entry_of (o_Addr op) p e) (AMOTable C1)\<rparr>;
           last = (o_SplitRqst op \<le> 1 \<or> getNumSplitRqsts p C2 = 1);
           C3 = (if last then delete_op p (case o_hazard op of None \<Rightarrow> C2 | Some h \<Rightarrow> set_hazard h False C2) else C2)
       in Inr (finish_response i MemOpWRITE C3))"

text \<open>The three handlers that only remove the operation; \<open>handleInvResp\<close> has no counter.\<close>

definition drop_response :: "string \<Rightarrow> MemOp \<Rightarrow> nat \<Rightarrow> RevBasicMemCtrl \<Rightarrow> RevBasicMemCtrl res" where
  "drop_response what k i C =
     bind_res (take_response what i C) (\<lambda>(p, op, C1).
       let last = (o_SplitRqst op \<le> 1 \<or> getNumSplitRqsts p C1 = 1);
           C2 = (if last then delete_op p C1 else C1)
       in Inr (finish_response i k C2))"

definition handleFlushResp :: "nat \<Rightarrow> RevBasicMemCtrl \<Rightarrow> RevBasicMemCtrl res" where
  "handleFlushResp = drop_response ''found unknown FlushResp'' MemOpFLUSH"

definition handleCustomResp :: "nat \<Rightarrow> RevBasicMemCtrl \<Rightarrow> RevBasicMemCtrl res" where
  "handleCustomResp = drop_response ''found unknown CustomResp'' MemOpCUSTOM"

definition handleInvResp :: "nat \<Rightarrow> RevBasicMemCtrl \<Rightarrow> RevBasicMemCtrl res" where
  "handleInvResp = drop_response ''found unknown InvResp'' MemOpFENCE"

end
