(* ===== verification/Rev_MemCtrlProps.thy ===== *)
theory Rev_MemCtrlProps
  imports Rev_MemCtrl
begin

text \<open>
  Properties of the memory controller's requests: the splitting into cache lines, and the bookkeeping of
  requests in flight as an invariant that queueing operations and building requests preserve.
\<close>

section \<open>Cache lines\<close>

text \<open>The pieces of an access shorter than a cache line: up to the end of its line, then the rest.\<close>

definition first_piece :: "u32 \<Rightarrow> u64 \<Rightarrow> u32 \<Rightarrow> nat" where
  "first_piece line a sz = min (unat sz) (unat line - unat a mod unat line)"

lemma line_unat: "unat (ucast (line :: u32) :: u64) = unat line"
  by (simp add: unat_ucast_u64)

lemma getNumCacheLines_short:
  assumes "hasCache C" and "0 < lineSize C" and "sz < lineSize C"
  shows "getNumCacheLines a sz C = (if first_piece (lineSize C) a sz = unat sz then 1 else 2)"
proof -
  let ?l = "ucast (lineSize C) :: u64"
  have l: "0 < unat (lineSize C)" using assms(2) by (simp add: word_less_nat_alt)
  have am: "unat (a mod ?l) = unat a mod unat (lineSize C)" by (simp add: unat_mod line_unat)
  have z: "a mod ?l = 0 \<longleftrightarrow> unat a mod unat (lineSize C) = 0" using am by (metis unat_eq_0)
  have "unat (?l - a mod ?l) = unat (lineSize C) - unat a mod unat (lineSize C)"
    using am l by (subst unat_sub) (simp_all add: word_le_nat_alt line_unat less_imp_le)
  then have le: "ucast sz \<le> ?l - a mod ?l \<longleftrightarrow> unat sz \<le> unat (lineSize C) - unat a mod unat (lineSize C)"
    by (simp add: word_le_nat_alt unat_ucast_u64)
  have "unat sz < unat (lineSize C)" using assms(3) by (simp add: word_less_nat_alt)
  then show ?thesis
    using assms z le by (simp add: getNumCacheLines_def first_piece_def Let_def min_def less_imp_le)
qed

lemma getBaseCacheLineSize_short:
  assumes "0 < lineSize C" and "sz < lineSize C" and "first_piece (lineSize C) a sz \<noteq> unat sz"
    and "unat a + unat sz \<le> 2 ^ 63"
  shows "unat (getBaseCacheLineSize a sz C) = first_piece (lineSize C) a sz"
proof -
  let ?l = "ucast (lineSize C) :: u64" and ?n = "unat (lineSize C)"
  have l: "0 < ?n" using assms(1) by (simp add: word_less_nat_alt)
  have nz: "?l \<noteq> 0" using l line_unat [of "lineSize C"] by (metis unat_eq_0 less_numeral_extra(3))
  let ?o = "unat a mod ?n"
  have fp: "first_piece (lineSize C) a sz = ?n - ?o" "?n - ?o < unat sz"
    using assms(3) by (auto simp: first_piece_def min_def split: if_splits)
  have sz: "unat sz < ?n" using assms(2) by (simp add: word_less_nat_alt)
  have o: "0 < ?o" "?o < ?n" "?o \<le> unat a" using fp(2) sz l by auto
  have am: "unat (a mod ?l) = ?o" by (simp add: unat_mod line_unat)
  have b: "unat (cache_base ?l a) = unat a - ?o"
    unfolding cache_base_eq [OF nz] using am o by (subst unat_sub) (simp_all add: word_le_nat_alt)
  have n32: "?n < 2 ^ 32" using unsigned_less [of "lineSize C"] by simp
  have bl: "unat (cache_base ?l a + ?l) = unat a - ?o + ?n"
    using b line_unat n32 assms(4) by (subst unat_word_ariths) simp
  have as: "unat (a + ucast sz) = unat a + unat sz"
    using assms(4) by (subst unat_word_ariths) (simp add: unat_ucast_u64)
  have "unat (cache_base ?l a + ?l - a) = ?n - ?o"
    using bl o by (subst unat_sub) (simp_all add: word_le_nat_alt)
  then have r: "unat (ucast (cache_base ?l a + ?l - a) :: u32) = ?n - ?o"
    using n32 by (simp add: unsigned_ucast_eq take_bit_nat_eq_self)
  have "a \<noteq> cache_base ?l a"
  proof
    assume "a = cache_base ?l a"
    then have "unat a = unat a - ?o" using b by metis
    then show False using o(1,3) by linarith
  qed
  moreover have "\<not> a + ucast sz \<le> cache_base ?l a + ?l"
    using as bl fp(2) o by (simp add: word_le_nat_alt)
  ultimately show ?thesis by (simp add: getBaseCacheLineSize_def Let_def r fp(1))
qed

lemma getBaseCacheLineSize_le:
  assumes "0 < lineSize C" and "unat a + unat sz \<le> 2 ^ 63"
  shows "getBaseCacheLineSize a sz C \<le> sz"
proof -
  let ?l = "ucast (lineSize C) :: u64"
  let ?b = "cache_base ?l a"
  have nz: "?l \<noteq> 0" using assms(1) line_unat [of "lineSize C"] by (metis unat_eq_0 word_gt_0)
  have b: "unat ?b = unat a - unat a mod unat ?l"
    unfolding cache_base_eq [OF nz] by (subst unat_sub) (simp_all add: word_le_nat_alt unat_mod)
  have n32: "unat ?l < 2 ^ 32" using unsigned_less [of "lineSize C"] by (simp add: line_unat)
  have bl: "unat (?b + ?l) = unat ?b + unat ?l" using b n32 assms(2) by (subst unat_word_ariths) simp
  have as: "unat (a + ucast sz) = unat a + unat sz"
    using assms(2) by (subst unat_word_ariths) (simp add: unat_ucast_u64)
  have "unat a mod unat ?l < unat ?l" using nz by (simp add: unat_gt_0)
  then have ge: "unat a \<le> unat ?b + unat ?l" using b by linarith
  have "unat (?b + ?l - a) = unat ?b + unat ?l - unat a"
    using ge bl by (subst unat_sub) (simp_all add: word_le_nat_alt)
  moreover have "unat (ucast (?b + ?l - a) :: u32) \<le> unat (?b + ?l - a)"
    by (simp add: unsigned_ucast_eq take_bit_nat_less_eq_self)
  ultimately have "\<not> a + ucast sz \<le> ?b + ?l \<Longrightarrow> unat (ucast (?b + ?l - a) :: u32) \<le> unat sz"
    using as bl by (simp add: word_le_nat_alt)
  then show ?thesis by (simp add: getBaseCacheLineSize_def Let_def word_le_nat_alt word_less_nat_alt)
qed

text \<open>What sending a request changes.\<close>

lemma count_op_frame [simp]:
  "requests (count_op k d C) = requests C" "rqstQ (count_op k d C) = rqstQ C"
  "outstanding (count_op k d C) = outstanding C" "AMOTable (count_op k d C) = AMOTable C"
  "mc_ops (count_op k d C) = mc_ops C" "mc_nops (count_op k d C) = mc_nops C"
  "mc_count (count_op k d C) = mc_count C" "mc_sent (count_op k d C) = mc_sent C"
  "mc_host (count_op k d C) = mc_host C" "mc_hz (count_op k d C) = mc_hz C"
  "hasCache (count_op k d C) = hasCache C" "lineSize (count_op k d C) = lineSize C"
  "max_ops (count_op k d C) = max_ops C" "num_fence (count_op k d C) = num_fence C"
  by (cases k; simp)+

lemma issue_frame [simp]:
  "requests (issue ids p k rq C) = requests C @ [ids (mc_count C)]" "rqstQ (issue ids p k rq C) = rqstQ C"
  "outstanding (issue ids p k rq C) = out_put (ids (mc_count C)) p (outstanding C)"
  "AMOTable (issue ids p k rq C) = AMOTable C" "mc_ops (issue ids p k rq C) = mc_ops C"
  "mc_nops (issue ids p k rq C) = mc_nops C" "mc_count (issue ids p k rq C) = Suc (mc_count C)"
  "mc_sent (issue ids p k rq C) = mc_sent C @ [(ids (mc_count C), rq)]"
  "mc_host (issue ids p k rq C) = mc_host C" "mc_hz (issue ids p k rq C) = mc_hz C"
  "hasCache (issue ids p k rq C) = hasCache C" "lineSize (issue ids p k rq C) = lineSize C"
  "max_ops (issue ids p k rq C) = max_ops C" "num_fence (issue ids p k rq C) = num_fence C"
  by (simp_all add: issue_def Let_def recordStat_def)

lemma std_rqst_defined: "free_slots k C = Some f \<Longrightarrow> \<exists>rq. std_rqst k v a n d fl = Some rq"
  by (cases k) simp_all

lemma send_piece_ok:
  assumes "free_slots (o_Op op) C0 = Some f" and "has_data (o_Op op) \<Longrightarrow> cur + unat n \<le> length (o_membuf op)"
  shows "send_piece ids p op fl a n cur C = Inr (Some (issue ids p (o_Op op)
    (the (std_rqst (o_Op op) (o_Inv op) a n
       (if has_data (o_Op op) then take (unat n) (drop cur (o_membuf op)) else []) fl)) C))"
proof -
  obtain rq where "std_rqst (o_Op op) (o_Inv op) a n
      (if has_data (o_Op op) then take (unat n) (drop cur (o_membuf op)) else []) fl = Some rq"
    using std_rqst_defined [OF assms(1)] by blast
  then show ?thesis using assms(2) by (simp add: send_piece_def slice_def split: if_splits)
qed

text \<open>
  C16. An operation shorter than a cache line is sent as the requests the memory hierarchy expects:
  one request for the whole range when it lies in one line, otherwise two, which meet at
  the line boundary. Together they cover exactly the bytes of the operation, in order; a write carries
  exactly the bytes of its buffer. Nothing is sent when the slots do not suffice.
\<close>

theorem cache_requests_correct:
  assumes "mc_ops C p = Some op" and "hasCache C" and "0 < lineSize C"
    and "0 < o_Size op" and "o_Size op < lineSize C" and "unat (o_Addr op) + unat (o_Size op) \<le> 2 ^ 63"
    and "free_slots (o_Op op) C = Some free" and "has_data (o_Op op) \<Longrightarrow> length (o_membuf op) = unat (o_Size op)"
  shows "let n = unat (o_Size op); k = first_piece (lineSize C) (o_Addr op) (o_Size op);
      rq = (\<lambda>a m bs. the (std_rqst (o_Op op) (o_Inv op) a (of_nat m) (if has_data (o_Op op) then bs else []) (getStdFlags op)))
    in if free < (if k = n then 1 else 2) then buildCacheMemRqst ids p C = Inr (Some (False, C))
       else \<exists>C'. buildCacheMemRqst ids p C = Inr (Some (True, C')) \<and>
         mc_sent C' = mc_sent C @
           (if k = n then [(ids (mc_count C), rq (o_Addr op) n (o_membuf op))]
            else [(ids (mc_count C), rq (o_Addr op) k (take k (o_membuf op))),
                  (ids (Suc (mc_count C)), rq (o_Addr op + of_nat k) (n - k) (drop k (o_membuf op)))])"
proof -
  let ?k = "first_piece (lineSize C) (o_Addr op) (o_Size op)" and ?n = "unat (o_Size op)"
  have lines: "getNumCacheLines (o_Addr op) (o_Size op) C = (if ?k = ?n then 1 else 2)"
    by (rule getNumCacheLines_short [OF assms(2,3,5)])
  have get: "get_op p C = Inr op" using assms(1) by (simp add: get_op_def)
  note piece = send_piece_ok [OF assms(7)]
  let ?C1 = "C\<lparr>mc_ops := (mc_ops C)(p \<mapsto> op\<lparr>o_SplitRqst := if ?k = ?n then 1 else 2\<rparr>)\<rparr>"
  show ?thesis
  proof (cases "?k = ?n")
    case True
    then show ?thesis
      using assms(7,8) piece [where cur = 0 and n = "ucast (o_Size op)" and C = ?C1]
      by (simp add: buildCacheMemRqst_def get lines Let_def unat_ucast_u64)
  next
    case False
    have b: "unat (getBaseCacheLineSize (o_Addr op) (o_Size op) C) = ?k"
      by (rule getBaseCacheLineSize_short [OF assms(3,5) False assms(6)])
    let ?b = "getBaseCacheLineSize (o_Addr op) (o_Size op) C"
    have k: "?k < ?n" "?n < unat (lineSize C)"
      using False assms(5) by (auto simp: first_piece_def min_def word_less_nat_alt split: if_splits)
    have ub: "unat (ucast ?b :: u64) = ?k" using b by (simp add: unat_ucast_u64)
    have bk: "(ucast ?b :: u64) = of_nat ?k" using b by (metis of_nat_unat)
    have left: "unat (ucast (o_Size op) - ucast ?b :: u64) = ?n - ?k"
      using k ub by (subst unat_sub) (simp_all add: word_le_nat_alt unat_ucast_u64)
    have leftk: "(ucast (o_Size op) - ucast ?b :: u64) = of_nat (?n - ?k)"
      using left by (metis of_nat_unat ucast_id)
    have small: "(ucast (o_Size op) - ucast ?b :: u64) < ucast (lineSize C)"
      using left k by (simp add: word_less_nat_alt unat_ucast_u64)
    let ?rq = "\<lambda>a m bs. the (std_rqst (o_Op op) (o_Inv op) a (of_nat m) (if has_data (o_Op op) then bs else []) (getStdFlags op))"
    let ?C2 = "issue ids p (o_Op op) (?rq (o_Addr op) ?k (take ?k (o_membuf op))) ?C1"
    let ?C3 = "issue ids p (o_Op op) (?rq (o_Addr op + of_nat ?k) (?n - ?k) (drop ?k (o_membuf op))) ?C2"
    have uk: "unat (of_nat ?k :: u64) = ?k" "unat (of_nat (?n - ?k) :: u64) = ?n - ?k"
      using ub left unfolding bk [symmetric] leftk [symmetric] by simp_all
    have p1: "send_piece ids p op (getStdFlags op) (o_Addr op) (ucast ?b) 0 ?C1 = Inr (Some ?C2)"
      unfolding bk by (subst piece) (use assms(8) k uk in simp_all)
    have p2: "send_piece ids p op (getStdFlags op) (o_Addr op + ucast ?b) (ucast (o_Size op) - ucast ?b) ?k ?C2 = Inr (Some ?C3)"
      unfolding leftk unfolding bk by (subst piece) (use assms(8) k uk in simp_all)
    have ls: "send_lines ids p op (getStdFlags op) (Suc 0) (o_Addr op + ucast ?b) (ucast (o_Size op) - ucast ?b) ?k ?C2 =
        Inr (Some ?C3)"
      using small p2 by (simp add: Let_def)
    have "unat (2 :: u32) - 1 = Suc 0" by simp
    then have "\<not> free < 2 \<Longrightarrow> buildCacheMemRqst ids p C = Inr (Some (True, ?C3))"
      unfolding buildCacheMemRqst_def get bind_res_simps Let_def lines
      using False assms(7) p1 ls b by simp
    moreover have "free < 2 \<Longrightarrow> buildCacheMemRqst ids p C = Inr (Some (False, C))"
      using False assms(7) by (simp add: buildCacheMemRqst_def get Let_def lines)
    ultimately show ?thesis using False by (simp add: Let_def)
  qed
qed

text \<open>
  A controller with cache lines of 64 bytes, in which a read of eight bytes is queued that starts four bytes
  before a line boundary.
\<close>

definition demo_mc0 :: RevBasicMemCtrl where
  "demo_mc0 = init_ctrl 64 (new_RevBasicMemCtrl 16 16 16 16 16 16 16 16 (\<lambda>_. 0) (\<lambda>_. False))"

definition demo_mc1 :: RevBasicMemCtrl where
  "demo_mc1 = sendREADRequest 0 0x103C 0 8 0x5000 7 0 demo_mc0"

theorem cache_requests_correct_witness:
  "\<exists>C'. buildCacheMemRqst (\<lambda>n. n) 0 demo_mc1 = Inr (Some (True, C')) \<and>
     mc_sent C' = [(0, SR_Read 0x103C 4 0), (1, SR_Read 0x1040 4 0)]"
proof -
  have e: "hasCache demo_mc1" "lineSize demo_mc1 = 64" "max_loads demo_mc1 = 16" "num_read demo_mc1 = 0"
    "mc_sent demo_mc1 = []" "mc_count demo_mc1 = 0" by code_simp+
  let ?op = "(new_RevMemOp 0 0x103C 0 8 [] (Some 0x5000) 0 MemOpREAD 0)\<lparr>o_hazard := Some 7\<rparr>"
  have o: "mc_ops demo_mc1 0 = Some ?op" by code_simp
  have f: "o_Op ?op = MemOpREAD" "o_Size ?op = 8" "o_Addr ?op = 0x103C" "getStdFlags ?op = 0" by code_simp+
  have "first_piece 64 0x103C 8 = 4" by code_simp
  then show ?thesis
    using cache_requests_correct [OF o, of 16 "\<lambda>n. n"] by (simp add: e f Let_def)
qed

text \<open>
  For operations of a cache line or more the number of lines is not always right: an aligned read of two lines
  sends a third request of no bytes, an unaligned one of 100 bytes requests only 96, and one that starts at
  offset 1 is a single request across the boundary.
\<close>

definition demo_read_pieces :: "u64 \<Rightarrow> u32 \<Rightarrow> StdReq list" where
  "demo_read_pieces a n =
     (case buildCacheMemRqst (\<lambda>n. n) 0 (sendREADRequest 0 a 0 n 0x5000 7 0 demo_mc0) of
        Inr (Some (True, C)) \<Rightarrow> map snd (mc_sent C) | _ \<Rightarrow> [])"

lemma long_requests_wrong:
  "demo_read_pieces 0x1000 128 = [SR_Read 0x1000 64 0, SR_Read 0x1040 64 0, SR_Read 0x1080 0 0]"
  "demo_read_pieces 0x1020 100 = [SR_Read 0x1020 32 0, SR_Read 0x1040 64 0]"
  "demo_read_pieces 0x1001 64 = [SR_Read 0x1001 64 0]"
  by code_simp+

text \<open>Building the requests of a well-formed operation never fails.\<close>

lemma send_lines_ok:
  assumes "free_slots (o_Op op) C0 = Some f" and "has_data (o_Op op) \<Longrightarrow> cur + unat n \<le> length (o_membuf op)"
  shows "\<exists>C'. send_lines ids p op fl k a n cur C = Inr (Some C')"
  using assms(2)
proof (induction k arbitrary: a n cur C)
  case (Suc k)
  let ?m = "if n < ucast (lineSize C) then n else ucast (lineSize C)"
  have m: "unat ?m \<le> unat n" by (simp add: not_less word_le_nat_alt)
  then have "unat (n - ?m) = unat n - unat ?m" by (subst unat_sub) (simp_all add: word_le_nat_alt)
  then have "has_data (o_Op op) \<Longrightarrow> cur + unat ?m + unat (n - ?m) \<le> length (o_membuf op)"
    using Suc.prems m by simp
  note r = Suc.IH [OF this]
  have "has_data (o_Op op) \<Longrightarrow> cur + unat ?m \<le> length (o_membuf op)" using Suc.prems m by simp
  from send_piece_ok [OF assms(1) this]
  obtain C1 where "send_piece ids p op fl a ?m cur C = Inr (Some C1)" by blast
  then show ?case using r [of "a + ?m" C1] by (simp only: send_lines.simps Let_def bind_res_simps option.case)
qed simp

lemma buildCacheMemRqst_ok:
  assumes "mc_ops C p = Some op" and "0 < lineSize C" and "free_slots (o_Op op) C = Some f"
    and "has_data (o_Op op) \<Longrightarrow> length (o_membuf op) = unat (o_Size op)" and "unat (o_Addr op) + unat (o_Size op) \<le> 2 ^ 63"
  shows "\<exists>ok C'. buildCacheMemRqst ids p C = Inr (Some (ok, C'))"
proof -
  let ?n = "getNumCacheLines (o_Addr op) (o_Size op) C"
  let ?b = "if ?n > 1 then getBaseCacheLineSize (o_Addr op) (o_Size op) C else o_Size op"
  have b: "unat ?b \<le> unat (o_Size op)"
    using getBaseCacheLineSize_le [OF assms(2,5)] by (simp add: word_le_nat_alt)
  then have l: "unat (ucast (o_Size op) - ucast ?b :: u64) = unat (o_Size op) - unat ?b"
    by (subst unat_sub) (simp_all add: word_le_nat_alt unat_ucast_u64)
  have "has_data (o_Op op) \<Longrightarrow> 0 + unat (ucast ?b :: u64) \<le> length (o_membuf op)"
    using assms(4) b by (simp add: unat_ucast_u64)
  from send_piece_ok [OF assms(3) this] obtain C2 where
    p: "send_piece ids p op (getStdFlags op) (o_Addr op) (ucast ?b) 0
          (C\<lparr>mc_ops := (mc_ops C)(p \<mapsto> op\<lparr>o_SplitRqst := ?n\<rparr>)\<rparr>) = Inr (Some C2)" by blast
  have "has_data (o_Op op) \<Longrightarrow> unat ?b + unat (ucast (o_Size op) - ucast ?b :: u64) \<le> length (o_membuf op)"
    unfolding l using assms(4) b by simp
  from send_lines_ok [OF assms(3) this] obtain C3 where
    s: "send_lines ids p op (getStdFlags op) (unat ?n - 1) (o_Addr op + ucast ?b) (ucast (o_Size op) - ucast ?b)
          (unat ?b) C2 = Inr (Some C3)" by blast
  have get: "get_op p C = Inr op" using assms(1) by (simp add: get_op_def)
  show ?thesis
  proof (cases "f < ucast ?n")
    case True
    then show ?thesis using assms(3) by (auto simp: buildCacheMemRqst_def get Let_def)
  next
    case False
    then show ?thesis
      using p s by (simp only: buildCacheMemRqst_def get bind_res_simps Let_def assms(3) option.case if_False option.map) blast
  qed
qed

text \<open>The two pieces stay within their cache lines.\<close>

lemma pieces_in_lines:
  fixes a n l :: nat
  assumes "0 < n" and "n < l" and "k = min n (l - a mod l)"
  shows "(a + k - 1) div l = a div l" and "k < n \<Longrightarrow> (a + k) mod l = 0 \<and> (a + n - 1) div l = a div l + 1"
proof -
  have a: "a = l * (a div l) + a mod l" by simp
  have m: "a mod l < l" using assms(2) by simp
  have k: "0 < k" "a mod l + k \<le> l" using assms m by (auto simp: min_def)
  have "a + k - 1 = l * (a div l) + (a mod l + k - 1)" using a k by linarith
  moreover have "a mod l + k - 1 < l" using k by linarith
  ultimately show "(a + k - 1) div l = a div l" using assms(2) by (simp add: div_mult_self4)
  assume "k < n"
  then have kl: "k = l - a mod l" using assms(3) by (simp add: min_def split: if_splits)
  have "a + k = l * (a div l) + l" using a m unfolding kl by linarith
  then have e: "a + k = l * (a div l + 1)" by simp
  have "a + n - 1 = l * (a div l + 1) + (n - k - 1)" using e \<open>k < n\<close> by linarith
  moreover have "n - k - 1 < l" using assms(2) by linarith
  ultimately have "(a + n - 1) div l = a div l + 1" using assms(2) by (simp only: div_mult_self4 div_less)
  then show "(a + k) mod l = 0 \<and> (a + n - 1) div l = a div l + 1" using e by simp
qed


section \<open>The bookkeeping of requests in flight\<close>

text \<open>
  The kinds of operation whose responses the handlers account for, and the counter of each. (The
  other kinds, which belong to load-reserved and store-conditional, are answered through
  \<open>handleReadResp\<close> and \<open>handleWriteResp\<close>, which count a different kind.)
\<close>

definition basic :: "MemOp \<Rightarrow> bool" where
  "basic k \<longleftrightarrow> k = MemOpREAD \<or> k = MemOpWRITE \<or> k = MemOpFLUSH \<or> k = MemOpCUSTOM"

fun ctr :: "MemOp \<Rightarrow> RevBasicMemCtrl \<Rightarrow> u64" where
  "ctr MemOpREAD C = num_read C" | "ctr MemOpWRITE C = num_write C" | "ctr MemOpFLUSH C = num_flush C"
| "ctr MemOpREADLOCK C = num_readlock C" | "ctr MemOpWRITEUNLOCK C = num_writeunlock C"
| "ctr MemOpLOADLINK C = num_llsc C" | "ctr MemOpSTORECOND C = num_llsc C" | "ctr _ C = num_custom C"

definition kind :: "RevBasicMemCtrl \<Rightarrow> nat \<Rightarrow> MemOp" where
  "kind C p = (case mc_ops C p of Some op \<Rightarrow> o_Op op | None \<Rightarrow> MemOpFENCE)"

text \<open>
  The outstanding requests, without the one that is being answered: \<open>x\<close> is its identifier and the kind
  of its operation, while a response handler runs.
\<close>

definition live :: "(nat \<times> MemOp) option \<Rightarrow> RevBasicMemCtrl \<Rightarrow> (nat \<times> nat) list" where
  "live x C = (case x of None \<Rightarrow> outstanding C | Some (i, _) \<Rightarrow> out_erase i (outstanding C))"

definition count_kind :: "MemOp \<Rightarrow> (nat \<Rightarrow> MemOp) \<Rightarrow> (nat \<times> nat) list \<Rightarrow> nat" where
  "count_kind k f m = length (filter (\<lambda>(_, p). f p = k) m)"

definition count_ptr :: "nat \<Rightarrow> (nat \<times> nat) list \<Rightarrow> nat" where
  "count_ptr p m = length (filter (\<lambda>(_, q). q = p) m)"

definition flight_inv :: "(nat \<Rightarrow> nat) \<Rightarrow> (nat \<times> MemOp) option \<Rightarrow> RevBasicMemCtrl \<Rightarrow> bool" where
  "flight_inv ids x C \<longleftrightarrow>
     distinct (map fst (outstanding C)) \<and> distinct (requests C) \<and>
     set (requests C) = fst ` set (live x C) \<and> fst ` set (outstanding C) \<subseteq> ids ` {..<mc_count C} \<and>
     (\<forall>(i, p)\<in>set (live x C). \<exists>op. mc_ops C p = Some op \<and> basic (o_Op op) \<and>
        count_ptr p (live x C) \<le> max 1 (unat (o_SplitRqst op))) \<and>
     (\<forall>k. basic k \<longrightarrow> ctr k C = of_nat (count_kind k (kind C) (live x C)) +
        (if (\<exists>i. x = Some (i, k)) then 1 else 0)) \<and>
     num_readlock C = 0 \<and> num_writeunlock C = 0 \<and> num_llsc C = 0"

text \<open>
  The heap of operations: every queued operation is allocated, waits only once and has nothing in
  flight; the operations are of the kinds above or fences, and a read has a target and a hazard.
\<close>

definition op_ok :: "RevMemOp \<Rightarrow> bool" where
  "op_ok op \<longleftrightarrow> (basic (o_Op op) \<or> o_Op op = MemOpFENCE) \<and>
     (o_Op op = MemOpREAD \<longrightarrow> o_target op \<noteq> None \<and> o_hazard op \<noteq> None) \<and>
     (has_data (o_Op op) \<longrightarrow> length (o_membuf op) = unat (o_Size op)) \<and>
     unat (o_Addr op) + unat (o_Size op) \<le> 2 ^ 63"

definition queue_inv :: "RevBasicMemCtrl \<Rightarrow> bool" where
  "queue_inv C \<longleftrightarrow> distinct (rqstQ C) \<and> (\<forall>p\<in>set (rqstQ C). mc_ops C p \<noteq> None \<and> p \<notin> snd ` set (outstanding C)) \<and>
     (\<forall>p op. mc_ops C p = Some op \<longrightarrow> p < mc_nops C \<and> op_ok op) \<and> snd ` set (outstanding C) \<subseteq> {..<mc_nops C}"

definition mc_inv :: "(nat \<Rightarrow> nat) \<Rightarrow> RevBasicMemCtrl \<Rightarrow> bool" where
  "mc_inv ids C \<longleftrightarrow> flight_inv ids None C \<and> queue_inv C \<and> (hasCache C \<longrightarrow> 0 < lineSize C)"

lemma live_None [simp]: "live None C = outstanding C"
  by (simp add: live_def)

text \<open>What the invariants do not look at.\<close>

lemma live_cong [simp]:
  "live x (C\<lparr>mc_host := a1\<rparr>) = live x C" "live x (C\<lparr>mc_hz := a2\<rparr>) = live x C"
  "live x (C\<lparr>AMOTable := a3\<rparr>) = live x C" "live x (C\<lparr>mc_stats := a4\<rparr>) = live x C"
  "live x (C\<lparr>mc_ops := a5\<rparr>) = live x C" "live x (C\<lparr>mc_nops := a6\<rparr>) = live x C"
  "live x (C\<lparr>rqstQ := a7\<rparr>) = live x C" "live x (C\<lparr>num_fence := a8\<rparr>) = live x C"
  "live x (C\<lparr>requests := a9\<rparr>) = live x C"
  by (simp_all add: live_def split: option.splits)

lemma kind_cong [simp]:
  "kind (C\<lparr>mc_host := a1\<rparr>) = kind C" "kind (C\<lparr>mc_hz := a2\<rparr>) = kind C"
  "kind (C\<lparr>AMOTable := a3\<rparr>) = kind C" "kind (C\<lparr>mc_stats := a4\<rparr>) = kind C"
  "kind (C\<lparr>mc_nops := a6\<rparr>) = kind C" "kind (C\<lparr>rqstQ := a7\<rparr>) = kind C" "kind (C\<lparr>num_fence := a8\<rparr>) = kind C"
  "kind (C\<lparr>requests := a9\<rparr>) = kind C"
  by (simp_all add: kind_def fun_eq_iff)

lemma ctr_cong [simp]:
  "ctr k (C\<lparr>mc_host := a1\<rparr>) = ctr k C" "ctr k (C\<lparr>mc_hz := a2\<rparr>) = ctr k C"
  "ctr k (C\<lparr>AMOTable := a3\<rparr>) = ctr k C" "ctr k (C\<lparr>mc_stats := a4\<rparr>) = ctr k C"
  "ctr k (C\<lparr>mc_ops := a5\<rparr>) = ctr k C" "ctr k (C\<lparr>mc_nops := a6\<rparr>) = ctr k C"
  "ctr k (C\<lparr>rqstQ := a7\<rparr>) = ctr k C" "ctr k (C\<lparr>num_fence := a8\<rparr>) = ctr k C"
  "ctr k (C\<lparr>requests := a9\<rparr>) = ctr k C" "ctr k (C\<lparr>mc_count := a10\<rparr>) = ctr k C"
  "ctr k (C\<lparr>outstanding := a11\<rparr>) = ctr k C" "ctr k (C\<lparr>mc_sent := a12\<rparr>) = ctr k C"
  by (cases k; simp)+

lemma flight_inv_cong [simp]:
  "flight_inv ids x (C\<lparr>mc_host := a1\<rparr>) = flight_inv ids x C" "flight_inv ids x (C\<lparr>mc_hz := a2\<rparr>) = flight_inv ids x C"
  "flight_inv ids x (C\<lparr>AMOTable := a3\<rparr>) = flight_inv ids x C" "flight_inv ids x (C\<lparr>mc_stats := a4\<rparr>) = flight_inv ids x C"
  "flight_inv ids x (C\<lparr>mc_nops := a6\<rparr>) = flight_inv ids x C" "flight_inv ids x (C\<lparr>rqstQ := a7\<rparr>) = flight_inv ids x C"
  "flight_inv ids x (C\<lparr>num_fence := a8\<rparr>) = flight_inv ids x C"
  by (simp_all add: flight_inv_def)

lemma queue_inv_cong [simp]:
  "queue_inv (C\<lparr>mc_host := a1\<rparr>) = queue_inv C" "queue_inv (C\<lparr>mc_hz := a2\<rparr>) = queue_inv C"
  "queue_inv (C\<lparr>AMOTable := a3\<rparr>) = queue_inv C" "queue_inv (C\<lparr>mc_stats := a4\<rparr>) = queue_inv C"
  "queue_inv (C\<lparr>num_fence := a8\<rparr>) = queue_inv C" "queue_inv (C\<lparr>requests := a9\<rparr>) = queue_inv C"
  by (simp_all add: queue_inv_def)

lemma count_kind_cong: "(\<And>i p. (i, p) \<in> set m \<Longrightarrow> f p = g p) \<Longrightarrow> count_kind k f m = count_kind k g m"
  unfolding count_kind_def by (intro arg_cong [where f = length] filter_cong) auto

text \<open>A change of the heap away from the operations in flight.\<close>

lemma flight_inv_ops:
  assumes inv: "flight_inv ids x C" and same: "\<And>i p. (i, p) \<in> set (live x C) \<Longrightarrow> f p = mc_ops C p"
  shows "flight_inv ids x (C\<lparr>mc_ops := f\<rparr>)"
proof -
  have "count_kind k (kind (C\<lparr>mc_ops := f\<rparr>)) (live x C) = count_kind k (kind C) (live x C)" for k
    using same by (intro count_kind_cong) (simp add: kind_def)
  then show ?thesis using inv same unfolding flight_inv_def by (auto split: prod.splits) fastforce
qed

lemma live_sub: "set (live x C) \<subseteq> set (outstanding C)"
  by (auto simp: live_def out_erase_def split: option.splits)

lemma new_op_inv:
  assumes "flight_inv ids x C" and "queue_inv C" and "op_ok op" and "new_op op C = (p, C')"
  shows "flight_inv ids x C'" and "queue_inv C'" and "p = mc_nops C" and "mc_ops C' p = Some op"
    and "p \<notin> snd ` set (outstanding C')" and "p \<notin> set (rqstQ C')"
proof -
  have q: "snd ` set (outstanding C) \<subseteq> {..<mc_nops C}" "\<And>q. q \<in> set (rqstQ C) \<Longrightarrow> q < mc_nops C"
    using assms(2) by (auto simp: queue_inv_def)
  have C': "C' = C\<lparr>mc_ops := (mc_ops C)(mc_nops C \<mapsto> op), mc_nops := Suc (mc_nops C)\<rparr>" "p = mc_nops C"
    using assms(4) by (auto simp: new_op_def)
  have "(i, r) \<in> set (live x C) \<Longrightarrow> r \<noteq> mc_nops C" for i r using q(1) live_sub [of x C] by force
  then show "flight_inv ids x C'" unfolding C' using flight_inv_ops [OF assms(1)] by simp
  show "queue_inv C'" using assms(2,3) q unfolding C' queue_inv_def by (auto simp: less_Suc_eq)
  show "p = mc_nops C" "mc_ops C' p = Some op" by (simp_all add: C')
  show "p \<notin> snd ` set (outstanding C')" "p \<notin> set (rqstQ C')" using q unfolding C' by auto
qed

lemma queue_push:
  "queue_inv C \<Longrightarrow> mc_ops C p \<noteq> None \<Longrightarrow> p \<notin> snd ` set (outstanding C) \<Longrightarrow> p \<notin> set (rqstQ C) \<Longrightarrow>
   queue_inv (C\<lparr>rqstQ := rqstQ C @ [p]\<rparr>)"
  by (auto simp: queue_inv_def)

lemma enqueue_inv:
  assumes "mc_inv ids C" and "op_ok op"
  shows "mc_inv ids (enqueue st op C)"
proof -
  obtain p C1 where n: "new_op op C = (p, C1)" by fastforce
  have "flight_inv ids None C" "queue_inv C" using assms(1) by (simp_all add: mc_inv_def)
  note new = new_op_inv [OF this assms(2) n]
  have cfg: "hasCache C1 \<longrightarrow> 0 < lineSize C1" using assms(1) n by (auto simp: mc_inv_def new_op_def)
  have "queue_inv (C1\<lparr>rqstQ := rqstQ C1 @ [p]\<rparr>)" by (rule queue_push) (use new in simp_all)
  then show ?thesis using new cfg by (simp add: enqueue_def n mc_inv_def recordStat_def)
qed

text \<open>Every call that queues a memory operation of the basic kinds, or a fence, keeps the invariant.\<close>

lemma set_hazard_inv: "mc_inv ids C \<Longrightarrow> mc_inv ids (set_hazard h b C)"
  by (simp add: mc_inv_def set_hazard_def)

lemma sendAMO_inv:
  assumes inv: "mc_inv ids C" and a: "unat a + unat sz \<le> 2 ^ 63"
  shows "mc_inv ids (sendAMORequest h a pa sz bs tg hz fl C)"
proof (cases "sz = 0 \<or> fl AND 0x3FE00000 = 0")
  case True
  then show ?thesis using inv by (auto simp: sendAMORequest_def)
next
  case False
  let ?op = "(new_RevMemOp h a pa sz (take (unat sz) bs) (Some tg) 0 MemOpREAD fl)\<lparr>o_hazard := Some hz\<rparr>"
  have ok: "op_ok ?op" using a by (simp add: op_ok_def basic_def new_RevMemOp_def)
  obtain p C1 where n: "new_op ?op C = (p, C1)" by fastforce
  have "flight_inv ids None C" "queue_inv C" using inv by (simp_all add: mc_inv_def)
  note new = new_op_inv [OF this ok n]
  have cfg: "hasCache C1 \<longrightarrow> 0 < lineSize C1" using inv n by (auto simp: mc_inv_def new_op_def)
  have "queue_inv (C1\<lparr>rqstQ := rqstQ C1 @ [p]\<rparr>)" by (rule queue_push) (use new in simp_all)
  then have "queue_inv (C1\<lparr>mc_hz := z, AMOTable := t, rqstQ := rqstQ C1 @ [p]\<rparr>)" for z t
    by (simp add: queue_inv_def)
  then show ?thesis using new cfg False n
    by (simp add: sendAMORequest_def Let_def set_hazard_def mc_inv_def recordStat_def split: option.split)
qed

lemma send_inv:
  assumes "mc_inv ids C" and "unat a + unat sz \<le> 2 ^ 63"
  shows "mc_inv ids (sendFLUSHRequest h a pa sz v fl C)" "mc_inv ids (sendREADRequest h a pa sz tg hz fl C)"
    "unat sz \<le> length bs \<Longrightarrow> mc_inv ids (sendWRITERequest h a pa sz bs fl C)"
    "mc_inv ids (sendCUSTOMREADRequest h a pa sz tg opc fl C)"
    "mc_inv ids (sendCUSTOMWRITERequest h a pa sz bs opc fl C)" "mc_inv ids (sendFENCE h C)"
  using assms set_hazard_inv [OF assms(1)]
  by (simp_all add: sendFLUSHRequest_def sendREADRequest_def sendWRITERequest_def sendCUSTOMREADRequest_def
      sendCUSTOMWRITERequest_def sendFENCE_def enqueue_inv op_ok_def basic_def new_RevMemOp_def)

lemma ctr_count_op:
  "basic k \<Longrightarrow> basic k' \<Longrightarrow> ctr k' (count_op k d C) = ctr k' C + (if k' = k then d else 0)"
  "basic k \<Longrightarrow> num_readlock (count_op k d C) = num_readlock C"
  "basic k \<Longrightarrow> num_writeunlock (count_op k d C) = num_writeunlock C"
  "basic k \<Longrightarrow> num_llsc (count_op k d C) = num_llsc C"
  by (auto simp: basic_def)

lemma out_put_fresh: "i \<notin> fst ` set m \<Longrightarrow> out_put i p m = m @ [(i, p)]"
  unfolding out_put_def by (subst filter_True) force+

text \<open>A further request of an operation.\<close>

lemma issue_inv:
  assumes inv: "flight_inv ids None C" and inj: "inj ids" and op: "mc_ops C p = Some op" "basic (o_Op op)"
    and split: "count_ptr p (outstanding C) < max 1 (unat (o_SplitRqst op))"
  shows "flight_inv ids None (issue ids p (o_Op op) rq C)"
    and "outstanding (issue ids p (o_Op op) rq C) = outstanding C @ [(ids (mc_count C), p)]"
proof -
  let ?i = "ids (mc_count C)" and ?C' = "issue ids p (o_Op op) rq C"
  have sub: "fst ` set (outstanding C) \<subseteq> ids ` {..<mc_count C}" using inv by (simp add: flight_inv_def)
  have "?i \<notin> ids ` {..<mc_count C}" using inj by (auto dest: injD)
  then have fresh: "?i \<notin> fst ` set (outstanding C)" using sub by blast
  then show out: "outstanding ?C' = outstanding C @ [(?i, p)]" by (simp add: out_put_fresh)
  have req: "?i \<notin> set (requests C)" using inv fresh by (simp add: flight_inv_def)
  have kind: "kind ?C' = kind C" by (simp add: kind_def fun_eq_iff)
  have ctr: "ctr k ?C' = of_nat (count_kind k (kind C) (outstanding C @ [(?i, p)]))" if "basic k" for k
    using inv that op by (auto simp: issue_def Let_def recordStat_def ctr_count_op flight_inv_def count_kind_def kind_def)
  have ptr: "\<forall>(i, q)\<in>set (outstanding C @ [(?i, p)]). \<exists>op. mc_ops C q = Some op \<and> basic (o_Op op) \<and>
      count_ptr q (outstanding C @ [(?i, p)]) \<le> max 1 (unat (o_SplitRqst op))"
    using inv op split by (fastforce simp: flight_inv_def count_ptr_def)
  have "fst ` set (outstanding ?C') \<subseteq> ids ` {..<mc_count ?C'}" using sub unfolding out by (auto simp: less_Suc_eq)
  moreover have "num_readlock ?C' = 0 \<and> num_writeunlock ?C' = 0 \<and> num_llsc ?C' = 0"
    using inv op(2) by (simp add: flight_inv_def issue_def Let_def recordStat_def ctr_count_op)
  moreover have "distinct (map fst (outstanding ?C'))" "distinct (requests ?C')" "set (requests ?C') = fst ` set (outstanding ?C')"
    using inv fresh req unfolding out by (auto simp: flight_inv_def)
  ultimately show "flight_inv ids None ?C'"
    unfolding flight_inv_def live_None kind out using ctr ptr by simp
qed

text \<open>What sending leaves alone.\<close>

definition same_rest :: "RevBasicMemCtrl \<Rightarrow> RevBasicMemCtrl \<Rightarrow> bool" where
  "same_rest C C' \<longleftrightarrow> mc_ops C' = mc_ops C \<and> mc_nops C' = mc_nops C \<and> rqstQ C' = rqstQ C \<and>
     AMOTable C' = AMOTable C \<and> mc_host C' = mc_host C \<and> mc_hz C' = mc_hz C \<and> hasCache C' = hasCache C \<and>
     lineSize C' = lineSize C \<and> max_ops C' = max_ops C \<and> num_fence C' = num_fence C"

definition sent_for :: "(nat \<Rightarrow> nat) \<Rightarrow> nat \<Rightarrow> RevBasicMemCtrl \<Rightarrow> RevBasicMemCtrl \<Rightarrow> bool" where
  "sent_for ids p C C' \<longleftrightarrow> flight_inv ids None C' \<and> same_rest C C' \<and>
     snd ` set (outstanding C') \<subseteq> insert p (snd ` set (outstanding C))"

lemma send_piece_inv:
  assumes "flight_inv ids None C" and "inj ids" and "mc_ops C p = Some op'" and "o_Op op' = o_Op op"
    and "basic (o_Op op)" and "count_ptr p (outstanding C) < max 1 (unat (o_SplitRqst op'))"
    and "send_piece ids p op fl a n cur C = Inr (Some C')"
  shows "sent_for ids p C C'" and "count_ptr p (outstanding C') = Suc (count_ptr p (outstanding C))"
proof -
  from assms(7) obtain rq where C': "C' = issue ids p (o_Op op') rq C"
    using assms(4) by (auto simp: send_piece_def split: option.splits)
  have b: "basic (o_Op op')" using assms(4,5) by simp
  note i = issue_inv [OF assms(1-3) b assms(6), of rq]
  show "sent_for ids p C C'"
    using i unfolding C' sent_for_def same_rest_def by (auto simp del: issue_frame(3))
  show "count_ptr p (outstanding C') = Suc (count_ptr p (outstanding C))"
    using i(2) unfolding C' by (simp add: count_ptr_def del: issue_frame(3))
qed

lemma sent_for_trans: "sent_for ids p C C1 \<Longrightarrow> sent_for ids p C1 C2 \<Longrightarrow> sent_for ids p C C2"
  unfolding sent_for_def same_rest_def by (elim conjE, intro conjI) (simp | blast)+

lemma send_lines_inv:
  assumes "flight_inv ids None C" and "inj ids" and "mc_ops C p = Some op'" and "o_Op op' = o_Op op"
    and "basic (o_Op op)" and "count_ptr p (outstanding C) + k \<le> max 1 (unat (o_SplitRqst op'))"
    and "send_lines ids p op fl k a n cur C = Inr (Some C')"
  shows "sent_for ids p C C'"
  using assms
proof (induction k arbitrary: a n cur C)
  case 0
  then show ?case by (auto simp: sent_for_def same_rest_def)
next
  case (Suc k)
  let ?m = "if n < ucast (lineSize C) then n else ucast (lineSize C)"
  from Suc.prems(7) obtain C1 where
    p: "send_piece ids p op fl a ?m cur C = Inr (Some C1)" and
    l: "send_lines ids p op fl k (a + ?m) (n - ?m) (cur + unat ?m) C1 = Inr (Some C')"
    by (auto simp: Let_def split: option.splits)
  have lt: "count_ptr p (outstanding C) < max 1 (unat (o_SplitRqst op'))" using Suc.prems(6) by simp
  note s = send_piece_inv [OF Suc.prems(1-5) lt p]
  have "flight_inv ids None C1" "mc_ops C1 p = Some op'" using s(1) Suc.prems(3) by (simp_all add: sent_for_def same_rest_def)
  from Suc.IH [OF this(1) Suc.prems(2) this(2) Suc.prems(4,5) _ l] s Suc.prems(6) show ?case
    by (auto intro: sent_for_trans)
qed

lemma count_ptr_0: "p \<notin> snd ` set m \<Longrightarrow> count_ptr p m = 0"
  unfolding count_ptr_def by (force simp: filter_empty_conv)

lemma build_cache_inv:
  assumes inv: "flight_inv ids None C" and inj: "inj ids" and op: "mc_ops C p = Some op" "basic (o_Op op)"
    and p: "p \<notin> snd ` set (outstanding C)"
    and b: "buildCacheMemRqst ids p C = Inr (Some (ok, C'))"
  shows "if ok then \<exists>m. sent_for ids p (C\<lparr>mc_ops := (mc_ops C)(p \<mapsto> op\<lparr>o_SplitRqst := m\<rparr>)\<rparr>) C' else C' = C"
proof -
  have get: "get_op p C = Inr op" using op by (simp add: get_op_def)
  let ?n = "getNumCacheLines (o_Addr op) (o_Size op) C"
  let ?C1 = "C\<lparr>mc_ops := (mc_ops C)(p \<mapsto> op\<lparr>o_SplitRqst := ?n\<rparr>)\<rparr>"
  let ?b = "if ?n > 1 then getBaseCacheLineSize (o_Addr op) (o_Size op) C else o_Size op"
  have C1: "flight_inv ids None ?C1" using p by (intro flight_inv_ops [OF inv]) force
  have c0: "count_ptr p (outstanding ?C1) = 0" using count_ptr_0 [OF p] by simp
  show ?thesis
  proof (cases ok)
    case False
    then show ?thesis using b get by (auto simp: buildCacheMemRqst_def Let_def split: option.splits if_splits)
  next
    case True
    obtain C2 where
      p2: "send_piece ids p op (getStdFlags op) (o_Addr op) (ucast ?b) 0 ?C1 = Inr (Some C2)" and
      l2: "send_lines ids p op (getStdFlags op) (unat ?n - 1) (o_Addr op + ucast ?b) (ucast (o_Size op) - ucast ?b)
             (unat ?b) C2 = Inr (Some C')"
      using b True unfolding buildCacheMemRqst_def get bind_res_simps Let_def
      by (auto split: option.splits if_splits simp del: send_lines.simps)
    have m: "mc_ops ?C1 p = Some (op\<lparr>o_SplitRqst := ?n\<rparr>)" "o_Op (op\<lparr>o_SplitRqst := ?n\<rparr>) = o_Op op" by simp_all
    have lt: "count_ptr p (outstanding ?C1) < max 1 (unat (o_SplitRqst (op\<lparr>o_SplitRqst := ?n\<rparr>)))" using c0 by simp
    note s = send_piece_inv [OF C1 inj m op(2) lt p2]
    have le: "count_ptr p (outstanding C2) + (unat ?n - 1) \<le> max 1 (unat (o_SplitRqst (op\<lparr>o_SplitRqst := ?n\<rparr>)))"
      using s(2) c0 by simp
    have "flight_inv ids None C2" "mc_ops C2 p = Some (op\<lparr>o_SplitRqst := ?n\<rparr>)"
      using s(1) by (simp_all add: sent_for_def same_rest_def)
    from send_lines_inv [OF this(1) inj this(2) m(2) op(2) le l2] s(1) have "sent_for ids p ?C1 C'"
      by (blast intro: sent_for_trans)
    then show ?thesis using True by auto
  qed
qed

text \<open>
  Building the requests of a queued operation: either nothing changes, or its requests are in flight.
  The only change in the heap is the number of its requests.
\<close>

lemma build_inv:
  assumes inv: "flight_inv ids None C" and inj: "inj ids" and op: "mc_ops C p = Some op" "basic (o_Op op)"
    and p: "p \<notin> snd ` set (outstanding C)"
    and b: "buildStandardMemRqst ids p C = Inr (Some (ok, C'))"
  shows "if ok then \<exists>m. sent_for ids p (C\<lparr>mc_ops := (mc_ops C)(p \<mapsto> op\<lparr>o_SplitRqst := m\<rparr>)\<rparr>) C' else C' = C"
proof -
  have get: "get_op p C = Inr op" using op by (simp add: get_op_def)
  have c0: "count_ptr p (outstanding C) = 0" by (rule count_ptr_0 [OF p])
  have upd: "flight_inv ids None (C\<lparr>mc_ops := (mc_ops C)(p \<mapsto> op\<lparr>o_SplitRqst := m\<rparr>)\<rparr>)" for m
    using p by (intro flight_inv_ops [OF inv]) force
  have same: "C\<lparr>mc_ops := (mc_ops C)(p \<mapsto> op\<lparr>o_SplitRqst := o_SplitRqst op\<rparr>)\<rparr> = C"
    using op by (simp add: fun_upd_idem)
  have raw: "sent_for ids p C C1" if "buildRawMemRqst ids p fl C = Inr (Some C1)" for fl C1
  proof -
    from that get obtain rq where "C1 = issue ids p (o_Op op) rq C"
      by (auto simp: buildRawMemRqst_def split: option.splits)
    moreover have "count_ptr p (outstanding C) < max 1 (unat (o_SplitRqst op))" using c0 by simp
    note issue_inv [OF inv inj op this, of rq]
    ultimately show ?thesis by (auto simp: sent_for_def same_rest_def simp del: issue_frame(3))
  qed
  show ?thesis
  proof (cases "hasCache C \<and> isCacheable op")
    case False
    then obtain fl where "ok" "buildRawMemRqst ids p fl C = Inr (Some C')"
      using b get by (auto simp: buildStandardMemRqst_def split: if_splits)
    then show ?thesis using raw same by metis
  next
    case True
    then have "buildCacheMemRqst ids p C = Inr (Some (ok, C'))" using b get by (simp add: buildStandardMemRqst_def)
    then show ?thesis by (rule build_cache_inv [OF inv inj op p])
  qed
qed

end
