(* ===== verification/Rev_MemCtrlRun.thy ===== *)
theory Rev_MemCtrlRun
  imports Rev_MemCtrlProps
begin

text \<open>
  The running memory controller: a clock cycle returns and keeps the bookkeeping, the response
  handlers do so too for the requests in flight, and the states reachable from the constructor by
  calls, clock cycles and responses satisfy the invariant. Then the fence and the delivery of read data.
\<close>

section \<open>The clock cycle\<close>

lemma inv_D:
  assumes "mc_inv ids C"
  shows "flight_inv ids None C" and "queue_inv C" and "hasCache C \<Longrightarrow> 0 < lineSize C"
    and "p \<in> set (rqstQ C) \<Longrightarrow> \<exists>op. mc_ops C p = Some op \<and> op_ok op \<and> p \<notin> snd ` set (outstanding C)"
  using assms by (auto simp: mc_inv_def queue_inv_def)

lemma queued_op:
  assumes "mc_inv ids C" and "p \<in> set (rqstQ C)"
  obtains op where "mc_ops C p = Some op" and "get_op p C = Inr op" and "op_ok op" and "p \<notin> snd ` set (outstanding C)"
  using inv_D(4) [OF assms] by (auto simp: get_op_def)

lemma any_op_ok: "mc_inv ids C \<Longrightarrow> set ps \<subseteq> set (rqstQ C) \<Longrightarrow> \<exists>b. any_op f ps C = Inr b"
proof (induction ps)
  case (Cons p ps)
  obtain op where "get_op p C = Inr op" using inv_D(4) [OF Cons.prems(1), of p] Cons.prems(2) by (auto simp: get_op_def)
  then show ?case using Cons by auto
qed auto

lemma isPendingAMO_ok:
  assumes "mc_inv ids C" and "i < length (rqstQ C)"
  shows "\<exists>b. isPendingAMO i C = Inr b"
proof -
  obtain s where s: "get_op (rqstQ C ! i) C = Inr s" using queued_op [OF assms(1)] assms(2) nth_mem by metis
  have t: "\<exists>b. any_op f (take i (rqstQ C)) C = Inr b" for f by (rule any_op_ok [OF assms(1)]) (rule set_take_subset)
  have "\<exists>b. isAQ i C = Inr b" unfolding isAQ_def s bind_res_simps using t by auto
  moreover have "\<exists>b. isRL i C = Inr b" unfolding isRL_def s bind_res_simps using t by auto
  ultimately show ?thesis unfolding isPendingAMO_def by fastforce
qed

lemma build_ok:
  assumes "mc_inv ids C" and "p \<in> set (rqstQ C)" and "mc_ops C p = Some op" and "o_Op op \<noteq> MemOpFENCE"
  shows "\<exists>ok C'. buildStandardMemRqst ids p C = Inr (Some (ok, C'))"
proof -
  have get: "get_op p C = Inr op" using assms(3) by (simp add: get_op_def)
  have ok: "op_ok op" using inv_D(4) [OF assms(1,2)] assms(3) by auto
  then have b: "basic (o_Op op)" using assms(4) by (simp add: op_ok_def)
  then obtain f where f: "free_slots (o_Op op) C = Some f" by (auto simp: basic_def)
  show ?thesis
  proof (cases "hasCache C \<and> isCacheable op")
    case True
    then have "0 < lineSize C" using inv_D(3) [OF assms(1)] by simp
    then have "\<exists>ok C'. buildCacheMemRqst ids p C = Inr (Some (ok, C'))"
      using ok by (intro buildCacheMemRqst_ok [OF assms(3) _ f]) (simp_all add: op_ok_def)
    then show ?thesis using True get by (simp add: buildStandardMemRqst_def)
  next
    case False
    have "\<exists>C'. buildRawMemRqst ids p fl C = Inr (Some C')" for fl
      using b get by (auto simp: buildRawMemRqst_def basic_def)
    then show ?thesis using False get by (auto simp: buildStandardMemRqst_def) (metis bind_res_simps(2) option.simps(9))+
  qed
qed

lemma erase_at_append: "erase_at (length pre) (pre @ p # ps) = pre @ ps"
  by (simp add: erase_at_def)

text \<open>An operation leaves the queue: a fence is deleted, another operation has its requests in flight.\<close>

lemma fence_leaves:
  assumes "mc_inv ids C" and "rqstQ C = pre @ p # ps"
  shows "mc_inv ids (delete_op p (C\<lparr>rqstQ := pre @ ps, num_fence := n\<rparr>))"
proof -
  have q: "queue_inv C" "p \<notin> snd ` set (outstanding C)" "p \<notin> set (pre @ ps)"
    using assms by (auto simp: mc_inv_def queue_inv_def)
  let ?C = "C\<lparr>rqstQ := pre @ ps, num_fence := n\<rparr>"
  have "flight_inv ids None ?C" using inv_D(1) [OF assms(1)] by simp
  then have "flight_inv ids None (?C\<lparr>mc_ops := (mc_ops ?C)(p := None)\<rparr>)"
    using q(2) by (intro flight_inv_ops) force+
  moreover have "queue_inv (delete_op p (C\<lparr>rqstQ := pre @ ps, num_fence := n\<rparr>))"
    using q assms(2) unfolding queue_inv_def delete_op_def by auto
  ultimately show ?thesis using assms(1) by (simp add: mc_inv_def delete_op_def)
qed

lemma op_leaves:
  assumes "mc_inv ids C" and "rqstQ C = pre @ p # ps" and "mc_ops C p = Some op"
    and "sent_for ids p (C\<lparr>mc_ops := (mc_ops C)(p \<mapsto> op\<lparr>o_SplitRqst := m\<rparr>)\<rparr>) C1"
  shows "mc_inv ids (C1\<lparr>rqstQ := pre @ ps\<rparr>)" and "rqstQ C1 = rqstQ C" and "max_ops C1 = max_ops C"
proof -
  let ?C = "C\<lparr>mc_ops := (mc_ops C)(p \<mapsto> op\<lparr>o_SplitRqst := m\<rparr>)\<rparr>"
  have r: "flight_inv ids None C1" "mc_ops C1 = mc_ops ?C" "mc_nops C1 = mc_nops C" "rqstQ C1 = rqstQ C"
    "hasCache C1 = hasCache C" "lineSize C1 = lineSize C"
    "snd ` set (outstanding C1) \<subseteq> insert p (snd ` set (outstanding C))"
    using assms(4) by (auto simp: sent_for_def same_rest_def)
  show "rqstQ C1 = rqstQ C" "max_ops C1 = max_ops C" using assms(4) by (auto simp: sent_for_def same_rest_def)
  have q: "queue_inv C" by (rule inv_D(2) [OF assms(1)])
  have o: "op_ok (op\<lparr>o_SplitRqst := m\<rparr>)" "p < mc_nops C"
    using q assms(3) by (auto simp: queue_inv_def op_ok_def)
  have d: "distinct (pre @ ps)" "p \<notin> set (pre @ ps)" using q assms(2) by (auto simp: queue_inv_def)
  have c: "snd ` set (outstanding C) \<subseteq> {..<mc_nops C}" "\<forall>r\<in>set (pre @ ps). mc_ops C r \<noteq> None \<and> r \<notin> snd ` set (outstanding C)"
    "\<forall>p op. mc_ops C p = Some op \<longrightarrow> p < mc_nops C \<and> op_ok op"
    using q assms(2) by (simp_all add: queue_inv_def)
  have "snd ` set (outstanding C1) \<subseteq> {..<mc_nops C}" using r(7) c(1) o(2) by blast
  moreover have "\<forall>r\<in>set (pre @ ps). r \<notin> snd ` set (outstanding C1)" using r(7) c(2) d(2) by blast
  ultimately have "queue_inv (C1\<lparr>rqstQ := pre @ ps\<rparr>)"
    unfolding queue_inv_def using c(2,3) r(2,3) o d by simp
  then show "mc_inv ids (C1\<lparr>rqstQ := pre @ ps\<rparr>)" using r inv_D(3) [OF assms(1)] by (simp add: mc_inv_def)
qed

text \<open>
  The scan of the queue never fails, keeps the invariant, and takes an operation out of the
  queue unless it ends the cycle.
\<close>

definition scan_step :: "(nat \<Rightarrow> nat) \<Rightarrow> RevBasicMemCtrl \<Rightarrow> (tick_max \<times> RevBasicMemCtrl) res \<Rightarrow> bool" where
  "scan_step ids C r \<longleftrightarrow> (\<exists>t' C'. r = Inr (t', C') \<and> mc_inv ids C' \<and> max_ops C' = max_ops C \<and>
     (t_ops t' = max_ops C \<or> length (rqstQ C') < length (rqstQ C)))"

lemma isMemOpAvail_ok: "op_ok op \<Longrightarrow> \<exists>av t'. isMemOpAvail (o_Op op) C t = Inr (av, t')"
  by (cases "o_Op op") (auto simp: op_ok_def basic_def)

lemma scan_inv:
  assumes "mc_inv ids C" and inj: "inj ids" and "rqstQ C = pre @ ps" and "i = length pre"
  shows "scan_step ids C (scan_rqst ids i ps t C)"
  using assms(3,4)
proof (induction ps arbitrary: i pre t)
  case Nil
  then show ?case using assms(1) by (simp add: scan_step_def)
next
  case (Cons p ps)
  have mem: "p \<in> set (rqstQ C)" "i < length (rqstQ C)" using Cons.prems by simp_all
  obtain op where op: "mc_ops C p = Some op" "get_op p C = Inr op" "op_ok op" "p \<notin> snd ` set (outstanding C)"
    using queued_op [OF assms(1) mem(1)] by blast
  obtain av t1 where av: "isMemOpAvail (o_Op op) C t = Inr (av, t1)"
    using isMemOpAvail_ok [OF op(3)] by blast
  have next_op: "scan_step ids C (scan_rqst ids (Suc i) ps t1 C)"
    by (rule Cons.IH [of "pre @ [p]"]) (use Cons.prems in simp_all)
  have erase: "erase_at i (rqstQ C) = pre @ ps" using Cons.prems by (simp add: erase_at_append)
  show ?case
  proof (cases "av \<and> o_Op op \<noteq> MemOpFENCE")
    case False
    then show ?thesis
      using next_op op av fence_leaves [OF assms(1) Cons.prems(1)] erase
      by (auto simp: scan_step_def delete_op_def)
  next
    case True
    obtain pend where pend: "isPendingAMO i C = Inr pend" using isPendingAMO_ok [OF assms(1) mem(2)] by blast
    obtain ok C1 where b: "buildStandardMemRqst ids p C = Inr (Some (ok, C1))"
      using build_ok [OF assms(1) mem(1) op(1)] True by blast
    have "basic (o_Op op)" using op(3) True by (simp add: op_ok_def)
    note bi = build_inv [OF inv_D(1) [OF assms(1)] inj op(1) this op(4) b]
    show ?thesis
    proof (cases "pend \<or> \<not> ok")
      case True
      then show ?thesis using \<open>av \<and> _\<close> op av pend b bi assms(1) by (auto simp: scan_step_def Let_def)
    next
      case False
      then obtain m where "sent_for ids p (C\<lparr>mc_ops := (mc_ops C)(p \<mapsto> op\<lparr>o_SplitRqst := m\<rparr>)\<rparr>) C1" using bi by auto
      note l = op_leaves [OF assms(1) Cons.prems(1) op(1) this]
      show ?thesis
        using False \<open>av \<and> _\<close> op av pend b l erase Cons.prems by (simp add: scan_step_def Let_def)
    qed
  qed
qed

lemma processNextRqst_inv: "mc_inv ids C \<Longrightarrow> inj ids \<Longrightarrow> scan_step ids C (processNextRqst ids t C)"
  unfolding processNextRqst_def using scan_inv [of ids C "[]" "rqstQ C" 0 t] by (auto simp: scan_step_def)

lemma tick_loop_inv:
  assumes "mc_inv ids C" and "inj ids" and "length (rqstQ C) < n"
  shows "\<exists>C'. tick_loop ids n t C = Some (Inr C') \<and> mc_inv ids C'"
  using assms(1,3)
proof (induction n arbitrary: t C)
  case (Suc n)
  obtain t' C' where p: "processNextRqst ids t C = Inr (t', C')" "mc_inv ids C'" "max_ops C' = max_ops C"
    "t_ops t' = max_ops C \<or> length (rqstQ C') < length (rqstQ C)"
    using processNextRqst_inv [OF Suc.prems(1) assms(2), of t] by (auto simp: scan_step_def)
  then show ?case using Suc.IH [OF p(2)] Suc.prems(2) by (cases "t_ops t' = max_ops C") auto
qed simp

lemma clockTick_inv:
  assumes "mc_inv ids C" and "inj ids"
  shows "\<exists>C'. clockTick ids C = Some (Inr C') \<and> mc_inv ids C'"
proof -
  have "mc_inv ids (C\<lparr>num_fence := n\<rparr>)" for n using assms(1) by (simp add: mc_inv_def)
  then have t: "mc_inv ids C1 \<Longrightarrow> \<exists>C'. tick_loop ids (Suc (length (rqstQ C1))) tick_zero C1 = Some (Inr C') \<and> mc_inv ids C'" for C1
    using tick_loop_inv [OF _ assms(2)] by blast
  have "mc_inv ids (recordStat FencePending 1 C)" using assms(1) by (simp add: mc_inv_def recordStat_def)
  moreover have "mc_inv ids (if num_fence C > 0 then C\<lparr>num_fence := num_fence C - 1\<rparr> else C)"
    using assms(1) by (simp add: mc_inv_def)
  ultimately show ?thesis using t unfolding clockTick_def Let_def by (auto simp del: tick_loop.simps)
qed


section \<open>Responses\<close>

lemma out_erase_sub: "set (out_erase i m) \<subseteq> set m"
  by (auto simp: out_erase_def)

lemma erase_absent: "i \<notin> fst ` set m \<Longrightarrow> out_erase i m = m"
  unfolding out_erase_def by (subst filter_True) force+

lemma length_filter_erase:
  assumes "distinct (map fst m)" and "(i, p) \<in> set m"
  shows "length (filter P m) = length (filter P (out_erase i m)) + (if P (i, p) then 1 else 0)"
  using assms
proof (induction m)
  case (Cons x m)
  show ?case
  proof (cases "fst x = i")
    case True
    then have "i \<notin> fst ` set m" using Cons.prems(1) by auto
    then have "out_erase i m = m" "x = (i, p)" using Cons.prems(2) by (auto simp: erase_absent intro: rev_image_eqI)
    then show ?thesis by (simp add: out_erase_def)
  next
    case False
    then have "(i, p) \<in> set m" using Cons.prems(2) by auto
    then show ?thesis using Cons.IH Cons.prems(1) False by (cases x) (auto simp: out_erase_def)
  qed
qed simp

lemma count_erase:
  assumes "distinct (map fst m)" and "(i, p) \<in> set m"
  shows "count_kind k f m = count_kind k f (out_erase i m) + (if f p = k then 1 else 0)"
    and "count_ptr q m = count_ptr q (out_erase i m) + (if p = q then 1 else 0)"
  unfolding count_kind_def count_ptr_def by (subst length_filter_erase [OF assms], simp)+

text \<open>An outstanding request and its operation.\<close>

lemma outstanding_op:
  assumes "mc_inv ids C" and "(i, p) \<in> set (outstanding C)"
  obtains op where "mc_ops C p = Some op" and "op_ok op" and "basic (o_Op op)" and "i \<in> set (requests C)"
    and "map_of (outstanding C) i = Some p" and "kind C p = o_Op op"
    and "count_ptr p (outstanding C) \<le> max 1 (unat (o_SplitRqst op))"
proof -
  have f: "flight_inv ids None C" "queue_inv C" using assms(1) by (simp_all add: mc_inv_def)
  have "\<forall>(i, p)\<in>set (outstanding C). \<exists>op. mc_ops C p = Some op \<and> basic (o_Op op) \<and>
      count_ptr p (outstanding C) \<le> max 1 (unat (o_SplitRqst op))"
    using f(1) unfolding flight_inv_def live_None by (elim conjE)
  from bspec [OF this assms(2)] obtain op where
    "mc_ops C p = Some op" "basic (o_Op op)" "count_ptr p (outstanding C) \<le> max 1 (unat (o_SplitRqst op))" by auto
  moreover have "set (requests C) = fst ` set (outstanding C)" using f(1) unfolding flight_inv_def live_None by (elim conjE)
  then have "i \<in> set (requests C)" using assms(2) by force
  moreover have "map_of (outstanding C) i = Some p" using f(1) assms(2) by (simp add: flight_inv_def map_of_is_SomeI)
  ultimately show ?thesis using that f(2) by (simp add: queue_inv_def kind_def)
qed

lemma take_response_inv:
  assumes inv: "mc_inv ids C" and i: "(i, p) \<in> set (outstanding C)" and op: "mc_ops C p = Some op"
  shows "take_response w i C = Inr (p, op, C\<lparr>requests := remove1 i (requests C)\<rparr>)"
    and "flight_inv ids (Some (i, o_Op op)) (C\<lparr>requests := remove1 i (requests C)\<rparr>)"
proof -
  obtain op' where o: "mc_ops C p = Some op'" "i \<in> set (requests C)" "map_of (outstanding C) i = Some p" "kind C p = o_Op op'"
    using outstanding_op [OF inv i] by blast
  show "take_response w i C = Inr (p, op, C\<lparr>requests := remove1 i (requests C)\<rparr>)"
    using o op by (simp add: take_response_def get_op_def)
  have f: "flight_inv ids None C" using inv by (simp add: mc_inv_def)
  then have d: "distinct (map fst (outstanding C))" by (simp add: flight_inv_def)
  note ce = count_erase [OF d i]
  have s: "fst ` set (out_erase i (outstanding C)) = fst ` set (outstanding C) - {i}"
    by (force simp: out_erase_def)
  have p: "\<forall>(j, q)\<in>set (out_erase i (outstanding C)). \<exists>op. mc_ops C q = Some op \<and> basic (o_Op op) \<and>
      count_ptr q (out_erase i (outstanding C)) \<le> max 1 (unat (o_SplitRqst op))"
  proof (intro ballI, clarify)
    fix j q
    assume "(j, q) \<in> set (out_erase i (outstanding C))"
    then have "(j, q) \<in> set (outstanding C)" using out_erase_sub by blast
    then obtain op where "mc_ops C q = Some op" "basic (o_Op op)" "count_ptr q (outstanding C) \<le> max 1 (unat (o_SplitRqst op))"
      using outstanding_op [OF inv] by blast
    then show "\<exists>op. mc_ops C q = Some op \<and> basic (o_Op op) \<and>
        count_ptr q (out_erase i (outstanding C)) \<le> max 1 (unat (o_SplitRqst op))"
      using ce(2) [of q] by auto
  qed
  have k: "kind C p = o_Op op" using op by (simp add: kind_def)
  show "flight_inv ids (Some (i, o_Op op)) (C\<lparr>requests := remove1 i (requests C)\<rparr>)"
  proof -
    have "ctr c C = of_nat (count_kind c (kind C) (out_erase i (outstanding C))) + (if o_Op op = c then 1 else 0)"
      if "basic c" for c
      using f that ce(1) [of c "kind C"] k by (simp add: flight_inv_def)
    moreover have "num_readlock C = 0 \<and> num_writeunlock C = 0 \<and> num_llsc C = 0"
      "fst ` set (outstanding C) \<subseteq> ids ` {..<mc_count C}" "distinct (remove1 i (requests C))"
      "set (remove1 i (requests C)) = fst ` set (out_erase i (outstanding C))"
      using f s by (simp_all add: flight_inv_def set_remove1_eq distinct_remove1)
    ultimately show ?thesis using d p unfolding flight_inv_def by (simp add: live_def)
  qed
qed

text \<open>
  The state while the response to request \<open>i\<close> of operation \<open>p\<close> is handled.
\<close>

definition answering :: "(nat \<Rightarrow> nat) \<Rightarrow> nat \<Rightarrow> MemOp \<Rightarrow> nat \<Rightarrow> RevBasicMemCtrl \<Rightarrow> bool" where
  "answering ids i k p C \<longleftrightarrow> flight_inv ids (Some (i, k)) C \<and> queue_inv C \<and> (hasCache C \<longrightarrow> 0 < lineSize C) \<and>
     (i, p) \<in> set (outstanding C)"

lemma answering_cong [simp]:
  "answering ids i k p (C\<lparr>mc_host := a1\<rparr>) = answering ids i k p C" "answering ids i k p (C\<lparr>mc_hz := a2\<rparr>) = answering ids i k p C"
  "answering ids i k p (C\<lparr>AMOTable := a3\<rparr>) = answering ids i k p C"
  "answering ids i k p (host_store a bs C) = answering ids i k p C" "answering ids i k p (set_hazard h b C) = answering ids i k p C"
  by (simp_all add: answering_def host_store_def set_hazard_def)

lemma set_hazard_outstanding [simp]: "outstanding (set_hazard h b C) = outstanding C"
  by (simp add: set_hazard_def)

lemma answering_start:
  assumes "mc_inv ids C" and "(i, p) \<in> set (outstanding C)" and "mc_ops C p = Some op"
  shows "answering ids i (o_Op op) p (C\<lparr>requests := remove1 i (requests C)\<rparr>)"
  using assms take_response_inv(2) [OF assms] by (simp add: answering_def mc_inv_def)

lemma answering_finish:
  assumes "answering ids i k p C" and "basic k"
  shows "mc_inv ids (finish_response i k C)"
proof -
  let ?C = "finish_response i k C"
  have f: "flight_inv ids (Some (i, k)) C" "queue_inv C" "hasCache C \<longrightarrow> 0 < lineSize C"
    using assms(1) by (simp_all add: answering_def)
  have o: "outstanding ?C = out_erase i (outstanding C)" "mc_ops ?C = mc_ops C" "requests ?C = requests C"
    "mc_count ?C = mc_count C" "kind ?C = kind C"
    by (simp_all add: finish_response_def kind_def fun_eq_iff)
  have ctr: "ctr c ?C = of_nat (count_kind c (kind C) (out_erase i (outstanding C)))" if "basic c" for c
    using f(1) that assms(2) by (simp add: finish_response_def ctr_count_op flight_inv_def live_def)
  have r: "num_readlock ?C = 0 \<and> num_writeunlock ?C = 0 \<and> num_llsc ?C = 0"
    using f(1) assms(2) by (simp add: finish_response_def ctr_count_op flight_inv_def)
  have d: "distinct (map fst (out_erase i (outstanding C)))" using f(1)
    by (simp add: flight_inv_def out_erase_def distinct_map_filter)
  have s: "fst ` set (out_erase i (outstanding C)) \<subseteq> ids ` {..<mc_count C}"
    by (rule subset_trans [OF image_mono [OF out_erase_sub]]) (use f(1) in \<open>simp add: flight_inv_def\<close>)
  have "flight_inv ids None ?C"
    using f(1) ctr r d s unfolding flight_inv_def live_None o by (simp add: live_def)
  moreover have sub: "snd ` set (out_erase i (outstanding C)) \<subseteq> snd ` set (outstanding C)"
    by (rule image_mono [OF out_erase_sub])
  have "queue_inv ?C"
    using f(2) sub subset_trans [OF sub] unfolding queue_inv_def o by (auto simp: finish_response_def simp del: image_subset_iff)
  ultimately show ?thesis using f(3) by (simp add: mc_inv_def finish_response_def)
qed

lemma answering_delete:
  assumes a: "answering ids i k p C" and "count_ptr p (outstanding C) \<le> 1"
  shows "answering ids i k p (delete_op p C)"
proof -
  have f: "flight_inv ids (Some (i, k)) C" "queue_inv C" "(i, p) \<in> set (outstanding C)" using a by (simp_all add: answering_def)
  then have "distinct (map fst (outstanding C))" by (simp add: flight_inv_def)
  from count_erase(2) [OF this f(3), of p] assms(2) have "count_ptr p (out_erase i (outstanding C)) = 0" by simp
  then have "(j, p) \<notin> set (out_erase i (outstanding C))" for j by (auto simp: count_ptr_def filter_empty_conv)
  then have "flight_inv ids (Some (i, k)) (C\<lparr>mc_ops := (mc_ops C)(p := None)\<rparr>)"
    by (intro flight_inv_ops [OF f(1)]) (auto simp: live_def)
  moreover have "p \<notin> set (rqstQ C)" using f(2,3) by (force simp: queue_inv_def)
  then have "queue_inv (delete_op p C)" using f(2) by (auto simp: queue_inv_def delete_op_def)
  ultimately show ?thesis using a by (simp add: answering_def delete_op_def)
qed

lemma amo_modify_host: "amo_modify op b C = Inr C1 \<Longrightarrow> C1 = C\<lparr>mc_host := mc_host C1\<rparr>"
  by (auto simp: amo_modify_def host_store_def split: if_splits option.splits)

lemma answering_AMO:
  assumes a: "answering ids i k p C" and op: "mc_ops C p = Some op" "op_ok op" and "handleAMO p C = Inr C'"
  shows "answering ids i k p C' \<and> outstanding C' = outstanding C"
proof -
  have get: "get_op p C = Inr op" using op by (simp add: get_op_def)
  show ?thesis
  proof (cases "list_ex (amo_entry_of (o_Addr op) p) (AMOTable C)")
    case False
    then show ?thesis using assms(4) a by (simp add: handleAMO_def get)
  next
    case True
    then obtain b h C1 where t: "o_target op = Some b" "o_hazard op = Some h" "amo_modify op b C = Inr C1"
      using assms(4) by (auto simp: handleAMO_def get performAMO_def split: option.splits)
    have h: "\<exists>m. C1 = C\<lparr>mc_host := m\<rparr>" using amo_modify_host [OF t(3)] by metis
    let ?op = "(new_RevMemOp (o_Hart op) (o_Addr op) (o_PAddr op) (o_Size op) (host_bytes C1 b (unat (o_Size op)))
      None 0 MemOpWRITE (o_flags op))\<lparr>o_hazard := Some h\<rparr>"
    have ok: "op_ok ?op" using op(2) by (simp add: op_ok_def new_RevMemOp_def basic_def host_bytes_def)
    obtain q C2 where n: "new_op ?op C1 = (q, C2)" by fastforce
    have "answering ids i k p C1" using h a by auto
    then have c: "flight_inv ids (Some (i, k)) C1" "queue_inv C1" by (simp_all add: answering_def)
    note new = new_op_inv [OF c ok n]
    have "queue_inv (C2\<lparr>rqstQ := rqstQ C2 @ [q]\<rparr>)" by (rule queue_push) (use new in simp_all)
    moreover have "outstanding C2 = outstanding C" "hasCache C2 = hasCache C" "lineSize C2 = lineSize C"
      using h n by (auto simp: new_op_def)
    moreover have "C' = C2\<lparr>mc_hz := mc_hz C', rqstQ := rqstQ C2 @ [q], AMOTable := AMOTable C'\<rparr>"
      using assms(4) True t n by (auto simp: handleAMO_def performAMO_def get Let_def set_hazard_def)
    then obtain z tb where "C' = C2\<lparr>mc_hz := z, rqstQ := rqstQ C2 @ [q], AMOTable := tb\<rparr>" by blast
    ultimately show ?thesis using new(1) a by (simp add: answering_def queue_inv_def)
  qed
qed

text \<open>A result that is not one of the controller's fatal errors.\<close>

definition not_fatal :: "'a res \<Rightarrow> bool" where
  "not_fatal r \<longleftrightarrow> (\<forall>w. r \<noteq> Inl (Fatal_MemCtrl w))"

lemma not_fatal_bind: "not_fatal r \<Longrightarrow> (\<And>x. r = Inr x \<Longrightarrow> not_fatal (f x)) \<Longrightarrow> not_fatal (bind_res r f)"
  by (cases r) (simp_all add: not_fatal_def)

lemma not_fatal_basic [simp]:
  "not_fatal (Inr x)" "not_fatal (Inl UB_NullDeref)" "not_fatal (slice xs i n)" "not_fatal (amo_buffer bs)" "not_fatal (get_op p C)"
  "not_fatal (handleFlagResp op C)" "amo_select fl = Some f \<Longrightarrow> not_fatal (f a b)"
  by (auto simp: not_fatal_def slice_def amo_buffer_def get_op_def handleFlagResp_def Let_def amo_select_def s_add_def
      split: option.splits if_splits)

lemma amo_modify_not_fatal: "not_fatal (amo_modify op a C)"
  by (auto simp: amo_modify_def intro!: not_fatal_bind split: option.splits)

lemma handleAMO_not_fatal: "not_fatal (handleAMO p C)"
  by (auto simp: handleAMO_def performAMO_def Let_def amo_modify_not_fatal intro!: not_fatal_bind split: option.splits prod.splits)

lemma handleFlagResp_host: "handleFlagResp op C = Inr C1 \<Longrightarrow> C1 = C\<lparr>mc_host := mc_host C1\<rparr>"
  by (auto simp: handleFlagResp_def host_store_def Let_def split: if_splits option.splits)

lemma complete_read_inv:
  assumes a: "answering ids i k p C" and op: "mc_ops C p = Some op" "op_ok op" and c: "count_ptr p (outstanding C) \<le> 1"
  shows "not_fatal (complete_read strict amo p op C)"
    and "complete_read strict amo p op C = Inr C' \<Longrightarrow> answering ids i k p C'"
proof -
  show "not_fatal (complete_read strict amo p op C)"
    by (auto simp: complete_read_def handleAMO_not_fatal intro!: not_fatal_bind split: option.splits)
  assume r: "complete_read strict amo p op C = Inr C'"
  then obtain C1 where f: "handleFlagResp op C = Inr C1" by (auto simp: complete_read_def)
  have C1: "answering ids i k p C1" "mc_ops C1 p = Some op" "outstanding C1 = outstanding C"
    by (subst handleFlagResp_host [OF f], use a op in simp)+
  obtain C2 where am: "(if amo then handleAMO p C1 else Inr C1) = Inr C2"
    using r f by (auto simp: complete_read_def)
  have C2: "answering ids i k p C2" "outstanding C2 = outstanding C"
    using answering_AMO [OF C1(1,2) op(2)] am C1 by (auto split: if_splits)
  have "answering ids i k p (delete_op p (set_hazard h False C2))" "answering ids i k p (delete_op p C2)" for h
    using C2 c by (simp_all add: answering_delete)
  then show "answering ids i k p C'"
    using r f am by (auto simp: complete_read_def split: option.splits if_splits)
qed

lemma getNumSplit_count: "getNumSplitRqsts p C = count_ptr p (outstanding C)"
  by (simp add: getNumSplitRqsts_def count_ptr_def)

lemma handleReadResp_inv:
  assumes inv: "mc_inv ids C" and i: "(ev_id ev, p) \<in> set (outstanding C)" and k: "kind C p = MemOpREAD"
  shows "not_fatal (handleReadResp ev C)" and "handleReadResp ev C = Inr C' \<Longrightarrow> mc_inv ids C'"
proof -
  obtain op where op: "mc_ops C p = Some op" "op_ok op" "kind C p = o_Op op"
    "count_ptr p (outstanding C) \<le> max 1 (unat (o_SplitRqst op))"
    using outstanding_op [OF inv i] by blast
  let ?C = "C\<lparr>requests := remove1 (ev_id ev) (requests C)\<rparr>"
  note t = take_response_inv(1) [OF inv i op(1)]
  have a: "answering ids (ev_id ev) MemOpREAD p ?C" using answering_start [OF inv i op(1)] op(3) k by simp
  have single: "count_ptr p (outstanding C) \<le> Suc 0" if "\<not> 1 < o_SplitRqst op" using op(4) that
    by (simp add: not_less word_le_nat_alt)
  have host: "answering ids (ev_id ev) MemOpREAD p (host_store x d ?C)" "mc_ops (host_store x d ?C) p = Some op"
    "outstanding (host_store x d ?C) = outstanding C" for x d using a op by (simp_all add: host_store_def)
  note cr = complete_read_inv [OF host(1,2) op(2), unfolded host(3)]
  show "not_fatal (handleReadResp ev C)"
    unfolding handleReadResp_def t bind_res_simps prod.case
    by (auto simp: Let_def getNumSplit_count host cr(1) single split: option.splits intro!: not_fatal_bind)
  have fin: "answering ids (ev_id ev) MemOpREAD p C3 \<Longrightarrow> mc_inv ids (finish_response (ev_id ev) MemOpREAD C3)" for C3
    by (rule answering_finish) (simp_all add: basic_def)
  assume "handleReadResp ev C = Inr C'"
  then show "mc_inv ids C'"
    unfolding handleReadResp_def t bind_res_simps prod.case
    by (auto simp: Let_def getNumSplit_count host single split: option.splits if_splits
        intro!: fin host dest!: cr(2) [rotated])
qed

lemma drop_response_inv:
  assumes inv: "mc_inv ids C" and i: "(i, p) \<in> set (outstanding C)" and k: "kind C p = k" "basic k"
  shows "\<exists>C'. drop_response w k i C = Inr C' \<and> mc_inv ids C'"
proof -
  obtain op where op: "mc_ops C p = Some op" "kind C p = o_Op op"
    "count_ptr p (outstanding C) \<le> max 1 (unat (o_SplitRqst op))"
    using outstanding_op [OF inv i] by blast
  note t = take_response_inv(1) [OF inv i op(1)]
  have a: "answering ids i k p (C\<lparr>requests := remove1 i (requests C)\<rparr>)" using answering_start [OF inv i op(1)] op(2) k by simp
  have "o_SplitRqst op \<le> 1 \<Longrightarrow> count_ptr p (outstanding C) \<le> 1" using op(3) by (simp add: word_le_nat_alt)
  then show ?thesis
    using answering_finish [OF a k(2)] answering_finish [OF answering_delete [OF a] k(2)]
    by (auto simp: drop_response_def t Let_def getNumSplit_count)
qed

lemma handleWriteResp_inv:
  assumes inv: "mc_inv ids C" and i: "(i, p) \<in> set (outstanding C)" and k: "kind C p = MemOpWRITE"
  shows "\<exists>C'. handleWriteResp i C = Inr C' \<and> mc_inv ids C'"
proof -
  obtain op where op: "mc_ops C p = Some op" "kind C p = o_Op op"
    "count_ptr p (outstanding C) \<le> max 1 (unat (o_SplitRqst op))"
    using outstanding_op [OF inv i] by blast
  note t = take_response_inv(1) [OF inv i op(1)]
  have a: "answering ids i MemOpWRITE p (C\<lparr>requests := remove1 i (requests C), AMOTable := tb\<rparr>)" for tb
    using answering_start [OF inv i op(1)] op(2) k by simp
  have h: "answering ids i MemOpWRITE p (set_hazard h False (C\<lparr>requests := remove1 i (requests C), AMOTable := tb\<rparr>))" for h tb
    using a by simp
  have b: "basic MemOpWRITE" by (simp add: basic_def)
  have "o_SplitRqst op \<le> 1 \<Longrightarrow> count_ptr p (outstanding C) \<le> 1" using op(3) by (simp add: word_le_nat_alt)
  then show ?thesis
    using answering_finish [OF a b] answering_finish [OF answering_delete [OF a] b] answering_finish [OF answering_delete [OF h] b]
    by (auto simp: handleWriteResp_def t Let_def getNumSplit_count set_hazard_def split: option.split)
qed


section \<open>Reachable states\<close>

text \<open>
  The steps of the controller: the calls for reads, writes, flushes, atomic operations, custom operations and fences, the
  clock, and a response of the memory hierarchy to a request that is in flight, by the handler of its kind. The calls
  \<open>sendREADLOCKRequest\<close>, \<open>sendWRITELOCKRequest\<close>, \<open>sendLOADLINKRequest\<close> and \<open>sendSTORECONDRequest\<close> are not among them: the
  controller does not count their requests down (\<open>readlock_slot_leaks\<close> below), so the invariant fails after the first
  response to one of them. \<open>handleInvResp\<close> answers no request that the controller sends.
\<close>

inductive mc_step :: "(nat \<Rightarrow> nat) \<Rightarrow> RevBasicMemCtrl \<Rightarrow> RevBasicMemCtrl \<Rightarrow> bool" for ids where
  do_flush: "unat a + unat sz \<le> 2 ^ 63 \<Longrightarrow> mc_step ids C (sendFLUSHRequest h a pa sz v fl C)"
| do_read: "unat a + unat sz \<le> 2 ^ 63 \<Longrightarrow> mc_step ids C (sendREADRequest h a pa sz tg hz fl C)"
| do_write: "unat a + unat sz \<le> 2 ^ 63 \<Longrightarrow> unat sz \<le> length bs \<Longrightarrow> mc_step ids C (sendWRITERequest h a pa sz bs fl C)"
| do_amo: "unat a + unat sz \<le> 2 ^ 63 \<Longrightarrow> mc_step ids C (sendAMORequest h a pa sz bs tg hz fl C)"
| customread: "unat a + unat sz \<le> 2 ^ 63 \<Longrightarrow> mc_step ids C (sendCUSTOMREADRequest h a pa sz tg opc fl C)"
| customwrite: "unat a + unat sz \<le> 2 ^ 63 \<Longrightarrow> mc_step ids C (sendCUSTOMWRITERequest h a pa sz bs opc fl C)"
| do_fence: "mc_step ids C (sendFENCE h C)"
| tick: "clockTick ids C = Some (Inr C') \<Longrightarrow> mc_step ids C C'"
| read_resp: "(ev_id ev, p) \<in> set (outstanding C) \<Longrightarrow> kind C p = MemOpREAD \<Longrightarrow>
    handleReadResp ev C = Inr C' \<Longrightarrow> mc_step ids C C'"
| write_resp: "(i, p) \<in> set (outstanding C) \<Longrightarrow> kind C p = MemOpWRITE \<Longrightarrow>
    handleWriteResp i C = Inr C' \<Longrightarrow> mc_step ids C C'"
| flush_resp: "(i, p) \<in> set (outstanding C) \<Longrightarrow> kind C p = MemOpFLUSH \<Longrightarrow>
    handleFlushResp i C = Inr C' \<Longrightarrow> mc_step ids C C'"
| custom_resp: "(i, p) \<in> set (outstanding C) \<Longrightarrow> kind C p = MemOpCUSTOM \<Longrightarrow>
    handleCustomResp i C = Inr C' \<Longrightarrow> mc_step ids C C'"

inductive mc_reach :: "(nat \<Rightarrow> nat) \<Rightarrow> RevBasicMemCtrl \<Rightarrow> RevBasicMemCtrl \<Rightarrow> bool" for ids C0 where
  start: "mc_reach ids C0 C0"
| step: "mc_reach ids C0 C \<Longrightarrow> mc_step ids C C' \<Longrightarrow> mc_reach ids C0 C'"

lemma mc_step_inv:
  assumes "mc_step ids C C'" and "inj ids" and "mc_inv ids C"
  shows "mc_inv ids C'"
  using assms
proof (induction rule: mc_step.induct)
  case (do_fence C h)
  then show ?case using send_inv(6) [of ids C 0 0] by simp
next
  case (tick C C')
  then show ?case using clockTick_inv by fastforce
next
  case (read_resp ev p C C')
  then show ?case using handleReadResp_inv(2) by blast
next
  case (write_resp i p C C')
  then show ?case using handleWriteResp_inv by fastforce
next
  case (flush_resp i p C C')
  then show ?case using drop_response_inv [of ids C i p MemOpFLUSH "''found unknown FlushResp''"]
    by (auto simp: handleFlushResp_def basic_def)
next
  case (custom_resp i p C C')
  then show ?case using drop_response_inv [of ids C i p MemOpCUSTOM "''found unknown CustomResp''"]
    by (auto simp: handleCustomResp_def basic_def)
qed (simp_all add: send_inv sendAMO_inv)

lemma init_inv: "mc_inv ids (init_ctrl line (new_RevBasicMemCtrl ml ms mf mll mrl mwu mc mo host hz))"
proof -
  have "ctr k (init_ctrl line (new_RevBasicMemCtrl ml ms mf mll mrl mwu mc mo host hz)) = 0" for k
    by (cases k) (simp_all add: init_ctrl_def new_RevBasicMemCtrl_def)
  then show ?thesis
    by (simp add: mc_inv_def flight_inv_def queue_inv_def init_ctrl_def new_RevBasicMemCtrl_def count_kind_def)
qed

lemma mc_reach_inv:
  "mc_reach ids C0 C \<Longrightarrow> inj ids \<Longrightarrow> mc_inv ids C0 \<Longrightarrow> mc_inv ids C"
  by (induction rule: mc_reach.induct) (auto intro: mc_step_inv)

text \<open>
  C13. In every state the memory controller reaches from its construction by any sequence of calls for reads, writes, flushes, atomic
  operations, custom operations and fences, clock cycles and responses in any order (\<open>mc_step\<close>; not after calls for locked or
  linked accesses, whose counters the code gets wrong): the requests in flight are pairwise different, each belongs to an
  operation that is still allocated, and the counters of reads, writes, flushes and custom requests are the
  numbers of requests in flight of that kind.
\<close>

theorem mc_reachable_counts:
  assumes "inj ids" and "mc_reach ids (init_ctrl line (new_RevBasicMemCtrl ml ms mf mll mrl mwu mc mo host hz)) C"
  shows "distinct (requests C) \<and> set (requests C) = fst ` set (outstanding C) \<and>
    (\<forall>(i, p) \<in> set (outstanding C). mc_ops C p \<noteq> None) \<and>
    num_read C = of_nat (count_kind MemOpREAD (kind C) (outstanding C)) \<and>
    num_write C = of_nat (count_kind MemOpWRITE (kind C) (outstanding C)) \<and>
    num_flush C = of_nat (count_kind MemOpFLUSH (kind C) (outstanding C)) \<and>
    num_custom C = of_nat (count_kind MemOpCUSTOM (kind C) (outstanding C))"
proof -
  have inv: "mc_inv ids C" by (rule mc_reach_inv [OF assms(2,1) init_inv])
  then have f: "distinct (requests C)" "set (requests C) = fst ` set (outstanding C)"
    "basic k \<Longrightarrow> ctr k C = of_nat (count_kind k (kind C) (outstanding C))" for k
    by (simp_all add: mc_inv_def flight_inv_def)
  have "mc_ops C p \<noteq> None" if "(i, p) \<in> set (outstanding C)" for i p
    using outstanding_op [OF inv that] by auto
  then show ?thesis using f(1,2) f(3) [of MemOpREAD] f(3) [of MemOpWRITE] f(3) [of MemOpFLUSH] f(3) [of MemOpCUSTOM]
    by (auto simp: basic_def)
qed

text \<open>
  C15. In every state reached by calls for reads, writes, flushes, atomic operations, custom operations and fences, clock cycles
  and responses (\<open>mc_step\<close>; no locked or linked accesses) a clock cycle of the controller returns normally: the loop over the queue ends,
  no operation is of an unknown type, no request fails to be built and no released operation is used.
\<close>

theorem mc_tick_returns:
  assumes "inj ids" and "mc_reach ids (init_ctrl line (new_RevBasicMemCtrl ml ms mf mll mrl mwu mc mo host hz)) C"
  shows "\<exists>C'. clockTick ids C = Some (Inr C')"
  using clockTick_inv [OF mc_reach_inv [OF assms(2,1) init_inv] assms(1)] by blast

text \<open>
  In every reachable state the response to any request in flight is accepted: the handlers of write, flush and
  custom responses return normally, and the handler of read responses does not stop with a fatal error.
  A response that was not requested is refused as fatal.
\<close>

theorem mc_responses_accepted:
  assumes "inj ids" and "mc_reach ids (init_ctrl line (new_RevBasicMemCtrl ml ms mf mll mrl mwu mc mo host hz)) C"
  shows "if i \<in> set (requests C) then
      \<exists>p. (i, p) \<in> set (outstanding C) \<and>
        (case kind C p of
           MemOpREAD \<Rightarrow> \<forall>a n d. not_fatal (handleReadResp \<lparr>ev_id = i, ev_pAddr = a, ev_size = n, ev_data = d\<rparr> C)
         | MemOpWRITE \<Rightarrow> \<exists>C'. handleWriteResp i C = Inr C'
         | MemOpFLUSH \<Rightarrow> \<exists>C'. handleFlushResp i C = Inr C'
         | MemOpCUSTOM \<Rightarrow> \<exists>C'. handleCustomResp i C = Inr C'
         | _ \<Rightarrow> False)
    else handleWriteResp i C = Inl (Fatal_MemCtrl ''found unknown WriteResp'') \<and>
      handleFlushResp i C = Inl (Fatal_MemCtrl ''found unknown FlushResp'') \<and>
      handleCustomResp i C = Inl (Fatal_MemCtrl ''found unknown CustomResp'') \<and>
      (\<forall>a n d. handleReadResp \<lparr>ev_id = i, ev_pAddr = a, ev_size = n, ev_data = d\<rparr> C =
         Inl (Fatal_MemCtrl ''found unknown ReadResp''))"
proof (cases "i \<in> set (requests C)")
  case False
  then show ?thesis
    by (simp add: handleWriteResp_def handleFlushResp_def handleCustomResp_def handleReadResp_def drop_response_def
        take_response_def)
next
  case True
  have inv: "mc_inv ids C" by (rule mc_reach_inv [OF assms(2,1) init_inv])
  then have "set (requests C) = fst ` set (outstanding C)" by (simp add: mc_inv_def flight_inv_def)
  then obtain p where p: "(i, p) \<in> set (outstanding C)" using True by auto
  have b: "basic (kind C p)" using outstanding_op [OF inv p] by metis
  have r: "kind C p = MemOpREAD \<Longrightarrow> not_fatal (handleReadResp \<lparr>ev_id = i, ev_pAddr = a, ev_size = n, ev_data = d\<rparr> C)" for a n d
    by (rule handleReadResp_inv(1) [OF inv]) (simp_all add: p)
  have w: "kind C p = MemOpWRITE \<Longrightarrow> \<exists>C'. handleWriteResp i C = Inr C'"
    using handleWriteResp_inv [OF inv p] by blast
  have d: "\<exists>C'. drop_response w (kind C p) i C = Inr C'" for w
    using drop_response_inv [OF inv p refl b] by blast
  show ?thesis using True p b r w d
    by (auto simp: basic_def handleFlushResp_def handleCustomResp_def intro!: exI [of _ p])
qed


section \<open>The fence\<close>

lemma count_kind_split:
  assumes "\<And>i p. (i, p) \<in> set m \<Longrightarrow> basic (f p)"
  shows "length m = count_kind MemOpREAD f m + count_kind MemOpWRITE f m + count_kind MemOpCUSTOM f m + count_kind MemOpFLUSH f m"
  using assms by (induction m) (fastforce simp: count_kind_def basic_def)+

lemma length_filter_full: "length (filter (\<lambda>(_, p). f p = k) m) = length m \<longleftrightarrow> (\<forall>(i, p) \<in> set m. f p = k)"
proof (induction m)
  case (Cons x m)
  have "length (filter (\<lambda>(_, p). f p = k) m) \<noteq> Suc (length m)"
    using length_filter_le [of "\<lambda>(_, p). f p = k" m] by linarith
  then show ?case using Cons.IH by (cases x) auto
qed simp

lemma busy_count_zero:
  assumes inv: "mc_inv ids C" and small: "length (outstanding C) < 2 ^ 64"
  shows "busy_count C = 0 \<longleftrightarrow> (\<forall>(i, p) \<in> set (outstanding C). kind C p = MemOpFLUSH)"
proof -
  let ?c = "\<lambda>k. count_kind k (kind C) (outstanding C)"
  have ctr: "basic k \<Longrightarrow> ctr k C = of_nat (?c k)" "num_readlock C = 0 \<and> num_writeunlock C = 0 \<and> num_llsc C = 0" for k
    using inv by (simp_all add: mc_inv_def flight_inv_def)
  have bs: "basic (kind C p)" if "(i, p) \<in> set (outstanding C)" for i p using outstanding_op [OF inv that] by metis
  let ?n = "?c MemOpREAD + ?c MemOpWRITE + ?c MemOpCUSTOM"
  have len: "length (outstanding C) = ?n + ?c MemOpFLUSH" by (rule count_kind_split) (rule bs)
  have "busy_count C = of_nat ?n"
    using ctr(1) [of MemOpREAD] ctr(1) [of MemOpWRITE] ctr(1) [of MemOpCUSTOM] ctr(2) by (simp add: busy_count_def basic_def)
  then have "unat (busy_count C) = ?n" using len small by (simp only: unat_of_nat_u64)
  then have "busy_count C = 0 \<longleftrightarrow> ?n = 0" by (metis unat_eq_0)
  also have "\<dots> \<longleftrightarrow> ?c MemOpFLUSH = length (outstanding C)" using len by auto
  also have "\<dots> \<longleftrightarrow> (\<forall>(i, p) \<in> set (outstanding C). kind C p = MemOpFLUSH)"
    unfolding count_kind_def by (rule length_filter_full)
  finally show ?thesis .
qed

text \<open>
  C17. A fence holds later operations back: while a fence is pending and a read, write or custom request
  is in flight, a clock cycle sends nothing and changes nothing but the statistics. When no such request is
  left, the cycle takes the fence away and serves the queue.
\<close>

theorem mc_fence_orders:
  assumes "inj ids" and "mc_reach ids (init_ctrl line (new_RevBasicMemCtrl ml ms mf mll mrl mwu mc mo host hz)) C"
    and "0 < num_fence C" and "length (outstanding C) < 2 ^ 64"
  shows "clockTick ids C =
    (if \<exists>(i, p) \<in> set (outstanding C). kind C p \<noteq> MemOpFLUSH then Some (Inr (C\<lparr>mc_stats := mc_stats C @ [(FencePending, 1)]\<rparr>))
     else tick_loop ids (Suc (length (rqstQ C))) tick_zero (C\<lparr>num_fence := num_fence C - 1\<rparr>))"
proof -
  have "busy_count C = 0 \<longleftrightarrow> \<not> (\<exists>(i, p) \<in> set (outstanding C). kind C p \<noteq> MemOpFLUSH)"
    using busy_count_zero [OF mc_reach_inv [OF assms(2,1) init_inv] assms(4)] by auto
  then show ?thesis using assms(3) by (auto simp: clockTick_def recordStat_def Let_def simp del: tick_loop.simps)
qed


section \<open>Delivery of read data\<close>

text \<open>
  A response of a memory with contents \<open>rmem\<close> to a piece of a read operation: the piece starts at an offset
  below 256, the range of the handler's offset, and lies within the operation.
\<close>

definition resp_off :: "RevMemOp \<Rightarrow> ReadResp \<Rightarrow> nat" where
  "resp_off op ev = unat (ev_pAddr ev - o_Addr op)"

definition mem_resp :: "(u64 \<Rightarrow> u8) \<Rightarrow> RevMemOp \<Rightarrow> ReadResp \<Rightarrow> bool" where
  "mem_resp rmem op ev \<longleftrightarrow> resp_off op ev < 256 \<and> resp_off op ev + unat (ev_size ev) \<le> unat (o_Size op) \<and>
     ev_data ev = map (\<lambda>j. rmem (ev_pAddr ev + of_nat j)) [0..<unat (ev_size ev)]"

lemma ucast_u8_small: "unat (y :: u32) < 256 \<Longrightarrow> unat (ucast y :: u8) = unat y"
  by (simp add: unsigned_ucast_eq take_bit_nat_eq_self)

lemma resp_start:
  assumes "resp_off op ev < 256"
  shows "(ucast (ucast (ucast (ev_pAddr ev - o_Addr op) :: u32) :: u8) :: u64) = of_nat (resp_off op ev)"
proof -
  have "unat (ucast (ev_pAddr ev - o_Addr op) :: u32) = resp_off op ev"
    using assms unfolding resp_off_def by (simp add: unsigned_ucast_eq take_bit_nat_eq_self)
  moreover from this have "unat (ucast (ucast (ev_pAddr ev - o_Addr op) :: u32) :: u8) = unat (ucast (ev_pAddr ev - o_Addr op) :: u32)"
    by (intro ucast_u8_small) (use assms in simp)
  ultimately have "unat (ucast (ucast (ev_pAddr ev - o_Addr op) :: u32) :: u8) = resp_off op ev" by simp
  then show ?thesis by (metis of_nat_unat)
qed

lemma deliver_byte:
  assumes "mem_resp rmem op ev"
  shows "vstore (t + of_nat (resp_off op ev)) (ev_data ev) f v =
    (if resp_off op ev \<le> unat (v - t) \<and> unat (v - t) < resp_off op ev + unat (ev_size ev)
     then rmem (o_Addr op + (v - t)) else f v)"
proof -
  let ?o = "resp_off op ev" and ?w = "v - t"
  have m: "?o < 256" "?o + unat (ev_size ev) \<le> unat (o_Size op)"
    "ev_data ev = map (\<lambda>j. rmem (ev_pAddr ev + of_nat j)) [0..<unat (ev_size ev)]"
    using assms by (simp_all add: mem_resp_def)
  have n: "unat (o_Size op) < 2 ^ 32" using unsigned_less [of "o_Size op"] by simp
  have o: "unat (of_nat ?o :: u64) = ?o" using m(1) by (simp add: unat_of_nat_u64)
  have pa: "ev_pAddr ev = o_Addr op + of_nat ?o" by (simp add: resp_off_def)
  have split: "v - (t + of_nat ?o) = ?w - of_nat ?o" by simp
  show ?thesis
  proof (cases "?o \<le> unat ?w")
    case True
    then have s: "unat (?w - of_nat ?o) = unat ?w - ?o" using o by (subst unat_sub) (simp_all add: word_le_nat_alt)
    have "of_nat (unat ?w - ?o) = ?w - of_nat ?o" using s by (metis of_nat_unat ucast_id)
    then have "ev_pAddr ev + of_nat (unat ?w - ?o) = o_Addr op + ?w" unfolding pa by simp
    then have "unat ?w < ?o + unat (ev_size ev) \<Longrightarrow> ev_data ev ! (unat ?w - ?o) = rmem (o_Addr op + ?w)"
      using True m(3) by (simp only: nth_map_upt add_0 diff_zero less_diff_conv2 add.commute)
    then show ?thesis using True m(3) s by (auto simp: vstore_def split)
  next
    case False
    then have "unat (?w - of_nat ?o) = 2 ^ 64 + unat ?w - ?o"
      using o by (simp add: unat_sub_if' word_le_nat_alt)
    then show ?thesis using False m n by (auto simp: vstore_def split)
  qed
qed

text \<open>
  The extension the flags of a read ask for, which the handler applies to the four or eight bytes at the target. A sign
  extension from bit 31 of four or from bit 63 of eight bytes, and a zero extension of four bytes to 32 bits, change nothing; the zero
  extension to 64 bits keeps the low 63 bits, so it clears the top bit of the eighth byte.
\<close>

definition flag_byte :: "RevMemOp \<Rightarrow> nat \<Rightarrow> u8 \<Rightarrow> u8" where
  "flag_byte op j b =
     (if o_flags op AND (F_SEXT32 OR F_SEXT64 OR F_ZEXT32) = 0 \<and> o_flags op AND F_ZEXT64 \<noteq> 0 \<and> j = 7
      then b AND 0x7F else b)"

lemma and_or_zero: "x AND (y OR z) = 0 \<longleftrightarrow> x AND y = 0 \<and> x AND z = 0" for x y z :: "'a::len word"
  by (simp add: bit.conj_disj_distrib or_eq_0_iff)

lemma host_store_same:
  assumes "n < 2 ^ 64"
  shows "host_store a (host_bytes C a n) C = C"
proof -
  have "vstore a (host_bytes C a n) (mc_host C) v = mc_host C v" for v by (simp add: vstore_def host_bytes_def)
  then have "vstore a (host_bytes C a n) (mc_host C) = mc_host C" by blast
  then show ?thesis by (simp add: host_store_def)
qed

lemma zext64_bytes:
  assumes "length bs = 8"
  shows "le_bytes 8 ((le_word bs :: u64) AND (push_bit 63 1 - 1)) = bs[7 := bs ! 7 AND 0x7F]"
proof (rule nth_equalityI)
  show "length (le_bytes 8 ((le_word bs :: u64) AND (push_bit 63 1 - 1))) = length (bs[7 := bs ! 7 AND 0x7F])"
    using assms by simp
next
  fix i assume i: "i < length (le_bytes 8 ((le_word bs :: u64) AND (push_bit 63 1 - 1)))"
  have m: "(push_bit 63 1 - 1 :: u64) = mask 63" by (simp add: mask_eq_decr_exp push_bit_eq_mult)
  have k: "(0x7F :: u8) = mask 7" by (simp add: mask_eq_decr_exp)
  have "(ucast (drop_bit (8 * i) ((le_word bs :: u64) AND mask 63)) :: u8) = bs[7 := bs ! 7 AND mask 7] ! i"
  proof (rule bit_word_eqI)
    fix j assume "j < LENGTH(8)"
    then show "bit (ucast (drop_bit (8 * i) ((le_word bs :: u64) AND mask 63)) :: u8) j = bit (bs[7 := bs ! 7 AND mask 7] ! i) j"
      using i assms by (auto simp: bit_simps bit_le_word nth_list_update)
  qed
  then show "le_bytes 8 ((le_word bs :: u64) AND (push_bit 63 1 - 1)) ! i = bs[7 := bs ! 7 AND 0x7F] ! i"
    using i unfolding m k by (simp add: le_bytes_def)
qed

lemma handleFlagResp_eq:
  assumes "o_target op = Some t"
  shows "handleFlagResp op C = Inr (C\<lparr>mc_host := \<lambda>v. flag_byte op (unat (v - t)) (mc_host C v)\<rparr>)"
proof -
  let ?v4 = "le_word (host_bytes C t 4) :: u32" and ?v8 = "le_word (host_bytes C t 8) :: u64"
  have l: "length (host_bytes C t n) = n" for n by (simp add: host_bytes_def)
  have s32: "(ucast ((ucast x XOR push_bit 31 1) - push_bit 31 1 :: u64) :: u32) = x"
    "(ucast (ucast x AND (push_bit 32 1 - 1) :: u64) :: u32) = x" for x :: u32
  proof -
    have "(ucast x AND (push_bit 32 1 - 1) :: u64) = ucast x AND mask 32" by (simp add: mask_eq_decr_exp push_bit_eq_mult)
    also have "(ucast \<dots> :: u32) = x" by (rule bit_word_eqI) (auto simp: bit_simps)
    finally show "(ucast (ucast x AND (push_bit 32 1 - 1) :: u64) :: u32) = x" .
    have "(ucast x XOR push_bit 31 1) - push_bit 31 1 = sext 32 (ucast x :: u64)"
    proof -
      have "\<not> bit (ucast x :: u64) i" if "32 \<le> i" for i using that by (auto simp: bit_simps dest: bit_imp_le_length)
      then show ?thesis using xor_minus_eq_sext [of 32 "ucast x :: u64"] by simp
    qed
    moreover have "(ucast (sext 32 (ucast x :: u64)) :: u32) = x" by (rule bit_word_eqI) (auto simp: bit_simps bit_sext)
    ultimately show "(ucast ((ucast x XOR push_bit 31 1) - push_bit 31 1 :: u64) :: u32) = x" by simp
  qed
  have s64: "(x XOR push_bit 63 1) - push_bit 63 1 = x" for x :: u64
  proof -
    have "\<not> bit x i" if "64 \<le> i" for i using that by (auto dest: bit_imp_le_length)
    then show ?thesis using xor_minus_eq_sext [of 64 x] by simp
  qed
  have b4: "le_bytes 4 ?v4 = host_bytes C t 4" and b8: "le_bytes 8 ?v8 = host_bytes C t 8"
    by (rule le_bytes_le_word; simp add: l)+
  have z: "host_store t (le_bytes 8 (?v8 AND (push_bit 63 1 - 1))) C =
      C\<lparr>mc_host := \<lambda>v. if unat (v - t) = 7 then mc_host C v AND 0x7F else mc_host C v\<rparr>"
  proof -
    have "vstore t ((host_bytes C t 8)[7 := host_bytes C t 8 ! 7 AND 0x7F]) (mc_host C) v =
        (if unat (v - t) = 7 then mc_host C v AND 0x7F else mc_host C v)" for v
    proof -
      have "unat (v - t) = 7 \<Longrightarrow> t + 7 = v"
        by (metis add.commute diff_add_cancel of_nat_numeral of_nat_unat ucast_id)
      then show ?thesis by (auto simp: vstore_def host_bytes_def nth_list_update)
    qed
    then show ?thesis unfolding zext64_bytes [OF l] host_store_def by (simp add: fun_eq_iff cong: if_cong)
  qed
  show ?thesis
    unfolding handleFlagResp_def assms option.case Let_def s32 s64 b4 b8 z and_or_zero flag_byte_def
    by (auto simp: host_store_same)
qed

text \<open>A read of a register: it has a target and a hazard and is not the read of an atomic operation. The flags may ask for an extension.\<close>

definition plain_read :: "nat \<Rightarrow> RevMemOp \<Rightarrow> u64 \<Rightarrow> nat \<Rightarrow> RevBasicMemCtrl \<Rightarrow> bool" where
  "plain_read p op t h C \<longleftrightarrow> mc_ops C p = Some op \<and> o_Op op = MemOpREAD \<and> o_target op = Some t \<and> o_hazard op = Some h \<and>
     \<not> list_ex (amo_entry_of (o_Addr op) p) (AMOTable C)"

definition read_answered :: "nat \<Rightarrow> RevMemOp \<Rightarrow> u64 \<Rightarrow> nat \<Rightarrow> ReadResp \<Rightarrow> RevBasicMemCtrl \<Rightarrow> RevBasicMemCtrl \<Rightarrow> bool" where
  "read_answered p op t h ev C C' \<longleftrightarrow>
     (let host = vstore (t + of_nat (resp_off op ev)) (ev_data ev) (mc_host C)
      in mc_host C' = (if count_ptr p (outstanding C) = 1 then \<lambda>v. flag_byte op (unat (v - t)) (host v) else host)) \<and>
     outstanding C' = out_erase (ev_id ev) (outstanding C) \<and>
     (if count_ptr p (outstanding C) = 1 then mc_ops C' p = None \<and> \<not> mc_hz C' h
      else mc_ops C' p = Some op \<and> AMOTable C' = AMOTable C)"

lemma count_ptr_pos: "(i, p) \<in> set m \<Longrightarrow> 0 < count_ptr p m"
  by (auto simp: count_ptr_def filter_empty_conv)

lemma read_step:
  assumes inv: "mc_inv ids C" and i: "(ev_id ev, p) \<in> set (outstanding C)" and pr: "plain_read p op t h C"
    and r: "mem_resp rmem op ev"
    and single: "\<not> 1 < o_SplitRqst op \<Longrightarrow> resp_off op ev = 0 \<and> unat (ev_size ev) = unat (o_Size op)"
  shows "\<exists>C'. handleReadResp ev C = Inr C' \<and> mc_inv ids C' \<and> read_answered p op t h ev C C'"
proof -
  have op: "mc_ops C p = Some op" "o_target op = Some t" "o_hazard op = Some h" "kind C p = MemOpREAD"
    "\<not> list_ex (amo_entry_of (o_Addr op) p) (AMOTable C)"
    using pr by (simp_all add: plain_read_def kind_def)
  let ?fl = "\<lambda>D. D\<lparr>mc_host := \<lambda>v. flag_byte op (unat (v - t)) (mc_host D v)\<rparr>"
  note fl = handleFlagResp_eq [OF op(2)]
  note tk = take_response_inv(1) [OF inv i op(1)]
  have len: "length (ev_data ev) = unat (ev_size ev)" "unat (ev_size ev) \<le> unat (o_Size op)" "resp_off op ev < 256"
    using r by (simp_all add: mem_resp_def)
  have "unat (o_Size op) < 2 ^ 32" using unsigned_less [of "o_Size op"] by simp
  then have "unat (ev_size ev) < 2 ^ 32" using len(2) by simp
  then have sz: "unat (ucast (ev_size ev) :: u32) = unat (ev_size ev)" by (simp add: unsigned_ucast_eq take_bit_nat_eq_self)
  have cnt: "\<not> 1 < o_SplitRqst op \<Longrightarrow> count_ptr p (outstanding C) = 1"
    using outstanding_op [OF inv i] op(1) count_ptr_pos [OF i] by (fastforce simp: not_less word_le_nat_alt)
  let ?C1 = "host_store (t + of_nat (resp_off op ev)) (ev_data ev) (C\<lparr>requests := remove1 (ev_id ev) (requests C)\<rparr>)"
  let ?C2 = "if count_ptr p (outstanding C) = 1 then delete_op p (set_hazard h False (?fl ?C1)) else ?C1"
  have cr: "complete_read st False p op D = Inr (delete_op p (set_hazard h False (?fl D)))" for st D
    by (simp add: complete_read_def fl op(3))
  have gn: "getNumSplitRqsts p ?C1 = count_ptr p (outstanding C)" by (simp add: getNumSplit_count host_store_def)
  have "handleReadResp ev C = Inr (finish_response (ev_id ev) MemOpREAD ?C2)"
  proof (cases "1 < o_SplitRqst op")
    case True
    then show ?thesis
      unfolding handleReadResp_def tk bind_res_simps prod.case
      using op len sz by (simp add: Let_def slice_def resp_start gn cr)
  next
    case False
    then have "resp_off op ev = 0" "unat (o_Size op) = length (ev_data ev)" using single len by simp_all
    then show ?thesis
      unfolding handleReadResp_def tk bind_res_simps prod.case
      using op False cnt by (simp add: Let_def slice_def cr)
  qed
  moreover from handleReadResp_inv(2) [OF inv i op(4) this] have "mc_inv ids (finish_response (ev_id ev) MemOpREAD ?C2)" .
  moreover have "read_answered p op t h ev C (finish_response (ev_id ev) MemOpREAD ?C2)"
    using op by (simp add: read_answered_def finish_response_def delete_op_def set_hazard_def host_store_def Let_def)
  ultimately show ?thesis by blast
qed

fun handle_reads :: "ReadResp list \<Rightarrow> RevBasicMemCtrl \<Rightarrow> RevBasicMemCtrl res" where
  "handle_reads [] C = Inr C"
| "handle_reads (ev # evs) C = bind_res (handleReadResp ev C) (handle_reads evs)"

lemma count_ptr_card:
  assumes "distinct (map fst m)"
  shows "count_ptr p m = card {i. (i, p) \<in> set m}"
proof -
  let ?f = "filter (\<lambda>(_, q). q = p) m"
  have "{i. (i, p) \<in> set m} = set (map fst ?f)" by force
  moreover have "distinct (map fst ?f)" using assms by (simp add: distinct_map_filter)
  ultimately show ?thesis by (simp only: distinct_card) (simp add: count_ptr_def)
qed

lemma deliver_all:
  assumes "mc_inv ids C" and "plain_read p op t h C" and "evs \<noteq> []" and "distinct (map ev_id evs)"
    and "ev_id ` set evs = {i. (i, p) \<in> set (outstanding C)}" and "\<forall>ev\<in>set evs. mem_resp rmem op ev"
    and "\<not> 1 < o_SplitRqst op \<Longrightarrow> \<forall>ev\<in>set evs. resp_off op ev = 0 \<and> unat (ev_size ev) = unat (o_Size op)"
  shows "\<exists>C'. handle_reads evs C = Inr C' \<and> mc_inv ids C' \<and> mc_ops C' p = None \<and> \<not> mc_hz C' h \<and>
    (\<forall>v. mc_host C' v = flag_byte op (unat (v - t))
      (if \<exists>ev\<in>set evs. resp_off op ev \<le> unat (v - t) \<and> unat (v - t) < resp_off op ev + unat (ev_size ev)
       then rmem (o_Addr op + (v - t)) else mc_host C v))"
  using assms
proof (induction evs arbitrary: C)
  case (Cons ev evs)
  have i: "(ev_id ev, p) \<in> set (outstanding C)" using Cons.prems(5) by auto
  have r: "mem_resp rmem op ev" using Cons.prems(6) by simp
  have s: "\<not> 1 < o_SplitRqst op \<Longrightarrow> resp_off op ev = 0 \<and> unat (ev_size ev) = unat (o_Size op)" using Cons.prems(7) by simp
  obtain C1 where C1: "handleReadResp ev C = Inr C1" "mc_inv ids C1" "read_answered p op t h ev C C1"
    using read_step [OF Cons.prems(1) i Cons.prems(2) r s] by blast
  let ?b = "\<lambda>v. if resp_off op ev \<le> unat (v - t) \<and> unat (v - t) < resp_off op ev + unat (ev_size ev)
      then rmem (o_Addr op + (v - t)) else mc_host C v"
  have host: "mc_host C1 v = (if count_ptr p (outstanding C) = 1 then flag_byte op (unat (v - t)) (?b v) else ?b v)" for v
    using C1(3) deliver_byte [OF r] by (simp add: read_answered_def Let_def)
  have "distinct (map fst (outstanding C))" using Cons.prems(1) by (simp add: mc_inv_def flight_inv_def)
  then have "count_ptr p (outstanding C) = card (ev_id ` set (ev # evs))" using Cons.prems(5) by (simp add: count_ptr_card)
  also have "\<dots> = length (ev # evs)" using distinct_card [OF Cons.prems(4)] by simp
  finally have c: "count_ptr p (outstanding C) = Suc (length evs)" by simp
  show ?case
  proof (cases "evs = []")
    case True
    then show ?thesis using C1 c host by (auto simp: read_answered_def)
  next
    case False
    then have "plain_read p op t h C1" using Cons.prems(2) C1(3) c by (auto simp: read_answered_def plain_read_def)
    moreover have "{i. (i, p) \<in> set (outstanding C1)} = {i. (i, p) \<in> set (outstanding C)} - {ev_id ev}"
      using C1(3) by (auto simp: read_answered_def out_erase_def)
    then have "ev_id ` set evs = {i. (i, p) \<in> set (outstanding C1)}"
      using Cons.prems(4) by (simp add: Cons.prems(5) [symmetric])
    ultimately obtain C' where "handle_reads evs C1 = Inr C'" "mc_inv ids C'" "mc_ops C' p = None" "\<not> mc_hz C' h"
      "\<forall>v. mc_host C' v = flag_byte op (unat (v - t))
        (if \<exists>ev\<in>set evs. resp_off op ev \<le> unat (v - t) \<and> unat (v - t) < resp_off op ev + unat (ev_size ev)
         then rmem (o_Addr op + (v - t)) else mc_host C1 v)"
      using Cons.IH [OF C1(2)] False Cons.prems(4,6,7) by auto
    then show ?thesis using C1(1) host c False by auto
  qed
qed simp

text \<open>
  C14. Read data arrives whatever the order of the responses. Take a read of \<open>n\<close> bytes, with any extension flags, that is not part of an atomic
  operation and is in flight in a state reached by the calls of \<open>mc_step\<close>, and responses to all of its requests, in any order, each
  with the bytes of its piece of the memory; the pieces start at offsets below 256 and cover the operation. Then the handlers
  succeed, the \<open>n\<close> bytes at the target are those of the memory, the hazard is cleared and the operation is released. No other
  byte of the simulator's memory changes, except that the flag \<open>F_ZEXT64\<close> alone clears the top bit of the eighth byte at the target;
  the other flags have no effect (the instructions extend the values themselves).
\<close>

theorem mc_read_delivered:
  assumes "inj ids" and "mc_reach ids (init_ctrl line (new_RevBasicMemCtrl ml ms mf mll mrl mwu mc mo host hz)) C"
    and "plain_read p op t h C" and "evs \<noteq> []" and "distinct (map ev_id evs)"
    and "ev_id ` set evs = {i. (i, p) \<in> set (outstanding C)}" and "\<forall>ev\<in>set evs. mem_resp rmem op ev"
    and "\<forall>j<unat (o_Size op). \<exists>ev\<in>set evs. resp_off op ev \<le> j \<and> j < resp_off op ev + unat (ev_size ev)"
    and "\<not> 1 < o_SplitRqst op \<Longrightarrow> \<forall>ev\<in>set evs. resp_off op ev = 0 \<and> unat (ev_size ev) = unat (o_Size op)"
  shows "\<exists>C'. handle_reads evs C = Inr C' \<and> mc_ops C' p = None \<and> \<not> mc_hz C' h \<and>
    (\<forall>v. mc_host C' v =
      flag_byte op (unat (v - t)) (if unat (v - t) < unat (o_Size op) then rmem (o_Addr op + (v - t)) else mc_host C v))"
proof -
  have cov: "(\<exists>ev\<in>set evs. resp_off op ev \<le> j \<and> j < resp_off op ev + unat (ev_size ev)) \<longleftrightarrow> j < unat (o_Size op)" for j
    using assms(7,8) by (fastforce simp: mem_resp_def)
  show ?thesis
    using deliver_all [OF mc_reach_inv [OF assms(2,1) init_inv] assms(3-7,9)] unfolding cov by blast
qed

section \<open>Atomic operations\<close>

lemma host_bytes_store: "length d = n \<Longrightarrow> n < 2 ^ 64 \<Longrightarrow> host_bytes (host_store a d C) a n = d"
  by (rule nth_equalityI) (simp_all add: host_bytes_def host_store_def vstore_def unat_of_nat_u64)

lemma amo_modify_4:
  assumes "o_Size op = 4" and "length (o_membuf op) = 4" and "amo_select (o_flags op) = Some f"
    and "f (le_word (host_bytes C a 4)) (le_word (o_membuf op)) = Inr (v :: u32)"
  shows "amo_modify op a C = Inr (host_store a (le_bytes 4 v) C)"
  using assms by (simp add: amo_modify_def amo_buffer_def)

text \<open>
  C18. The response to the read of a four-byte atomic operation that is not split over two cache lines completes the modification,
  whatever extension its flags ask for (RV64 sets \<open>F_SEXT64\<close>): the old value, as delivered, and the operand are combined by the
  operation that the flags select, provided that its signed arithmetic does not overflow; the result is queued as a
  write of four bytes to the same address, is left in the target, and the read operation is released.
\<close>

theorem mc_amo_modifies:
  assumes "inj ids" and "mc_reach ids (init_ctrl line (new_RevBasicMemCtrl ml ms mf mll mrl mwu mc mo host hz)) C"
    and "(ev_id ev, p) \<in> set (outstanding C)" and "mc_ops C p = Some op" and "o_Op op = MemOpREAD"
    and "o_target op = Some t" and "o_hazard op = Some h" and "o_Size op = 4" and "length (o_membuf op) = 4"
    and "o_SplitRqst op \<le> 1"
    and "list_ex (amo_entry_of (o_Addr op) p) (AMOTable C)" and "length (ev_data ev) = 4"
    and "amo_select (o_flags op) = Some f" and "f (le_word (ev_data ev)) (le_word (o_membuf op)) = Inr (v :: u32)"
  shows "\<exists>C' q w. handleReadResp ev C = Inr C' \<and> rqstQ C' = rqstQ C @ [q] \<and> mc_ops C' q = Some w \<and>
    o_Op w = MemOpWRITE \<and> o_Addr w = o_Addr op \<and> o_Size w = 4 \<and> o_membuf w = le_bytes 4 v \<and>
    host_bytes C' t 4 = le_bytes 4 v \<and> mc_ops C' p = None"
proof -
  have inv: "mc_inv ids C" by (rule mc_reach_inv [OF assms(2,1) init_inv])
  have pn: "p < mc_nops C" using inv assms(4) by (auto simp: mc_inv_def queue_inv_def)
  let ?C0 = "host_store t (ev_data ev) (C\<lparr>requests := remove1 (ev_id ev) (requests C)\<rparr>)"
  let ?C1 = "?C0\<lparr>mc_host := \<lambda>v. flag_byte op (unat (v - t)) (mc_host ?C0 v)\<rparr>"
  let ?C2 = "host_store t (le_bytes 4 v) ?C1"
  have "host_bytes ?C1 t 4 = host_bytes ?C0 t 4"
    by (auto simp: host_bytes_def flag_byte_def unat_of_nat_u64)
  then have hb: "host_bytes ?C1 t 4 = ev_data ev" "host_bytes ?C2 t 4 = le_bytes 4 v"
    using assms(12) by (simp_all add: host_bytes_store)
  note fl = handleFlagResp_eq [OF assms(6)]
  have am: "amo_modify op t ?C1 = Inr ?C2" using assms(8,9,14) hb by (intro amo_modify_4 [OF _ _ assms(13)]) simp_all
  have g: "get_op p ?C1 = Inr op" and tb: "AMOTable ?C1 = AMOTable C" "rqstQ ?C2 = rqstQ C" "mc_nops ?C2 = mc_nops C"
    using assms(4) by (simp_all add: get_op_def host_store_def)
  let ?w = "(new_RevMemOp (o_Hart op) (o_Addr op) (o_PAddr op) 4 (le_bytes 4 v) None 0 MemOpWRITE (o_flags op))\<lparr>o_hazard := Some h\<rparr>"
  obtain C3 where C3: "handleAMO p ?C1 = Inr C3" "rqstQ C3 = rqstQ C @ [mc_nops C]" "mc_ops C3 (mc_nops C) = Some ?w"
    "mc_host C3 = mc_host ?C2"
    unfolding handleAMO_def performAMO_def g bind_res_simps tb using assms(6-8,11) am tb hb(2)
    by (auto simp: Let_def new_op_def set_hazard_def)
  have "handleReadResp ev C = Inr (finish_response (ev_id ev) MemOpREAD (delete_op p (set_hazard h False C3)))"
    unfolding handleReadResp_def take_response_inv(1) [OF inv assms(3,4)] bind_res_simps prod.case
    using assms(6-8,10-12) fl C3(1) by (simp add: Let_def slice_def complete_read_def not_less [symmetric])
  moreover have "host_bytes (finish_response (ev_id ev) MemOpREAD (delete_op p (set_hazard h False C3))) t 4 = le_bytes 4 v"
    using hb(2) C3(4) by (simp add: host_bytes_def finish_response_def delete_op_def set_hazard_def)
  ultimately show ?thesis
    using C3(2,3) pn by (auto simp: finish_response_def delete_op_def set_hazard_def new_RevMemOp_def)
qed


section \<open>A run\<close>

text \<open>
  The clock ticks with the queued read of \<open>demo_mc1\<close>: its two requests are in flight. Then a fence is queued and
  taken from the queue by another cycle.
\<close>

definition demo_mc2 :: RevBasicMemCtrl where
  "demo_mc2 = (case clockTick (\<lambda>n. n) demo_mc1 of Some (Inr C) \<Rightarrow> C | _ \<Rightarrow> demo_mc1)"

definition demo_mc3 :: RevBasicMemCtrl where
  "demo_mc3 = (case clockTick (\<lambda>n. n) (sendFENCE 0 demo_mc2) of Some (Inr C) \<Rightarrow> C | _ \<Rightarrow> demo_mc2)"

definition demo_op :: RevMemOp where
  "demo_op = (new_RevMemOp 0 0x103C 0 8 [] (Some 0x5000) 0 MemOpREAD 0)\<lparr>o_hazard := Some 7, o_SplitRqst := 2\<rparr>"

lemma demo_mc2_eval:
  "requests demo_mc2 = [0, 1]" "outstanding demo_mc2 = [(0, 0), (1, 0)]" "AMOTable demo_mc2 = []"
  "mc_ops demo_mc2 0 = Some demo_op" "num_read demo_mc2 = 2" "num_fence demo_mc2 = 0"
  "mc_sent demo_mc2 = [(0, SR_Read 0x103C 4 0), (1, SR_Read 0x1040 4 0)]"
  by code_simp+

lemma demo_inj: "inj (\<lambda>n :: nat. n)"
  by simp

lemma demo_reach1: "mc_reach (\<lambda>n. n) demo_mc0 demo_mc1"
  unfolding demo_mc1_def by (rule mc_reach.step [OF mc_reach.start]) (rule mc_step.do_read, simp)

lemma demo_reach2: "mc_reach (\<lambda>n. n) demo_mc0 demo_mc2"
proof -
  have "mc_inv (\<lambda>n. n) demo_mc1"
    by (rule mc_reach_inv [OF demo_reach1 demo_inj]) (unfold demo_mc0_def, rule init_inv)
  then have "clockTick (\<lambda>n. n) demo_mc1 = Some (Inr demo_mc2)"
    using clockTick_inv [OF _ demo_inj] unfolding demo_mc2_def by fastforce
  then show ?thesis by (rule mc_reach.step [OF demo_reach1 mc_step.tick])
qed

lemma demo_reach3: "mc_reach (\<lambda>n. n) demo_mc0 demo_mc3"
proof -
  have r: "mc_reach (\<lambda>n. n) demo_mc0 (sendFENCE 0 demo_mc2)"
    by (rule mc_reach.step [OF demo_reach2]) (rule mc_step.do_fence)
  have "mc_inv (\<lambda>n. n) (sendFENCE 0 demo_mc2)"
    by (rule mc_reach_inv [OF r demo_inj]) (unfold demo_mc0_def, rule init_inv)
  then have "clockTick (\<lambda>n. n) (sendFENCE 0 demo_mc2) = Some (Inr demo_mc3)"
    using clockTick_inv [OF _ demo_inj] unfolding demo_mc3_def by fastforce
  then show ?thesis by (rule mc_reach.step [OF r mc_step.tick])
qed

lemma demo_mc3_eval: "outstanding demo_mc3 = [(0, 0), (1, 0)]" "num_fence demo_mc3 = 1"
  "map_option o_Op (mc_ops demo_mc3 0) = Some MemOpREAD"
  by code_simp+

definition demo_resp :: "nat \<Rightarrow> ReadResp" where
  "demo_resp i = \<lparr>ev_id = i, ev_pAddr = 0x103C + 4 * of_nat i, ev_size = 4,
     ev_data = map (\<lambda>j. ucast (0x103C + 4 * of_nat i + of_nat j :: u64)) [0..<4]\<rparr>"

theorem mc_reachable_counts_witness: "requests demo_mc2 = [0, 1] \<and> num_read demo_mc2 = 2 \<and>
    distinct (requests demo_mc2) \<and> num_read demo_mc2 = of_nat (count_kind MemOpREAD (kind demo_mc2) (outstanding demo_mc2))"
  using mc_reachable_counts [OF demo_inj demo_reach2 [unfolded demo_mc0_def]] by (simp add: demo_mc2_eval)

theorem mc_tick_returns_witness: "rqstQ demo_mc1 = [0] \<and> (\<exists>C'. clockTick (\<lambda>n. n) demo_mc1 = Some (Inr C'))"
proof
  show "rqstQ demo_mc1 = [0]" by code_simp
  show "\<exists>C'. clockTick (\<lambda>n. n) demo_mc1 = Some (Inr C')"
    by (rule mc_tick_returns [OF demo_inj demo_reach1 [unfolded demo_mc0_def]])
qed

theorem mc_responses_accepted_witness:
  "not_fatal (handleReadResp (demo_resp 1) demo_mc2) \<and>
   handleReadResp (demo_resp 2) demo_mc2 = Inl (Fatal_MemCtrl ''found unknown ReadResp'')"
proof -
  note m = mc_responses_accepted [OF demo_inj demo_reach2 [unfolded demo_mc0_def]]
  have "kind demo_mc2 0 = MemOpREAD" by (simp add: kind_def demo_mc2_eval demo_op_def new_RevMemOp_def)
  then show ?thesis using m [of 1] m [of 2] by (auto simp: demo_mc2_eval demo_resp_def)
qed

theorem mc_fence_orders_witness:
  "num_fence demo_mc3 = 1 \<and>
   clockTick (\<lambda>n. n) demo_mc3 = Some (Inr (demo_mc3\<lparr>mc_stats := mc_stats demo_mc3 @ [(FencePending, 1)]\<rparr>))"
proof -
  have "kind demo_mc3 0 = MemOpREAD" using demo_mc3_eval(3) by (auto simp: kind_def)
  then show ?thesis
    using mc_fence_orders [OF demo_inj demo_reach3 [unfolded demo_mc0_def]] by (simp add: demo_mc3_eval)
qed

theorem mc_read_delivered_witness:
  "\<exists>C'. handle_reads [demo_resp 1, demo_resp 0] demo_mc2 = Inr C' \<and> mc_ops C' 0 = None \<and> \<not> mc_hz C' 7 \<and>
     map (\<lambda>j. mc_host C' (0x5000 + of_nat j)) [0..<8] = [0x3C, 0x3D, 0x3E, 0x3F, 0x40, 0x41, 0x42, 0x43]"
proof -
  let ?evs = "[demo_resp 1, demo_resp 0]"
  have p: "plain_read 0 demo_op 0x5000 7 demo_mc2"
    by (simp add: plain_read_def demo_mc2_eval demo_op_def new_RevMemOp_def)
  have s: "o_Size demo_op = 8" "o_Addr demo_op = 0x103C" "1 < o_SplitRqst demo_op" and f: "flag_byte demo_op j b = b" for j b
    by (simp_all add: demo_op_def new_RevMemOp_def flag_byte_def)
  have off: "resp_off demo_op (demo_resp 1) = 4" "resp_off demo_op (demo_resp 0) = 0"
    by (simp_all add: resp_off_def s demo_resp_def)
  have m: "\<forall>ev\<in>set ?evs. mem_resp (\<lambda>a. ucast a) demo_op ev"
    by (simp add: mem_resp_def resp_off_def s demo_resp_def)
  have ids: "ev_id ` set ?evs = {i. (i, 0) \<in> set (outstanding demo_mc2)}"
    by (auto simp: demo_resp_def demo_mc2_eval)
  have cov: "\<forall>j<unat (o_Size demo_op). \<exists>ev\<in>set ?evs. resp_off demo_op ev \<le> j \<and> j < resp_off demo_op ev + unat (ev_size ev)"
    using off by (auto simp: s demo_resp_def)
  have d: "distinct (map ev_id ?evs)" by (simp add: demo_resp_def)
  obtain C' where "handle_reads ?evs demo_mc2 = Inr C'" "mc_ops C' 0 = None" "\<not> mc_hz C' 7"
    "\<forall>v. mc_host C' v = flag_byte demo_op (unat (v - 0x5000))
      (if unat (v - 0x5000) < unat (o_Size demo_op) then ucast (o_Addr demo_op + (v - 0x5000)) else mc_host demo_mc2 v)"
    using mc_read_delivered [OF demo_inj demo_reach2 [unfolded demo_mc0_def] p _ d ids m cov] s by auto
  then show ?thesis by (simp add: s f upt_rec)
qed

text \<open>An atomic addition of 5 to a word that holds 37, in flight after one clock cycle.\<close>

definition demo_amo1 :: RevBasicMemCtrl where
  "demo_amo1 = sendAMORequest 0 0x1000 0 4 [5, 0, 0, 0] 0x5000 7 (F_AMOADD OR F_SEXT64) demo_mc0"

definition demo_amo2 :: RevBasicMemCtrl where
  "demo_amo2 = (case clockTick (\<lambda>n. n) demo_amo1 of Some (Inr C) \<Rightarrow> C | _ \<Rightarrow> demo_amo1)"

definition demo_amo_op :: RevMemOp where
  "demo_amo_op = (new_RevMemOp 0 0x1000 0 4 [5, 0, 0, 0] (Some 0x5000) 0 MemOpREAD (F_AMOADD OR F_SEXT64))\<lparr>o_hazard := Some 7\<rparr>"

lemma demo_amo2_eval:
  "outstanding demo_amo2 = [(0, 0)]" "mc_ops demo_amo2 0 = Some demo_amo_op" "rqstQ demo_amo2 = []"
  "list_ex (amo_entry_of 0x1000 0) (AMOTable demo_amo2)"
  by code_simp+

lemma demo_amo_op_eval:
  "o_Op demo_amo_op = MemOpREAD" "o_target demo_amo_op = Some 0x5000" "o_hazard demo_amo_op = Some 7"
  "o_Size demo_amo_op = 4" "o_membuf demo_amo_op = [5, 0, 0, 0]" "o_SplitRqst demo_amo_op \<le> 1"
  "o_Addr demo_amo_op = 0x1000"
  by code_simp+

lemma demo_amo_select: "amo_select (o_flags demo_amo_op) = Some s_add"
  by (simp add: demo_amo_op_def new_RevMemOp_def amo_select_def F_AMOADD_def F_SEXT64_def)

lemma demo_amo_reach: "mc_reach (\<lambda>n. n) demo_mc0 demo_amo2"
proof -
  have r: "mc_reach (\<lambda>n. n) demo_mc0 demo_amo1"
    unfolding demo_amo1_def by (rule mc_reach.step [OF mc_reach.start]) (rule mc_step.do_amo, simp)
  have "mc_inv (\<lambda>n. n) demo_amo1"
    by (rule mc_reach_inv [OF r demo_inj]) (unfold demo_mc0_def, rule init_inv)
  then have "clockTick (\<lambda>n. n) demo_amo1 = Some (Inr demo_amo2)"
    using clockTick_inv [OF _ demo_inj] unfolding demo_amo2_def by fastforce
  then show ?thesis by (rule mc_reach.step [OF r mc_step.tick])
qed

theorem mc_amo_modifies_witness:
  "\<exists>C' q w. handleReadResp \<lparr>ev_id = 0, ev_pAddr = 0x1000, ev_size = 4, ev_data = [37, 0, 0, 0]\<rparr> demo_amo2 = Inr C' \<and>
     rqstQ C' = [q] \<and> mc_ops C' q = Some w \<and> o_Op w = MemOpWRITE \<and> o_Addr w = 0x1000 \<and> o_membuf w = [42, 0, 0, 0]"
proof -
  have v: "s_add (le_word [37, 0, 0, 0]) (le_word [5, 0, 0, 0]) = Inr (42 :: u32)" by code_simp
  have b: "le_bytes 4 (42 :: u32) = [42, 0, 0, 0]" by code_simp
  show ?thesis
    using mc_amo_modifies [OF demo_inj demo_amo_reach [unfolded demo_mc0_def], where
        ev = "\<lparr>ev_id = 0, ev_pAddr = 0x1000, ev_size = 4, ev_data = [37, 0, 0, 0]\<rparr>" and p = 0 and op = demo_amo_op
        and t = "0x5000" and h = 7 and f = s_add and v = 42] v
    by (simp add: demo_amo2_eval demo_amo_op_eval demo_amo_select b) blast
qed

text \<open>
  Outside the invariant: the answer to a \<open>READLOCK\<close> request comes through \<open>handleReadResp\<close>, which counts a
  read. Its own counter keeps its value, so that each such request uses up one of the \<open>max_readlock\<close> slots for
  good, and the number of reads in flight drops below zero.
\<close>

definition demo_lock1 :: RevBasicMemCtrl where
  "demo_lock1 = (case clockTick (\<lambda>n. n) (sendREADLOCKRequest 0 0x1000 0 4 0x5000 7 0 demo_mc0) of
     Some (Inr C) \<Rightarrow> C | _ \<Rightarrow> demo_mc0)"

lemma readlock_slot_leaks:
  "case handleReadResp \<lparr>ev_id = 0, ev_pAddr = 0x1000, ev_size = 4, ev_data = [0, 0, 0, 0]\<rparr> demo_lock1 of
     Inl e \<Rightarrow> False
   | Inr C \<Rightarrow> outstanding C = [] \<and> num_readlock C = 1 \<and> num_read C = - 1"
  by code_simp

text \<open>
  A fence is always ready for dispatch, and the scan of the queue skips operations that are not: with one load per
  cycle, the second of two queued reads is overtaken by the fence queued behind it.
\<close>

definition demo_overtake :: RevBasicMemCtrl where
  "demo_overtake = sendFENCE 0 (sendREADRequest 0 0x1008 0 4 0x5008 8 0 (sendREADRequest 0 0x1000 0 4 0x5000 7 0
     (init_ctrl 64 (new_RevBasicMemCtrl 1 16 16 16 16 16 16 16 (\<lambda>_. 0) (\<lambda>_. False)))))"

lemma fence_overtakes_read:
  "rqstQ demo_overtake = [0, 1, 2]"
  "case clockTick (\<lambda>n. n) demo_overtake of
     Some (Inr C) \<Rightarrow> num_fence C = 1 \<and> rqstQ C = [1] \<and> map snd (mc_sent C) = [SR_Read 0x1000 4 0] | _ \<Rightarrow> False"
  by code_simp+

end
