(* ===== verification/Rev_PanNet.thy ===== *)
theory Rev_PanNet
  imports Rev_Prelude
begin

text \<open>
  The messages of the PAN network and its endpoint (include/PanNet.h, src/PanNet.cc): the event class with
  its setters and packet builders, the reservation token of the endpoint, and the send queue. The network itself is
  SST's \<open>SimpleNetwork\<close>; whether it accepts the next message is a parameter of the clock function.
\<close>

section \<open>Events\<close>

datatype PanPacket = PanBase | PanStream | PanRsvd | PanBOTW

definition op_SyncGet :: u8 where "op_SyncGet = 0b00000000"
definition op_SyncPut :: u8 where "op_SyncPut = 0b00000100"
definition op_AsyncGet :: u8 where "op_AsyncGet = 0b00001000"
definition op_AsyncPut :: u8 where "op_AsyncPut = 0b00001100"
definition op_SyncStreamGet :: u8 where "op_SyncStreamGet = 0b0001"
definition op_SyncStreamPut :: u8 where "op_SyncStreamPut = 0b0101"
definition op_AsyncStreamGet :: u8 where "op_AsyncStreamGet = 0b1001"
definition op_AsyncStreamPut :: u8 where "op_AsyncStreamPut = 0b1101"
definition op_Exec :: u8 where "op_Exec = 0b00010000"
definition op_Status :: u8 where "op_Status = 0b00100000"
definition op_Cancel :: u8 where "op_Cancel = 0b00110000"
definition op_Reserve :: u8 where "op_Reserve = 0b01000000"
definition op_Revoke :: u8 where "op_Revoke = 0b01010000"
definition op_Halt :: u8 where "op_Halt = 0b01100000"
definition op_Resume :: u8 where "op_Resume = 0b01110000"
definition op_ReadReg :: u8 where "op_ReadReg = 0b10000000"
definition op_WriteReg :: u8 where "op_WriteReg = 0b10010000"
definition op_SingleStep :: u8 where "op_SingleStep = 0b10100000"
definition op_SetFuture :: u8 where "op_SetFuture = 0b10110000"
definition op_RevokeFuture :: u8 where "op_RevokeFuture = 0b11000000"
definition op_StatusFuture :: u8 where "op_StatusFuture = 0b11010000"
definition op_Success :: u8 where "op_Success = 0b11100000"
definition op_Failed :: u8 where "op_Failed = 0b11110000"
definition op_BOTW :: u8 where "op_BOTW = 0b11"

lemmas pan_opcodes = op_SyncGet_def op_SyncPut_def op_AsyncGet_def op_AsyncPut_def op_SyncStreamGet_def
  op_SyncStreamPut_def op_AsyncStreamGet_def op_AsyncStreamPut_def op_Exec_def op_Status_def op_Cancel_def
  op_Reserve_def op_Revoke_def op_Halt_def op_Resume_def op_ReadReg_def op_WriteReg_def op_SingleStep_def
  op_SetFuture_def op_RevokeFuture_def op_StatusFuture_def op_Success_def op_Failed_def op_BOTW_def

record panNicEvent =
  v_SrcName :: string
  v_Src :: u32
  v_Tag :: u8
  v_Opcode :: u8
  v_VarArgs :: u8
  v_Size :: u32
  v_Token :: u32
  v_Offset :: u32
  v_Addr :: u64
  v_Data :: "u64 list"

text \<open>The constructor does not initialise the source identifier; \<open>junk\<close> is its value.\<close>

definition new_panNicEvent :: "string \<Rightarrow> u32 \<Rightarrow> panNicEvent" where
  "new_panNicEvent name junk =
     \<lparr>v_SrcName = name, v_Src = junk, v_Tag = 0, v_Opcode = 0b10, v_VarArgs = 0, v_Size = 0, v_Token = 0,
      v_Offset = 0, v_Addr = 0, v_Data = []\<rparr>"

definition getType :: "panNicEvent \<Rightarrow> PanPacket" where
  "getType e =
     (let t = v_Opcode e AND 0b11
      in if t = 0 then PanBase else if t = 1 then PanStream else if t = 2 then PanRsvd else PanBOTW)"

definition getOpcodeStr :: "panNicEvent \<Rightarrow> string" where
  "getOpcodeStr e =
     (let o' = v_Opcode e in
      if o' = op_Success then ''Success'' else if o' = op_Failed then ''Failed''
      else if o' = op_SyncGet then ''SyncGet'' else if o' = op_SyncPut then ''SyncPut''
      else if o' = op_AsyncGet then ''AsyncGet'' else if o' = op_AsyncPut then ''AsyncPut''
      else if o' = op_SyncStreamGet then ''SyncStreamGet'' else if o' = op_SyncStreamPut then ''SyncStreamPut''
      else if o' = op_AsyncStreamGet then ''AsyncStreamGet'' else if o' = op_AsyncStreamPut then ''AsyncStreamPut''
      else if o' = op_Exec then ''Exec'' else if o' = op_Status then ''Status'' else if o' = op_Cancel then ''Cancel''
      else if o' = op_Reserve then ''Reserve'' else if o' = op_Revoke then ''Revoke'' else if o' = op_Halt then ''Halt''
      else if o' = op_Resume then ''Resume'' else if o' = op_ReadReg then ''ReadReg'' else if o' = op_WriteReg then ''WriteReg''
      else if o' = op_SingleStep then ''SingleStep'' else if o' = op_SetFuture then ''SetFuture''
      else if o' = op_RevokeFuture then ''RevokeFuture'' else if o' = op_StatusFuture then ''StatusFuture''
      else if o' = op_BOTW then ''BOTW'' else ''UNKNOWN'')"

definition getNumBlocks :: "u32 \<Rightarrow> nat" where
  "getNumBlocks Sz =
     (if Sz = 0 then 0 else if Sz < 8 then 1
      else unat (Sz div 8) + (if Sz mod 8 > 0 then 1 else 0))"

text \<open>Reading beyond the caller's array or beyond the data vector is undefined.\<close>

definition setData :: "u64 list \<Rightarrow> u32 \<Rightarrow> panNicEvent \<Rightarrow> panNicEvent res" where
  "setData In Sz e =
     (if Sz = 0 then Inr e
      else if getNumBlocks Sz \<le> length In then Inr (e\<lparr>v_Data := v_Data e @ take (getNumBlocks Sz) In\<rparr>)
      else Inl UB_OutOfBounds)"

definition getData :: "panNicEvent \<Rightarrow> u64 list res" where
  "getData e =
     (if v_Size e = 0 then Inr []
      else if getNumBlocks (v_Size e) \<le> length (v_Data e) then Inr (take (getNumBlocks (v_Size e)) (v_Data e))
      else Inl UB_OutOfBounds)"

definition setSrc :: "u32 \<Rightarrow> panNicEvent \<Rightarrow> panNicEvent" where
  "setSrc S e = e\<lparr>v_Src := S\<rparr>"

definition setTag :: "u8 \<Rightarrow> panNicEvent \<Rightarrow> panNicEvent" where
  "setTag T e = e\<lparr>v_Tag := T\<rparr>"

definition setVarArgs :: "u8 \<Rightarrow> panNicEvent \<Rightarrow> panNicEvent" where
  "setVarArgs VA e = e\<lparr>v_VarArgs := VA AND 0b1111\<rparr>"

definition setSize_ev :: "u32 \<Rightarrow> panNicEvent \<Rightarrow> bool \<times> panNicEvent" where
  "setSize_ev Sz e =
     (case getType e of
        PanBase \<Rightarrow> (True, e\<lparr>v_Size := Sz AND 0xFFFF\<rparr>)
      | PanStream \<Rightarrow> (True, e\<lparr>v_Size := Sz AND 0xFFFFF\<rparr>)
      | _ \<Rightarrow> (False, e\<lparr>v_Size := 0\<rparr>))"

definition setToken :: "u32 \<Rightarrow> panNicEvent \<Rightarrow> panNicEvent" where
  "setToken T e = e\<lparr>v_Token := T\<rparr>"

definition setOffset :: "u32 \<Rightarrow> panNicEvent \<Rightarrow> panNicEvent" where
  "setOffset off e = e\<lparr>v_Offset := off AND 0b111111111111111111\<rparr>"

definition setAddr :: "u64 \<Rightarrow> panNicEvent \<Rightarrow> panNicEvent" where
  "setAddr A e = e\<lparr>v_Addr := A\<rparr>"


section \<open>Packet builders\<close>

text \<open>
  The builders set the opcode first, so that \<open>setSize\<close> knows the packet type. The setters other than \<open>setSize\<close>
  always return true. The first component of the result is the builder's return value. The builders of a group
  differ in the opcode only.
\<close>

definition build_sized :: "u8 \<Rightarrow> u32 \<Rightarrow> u8 \<Rightarrow> u32 \<Rightarrow> panNicEvent \<Rightarrow> bool \<times> panNicEvent" where
  "build_sized opc tok tag sz e = setSize_ev sz (setTag tag (setToken tok (e\<lparr>v_Opcode := opc\<rparr>)))"

definition build_get :: "u8 \<Rightarrow> u32 \<Rightarrow> u8 \<Rightarrow> u64 \<Rightarrow> u32 \<Rightarrow> panNicEvent \<Rightarrow> bool \<times> panNicEvent" where
  "build_get opc tok tag A sz e =
     (let (ok, e1) = build_sized opc tok tag sz e in if \<not> ok then (False, e1) else (True, setAddr A e1))"

text \<open>A null data pointer is \<open>None\<close>; it is found before anything but the opcode is set.\<close>

definition build_put :: "u8 \<Rightarrow> u32 \<Rightarrow> u8 \<Rightarrow> u64 \<Rightarrow> u32 \<Rightarrow> u32 \<Rightarrow> u64 list option \<Rightarrow> panNicEvent \<Rightarrow> (bool \<times> panNicEvent) res" where
  "build_put opc tok tag A sz n D e =
     (case D of None \<Rightarrow> Inr (False, e\<lparr>v_Opcode := opc\<rparr>)
      | Some In \<Rightarrow>
          let (ok, e1) = build_get opc tok tag A sz e
          in if \<not> ok then Inr (False, e1) else bind_res (setData In n e1) (\<lambda>e2. Inr (True, e2)))"

definition buildSyncGet :: "u32 \<Rightarrow> u8 \<Rightarrow> u64 \<Rightarrow> u32 \<Rightarrow> panNicEvent \<Rightarrow> bool \<times> panNicEvent" where
  "buildSyncGet = build_get op_SyncGet"

definition buildAsyncGet :: "u32 \<Rightarrow> u8 \<Rightarrow> u64 \<Rightarrow> u32 \<Rightarrow> panNicEvent \<Rightarrow> bool \<times> panNicEvent" where
  "buildAsyncGet = build_get op_AsyncGet"

definition buildSyncStreamGet :: "u32 \<Rightarrow> u8 \<Rightarrow> u64 \<Rightarrow> u32 \<Rightarrow> panNicEvent \<Rightarrow> bool \<times> panNicEvent" where
  "buildSyncStreamGet = build_get op_SyncStreamGet"

definition buildAsyncStreamGet :: "u32 \<Rightarrow> u8 \<Rightarrow> u64 \<Rightarrow> u32 \<Rightarrow> panNicEvent \<Rightarrow> bool \<times> panNicEvent" where
  "buildAsyncStreamGet = build_get op_AsyncStreamGet"

definition buildSyncPut :: "u32 \<Rightarrow> u8 \<Rightarrow> u64 \<Rightarrow> u32 \<Rightarrow> u64 list option \<Rightarrow> panNicEvent \<Rightarrow> (bool \<times> panNicEvent) res" where
  "buildSyncPut tok tag A sz = build_put op_SyncPut tok tag A sz sz"

definition buildAsyncPut :: "u32 \<Rightarrow> u8 \<Rightarrow> u64 \<Rightarrow> u32 \<Rightarrow> u64 list option \<Rightarrow> panNicEvent \<Rightarrow> (bool \<times> panNicEvent) res" where
  "buildAsyncPut tok tag A sz = build_put op_AsyncPut tok tag A sz sz"

definition buildSyncStreamPut :: "u32 \<Rightarrow> u8 \<Rightarrow> u64 \<Rightarrow> u32 \<Rightarrow> u64 list option \<Rightarrow> panNicEvent \<Rightarrow> (bool \<times> panNicEvent) res" where
  "buildSyncStreamPut tok tag A sz = build_put op_SyncStreamPut tok tag A sz sz"

definition buildAsyncStreamPut :: "u32 \<Rightarrow> u8 \<Rightarrow> u64 \<Rightarrow> u32 \<Rightarrow> u64 list option \<Rightarrow> panNicEvent \<Rightarrow> (bool \<times> panNicEvent) res" where
  "buildAsyncStreamPut tok tag A sz = build_put op_AsyncStreamPut tok tag A sz sz"

text \<open>\<open>buildExec\<close> has no size argument: the name denotes the member, which is masked again.\<close>

definition buildExec :: "u32 \<Rightarrow> u8 \<Rightarrow> u64 \<Rightarrow> panNicEvent \<Rightarrow> bool \<times> panNicEvent" where
  "buildExec tok tag A e = build_get op_Exec tok tag A (v_Size e) e"

definition buildStatus :: "u32 \<Rightarrow> u8 \<Rightarrow> u16 \<Rightarrow> panNicEvent \<Rightarrow> bool \<times> panNicEvent" where
  "buildStatus tok tag ent = build_sized op_Status tok tag (ucast ent)"

definition buildCancel :: "u32 \<Rightarrow> u8 \<Rightarrow> u16 \<Rightarrow> panNicEvent \<Rightarrow> bool \<times> panNicEvent" where
  "buildCancel tok tag ent = build_sized op_Cancel tok tag (ucast ent)"

definition buildReserve :: "u32 \<Rightarrow> u8 \<Rightarrow> panNicEvent \<Rightarrow> bool \<times> panNicEvent" where
  "buildReserve tok tag e = (True, setTag tag (setToken tok (e\<lparr>v_Opcode := op_Reserve\<rparr>)))"

definition buildRevoke :: "u32 \<Rightarrow> u8 \<Rightarrow> panNicEvent \<Rightarrow> bool \<times> panNicEvent" where
  "buildRevoke tok tag e = (True, setTag tag (setToken tok (e\<lparr>v_Opcode := op_Revoke\<rparr>)))"

definition buildHalt :: "u32 \<Rightarrow> u8 \<Rightarrow> u16 \<Rightarrow> panNicEvent \<Rightarrow> bool \<times> panNicEvent" where
  "buildHalt tok tag hart = build_sized op_Halt tok tag (ucast hart)"

definition buildResume :: "u32 \<Rightarrow> u8 \<Rightarrow> panNicEvent \<Rightarrow> bool \<times> panNicEvent" where
  "buildResume tok tag e = (True, setTag tag (setToken tok (e\<lparr>v_Opcode := op_Resume\<rparr>)))"

definition buildReadReg :: "u32 \<Rightarrow> u8 \<Rightarrow> u16 \<Rightarrow> u64 \<Rightarrow> panNicEvent \<Rightarrow> bool \<times> panNicEvent" where
  "buildReadReg tok tag hart Reg = build_get op_ReadReg tok tag Reg (ucast hart)"

definition buildWriteReg :: "u32 \<Rightarrow> u8 \<Rightarrow> u16 \<Rightarrow> u64 \<Rightarrow> u64 list option \<Rightarrow> panNicEvent \<Rightarrow> (bool \<times> panNicEvent) res" where
  "buildWriteReg tok tag hart Reg = build_put op_WriteReg tok tag Reg (ucast hart) 8"

definition buildSingleStep :: "u32 \<Rightarrow> u8 \<Rightarrow> u16 \<Rightarrow> panNicEvent \<Rightarrow> bool \<times> panNicEvent" where
  "buildSingleStep tok tag hart = build_sized op_SingleStep tok tag (ucast hart)"

definition buildSetFuture :: "u32 \<Rightarrow> u8 \<Rightarrow> u64 \<Rightarrow> panNicEvent \<Rightarrow> bool \<times> panNicEvent" where
  "buildSetFuture tok tag A e = (True, setAddr A (setTag tag (setToken tok (e\<lparr>v_Opcode := op_SetFuture\<rparr>))))"

definition buildRevokeFuture :: "u32 \<Rightarrow> u8 \<Rightarrow> u64 \<Rightarrow> panNicEvent \<Rightarrow> bool \<times> panNicEvent" where
  "buildRevokeFuture tok tag A e = (True, setAddr A (setTag tag (setToken tok (e\<lparr>v_Opcode := op_RevokeFuture\<rparr>))))"

definition buildStatusFuture :: "u32 \<Rightarrow> u8 \<Rightarrow> u64 \<Rightarrow> panNicEvent \<Rightarrow> bool \<times> panNicEvent" where
  "buildStatusFuture tok tag A e = (True, setAddr A (setTag tag (setToken tok (e\<lparr>v_Opcode := op_StatusFuture\<rparr>))))"

text \<open>The number of arguments is passed to \<open>setData\<close> as a number of bytes and is not stored in the event.\<close>

definition buildBOTW :: "u32 \<Rightarrow> u8 \<Rightarrow> u8 \<Rightarrow> u64 list \<Rightarrow> u32 \<Rightarrow> panNicEvent \<Rightarrow> (bool \<times> panNicEvent) res" where
  "buildBOTW tok tag va as off e =
     bind_res (setData as (ucast va) (setOffset off (setTag tag (setToken tok (e\<lparr>v_Opcode := op_BOTW\<rparr>)))))
       (\<lambda>e1. Inr (True, e1))"

definition buildSuccess :: "u32 \<Rightarrow> u8 \<Rightarrow> panNicEvent \<Rightarrow> bool \<times> panNicEvent" where
  "buildSuccess tok tag = build_sized op_Success tok tag 0"

definition buildFailed :: "u32 \<Rightarrow> u8 \<Rightarrow> panNicEvent \<Rightarrow> bool \<times> panNicEvent" where
  "buildFailed tok tag = build_sized op_Failed tok tag 0"


section \<open>The endpoint\<close>

text \<open>
  \<open>panNicAPI\<close> with its reservation token, and \<open>PanNet\<close>. The host map is a list of pairs with increasing keys,
  the order in which \<open>std::map\<close> iterates. A request of the send queue is the event and its destination; the source
  field of the request is always the endpoint's own identifier.
\<close>

record PanNet =
  isHost :: bool
  isReserved :: bool
  n_Token :: u32
  initBroadcastSent :: bool
  numDest :: nat
  hostMap :: "(int \<times> bool) list"
  sendQ :: "(panNicEvent \<times> u32) list"

definition new_PanNet :: "bool \<Rightarrow> PanNet" where
  "new_PanNet host_device =
     \<lparr>isHost = host_device, isReserved = False, n_Token = 0, initBroadcastSent = False, numDest = 0,
      hostMap = [], sendQ = []\<rparr>"

definition CheckToken :: "u32 \<Rightarrow> PanNet \<Rightarrow> bool" where
  "CheckToken T N = (if \<not> isReserved N then False else if n_Token N = T then True else False)"

definition RevokeToken :: "PanNet \<Rightarrow> PanNet" where
  "RevokeToken N = N\<lparr>isReserved := False, n_Token := 0\<rparr>"

definition SetToken :: "u32 \<Rightarrow> PanNet \<Rightarrow> bool \<times> PanNet" where
  "SetToken T N = (if \<not> isReserved N then (True, N\<lparr>n_Token := T, isReserved := True\<rparr>) else (False, N))"

text \<open>Assignment to a key of the host map.\<close>

fun host_set :: "int \<Rightarrow> bool \<Rightarrow> (int \<times> bool) list \<Rightarrow> (int \<times> bool) list" where
  "host_set k v [] = [(k, v)]"
| "host_set k v ((k', v') # m) =
     (if k < k' then (k, v) # (k', v') # m else if k = k' then (k, v) # m else (k', v') # host_set k v m)"

text \<open>
  The init phase: once the network is up, the endpoint broadcasts one event whose tag says whether it is a host;
  the broadcasts that have arrived are entered in the host map. The result also has the event sent, if any.
\<close>

definition init_net :: "bool \<Rightarrow> string \<Rightarrow> u32 \<Rightarrow> (int \<times> panNicEvent) list \<Rightarrow> PanNet \<Rightarrow> panNicEvent option \<times> PanNet" where
  "init_net up name junk arrived N =
     (let snd_now = up \<and> \<not> initBroadcastSent N;
          ev = setTag (if isHost N then 1 else 0) (new_panNicEvent name junk);
          N1 = (if snd_now then N\<lparr>initBroadcastSent := True\<rparr> else N);
          N2 = foldl (\<lambda>N (src, ev). N\<lparr>numDest := numDest N + 1, hostMap := host_set src (v_Tag ev \<noteq> 0) (hostMap N)\<rparr>) N1 arrived
      in (if snd_now then Some ev else None, N2))"

text \<open>\<open>hostMap[NID]\<close> inserts an entry for an unknown endpoint.\<close>

definition IsRemoteHost :: "int \<Rightarrow> PanNet \<Rightarrow> bool \<times> PanNet" where
  "IsRemoteHost NID N =
     (case map_of (hostMap N) NID of
        Some b \<Rightarrow> (b, N)
      | None \<Rightarrow> (False, N\<lparr>hostMap := host_set NID False (hostMap N)\<rparr>))"

definition getNumPEs :: "PanNet \<Rightarrow> u32" where
  "getNumPEs N = of_nat (length (hostMap N))"

definition getHostFromIdx :: "u32 \<Rightarrow> PanNet \<Rightarrow> int" where
  "getHostFromIdx Idx N =
     (if (ucast Idx :: u64) > of_nat (length (hostMap N)) - 1 then -1
      else if unat Idx < length (hostMap N) then fst (hostMap N ! unat Idx)
      else -1)"

definition send_net :: "panNicEvent \<Rightarrow> u32 \<Rightarrow> PanNet \<Rightarrow> PanNet" where
  "send_net event destination N = N\<lparr>sendQ := sendQ N @ [(event, destination)]\<rparr>"

text \<open>
  The clock function offers the requests to the network in order until it has no space or refuses one. The
  network is any state with the two functions of its interface; the clock function never asks to be removed.
\<close>

fun drain :: "('n \<Rightarrow> bool) \<Rightarrow> (panNicEvent \<times> u32 \<Rightarrow> 'n \<Rightarrow> bool \<times> 'n) \<Rightarrow> (panNicEvent \<times> u32) list \<Rightarrow> 'n \<Rightarrow>
    (panNicEvent \<times> u32) list \<times> 'n" where
  "drain space net_send [] n = ([], n)"
| "drain space net_send (r # rs) n =
     (if space n then
        (let (ok, n1) = net_send r n in if ok then drain space net_send rs n1 else (r # rs, n1))
      else (r # rs, n))"

definition clockTick_net :: "('n \<Rightarrow> bool) \<Rightarrow> (panNicEvent \<times> u32 \<Rightarrow> 'n \<Rightarrow> bool \<times> 'n) \<Rightarrow> 'n \<Rightarrow> PanNet \<Rightarrow> bool \<times> 'n \<times> PanNet" where
  "clockTick_net space net_send n N =
     (let (q, n1) = drain space net_send (sendQ N) n in (False, n1, N\<lparr>sendQ := q\<rparr>))"

end
