(* ===== verification/Rev_Opts.thy ===== *)
theory Rev_Opts
  imports Rev_Prelude
begin

text \<open>
  The options of the simulator (include/RevOpts.h, src/RevOpts.cc): per-core settings that start with defaults
  and are overridden by strings such as \<open>0:RV64GC\<close> or \<open>CORES:0x10000\<close>. The maps from core numbers are partial
  functions; \<open>find(c)->second\<close> dereferences the end of the map when \<open>c\<close> is no key, \<open>at(c)\<close> throws.
\<close>

section \<open>Conversion of strings to numbers\<close>

text \<open>
  \<open>std::stoi\<close>, \<open>std::stoul\<close> and \<open>std::stoull\<close> with base 0: white space, an optional sign, a prefix that chooses
  the base, then the longest sequence of digits; what follows is ignored.
\<close>

definition is_space :: "char \<Rightarrow> bool" where
  "is_space c \<longleftrightarrow> of_char c = (32 :: nat) \<or> (9 \<le> (of_char c :: nat) \<and> (of_char c :: nat) \<le> 13)"

definition digit_val :: "char \<Rightarrow> int" where
  "digit_val c =
     (let n = of_char c
      in if 48 \<le> n \<and> n \<le> 57 then n - 48
         else if 97 \<le> n \<and> n \<le> 122 then n - 87
         else if 65 \<le> n \<and> n \<le> 90 then n - 55
         else 36)"

definition take_sign :: "string \<Rightarrow> bool \<times> string" where
  "take_sign s = (if s \<noteq> [] \<and> hd s = CHR ''-'' then (True, tl s) else if s \<noteq> [] \<and> hd s = CHR ''+'' then (False, tl s) else (False, s))"

definition take_base :: "string \<Rightarrow> int \<times> string" where
  "take_base s =
     (if s \<noteq> [] \<and> hd s = CHR ''0'' then
        (if 3 \<le> length s \<and> (s ! 1 = CHR ''x'' \<or> s ! 1 = CHR ''X'') \<and> digit_val (s ! 2) < 16 then (16, drop 2 s) else (8, s))
      else (10, s))"

definition parse_number :: "string \<Rightarrow> (bool \<times> int) res" where
  "parse_number s =
     (let (neg, s1) = take_sign (dropWhile is_space s);
          (base, s2) = take_base s1;
          ds = takeWhile (\<lambda>d. d < base) (map digit_val s2)
      in if ds = [] then Inl Exc_invalid_argument else Inr (neg, foldl (\<lambda>a d. a * base + d) 0 ds))"

definition stoi :: "string \<Rightarrow> u32 res" where
  "stoi s =
     bind_res (parse_number s) (\<lambda>(neg, n).
       if neg \<and> n > 2 ^ 31 \<or> \<not> neg \<and> n \<ge> 2 ^ 31 then Inl Exc_out_of_range
       else Inr (word_of_int (if neg then - n else n)))"

definition stoull :: "string \<Rightarrow> u64 res" where
  "stoull s =
     bind_res (parse_number s) (\<lambda>(neg, n).
       if n \<ge> 2 ^ 64 then Inl Exc_out_of_range else Inr (word_of_int (if neg then - n else n)))"


section \<open>State\<close>

record RevOpts =
  numCores :: u32
  opt_verbosity :: u32
  startAddr :: "u32 \<rightharpoonup> u64"
  startSym :: "u32 \<rightharpoonup> string"
  machine :: "u32 \<rightharpoonup> string"
  inst_table :: "u32 \<rightharpoonup> string"
  prefetchDepth :: "u32 \<rightharpoonup> u32"
  memCosts :: "(u32 \<times> u32) list"
  Argv :: "string list"

definition new_RevOpts :: "u32 \<Rightarrow> u32 \<Rightarrow> RevOpts" where
  "new_RevOpts NumCores Verbosity =
     (let all = (\<lambda>v i. if i < NumCores then Some v else None)
      in \<lparr>numCores = NumCores, opt_verbosity = Verbosity, startAddr = (\<lambda>i. if i < NumCores then Some 0 else None),
          startSym = Map.empty, machine = all ''G'', inst_table = all ''_REV_INTERNAL_'',
          prefetchDepth = (\<lambda>i. if i < NumCores then Some 16 else None),
          memCosts = replicate (unat NumCores) (0, 10), Argv = []\<rparr>)"

definition SetArgs :: "string list \<Rightarrow> RevOpts \<Rightarrow> RevOpts" where
  "SetArgs A S = S\<lparr>Argv := A\<rparr>"


section \<open>Initialisation\<close>

text \<open>
  \<open>splitStr\<close>: the loop runs from one separator to the next, and the rest after the last one is the last token.
  The empty string has no token.
\<close>

function split_loop :: "char \<Rightarrow> string \<Rightarrow> string list" where
  "split_loop c s =
     (let r = dropWhile (\<lambda>x. x \<noteq> c) s
      in if r = [] then [s] else takeWhile (\<lambda>x. x \<noteq> c) s # split_loop c (tl r))"
  by pat_completeness auto
termination
proof (relation "measure (\<lambda>(c, s). length s)")
  fix c :: char and s r :: string
  assume r: "r = dropWhile (\<lambda>x. x \<noteq> c) s" and "r \<noteq> []"
  then have "length (tl r) < length r" by (cases r) simp_all
  also have "\<dots> \<le> length s" unfolding r by (rule length_dropWhile_le)
  finally show "((c, tl r), c, s) \<in> measure (\<lambda>(c, s). length s)" by simp
qed simp

declare split_loop.simps [simp del]

definition splitStr_opts :: "string \<Rightarrow> char \<Rightarrow> string list" where
  "splitStr_opts s c = (if s = [] then [] else split_loop c s)"

text \<open>Assignment through \<open>find(k)->second\<close> and through \<open>at(k)\<close>.\<close>

definition find_set :: "u32 \<Rightarrow> 'a \<Rightarrow> (u32 \<rightharpoonup> 'a) \<Rightarrow> (u32 \<rightharpoonup> 'a) res" where
  "find_set k v m = (case m k of None \<Rightarrow> Inl UB_OutOfBounds | Some _ \<Rightarrow> Inr (m(k \<mapsto> v)))"

definition at_set :: "u32 \<Rightarrow> 'a \<Rightarrow> (u32 \<rightharpoonup> 'a) \<Rightarrow> (u32 \<rightharpoonup> 'a) res" where
  "at_set k v m = (case m k of None \<Rightarrow> Inl Exc_out_of_range | Some _ \<Rightarrow> Inr (m(k \<mapsto> v)))"

text \<open>The loop the functions share, over the option strings split at the colon; a token list that is refused ends it.\<close>

fun for_entries :: "(string list \<Rightarrow> RevOpts \<Rightarrow> (bool \<times> RevOpts) res) \<Rightarrow> string list \<Rightarrow> RevOpts \<Rightarrow> (bool \<times> RevOpts) res" where
  "for_entries f [] S = Inr (True, S)"
| "for_entries f (s # ss) S =
     bind_res (f (splitStr_opts s CHR '':'') S) (\<lambda>(ok, S1). if ok then for_entries f ss S1 else Inr (False, S1))"

definition core_entry :: "(u32 \<Rightarrow> string \<Rightarrow> RevOpts \<Rightarrow> RevOpts res) \<Rightarrow> string list \<Rightarrow> RevOpts \<Rightarrow> (bool \<times> RevOpts) res" where
  "core_entry upd vstr S =
     (if length vstr \<noteq> 2 then Inr (False, S)
      else bind_res (stoi (vstr ! 0)) (\<lambda>Core.
             if Core > numCores S then Inr (False, S)
             else bind_res (upd Core (vstr ! 1) S) (\<lambda>S1. Inr (True, S1))))"

definition set_depth :: "u32 \<Rightarrow> string \<Rightarrow> RevOpts \<Rightarrow> RevOpts res" where
  "set_depth Core v S =
     bind_res (stoull v) (\<lambda>Depth.
     bind_res (find_set Core (ucast Depth) (prefetchDepth S)) (\<lambda>m. Inr (S\<lparr>prefetchDepth := m\<rparr>)))"

definition set_addr :: "u32 \<Rightarrow> string \<Rightarrow> RevOpts \<Rightarrow> RevOpts res" where
  "set_addr Core v S =
     bind_res (stoull v) (\<lambda>Addr.
     bind_res (find_set Core Addr (startAddr S)) (\<lambda>m. Inr (S\<lparr>startAddr := m\<rparr>)))"

text \<open>\<open>insert\<close> does not replace a symbol that is already there.\<close>

definition set_symbol :: "u32 \<Rightarrow> string \<Rightarrow> RevOpts \<Rightarrow> RevOpts res" where
  "set_symbol Core v S =
     Inr (case startSym S Core of None \<Rightarrow> S\<lparr>startSym := (startSym S)(Core \<mapsto> v)\<rparr> | Some _ \<Rightarrow> S)"

definition set_machine :: "u32 \<Rightarrow> string \<Rightarrow> RevOpts \<Rightarrow> RevOpts res" where
  "set_machine Core v S = bind_res (at_set Core v (machine S)) (\<lambda>m. Inr (S\<lparr>machine := m\<rparr>))"

definition set_table :: "u32 \<Rightarrow> string \<Rightarrow> RevOpts \<Rightarrow> RevOpts res" where
  "set_table Core v S = bind_res (at_set Core v (inst_table S)) (\<lambda>m. Inr (S\<lparr>inst_table := m\<rparr>))"

definition InitPrefetchDepth :: "string list \<Rightarrow> RevOpts \<Rightarrow> (bool \<times> RevOpts) res" where
  "InitPrefetchDepth Depths S = for_entries (core_entry set_depth) Depths S"

fun set_all :: "(u32 \<Rightarrow> RevOpts \<Rightarrow> RevOpts res) \<Rightarrow> nat \<Rightarrow> RevOpts \<Rightarrow> RevOpts res" where
  "set_all f 0 S = Inr S"
| "set_all f (Suc n) S = bind_res (set_all f n S) (f (of_nat n))"

definition InitStartAddrs :: "string list \<Rightarrow> RevOpts \<Rightarrow> (bool \<times> RevOpts) res" where
  "InitStartAddrs StartAddrs S =
     (if length StartAddrs = 1 \<and> length (splitStr_opts (StartAddrs ! 0) CHR '':'') \<noteq> 2 then Inr (False, S)
      else if length StartAddrs = 1 \<and> splitStr_opts (StartAddrs ! 0) CHR '':'' ! 0 = ''CORES'' then
        bind_res (stoull (splitStr_opts (StartAddrs ! 0) CHR '':'' ! 1)) (\<lambda>Addr.
        bind_res (set_all (\<lambda>i S. bind_res (find_set i Addr (startAddr S)) (\<lambda>m. Inr (S\<lparr>startAddr := m\<rparr>)))
                    (unat (numCores S)) S) (\<lambda>S1. Inr (True, S1)))
      else for_entries (core_entry set_addr) StartAddrs S)"

definition InitStartSymbols :: "string list \<Rightarrow> RevOpts \<Rightarrow> (bool \<times> RevOpts) res" where
  "InitStartSymbols StartSymbols S = for_entries (core_entry set_symbol) StartSymbols S"

definition InitMachineModels :: "string list \<Rightarrow> RevOpts \<Rightarrow> (bool \<times> RevOpts) res" where
  "InitMachineModels Machines S =
     (if length Machines = 1 \<and> length (splitStr_opts (Machines ! 0) CHR '':'') \<noteq> 2 then Inr (False, S)
      else if length Machines = 1 \<and> splitStr_opts (Machines ! 0) CHR '':'' ! 0 = ''CORES'' then
        bind_res (set_all (\<lambda>i. set_machine i (splitStr_opts (Machines ! 0) CHR '':'' ! 1)) (unat (numCores S)) S)
          (\<lambda>S1. Inr (True, S1))
      else for_entries (core_entry set_machine) Machines S)"

definition InitInstTables :: "string list \<Rightarrow> RevOpts \<Rightarrow> (bool \<times> RevOpts) res" where
  "InitInstTables InstTables S = for_entries (core_entry set_table) InstTables S"

text \<open>The costs are stored before they are checked, and the core number is not checked.\<close>

definition cost_entry :: "string list \<Rightarrow> RevOpts \<Rightarrow> (bool \<times> RevOpts) res" where
  "cost_entry vstr S =
     (if length vstr \<noteq> 3 then Inr (False, S)
      else bind_res (stoi (vstr ! 0)) (\<lambda>Core. bind_res (stoi (vstr ! 1)) (\<lambda>Min. bind_res (stoi (vstr ! 2)) (\<lambda>Max.
             if unat Core < length (memCosts S) then
               Inr (\<not> (Min = 0 \<or> Max = 0), S\<lparr>memCosts := (memCosts S)[unat Core := (Min, Max)]\<rparr>)
             else Inl UB_OutOfBounds))))"

definition InitMemCosts :: "string list \<Rightarrow> RevOpts \<Rightarrow> (bool \<times> RevOpts) res" where
  "InitMemCosts MemCosts S = for_entries cost_entry MemCosts S"


section \<open>Queries\<close>

text \<open>The result is \<open>None\<close> where the source returns false and leaves the reference argument alone.\<close>

definition GetPrefetchDepth :: "u32 \<Rightarrow> RevOpts \<Rightarrow> u32 option res" where
  "GetPrefetchDepth Core S = Inr (if Core > numCores S then None else prefetchDepth S Core)"

definition GetStartAddr :: "u32 \<Rightarrow> RevOpts \<Rightarrow> u64 option res" where
  "GetStartAddr Core S = Inr (if Core > numCores S then None else startAddr S Core)"

definition GetStartSymbol :: "u32 \<Rightarrow> RevOpts \<Rightarrow> string option res" where
  "GetStartSymbol Core S =
     Inr (if Core > numCores S then None
          else Some (case startSym S Core of None \<Rightarrow> ''main'' | Some s \<Rightarrow> s))"

definition GetMachineModel :: "u32 \<Rightarrow> RevOpts \<Rightarrow> string option res" where
  "GetMachineModel Core S =
     (if Core > numCores S then Inr None
      else case machine S Core of None \<Rightarrow> Inl Exc_out_of_range | Some m \<Rightarrow> Inr (Some m))"

definition GetInstTable :: "u32 \<Rightarrow> RevOpts \<Rightarrow> string option res" where
  "GetInstTable Core S =
     (if Core > numCores S then Inr None
      else case inst_table S Core of None \<Rightarrow> Inl Exc_out_of_range | Some m \<Rightarrow> Inr (Some m))"

definition GetMemCost :: "u32 \<Rightarrow> RevOpts \<Rightarrow> (u32 \<times> u32) option res" where
  "GetMemCost Core S =
     (if Core > numCores S then Inr None
      else if unat Core < length (memCosts S) then Inr (Some (memCosts S ! unat Core)) else Inl UB_OutOfBounds)"


section \<open>Tokens\<close>

fun join :: "char \<Rightarrow> string list \<Rightarrow> string" where
  "join c [] = []"
| "join c [s] = s"
| "join c (s # t # ss) = s @ c # join c (t # ss)"

lemma split_loop_Nil: "split_loop c s \<noteq> []"
  by (subst split_loop.simps) (simp add: Let_def)

lemma join_Cons: "ss \<noteq> [] \<Longrightarrow> join c (s # ss) = s @ c # join c ss"
  by (cases ss) simp_all

lemma split_loop_join: "join c (split_loop c s) = s \<and> (\<forall>t\<in>set (split_loop c s). c \<notin> set t)"
proof (induction c s rule: split_loop.induct)
  case (1 c s)
  let ?r = "dropWhile (\<lambda>x. x \<noteq> c) s"
  show ?case
  proof (cases "?r = []")
    case True
    then show ?thesis by (auto simp: split_loop.simps [of c s])
  next
    case False
    then have h: "?r = c # tl ?r" using hd_dropWhile [OF False] by (cases ?r) simp_all
    have "s = takeWhile (\<lambda>x. x \<noteq> c) s @ ?r" by simp
    then have s: "s = takeWhile (\<lambda>x. x \<noteq> c) s @ c # tl ?r" using h by metis
    have "c \<notin> set (takeWhile (\<lambda>x. x \<noteq> c) s)" by (auto dest: set_takeWhileD)
    then show ?thesis using 1 [OF refl False] False s split_loop_Nil [of c "tl ?r"]
      by (subst (1 2) split_loop.simps) (simp add: Let_def join_Cons)
  qed
qed

lemma split_join:
  assumes "ss \<noteq> []" and "\<forall>t\<in>set ss. c \<notin> set t"
  shows "split_loop c (join c ss) = ss"
  using assms
proof (induction c ss rule: join.induct)
  case (2 c s)
  then have "dropWhile (\<lambda>x. x \<noteq> c) s = []" by (simp add: dropWhile_eq_Nil_conv) metis
  then show ?case by (simp add: split_loop.simps)
next
  case (3 c s t ss)
  then have "\<forall>x\<in>set s. x \<noteq> c" by auto
  then have "dropWhile (\<lambda>x. x \<noteq> c) (s @ c # join c (t # ss)) = c # join c (t # ss)"
    "takeWhile (\<lambda>x. x \<noteq> c) (s @ c # join c (t # ss)) = s"
    by (simp_all add: dropWhile_append2 takeWhile_append2)
  then show ?case using 3 by (subst split_loop.simps) simp
qed simp

text \<open>
  Splitting an option string at the separator is the inverse of joining tokens: the tokens of any non-empty
  string contain no separator and join to the string, and no other list of such tokens does.
\<close>

theorem splitStr_join:
  assumes "s \<noteq> []"
  shows "splitStr_opts s c = ts \<longleftrightarrow> ts \<noteq> [] \<and> join c ts = s \<and> (\<forall>t\<in>set ts. c \<notin> set t)"
  using assms split_loop_join [of c s] split_join [of ts c] split_loop_Nil [of c s] by (auto simp: splitStr_opts_def)

theorem splitStr_join_witness: "splitStr_opts ''0:RV64G'' CHR '':'' = [''0'', ''RV64G'']"
  using splitStr_join [of "''0:RV64G''" "CHR '':''" "[''0'', ''RV64G'']"] by simp


section \<open>Numbers\<close>

text \<open>The decimal representation.\<close>

fun show_nat :: "nat \<Rightarrow> string" where
  "show_nat n = (if n < 10 then [char_of (48 + n)] else show_nat (n div 10) @ [char_of (48 + n mod 10)])"

declare show_nat.simps [simp del]

lemma of_char_digit: "d < 10 \<Longrightarrow> (of_char (char_of (48 + d :: nat) :: char) :: nat) = 48 + d"
  by (simp add: take_bit_nat_eq_self)

lemma of_char_int: "(of_char c :: int) = int (of_char c)"
  by (cases c) (simp add: of_char_Char)

lemma digit_of_char: "d < 10 \<Longrightarrow> digit_val (char_of (48 + d :: nat)) = int d"
  unfolding digit_val_def Let_def of_char_int of_char_digit by simp

lemma show_nat_digits:
  "foldl (\<lambda>a d. a * 10 + d) 0 (map digit_val (show_nat n)) = int n \<and>
   (\<forall>d\<in>set (map digit_val (show_nat n)). d < 10) \<and> show_nat n \<noteq> [] \<and>
   (\<forall>c\<in>set (show_nat n). 48 \<le> (of_char c :: nat) \<and> (of_char c :: nat) \<le> 57)"
proof (induction n rule: show_nat.induct)
  case (1 n)
  show ?case
  proof (cases "n < 10")
    case True
    then show ?thesis by (subst (1 2 3 4) show_nat.simps) (simp add: digit_of_char)
  next
    case False
    have sn: "show_nat n = show_nat (n div 10) @ [char_of (48 + n mod 10)]" using False by (subst show_nat.simps) simp
    have m: "n mod 10 < 10" by simp
    have "int (n div 10) * 10 + int (n mod 10) = int n" by (simp add: zdiv_int zmod_int)
    then show ?thesis using 1 [OF False] m unfolding sn by (simp add: digit_of_char of_char_digit del: of_nat_mod of_nat_div)
  qed
qed

lemma show_nat_hd: "0 < n \<Longrightarrow> hd (show_nat n) \<noteq> CHR ''0''"
proof (induction n rule: show_nat.induct)
  case (1 n)
  show ?case
  proof (cases "n < 10")
    case True
    have "(of_char (char_of (48 + n)) :: nat) \<noteq> of_char CHR ''0''" using True 1(2) by (simp add: take_bit_nat_eq_self)
    then have "char_of (48 + n) \<noteq> CHR ''0''" by metis
    then show ?thesis using True by (subst show_nat.simps) simp
  next
    case False
    moreover have "show_nat (n div 10) \<noteq> []" using show_nat_digits by blast
    ultimately show ?thesis using 1(1) by (subst show_nat.simps) simp
  qed
qed

lemma parse_show: "parse_number (show_nat n) = Inr (False, int n)"
proof -
  note sd = show_nat_digits [of n]
  obtain c s where cs: "show_nat n = c # s" using sd by (cases "show_nat n") auto
  then have c: "48 \<le> (of_char c :: nat)" "(of_char c :: nat) \<le> 57" using sd by auto
  have sp: "\<not> is_space c" "c \<noteq> CHR ''-''" "c \<noteq> CHR ''+''" using c by (auto simp: is_space_def)
  have sg: "take_sign (dropWhile is_space (show_nat n)) = (False, show_nat n)"
    using sp by (simp add: cs take_sign_def)
  have tw: "takeWhile (\<lambda>d. d < 10) (map digit_val (show_nat n)) = map digit_val (show_nat n)"
    using sd by (simp add: takeWhile_eq_all_conv)
  have z: "show_nat 0 = ''0''" "parse_number ''0'' = Inr (False, 0)" by code_simp+
  show ?thesis
  proof (cases "n = 0")
    case False
    then have "take_base (show_nat n) = (10, show_nat n)" using show_nat_hd [of n] by (simp add: take_base_def)
    then show ?thesis using sd by (simp add: parse_number_def sg tw Let_def)
  qed (simp add: z)
qed

lemma stoi_show: "n < 2 ^ 31 \<Longrightarrow> stoi (show_nat n) = Inr (of_nat n)"
  by (simp add: stoi_def parse_show)

lemma stoull_show: "n < 2 ^ 64 \<Longrightarrow> stoull (show_nat n) = Inr (of_nat n)"
  by (simp add: stoull_def parse_show)


section \<open>The settings of the cores\<close>

definition opts_ok :: "RevOpts \<Rightarrow> bool" where
  "opts_ok S \<longleftrightarrow> dom (startAddr S) = {i. i < numCores S} \<and> dom (machine S) = {i. i < numCores S} \<and>
     dom (inst_table S) = {i. i < numCores S} \<and> dom (prefetchDepth S) = {i. i < numCores S} \<and>
     length (memCosts S) = unat (numCores S)"

lemma set_dom:
  "find_set k v m = Inr m' \<Longrightarrow> dom m' = dom m" "at_set k v m = Inr m' \<Longrightarrow> dom m' = dom m"
  by (auto simp: find_set_def at_set_def split: option.splits if_splits)

lemma opts_ok_upd:
  "find_set k a (startAddr S) = Inr m1 \<Longrightarrow> opts_ok S \<Longrightarrow> opts_ok (S\<lparr>startAddr := m1\<rparr>)"
  "find_set k d (prefetchDepth S) = Inr m2 \<Longrightarrow> opts_ok S \<Longrightarrow> opts_ok (S\<lparr>prefetchDepth := m2\<rparr>)"
  "at_set k t (machine S) = Inr m3 \<Longrightarrow> opts_ok S \<Longrightarrow> opts_ok (S\<lparr>machine := m3\<rparr>)"
  "at_set k t (inst_table S) = Inr m4 \<Longrightarrow> opts_ok S \<Longrightarrow> opts_ok (S\<lparr>inst_table := m4\<rparr>)"
  "opts_ok (S\<lparr>startSym := m5\<rparr>) = opts_ok S"
  by (frule set_dom, simp add: opts_ok_def)+ (simp add: opts_ok_def)

lemma setters_ok:
  "set_depth c v S = Inr S' \<Longrightarrow> opts_ok S \<Longrightarrow> opts_ok S' \<and> numCores S' = numCores S"
  "set_addr c v S = Inr S' \<Longrightarrow> opts_ok S \<Longrightarrow> opts_ok S' \<and> numCores S' = numCores S"
  "set_symbol c v S = Inr S' \<Longrightarrow> opts_ok S \<Longrightarrow> opts_ok S' \<and> numCores S' = numCores S"
  "set_machine c v S = Inr S' \<Longrightarrow> opts_ok S \<Longrightarrow> opts_ok S' \<and> numCores S' = numCores S"
  "set_table c v S = Inr S' \<Longrightarrow> opts_ok S \<Longrightarrow> opts_ok S' \<and> numCores S' = numCores S"
  by (auto simp: set_depth_def set_addr_def set_symbol_def set_machine_def set_table_def opts_ok_upd split: option.splits)

lemma for_entries_ok:
  assumes "\<And>v S ok S'. f v S = Inr (ok, S') \<Longrightarrow> opts_ok S \<Longrightarrow> opts_ok S' \<and> numCores S' = numCores S"
  shows "for_entries f ss S = Inr (ok, S') \<Longrightarrow> opts_ok S \<Longrightarrow> opts_ok S' \<and> numCores S' = numCores S"
proof (induction ss arbitrary: S)
  case (Cons s ss)
  then obtain ok1 S1 where "f (splitStr_opts s CHR '':'') S = Inr (ok1, S1)"
    "if ok1 then for_entries f ss S1 = Inr (ok, S') else S' = S1" by (auto split: if_splits)
  with assms [OF this(1) Cons.prems(2)] Cons.IH [of S1] show ?case by (auto split: if_splits)
qed simp

lemma core_entry_ok:
  assumes "\<And>c v S S'. upd c v S = Inr S' \<Longrightarrow> opts_ok S \<Longrightarrow> opts_ok S' \<and> numCores S' = numCores S"
  shows "core_entry upd v S = Inr (ok, S') \<Longrightarrow> opts_ok S \<Longrightarrow> opts_ok S' \<and> numCores S' = numCores S"
  using assms by (auto simp: core_entry_def split: if_splits)

lemma entries_ok:
  assumes "\<And>c v S S'. upd c v S = Inr S' \<Longrightarrow> opts_ok S \<Longrightarrow> opts_ok S' \<and> numCores S' = numCores S"
  shows "for_entries (core_entry upd) ss S = Inr (ok, S') \<Longrightarrow> opts_ok S \<Longrightarrow> opts_ok S' \<and> numCores S' = numCores S"
  by (rule for_entries_ok) (rule core_entry_ok [OF assms])

lemma cost_entry_ok: "cost_entry v S = Inr (ok, S') \<Longrightarrow> opts_ok S \<Longrightarrow> opts_ok S' \<and> numCores S' = numCores S"
  by (auto simp: cost_entry_def split: if_splits) (simp_all add: opts_ok_def)

lemma set_all_ok:
  assumes "\<And>i S S'. f i S = Inr S' \<Longrightarrow> opts_ok S \<Longrightarrow> opts_ok S' \<and> numCores S' = numCores S"
  shows "set_all f n S = Inr S' \<Longrightarrow> opts_ok S \<Longrightarrow> opts_ok S' \<and> numCores S' = numCores S"
proof (induction n arbitrary: S')
  case (Suc n)
  then obtain S1 where "set_all f n S = Inr S1" "f (of_nat n) S1 = Inr S'" by auto
  with Suc.IH [of S1] Suc.prems(2) assms [of "of_nat n" S1 S'] show ?case by simp
qed simp

lemma init_ok:
  assumes "opts_ok S"
  shows "InitStartAddrs ss S = Inr (ok, S') \<Longrightarrow> opts_ok S' \<and> numCores S' = numCores S"
    "InitStartSymbols ss S = Inr (ok, S') \<Longrightarrow> opts_ok S' \<and> numCores S' = numCores S"
    "InitMachineModels ss S = Inr (ok, S') \<Longrightarrow> opts_ok S' \<and> numCores S' = numCores S"
    "InitInstTables ss S = Inr (ok, S') \<Longrightarrow> opts_ok S' \<and> numCores S' = numCores S"
    "InitMemCosts ss S = Inr (ok, S') \<Longrightarrow> opts_ok S' \<and> numCores S' = numCores S"
    "InitPrefetchDepth ss S = Inr (ok, S') \<Longrightarrow> opts_ok S' \<and> numCores S' = numCores S"
proof -
  have all_addr: "set_all (\<lambda>i S. bind_res (find_set i a (startAddr S)) (\<lambda>m. Inr (S\<lparr>startAddr := m\<rparr>))) n S = Inr S' \<Longrightarrow>
      opts_ok S' \<and> numCores S' = numCores S" for a n S'
    by (rule set_all_ok [OF _ _ assms]) (auto simp: opts_ok_upd)
  have all_machine: "set_all (\<lambda>i. set_machine i m) n S = Inr S' \<Longrightarrow> opts_ok S' \<and> numCores S' = numCores S" for m n S'
    by (rule set_all_ok [OF _ _ assms]) (rule setters_ok)
  show "InitStartAddrs ss S = Inr (ok, S') \<Longrightarrow> opts_ok S' \<and> numCores S' = numCores S"
    using entries_ok [OF setters_ok(2) _ assms] assms all_addr by (auto simp: InitStartAddrs_def split: if_splits)
  show "InitMachineModels ss S = Inr (ok, S') \<Longrightarrow> opts_ok S' \<and> numCores S' = numCores S"
    using entries_ok [OF setters_ok(4) _ assms] assms all_machine by (auto simp: InitMachineModels_def split: if_splits)
  show "InitStartSymbols ss S = Inr (ok, S') \<Longrightarrow> opts_ok S' \<and> numCores S' = numCores S"
    "InitInstTables ss S = Inr (ok, S') \<Longrightarrow> opts_ok S' \<and> numCores S' = numCores S"
    "InitPrefetchDepth ss S = Inr (ok, S') \<Longrightarrow> opts_ok S' \<and> numCores S' = numCores S"
    using entries_ok [OF setters_ok(3) _ assms] entries_ok [OF setters_ok(5) _ assms] entries_ok [OF setters_ok(1) _ assms]
    by (simp_all add: InitStartSymbols_def InitInstTables_def InitPrefetchDepth_def)
  show "InitMemCosts ss S = Inr (ok, S') \<Longrightarrow> opts_ok S' \<and> numCores S' = numCores S"
    using for_entries_ok [OF cost_entry_ok _ assms] by (simp add: InitMemCosts_def)
qed

text \<open>The option objects that a sequence of initialisation calls can produce, whether a call accepts its strings or not.\<close>

inductive opts_reach :: "u32 \<Rightarrow> RevOpts \<Rightarrow> bool" for n where
  "opts_reach n (new_RevOpts n v)"
| "opts_reach n S \<Longrightarrow> InitStartAddrs ss S = Inr (ok, S') \<Longrightarrow> opts_reach n S'"
| "opts_reach n S \<Longrightarrow> InitStartSymbols ss S = Inr (ok, S') \<Longrightarrow> opts_reach n S'"
| "opts_reach n S \<Longrightarrow> InitMachineModels ss S = Inr (ok, S') \<Longrightarrow> opts_reach n S'"
| "opts_reach n S \<Longrightarrow> InitInstTables ss S = Inr (ok, S') \<Longrightarrow> opts_reach n S'"
| "opts_reach n S \<Longrightarrow> InitMemCosts ss S = Inr (ok, S') \<Longrightarrow> opts_reach n S'"
| "opts_reach n S \<Longrightarrow> InitPrefetchDepth ss S = Inr (ok, S') \<Longrightarrow> opts_reach n S'"
| "opts_reach n S \<Longrightarrow> opts_reach n (SetArgs A S)"

lemma opts_reach_ok: "opts_reach n S \<Longrightarrow> opts_ok S \<and> numCores S = n"
proof (induction rule: opts_reach.induct)
  case (1 v)
  show ?case by (auto simp: opts_ok_def new_RevOpts_def dom_def)
next
  case (8 S A)
  then show ?case by (simp add: opts_ok_def SetArgs_def)
qed (use init_ok in \<open>metis+\<close>)

text \<open>
  C40. Whatever option strings have been given, every setting of every core is defined: for a core number below the
  number of cores all queries return a value, and they throw no exception. Above the number of cores they return false. The
  number of cores itself is left out, since the range check of the queries is off by one.
\<close>

theorem opts_queries_defined:
  assumes "opts_reach n S" and "c \<noteq> n"
  shows "if c < n then
      (\<exists>x. GetStartAddr c S = Inr (Some x)) \<and> (\<exists>x. GetStartSymbol c S = Inr (Some x)) \<and>
      (\<exists>x. GetMachineModel c S = Inr (Some x)) \<and> (\<exists>x. GetInstTable c S = Inr (Some x)) \<and>
      (\<exists>x. GetMemCost c S = Inr (Some x)) \<and> (\<exists>x. GetPrefetchDepth c S = Inr (Some x))
    else GetStartAddr c S = Inr None \<and> GetStartSymbol c S = Inr None \<and> GetMachineModel c S = Inr None \<and>
      GetInstTable c S = Inr None \<and> GetMemCost c S = Inr None \<and> GetPrefetchDepth c S = Inr None"
proof (cases "c < n")
  case True
  have ok: "opts_ok S" "numCores S = n" using opts_reach_ok [OF assms(1)] by simp_all
  then have "c \<in> dom (startAddr S)" "c \<in> dom (machine S)" "c \<in> dom (inst_table S)" "c \<in> dom (prefetchDepth S)"
    "unat c < length (memCosts S)" using True by (simp_all add: opts_ok_def word_less_nat_alt)
  then show ?thesis using True ok(2)
    by (auto simp: GetStartAddr_def GetStartSymbol_def GetMachineModel_def GetInstTable_def GetMemCost_def
        GetPrefetchDepth_def)
next
  case False
  then have "numCores S < c" using assms opts_reach_ok [OF assms(1)] by simp
  then show ?thesis using False
    by (simp add: GetStartAddr_def GetStartSymbol_def GetMachineModel_def GetInstTable_def GetMemCost_def
        GetPrefetchDepth_def)
qed

text \<open>An option string for one core, and its tokens.\<close>

definition core_opt :: "nat \<Rightarrow> string \<Rightarrow> string" where
  "core_opt c v = show_nat c @ '':'' @ v"

lemma core_opt_tokens:
  assumes "CHR '':'' \<notin> set v"
  shows "splitStr_opts (core_opt c v) CHR '':'' = [show_nat c, v]"
proof -
  have "CHR '':'' \<notin> set (show_nat c)"
  proof
    assume "CHR '':'' \<in> set (show_nat c)"
    then have "(of_char CHR '':'' :: nat) \<le> 57" using show_nat_digits [of c] by blast
    then show False by simp
  qed
  moreover have "core_opt c v = join CHR '':'' [show_nat c, v]" by (simp add: core_opt_def)
  ultimately show ?thesis using split_join [of "[show_nat c, v]" "CHR '':''"] assms
    by (simp add: splitStr_opts_def core_opt_def)
qed

lemma core_not_CORES: "show_nat c \<noteq> ''CORES''"
proof
  assume "show_nat c = ''CORES''"
  then have "CHR ''C'' \<in> set (show_nat c)" by simp
  then have "(of_char CHR ''C'' :: nat) \<le> 57" using show_nat_digits [of c] by blast
  then show False by simp
qed

lemma machine_entry:
  assumes "opts_ok S" and "c < unat (numCores S)" and "c < 2 ^ 31"
  shows "core_entry set_machine [show_nat c, m] S = Inr (True, S\<lparr>machine := (machine S)(of_nat c \<mapsto> m)\<rparr>)"
proof -
  have u: "unat (of_nat c :: u32) = c" using assms(3) by (simp add: unsigned_of_nat take_bit_nat_eq_self)
  then have "of_nat c < numCores S" using assms(2) by (simp add: word_less_nat_alt)
  then have "of_nat c \<in> dom (machine S)" "\<not> numCores S < of_nat c" using assms(1) by (auto simp: opts_ok_def)
  then show ?thesis by (auto simp: core_entry_def stoi_show [OF assms(3)] set_machine_def at_set_def)
qed

lemma machine_entries:
  assumes "opts_ok S" and "\<forall>(c, m)\<in>set es. c < unat (numCores S) \<and> c < 2 ^ 31 \<and> CHR '':'' \<notin> set m"
  shows "for_entries (core_entry set_machine) (map (\<lambda>(c, m). core_opt c m) es) S =
    Inr (True, S\<lparr>machine := machine S ++ map_of (rev (map (\<lambda>(c, m). (of_nat c, m)) es))\<rparr>)"
  using assms
proof (induction es arbitrary: S)
  case (Cons e es)
  obtain c m where e: "e = (c, m)" by fastforce
  have c: "c < unat (numCores S)" "c < 2 ^ 31" "CHR '':'' \<notin> set m" using Cons.prems(2) e by auto
  let ?S = "S\<lparr>machine := (machine S)(of_nat c \<mapsto> m)\<rparr>"
  have step: "core_entry set_machine [show_nat c, m] S = Inr (True, ?S)" by (rule machine_entry [OF Cons.prems(1) c(1,2)])
  then have "set_machine (of_nat c) m S = Inr ?S"
    by (auto simp: core_entry_def stoi_show [OF c(2)] split: if_splits)
  then have "opts_ok ?S" "numCores ?S = numCores S" using setters_ok(4) Cons.prems(1) by blast+
  then have "for_entries (core_entry set_machine) (map (\<lambda>(c, m). core_opt c m) es) ?S =
      Inr (True, ?S\<lparr>machine := machine ?S ++ map_of (rev (map (\<lambda>(c, m). (of_nat c, m)) es))\<rparr>)"
    by (intro Cons.IH) (use Cons.prems(2) in simp_all)
  moreover have "machine ?S ++ map_of (rev (map (\<lambda>(c, m). (of_nat c, m)) es)) =
      machine S ++ map_of (rev (map (\<lambda>(c, m). (of_nat c, m)) (e # es)))"
    by (auto simp: e fun_eq_iff map_add_def split: option.split)
  ultimately show ?case by (simp only: e list.map prod.case for_entries.simps core_opt_tokens [OF c(3)] step
      bind_res_simps if_True) (simp del: fun_upd_apply)
qed simp

lemma set_all_machine:
  assumes "opts_ok S" and "k \<le> unat (numCores S)"
  shows "set_all (\<lambda>i. set_machine i m) k S = Inr (S\<lparr>machine := (\<lambda>i. if unat i < k then Some m else machine S i)\<rparr>)"
  using assms(2)
proof (induction k)
  case (Suc k)
  let ?f = "\<lambda>i. if unat i < k then Some m else machine S i"
  have "unat (numCores S) < 2 ^ 32" using unsigned_less [of "numCores S"] by simp
  then have "k < 2 ^ 32" using Suc.prems by linarith
  then have u: "unat (of_nat k :: u32) = k" by (simp add: unsigned_of_nat take_bit_nat_eq_self)
  then have "of_nat k < numCores S" using Suc.prems by (simp add: word_less_nat_alt)
  then have "of_nat k \<in> dom (machine S)" using assms(1) by (simp add: opts_ok_def)
  moreover have "?f(of_nat k \<mapsto> m) = (\<lambda>i. if unat i < Suc k then Some m else machine S i)"
    using u by (auto simp: fun_eq_iff less_Suc_eq)
  ultimately show ?case using Suc u by (auto simp: set_machine_def at_set_def)
qed simp

text \<open>
  The machine option: a list of strings with a core number in decimal and a machine each sets exactly the machines
  of the cores it names, where a later entry for a core wins; the single string \<open>CORES:m\<close> sets the machine of every core.
\<close>

theorem InitMachineModels_correct:
  assumes "opts_reach n S" and "\<forall>(c, m)\<in>set es. c < unat n \<and> c < 2 ^ 31 \<and> CHR '':'' \<notin> set m" and "CHR '':'' \<notin> set m0"
  shows "InitMachineModels (map (\<lambda>(c, m). core_opt c m) es) S =
      Inr (True, S\<lparr>machine := machine S ++ map_of (rev (map (\<lambda>(c, m). (of_nat c, m)) es))\<rparr>) \<and>
    InitMachineModels [''CORES:'' @ m0] S = Inr (True, S\<lparr>machine := (\<lambda>i. if i < n then Some m0 else None)\<rparr>)"
proof
  have ok: "opts_ok S" "numCores S = n" using opts_reach_ok [OF assms(1)] by simp_all
  have e: "for_entries (core_entry set_machine) (map (\<lambda>(c, m). core_opt c m) es) S =
    Inr (True, S\<lparr>machine := machine S ++ map_of (rev (map (\<lambda>(c, m). (of_nat c, m)) es))\<rparr>)"
    by (rule machine_entries [OF ok(1)]) (use assms(2) ok(2) in simp)
  have one: "splitStr_opts (map (\<lambda>(c, m). core_opt c m) es ! 0) CHR '':'' = [show_nat (fst (hd es)), snd (hd es)]" if "length es = 1"
    using that assms(2) core_opt_tokens by (cases es) auto
  show "InitMachineModels (map (\<lambda>(c, m). core_opt c m) es) S =
      Inr (True, S\<lparr>machine := machine S ++ map_of (rev (map (\<lambda>(c, m). (of_nat c, m)) es))\<rparr>)"
    unfolding InitMachineModels_def e using one core_not_CORES by auto
  have t: "splitStr_opts (''CORES:'' @ m0) CHR '':'' = [''CORES'', m0]"
    using split_join [of "[''CORES'', m0]" "CHR '':''"] assms(3) by (simp add: splitStr_opts_def)
  have "(\<lambda>i. if unat i < unat n then Some m0 else machine S i) = (\<lambda>i. if i < n then Some m0 else None)"
    using ok by (auto simp: opts_ok_def word_less_nat_alt fun_eq_iff dom_def)
  then show "InitMachineModels [''CORES:'' @ m0] S = Inr (True, S\<lparr>machine := (\<lambda>i. if i < n then Some m0 else None)\<rparr>)"
    using set_all_machine [OF ok(1), of "unat n" m0] ok(2) unfolding InitMachineModels_def nth_Cons_0 t by simp
qed

theorem InitMachineModels_correct_witness:
  "\<exists>S. InitMachineModels [''1:RV32I'', ''0:RV64G'', ''1:RV64GC''] (new_RevOpts 2 0) = Inr (True, S) \<and>
     GetMachineModel 0 S = Inr (Some ''RV64G'') \<and> GetMachineModel 1 S = Inr (Some ''RV64GC'')"
proof -
  let ?es = "[(1, ''RV32I''), (0, ''RV64G''), (1, ''RV64GC'')] :: (nat \<times> string) list"
  have s: "map (\<lambda>(c, m). core_opt c m) ?es = [''1:RV32I'', ''0:RV64G'', ''1:RV64GC'']" by code_simp
  have "\<forall>(c, m)\<in>set ?es. c < unat (2 :: u32) \<and> c < 2 ^ 31 \<and> CHR '':'' \<notin> set m" by simp
  from InitMachineModels_correct [OF opts_reach.intros(1) this, of "''G''" 0] show ?thesis
    unfolding s by (auto simp: GetMachineModel_def new_RevOpts_def Let_def)
qed

theorem opts_queries_defined_witness:
  "\<exists>x. GetMemCost 1 (new_RevOpts 2 0) = Inr (Some x)"
  using opts_queries_defined [OF opts_reach.intros(1) [of 2 0], of 1] by simp

text \<open>
  The test for the core number lets the number of cores itself pass: then \<open>find\<close> finds nothing and its result is
  dereferenced, while the maps accessed with \<open>at\<close> throw. The memory costs are stored although they are refused.
\<close>

lemma core_number_off_by_one:
  "InitStartAddrs [''2:0x1000'', ''0:0''] (new_RevOpts 2 0) = Inl UB_OutOfBounds"
  "InitInstTables [''2:t''] (new_RevOpts 2 0) = Inl Exc_out_of_range"
  "GetMemCost 2 (new_RevOpts 2 0) = Inl UB_OutOfBounds"
  "InitMemCosts [''2:1:5''] (new_RevOpts 2 0) = Inl UB_OutOfBounds"
  by code_simp+

lemma refused_costs_stored:
  "case InitMemCosts [''0:0:7''] (new_RevOpts 2 0) of Inr (ok, S) \<Rightarrow> \<not> ok \<and> memCosts S = [(0, 7), (0, 10)] | _ \<Rightarrow> False"
  by code_simp

end
