(* ===== verification/Rev_PanCPU.thy ===== *)
theory Rev_PanCPU
  imports Rev_Clock Rev_PanNet Rev_Opts Rev_MemAlloc
begin

text \<open>
  The top-level component (include/RevCPU.h, src/RevCPU.cc): the cores, the memory they share, and the PAN network
  commands, which let other nodes read and write this memory and control the cores. Commands of other nodes are
  handled as they arrive; the replies, and the commands that programs put into the RDMA mailbox, wait in the send
  mailbox, from which a clock cycle hands some to the endpoint.

  All cores point to the one memory and the one execution queue; the fields of the core records for them are set
  when a core runs. Statistics are a log of names. What uninitialised storage holds is unspecified: the field
  \<open>c_junk\<close> gives the bytes of a new buffer, and no operation changes it.
\<close>

section \<open>Addresses and states of the PAN runtime\<close>

definition PAN_COMPLETION_ADDR :: u64 where "PAN_COMPLETION_ADDR = 0x30000000"
definition PAN_RDMA_MAILBOX :: u64 where "PAN_RDMA_MAILBOX = 0x30000008"
definition PAN_RDMA_MAX_ENTRIES :: nat where "PAN_RDMA_MAX_ENTRIES = 255"
definition PAN_PE_TABLE_ADDR :: u64 where "PAN_PE_TABLE_ADDR = 0x30001F48"
definition PAN_PE_TABLE_MAX_ENTRIES :: nat where "PAN_PE_TABLE_MAX_ENTRIES = 1025"
definition PAN_XFER_BUF :: nat where "PAN_XFER_BUF = 1024"
definition PAN_XFER_BUF_ADDR :: u64 where "PAN_XFER_BUF_ADDR = 0x30005F68"
definition PAN_ENTRY_INJECTED :: u64 where "PAN_ENTRY_INJECTED = 1"
definition PAN_ENTRY_VALID :: u64 where "PAN_ENTRY_VALID = 2"
definition PAN_ENTRY_DONE_SUCCESS :: u64 where "PAN_ENTRY_DONE_SUCCESS = 3"
definition PAN_ENTRY_DONE_FAILED :: u64 where "PAN_ENTRY_DONE_FAILED = 4"

lemmas pan_addrs = PAN_COMPLETION_ADDR_def PAN_RDMA_MAILBOX_def PAN_RDMA_MAX_ENTRIES_def PAN_PE_TABLE_ADDR_def
  PAN_PE_TABLE_MAX_ENTRIES_def PAN_XFER_BUF_def PAN_XFER_BUF_ADDR_def
  PAN_ENTRY_INJECTED_def PAN_ENTRY_VALID_def PAN_ENTRY_DONE_SUCCESS_def PAN_ENTRY_DONE_FAILED_def


section \<open>State\<close>

text \<open>An entry of the read queue has the tag, the size, the remaining cost, the source and the address.\<close>

type_synonym read_rqst = "u8 \<times> u32 \<times> u32 \<times> u32 \<times> u64"

record RevCPU =
  c_name :: string
  c_numCores :: u32
  msgPerCycle :: u32
  RDMAPerCycle :: u32
  testStage :: u32
  testIters :: u32
  c_mem :: RevMem
  Procs :: "RevProc list"
  Enabled :: "bool list"
  PrivTag :: u8
  LToken :: u64
  address :: u32
  c_fault_width :: u32
  FaultCntr :: u64
  PrevAddr :: u64
  EnablePAN :: bool
  EnablePANStats :: bool
  EnableRDMAMBox :: bool
  EnableFaults :: bool
  EnableCrackFaults :: bool
  EnableMemFaults :: bool
  EnableRegFaults :: bool
  EnableALUFaults :: bool
  ReadyForRevoke :: bool
  RevokeHasArrived :: bool
  PNic :: PanNet
  c_PExec :: "PanExec option"
  SendMB :: "(panNicEvent \<times> u32) list"
  ZeroRqst :: "(u32 \<times> u8 list) list"
  TrackTags :: "(u8 \<times> u32) list"
  TrackGets :: "(u8 \<times> u64 \<times> u32) list"
  ReadQueue :: "read_rqst list"
  c_start :: u64
  c_stats :: "string list"
  c_coreStats :: "(nat \<times> RevProcStats \<times> u32 \<times> u32 \<times> u64 \<times> u64) list"
  c_junk :: "nat \<Rightarrow> u8"

text \<open>\<open>c_start\<close> is the address of the symbol \<open>_start\<close> of the loaded program.\<close>

definition uninit :: "nat \<Rightarrow> RevCPU \<Rightarrow> u8 list" where
  "uninit n S = map (c_junk S) [0..<n]"

definition new_event :: "RevCPU \<Rightarrow> panNicEvent" where
  "new_event S = new_panNicEvent (c_name S) (le_word (uninit 4 S))"

definition push_mb :: "panNicEvent \<Rightarrow> u32 \<Rightarrow> RevCPU \<Rightarrow> RevCPU" where
  "push_mb ev dst S = S\<lparr>SendMB := SendMB S @ [(ev, dst)]\<rparr>"

text \<open>
  The pointers to the network statistics are initialised only if these are enabled; otherwise their use is
  undefined.
\<close>

definition addData :: "string \<Rightarrow> RevCPU \<Rightarrow> RevCPU res" where
  "addData st S = (if EnablePANStats S then Inr (S\<lparr>c_stats := c_stats S @ [st]\<rparr>) else Inl UB_NullDeref)"


section \<open>Buffers of words\<close>

text \<open>Bytes of an array of 64-bit words, and the words of \<open>n\<close> groups of eight bytes.\<close>

definition bytes_of :: "u64 list \<Rightarrow> u8 list" where
  "bytes_of ws = concat (map (le_bytes 8) ws)"

definition words_of :: "nat \<Rightarrow> u8 list \<Rightarrow> u64 list" where
  "words_of n bs = map (\<lambda>i. le_word (take 8 (drop (8 * i) bs))) [0..<n]"

text \<open>A read of \<open>Len\<close> bytes into a new buffer, as bytes, and into a buffer of \<open>blocks\<close> words.\<close>

definition read_bytes :: "u64 \<Rightarrow> nat \<Rightarrow> RevCPU \<Rightarrow> (u8 list \<times> RevCPU) res" where
  "read_bytes Addr Len S =
     bind_res (ReadMem_deprecated Addr (uninit Len S) (c_mem S)) (\<lambda>(bs, M). Inr (bs, S\<lparr>c_mem := M\<rparr>))"

definition read_words :: "u64 \<Rightarrow> nat \<Rightarrow> nat \<Rightarrow> RevCPU \<Rightarrow> (u64 list \<times> RevCPU) res" where
  "read_words Addr Len blocks S =
     bind_res (read_bytes Addr Len S) (\<lambda>(bs, S1).
       Inr (words_of blocks (bs @ map (c_junk S) [Len..<8 * blocks]), S1))"

definition ReadU64 :: "u64 \<Rightarrow> RevCPU \<Rightarrow> (u64 \<times> RevCPU) res" where
  "ReadU64 Addr S = bind_res (read_bytes Addr 8 S) (\<lambda>(bs, S1). Inr (le_word bs, S1))"

definition write_mem :: "u64 \<Rightarrow> u8 list \<Rightarrow> RevCPU \<Rightarrow> RevCPU res" where
  "write_mem Addr bs S = bind_res (WriteMem 0 Addr bs (c_mem S)) (\<lambda>M. Inr (S\<lparr>c_mem := M\<rparr>))"


section \<open>Replies to commands of this node\<close>

text \<open>
  \<open>PANSignalMsgRecv\<close>: the first injected mailbox entry whose command has the tag gets the state \<open>sig\<close>. The loop
  looks at no more than the number of entries of the mailbox.
\<close>

fun signal_loop :: "nat \<Rightarrow> u64 \<Rightarrow> u8 \<Rightarrow> u64 \<Rightarrow> RevCPU \<Rightarrow> RevCPU res" where
  "signal_loop 0 Addr tag sig S = Inr S"
| "signal_loop (Suc k) Addr tag sig S =
     bind_res (read_words Addr 24 3 S) (\<lambda>(Payload, S1).
     bind_res (ReadU64 (Payload ! 2) S1) (\<lambda>(TagPayload, S2).
       let TmpTag = (ucast (drop_bit 32 TagPayload AND 0xFF) :: u8)
       in if TmpTag = tag \<and> Payload ! 0 = PAN_ENTRY_INJECTED then write_mem Addr (le_bytes 8 sig) S2
          else signal_loop k (Addr + 24) tag sig S2))"

definition PANSignalMsgRecv :: "u8 \<Rightarrow> u64 \<Rightarrow> RevCPU \<Rightarrow> RevCPU res" where
  "PANSignalMsgRecv tag sig S = signal_loop PAN_RDMA_MAX_ENTRIES PAN_RDMA_MAILBOX tag sig S"

text \<open>
  The loop of \<open>PANHandleSuccess\<close> over the outstanding gets assigns the tag of the reply to every entry it visits
  and tests the assigned value. For tag 0 the test always fails. Otherwise the first entry is taken: an
  uninitialised buffer is written to its address and it is erased; if others are left, the loop goes on with the
  erased iterator, which is undefined like an index out of bounds.
\<close>

definition success_gets :: "u8 \<Rightarrow> RevCPU \<Rightarrow> RevCPU res" where
  "success_gets tag S =
     (if tag = 0 then Inr (S\<lparr>TrackGets := map (\<lambda>(_, a, n). (0, a, n)) (TrackGets S)\<rparr>)
      else case TrackGets S of
             [] \<Rightarrow> Inr S
           | (_, a, n) # gs \<Rightarrow>
               bind_res (write_mem a (uninit (unat n) S) S) (\<lambda>S1.
                 if gs = [] then Inr (S1\<lparr>TrackGets := []\<rparr>) else Inl UB_OutOfBounds))"

definition PANHandleSuccess :: "panNicEvent \<Rightarrow> RevCPU \<Rightarrow> RevCPU res" where
  "PANHandleSuccess event S =
     (if (v_Tag event, v_Src event) \<notin> set (TrackTags S) then Inl (Fatal_CPU ''failed to find matching tag'')
      else bind_res (success_gets (v_Tag event) S) (\<lambda>S1.
           bind_res (PANSignalMsgRecv (v_Tag event) PAN_ENTRY_DONE_SUCCESS S1) (\<lambda>S2.
             Inr (S2\<lparr>TrackTags := remove1 (v_Tag event, v_Src event) (TrackTags S2)\<rparr>))))"

definition PANHandleFailed :: "panNicEvent \<Rightarrow> RevCPU \<Rightarrow> RevCPU res" where
  "PANHandleFailed event S =
     (if (v_Tag event, v_Src event) \<notin> set (TrackTags S) then Inl (Fatal_CPU ''failed to find matching tag'')
      else bind_res (PANSignalMsgRecv (v_Tag event) PAN_ENTRY_DONE_FAILED S) (\<lambda>S2.
             Inr (S2\<lparr>TrackTags := remove1 (v_Tag event, v_Src event) (TrackTags S2)\<rparr>)))"

definition PANHandleZeroAddrPut :: "u32 \<Rightarrow> u8 list \<Rightarrow> RevCPU \<Rightarrow> RevCPU" where
  "PANHandleZeroAddrPut Sz Data S = S\<lparr>ZeroRqst := ZeroRqst S @ [(Sz, take (unat Sz) Data)]\<rparr>"

definition PANBuildFailedToken :: "panNicEvent \<Rightarrow> RevCPU \<Rightarrow> RevCPU res" where
  "PANBuildFailedToken event S =
     (let (ok, FEvent) = buildFailed (v_Token event) (v_Tag event) (setSrc (address S) (new_event S))
      in if \<not> ok then Inl (Fatal_CPU ''failed to construct token failure command'')
         else Inr (push_mb FEvent (v_Src event) S))"

definition PANBuildRawSuccess :: "panNicEvent \<Rightarrow> RevCPU \<Rightarrow> RevCPU res" where
  "PANBuildRawSuccess event S =
     (let (ok, SEvent) = buildSuccess (v_Token event) (v_Tag event) (setSrc (address S) (new_event S))
      in if \<not> ok then Inl (Fatal_CPU ''failed to construct token success command'')
         else Inr (push_mb SEvent (v_Src event) S))"

definition PANBuildBasicSuccess :: "panNicEvent \<Rightarrow> panNicEvent \<Rightarrow> RevCPU \<Rightarrow> panNicEvent res" where
  "PANBuildBasicSuccess orig rtn S =
     (let (ok, e) = buildSuccess (v_Token orig) (v_Tag orig) (setSrc (address S) rtn)
      in if \<not> ok then Inl (Fatal_CPU ''failed to construct token success command'') else Inr e)"


section \<open>Commands of other nodes\<close>

text \<open>A node that is not a host serves a command only with its reservation token.\<close>

definition token_ok :: "panNicEvent \<Rightarrow> RevCPU \<Rightarrow> bool" where
  "token_ok event S \<longleftrightarrow> CheckToken (v_Token event) (PNic S)"

definition host_or_token :: "panNicEvent \<Rightarrow> RevCPU \<Rightarrow> bool" where
  "host_or_token event S \<longleftrightarrow> isHost (PNic S) \<or> CheckToken (v_Token event) (PNic S)"

definition queue_read :: "panNicEvent \<Rightarrow> RevCPU \<Rightarrow> RevCPU res" where
  "queue_read event S =
     (case Procs S of
        [] \<Rightarrow> Inl UB_OutOfBounds
      | P # _ \<Rightarrow>
          bind_res (RandCost (MinCost (p_feature P)) (MaxCost (p_feature P)) (c_mem S)) (\<lambda>(c, M).
            Inr (S\<lparr>c_mem := M,
                   ReadQueue := ReadQueue S @ [(v_Tag event, v_Size event, c, v_Src event, v_Addr event)]\<rparr>)))"

text \<open>\<open>PANHandleSyncGet\<close> does not return after the failure reply.\<close>

definition PANHandleSyncGet :: "panNicEvent \<Rightarrow> RevCPU \<Rightarrow> RevCPU res" where
  "PANHandleSyncGet event S =
     bind_res (if host_or_token event S then Inr S else PANBuildFailedToken event S) (queue_read event)"

definition PANHandleAsyncGet :: "panNicEvent \<Rightarrow> RevCPU \<Rightarrow> RevCPU res" where
  "PANHandleAsyncGet event S = (if host_or_token event S then queue_read event S else PANBuildFailedToken event S)"

definition PANHandleSyncStreamGet :: "panNicEvent \<Rightarrow> RevCPU \<Rightarrow> RevCPU res" where
  "PANHandleSyncStreamGet event S = (if host_or_token event S then queue_read event S else PANBuildFailedToken event S)"

definition PANHandleAsyncStreamGet :: "panNicEvent \<Rightarrow> RevCPU \<Rightarrow> RevCPU res" where
  "PANHandleAsyncStreamGet event S = (if host_or_token event S then queue_read event S else PANBuildFailedToken event S)"

text \<open>The reply with a size. The size is set before the opcode is, which discards it.\<close>

definition reply_success :: "u32 \<Rightarrow> panNicEvent \<Rightarrow> RevCPU \<Rightarrow> RevCPU res" where
  "reply_success sz event S =
     (let SCmd = setSrc (address S) (snd (setSize_ev sz (new_event S)))
      in bind_res (PANBuildBasicSuccess event SCmd S) (\<lambda>e. Inr (push_mb e (v_Src event) S)))"

text \<open>
  The puts. Without a memory controller \<open>WriteMem\<close> returns true or ends the simulation, and
  \<open>PANHandleZeroAddrPut\<close> returns true, so that their failure branches are not taken.
\<close>

definition put_data :: "panNicEvent \<Rightarrow> u8 list res" where
  "put_data event = bind_res (getData event) (\<lambda>D. Inr (take (unat (v_Size event)) (bytes_of D)))"

definition PANHandleSyncPut :: "panNicEvent \<Rightarrow> RevCPU \<Rightarrow> RevCPU res" where
  "PANHandleSyncPut event S =
     (if \<not> host_or_token event S then PANBuildFailedToken event S
      else bind_res (put_data event) (\<lambda>Data.
           bind_res (if v_Addr event = 0 then Inr (PANHandleZeroAddrPut (v_Size event) Data S)
                     else write_mem (v_Addr event) Data S)
             (reply_success (v_Size event) event)))"

definition PANHandleAsyncPut :: "panNicEvent \<Rightarrow> RevCPU \<Rightarrow> RevCPU res" where
  "PANHandleAsyncPut event S =
     (if \<not> host_or_token event S then PANBuildFailedToken event S
      else bind_res (put_data event) (\<lambda>Data.
           bind_res (if v_Addr event = 0 then Inr (PANHandleZeroAddrPut (v_Size event) Data S)
                     else write_mem (v_Addr event) Data S)
             (reply_success (v_Size event) event)))"

definition PANHandleSyncStreamPut :: "panNicEvent \<Rightarrow> RevCPU \<Rightarrow> RevCPU res" where
  "PANHandleSyncStreamPut event S =
     (if \<not> host_or_token event S then PANBuildFailedToken event S
      else bind_res (put_data event) (\<lambda>Data.
           bind_res (write_mem (v_Addr event) Data S) (reply_success (v_Size event) event)))"

definition PANHandleAsyncStreamPut :: "panNicEvent \<Rightarrow> RevCPU \<Rightarrow> RevCPU res" where
  "PANHandleAsyncStreamPut event S =
     (if \<not> host_or_token event S then PANBuildFailedToken event S
      else bind_res (put_data event) (\<lambda>Data.
           bind_res (write_mem (v_Addr event) Data S) (reply_success (v_Size event) event)))"

text \<open>The execution queue; its pointer is null in a host.\<close>

definition add_exec :: "u64 \<Rightarrow> panNicEvent \<Rightarrow> RevCPU \<Rightarrow> RevCPU res" where
  "add_exec Addr event S =
     (case c_PExec S of
        None \<Rightarrow> Inl UB_NullDeref
      | Some Q \<Rightarrow>
          let (ok, Idx, Q1) = AddEntry Addr Q
          in if \<not> ok then PANBuildFailedToken event S
             else reply_success (case Idx of None \<Rightarrow> 0 | Some i \<Rightarrow> i) event (S\<lparr>c_PExec := Some Q1\<rparr>))"

definition PANHandleExec :: "panNicEvent \<Rightarrow> RevCPU \<Rightarrow> RevCPU res" where
  "PANHandleExec event S =
     (if \<not> token_ok event S then PANBuildFailedToken event S else add_exec (v_Addr event) event S)"

fun pan_status_code :: "PanStatus \<Rightarrow> u32" where
  "pan_status_code QExec = 0"
| "pan_status_code QValid = 1"
| "pan_status_code QNull = 13"
| "pan_status_code QError = 0b11111111"

definition PANHandleStatus :: "panNicEvent \<Rightarrow> RevCPU \<Rightarrow> RevCPU res" where
  "PANHandleStatus event S =
     (if \<not> token_ok event S then PANBuildFailedToken event S
      else case c_PExec S of
             None \<Rightarrow> Inl UB_NullDeref
           | Some Q \<Rightarrow>
               if StatusEntry (v_Size event) Q = QNull then PANBuildFailedToken event S
               else reply_success (pan_status_code (StatusEntry (v_Size event) Q)) event S)"

definition PANHandleCancel :: "panNicEvent \<Rightarrow> RevCPU \<Rightarrow> RevCPU res" where
  "PANHandleCancel event S =
     (if \<not> token_ok event S then PANBuildFailedToken event S
      else case c_PExec S of
             None \<Rightarrow> Inl UB_NullDeref
           | Some Q \<Rightarrow>
               let (ok, Q1) = RemoveEntry (v_Size event) Q
               in if \<not> ok then PANBuildFailedToken event S
                  else reply_success (v_Size event) event (S\<lparr>c_PExec := Some Q1\<rparr>))"

definition PANHandleReserve :: "panNicEvent \<Rightarrow> RevCPU \<Rightarrow> RevCPU res" where
  "PANHandleReserve event S =
     (if isReserved (PNic S) then PANBuildFailedToken event S
      else let (ok, N) = SetToken (v_Token event) (PNic S)
           in if \<not> ok then PANBuildFailedToken event S else PANBuildRawSuccess event (S\<lparr>PNic := N\<rparr>))"

definition PANHandleRevoke :: "panNicEvent \<Rightarrow> RevCPU \<Rightarrow> RevCPU res" where
  "PANHandleRevoke event S =
     (if \<not> token_ok event S then PANBuildFailedToken event S
      else PANBuildRawSuccess event (S\<lparr>ReadyForRevoke := True\<rparr>))"

text \<open>The commands that address a core by the number in the size field.\<close>

definition bad_core :: "panNicEvent \<Rightarrow> RevCPU \<Rightarrow> bool" where
  "bad_core event S \<longleftrightarrow> v_Size event > c_numCores S - 1"

definition core_at :: "u32 \<Rightarrow> RevCPU \<Rightarrow> RevProc res" where
  "core_at i S = (if unat i < length (Procs S) then Inr (Procs S ! unat i) else Inl UB_OutOfBounds)"

definition set_core :: "u32 \<Rightarrow> RevProc \<Rightarrow> RevCPU \<Rightarrow> RevCPU" where
  "set_core i P S = S\<lparr>Procs := (Procs S)[unat i := P]\<rparr>"

definition PANHandleHalt :: "panNicEvent \<Rightarrow> RevCPU \<Rightarrow> RevCPU res" where
  "PANHandleHalt event S =
     (if \<not> token_ok event S then PANBuildFailedToken event S
      else if bad_core event S then PANBuildFailedToken event S
      else bind_res (core_at (v_Size event) S) (\<lambda>P.
             PANBuildRawSuccess event (set_core (v_Size event) (snd (Halt P)) S)))"

definition PANHandleResume :: "panNicEvent \<Rightarrow> RevCPU \<Rightarrow> RevCPU res" where
  "PANHandleResume event S =
     (if \<not> token_ok event S then PANBuildFailedToken event S
      else let S1 = S\<lparr>Procs := map (\<lambda>P. snd (Resume P)) (Procs S)\<rparr>
           in if list_ex (\<lambda>P. \<not> fst (Resume P)) (Procs S) then PANBuildFailedToken event S1
              else PANBuildRawSuccess event S1)"

definition PANHandleReadReg :: "panNicEvent \<Rightarrow> RevCPU \<Rightarrow> RevCPU res" where
  "PANHandleReadReg event S =
     (if \<not> token_ok event S then PANBuildFailedToken event S
      else if bad_core event S then PANBuildFailedToken event S
      else bind_res (core_at (v_Size event) S) (\<lambda>P.
           bind_res (DebugReadReg (ucast (v_Addr event)) P) (\<lambda>r.
             case r of
               None \<Rightarrow> PANBuildFailedToken event S
             | Some Value \<Rightarrow>
                 let Width = (if IsRV32 (p_feature P) then 4 else 8)
                 in bind_res (setData [Value] Width (new_event S)) (\<lambda>e.
                    bind_res (PANBuildBasicSuccess event (setSrc (address S) (snd (setSize_ev Width e))) S) (\<lambda>SCmd.
                      Inr (push_mb SCmd (v_Src event) S))))))"

text \<open>
  The data of a \<open>WriteReg\<close> event are fetched with its size, which is the number of the core: none for core 0,
  one word for the cores 1 to 8, and more words than the variable has for the others.
\<close>

definition PANHandleWriteReg :: "panNicEvent \<Rightarrow> RevCPU \<Rightarrow> RevCPU res" where
  "PANHandleWriteReg event S =
     (if \<not> token_ok event S then PANBuildFailedToken event S
      else if bad_core event S then PANBuildFailedToken event S
      else bind_res (getData event) (\<lambda>D.
           if length D > 1 then Inl UB_OutOfBounds
           else bind_res (core_at (v_Size event) S) (\<lambda>P.
                bind_res (DebugWriteReg (ucast (v_Addr event)) (if D = [] then 0 else hd D) P) (\<lambda>(ok, P1).
                  if \<not> ok then PANBuildFailedToken event S
                  else PANBuildRawSuccess event (set_core (v_Size event) P1 S)))))"

definition PANHandleSingleStep :: "panNicEvent \<Rightarrow> RevCPU \<Rightarrow> RevCPU res" where
  "PANHandleSingleStep event S =
     (if \<not> token_ok event S then PANBuildFailedToken event S
      else if bad_core event S then PANBuildFailedToken event S
      else bind_res (core_at (v_Size event) S) (\<lambda>P.
           bind_res (cur_rf P) (\<lambda>R.
             let PC = GetPC (p_feature P) R; (ok, P1) = SingleStepHart P
             in if \<not> ok then PANBuildFailedToken event S
                else bind_res (PANBuildBasicSuccess event (new_event S) S) (\<lambda>SCmd.
                       Inr (push_mb (setSrc (address S) (setAddr PC SCmd)) (v_Src event)
                              (set_core (v_Size event) P1 S))))))"

definition PANHandleSetFuture :: "panNicEvent \<Rightarrow> RevCPU \<Rightarrow> RevCPU res" where
  "PANHandleSetFuture event S =
     (if \<not> token_ok event S then PANBuildFailedToken event S
      else let (ok, M) = SetFuture (v_Addr event) (c_mem S); S1 = S\<lparr>c_mem := M\<rparr>
           in if ok then PANBuildRawSuccess event S1 else PANBuildFailedToken event S1)"

definition PANHandleRevokeFuture :: "panNicEvent \<Rightarrow> RevCPU \<Rightarrow> RevCPU res" where
  "PANHandleRevokeFuture event S =
     (if \<not> token_ok event S then PANBuildFailedToken event S
      else let (ok, M) = RevokeFuture (v_Addr event) (c_mem S); S1 = S\<lparr>c_mem := M\<rparr>
           in if ok then PANBuildRawSuccess event S1 else PANBuildFailedToken event S1)"

definition PANHandleStatusFuture :: "panNicEvent \<Rightarrow> RevCPU \<Rightarrow> RevCPU res" where
  "PANHandleStatusFuture event S =
     (if \<not> token_ok event S then PANBuildFailedToken event S
      else bind_res (PANBuildBasicSuccess event (new_event S) S) (\<lambda>SCmd.
             let sz = (if StatusFuture (v_Addr event) (c_mem S) then 1 else 0)
             in Inr (push_mb (setSrc (address S) (snd (setSize_ev sz SCmd))) (v_Src event) S)))"

definition PANHandleBOTW :: "panNicEvent \<Rightarrow> RevCPU \<Rightarrow> RevCPU res" where
  "PANHandleBOTW event S =
     (if \<not> token_ok event S then PANBuildFailedToken event S
      else add_exec (ucast (v_Offset event) + c_start S) event S)"


section \<open>Dispatch\<close>

text \<open>
  The switch over the opcode, in the order of the source. The statistics of \<open>SetFuture\<close> and \<open>RevokeFuture\<close> are
  those of \<open>SingleStep\<close> and \<open>SetFuture\<close>.
\<close>

definition then_stat :: "string \<Rightarrow> RevCPU res \<Rightarrow> RevCPU res" where
  "then_stat st r = bind_res r (addData (st @ ''Recv''))"

definition handleHostPANMessage :: "panNicEvent \<Rightarrow> RevCPU \<Rightarrow> RevCPU res" where
  "handleHostPANMessage event S =
     (let opc = v_Opcode event in
      if opc = op_Success then then_stat ''Success'' (PANHandleSuccess event S)
      else if opc = op_Failed then then_stat ''Failed'' (PANHandleFailed event S)
      else if opc = op_SyncGet then then_stat ''SyncGet'' (PANHandleSyncGet event S)
      else if opc = op_SyncPut then then_stat ''SyncPut'' (PANHandleSyncPut event S)
      else if opc = op_AsyncGet then then_stat ''AsyncGet'' (PANHandleAsyncGet event S)
      else if opc = op_AsyncPut then then_stat ''AsyncPut'' (PANHandleAsyncPut event S)
      else if opc = op_SyncStreamGet then then_stat ''SyncStreamGet'' (PANHandleSyncStreamGet event S)
      else if opc = op_SyncStreamPut then then_stat ''SyncStreamPut'' (PANHandleSyncStreamPut event S)
      else if opc = op_AsyncStreamGet then then_stat ''AsyncStreamGet'' (PANHandleAsyncStreamGet event S)
      else if opc = op_AsyncStreamPut then then_stat ''AsyncStreamPut'' (PANHandleAsyncStreamPut event S)
      else Inl (Fatal_CPU ''host devices cannot handle this command''))"

definition handleNetPANMessage :: "panNicEvent \<Rightarrow> RevCPU \<Rightarrow> RevCPU res" where
  "handleNetPANMessage event S =
     (let opc = v_Opcode event in
      if opc = op_SyncGet then then_stat ''SyncGet'' (PANHandleSyncGet event S)
      else if opc = op_SyncPut then then_stat ''SyncPut'' (PANHandleSyncPut event S)
      else if opc = op_AsyncGet then then_stat ''AsyncGet'' (PANHandleAsyncGet event S)
      else if opc = op_AsyncPut then then_stat ''AsyncPut'' (PANHandleAsyncPut event S)
      else if opc = op_SyncStreamGet then then_stat ''SyncStreamGet'' (PANHandleSyncStreamGet event S)
      else if opc = op_SyncStreamPut then then_stat ''SyncStreamPut'' (PANHandleSyncStreamPut event S)
      else if opc = op_AsyncStreamGet then then_stat ''AsyncStreamGet'' (PANHandleAsyncStreamGet event S)
      else if opc = op_AsyncStreamPut then then_stat ''AsyncStreamPut'' (PANHandleAsyncStreamPut event S)
      else if opc = op_Exec then then_stat ''Exec'' (PANHandleExec event S)
      else if opc = op_Status then then_stat ''Status'' (PANHandleStatus event S)
      else if opc = op_Cancel then then_stat ''Cancel'' (PANHandleCancel event S)
      else if opc = op_Reserve then then_stat ''Reserve'' (PANHandleReserve event S)
      else if opc = op_Revoke then then_stat ''Revoke'' (PANHandleRevoke event S)
      else if opc = op_Halt then then_stat ''Halt'' (PANHandleHalt event S)
      else if opc = op_Resume then then_stat ''Resume'' (PANHandleResume event S)
      else if opc = op_ReadReg then then_stat ''ReadReg'' (PANHandleReadReg event S)
      else if opc = op_WriteReg then then_stat ''WriteReg'' (PANHandleWriteReg event S)
      else if opc = op_SingleStep then then_stat ''SingleStep'' (PANHandleSingleStep event S)
      else if opc = op_SetFuture then then_stat ''SingleStep'' (PANHandleSetFuture event S)
      else if opc = op_RevokeFuture then then_stat ''SetFuture'' (PANHandleRevokeFuture event S)
      else if opc = op_StatusFuture then then_stat ''StatusFuture'' (PANHandleStatusFuture event S)
      else if opc = op_BOTW then then_stat ''BOTW'' (PANHandleBOTW event S)
      else if opc = op_Success then then_stat ''Success'' (PANHandleSuccess event S)
      else if opc = op_Failed then then_stat ''Failed'' (PANHandleFailed event S)
      else Inl (Fatal_CPU ''network devices cannot handle this command''))"

definition handlePANMessage :: "panNicEvent \<Rightarrow> RevCPU \<Rightarrow> RevCPU res" where
  "handlePANMessage event S =
     (if isHost (PNic S) then handleHostPANMessage event S else handleNetPANMessage event S)"

text \<open>
  The endpoint's notification: the message the network delivers, if any, goes to the handler; an event without
  payload is fatal.
\<close>

definition msgNotify :: "panNicEvent option option \<Rightarrow> RevCPU \<Rightarrow> RevCPU res" where
  "msgNotify received S =
     (case received of
        None \<Rightarrow> Inr S
      | Some None \<Rightarrow> Inl (Fatal_CPU ''panNicEvent on PanNet is null'')
      | Some (Some ev) \<Rightarrow> handlePANMessage ev S)"


section \<open>The send mailbox\<close>

definition registerSendCmd :: "panNicEvent \<Rightarrow> RevCPU \<Rightarrow> RevCPU res" where
  "registerSendCmd event S =
     (if v_Opcode event = op_SetFuture then addData ''SingleStepSend'' S
      else if v_Opcode event = op_RevokeFuture then addData ''SetFutureSend'' S
      else if getOpcodeStr event = ''UNKNOWN'' then Inl (Fatal_CPU ''no statistic for command'')
      else addData (getOpcodeStr event @ ''Send'') S)"

definition revoke_now :: "RevCPU \<Rightarrow> RevCPU res" where
  "revoke_now S =
     bind_res (write_mem PAN_COMPLETION_ADDR (le_bytes 8 (1 :: u64)) S) (\<lambda>S1.
       Inr (S1\<lparr>PNic := RevokeToken (PNic S1), ReadyForRevoke := False, RevokeHasArrived := True\<rparr>))"

definition sendPANMessage :: "RevCPU \<Rightarrow> RevCPU res" where
  "sendPANMessage S =
     (case SendMB S of
        [] \<Rightarrow> Inr S
      | (ev, dst) # rest \<Rightarrow>
          let S1 = S\<lparr>PNic := send_net ev dst (PNic S)\<rparr>;
              S2 = (if v_Opcode ev \<noteq> op_Success \<and> v_Opcode ev \<noteq> op_Failed
                    then S1\<lparr>TrackTags := TrackTags S1 @ [(v_Tag ev, dst)]\<rparr> else S1)
          in bind_res (if EnablePANStats S2 then registerSendCmd ev S2 else Inr S2) (\<lambda>S3.
             let S4 = S3\<lparr>SendMB := rest\<rparr>
             in if ReadyForRevoke S4 then revoke_now S4 else Inr S4))"

text \<open>
  \<open>processPANZeroAddr\<close> reads eight bytes into a variable of one byte as soon as there is a request.
\<close>

definition processPANZeroAddr :: "RevCPU \<Rightarrow> RevCPU res" where
  "processPANZeroAddr S =
     (if ZeroRqst S = [] then Inr S
      else bind_res (ReadMem_deprecated PAN_XFER_BUF_ADDR (uninit 8 S) (c_mem S)) (\<lambda>_. Inl UB_OutOfBounds))"


section \<open>The read queue\<close>

definition dec_cost :: "read_rqst \<Rightarrow> read_rqst" where
  "dec_cost = (\<lambda>(t, n, c, src, a). (t, n, if c \<noteq> 0 then c - 1 else c, src, a))"

definition rqst_cost :: "read_rqst \<Rightarrow> u32" where
  "rqst_cost = (\<lambda>(t, n, c, src, a). c)"

text \<open>The reply to a get: its memory is read when the cost has run out.\<close>

definition answer_read :: "read_rqst \<Rightarrow> RevCPU \<Rightarrow> RevCPU res" where
  "answer_read r S =
     (case r of (tag, sz, c, src, a) \<Rightarrow>
        bind_res (read_words a (unat sz) (getNumBlocks sz) S) (\<lambda>(Data, S1).
          let SCmd = snd (setSize_ev sz (snd (buildSuccess (n_Token (PNic S1)) tag (new_event S1))))
          in bind_res (setData Data sz SCmd) (\<lambda>e. Inr (push_mb (setSrc (address S1) e) src S1))))"

fun answer_reads :: "read_rqst list \<Rightarrow> RevCPU \<Rightarrow> RevCPU res" where
  "answer_reads [] S = Inr S"
| "answer_reads (r # rs) S =
     (if rqst_cost r = 0 then bind_res (answer_read r S) (answer_reads rs) else answer_reads rs S)"

definition processPANMemRead :: "RevCPU \<Rightarrow> RevCPU res" where
  "processPANMemRead S =
     (let Q = map dec_cost (ReadQueue S)
      in bind_res (answer_reads Q (S\<lparr>ReadQueue := Q\<rparr>)) (\<lambda>S1.
           Inr (S1\<lparr>ReadQueue := filter (\<lambda>r. rqst_cost r \<noteq> 0) (ReadQueue S1)\<rparr>)))"


section \<open>The RDMA mailbox\<close>

text \<open>
  Stage 1 of \<open>PANConvertRDMAtoEvent\<close>: the fields of the first word of a command. The opcode of a bump-on-the-wire
  packet stays the two type bits, which are its opcode.
\<close>

record rdma_cmd =
  q_Token :: u32
  q_Tag :: u8
  q_Opcode :: u8
  q_VarArgs :: u8
  q_Size :: u32
  q_Offset :: u32

definition decode_rdma :: "u64 \<Rightarrow> rdma_cmd res" where
  "decode_rdma Payload =
     (let opc = (ucast (drop_bit 40 Payload AND 0b11) :: u8);
          q = \<lparr>q_Token = ucast (Payload AND 0xFFFFFFFF), q_Tag = ucast (drop_bit 32 Payload AND 0xFF),
               q_Opcode = opc, q_VarArgs = 0, q_Size = 0, q_Offset = 0\<rparr>
      in if opc = 0 then
           Inr (q\<lparr>q_Opcode := ucast (drop_bit 40 Payload AND 0xFF), q_Size := ucast (drop_bit 48 Payload AND 0xFFFF)\<rparr>)
         else if opc = 1 then
           Inr (q\<lparr>q_Opcode := ucast (drop_bit 40 Payload AND 0xF), q_Size := ucast (drop_bit 44 Payload AND 0xFFFFF)\<rparr>)
         else if opc = 3 then
           Inr (q\<lparr>q_VarArgs := ucast (drop_bit 42 Payload AND 0xF), q_Offset := ucast (drop_bit 46 Payload AND 0x3FFFF)\<rparr>)
         else Inl (Fatal_CPU ''Bad opcode type from RDMA Mailbox Command''))"

text \<open>A builder that returns false is fatal.\<close>

definition built :: "bool \<times> panNicEvent \<Rightarrow> panNicEvent res" where
  "built r = (if fst r then Inr (snd r) else Inl (Fatal_CPU ''could not build RDMA command''))"

text \<open>Stage 2: the gets and puts have the remote address in the second word and the local one in the third.\<close>

definition rdma_get :: "(u32 \<Rightarrow> u8 \<Rightarrow> u64 \<Rightarrow> u32 \<Rightarrow> panNicEvent \<Rightarrow> bool \<times> panNicEvent) \<Rightarrow> u64 \<Rightarrow> rdma_cmd \<Rightarrow>
    panNicEvent \<Rightarrow> RevCPU \<Rightarrow> (panNicEvent \<times> RevCPU) res" where
  "rdma_get build Addr q event S =
     bind_res (ReadU64 (Addr + 8) S) (\<lambda>(CmdAddr, S1).
     bind_res (ReadU64 (Addr + 16) S1) (\<lambda>(DataAddr, S2).
     bind_res (built (build (q_Token q) (q_Tag q) CmdAddr (q_Size q) event)) (\<lambda>e.
       Inr (e, S2\<lparr>TrackGets := TrackGets S2 @ [(q_Tag q, DataAddr, q_Size q)]\<rparr>))))"

definition rdma_put :: "(u32 \<Rightarrow> u8 \<Rightarrow> u64 \<Rightarrow> u32 \<Rightarrow> u64 list option \<Rightarrow> panNicEvent \<Rightarrow> (bool \<times> panNicEvent) res) \<Rightarrow>
    u64 \<Rightarrow> rdma_cmd \<Rightarrow> panNicEvent \<Rightarrow> RevCPU \<Rightarrow> (panNicEvent \<times> RevCPU) res" where
  "rdma_put build Addr q event S =
     bind_res (ReadU64 (Addr + 8) S) (\<lambda>(CmdAddr, S1).
     bind_res (ReadU64 (Addr + 16) S1) (\<lambda>(DataAddr, S2).
     bind_res (read_words DataAddr (unat (q_Size q)) (getNumBlocks (q_Size q)) S2) (\<lambda>(Data, S3).
     bind_res (build (q_Token q) (q_Tag q) CmdAddr (q_Size q) (Some Data) event) (\<lambda>r.
     bind_res (built r) (\<lambda>e. Inr (e, S3))))))"

definition rdma_addr :: "(u64 \<Rightarrow> panNicEvent \<Rightarrow> bool \<times> panNicEvent) \<Rightarrow> u64 \<Rightarrow> panNicEvent \<Rightarrow> RevCPU \<Rightarrow> (panNicEvent \<times> RevCPU) res" where
  "rdma_addr build Addr event S =
     bind_res (ReadU64 (Addr + 8) S) (\<lambda>(CmdAddr, S1).
     bind_res (built (build CmdAddr event)) (\<lambda>e. Inr (e, S1)))"

definition rdma_plain :: "bool \<times> panNicEvent \<Rightarrow> RevCPU \<Rightarrow> (panNicEvent \<times> RevCPU) res" where
  "rdma_plain r S = bind_res (built r) (\<lambda>e. Inr (e, S))"

text \<open>\<open>RevokeFuture\<close> and \<open>StatusFuture\<close> do not read the address; it is still 0.\<close>

definition encode_ctrl :: "u64 \<Rightarrow> rdma_cmd \<Rightarrow> panNicEvent \<Rightarrow> RevCPU \<Rightarrow> (panNicEvent \<times> RevCPU) res" where
  "encode_ctrl Addr q event S =
     (let opc = q_Opcode q; tok = q_Token q; tag = q_Tag q; n16 = (ucast (q_Size q) :: u16) in
      if opc = op_Exec then rdma_addr (buildExec tok tag) Addr event S
      else if opc = op_Status then rdma_plain (buildStatus tok tag n16 event) S
      else if opc = op_Cancel then rdma_plain (buildCancel tok tag n16 event) S
      else if opc = op_Reserve then rdma_plain (buildReserve tok tag event) S
      else if opc = op_Revoke then
        bind_res (rdma_plain (buildRevoke tok tag event) S) (\<lambda>(e, S1).
        bind_res (write_mem PAN_COMPLETION_ADDR (le_bytes 8 (1 :: u64)) S1) (\<lambda>S2. Inr (e, S2)))
      else if opc = op_Halt then rdma_plain (buildHalt tok tag n16 event) S
      else if opc = op_Resume then rdma_plain (buildResume tok tag event) S
      else if opc = op_ReadReg then rdma_addr (buildReadReg tok tag n16) Addr event S
      else if opc = op_WriteReg then
        bind_res (ReadU64 (Addr + 8) S) (\<lambda>(CmdAddr, S1).
        bind_res (ReadU64 (Addr + 16) S1) (\<lambda>(TmpData, S2).
        bind_res (buildWriteReg tok tag n16 CmdAddr (Some [TmpData]) event) (\<lambda>r. rdma_plain r S2)))
      else if opc = op_SingleStep then rdma_plain (buildSingleStep tok tag n16 event) S
      else if opc = op_SetFuture then rdma_addr (buildSetFuture tok tag) Addr event S
      else if opc = op_RevokeFuture then rdma_plain (buildRevokeFuture tok tag 0 event) S
      else if opc = op_StatusFuture then rdma_plain (buildStatusFuture tok tag 0 event) S
      else if opc = op_Success then rdma_plain (buildSuccess tok tag event) S
      else if opc = op_Failed then rdma_plain (buildFailed tok tag event) S
      else if opc = op_BOTW then
        bind_res (read_words (Addr + 8) (unat (q_VarArgs q) * 8) (unat (q_VarArgs q)) S) (\<lambda>(Data, S1).
        bind_res (buildBOTW tok tag (q_VarArgs q) Data (q_Offset q) event) (\<lambda>r. rdma_plain r S1))
      else Inl (Fatal_CPU ''could not encode RDMA opcode''))"

definition encode_rdma :: "u64 \<Rightarrow> rdma_cmd \<Rightarrow> panNicEvent \<Rightarrow> RevCPU \<Rightarrow> (panNicEvent \<times> RevCPU) res" where
  "encode_rdma Addr q event S =
     (let opc = q_Opcode q in
      if opc = op_SyncGet then rdma_get buildSyncGet Addr q event S
      else if opc = op_SyncPut then rdma_put buildSyncPut Addr q event S
      else if opc = op_AsyncGet then rdma_get buildAsyncGet Addr q event S
      else if opc = op_AsyncPut then rdma_put buildAsyncPut Addr q event S
      else if opc = op_SyncStreamGet then rdma_get buildSyncStreamGet Addr q event S
      else if opc = op_SyncStreamPut then rdma_put buildSyncStreamPut Addr q event S
      else if opc = op_AsyncStreamGet then rdma_get buildAsyncStreamGet Addr q event S
      else if opc = op_AsyncStreamPut then rdma_put buildAsyncStreamPut Addr q event S
      else encode_ctrl Addr q event S)"

definition PANConvertRDMAtoEvent :: "u64 \<Rightarrow> panNicEvent \<Rightarrow> RevCPU \<Rightarrow> (panNicEvent \<times> RevCPU) res" where
  "PANConvertRDMAtoEvent Addr event S =
     bind_res (ReadU64 Addr S) (\<lambda>(Payload, S1).
     bind_res (decode_rdma Payload) (\<lambda>q.
     bind_res (encode_rdma Addr q event S1) (\<lambda>(e, S2). Inr (setSrc (address S2) e, S2))))"

text \<open>
  \<open>PANProcessRDMAMailbox\<close>: one round of the loop at a mailbox entry, and the loop over at most all entries, from
  the entry where the last cycle stopped.
\<close>

definition mbox_entry :: "u64 \<Rightarrow> RevCPU \<Rightarrow> (bool \<times> RevCPU) res" where
  "mbox_entry Addr S =
     bind_res (read_words Addr 24 3 S) (\<lambda>(Payload, S1).
       if Payload ! 0 = PAN_ENTRY_VALID then
         bind_res (PANConvertRDMAtoEvent (Payload ! 2) (new_event S1) S1) (\<lambda>(FEvent, S2).
         bind_res (write_mem Addr (le_bytes 8 PAN_ENTRY_INJECTED) (push_mb FEvent (ucast (Payload ! 1)) S2)) (\<lambda>S3.
           Inr (True, S3)))
       else Inr (False, S1))"

definition next_entry :: "u64 \<Rightarrow> u64" where
  "next_entry Addr =
     (let A = Addr + 24 in if A = PAN_RDMA_MAILBOX + of_nat (24 * PAN_RDMA_MAX_ENTRIES) then PAN_RDMA_MAILBOX else A)"

fun mbox_loop :: "nat \<Rightarrow> u32 \<Rightarrow> u64 \<Rightarrow> RevCPU \<Rightarrow> RevCPU res" where
  "mbox_loop 0 sent Addr S = Inr S"
| "mbox_loop (Suc k) sent Addr S =
     bind_res (mbox_entry Addr S) (\<lambda>(b, S1).
       let sent1 = (if b then sent + 1 else sent); Addr1 = next_entry Addr
       in if k = 0 \<or> sent1 = RDMAPerCycle S1 \<or> length (SendMB S1) = 255 then Inr (S1\<lparr>PrevAddr := Addr1\<rparr>)
          else mbox_loop k sent1 Addr1 S1)"

definition PANProcessRDMAMailbox :: "RevCPU \<Rightarrow> RevCPU res" where
  "PANProcessRDMAMailbox S =
     (if length (SendMB S) = 255 then Inr S else mbox_loop PAN_RDMA_MAX_ENTRIES 0 (PrevAddr S) S)"

definition createTag :: "RevCPU \<Rightarrow> u8 \<times> RevCPU" where
  "createTag S = (if PrivTag S = 0xFF then (0, S\<lparr>PrivTag := 1\<rparr>) else (PrivTag S, S\<lparr>PrivTag := PrivTag S + 1\<rparr>))"


section \<open>The PAN test harness\<close>

text \<open>
  \<open>ExecPANTest\<close>: the stages of the built-in test. A put stage sends \<open>testIters\<close> words to consecutive addresses, a
  get stage asks for them.
\<close>

definition test_event :: "(u8 \<Rightarrow> panNicEvent \<Rightarrow> (bool \<times> panNicEvent) res) \<Rightarrow> RevCPU \<Rightarrow> RevCPU res" where
  "test_event build S =
     (let (tag, S1) = createTag S
      in bind_res (build tag (setSrc (address S) (new_event S))) (\<lambda>(ok, e).
           if \<not> ok then Inl (Fatal_CPU ''could not create PAN command'') else Inr (push_mb e 1 S1)))"

fun test_events :: "(u64 \<Rightarrow> u8 \<Rightarrow> panNicEvent \<Rightarrow> (bool \<times> panNicEvent) res) \<Rightarrow> nat \<Rightarrow> nat \<Rightarrow> RevCPU \<Rightarrow> RevCPU res" where
  "test_events build i 0 S = Inr S"
| "test_events build i (Suc n) S =
     bind_res (test_event (build (0x80 + ucast (of_nat i * 8 :: u32))) S) (test_events build (Suc i) n)"

definition test_puts :: "(u32 \<Rightarrow> u8 \<Rightarrow> u64 \<Rightarrow> u32 \<Rightarrow> u64 list option \<Rightarrow> panNicEvent \<Rightarrow> (bool \<times> panNicEvent) res) \<Rightarrow> RevCPU \<Rightarrow> RevCPU res" where
  "test_puts build S =
     test_events (\<lambda>a tag e. build (ucast (LToken S)) tag a 8 (Some [0xdeadbeef]) e) 0 (unat (testIters S)) S"

definition test_gets :: "(u32 \<Rightarrow> u8 \<Rightarrow> u64 \<Rightarrow> u32 \<Rightarrow> panNicEvent \<Rightarrow> bool \<times> panNicEvent) \<Rightarrow> RevCPU \<Rightarrow> RevCPU res" where
  "test_gets build S = test_events (\<lambda>a tag e. Inr (build (ucast (LToken S)) tag a 8 e)) 0 (unat (testIters S)) S"

definition next_stage :: "RevCPU res \<Rightarrow> RevCPU res" where
  "next_stage r = bind_res r (\<lambda>S. Inr (S\<lparr>testStage := testStage S + 1\<rparr>))"

text \<open>Stage 9 tells the destination and the local cores that the test is complete.\<close>

definition test_completion :: "RevCPU \<Rightarrow> RevCPU res" where
  "test_completion S =
     bind_res (test_event (\<lambda>tag e. buildSyncPut (ucast (LToken S)) tag PAN_COMPLETION_ADDR 8 (Some [0xdeadbeef]) e)
                 (S\<lparr>testStage := testStage S + 1\<rparr>))
       (write_mem PAN_COMPLETION_ADDR (le_bytes 8 (0xdeadbeef :: u64)))"

definition ExecPANTest :: "RevCPU \<Rightarrow> RevCPU res" where
  "ExecPANTest S =
     (let st = testStage S in
      if TrackTags S \<noteq> [] then Inr S
      else if st = 0 then
        (let S1 = S\<lparr>LToken := 0xfeedbeef\<rparr>
         in next_stage (test_event (\<lambda>tag e. Inr (buildReserve (ucast (LToken S1)) tag e)) S1))
      else if st = 1 then next_stage (test_puts buildSyncPut S)
      else if st = 2 then next_stage (test_gets buildSyncGet S)
      else if st = 3 then next_stage (test_puts buildAsyncPut S)
      else if st = 4 then next_stage (test_gets buildAsyncGet S)
      else if st = 5 then next_stage (test_puts buildSyncStreamPut S)
      else if st = 6 then next_stage (test_gets buildSyncStreamGet S)
      else if st = 7 then next_stage (test_puts buildAsyncStreamPut S)
      else if st = 8 then next_stage (test_gets buildAsyncStreamGet S)
      else if st = 9 then test_completion S
      else if st = 10 then next_stage (test_event (\<lambda>tag e. Inr (buildRevoke (ucast (LToken S)) tag e)) S)
      else Inr S)"


section \<open>Fault injection\<close>

text \<open>\<open>std::stoi\<close> in base 10 of a width; a negative width becomes a large unsigned number.\<close>

definition stoi_dec :: "string \<Rightarrow> u32 res" where
  "stoi_dec s =
     (let (neg, s1) = take_sign (dropWhile is_space s);
          ds = takeWhile (\<lambda>d. d < 10) (map digit_val s1);
          n = foldl (\<lambda>a d. a * 10 + d) 0 ds
      in if ds = [] then Inl Exc_invalid_argument
         else if neg \<and> n > 2 ^ 31 \<or> \<not> neg \<and> n \<ge> 2 ^ 31 then Inl Exc_out_of_range
         else Inr (word_of_int (if neg then - n else n)))"

definition DecodeFaultWidth :: "string \<Rightarrow> RevCPU \<Rightarrow> RevCPU res" where
  "DecodeFaultWidth width S =
     bind_res (if width = ''single'' then Inr 1 else if width = ''word'' then Inr 8 else stoi_dec width) (\<lambda>w.
       if w > 64 then Inl (Fatal_CPU ''Fault width must be <= 64 bits'') else Inr (S\<lparr>c_fault_width := w\<rparr>))"

fun decode_faults :: "string list \<Rightarrow> RevCPU \<Rightarrow> RevCPU res" where
  "decode_faults [] S = Inr S"
| "decode_faults (f # fs) S =
     (if f = ''decode'' then decode_faults fs (S\<lparr>EnableCrackFaults := True\<rparr>)
      else if f = ''mem'' then decode_faults fs (S\<lparr>EnableMemFaults := True\<rparr>)
      else if f = ''reg'' then decode_faults fs (S\<lparr>EnableRegFaults := True\<rparr>)
      else if f = ''alu'' then decode_faults fs (S\<lparr>EnableALUFaults := True\<rparr>)
      else if f = ''all'' then decode_faults fs
        (S\<lparr>EnableCrackFaults := True, EnableMemFaults := True, EnableRegFaults := True, EnableALUFaults := True\<rparr>)
      else Inl (Fatal_CPU ''Undefined fault code''))"

definition DecodeFaultCodes :: "string list \<Rightarrow> RevCPU \<Rightarrow> RevCPU res" where
  "DecodeFaultCodes faults S =
     (if faults = [] then Inl (Fatal_CPU ''No fault codes defined'')
      else decode_faults faults
        (S\<lparr>EnableCrackFaults := False, EnableMemFaults := False, EnableRegFaults := False, EnableALUFaults := False\<rparr>))"

text \<open>
  The random choices of an injection: the fault among those enabled, the core, the values \<open>rand()\<close> gives, the
  register and the byte of the physical memory.
\<close>

record fault_env =
  f_selector :: nat
  f_core :: nat
  f_rnd :: nat
  f_reg :: nat
  f_byte :: nat

text \<open>\<open>RevMem::HandleMemFault\<close>: eight bytes at a random place are changed by a value of 32 bits.\<close>

definition HandleMemFault :: "nat \<Rightarrow> nat \<Rightarrow> u32 \<Rightarrow> RevMem \<Rightarrow> RevMem res" where
  "HandleMemFault rnd NBytes width M =
     bind_res (fault_value rnd width) (\<lambda>rval.
     bind_res (phys_read NBytes 8 M) (\<lambda>bs.
       phys_write NBytes (le_bytes 8 ((le_word bs :: u64) OR ucast rval)) M))"

definition fault_core :: "fault_env \<Rightarrow> RevCPU \<Rightarrow> nat" where
  "fault_core E S = (if c_numCores S > 1 then f_core E else 0)"

definition on_proc :: "nat \<Rightarrow> (RevProc \<Rightarrow> RevProc res) \<Rightarrow> RevCPU \<Rightarrow> RevCPU res" where
  "on_proc i f S =
     (if i < length (Procs S) then bind_res (f (Procs S ! i)) (\<lambda>P. Inr (S\<lparr>Procs := (Procs S)[i := P]\<rparr>))
      else Inl UB_OutOfBounds)"

definition HandleCrackFault_cpu :: "fault_env \<Rightarrow> RevCPU \<Rightarrow> RevCPU res" where
  "HandleCrackFault_cpu E S = on_proc (fault_core E S) (\<lambda>P. Inr (HandleCrackFault (c_fault_width S) P)) S"

definition HandleMemFault_cpu :: "fault_env \<Rightarrow> RevCPU \<Rightarrow> RevCPU res" where
  "HandleMemFault_cpu E S =
     bind_res (HandleMemFault (f_rnd E) (f_byte E) (c_fault_width S) (c_mem S)) (\<lambda>M. Inr (S\<lparr>c_mem := M\<rparr>))"

definition HandleRegFault_cpu :: "fault_env \<Rightarrow> RevCPU \<Rightarrow> RevCPU res" where
  "HandleRegFault_cpu E S =
     on_proc (fault_core E S) (\<lambda>P. HandleRegFault (f_rnd E) (f_reg E) (c_fault_width S) P) S"

definition HandleALUFault_cpu :: "fault_env \<Rightarrow> RevCPU \<Rightarrow> RevCPU res" where
  "HandleALUFault_cpu E S = on_proc (fault_core E S) (\<lambda>P. Inr (HandleALUFault (c_fault_width S) P)) S"

definition enabled_faults :: "RevCPU \<Rightarrow> string list" where
  "enabled_faults S =
     (if EnableCrackFaults S then [''crack''] else []) @ (if EnableMemFaults S then [''mem''] else []) @
     (if EnableRegFaults S then [''reg''] else []) @ (if EnableALUFaults S then [''alu''] else [])"

definition HandleFaultInjection :: "fault_env \<Rightarrow> RevCPU \<Rightarrow> RevCPU res" where
  "HandleFaultInjection E S =
     (let myfaults = enabled_faults S; selector = (if length myfaults = 1 then 0 else f_selector E)
      in if myfaults = [] then Inl (Fatal_CPU ''no faults enabled'')
         else if length myfaults \<le> selector then Inl UB_OutOfBounds
         else if myfaults ! selector = ''crack'' then HandleCrackFault_cpu E S
         else if myfaults ! selector = ''mem'' then HandleMemFault_cpu E S
         else if myfaults ! selector = ''reg'' then HandleRegFault_cpu E S
         else HandleALUFault_cpu E S)"


section \<open>The clock\<close>

text \<open>
  A core runs on the shared memory and the shared execution queue. The statistics of a core that ends are its own
  counters and those of the memory; the counters of floating point accesses are not modelled. A coprocessor is
  not attached.
\<close>

definition run_core :: "tick_env \<Rightarrow> nat \<Rightarrow> RevCPU \<Rightarrow> (bool \<times> RevCPU) res" where
  "run_core V i S =
     bind_res (ClockTick V ((Procs S ! i)\<lparr>p_mem := c_mem S, PExec := c_PExec S\<rparr>)) (\<lambda>(b, P).
       Inr (b, S\<lparr>Procs := (Procs S)[i := P], c_mem := p_mem P, c_PExec := PExec P\<rparr>))"

definition UpdateCoreStatistics :: "nat \<Rightarrow> RevCPU \<Rightarrow> RevCPU" where
  "UpdateCoreStatistics i S =
     S\<lparr>c_coreStats := c_coreStats S @
       [(i, Stats (Procs S ! i), bytesRead (c_mem S), bytesWritten (c_mem S), TLBHits (c_mem S), TLBMisses (c_mem S))]\<rparr>"

text \<open>The loop over the cores, from core \<open>i\<close>, for \<open>n\<close> cores; \<open>V\<close> is the environment of each core in this cycle.\<close>

fun run_cores :: "(nat \<Rightarrow> tick_env) \<Rightarrow> nat \<Rightarrow> nat \<Rightarrow> RevCPU \<Rightarrow> RevCPU res" where
  "run_cores V i 0 S = Inr S"
| "run_cores V i (Suc n) S =
     (if \<not> Enabled S ! i then run_cores V (Suc i) n S
      else bind_res (run_core (V i) i S) (\<lambda>(b, S1).
             run_cores V (Suc i) n
               (if b then S1 else (UpdateCoreStatistics i S1)\<lparr>Enabled := (Enabled S1)[i := False]\<rparr>)))"

fun send_messages :: "nat \<Rightarrow> RevCPU \<Rightarrow> RevCPU res" where
  "send_messages 0 S = Inr S"
| "send_messages (Suc n) S = bind_res (sendPANMessage S) (send_messages n)"

definition tick_pan :: "RevCPU \<Rightarrow> RevCPU res" where
  "tick_pan S =
     bind_res (if EnableRDMAMBox S then PANProcessRDMAMailbox S else Inr S) (\<lambda>S1.
     bind_res (send_messages (unat (msgPerCycle S1)) S1) (\<lambda>S2.
     bind_res (processPANMemRead S2) processPANZeroAddr))"

text \<open>The fault counter is restarted with the fault width, which the constructor has set to the fault range.\<close>

definition tick_fault :: "fault_env \<Rightarrow> RevCPU \<Rightarrow> RevCPU res" where
  "tick_fault E S =
     (if \<not> EnableFaults S then Inr S
      else if FaultCntr S = 0 then
        bind_res (HandleFaultInjection E S) (\<lambda>S1. Inr (S1\<lparr>FaultCntr := ucast (c_fault_width S1)\<rparr>))
      else Inr (S\<lparr>FaultCntr := FaultCntr S - 1\<rparr>))"

definition cores_running :: "RevCPU \<Rightarrow> bool" where
  "cores_running S \<longleftrightarrow> list_ex (\<lambda>i. Enabled S ! i) [0..<length (Procs S)]"

definition net_pending :: "RevCPU \<Rightarrow> bool" where
  "net_pending S \<longleftrightarrow> SendMB S \<noteq> [] \<or> TrackTags S \<noteq> [] \<or> ZeroRqst S \<noteq> [] \<or> \<not> RevokeHasArrived S"

text \<open>The first component of the result is whether the simulation may end.\<close>

definition clockTick_cpu :: "(nat \<Rightarrow> tick_env) \<Rightarrow> fault_env \<Rightarrow> RevCPU \<Rightarrow> (bool \<times> RevCPU) res" where
  "clockTick_cpu V E S =
     bind_res (run_cores V 0 (length (Procs S)) S) (\<lambda>S1.
     bind_res (if EnablePAN S1 then tick_pan S1 else Inr S1) (\<lambda>S2.
     bind_res (tick_fault E S2) (\<lambda>S3.
       Inr (\<not> cores_running S3 \<and> \<not> net_pending S3, S3))))"

text \<open>The clock of the test harness does not update the statistics of the cores.\<close>

fun run_test_cores :: "(nat \<Rightarrow> tick_env) \<Rightarrow> nat \<Rightarrow> nat \<Rightarrow> RevCPU \<Rightarrow> RevCPU res" where
  "run_test_cores V i 0 S = Inr S"
| "run_test_cores V i (Suc n) S =
     (if \<not> Enabled S ! i then run_test_cores V (Suc i) n S
      else bind_res (run_core (V i) i S) (\<lambda>(b, S1).
             run_test_cores V (Suc i) n (if b then S1 else S1\<lparr>Enabled := (Enabled S1)[i := False]\<rparr>)))"

definition clockTickPANTest :: "(nat \<Rightarrow> tick_env) \<Rightarrow> RevCPU \<Rightarrow> (bool \<times> RevCPU) res" where
  "clockTickPANTest V S =
     bind_res (ExecPANTest S) (\<lambda>S1.
     bind_res (run_test_cores V 0 (length (Procs S1)) S1) (\<lambda>S2.
     bind_res (send_messages (unat (msgPerCycle S2)) S2) (\<lambda>S3.
       Inr (\<not> cores_running S3 \<and> \<not> ((SendMB S3 \<noteq> [] \<or> TrackTags S3 \<noteq> []) \<and> testStage S3 < 11), S3))))"


section \<open>Initialisation\<close>

text \<open>The option strings of the component, in the order the constructor reads them.\<close>

record cpu_params =
  startAddrs :: "string list"
  startSyms :: "string list"
  machModels :: "string list"
  instTables :: "string list"
  memCostStrs :: "string list"
  prefetchDepths :: "string list"

definition init_opt :: "string \<Rightarrow> (bool \<times> RevOpts) res \<Rightarrow> RevOpts res" where
  "init_opt what r = bind_res r (\<lambda>(ok, Opts). if ok then Inr Opts else Inl (Fatal_CPU what))"

definition init_options :: "cpu_params \<Rightarrow> RevOpts \<Rightarrow> RevOpts res" where
  "init_options A Opts0 =
     bind_res (init_opt ''failed to initialize the starting addresses'' (InitStartAddrs (startAddrs A) Opts0)) (\<lambda>O1.
     bind_res (init_opt ''failed to initalized the starting symbols'' (InitStartSymbols (startSyms A) O1)) (\<lambda>O2.
     bind_res (init_opt ''failed to initialize the machine models'' (InitMachineModels (machModels A) O2)) (\<lambda>O3.
     bind_res (init_opt ''failed to initialize the instruction tables'' (InitInstTables (instTables A) O3)) (\<lambda>O4.
     bind_res (init_opt ''failed to initialize the memory latency range'' (InitMemCosts (memCostStrs A) O4)) (\<lambda>O5.
     init_opt ''failed to initalize the prefetch depth'' (InitPrefetchDepth (prefetchDepths A) O5))))))"

text \<open>
  The state after the constructor, for the given endpoint, memory and cores. Fields the constructor leaves
  uninitialised without the corresponding option are read only with it.
\<close>

definition new_RevCPU :: "string \<Rightarrow> bool \<Rightarrow> bool \<Rightarrow> bool \<Rightarrow> u32 \<Rightarrow> u32 \<Rightarrow> u32 \<Rightarrow> RevMem \<Rightarrow> RevProc list \<Rightarrow> u64 \<Rightarrow> (nat \<Rightarrow> u8) \<Rightarrow> RevCPU" where
  "new_RevCPU name pan host stats msgs rdma iters Mem Ps start junk =
     (let ex = (if pan \<and> \<not> host then Some new_PanExec else None)
      in \<lparr>c_name = name, c_numCores = of_nat (length Ps), msgPerCycle = msgs, RDMAPerCycle = rdma, testStage = 0,
          testIters = iters, c_mem = Mem, Procs = map (\<lambda>P. P\<lparr>PExec := ex\<rparr>) Ps, Enabled = replicate (length Ps) True,
          PrivTag = 0, LToken = 0, address = -1, c_fault_width = 0, FaultCntr = 0, PrevAddr = PAN_RDMA_MAILBOX,
          EnablePAN = pan, EnablePANStats = stats, EnableRDMAMBox = True, EnableFaults = False,
          EnableCrackFaults = False, EnableMemFaults = False, EnableRegFaults = False, EnableALUFaults = False,
          ReadyForRevoke = False, RevokeHasArrived = (\<not> pan \<or> host), PNic = new_PanNet host, c_PExec = ex,
          SendMB = [], ZeroRqst = [], TrackTags = [], TrackGets = [], ReadQueue = [], c_start = start,
          c_stats = [], c_coreStats = [], c_junk = junk\<rparr>)"

text \<open>The fault options: the width that was decoded is overwritten by the range.\<close>

definition init_faults :: "string list \<Rightarrow> string \<Rightarrow> u64 \<Rightarrow> RevCPU \<Rightarrow> RevCPU res" where
  "init_faults faults width rng S =
     bind_res (DecodeFaultCodes faults (S\<lparr>EnableFaults := True\<rparr>)) (\<lambda>S1.
     bind_res (DecodeFaultWidth width S1) (\<lambda>S2.
       Inr (S2\<lparr>c_fault_width := ucast rng, FaultCntr := ucast (ucast rng :: u32)\<rparr>)))"

text \<open>
  \<open>initNICMem\<close>: the segments of the PAN runtime, and the table of nodes: all entries are marked unused, the first is
  this node, then the nodes of the host map follow.
\<close>

definition write_pe :: "u64 \<Rightarrow> u64 \<Rightarrow> u64 \<Rightarrow> RevCPU \<Rightarrow> RevCPU res" where
  "write_pe ptr ident hst S =
     bind_res (write_mem ptr (le_bytes 8 ident) S) (write_mem (ptr + 8) (le_bytes 8 hst))"

fun clear_pes :: "nat \<Rightarrow> u64 \<Rightarrow> RevCPU \<Rightarrow> RevCPU res" where
  "clear_pes 0 ptr S = Inr S"
| "clear_pes (Suc n) ptr S = bind_res (write_pe ptr (-1) 2 S) (clear_pes n (ptr + 16))"

text \<open>The loop runs while \<open>i\<close> is below the number of nodes; \<open>n\<close> is the number of rounds left. The nodes it asks for are in the map, so the map does not change.\<close>

fun write_pes :: "nat \<Rightarrow> u32 \<Rightarrow> u64 \<Rightarrow> RevCPU \<Rightarrow> RevCPU res" where
  "write_pes 0 i ptr S = Inr S"
| "write_pes (Suc n) i ptr S =
     (let nid = getHostFromIdx i (PNic S); (h, N) = IsRemoteHost nid (PNic S)
      in bind_res (write_pe ptr (word_of_int nid) (if h then 1 else 0) (S\<lparr>PNic := N\<rparr>))
           (write_pes n (i + 1) (ptr + 16)))"

definition initNICMem :: "int \<Rightarrow> RevCPU \<Rightarrow> RevCPU res" where
  "initNICMem ident S =
     (let seg = (\<lambda>a n M. snd (AddMemSegAt a n M));
          M1 = seg PAN_COMPLETION_ADDR 8 (c_mem S);
          M2 = seg PAN_COMPLETION_ADDR (24 * of_nat PAN_RDMA_MAX_ENTRIES) M1;
          M3 = seg PAN_PE_TABLE_ADDR (16 * of_nat PAN_PE_TABLE_MAX_ENTRIES) M2;
          M4 = seg PAN_XFER_BUF_ADDR (1025 * of_nat PAN_XFER_BUF) M3
      in bind_res (clear_pes PAN_PE_TABLE_MAX_ENTRIES PAN_PE_TABLE_ADDR (S\<lparr>c_mem := M4\<rparr>)) (\<lambda>S1.
         bind_res (write_pe PAN_PE_TABLE_ADDR (word_of_int ident) (if isHost (PNic S1) then 1 else 0) S1) (\<lambda>S2.
           write_pes (unat (getNumPEs (PNic S2))) 0 (PAN_PE_TABLE_ADDR + 16) S2)))"

text \<open>The endpoint's own \<open>setup\<close> only checks that the message handler is set, which the constructor does.\<close>

definition setup_cpu :: "int \<Rightarrow> RevCPU \<Rightarrow> RevCPU res" where
  "setup_cpu ident S = (if EnablePAN S then initNICMem ident (S\<lparr>address := word_of_int ident\<rparr>) else Inr S)"

end
