(* ===== verification/Rev_PanCPUProps.thy ===== *)
theory Rev_PanCPUProps
  imports Rev_PanCPU
begin

text \<open>
  Properties of the PAN network layer: replies, tokens and reservations, remote reads and writes, the mailboxes.
\<close>

section \<open>Replies\<close>

definition reply_to :: "u8 \<Rightarrow> panNicEvent \<Rightarrow> RevCPU \<Rightarrow> panNicEvent" where
  "reply_to opc event S =
     \<lparr>v_SrcName = c_name S, v_Src = address S, v_Tag = v_Tag event, v_Opcode = opc, v_VarArgs = 0, v_Size = 0,
      v_Token = v_Token event, v_Offset = 0, v_Addr = 0, v_Data = []\<rparr>"

lemma setSize_base: "v_Opcode e AND 3 = 0 \<Longrightarrow> setSize_ev n e = (True, e\<lparr>v_Size := n AND 0xFFFF\<rparr>)"
  by (simp add: setSize_ev_def getType_def)

lemma setSize_stream: "v_Opcode e AND 3 = 1 \<Longrightarrow> setSize_ev n e = (True, e\<lparr>v_Size := n AND 0xFFFFF\<rparr>)"
  by (simp add: setSize_ev_def getType_def)

lemma build_reply:
  "buildSuccess tok tag e = (True, e\<lparr>v_Opcode := op_Success, v_Token := tok, v_Tag := tag, v_Size := 0\<rparr>)"
  "buildFailed tok tag e = (True, e\<lparr>v_Opcode := op_Failed, v_Token := tok, v_Tag := tag, v_Size := 0\<rparr>)"
  by (simp_all add: buildSuccess_def buildFailed_def build_sized_def setTag_def setToken_def setSize_base op_Success_def
      op_Failed_def)

lemma new_event_setSize: "snd (setSize_ev n (new_event S)) = (new_event S)\<lparr>v_Size := 0\<rparr>"
  by (simp add: setSize_ev_def getType_def new_event_def new_panNicEvent_def)

lemma replies [simp]:
  "PANBuildFailedToken event S = Inr (push_mb (reply_to op_Failed event S) (v_Src event) S)"
  "PANBuildRawSuccess event S = Inr (push_mb (reply_to op_Success event S) (v_Src event) S)"
  "reply_success n event S = Inr (push_mb (reply_to op_Success event S) (v_Src event) S)"
  by (simp_all add: PANBuildFailedToken_def PANBuildRawSuccess_def reply_success_def PANBuildBasicSuccess_def
      build_reply new_event_setSize reply_to_def setSrc_def)
    (simp_all add: new_event_def new_panNicEvent_def)

text \<open>The commands that need the reservation token.\<close>

definition token_ops :: "u8 list" where
  "token_ops = [op_SyncPut, op_AsyncGet, op_AsyncPut, op_SyncStreamGet, op_SyncStreamPut, op_AsyncStreamGet,
     op_AsyncStreamPut, op_Exec, op_Status, op_Cancel, op_Revoke, op_Halt, op_Resume, op_ReadReg, op_WriteReg,
     op_SingleStep, op_SetFuture, op_RevokeFuture, op_StatusFuture, op_BOTW]"

lemmas get_handlers = PANHandleSyncGet_def PANHandleAsyncGet_def PANHandleSyncStreamGet_def PANHandleAsyncStreamGet_def
lemmas put_handlers = PANHandleSyncPut_def PANHandleAsyncPut_def PANHandleSyncStreamPut_def PANHandleAsyncStreamPut_def
lemmas ctrl_handlers = PANHandleExec_def PANHandleStatus_def PANHandleCancel_def PANHandleRevoke_def PANHandleHalt_def
  PANHandleResume_def PANHandleReadReg_def PANHandleWriteReg_def PANHandleSingleStep_def PANHandleSetFuture_def
  PANHandleRevokeFuture_def PANHandleStatusFuture_def PANHandleBOTW_def

definition recv_stat :: "u8 \<Rightarrow> string" where
  "recv_stat opc =
     (if opc = op_SetFuture then ''SingleStepRecv'' else if opc = op_RevokeFuture then ''SetFutureRecv''
      else getOpcodeStr \<lparr>v_SrcName = [], v_Src = 0, v_Tag = 0, v_Opcode = opc, v_VarArgs = 0, v_Size = 0, v_Token = 0,
        v_Offset = 0, v_Addr = 0, v_Data = []\<rparr> @ ''Recv'')"


text \<open>The dispatch of a node that is not a host, one equation for each opcode.\<close>

lemma net_dispatch:
  "v_Opcode event = op_SyncGet \<Longrightarrow> handleNetPANMessage event S = then_stat ''SyncGet'' (PANHandleSyncGet event S)"
  "v_Opcode event = op_SyncPut \<Longrightarrow> handleNetPANMessage event S = then_stat ''SyncPut'' (PANHandleSyncPut event S)"
  "v_Opcode event = op_AsyncGet \<Longrightarrow> handleNetPANMessage event S = then_stat ''AsyncGet'' (PANHandleAsyncGet event S)"
  "v_Opcode event = op_AsyncPut \<Longrightarrow> handleNetPANMessage event S = then_stat ''AsyncPut'' (PANHandleAsyncPut event S)"
  "v_Opcode event = op_SyncStreamGet \<Longrightarrow> handleNetPANMessage event S = then_stat ''SyncStreamGet'' (PANHandleSyncStreamGet event S)"
  "v_Opcode event = op_SyncStreamPut \<Longrightarrow> handleNetPANMessage event S = then_stat ''SyncStreamPut'' (PANHandleSyncStreamPut event S)"
  "v_Opcode event = op_AsyncStreamGet \<Longrightarrow> handleNetPANMessage event S = then_stat ''AsyncStreamGet'' (PANHandleAsyncStreamGet event S)"
  "v_Opcode event = op_AsyncStreamPut \<Longrightarrow> handleNetPANMessage event S = then_stat ''AsyncStreamPut'' (PANHandleAsyncStreamPut event S)"
  "v_Opcode event = op_Exec \<Longrightarrow> handleNetPANMessage event S = then_stat ''Exec'' (PANHandleExec event S)"
  "v_Opcode event = op_Status \<Longrightarrow> handleNetPANMessage event S = then_stat ''Status'' (PANHandleStatus event S)"
  "v_Opcode event = op_Cancel \<Longrightarrow> handleNetPANMessage event S = then_stat ''Cancel'' (PANHandleCancel event S)"
  "v_Opcode event = op_Reserve \<Longrightarrow> handleNetPANMessage event S = then_stat ''Reserve'' (PANHandleReserve event S)"
  "v_Opcode event = op_Revoke \<Longrightarrow> handleNetPANMessage event S = then_stat ''Revoke'' (PANHandleRevoke event S)"
  "v_Opcode event = op_Halt \<Longrightarrow> handleNetPANMessage event S = then_stat ''Halt'' (PANHandleHalt event S)"
  "v_Opcode event = op_Resume \<Longrightarrow> handleNetPANMessage event S = then_stat ''Resume'' (PANHandleResume event S)"
  "v_Opcode event = op_ReadReg \<Longrightarrow> handleNetPANMessage event S = then_stat ''ReadReg'' (PANHandleReadReg event S)"
  "v_Opcode event = op_WriteReg \<Longrightarrow> handleNetPANMessage event S = then_stat ''WriteReg'' (PANHandleWriteReg event S)"
  "v_Opcode event = op_SingleStep \<Longrightarrow> handleNetPANMessage event S = then_stat ''SingleStep'' (PANHandleSingleStep event S)"
  "v_Opcode event = op_SetFuture \<Longrightarrow> handleNetPANMessage event S = then_stat ''SingleStep'' (PANHandleSetFuture event S)"
  "v_Opcode event = op_RevokeFuture \<Longrightarrow> handleNetPANMessage event S = then_stat ''SetFuture'' (PANHandleRevokeFuture event S)"
  "v_Opcode event = op_StatusFuture \<Longrightarrow> handleNetPANMessage event S = then_stat ''StatusFuture'' (PANHandleStatusFuture event S)"
  "v_Opcode event = op_BOTW \<Longrightarrow> handleNetPANMessage event S = then_stat ''BOTW'' (PANHandleBOTW event S)"
  "v_Opcode event = op_Success \<Longrightarrow> handleNetPANMessage event S = then_stat ''Success'' (PANHandleSuccess event S)"
  "v_Opcode event = op_Failed \<Longrightarrow> handleNetPANMessage event S = then_stat ''Failed'' (PANHandleFailed event S)"
  by (simp_all add: handleNetPANMessage_def pan_opcodes)

lemma then_stat_Inr:
  "then_stat st r = Inr S' \<longleftrightarrow>
   (\<exists>S1. r = Inr S1 \<and> EnablePANStats S1 \<and> S' = S1\<lparr>c_stats := c_stats S1 @ [st @ ''Recv'']\<rparr>)"
  by (auto simp: then_stat_def addData_def bind_res_Inr_iff split: if_splits)

text \<open>The commands that are answered at once, and the gets, which are answered when their cost has run out.\<close>

definition get_ops :: "u8 list" where
  "get_ops = [op_SyncGet, op_AsyncGet, op_SyncStreamGet, op_AsyncStreamGet]"

definition reply_ops :: "u8 list" where
  "reply_ops = [op_SyncPut, op_AsyncPut, op_SyncStreamPut, op_AsyncStreamPut, op_Exec, op_Status, op_Cancel, op_Reserve,
     op_Revoke, op_Halt, op_Resume, op_ReadReg, op_WriteReg, op_SingleStep, op_SetFuture, op_RevokeFuture,
     op_StatusFuture, op_BOTW]"

definition one_reply :: "panNicEvent \<Rightarrow> RevCPU \<Rightarrow> RevCPU \<Rightarrow> bool" where
  "one_reply event S S' \<longleftrightarrow> (\<exists>e. SendMB S' = SendMB S @ [(e, v_Src event)] \<and> v_Opcode e \<in> {op_Success, op_Failed} \<and>
     v_Tag e = v_Tag event \<and> v_Token e = v_Token event \<and> v_Src e = address S) \<and> ReadQueue S' = ReadQueue S"

lemma one_replyI [simp]:
  "SendMB S1 = SendMB S \<Longrightarrow> ReadQueue S1 = ReadQueue S \<Longrightarrow> opc \<in> {op_Success, op_Failed} \<Longrightarrow> address S1 = address S \<Longrightarrow>
   one_reply event S (push_mb (reply_to opc event S1) (v_Src event) S1)"
  by (auto simp: one_reply_def push_mb_def reply_to_def)

lemma one_reply_stats [simp]: "one_reply event S (S'\<lparr>c_stats := st\<rparr>) = one_reply event S S'"
  by (simp add: one_reply_def)

lemma write_mem_frame: "write_mem a bs S = Inr S' \<Longrightarrow> \<exists>M. S' = S\<lparr>c_mem := M\<rparr>"
  by (auto simp: write_mem_def)

lemma put_one_reply:
  "PANHandleSyncPut event S = Inr S' \<Longrightarrow> one_reply event S S'"
  "PANHandleAsyncPut event S = Inr S' \<Longrightarrow> one_reply event S S'"
  "PANHandleSyncStreamPut event S = Inr S' \<Longrightarrow> one_reply event S S'"
  "PANHandleAsyncStreamPut event S = Inr S' \<Longrightarrow> one_reply event S S'"
  by (auto simp: put_handlers PANHandleZeroAddrPut_def dest!: write_mem_frame split: if_splits)

lemma ctrl_one_reply:
  "PANHandleExec event S = Inr S' \<Longrightarrow> one_reply event S S'"
  "PANHandleStatus event S = Inr S' \<Longrightarrow> one_reply event S S'"
  "PANHandleCancel event S = Inr S' \<Longrightarrow> one_reply event S S'"
  "PANHandleReserve event S = Inr S' \<Longrightarrow> one_reply event S S'"
  "PANHandleRevoke event S = Inr S' \<Longrightarrow> one_reply event S S'"
  "PANHandleHalt event S = Inr S' \<Longrightarrow> one_reply event S S'"
  "PANHandleResume event S = Inr S' \<Longrightarrow> one_reply event S S'"
  "PANHandleWriteReg event S = Inr S' \<Longrightarrow> one_reply event S S'"
  "PANHandleSetFuture event S = Inr S' \<Longrightarrow> one_reply event S S'"
  "PANHandleRevokeFuture event S = Inr S' \<Longrightarrow> one_reply event S S'"
  "PANHandleBOTW event S = Inr S' \<Longrightarrow> one_reply event S S'"
  by (auto simp: ctrl_handlers PANHandleReserve_def add_exec_def set_core_def Let_def
      split: if_splits option.splits prod.splits)

lemma basic_success:
  "PANBuildBasicSuccess event e S =
   Inr (e\<lparr>v_Src := address S, v_Opcode := op_Success, v_Token := v_Token event, v_Tag := v_Tag event, v_Size := 0\<rparr>)"
  by (simp add: PANBuildBasicSuccess_def build_reply setSrc_def)

lemma one_reply_push:
  "SendMB S1 = SendMB S \<Longrightarrow> ReadQueue S1 = ReadQueue S \<Longrightarrow> v_Opcode e \<in> {op_Success, op_Failed} \<Longrightarrow>
   v_Tag e = v_Tag event \<Longrightarrow> v_Token e = v_Token event \<Longrightarrow> v_Src e = address S \<Longrightarrow>
   one_reply event S (push_mb e (v_Src event) S1)"
  by (auto simp: one_reply_def push_mb_def)

lemma data_one_reply:
  "PANHandleReadReg event S = Inr S' \<Longrightarrow> one_reply event S S'"
  "PANHandleSingleStep event S = Inr S' \<Longrightarrow> one_reply event S S'"
  "PANHandleStatusFuture event S = Inr S' \<Longrightarrow> one_reply event S S'"
  subgoal by (auto simp: PANHandleReadReg_def Let_def basic_success setSrc_def one_reply_push split: if_splits option.splits)
  subgoal by (auto simp: PANHandleSingleStep_def Let_def basic_success setSrc_def setAddr_def one_reply_push set_core_def
        split: if_splits prod.splits)
  subgoal by (auto simp: PANHandleStatusFuture_def Let_def basic_success setSrc_def one_reply_push setSize_base
        op_Success_def split: if_splits)
  done

lemma then_stat_one_reply:
  "then_stat st r = Inr S' \<Longrightarrow> (\<And>S1. r = Inr S1 \<Longrightarrow> one_reply event S S1) \<Longrightarrow> one_reply event S S'"
  by (auto simp: then_stat_Inr)

text \<open>
  C22. Every command that is handled gets exactly one answer: one reply, \<open>Success\<close> or \<open>Failed\<close>, with the tag and the token
  of the command and this node's address as its source, is added to the mailbox for the sender of the command.
  (The answer to a get is produced later; see below.)
\<close>

theorem pan_one_reply:
  assumes "\<not> isHost (PNic S)" and "v_Opcode event \<in> set reply_ops" and "handlePANMessage event S = Inr S'"
  shows "\<exists>e. SendMB S' = SendMB S @ [(e, v_Src event)] \<and> v_Opcode e \<in> {op_Success, op_Failed} \<and>
    v_Tag e = v_Tag event \<and> v_Token e = v_Token event \<and> v_Src e = address S \<and> ReadQueue S' = ReadQueue S"
proof -
  have h: "handleNetPANMessage event S = Inr S'" using assms(1,3) by (simp add: handlePANMessage_def)
  have "one_reply event S S'"
    using assms(2) h unfolding reply_ops_def list.set insert_iff empty_iff
    by (elim disjE FalseE; simp only: net_dispatch)
      (erule then_stat_one_reply, erule put_one_reply ctrl_one_reply data_one_reply)+
  then show ?thesis by (auto simp: one_reply_def)
qed


section \<open>Reservation\<close>

text \<open>What a step leaves of the endpoint: everything but the queue of messages.\<close>

definition nic_same :: "RevCPU \<Rightarrow> RevCPU \<Rightarrow> bool" where
  "nic_same S S' \<longleftrightarrow> isHost (PNic S') = isHost (PNic S) \<and> isReserved (PNic S') = isReserved (PNic S) \<and>
     n_Token (PNic S') = n_Token (PNic S) \<and> ReadyForRevoke S' = ReadyForRevoke S"

lemma nic_same_refl [simp]: "nic_same S S"
  by (simp add: nic_same_def)

lemma nic_same_trans: "nic_same S S1 \<Longrightarrow> nic_same S1 S2 \<Longrightarrow> nic_same S S2"
  by (simp add: nic_same_def)

lemma nic_same_upd [simp]:
  "nic_same S (S'\<lparr>c_mem := M\<rparr>) = nic_same S S'"
  "nic_same S (S'\<lparr>c_stats := st\<rparr>) = nic_same S S'"
  "nic_same S (S'\<lparr>Procs := Ps\<rparr>) = nic_same S S'"
  "nic_same S (S'\<lparr>TrackTags := tt\<rparr>) = nic_same S S'"
  "nic_same S (S'\<lparr>TrackGets := tg\<rparr>) = nic_same S S'"
  "nic_same S (S'\<lparr>ReadQueue := rq\<rparr>) = nic_same S S'"
  "nic_same S (S'\<lparr>ZeroRqst := zr\<rparr>) = nic_same S S'"
  "nic_same S (S'\<lparr>PrevAddr := pa\<rparr>) = nic_same S S'"
  "nic_same S (S'\<lparr>c_PExec := px\<rparr>) = nic_same S S'"
  "nic_same S (S'\<lparr>SendMB := mb\<rparr>) = nic_same S S'"
  "nic_same S (push_mb e d S') = nic_same S S'"
  "nic_same S (set_core i P S') = nic_same S S'"
  "nic_same S (S'\<lparr>PNic := send_net e d (PNic S')\<rparr>) = nic_same S S'"
  by (simp_all add: nic_same_def push_mb_def set_core_def send_net_def)

lemma access_nic:
  "write_mem a bs S = Inr S' \<Longrightarrow> nic_same S S'"
  "read_words a n k S = Inr (ws, S') \<Longrightarrow> nic_same S S'"
  "ReadU64 a S = Inr (w, S') \<Longrightarrow> nic_same S S'"
  by (auto simp: write_mem_def read_words_def ReadU64_def read_bytes_def)

lemma put_nic:
  "PANHandleSyncPut event S = Inr S' \<Longrightarrow> nic_same S S'"
  "PANHandleAsyncPut event S = Inr S' \<Longrightarrow> nic_same S S'"
  "PANHandleSyncStreamPut event S = Inr S' \<Longrightarrow> nic_same S S'"
  "PANHandleAsyncStreamPut event S = Inr S' \<Longrightarrow> nic_same S S'"
  by (auto simp: put_handlers PANHandleZeroAddrPut_def dest!: write_mem_frame split: if_splits)

lemma queue_read_nic: "queue_read event S = Inr S' \<Longrightarrow> nic_same S S'"
  by (auto simp: queue_read_def split: list.splits)

lemma get_nic:
  "PANHandleSyncGet event S = Inr S' \<Longrightarrow> nic_same S S'"
  "PANHandleAsyncGet event S = Inr S' \<Longrightarrow> nic_same S S'"
  "PANHandleSyncStreamGet event S = Inr S' \<Longrightarrow> nic_same S S'"
  "PANHandleAsyncStreamGet event S = Inr S' \<Longrightarrow> nic_same S S'"
  by (auto simp: get_handlers dest!: queue_read_nic split: if_splits) (auto simp: nic_same_def push_mb_def)

lemma ctrl_nic:
  "PANHandleExec event S = Inr S' \<Longrightarrow> nic_same S S'"
  "PANHandleStatus event S = Inr S' \<Longrightarrow> nic_same S S'"
  "PANHandleCancel event S = Inr S' \<Longrightarrow> nic_same S S'"
  "PANHandleHalt event S = Inr S' \<Longrightarrow> nic_same S S'"
  "PANHandleResume event S = Inr S' \<Longrightarrow> nic_same S S'"
  "PANHandleReadReg event S = Inr S' \<Longrightarrow> nic_same S S'"
  "PANHandleWriteReg event S = Inr S' \<Longrightarrow> nic_same S S'"
  "PANHandleSingleStep event S = Inr S' \<Longrightarrow> nic_same S S'"
  "PANHandleSetFuture event S = Inr S' \<Longrightarrow> nic_same S S'"
  "PANHandleRevokeFuture event S = Inr S' \<Longrightarrow> nic_same S S'"
  "PANHandleStatusFuture event S = Inr S' \<Longrightarrow> nic_same S S'"
  "PANHandleBOTW event S = Inr S' \<Longrightarrow> nic_same S S'"
  by (auto simp: ctrl_handlers add_exec_def Let_def basic_success split: if_splits option.splits prod.splits)

lemma signal_nic: "signal_loop k Addr tag sig S = Inr S' \<Longrightarrow> nic_same S S'"
proof (induction k Addr tag sig S rule: signal_loop.induct)
  case (2 k Addr tag sig S)
  from 2(2) obtain ws S1 w S2 where r: "read_words Addr 24 3 S = Inr (ws, S1)" "ReadU64 (ws ! 2) S1 = Inr (w, S2)"
    and n: "(if ucast (drop_bit 32 w AND 0xFF) = tag \<and> ws ! 0 = PAN_ENTRY_INJECTED
        then write_mem Addr (le_bytes 8 sig) S2 else signal_loop k (Addr + 24) tag sig S2) = Inr S'"
    by (auto simp: Let_def)
  have "nic_same S S2" using r by (blast intro: access_nic nic_same_trans)
  moreover have "nic_same S2 S'" using n 2(1) [OF r(1) refl r(2) refl refl] access_nic(1)
    by (auto split: if_splits)
  ultimately show ?case by (rule nic_same_trans)
qed simp

lemma answer_nic:
  "PANHandleSuccess event S = Inr S' \<Longrightarrow> nic_same S S'"
  "PANHandleFailed event S = Inr S' \<Longrightarrow> nic_same S S'"
proof -
  have g: "nic_same S S1" if "success_gets tag S = Inr S1" for tag S1
    using that access_nic(1) by (auto simp: success_gets_def split: if_splits list.splits)
  show "PANHandleSuccess event S = Inr S' \<Longrightarrow> nic_same S S'"
    by (auto simp: PANHandleSuccess_def PANSignalMsgRecv_def split: if_splits
        intro: nic_same_trans dest!: g signal_nic)
  show "PANHandleFailed event S = Inr S' \<Longrightarrow> nic_same S S'"
    by (auto simp: PANHandleFailed_def PANSignalMsgRecv_def split: if_splits dest!: signal_nic)
qed

lemma rdma_nic:
  "rdma_get b Addr q event S = Inr (e, S') \<Longrightarrow> nic_same S S'"
  "rdma_put b' Addr q event S = Inr (e, S') \<Longrightarrow> nic_same S S'"
  "rdma_addr b'' Addr event S = Inr (e, S') \<Longrightarrow> nic_same S S'"
  "rdma_plain r S = Inr (e, S') \<Longrightarrow> nic_same S S'"
  by (auto simp: rdma_get_def rdma_put_def rdma_addr_def rdma_plain_def intro: nic_same_trans dest!: access_nic)

lemma encode_nic: "encode_rdma Addr q event S = Inr (e, S') \<Longrightarrow> nic_same S S'"
  by (auto simp: encode_rdma_def encode_ctrl_def Let_def intro: nic_same_trans dest!: access_nic rdma_nic split: if_splits)

lemma mbox_entry_nic: "mbox_entry Addr S = Inr (b, S') \<Longrightarrow> nic_same S S'"
  by (auto simp: mbox_entry_def PANConvertRDMAtoEvent_def split: if_splits
      dest!: access_nic encode_nic intro: nic_same_trans) (auto simp: nic_same_def push_mb_def)

lemma mbox_loop_nic: "mbox_loop k sent Addr S = Inr S' \<Longrightarrow> nic_same S S'"
proof (induction k arbitrary: sent Addr S)
  case (Suc k)
  then obtain b S1 where e: "mbox_entry Addr S = Inr (b, S1)"
    and n: "(let sent1 = (if b then sent + 1 else sent); Addr1 = next_entry Addr
       in if k = 0 \<or> sent1 = RDMAPerCycle S1 \<or> length (SendMB S1) = 255 then Inr (S1\<lparr>PrevAddr := Addr1\<rparr>)
          else mbox_loop k sent1 Addr1 S1) = Inr S'" by auto
  have "nic_same S1 S'" using n Suc.IH by (auto simp: Let_def split: if_splits)
  then show ?case using mbox_entry_nic [OF e] by (rule nic_same_trans [rotated])
qed simp

lemma send_nic:
  assumes "sendPANMessage S = Inr S'" and "\<not> ReadyForRevoke S"
  shows "nic_same S S'"
proof -
  have "nic_same S S2" if "registerSendCmd ev S1 = Inr S2" "nic_same S S1" for ev S1 S2
    using that by (auto simp: registerSendCmd_def addData_def split: if_splits)
  then show ?thesis using assms
    by (auto simp: sendPANMessage_def Let_def split: list.splits if_splits) (simp_all add: nic_same_def send_net_def)
qed

lemma send_messages_nic:
  "send_messages n S = Inr S' \<Longrightarrow> \<not> ReadyForRevoke S \<Longrightarrow> nic_same S S'"
proof (induction n arbitrary: S)
  case (Suc n)
  then obtain S1 where "sendPANMessage S = Inr S1" and r: "send_messages n S1 = Inr S'" by auto
  then have n: "nic_same S S1" using send_nic Suc.prems(2) by blast
  then have "nic_same S1 S'" using Suc.IH [OF r] Suc.prems(2) by (simp add: nic_same_def)
  with n show ?case by (rule nic_same_trans)
qed simp

lemma answer_reads_nic: "answer_reads rs S = Inr S' \<Longrightarrow> nic_same S S'"
proof (induction rs arbitrary: S)
  case (Cons r rs)
  have "nic_same S S1" if "answer_read r S = Inr S1" for S1
    using that by (auto simp: answer_read_def Let_def split: prod.splits dest!: access_nic)
  then show ?case using Cons by (auto split: if_splits intro: nic_same_trans)
qed simp

lemma tick_pan_nic:
  assumes "tick_pan S = Inr S'" and "\<not> ReadyForRevoke S"
  shows "nic_same S S'"
proof -
  from assms(1) obtain S1 S2 S3 where 1: "(if EnableRDMAMBox S then PANProcessRDMAMailbox S else Inr S) = Inr S1"
    and 2: "send_messages (unat (msgPerCycle S1)) S1 = Inr S2" and 3: "processPANMemRead S2 = Inr S3"
    and 4: "processPANZeroAddr S3 = Inr S'" by (auto simp: tick_pan_def)
  have a: "nic_same S S1" using 1 mbox_loop_nic by (auto simp: PANProcessRDMAMailbox_def split: if_splits)
  then have b: "nic_same S1 S2" using send_messages_nic [OF 2] assms(2) by (simp add: nic_same_def)
  have c: "nic_same S2 S3" using 3 answer_reads_nic
    by (fastforce simp: processPANMemRead_def Let_def nic_same_def)
  have "S' = S3" using 4 by (auto simp: processPANZeroAddr_def split: if_splits)
  then show ?thesis using a b c by (blast intro: nic_same_trans)
qed

lemma handle_nic:
  assumes "handlePANMessage event S = Inr S'" and "\<not> isHost (PNic S)" and "isReserved (PNic S)"
    and "\<not> (v_Opcode event = op_Revoke \<and> v_Token event = n_Token (PNic S))"
  shows "nic_same S S'"
proof -
  have h: "handleNetPANMessage event S = Inr S'" using assms(1,2) by (simp add: handlePANMessage_def)
  have r: "nic_same S S1" if "then_stat st (PANHandleReserve event S) = Inr S1" for st S1
    using that assms(3) by (auto simp: then_stat_Inr PANHandleReserve_def)
  have v: "nic_same S S1" if "then_stat st (PANHandleRevoke event S) = Inr S1" "v_Opcode event = op_Revoke" for st S1
    using that assms(4) by (auto simp: then_stat_Inr PANHandleRevoke_def token_ok_def CheckToken_def split: if_splits)
  have t: "nic_same S S1" if "then_stat st x = Inr S1" "\<And>S2. x = Inr S2 \<Longrightarrow> nic_same S S2" for st x S1
    using that by (auto simp: then_stat_Inr)
  consider "v_Opcode event \<in> set (op_Success # op_Failed # op_Reserve # op_SyncGet # token_ops)"
    | "v_Opcode event \<notin> set (op_Success # op_Failed # op_Reserve # op_SyncGet # token_ops)" by blast
  then show ?thesis
  proof cases
    case 1
    then show ?thesis using h unfolding token_ops_def list.set insert_iff empty_iff
      by (elim disjE FalseE; simp only: net_dispatch)
        ((erule t, erule put_nic get_nic ctrl_nic answer_nic) | erule r | (erule v, assumption))+
  next
    case 2
    then show ?thesis using h by (simp add: handleNetPANMessage_def token_ops_def)
  qed
qed

text \<open>
  Runs of the network layer of a node: messages arrive, and the network part of the clock cycle is executed, in any
  order.
\<close>

datatype pan_input = Recv panNicEvent | Tick

fun pan_run :: "pan_input list \<Rightarrow> RevCPU \<Rightarrow> RevCPU res" where
  "pan_run [] S = Inr S"
| "pan_run (Recv ev # is) S = bind_res (handlePANMessage ev S) (pan_run is)"
| "pan_run (Tick # is) S = bind_res (tick_pan S) (pan_run is)"

text \<open>
  C20. A reservation is exclusive: once a node is reserved with a token, no sequence of messages and clock cycles changes
  the token, unless the sequence contains a \<open>Revoke\<close> command with that token. In particular, exactly the commands with
  this token pass the token test.
\<close>

theorem pan_reservation_exclusive:
  assumes "\<not> isHost (PNic S)" and "isReserved (PNic S)" and "\<not> ReadyForRevoke S" and "pan_run is S = Inr S'"
    and "\<forall>ev. Recv ev \<in> set is \<longrightarrow> \<not> (v_Opcode ev = op_Revoke \<and> v_Token ev = n_Token (PNic S))"
  shows "isReserved (PNic S') \<and> n_Token (PNic S') = n_Token (PNic S) \<and>
    (\<forall>t. CheckToken t (PNic S') \<longleftrightarrow> t = n_Token (PNic S))"
proof -
  have "nic_same S S'" using assms
  proof (induction "is" S rule: pan_run.induct)
    case (2 ev "is" S)
    then obtain S1 where h: "handlePANMessage ev S = Inr S1" and r: "pan_run is S1 = Inr S'" by auto
    have n: "nic_same S S1" by (rule handle_nic [OF h 2(2,3)]) (use 2(6) in auto)
    have "nic_same S1 S'" by (rule 2(1) [OF h _ _ _ r]) (use n 2(2-4,6) in \<open>auto simp: nic_same_def\<close>)
    with n show ?case by (rule nic_same_trans)
  next
    case (3 "is" S)
    then obtain S1 where h: "tick_pan S = Inr S1" and r: "pan_run is S1 = Inr S'" by auto
    have n: "nic_same S S1" by (rule tick_pan_nic [OF h 3(4)])
    have "nic_same S1 S'" by (rule 3(1) [OF h _ _ _ r]) (use n 3(2-4,6) in \<open>auto simp: nic_same_def\<close>)
    with n show ?case by (rule nic_same_trans)
  qed simp
  then show ?thesis using assms(2) by (auto simp: nic_same_def CheckToken_def)
qed


section \<open>Bytes and words\<close>

lemma bytes_of_simps [simp]: "bytes_of [] = []" "bytes_of (w # ws) = le_bytes 8 w @ bytes_of ws"
  by (simp_all add: bytes_of_def)

lemma length_bytes_of [simp]: "length (bytes_of ws) = 8 * length ws"
  by (induction ws) simp_all

lemma words_of_Suc: "words_of (Suc n) bs = le_word (take 8 bs) # words_of n (drop 8 bs)"
  by (simp add: words_of_def upt_conv_Cons map_Suc_upt [symmetric] comp_def del: upt_Suc map_Suc_upt)
    (simp add: add.commute)

lemma length_words_of [simp]: "length (words_of n bs) = n"
  by (simp add: words_of_def)

lemma bytes_words_of: "length bs = 8 * n \<Longrightarrow> bytes_of (words_of n bs) = bs"
proof (induction n arbitrary: bs)
  case (Suc n)
  then have "bytes_of (words_of n (drop 8 bs)) = drop 8 bs" by simp
  moreover have "le_bytes 8 (le_word (take 8 bs) :: u64) = take 8 bs" by (rule le_bytes_le_word) (use Suc.prems in simp_all)
  ultimately show ?case by (simp add: words_of_Suc)
qed (simp add: words_of_def)

lemma div_round_up: "0 < x mod 8 \<Longrightarrow> (x + 7) div 8 = x div 8 + 1" for x :: nat
proof -
  assume "0 < x mod 8"
  then have "(x mod 8 + 7) div 8 = 1" by (intro div_nat_eqI) simp_all
  moreover have "x + 7 = (x mod 8 + 7) + x div 8 * 8" by simp
  ultimately show ?thesis by (metis add.commute div_mult_self1 zero_neq_numeral)
qed

lemma getNumBlocks_eq: "getNumBlocks n = (unat n + 7) div 8"
proof (cases "unat n < 8")
  case True
  then have "n < 8" by (simp add: word_less_nat_alt)
  moreover have "n = 0 \<or> (unat n + 7) div 8 = 1"
    using True unat_eq_zero [of n] by (cases "unat n = 0") (simp_all add: div_nat_eqI)
  ultimately show ?thesis by (auto simp: getNumBlocks_def)
next
  case False
  then have "\<not> n < 8" "n \<noteq> 0" by (auto simp: word_less_nat_alt)
  moreover have "n mod 8 > 0 \<longleftrightarrow> 0 < unat n mod 8" by (simp add: word_less_nat_alt unat_mod)
  moreover have "(unat n + 7) div 8 = unat n div 8" if "unat n mod 8 = 0"
    using mod_eq_0_iff_dvd [THEN iffD1, OF that] by (auto elim!: dvdE)
  ultimately show ?thesis using div_round_up [of "unat n"] by (auto simp: getNumBlocks_def unat_div)
qed

lemma blocks_cover: "unat n \<le> 8 * getNumBlocks n"
  by (simp add: getNumBlocks_eq)


section \<open>Remote reads and writes\<close>

text \<open>The accesses of the network layer to the memory: a read has to stay in a page.\<close>

definition in_page :: "u64 \<Rightarrow> nat \<Rightarrow> bool" where
  "in_page a n \<longleftrightarrow> unat a mod 2 ^ 18 + n \<le> 2 ^ 18"

lemma length_uninit [simp]: "length (uninit n S) = n"
  by (simp add: uninit_def)

lemma read_bytes_spec:
  assumes "vm_inv (c_mem S)" and "ok_range (c_mem S) a n" and "in_page a n"
  shows "\<exists>M. read_bytes a n S = Inr (map (\<lambda>i. vbyte (c_mem S) (a + of_nat i)) [0..<n], S\<lparr>c_mem := M\<rparr>) \<and>
    vm_inv M \<and> vbyte M = vbyte (c_mem S) \<and> mem_after (c_mem S) M"
  using ReadMem_deprecated_spec [of "c_mem S" a "uninit n S"] assms by (auto simp: read_bytes_def in_page_def)

lemma write_mem_spec:
  assumes "vm_inv (c_mem S)" and "ok_range (c_mem S) a (length bs)"
  shows "\<exists>M. write_mem a bs S = Inr (S\<lparr>c_mem := M\<rparr>) \<and> vm_inv M \<and> vbyte M = vstore a bs (vbyte (c_mem S)) \<and>
    mem_after (c_mem S) M"
  using WriteMem_spec [OF assms, where hart = 0] by (auto simp: write_mem_def)

interpretation pan_mem: byte_memory read_bytes write_mem "\<lambda>S. vbyte (c_mem S)" "\<lambda>S. vm_inv (c_mem S)"
  "\<lambda>S a n. ok_range (c_mem S) a n \<and> in_page a n"
proof unfold_locales
  fix s :: RevCPU and a :: u64 and n :: nat and bs :: "u8 list"
  assume inv: "vm_inv (c_mem s)"
  show "\<exists>s'. read_bytes a n s = Inr (map (\<lambda>i. vbyte (c_mem s) (a + of_nat i)) [0..<n], s') \<and> vm_inv (c_mem s') \<and>
      vbyte (c_mem s') = vbyte (c_mem s)" if "ok_range (c_mem s) a n \<and> in_page a n"
    using read_bytes_spec [OF inv, of a n] that by auto
  show "\<exists>s'. write_mem a bs s = Inr s' \<and> vm_inv (c_mem s') \<and> vbyte (c_mem s') = vstore a bs (vbyte (c_mem s))"
    if "ok_range (c_mem s) a (length bs) \<and> in_page a (length bs)"
    using write_mem_spec [OF inv, of a bs] that by auto
next
  fix s :: RevCPU and a :: u64 and n :: nat
  show "ok_range (c_mem s) a n \<and> in_page a n \<Longrightarrow> unat a + n \<le> 2 ^ 50" by (simp add: ok_range_def)
qed

text \<open>The bytes a put carries.\<close>

definition payload :: "panNicEvent \<Rightarrow> u8 list" where
  "payload e = take (unat (v_Size e)) (bytes_of (v_Data e))"

lemma take_bytes_of: "take (8 * k) (bytes_of ws) = bytes_of (take k ws)"
proof (induction ws arbitrary: k)
  case (Cons w ws)
  show ?case by (cases k) (simp_all add: Cons)
qed simp

lemma put_data_payload:
  assumes "getNumBlocks (v_Size e) \<le> length (v_Data e)"
  shows "put_data e = Inr (payload e)"
proof (cases "v_Size e = 0")
  case True
  then show ?thesis by (simp add: put_data_def getData_def payload_def)
next
  case False
  have "take (unat (v_Size e)) (bytes_of (take (getNumBlocks (v_Size e)) (v_Data e))) = payload e"
    unfolding payload_def take_bytes_of [symmetric] take_take using blocks_cover [of "v_Size e"]
    by (simp add: min_absorb1)
  then show ?thesis using False assms by (simp add: put_data_def getData_def)
qed

lemma length_payload:
  assumes "getNumBlocks (v_Size e) \<le> length (v_Data e)"
  shows "length (payload e) = unat (v_Size e)"
  using blocks_cover [of "v_Size e"] assms by (simp add: payload_def)

definition put_ops :: "u8 list" where
  "put_ops = [op_SyncPut, op_AsyncPut, op_SyncStreamPut, op_AsyncStreamPut]"

text \<open>
  A remote write: a put command with the right token writes exactly its data bytes to its address, in the memory that
  the cores see, and queues a \<open>Success\<close> reply with its tag; nothing else changes. This holds for the four put commands,
  for an address other than 0, also across a page boundary.
\<close>

lemma put_spec:
  assumes "\<not> isHost (PNic S)" and "CheckToken (v_Token event) (PNic S)" and "EnablePANStats S"
    and "v_Opcode event \<in> set put_ops" and "v_Addr event \<noteq> 0" and "getNumBlocks (v_Size event) \<le> length (v_Data event)"
    and "vm_inv (c_mem S)" and "ok_range (c_mem S) (v_Addr event) (unat (v_Size event))"
  shows "\<exists>M. handlePANMessage event S =
      Inr (S\<lparr>c_mem := M, SendMB := SendMB S @ [(reply_to op_Success event S, v_Src event)],
             c_stats := c_stats S @ [recv_stat (v_Opcode event)]\<rparr>) \<and>
    vm_inv M \<and> vbyte M = vstore (v_Addr event) (payload event) (vbyte (c_mem S)) \<and> mem_after (c_mem S) M"
proof -
  have "ok_range (c_mem S) (v_Addr event) (length (payload event))" using assms(8) length_payload [OF assms(6)] by simp
  from write_mem_spec [OF assms(7) this] obtain M where
    w: "write_mem (v_Addr event) (payload event) S = Inr (S\<lparr>c_mem := M\<rparr>)" and M: "vm_inv M"
      "vbyte M = vstore (v_Addr event) (payload event) (vbyte (c_mem S))" "mem_after (c_mem S) M" by blast
  have "handlePANMessage event S =
      Inr (S\<lparr>c_mem := M, SendMB := SendMB S @ [(reply_to op_Success event S, v_Src event)],
             c_stats := c_stats S @ [recv_stat (v_Opcode event)]\<rparr>)"
    using assms(4) unfolding put_ops_def list.set insert_iff empty_iff
    by (elim disjE FalseE)
      (use assms(1-3,5) put_data_payload [OF assms(6)] w in \<open>simp add: handlePANMessage_def net_dispatch then_stat_def
        addData_def put_handlers host_or_token_def push_mb_def reply_to_def recv_stat_def getOpcodeStr_def pan_opcodes\<close>)+
  with M show ?thesis by blast
qed

text \<open>Requests of the read queue that the simulator supports, and room for the pages that \<open>k\<close> reads may touch.\<close>

definition read_ok :: "RevMem \<Rightarrow> read_rqst \<Rightarrow> bool" where
  "read_ok M r \<longleftrightarrow> (case r of (t, n, c, src, a) \<Rightarrow> 0 < unat n \<and> unat n < 2 ^ 16 \<and> unat a + unat n \<le> 2 ^ 50 \<and>
     in_page a (unat n) \<and> (\<forall>i<unat n. isValidVirtAddr M (a + of_nat i)))"

definition read_room :: "nat \<Rightarrow> RevMem \<Rightarrow> bool" where
  "read_room k M \<longleftrightarrow> page_room (3 + 2 * k) M \<and> (unat (nextPage M) + 2 + 2 * k) * 2 ^ 18 \<le> unat (memSize M)"

lemma read_ok_range:
  "read_ok M (t, n, c, src, a) \<Longrightarrow> read_room k M \<Longrightarrow> ok_range M a (unat n)"
  by (simp add: read_ok_def read_room_def ok_range_def page_room_def)

lemma read_room_after: "read_room (Suc k) M \<Longrightarrow> mem_after M M' \<Longrightarrow> read_room k M'"
  by (auto simp: read_room_def mem_after_def page_room_def)

lemma read_ok_after: "mem_after M M' \<Longrightarrow> read_ok M' r = read_ok M r"
  by (simp add: read_ok_def mem_after_def)

lemma read_words_spec:
  assumes "vm_inv (c_mem S)" and "ok_range (c_mem S) a n" and "in_page a n" and "n \<le> 8 * k"
  shows "\<exists>ws M. read_words a n k S = Inr (ws, S\<lparr>c_mem := M\<rparr>) \<and> length ws = k \<and>
    take n (bytes_of ws) = map (\<lambda>i. vbyte (c_mem S) (a + of_nat i)) [0..<n] \<and>
    vm_inv M \<and> vbyte M = vbyte (c_mem S) \<and> mem_after (c_mem S) M"
proof -
  let ?bs = "map (\<lambda>i. vbyte (c_mem S) (a + of_nat i)) [0..<n]"
  from read_bytes_spec [OF assms(1-3)] obtain M where
    r: "read_bytes a n S = Inr (?bs, S\<lparr>c_mem := M\<rparr>)" and M: "vm_inv M" "vbyte M = vbyte (c_mem S)" "mem_after (c_mem S) M"
    by blast
  have "bytes_of (words_of k (?bs @ map (c_junk S) [n..<8 * k])) = ?bs @ map (c_junk S) [n..<8 * k]"
    by (rule bytes_words_of) (use assms(4) in simp)
  then show ?thesis using r M by (intro exI [of _ "words_of k (?bs @ map (c_junk S) [n..<8 * k])"] exI [of _ M])
    (simp add: read_words_def)
qed

text \<open>The answer to a request of the read queue, with its destination.\<close>

definition is_answer :: "RevCPU \<Rightarrow> read_rqst \<Rightarrow> panNicEvent \<times> u32 \<Rightarrow> bool" where
  "is_answer S r m \<longleftrightarrow> (case r of (t, n, c, src, a) \<Rightarrow> case m of (e, dst) \<Rightarrow>
     dst = src \<and> v_Opcode e = op_Success \<and> v_Tag e = t \<and> v_Token e = n_Token (PNic S) \<and> v_Src e = address S \<and>
     v_Size e = n \<and> payload e = map (\<lambda>i. vbyte (c_mem S) (a + of_nat i)) [0..<unat n])"

lemma and_mask16: "unat (n :: u32) < 2 ^ 16 \<Longrightarrow> n AND 0xFFFF = n"
proof -
  assume "unat n < 2 ^ 16"
  then have "take_bit 16 n = n" by (intro unat_eqI) (simp add: unsigned_take_bit_eq take_bit_nat_eq_self)
  moreover have "mask 16 = (0xFFFF :: u32)" by (simp add: mask_eq_exp_minus_1)
  ultimately show ?thesis by (simp add: take_bit_eq_mask)
qed

lemma answer_read_spec:
  assumes "vm_inv (c_mem S)" and "read_ok (c_mem S) r" and "read_room k (c_mem S)"
  shows "\<exists>m M. answer_read r S = Inr (S\<lparr>c_mem := M, SendMB := SendMB S @ [m]\<rparr>) \<and> is_answer S r m \<and>
    vm_inv M \<and> vbyte M = vbyte (c_mem S) \<and> mem_after (c_mem S) M"
proof -
  obtain t n c src a where r: "r = (t, n, c, src, a)" by (cases r)
  have n: "0 < unat n" "unat n < 2 ^ 16" "in_page a (unat n)" using assms(2) by (simp_all add: r read_ok_def)
  have "ok_range (c_mem S) a (unat n)" using read_ok_range assms(2,3) unfolding r by blast
  from read_words_spec [OF assms(1) this n(3) blocks_cover] obtain ws M where
    w: "read_words a (unat n) (getNumBlocks n) S = Inr (ws, S\<lparr>c_mem := M\<rparr>)" "length ws = getNumBlocks n"
      "take (unat n) (bytes_of ws) = map (\<lambda>i. vbyte (c_mem S) (a + of_nat i)) [0..<unat n]"
    and M: "vm_inv M" "vbyte M = vbyte (c_mem S)" "mem_after (c_mem S) M" by blast
  let ?e = "\<lparr>v_SrcName = c_name S, v_Src = address S, v_Tag = t, v_Opcode = op_Success, v_VarArgs = 0, v_Size = n,
    v_Token = n_Token (PNic S), v_Offset = 0, v_Addr = 0, v_Data = ws\<rparr>"
  have "n \<noteq> 0" using n(1) by auto
  then have "answer_read r S = Inr (S\<lparr>c_mem := M, SendMB := SendMB S @ [(?e, src)]\<rparr>)"
    using w(1,2) and_mask16 [OF n(2)]
    by (simp add: r answer_read_def build_reply setSize_base op_Success_def setData_def setSrc_def push_mb_def
        new_event_def new_panNicEvent_def)
  moreover have "is_answer S r (?e, src)" using w(3) by (simp add: r is_answer_def payload_def)
  ultimately show ?thesis using M by blast
qed

lemma answer_reads_spec:
  assumes "vm_inv (c_mem S)" and "\<forall>r\<in>set rs. rqst_cost r = 0 \<longrightarrow> read_ok (c_mem S) r"
    and "read_room (length (filter (\<lambda>r. rqst_cost r = 0) rs)) (c_mem S)"
  shows "\<exists>ms M. answer_reads rs S = Inr (S\<lparr>c_mem := M, SendMB := SendMB S @ ms\<rparr>) \<and>
    list_all2 (is_answer S) (filter (\<lambda>r. rqst_cost r = 0) rs) ms \<and> vm_inv M \<and> vbyte M = vbyte (c_mem S)"
  using assms
proof (induction rs arbitrary: S)
  case Nil
  then show ?case by (auto intro!: exI [of _ "[]"] exI [of _ "c_mem S"])
next
  case (Cons r rs)
  show ?case
  proof (cases "rqst_cost r = 0")
    case True
    from answer_read_spec [OF Cons.prems(1) _ Cons.prems(3), of r] True Cons.prems(2) obtain m M where
      a: "answer_read r S = Inr (S\<lparr>c_mem := M, SendMB := SendMB S @ [m]\<rparr>)" "is_answer S r m"
      and M: "vm_inv M" "vbyte M = vbyte (c_mem S)" "mem_after (c_mem S) M" by auto
    let ?S = "S\<lparr>c_mem := M, SendMB := SendMB S @ [m]\<rparr>"
    have "\<exists>ms M'. answer_reads rs ?S = Inr (?S\<lparr>c_mem := M', SendMB := SendMB ?S @ ms\<rparr>) \<and>
        list_all2 (is_answer ?S) (filter (\<lambda>r. rqst_cost r = 0) rs) ms \<and> vm_inv M' \<and> vbyte M' = vbyte (c_mem ?S)"
      by (rule Cons.IH) (use M Cons.prems True read_room_after in \<open>auto simp: read_ok_after [OF M(3)]\<close>)
    then obtain ms M' where ms: "answer_reads rs ?S = Inr (S\<lparr>c_mem := M', SendMB := SendMB S @ m # ms\<rparr>)"
        "list_all2 (is_answer ?S) (filter (\<lambda>r. rqst_cost r = 0) rs) ms" and M': "vm_inv M'" "vbyte M' = vbyte M" by auto
    have "is_answer ?S = is_answer S" using M(2) by (simp add: is_answer_def fun_eq_iff)
    then have "list_all2 (is_answer S) (filter (\<lambda>r. rqst_cost r = 0) (r # rs)) (m # ms)" using ms(2) a(2) True by simp
    then show ?thesis using a(1) ms(1) M' M(2) True by (intro exI [of _ "m # ms"] exI [of _ M']) simp
  next
    case False
    then show ?thesis using Cons by auto
  qed
qed

lemma pan_reads_spec:
  assumes "vm_inv (c_mem S)" and "\<forall>r\<in>set (ReadQueue S). rqst_cost r \<le> 1 \<longrightarrow> read_ok (c_mem S) r"
    and "read_room (length (filter (\<lambda>r. rqst_cost r \<le> 1) (ReadQueue S))) (c_mem S)"
  shows "\<exists>ms S'. processPANMemRead S = Inr S' \<and> SendMB S' = SendMB S @ ms \<and>
    list_all2 (is_answer S) (map dec_cost (filter (\<lambda>r. rqst_cost r \<le> 1) (ReadQueue S))) ms \<and>
    ReadQueue S' = map dec_cost (filter (\<lambda>r. rqst_cost r > 1) (ReadQueue S)) \<and>
    vm_inv (c_mem S') \<and> vbyte (c_mem S') = vbyte (c_mem S)"
proof -
  let ?Q = "map dec_cost (ReadQueue S)" and ?S = "S\<lparr>ReadQueue := map dec_cost (ReadQueue S)\<rparr>"
  have d: "rqst_cost (dec_cost r) = 0 \<longleftrightarrow> rqst_cost r \<le> 1" for r
  proof -
    have "c - 1 = 0 \<longleftrightarrow> c \<le> 1" if "c \<noteq> 0" for c :: u32 using that by (auto simp: word_le_nat_alt unat_eq_zero)
      (metis One_nat_def le_SucE le_zero_eq unat_0_iff unat_1 unsigned_word_eqI)
    then show ?thesis by (cases r) (auto simp: rqst_cost_def dec_cost_def)
  qed
  have f: "filter (\<lambda>r. rqst_cost r = 0) ?Q = map dec_cost (filter (\<lambda>r. rqst_cost r \<le> 1) (ReadQueue S))"
    "filter (\<lambda>r. rqst_cost r \<noteq> 0) ?Q = map dec_cost (filter (\<lambda>r. rqst_cost r > 1) (ReadQueue S))"
    by (simp_all add: filter_map comp_def d not_le)
  have ok: "read_ok M (dec_cost r) = read_ok M r" for M r by (cases r) (simp add: read_ok_def dec_cost_def)
  have "\<exists>ms M. answer_reads ?Q ?S = Inr (?S\<lparr>c_mem := M, SendMB := SendMB ?S @ ms\<rparr>) \<and>
      list_all2 (is_answer ?S) (filter (\<lambda>r. rqst_cost r = 0) ?Q) ms \<and> vm_inv M \<and> vbyte M = vbyte (c_mem ?S)"
    by (rule answer_reads_spec) (use assms f d ok in auto)
  moreover have "is_answer ?S = is_answer S" by (simp add: is_answer_def fun_eq_iff)
  ultimately obtain ms M where "answer_reads ?Q ?S = Inr (?S\<lparr>c_mem := M, SendMB := SendMB S @ ms\<rparr>)"
    and "list_all2 (is_answer S) (filter (\<lambda>r. rqst_cost r = 0) ?Q) ms" "vm_inv M" "vbyte M = vbyte (c_mem S)"
    by auto
  then show ?thesis using f by (intro exI [of _ ms]) (auto simp: processPANMemRead_def)
qed

text \<open>
  C23. Remote reads: in every cycle, the requests of the read queue whose cost runs out are answered, in their order, with
  \<open>Success\<close> replies that carry exactly the bytes of the memory at the requested address; the other requests stay in the
  queue, one cycle closer to their answer. Requests are of at most 65535 bytes inside a page.
\<close>

theorem pan_reads_answered:
  assumes "vm_inv (c_mem S)" and "\<forall>r\<in>set (ReadQueue S). rqst_cost r \<le> 1 \<longrightarrow> read_ok (c_mem S) r"
    and "read_room (length (filter (\<lambda>r. rqst_cost r \<le> 1) (ReadQueue S))) (c_mem S)"
  shows "\<exists>ms S'. processPANMemRead S = Inr S' \<and> SendMB S' = SendMB S @ ms \<and>
    list_all2 (is_answer S) (map dec_cost (filter (\<lambda>r. rqst_cost r \<le> 1) (ReadQueue S))) ms \<and>
    ReadQueue S' = map dec_cost (filter (\<lambda>r. rqst_cost r > 1) (ReadQueue S)) \<and>
    vm_inv (c_mem S') \<and> vbyte (c_mem S') = vbyte (c_mem S)"
  using pan_reads_spec [OF assms] .

end
