(* ===== verification/Rev_PanFlow.thy ===== *)
theory Rev_PanFlow
  imports Rev_PanCPUProps Rev_ISA_Mem
begin

text \<open>
  Flows of messages: a remote write followed by a remote read, the order in which messages leave a node, the commands
  of the RDMA mailbox, and the tags. The witnesses of the network properties are here too.
\<close>

section \<open>A remote write and a remote read\<close>

fun read_cycles :: "nat \<Rightarrow> RevCPU \<Rightarrow> RevCPU res" where
  "read_cycles 0 S = Inr S"
| "read_cycles (Suc k) S = bind_res (processPANMemRead S) (read_cycles k)"

lemma processPANMemRead_wait:
  assumes "ReadQueue S = [(t, n, c, src, a)]" and "unat c > 1"
  shows "processPANMemRead S = Inr (S\<lparr>ReadQueue := [(t, n, c - 1, src, a)]\<rparr>)"
proof -
  have "unat (c - 1) = unat c - 1" using assms(2) by (simp add: unat_sub word_le_nat_alt)
  then have "c \<noteq> 0" "c - 1 \<noteq> 0" using assms(2) by (auto simp: unat_eq_zero [symmetric])
  then show ?thesis using assms(1) by (simp add: processPANMemRead_def dec_cost_def rqst_cost_def)
qed

text \<open>A single request in the queue is answered after as many cycles as it costs, and at least one.\<close>

lemma read_cycles_answer:
  assumes "ReadQueue S = [(t, n, c, src, a)]" and "vm_inv (c_mem S)" and "read_ok (c_mem S) (t, n, c, src, a)"
    and "read_room 1 (c_mem S)" and "k = max 1 (unat c)"
  shows "\<exists>S' e. read_cycles k S = Inr S' \<and> SendMB S' = SendMB S @ [(e, src)] \<and> ReadQueue S' = [] \<and>
    is_answer S (t, n, 0, src, a) (e, src)"
  using assms
proof (induction k arbitrary: S c)
  case (Suc k)
  show ?case
  proof (cases "unat c \<le> 1")
    case True
    then have c: "c \<le> 1" by (simp add: word_le_nat_alt)
    then have d: "dec_cost (t, n, c, src, a) = (t, n, 0, src, a)"
      by (auto simp: dec_cost_def word_le_nat_alt le_Suc_eq unat_eq_zero) (metis One_nat_def unat_1 unat_eqI diff_self)
    have q: "filter (\<lambda>r. rqst_cost r \<le> 1) (ReadQueue S) = [(t, n, c, src, a)]"
      "filter (\<lambda>r. rqst_cost r > 1) (ReadQueue S) = []"
      using c Suc.prems(1) by (simp_all add: rqst_cost_def not_less)
    have "\<exists>ms S'. processPANMemRead S = Inr S' \<and> SendMB S' = SendMB S @ ms \<and>
        list_all2 (is_answer S) (map dec_cost [(t, n, c, src, a)]) ms \<and> ReadQueue S' = []"
      using pan_reads_spec [OF Suc.prems(2)] Suc.prems(1,3,4) q by fastforce
    then obtain ms S' where p: "processPANMemRead S = Inr S'" "SendMB S' = SendMB S @ ms" "ReadQueue S' = []"
      and "list_all2 (is_answer S) [(t, n, 0, src, a)] ms" by (auto simp: d)
    then obtain m where m: "ms = [m]" "is_answer S (t, n, 0, src, a) m" by (auto simp: list_all2_Cons1)
    have "m = (fst m, src)" using m(2) by (auto simp: is_answer_def)
    moreover have "k = 0" using Suc.prems(5) True by auto
    ultimately show ?thesis using p m by (intro exI [of _ S'] exI [of _ "fst m"]) auto
  next
    case False
    let ?S = "S\<lparr>ReadQueue := [(t, n, c - 1, src, a)]\<rparr>"
    have u: "unat (c - 1) = unat c - 1" using False by (simp add: unat_sub word_le_nat_alt)
    have "\<exists>S' e. read_cycles k ?S = Inr S' \<and> SendMB S' = SendMB ?S @ [(e, src)] \<and> ReadQueue S' = [] \<and>
        is_answer ?S (t, n, 0, src, a) (e, src)"
      by (rule Suc.IH [of _ "c - 1"]) (use Suc.prems False u in \<open>auto simp: read_ok_def\<close>)
    then show ?thesis using processPANMemRead_wait [OF Suc.prems(1)] False by (auto simp: is_answer_def)
  qed
qed simp

lemma read_cycles_wait:
  assumes "ReadQueue S = [(t, n, c, src, a)]" and "j < max 1 (unat c)"
  shows "\<exists>S'. read_cycles j S = Inr S' \<and> SendMB S' = SendMB S"
  using assms
proof (induction j arbitrary: S c)
  case (Suc j)
  then have c: "unat c > 1" and u: "unat (c - 1) = unat c - 1" by (simp_all add: unat_sub word_le_nat_alt)
  have "\<exists>S'. read_cycles j (S\<lparr>ReadQueue := [(t, n, c - 1, src, a)]\<rparr>) = Inr S' \<and>
      SendMB S' = SendMB (S\<lparr>ReadQueue := [(t, n, c - 1, src, a)]\<rparr>)"
    by (rule Suc.IH [of _ "c - 1"]) (use Suc.prems(2) c u in simp_all)
  then show ?case using processPANMemRead_wait [OF Suc.prems(1) c] by simp
qed simp

lemma get_queued:
  assumes "\<not> isHost (PNic S)" and "CheckToken (v_Token event) (PNic S)" and "EnablePANStats S"
    and "v_Opcode event \<in> set get_ops" and "Procs S = P # Ps" and "MaxCost (p_feature P) \<noteq> 0"
  shows "\<exists>c k. (\<exists>x. c = x mod MaxCost (p_feature P) + MinCost (p_feature P)) \<and> handlePANMessage event S =
    Inr (S\<lparr>c_mem := (c_mem S)\<lparr>rand_idx := k\<rparr>,
           ReadQueue := ReadQueue S @ [(v_Tag event, v_Size event, c, v_Src event, v_Addr event)],
           c_stats := c_stats S @ [recv_stat (v_Opcode event)]\<rparr>)"
proof -
  obtain c k where r: "RandCost (MinCost (p_feature P)) (MaxCost (p_feature P)) (c_mem S) =
      Inr (c, (c_mem S)\<lparr>rand_idx := k\<rparr>)"
    and x: "\<exists>x. c = x mod MaxCost (p_feature P) + MinCost (p_feature P)" using assms(6) by (auto simp: RandCost_def)
  have "handlePANMessage event S =
    Inr (S\<lparr>c_mem := (c_mem S)\<lparr>rand_idx := k\<rparr>,
           ReadQueue := ReadQueue S @ [(v_Tag event, v_Size event, c, v_Src event, v_Addr event)],
           c_stats := c_stats S @ [recv_stat (v_Opcode event)]\<rparr>)"
    using assms(4) unfolding get_ops_def list.set insert_iff empty_iff
    by (elim disjE FalseE)
      (use assms(1-3,5) r in \<open>simp add: handlePANMessage_def net_dispatch then_stat_def addData_def get_handlers
        host_or_token_def queue_read_def recv_stat_def getOpcodeStr_def pan_opcodes\<close>)+
  then show ?thesis using x by blast
qed

lemma read_rand [simp]:
  "read_ok (M\<lparr>rand_idx := k\<rparr>) = read_ok M" "read_room n (M\<lparr>rand_idx := k\<rparr>) = read_room n M"
  by (simp_all add: fun_eq_iff read_ok_def read_room_def page_room_def isValidVirtAddr_def)

lemma read_back_payload:
  assumes "length bs \<le> 2 ^ 50"
  shows "map (\<lambda>i. vstore a bs f (a + of_nat i)) [0..<length bs] = bs"
  by (rule nth_equalityI) (use assms in \<open>auto simp: vstore_def unat_of_nat_u64\<close>)


text \<open>The state of the witnesses: a node with one core, reserved with token 7.\<close>

definition demo_cpu :: RevCPU where
  "demo_cpu = (new_RevCPU ''pan0'' True False True 1 1 1 demo_mem [demo_proc demo_mem] 0 (\<lambda>_. 0))
     \<lparr>PNic := (new_PanNet False)\<lparr>isReserved := True, n_Token := 7\<rparr>\<rparr>"

definition demo_event :: "u8 \<Rightarrow> u32 \<Rightarrow> u8 \<Rightarrow> u64 \<Rightarrow> u32 \<Rightarrow> u64 list \<Rightarrow> panNicEvent" where
  "demo_event opc tok tag a n D =
     \<lparr>v_SrcName = ''pan1'', v_Src = 1, v_Tag = tag, v_Opcode = opc, v_VarArgs = 0, v_Size = n, v_Token = tok,
      v_Offset = 0, v_Addr = a, v_Data = D\<rparr>"

lemma demo_cpu_fields [simp]:
  "isHost (PNic demo_cpu) = False" "isReserved (PNic demo_cpu) = True" "n_Token (PNic demo_cpu) = 7"
  "sendQ (PNic demo_cpu) = []" "EnablePANStats demo_cpu = True" "ReadQueue demo_cpu = []" "SendMB demo_cpu = []"
  "TrackTags demo_cpu = []" "ReadyForRevoke demo_cpu = False" "c_mem demo_cpu = demo_mem" "address demo_cpu = -1"
  "c_name demo_cpu = ''pan0''" "c_stats demo_cpu = []" "EnableRDMAMBox demo_cpu = True" "RDMAPerCycle demo_cpu = 1"
  "msgPerCycle demo_cpu = 1" "ZeroRqst demo_cpu = []"
  "Procs demo_cpu = [(demo_proc demo_mem)\<lparr>PExec := Some new_PanExec\<rparr>]"
  by (simp_all add: demo_cpu_def new_RevCPU_def new_PanNet_def Let_def)

lemma demo_event_fields [simp]:
  "v_SrcName (demo_event opc tok tag a n D) = ''pan1''" "v_Src (demo_event opc tok tag a n D) = 1"
  "v_Tag (demo_event opc tok tag a n D) = tag" "v_Opcode (demo_event opc tok tag a n D) = opc"
  "v_Size (demo_event opc tok tag a n D) = n" "v_Token (demo_event opc tok tag a n D) = tok"
  "v_Addr (demo_event opc tok tag a n D) = a" "v_Data (demo_event opc tok tag a n D) = D"
  by (simp_all add: demo_event_def)

lemma demo_token [simp]: "CheckToken t (PNic demo_cpu) \<longleftrightarrow> t = 7"
  by (simp add: CheckToken_def)

lemma demo_valid: "n \<le> 64 \<Longrightarrow> i < n \<Longrightarrow> isValidVirtAddr demo_mem (0x380000 + of_nat i)"
proof -
  assume "n \<le> 64" "i < n"
  moreover have "isValidVirtAddr demo_mem (0x380000 + of_nat i)" if "i < 64"
  proof -
    have "unat (0x380000 + of_nat i :: u64) = 0x380000 + i" using unat_add_of_nat [of "0x380000" i] that by simp
    then show ?thesis using that by (simp add: isValidVirtAddr_new STACK_SIZE_def word_le_nat_alt word_less_nat_alt)
  qed
  ultimately show ?thesis by simp
qed

lemma demo_read [simp]: "read_ok demo_mem (t, 8, c, src, 0x380000)" "read_room 2 demo_mem" "vm_inv demo_mem"
  using demo_valid [of 8]
  by (auto simp: read_ok_def in_page_def read_room_def page_room_def) (auto simp: new_RevMem_def intro: vm_inv_new)



theorem pan_one_reply_witness:
  "\<exists>S' e. handlePANMessage (demo_event op_Halt 7 3 0 0 []) demo_cpu = Inr S' \<and> SendMB S' = [(e, 1)] \<and> v_Tag e = 3"
proof -
  let ?ev = "demo_event op_Halt 7 3 0 0 []"
  have "c_numCores demo_cpu = 1" by (simp add: demo_cpu_def new_RevCPU_def Let_def)
  then obtain S' where h: "handlePANMessage ?ev demo_cpu = Inr S'"
    by (auto simp: handlePANMessage_def net_dispatch then_stat_def addData_def PANHandleHalt_def token_ok_def bad_core_def
        core_at_def push_mb_def set_core_def)
  show ?thesis using pan_one_reply [OF _ _ h] h by (fastforce simp: reply_ops_def)
qed

theorem pan_reservation_exclusive_witness:
  "\<exists>S'. pan_run [Recv (demo_event op_Reserve 8 1 0 0 []), Recv (demo_event op_Revoke 8 2 0 0 [])] demo_cpu = Inr S' \<and>
     CheckToken 7 (PNic S') \<and> \<not> CheckToken 8 (PNic S')"
proof -
  let ?is = "[Recv (demo_event op_Reserve 8 1 0 0 []), Recv (demo_event op_Revoke 8 2 0 0 [])]"
  obtain S' where r: "pan_run ?is demo_cpu = Inr S'"
    by (auto simp: handlePANMessage_def net_dispatch then_stat_def addData_def PANHandleReserve_def PANHandleRevoke_def
        token_ok_def push_mb_def)
  show ?thesis using pan_reservation_exclusive [OF _ _ _ r] r by auto
qed

theorem pan_reads_answered_witness:
  "\<exists>S' m. processPANMemRead (demo_cpu\<lparr>ReadQueue := [(5, 8, 1, 2, 0x380000), (6, 8, 3, 2, 0x380000)]\<rparr>) = Inr S' \<and>
     SendMB S' = [m] \<and> snd m = 2 \<and> v_Tag (fst m) = 5 \<and> ReadQueue S' = [(6, 8, 2, 2, 0x380000)]"
proof -
  let ?S = "demo_cpu\<lparr>ReadQueue := [(5, 8, 1, 2, 0x380000), (6, 8, 3, 2, 0x380000)]\<rparr>"
  have q: "filter (\<lambda>r. rqst_cost r \<le> 1) (ReadQueue ?S) = [(5, 8, 1, 2, 0x380000)]"
    "filter (\<lambda>r. rqst_cost r > 1) (ReadQueue ?S) = [(6, 8, 3, 2, 0x380000)]"
    by (simp_all add: rqst_cost_def word_le_nat_alt word_less_nat_alt)
  have "read_room (length (filter (\<lambda>r. rqst_cost r \<le> 1) (ReadQueue ?S))) (c_mem ?S)"
    using demo_read(2) by (simp add: q read_room_def page_room_def)
  from pan_reads_answered [OF _ _ this, unfolded q] show ?thesis
    by (auto simp: dec_cost_def is_answer_def list_all2_Cons1)
qed


section \<open>The order of messages\<close>

definition is_cmd :: "panNicEvent \<Rightarrow> bool" where
  "is_cmd ev \<longleftrightarrow> v_Opcode ev \<noteq> op_Success \<and> v_Opcode ev \<noteq> op_Failed"

lemma registerSendCmd_spec:
  assumes "EnablePANStats S" and "getOpcodeStr ev \<noteq> ''UNKNOWN''"
  shows "\<exists>x. registerSendCmd ev S = Inr (S\<lparr>c_stats := c_stats S @ [x]\<rparr>)"
  using assms by (auto simp: registerSendCmd_def addData_def)

lemma sendPANMessage_spec:
  assumes "SendMB S = (ev, dst) # ms" and "\<not> ReadyForRevoke S" and "getOpcodeStr ev \<noteq> ''UNKNOWN''"
  shows "\<exists>st. sendPANMessage S = Inr (S\<lparr>PNic := send_net ev dst (PNic S), SendMB := ms, c_stats := st,
    TrackTags := TrackTags S @ (if is_cmd ev then [(v_Tag ev, dst)] else [])\<rparr>)"
proof -
  let ?S1 = "S\<lparr>PNic := send_net ev dst (PNic S)\<rparr>"
  let ?S2 = "if is_cmd ev then ?S1\<lparr>TrackTags := TrackTags ?S1 @ [(v_Tag ev, dst)]\<rparr> else ?S1"
  have "\<exists>st. (if EnablePANStats ?S2 then registerSendCmd ev ?S2 else Inr ?S2) = Inr (?S2\<lparr>c_stats := st\<rparr>)"
  proof (cases "EnablePANStats ?S2")
    case True
    then show ?thesis using registerSendCmd_spec [OF True assms(3)] by auto
  next
    case False
    then show ?thesis by (auto intro!: exI [of _ "c_stats S"])
  qed
  then obtain st where "(if EnablePANStats ?S2 then registerSendCmd ev ?S2 else Inr ?S2) = Inr (?S2\<lparr>c_stats := st\<rparr>)" by blast
  then have "sendPANMessage S = Inr (?S2\<lparr>c_stats := st, SendMB := ms\<rparr>)"
    using assms(1,2) unfolding is_cmd_def by (simp add: sendPANMessage_def Let_def)
  then show ?thesis by (auto simp: is_cmd_def intro!: exI [of _ st])
qed

text \<open>
  C25. Messages leave a node in the order in which they were put into the mailbox: a cycle hands the first
  messages of the mailbox, as many as it may send, to the endpoint's queue, in their order, and records the tags of the
  commands among them, so that their replies are recognised.
\<close>

theorem pan_send_order:
  assumes "\<not> ReadyForRevoke S" and "\<forall>(ev, dst)\<in>set (SendMB S). getOpcodeStr ev \<noteq> ''UNKNOWN''"
  shows "\<exists>S'. send_messages n S = Inr S' \<and> SendMB S' = drop n (SendMB S) \<and>
    sendQ (PNic S') = sendQ (PNic S) @ take n (SendMB S) \<and>
    TrackTags S' = TrackTags S @ map (\<lambda>(ev, dst). (v_Tag ev, dst)) (filter (\<lambda>(ev, dst). is_cmd ev) (take n (SendMB S))) \<and>
    c_mem S' = c_mem S \<and> nic_same S S'"
  using assms
proof (induction n arbitrary: S)
  case (Suc n)
  show ?case
  proof (cases "SendMB S")
    case Nil
    then have "send_messages k S = Inr S" for k by (induction k) (simp_all add: sendPANMessage_def)
    then show ?thesis using Nil by simp
  next
    case (Cons m ms)
    obtain ev dst where m: "m = (ev, dst)" by (cases m)
    have k: "getOpcodeStr ev \<noteq> ''UNKNOWN''" using Suc.prems(2) Cons m by auto
    obtain st where s: "sendPANMessage S = Inr (S\<lparr>PNic := send_net ev dst (PNic S), SendMB := ms, c_stats := st,
        TrackTags := TrackTags S @ (if is_cmd ev then [(v_Tag ev, dst)] else [])\<rparr>)" (is "_ = Inr ?S")
      using sendPANMessage_spec [OF Cons [unfolded m] Suc.prems(1) k] by blast
    have "\<exists>S'. send_messages n ?S = Inr S' \<and> SendMB S' = drop n (SendMB ?S) \<and>
        sendQ (PNic S') = sendQ (PNic ?S) @ take n (SendMB ?S) \<and>
        TrackTags S' = TrackTags ?S @ map (\<lambda>(ev, dst). (v_Tag ev, dst)) (filter (\<lambda>(ev, dst). is_cmd ev) (take n (SendMB ?S))) \<and>
        c_mem S' = c_mem ?S \<and> nic_same ?S S'"
      by (rule Suc.IH) (use Suc.prems Cons in auto)
    then show ?thesis using s Cons m by (auto simp: send_net_def nic_same_def)
  qed
qed simp

theorem pan_send_order_witness:
  "\<exists>S'. send_messages 2 (demo_cpu\<lparr>SendMB := [(demo_event op_Halt 7 1 0 0 [], 4), (demo_event op_Success 7 2 0 0 [], 5)]\<rparr>) =
      Inr S' \<and> sendQ (PNic S') = [(demo_event op_Halt 7 1 0 0 [], 4), (demo_event op_Success 7 2 0 0 [], 5)] \<and>
      TrackTags S' = [(1, 4)]"
proof -
  let ?S = "demo_cpu\<lparr>SendMB := [(demo_event op_Halt 7 1 0 0 [], 4), (demo_event op_Success 7 2 0 0 [], 5)]\<rparr>"
  have "\<forall>(ev, dst)\<in>set (SendMB ?S). getOpcodeStr ev \<noteq> ''UNKNOWN''" by (simp add: getOpcodeStr_def pan_opcodes)
  from pan_send_order [OF _ this, of 2] show ?thesis by (auto simp: is_cmd_def op_Halt_def op_Success_def op_Failed_def)
qed

text \<open>
  The endpoint's clock passes its queue to the network in order: what the network has taken, followed by what is still
  queued, does not change. \<open>log\<close> is what a network has taken.
\<close>

lemma net_order:
  assumes "\<And>r n n'. net_send r n = (True, n') \<Longrightarrow> log n' = log n @ [r]"
    and "\<And>r n n'. net_send r n = (False, n') \<Longrightarrow> log n' = log n"
    and "clockTick_net space net_send n N = (b, n', N')"
  shows "log n' @ sendQ N' = log n @ sendQ N"
proof -
  have "log (snd (drain space net_send q n)) @ fst (drain space net_send q n) = log n @ q" for q n
    by (induction q arbitrary: n) (auto split: prod.splits dest: assms(1,2))
  then show ?thesis using assms(3) by (auto simp: clockTick_net_def split: prod.splits) (metis fst_conv snd_conv)
qed

end
