(* ===== verification/Rev_PanMbox.thy ===== *)
theory Rev_PanMbox
  imports Rev_PanFlow
begin

text \<open>
  The RDMA mailbox: how many commands a cycle takes from it, what a command of a program becomes, and the tags of the
  node's own commands.
\<close>

section \<open>Bounds\<close>

text \<open>Converting a command does not touch the send mailbox.\<close>

definition mb_same :: "RevCPU \<Rightarrow> RevCPU \<Rightarrow> bool" where
  "mb_same S S' \<longleftrightarrow> SendMB S' = SendMB S \<and> RDMAPerCycle S' = RDMAPerCycle S \<and> address S' = address S"

lemma mb_same_refl [simp]: "mb_same S S"
  by (simp add: mb_same_def)

lemma mb_same_trans: "mb_same S S1 \<Longrightarrow> mb_same S1 S2 \<Longrightarrow> mb_same S S2"
  by (simp add: mb_same_def)

lemma mb_same_upd [simp]:
  "mb_same S (S'\<lparr>c_mem := M\<rparr>) = mb_same S S'" "mb_same S (S'\<lparr>TrackGets := tg\<rparr>) = mb_same S S'"
  by (simp_all add: mb_same_def)

lemma access_frame:
  "write_mem a bs S = Inr S' \<Longrightarrow> mb_same S S'"
  "read_words a n k S = Inr (ws, S') \<Longrightarrow> mb_same S S'"
  "ReadU64 a S = Inr (w, S') \<Longrightarrow> mb_same S S'"
  by (auto simp: write_mem_def read_words_def ReadU64_def read_bytes_def)

lemma rdma_frame:
  "rdma_get b Addr q event S = Inr (e, S') \<Longrightarrow> mb_same S S'"
  "rdma_put b' Addr q event S = Inr (e, S') \<Longrightarrow> mb_same S S'"
  "rdma_addr b'' Addr event S = Inr (e, S') \<Longrightarrow> mb_same S S'"
  "rdma_plain r S = Inr (e, S') \<Longrightarrow> mb_same S S'"
  by (auto simp: rdma_get_def rdma_put_def rdma_addr_def rdma_plain_def intro: mb_same_trans dest!: access_frame)

lemma encode_frame: "encode_rdma Addr q event S = Inr (e, S') \<Longrightarrow> mb_same S S'"
  by (auto simp: encode_rdma_def encode_ctrl_def Let_def intro: mb_same_trans dest!: access_frame rdma_frame
      split: if_splits)

lemma convert_frame:
  "PANConvertRDMAtoEvent Addr event S = Inr (e, S') \<Longrightarrow> mb_same S S' \<and> v_Src e = address S"
  by (auto simp: PANConvertRDMAtoEvent_def setSrc_def dest!: access_frame encode_frame intro: mb_same_trans)
    (auto simp: mb_same_def)

lemma mbox_entry_frame:
  assumes "mbox_entry Addr S = Inr (b, S')"
  shows "\<exists>ms. SendMB S' = SendMB S @ ms \<and> length ms = (if b then 1 else 0) \<and> RDMAPerCycle S' = RDMAPerCycle S \<and>
    address S' = address S \<and> (\<forall>(e, dst)\<in>set ms. v_Src e = address S)"
  using assms
  by (auto simp: mbox_entry_def push_mb_def mb_same_def split: if_splits dest!: access_frame convert_frame)

text \<open>
  The RDMA mailbox is throttled: a cycle adds at most \<open>RDMAPerCycle\<close> commands to the send mailbox, after the
  messages that are there, never makes it longer than 255 messages, and every command it adds has this node as its source.
\<close>

theorem pan_mailbox_bound:
  assumes "PANProcessRDMAMailbox S = Inr S'" and "length (SendMB S) \<le> 255" and "RDMAPerCycle S \<noteq> 0"
  shows "\<exists>ms. SendMB S' = SendMB S @ ms \<and> length ms \<le> unat (RDMAPerCycle S) \<and> length (SendMB S') \<le> 255 \<and>
    (\<forall>(e, dst)\<in>set ms. v_Src e = address S)"
proof -
  have loop: "\<exists>ms. SendMB S2 = SendMB S1 @ ms \<and> length ms \<le> unat (RDMAPerCycle S1) - unat sent \<and>
      length (SendMB S2) \<le> 255 \<and> (\<forall>(e, dst)\<in>set ms. v_Src e = address S1)"
    if "mbox_loop k sent Addr S1 = Inr S2" "length (SendMB S1) < 255" "sent < RDMAPerCycle S1" for k sent Addr S1 S2
    using that
  proof (induction k arbitrary: sent Addr S1)
    case (Suc k)
    obtain b S3 where e: "mbox_entry Addr S1 = Inr (b, S3)"
      and n: "(if k = 0 \<or> (if b then sent + 1 else sent) = RDMAPerCycle S3 \<or> length (SendMB S3) = 255
        then Inr (S3\<lparr>PrevAddr := next_entry Addr\<rparr>)
        else mbox_loop k (if b then sent + 1 else sent) (next_entry Addr) S3) = Inr S2"
      using Suc.prems(1) by (auto simp: Let_def)
    obtain ms where ms: "SendMB S3 = SendMB S1 @ ms" "length ms = (if b then 1 else 0)" "RDMAPerCycle S3 = RDMAPerCycle S1"
      "address S3 = address S1" "\<forall>(e, dst)\<in>set ms. v_Src e = address S1" using mbox_entry_frame [OF e] by blast
    have lt: "unat sent < unat (RDMAPerCycle S1)" using Suc.prems(3) by (simp add: word_less_nat_alt)
    have "unat (RDMAPerCycle S1) < 2 ^ 32" using unsigned_less [of "RDMAPerCycle S1"] by simp
    then have u: "unat (sent + 1) = unat sent + 1" using lt by (simp add: unat_word_ariths)
    show ?case
    proof (cases "k = 0 \<or> (if b then sent + 1 else sent) = RDMAPerCycle S3 \<or> length (SendMB S3) = 255")
      case True
      then have "S2 = S3\<lparr>PrevAddr := next_entry Addr\<rparr>" using n by simp
      then show ?thesis using ms lt Suc.prems(2) by (intro exI [of _ ms]) auto
    next
      case False
      have "\<exists>ms. SendMB S2 = SendMB S3 @ ms \<and> length ms \<le> unat (RDMAPerCycle S3) - unat (if b then sent + 1 else sent) \<and>
          length (SendMB S2) \<le> 255 \<and> (\<forall>(e, dst)\<in>set ms. v_Src e = address S3)"
        by (rule Suc.IH) (use n False ms Suc.prems(2) u lt in \<open>auto simp: word_less_nat_alt unat_eqI
            split: if_splits intro!: le_neq_trans dest: unat_eqI\<close>)
      then obtain ms' where "SendMB S2 = SendMB S3 @ ms'" "length (SendMB S2) \<le> 255"
        "length ms' \<le> unat (RDMAPerCycle S3) - unat (if b then sent + 1 else sent)"
        "\<forall>(e, dst)\<in>set ms'. v_Src e = address S3" by blast
      then show ?thesis using ms u lt by (intro exI [of _ "ms @ ms'"]) (auto split: if_splits)
    qed
  qed auto
  show ?thesis
  proof (cases "length (SendMB S) = 255")
    case True
    then show ?thesis using assms(1) by (auto simp: PANProcessRDMAMailbox_def)
  next
    case False
    then have "mbox_loop PAN_RDMA_MAX_ENTRIES 0 (PrevAddr S) S = Inr S'" "length (SendMB S) < 255"
      using assms(1,2) by (auto simp: PANProcessRDMAMailbox_def)
    then show ?thesis using loop [of PAN_RDMA_MAX_ENTRIES 0 "PrevAddr S" S S'] assms(3) by (auto simp: word_neq_0_conv)
  qed
qed


section \<open>Commands in memory\<close>

text \<open>
  The first word of a command: the token, the tag from bit 32, the opcode from bit 40, and the size from bit 48, or from
  bit 44 in a streaming command, whose opcode has four bits.
\<close>

definition rdma_word :: "u32 \<Rightarrow> u8 \<Rightarrow> u8 \<Rightarrow> u32 \<Rightarrow> u64" where
  "rdma_word tok tag opc n =
     ucast tok OR push_bit 32 (ucast tag) OR push_bit 40 (ucast opc) OR push_bit (if opc AND 3 = 1 then 44 else 48) (ucast n)"

lemma mask_consts:
  "(0xFFFFFFFF :: u64) = mask 32" "(0xFF :: u64) = mask 8" "(0xFFFF :: u64) = mask 16" "(0xFFFFF :: u64) = mask 20"
  "(0xF :: u64) = mask 4" "(0b11 :: u64) = mask 2" "(3 :: u8) = mask 2"
  by (simp_all add: mask_eq_exp_minus_1)

lemma bit_lt: "unat (x :: 'a::len word) < 2 ^ k \<Longrightarrow> bit x i \<Longrightarrow> i < k"
proof -
  assume "unat x < 2 ^ k" "bit x i"
  then have "take_bit k x = x" by (intro unat_eqI) (simp add: unsigned_take_bit_eq take_bit_nat_eq_self)
  then have "bit (take_bit k x) i" using \<open>bit x i\<close> by simp
  then show "i < k" by (simp add: bit_take_bit_iff)
qed

lemma decode_base:
  assumes "opc AND 3 = 0" and "unat n < 2 ^ 16"
  shows "decode_rdma (rdma_word tok tag opc n) =
    Inr \<lparr>q_Token = tok, q_Tag = tag, q_Opcode = opc, q_VarArgs = 0, q_Size = n, q_Offset = 0\<rparr>"
proof -
  let ?w = "rdma_word tok tag opc n"
  have w: "?w = ucast tok OR push_bit 32 (ucast tag) OR push_bit 40 (ucast opc) OR push_bit 48 (ucast n)"
    using assms(1) by (simp add: rdma_word_def)
  have t: "(ucast (drop_bit 40 ?w AND 0b11) :: u8) = opc AND 3"
    unfolding w mask_consts by (rule bit_word_eqI) (auto simp: bit_simps dest: bit_imp_le_length)
  have "(ucast (?w AND 0xFFFFFFFF) :: u32) = tok"
    unfolding w mask_consts by (rule bit_word_eqI) (auto simp: bit_simps dest: bit_imp_le_length)
  moreover have "(ucast (drop_bit 32 ?w AND 0xFF) :: u8) = tag"
    unfolding w mask_consts by (rule bit_word_eqI) (auto simp: bit_simps dest: bit_imp_le_length)
  moreover have "(ucast (drop_bit 40 ?w AND 0xFF) :: u8) = opc"
    unfolding w mask_consts by (rule bit_word_eqI) (auto simp: bit_simps dest: bit_imp_le_length)
  moreover have "(ucast (drop_bit 48 ?w AND 0xFFFF) :: u32) = n"
    unfolding w mask_consts
    by (rule bit_word_eqI) (auto simp: bit_simps dest: bit_imp_le_length bit_lt [OF assms(2)])
  ultimately show ?thesis using t assms(1) by (simp add: decode_rdma_def)
qed

lemma decode_stream:
  assumes "opc AND 3 = 1" and "unat opc < 16" and "unat n < 2 ^ 20"
  shows "decode_rdma (rdma_word tok tag opc n) =
    Inr \<lparr>q_Token = tok, q_Tag = tag, q_Opcode = opc, q_VarArgs = 0, q_Size = n, q_Offset = 0\<rparr>"
proof -
  let ?w = "rdma_word tok tag opc n"
  have w: "?w = ucast tok OR push_bit 32 (ucast tag) OR push_bit 40 (ucast opc) OR push_bit 44 (ucast n)"
    using assms(1) by (simp add: rdma_word_def)
  have o': "i < 4" if "bit opc i" for i using bit_lt [of opc 4 i] assms(2) that by simp
  have t: "(ucast (drop_bit 40 ?w AND 0b11) :: u8) = opc AND 3"
    unfolding w mask_consts by (rule bit_word_eqI) (auto simp: bit_simps dest: bit_imp_le_length)
  have "(ucast (?w AND 0xFFFFFFFF) :: u32) = tok"
    unfolding w mask_consts by (rule bit_word_eqI) (auto simp: bit_simps dest: bit_imp_le_length)
  moreover have "(ucast (drop_bit 32 ?w AND 0xFF) :: u8) = tag"
    unfolding w mask_consts by (rule bit_word_eqI) (auto simp: bit_simps dest: bit_imp_le_length)
  moreover have "(ucast (drop_bit 40 ?w AND 0xF) :: u8) = opc"
    unfolding w mask_consts by (rule bit_word_eqI) (auto simp: bit_simps dest: bit_imp_le_length o')
  moreover have "(ucast (drop_bit 44 ?w AND 0xFFFFF) :: u32) = n"
    unfolding w mask_consts
    by (rule bit_word_eqI) (auto simp: bit_simps dest: bit_imp_le_length o' bit_lt [OF assms(3)])
  ultimately show ?thesis using t assms(1) by (simp add: decode_rdma_def)
qed

text \<open>A range of the memory that is read inside a page, and the words of the memory.\<close>

definition range_ok :: "RevMem \<Rightarrow> u64 \<Rightarrow> nat \<Rightarrow> bool" where
  "range_ok M a n \<longleftrightarrow> 0 < n \<and> n \<le> 2 ^ 18 \<and> unat a + n \<le> 2 ^ 50 \<and> in_page a n \<and> (\<forall>i<n. isValidVirtAddr M (a + of_nat i))"

definition bytes_at :: "RevMem \<Rightarrow> u64 \<Rightarrow> nat \<Rightarrow> u8 list" where
  "bytes_at M a n = map (\<lambda>i. vbyte M (a + of_nat i)) [0..<n]"

definition word_at :: "RevMem \<Rightarrow> u64 \<Rightarrow> u64" where
  "word_at M a = le_word (bytes_at M a 8)"

lemma range_ok_range: "range_ok M a n \<Longrightarrow> read_room k M \<Longrightarrow> ok_range M a n \<and> in_page a n"
  by (simp add: range_ok_def read_room_def ok_range_def page_room_def)

lemma range_ok_after: "mem_after M M' \<Longrightarrow> range_ok M' = range_ok M"
  by (simp add: fun_eq_iff range_ok_def mem_after_def)

lemma bytes_at_cong: "vbyte M' = vbyte M \<Longrightarrow> bytes_at M' = bytes_at M"
  by (simp add: fun_eq_iff bytes_at_def)

text \<open>A part of a range.\<close>

lemma range_ok_part:
  assumes "range_ok M a n" and "k + m \<le> n" and "0 < m"
  shows "range_ok M (a + of_nat k) m"
proof -
  have "unat a + k < 2 ^ 64" using assms by (simp add: range_ok_def)
  then have u: "unat (a + of_nat k) = unat a + k" by (rule unat_add_of_nat)
  have a: "unat a mod 2 ^ 18 + n \<le> 2 ^ 18" using assms(1) by (simp add: range_ok_def in_page_def)
  have "(unat a + k) mod 2 ^ 18 = unat a mod 2 ^ 18 + k"
  proof -
    have "unat a mod 2 ^ 18 + k < 2 ^ 18" using a assms(2,3) by linarith
    then show ?thesis by (metis mod_add_left_eq mod_less)
  qed
  then have "in_page (a + of_nat k) m" using a assms(2) u by (simp add: in_page_def)
  moreover have "isValidVirtAddr M (a + of_nat k + of_nat i)" if "i < m" for i
  proof -
    have "\<forall>j<n. isValidVirtAddr M (a + of_nat j)" "k + i < n" using assms(1,2) that by (simp_all add: range_ok_def)
    then have "isValidVirtAddr M (a + of_nat (k + i))" by blast
    then show ?thesis by (simp add: add.assoc)
  qed
  ultimately show ?thesis using assms u by (simp add: range_ok_def)
qed

lemma ReadU64_spec:
  assumes "vm_inv (c_mem S)" and "range_ok (c_mem S) a 8" and "read_room (Suc k) (c_mem S)"
  shows "\<exists>M. ReadU64 a S = Inr (word_at (c_mem S) a, S\<lparr>c_mem := M\<rparr>) \<and> vm_inv M \<and> bytes_at M = bytes_at (c_mem S) \<and>
    range_ok M = range_ok (c_mem S) \<and> read_room k M"
proof -
  have "ok_range (c_mem S) a 8" "in_page a 8" using range_ok_range [OF assms(2,3)] by simp_all
  from read_bytes_spec [OF assms(1) this] obtain M where
    "read_bytes a 8 S = Inr (bytes_at (c_mem S) a 8, S\<lparr>c_mem := M\<rparr>)" "vm_inv M" "vbyte M = vbyte (c_mem S)"
    "mem_after (c_mem S) M" by (auto simp: bytes_at_def)
  note M = this
  then show ?thesis using bytes_at_cong [OF M(3)] range_ok_after [OF M(4)] read_room_after [OF assms(3) M(4)]
    by (intro exI [of _ M]) (simp add: ReadU64_def word_at_def)
qed

lemma read_words_at:
  assumes "vm_inv (c_mem S)" and "range_ok (c_mem S) a n" and "read_room (Suc j) (c_mem S)" and "n \<le> 8 * k"
  shows "\<exists>ws M. read_words a n k S = Inr (ws, S\<lparr>c_mem := M\<rparr>) \<and> length ws = k \<and>
    take n (bytes_of ws) = bytes_at (c_mem S) a n \<and> vm_inv M \<and> bytes_at M = bytes_at (c_mem S) \<and>
    range_ok M = range_ok (c_mem S) \<and> read_room j M"
proof -
  have "ok_range (c_mem S) a n" "in_page a n" using range_ok_range [OF assms(2,3)] by simp_all
  from read_words_spec [OF assms(1) this assms(4)] obtain ws M where
    w: "read_words a n k S = Inr (ws, S\<lparr>c_mem := M\<rparr>)" "length ws = k" "take n (bytes_of ws) = bytes_at (c_mem S) a n"
    and M: "vm_inv M" "vbyte M = vbyte (c_mem S)" "mem_after (c_mem S) M" unfolding bytes_at_def by blast
  show ?thesis using w M(1) bytes_at_cong [OF M(2)] range_ok_after [OF M(3)] read_room_after [OF assms(3) M(3)] by blast
qed

lemma build_put_ok:
  assumes "setSize_ev n (setTag tag (setToken tok (e\<lparr>v_Opcode := opc\<rparr>))) =
      (True, (setTag tag (setToken tok (e\<lparr>v_Opcode := opc\<rparr>)))\<lparr>v_Size := n\<rparr>)"
    and "n \<noteq> 0" and "length D = getNumBlocks n"
  shows "build_put opc tok tag A n n (Some D) e =
    Inr (True, e\<lparr>v_Opcode := opc, v_Token := tok, v_Tag := tag, v_Size := n, v_Addr := A, v_Data := v_Data e @ D\<rparr>)"
  using assms by (simp add: build_put_def build_get_def build_sized_def setAddr_def setData_def setTag_def setToken_def)

text \<open>What reads keep: the contents of the memory, the valid ranges, and room for one more access.\<close>

definition mem_view :: "RevCPU \<Rightarrow> RevCPU \<Rightarrow> bool" where
  "mem_view S S' \<longleftrightarrow> mb_same S S' \<and> vm_inv (c_mem S') \<and> bytes_at (c_mem S') = bytes_at (c_mem S) \<and>
     range_ok (c_mem S') = range_ok (c_mem S) \<and> read_room 0 (c_mem S')"

lemma rdma_put_spec:
  assumes inv: "vm_inv (c_mem S)" and room: "read_room 3 (c_mem S)" and cmd: "range_ok (c_mem S) Addr 24"
    and data: "range_ok (c_mem S) (word_at (c_mem S) (Addr + 16)) (unat (q_Size q))"
    and b: "\<And>A D. length D = getNumBlocks (q_Size q) \<Longrightarrow> build (q_Token q) (q_Tag q) A (q_Size q) (Some D) e =
      Inr (True, e\<lparr>v_Opcode := opc, v_Token := q_Token q, v_Tag := q_Tag q, v_Size := q_Size q, v_Addr := A, v_Data := D\<rparr>)"
  shows "\<exists>D S'. rdma_put build Addr q e S =
      Inr (e\<lparr>v_Opcode := opc, v_Token := q_Token q, v_Tag := q_Tag q, v_Size := q_Size q,
            v_Addr := word_at (c_mem S) (Addr + 8), v_Data := D\<rparr>, S') \<and> mem_view S S' \<and>
    take (unat (q_Size q)) (bytes_of D) = bytes_at (c_mem S) (word_at (c_mem S) (Addr + 16)) (unat (q_Size q))"
proof -
  have r: "range_ok (c_mem S) (Addr + 8) 8" "range_ok (c_mem S) (Addr + 16) 8"
    using range_ok_part [OF cmd, of 8 8] range_ok_part [OF cmd, of 16 8] by simp_all
  obtain M1 where 1: "ReadU64 (Addr + 8) S = Inr (word_at (c_mem S) (Addr + 8), S\<lparr>c_mem := M1\<rparr>)" "vm_inv M1"
    "bytes_at M1 = bytes_at (c_mem S)" "range_ok M1 = range_ok (c_mem S)" "read_room 2 M1"
    using ReadU64_spec [OF inv r(1), of 2] room by (auto simp: numeral_3_eq_3)
  obtain M2 where 2: "ReadU64 (Addr + 16) (S\<lparr>c_mem := M1\<rparr>) = Inr (word_at (c_mem S) (Addr + 16), S\<lparr>c_mem := M2\<rparr>)" "vm_inv M2"
    "bytes_at M2 = bytes_at (c_mem S)" "range_ok M2 = range_ok (c_mem S)" "read_room 1 M2"
    using ReadU64_spec [of "S\<lparr>c_mem := M1\<rparr>" "Addr + 16" 1] 1 r(2) by (auto simp: word_at_def numeral_2_eq_2)
  have "\<exists>ws M. read_words (word_at (c_mem S) (Addr + 16)) (unat (q_Size q)) (getNumBlocks (q_Size q)) (S\<lparr>c_mem := M2\<rparr>) =
      Inr (ws, S\<lparr>c_mem := M2\<rparr>\<lparr>c_mem := M\<rparr>) \<and> length ws = getNumBlocks (q_Size q) \<and>
      take (unat (q_Size q)) (bytes_of ws) = bytes_at (c_mem S) (word_at (c_mem S) (Addr + 16)) (unat (q_Size q)) \<and>
      mem_view S (S\<lparr>c_mem := M\<rparr>)"
    unfolding mem_view_def using read_words_at [of "S\<lparr>c_mem := M2\<rparr>" "word_at (c_mem S) (Addr + 16)" "unat (q_Size q)" 0 "getNumBlocks (q_Size q)"]
      2(2-5) data blocks_cover [of "q_Size q"] by auto
  then obtain ws M3 where 3: "read_words (word_at (c_mem S) (Addr + 16)) (unat (q_Size q)) (getNumBlocks (q_Size q))
      (S\<lparr>c_mem := M2\<rparr>) = Inr (ws, S\<lparr>c_mem := M3\<rparr>)" "length ws = getNumBlocks (q_Size q)"
    "take (unat (q_Size q)) (bytes_of ws) = bytes_at (c_mem S) (word_at (c_mem S) (Addr + 16)) (unat (q_Size q))"
    "mem_view S (S\<lparr>c_mem := M3\<rparr>)" by auto
  show ?thesis
    by (intro exI [of _ ws] exI [of _ "S\<lparr>c_mem := M3\<rparr>"])
      (simp add: rdma_put_def 1(1) 2(1) 3 b [OF 3(2)] built_def)
qed

lemma and_mask20: "unat (n :: u32) < 2 ^ 20 \<Longrightarrow> n AND 0xFFFFF = n"
proof -
  assume "unat n < 2 ^ 20"
  then have "take_bit 20 n = n" by (intro unat_eqI) (simp add: unsigned_take_bit_eq take_bit_nat_eq_self)
  moreover have "mask 20 = (0xFFFFF :: u32)" by (simp add: mask_eq_exp_minus_1)
  ultimately show ?thesis by (simp add: take_bit_eq_mask)
qed

lemma convert_put:
  assumes inv: "vm_inv (c_mem S)" and room: "read_room 4 (c_mem S)" and cmd: "range_ok (c_mem S) Addr 24"
    and w: "word_at (c_mem S) Addr = rdma_word tok tag opc n" and opc: "opc \<in> set put_ops"
    and n: "opc \<in> {op_SyncPut, op_AsyncPut} \<longrightarrow> unat n < 2 ^ 16"
    and data: "range_ok (c_mem S) (word_at (c_mem S) (Addr + 16)) (unat n)" and e: "v_Data event = []"
  shows "\<exists>ev S'. PANConvertRDMAtoEvent Addr event S = Inr (ev, S') \<and> v_Opcode ev = opc \<and> v_Token ev = tok \<and>
    v_Tag ev = tag \<and> v_Size ev = n \<and> v_Addr ev = word_at (c_mem S) (Addr + 8) \<and> v_Src ev = address S \<and>
    payload ev = bytes_at (c_mem S) (word_at (c_mem S) (Addr + 16)) (unat n) \<and> mem_view S S'"
proof -
  let ?q = "\<lparr>q_Token = tok, q_Tag = tag, q_Opcode = opc, q_VarArgs = 0, q_Size = n, q_Offset = 0\<rparr>"
  have n0: "0 < unat n" "unat n < 2 ^ 20" "n \<noteq> 0" using data by (auto simp: range_ok_def)
  have r: "range_ok (c_mem S) Addr 8" using range_ok_part [OF cmd, of 0 8] by simp
  obtain M1 where 1: "ReadU64 Addr S = Inr (rdma_word tok tag opc n, S\<lparr>c_mem := M1\<rparr>)" "vm_inv M1"
    "bytes_at M1 = bytes_at (c_mem S)" "range_ok M1 = range_ok (c_mem S)" "read_room 3 M1"
    using ReadU64_spec [OF inv r, of 3] room w by (auto simp: eval_nat_numeral)
  let ?S = "S\<lparr>c_mem := M1\<rparr>"
  have wa: "word_at M1 = word_at (c_mem S)" using 1(3) by (simp add: fun_eq_iff word_at_def)
  have q: "decode_rdma (rdma_word tok tag opc n) = Inr ?q" using opc n n0(2) decode_base decode_stream
    by (auto simp: put_ops_def pan_opcodes)
  have size: "setSize_ev n (setTag tag (setToken tok (event\<lparr>v_Opcode := opc\<rparr>))) =
      (True, (setTag tag (setToken tok (event\<lparr>v_Opcode := opc\<rparr>)))\<lparr>v_Size := n\<rparr>)"
    using opc n n0(2) and_mask16 [of n] and_mask20 [of n]
    by (auto simp: put_ops_def pan_opcodes setSize_base setSize_stream setTag_def setToken_def)
  have bp: "build_put opc tok tag A n n (Some D) event = Inr (True, event\<lparr>v_Opcode := opc, v_Token := tok, v_Tag := tag,
      v_Size := n, v_Addr := A, v_Data := D\<rparr>)" if "length D = getNumBlocks n" for A D
    using build_put_ok [OF size n0(3) that, of A] e by simp
  have "\<exists>D S'. rdma_put (\<lambda>tok tag A n. build_put opc tok tag A n n) Addr ?q event ?S =
      Inr (event\<lparr>v_Opcode := opc, v_Token := q_Token ?q, v_Tag := q_Tag ?q, v_Size := q_Size ?q,
            v_Addr := word_at (c_mem ?S) (Addr + 8), v_Data := D\<rparr>, S') \<and> mem_view ?S S' \<and>
      take (unat (q_Size ?q)) (bytes_of D) = bytes_at (c_mem ?S) (word_at (c_mem ?S) (Addr + 16)) (unat (q_Size ?q))"
    by (rule rdma_put_spec) (use 1 wa cmd data bp in simp_all)
  then obtain D S' where p: "rdma_put (\<lambda>tok tag A n. build_put opc tok tag A n n) Addr ?q event ?S =
      Inr (event\<lparr>v_Opcode := opc, v_Token := tok, v_Tag := tag, v_Size := n,
            v_Addr := word_at (c_mem S) (Addr + 8), v_Data := D\<rparr>, S')" (is "_ = Inr (?e, S')")
    and S': "mem_view S S'"
    and D: "take (unat n) (bytes_of D) = bytes_at (c_mem S) (word_at (c_mem S) (Addr + 16)) (unat n)"
    by (auto simp: wa 1(3,4) mem_view_def mb_same_def)
  have "encode_rdma Addr ?q event ?S = rdma_put (\<lambda>tok tag A n. build_put opc tok tag A n n) Addr ?q event ?S"
    using opc by (auto simp: put_ops_def encode_rdma_def pan_opcodes buildSyncPut_def [abs_def] buildAsyncPut_def [abs_def]
        buildSyncStreamPut_def [abs_def] buildAsyncStreamPut_def [abs_def])
  then have "PANConvertRDMAtoEvent Addr event S = Inr (setSrc (address S) ?e, S')"
    using 1(1) q p S' by (simp add: PANConvertRDMAtoEvent_def mem_view_def mb_same_def)
  then show ?thesis using D S' by (auto simp: setSrc_def payload_def)
qed

text \<open>
  C24. A put command that a program has placed in memory becomes the message it describes: if the first word holds
  token, tag, opcode and size, the second the remote address and the third the local one, then the event has exactly
  these fields, its payload are the bytes of the local memory, and its source is this node. The memory keeps its contents. The
  command and the local buffer each lie in a valid range inside one page (a read across pages is wrong in the code), and the
  size is below 65536 for the base commands.
\<close>

theorem pan_rdma_put:
  assumes inv: "vm_inv (c_mem S)" and room: "read_room 4 (c_mem S)" and cmd: "range_ok (c_mem S) Addr 24"
    and w: "word_at (c_mem S) Addr = rdma_word tok tag opc n" and opc: "opc \<in> set put_ops"
    and n: "opc \<in> {op_SyncPut, op_AsyncPut} \<longrightarrow> unat n < 2 ^ 16"
    and data: "range_ok (c_mem S) (word_at (c_mem S) (Addr + 16)) (unat n)" and e: "v_Data event = []"
  shows "\<exists>ev S'. PANConvertRDMAtoEvent Addr event S = Inr (ev, S') \<and> v_Opcode ev = opc \<and> v_Token ev = tok \<and>
    v_Tag ev = tag \<and> v_Size ev = n \<and> v_Addr ev = word_at (c_mem S) (Addr + 8) \<and> v_Src ev = address S \<and>
    payload ev = bytes_at (c_mem S) (word_at (c_mem S) (Addr + 16)) (unat n) \<and>
    SendMB S' = SendMB S \<and> bytes_at (c_mem S') = bytes_at (c_mem S)"
  using convert_put [OF assms] by (auto simp: mem_view_def mb_same_def)


section \<open>Witnesses\<close>

lemma stored_bytes:
  assumes "vbyte M = vstore a bs f" and "k + n \<le> length bs" and "length bs \<le> 2 ^ 50"
  shows "bytes_at M (a + of_nat k) n = take n (drop k bs)"
proof (rule nth_equalityI)
  fix i assume "i < length (bytes_at M (a + of_nat k) n)"
  then have i: "i < n" by (simp add: bytes_at_def)
  have "unat (a + of_nat k + of_nat i - a) = k + i"
  proof -
    have "a + of_nat k + of_nat i - a = of_nat (k + i)" by simp
    moreover have "k + i < 2 ^ 64" using assms(2,3) i by simp
    ultimately show ?thesis by (simp only: unat_of_nat_u64)
  qed
  then show "bytes_at M (a + of_nat k) n ! i = take n (drop k bs) ! i"
    using assms i by (simp add: bytes_at_def vstore_def)
qed (use assms(2) in \<open>simp add: bytes_at_def\<close>)

text \<open>A memory with one valid mailbox entry at 0x380000 and its put command behind it.\<close>

definition demo_words :: "u64 list" where
  "demo_words = [PAN_ENTRY_VALID, 5, 0x380018, rdma_word 7 1 op_SyncPut 8, 0x1000, 0x380000]"

lemma demo_mbox:
  "\<exists>M. vm_inv M \<and> range_ok M 0x380000 64 \<and> read_room 5 M \<and>
    (\<forall>k n. k + n \<le> 48 \<longrightarrow> bytes_at M (0x380000 + of_nat k) n = take n (drop k (bytes_of demo_words)))"
proof -
  have len: "length (bytes_of demo_words) = 48" by (simp add: demo_words_def)
  have v: "range_ok demo_mem 0x380000 64" using demo_valid [of 64] by (simp add: range_ok_def in_page_def)
  have room: "read_room 6 demo_mem" by (simp add: read_room_def page_room_def) (simp add: new_RevMem_def)
  have "ok_range demo_mem 0x380000 (length (bytes_of demo_words))"
    using range_ok_range [OF range_ok_part [OF v, of 0 48] room] len by simp
  from WriteMem_spec [OF demo_read(3) this] obtain M where
    M: "vm_inv M" "vbyte M = vstore 0x380000 (bytes_of demo_words) (vbyte demo_mem)" "mem_after demo_mem M" by blast
  have "range_ok M 0x380000 64" using v range_ok_after [OF M(3)] by simp
  moreover have "read_room 5 M" using read_room_after [of 5] room M(3) by simp
  ultimately show ?thesis using M(1) stored_bytes [OF M(2)] len by (intro exI [of _ M]) simp
qed

lemma demo_mbox_word:
  assumes "\<forall>k n. k + n \<le> 48 \<longrightarrow> bytes_at M (0x380000 + of_nat k) n = take n (drop k (bytes_of demo_words))"
  shows "word_at M 0x380018 = rdma_word 7 1 op_SyncPut 8" "word_at M 0x380020 = 0x1000" "word_at M 0x380028 = 0x380000"
    "bytes_at M 0x380000 8 = le_bytes 8 PAN_ENTRY_VALID"
    "bytes_at M 0x380000 24 = bytes_of [PAN_ENTRY_VALID, 5, 0x380018]"
  using assms [rule_format, of 24 8] assms [rule_format, of 32 8] assms [rule_format, of 40 8] assms [rule_format, of 0 8]
    assms [rule_format, of 0 24]
  by (simp_all add: word_at_def demo_words_def le_word_le_bytes_exact)

theorem pan_rdma_put_witness:
  "\<exists>S ev S'. PANConvertRDMAtoEvent 0x380018 (new_event S) S = Inr (ev, S') \<and> v_Opcode ev = op_SyncPut \<and> v_Token ev = 7 \<and>
     v_Tag ev = 1 \<and> v_Addr ev = 0x1000 \<and> payload ev = le_bytes 8 PAN_ENTRY_VALID"
proof -
  obtain M where M: "vm_inv M" "range_ok M 0x380000 64" "read_room 5 M"
    and b: "\<forall>k n. k + n \<le> 48 \<longrightarrow> bytes_at M (0x380000 + of_nat k) n = take n (drop k (bytes_of demo_words))"
    using demo_mbox by blast
  note w = demo_mbox_word [OF b]
  let ?S = "demo_cpu\<lparr>c_mem := M\<rparr>"
  have "range_ok M 0x380018 24" "range_ok M 0x380000 8"
    using range_ok_part [OF M(2), of 24 24] range_ok_part [OF M(2), of 0 8] by simp_all
  moreover have "read_room 4 M" using M(3) by (simp add: read_room_def page_room_def)
  ultimately have "\<exists>ev S'. PANConvertRDMAtoEvent 0x380018 (new_event ?S) ?S = Inr (ev, S') \<and> v_Opcode ev = op_SyncPut \<and>
      v_Token ev = 7 \<and> v_Tag ev = 1 \<and> v_Size ev = 8 \<and> v_Addr ev = word_at (c_mem ?S) (0x380018 + 8) \<and>
      v_Src ev = address ?S \<and> payload ev = bytes_at (c_mem ?S) (word_at (c_mem ?S) (0x380018 + 16)) (unat (8 :: u32)) \<and>
      SendMB S' = SendMB ?S \<and> bytes_at (c_mem S') = bytes_at (c_mem ?S)"
    by (intro pan_rdma_put) (simp_all add: M(1) w put_ops_def new_event_def new_panNicEvent_def)
  then show ?thesis using w by fastforce
qed

lemma bytes_of_inject: "bytes_of ws = bytes_of ws' \<Longrightarrow> length ws = length ws' \<Longrightarrow> ws = ws'"
proof (induction ws ws' rule: list_induct2')
  case (4 x xs y ys)
  then have "le_bytes 8 x = le_bytes 8 y" "bytes_of xs = bytes_of ys" by simp_all
  then have "(le_word (le_bytes 8 x) :: u64) = le_word (le_bytes 8 y)" by simp
  then show ?case using 4 \<open>bytes_of xs = bytes_of ys\<close> by (simp add: le_word_le_bytes_exact)
qed simp_all

theorem pan_mailbox_bound_witness:
  "\<exists>S S' m. PANProcessRDMAMailbox S = Inr S' \<and> SendMB S = [] \<and> RDMAPerCycle S = 1 \<and> SendMB S' = [m] \<and>
     v_Src (fst m) = address S"
proof -
  obtain M where M: "vm_inv M" "range_ok M 0x380000 64" "read_room 5 M"
    and b: "\<forall>k n. k + n \<le> 48 \<longrightarrow> bytes_at M (0x380000 + of_nat k) n = take n (drop k (bytes_of demo_words))"
    using demo_mbox by blast
  note w = demo_mbox_word [OF b]
  let ?S = "demo_cpu\<lparr>c_mem := M, PrevAddr := 0x380000\<rparr>"
  have r: "range_ok M 0x380018 24" "range_ok M 0x380000 8" "range_ok M 0x380000 24"
    using range_ok_part [OF M(2), of 24 24] range_ok_part [OF M(2), of 0 8] range_ok_part [OF M(2), of 0 24] by simp_all
  obtain ws M1 where p: "read_words 0x380000 24 3 ?S = Inr (ws, ?S\<lparr>c_mem := M1\<rparr>)" "length ws = 3"
    "take 24 (bytes_of ws) = bytes_at M 0x380000 24" and M1: "vm_inv M1" "bytes_at M1 = bytes_at M"
      "range_ok M1 = range_ok M" "read_room 4 M1"
    using read_words_at [of ?S "0x380000" 24 4 3] M r(3) by (auto simp: eval_nat_numeral)
  have "bytes_of ws = bytes_of [PAN_ENTRY_VALID, 5, 0x380018]" using p(2,3) w(5) by simp
  then have ws: "ws = [PAN_ENTRY_VALID, 5, 0x380018]" by (rule bytes_of_inject) (simp add: p(2))
  let ?S1 = "?S\<lparr>c_mem := M1\<rparr>"
  have w1: "word_at M1 = word_at M" using M1(2) by (simp add: fun_eq_iff word_at_def)
  have "\<exists>ev S'. PANConvertRDMAtoEvent 0x380018 (new_event ?S1) ?S1 = Inr (ev, S') \<and> v_Opcode ev = op_SyncPut \<and>
      v_Token ev = 7 \<and> v_Tag ev = 1 \<and> v_Size ev = 8 \<and> v_Addr ev = word_at (c_mem ?S1) (0x380018 + 8) \<and>
      v_Src ev = address ?S1 \<and> payload ev = bytes_at (c_mem ?S1) (word_at (c_mem ?S1) (0x380018 + 16)) (unat (8 :: u32)) \<and>
      mem_view ?S1 S'"
    by (rule convert_put) (simp_all add: M1 w w1 r put_ops_def new_event_def new_panNicEvent_def)
  then obtain ev S2 where c: "PANConvertRDMAtoEvent 0x380018 (new_event ?S1) ?S1 = Inr (ev, S2)" "v_Src ev = -1"
    and v: "mem_view ?S1 S2" by auto
  let ?S2 = "push_mb ev 5 S2"
  have "ok_range (c_mem ?S2) 0x380000 (length (le_bytes 8 PAN_ENTRY_INJECTED))" "vm_inv (c_mem ?S2)"
    using v r(2) M1(3) range_ok_range [of "c_mem S2" "0x380000" 8 0] by (simp_all add: mem_view_def push_mb_def)
  then obtain M3 where wr: "write_mem 0x380000 (le_bytes 8 PAN_ENTRY_INJECTED) ?S2 = Inr (?S2\<lparr>c_mem := M3\<rparr>)"
    using write_mem_spec by blast
  have "mbox_entry 0x380000 ?S = Inr (True, ?S2\<lparr>c_mem := M3\<rparr>)" using p(1) ws c(1) wr by (simp add: mbox_entry_def)
  then have run: "PANProcessRDMAMailbox ?S = Inr (?S2\<lparr>c_mem := M3, PrevAddr := next_entry 0x380000\<rparr>)"
    using v by (simp add: PANProcessRDMAMailbox_def PAN_RDMA_MAX_ENTRIES_def eval_nat_numeral mem_view_def mb_same_def
        push_mb_def Let_def)
  then have "SendMB (?S2\<lparr>c_mem := M3, PrevAddr := next_entry 0x380000\<rparr>) = [(ev, 5)]"
    using v by (simp add: push_mb_def mem_view_def mb_same_def)
  moreover from this have "v_Src ev = address ?S" using pan_mailbox_bound [OF run] by auto
  ultimately show ?thesis using run
    by - (rule exI [of _ ?S], rule exI [of _ "?S2\<lparr>c_mem := M3, PrevAddr := next_entry 0x380000\<rparr>"], simp)
qed


section \<open>Tags\<close>

lemma tag_max:
  assumes "k \<le> 255"
  shows "(of_nat k :: u8) = 0xFF \<longleftrightarrow> k = 255"
proof
  assume "(of_nat k :: u8) = 0xFF"
  then have "unat (of_nat k :: u8) = 255" by simp
  then show "k = 255" using assms by (simp add: unsigned_of_nat take_bit_nat_eq_self)
qed simp

text \<open>The tags of successive commands of the test harness count from 0 to 254 and start again.\<close>

lemma createTag_sequence:
  assumes "PrivTag S = 0"
  shows "fst (createTag (((\<lambda>S. snd (createTag S)) ^^ n) S)) = of_nat (n mod 255)"
proof -
  define T where "T n = ((\<lambda>S. snd (createTag S)) ^^ n) S" for n
  define c where "c n = (if n = 0 then 0 else (n - 1) mod 255 + 1)" for n :: nat
  have le: "c n \<le> 255" for n using mod_less_divisor [of 255 "n - 1"] by (auto simp: c_def Suc_le_eq)
  have step: "n mod 255 = (if c n = 255 then 0 else c n)" "c (Suc n) = (if c n = 255 then 1 else c n + 1)" for n
    using mod_Suc [of "n - 1" 255] by (cases n; simp add: c_def)+
  have P: "PrivTag (T n) = of_nat (c n)" for n
  proof (induction n)
    case (Suc n)
    have "T (Suc n) = snd (createTag (T n))" by (simp add: T_def)
    then show ?case using Suc step(2) [of n] tag_max [OF le [of n]] by (simp add: createTag_def add.commute)
  qed (simp add: T_def c_def assms)
  show ?thesis using P [of n] step(1) [of n] tag_max [OF le [of n]] unfolding T_def by (simp add: createTag_def)
qed


section \<open>Deviations\<close>

text \<open>
  A \<open>SyncGet\<close> with a wrong token is refused and served all the same: its read is queued, and its answer, with the data,
  will follow the failure reply.
\<close>

lemma syncget_served_without_token:
  assumes "\<not> isHost (PNic S)" and "\<not> CheckToken (v_Token event) (PNic S)" and "EnablePANStats S"
    and "v_Opcode event = op_SyncGet" and "Procs S = P # Ps" and "MaxCost (p_feature P) \<noteq> 0"
  shows "\<exists>c S'. handlePANMessage event S = Inr S' \<and> SendMB S' = SendMB S @ [(reply_to op_Failed event S, v_Src event)] \<and>
    ReadQueue S' = ReadQueue S @ [(v_Tag event, v_Size event, c, v_Src event, v_Addr event)]"
  using assms by (simp add: handlePANMessage_def net_dispatch PANHandleSyncGet_def host_or_token_def queue_read_def
      RandCost_def then_stat_def addData_def push_mb_def)

text \<open>The size that a reply should carry (the index of an execution entry, its status) is lost.\<close>

lemma reply_size_lost: "reply_success n event S = Inr S' \<Longrightarrow> v_Size (fst (last (SendMB S'))) = 0"
  by (auto simp: push_mb_def reply_to_def)

text \<open>The data of a \<open>WriteReg\<close> command for core 0 are ignored.\<close>

lemma writereg_core0_ignores_data:
  "v_Size event = 0 \<Longrightarrow> token_ok event S \<Longrightarrow> \<not> bad_core event S \<Longrightarrow>
   PANHandleWriteReg event S =
   bind_res (core_at 0 S) (\<lambda>P. bind_res (DebugWriteReg (ucast (v_Addr event)) 0 P) (\<lambda>(ok, P1).
     if \<not> ok then PANBuildFailedToken event S else PANBuildRawSuccess event (set_core (v_Size event) P1 S)))"
  by (simp add: PANHandleWriteReg_def getData_def)

text \<open>A mailbox command that asks for the state of a future always asks for address 0.\<close>

lemma rdma_status_future_address:
  "q_Opcode q = op_StatusFuture \<Longrightarrow> encode_rdma Addr q event S = Inr (e, S') \<Longrightarrow> v_Addr e = 0"
  by (auto simp: encode_rdma_def encode_ctrl_def pan_opcodes rdma_plain_def built_def buildStatusFuture_def setAddr_def)

text \<open>A success reply with a tag other than 0 completes any single outstanding get, with undefined bytes.\<close>

lemma success_completes_any_get:
  "tag \<noteq> 0 \<Longrightarrow> TrackGets S = [(t, a, n)] \<Longrightarrow>
   success_gets tag S = bind_res (write_mem a (uninit (unat n) S) S) (\<lambda>S1. Inr (S1\<lparr>TrackGets := []\<rparr>))"
  by (simp add: success_gets_def)

text \<open>Without statistics the first message a node receives is undefined behaviour.\<close>

lemma no_statistics_undefined:
  "\<not> isHost (PNic S) \<Longrightarrow> \<not> EnablePANStats S \<Longrightarrow> v_Opcode event = op_Reserve \<Longrightarrow>
   handlePANMessage event S = Inl UB_NullDeref"
  by (auto simp: handlePANMessage_def net_dispatch PANHandleReserve_def SetToken_def then_stat_def addData_def push_mb_def)

text \<open>A put to address 0 is undefined behaviour in the next cycle.\<close>

lemma zero_address_undefined: "ZeroRqst S \<noteq> [] \<Longrightarrow> processPANZeroAddr S \<noteq> Inr S'"
  by (auto simp: processPANZeroAddr_def)

text \<open>The answer to a streaming get is not a streaming packet: the upper four bits of the size are lost.\<close>

lemma stream_answer_truncated:
  "snd (setSize_ev 0x10000 (snd (buildSuccess tok tag e))) = snd (setSize_ev 0 (snd (buildSuccess tok tag e)))"
  by (simp add: build_reply setSize_base op_Success_def)

text \<open>The width of the faults to inject is replaced by their range.\<close>

lemma fault_width_overwritten:
  "init_faults faults width rng S = Inr S' \<Longrightarrow> c_fault_width S' = ucast rng"
  by (auto simp: init_faults_def)

end
