(* ===== verification/Rev_Loader.thy ===== *)
theory Rev_Loader
  imports Rev_MemAlloc Rev_MemCtrl Rev_Opts
begin

text \<open>
  The loader (include/RevLoader.h, src/RevLoader.cc) in the configuration without a memory controller. The
  executable file is a list of bytes; reading it outside of its bounds is undefined behaviour. The functions for 32
  and 64 bit files differ in the layout of the structures and in the width of the addresses and sizes, in which the
  sums and differences of the source wrap around. So they are one definition, generic in this width, on two layouts.
\<close>

section \<open>Structures of the file\<close>

record (overloaded) 'w Elf_Ehdr =
  e_ident :: "u8 list"
  e_type :: u16
  e_machine :: u16
  e_version :: u32
  e_entry :: "'w word"
  e_phoff :: "'w word"
  e_shoff :: "'w word"
  e_flags :: u32
  e_ehsize :: u16
  e_phentsize :: u16
  e_phnum :: u16
  e_shentsize :: u16
  e_shnum :: u16
  e_shstrndx :: u16

record (overloaded) 'w Elf_Shdr =
  sh_name :: u32
  sh_type :: u32
  sh_flags :: "'w word"
  sh_addr :: "'w word"
  sh_offset :: "'w word"
  sh_size :: "'w word"
  sh_link :: u32
  sh_info :: u32
  sh_addralign :: "'w word"
  sh_entsize :: "'w word"

record (overloaded) 'w Elf_Phdr =
  p_type :: u32
  p_flags :: u32
  p_offset :: "'w word"
  p_vaddr :: "'w word"
  p_paddr :: "'w word"
  p_filesz :: "'w word"
  p_memsz :: "'w word"
  p_align :: "'w word"

record (overloaded) 'w Elf_Sym =
  st_name :: u32
  st_value :: "'w word"
  st_size :: "'w word"
  st_info :: u8
  st_other :: u8
  st_shndx :: u16

text \<open>The structures in the file: a member of \<open>n\<close> bytes at offset \<open>k\<close>, in little-endian order.\<close>

definition fld_at :: "nat \<Rightarrow> nat \<Rightarrow> u8 list \<Rightarrow> 'a::len word" where
  "fld_at k n bs = le_word (take n (drop k bs))"

definition Elf32_Ehdr :: "u8 list \<Rightarrow> 32 Elf_Ehdr" where
  "Elf32_Ehdr b = \<lparr>e_ident = take 16 b, e_type = fld_at 16 2 b, e_machine = fld_at 18 2 b, e_version = fld_at 20 4 b,
     e_entry = fld_at 24 4 b, e_phoff = fld_at 28 4 b, e_shoff = fld_at 32 4 b, e_flags = fld_at 36 4 b, e_ehsize = fld_at 40 2 b,
     e_phentsize = fld_at 42 2 b, e_phnum = fld_at 44 2 b, e_shentsize = fld_at 46 2 b, e_shnum = fld_at 48 2 b,
     e_shstrndx = fld_at 50 2 b\<rparr>"

definition Elf32_Shdr :: "u8 list \<Rightarrow> 32 Elf_Shdr" where
  "Elf32_Shdr b = \<lparr>sh_name = fld_at 0 4 b, sh_type = fld_at 4 4 b, sh_flags = fld_at 8 4 b, sh_addr = fld_at 12 4 b,
     sh_offset = fld_at 16 4 b, sh_size = fld_at 20 4 b, sh_link = fld_at 24 4 b, sh_info = fld_at 28 4 b,
     sh_addralign = fld_at 32 4 b, sh_entsize = fld_at 36 4 b\<rparr>"

definition Elf32_Phdr :: "u8 list \<Rightarrow> 32 Elf_Phdr" where
  "Elf32_Phdr b = \<lparr>p_type = fld_at 0 4 b, p_flags = fld_at 24 4 b, p_offset = fld_at 4 4 b, p_vaddr = fld_at 8 4 b,
     p_paddr = fld_at 12 4 b, p_filesz = fld_at 16 4 b, p_memsz = fld_at 20 4 b, p_align = fld_at 28 4 b\<rparr>"

definition Elf32_Sym :: "u8 list \<Rightarrow> 32 Elf_Sym" where
  "Elf32_Sym b = \<lparr>st_name = fld_at 0 4 b, st_value = fld_at 4 4 b, st_size = fld_at 8 4 b, st_info = fld_at 12 1 b,
     st_other = fld_at 13 1 b, st_shndx = fld_at 14 2 b\<rparr>"

definition Elf64_Ehdr :: "u8 list \<Rightarrow> 64 Elf_Ehdr" where
  "Elf64_Ehdr b = \<lparr>e_ident = take 16 b, e_type = fld_at 16 2 b, e_machine = fld_at 18 2 b, e_version = fld_at 20 4 b,
     e_entry = fld_at 24 8 b, e_phoff = fld_at 32 8 b, e_shoff = fld_at 40 8 b, e_flags = fld_at 48 4 b, e_ehsize = fld_at 52 2 b,
     e_phentsize = fld_at 54 2 b, e_phnum = fld_at 56 2 b, e_shentsize = fld_at 58 2 b, e_shnum = fld_at 60 2 b,
     e_shstrndx = fld_at 62 2 b\<rparr>"

definition Elf64_Shdr :: "u8 list \<Rightarrow> 64 Elf_Shdr" where
  "Elf64_Shdr b = \<lparr>sh_name = fld_at 0 4 b, sh_type = fld_at 4 4 b, sh_flags = fld_at 8 8 b, sh_addr = fld_at 16 8 b,
     sh_offset = fld_at 24 8 b, sh_size = fld_at 32 8 b, sh_link = fld_at 40 4 b, sh_info = fld_at 44 4 b,
     sh_addralign = fld_at 48 8 b, sh_entsize = fld_at 56 8 b\<rparr>"

definition Elf64_Phdr :: "u8 list \<Rightarrow> 64 Elf_Phdr" where
  "Elf64_Phdr b = \<lparr>p_type = fld_at 0 4 b, p_flags = fld_at 4 4 b, p_offset = fld_at 8 8 b, p_vaddr = fld_at 16 8 b,
     p_paddr = fld_at 24 8 b, p_filesz = fld_at 32 8 b, p_memsz = fld_at 40 8 b, p_align = fld_at 48 8 b\<rparr>"

definition Elf64_Sym :: "u8 list \<Rightarrow> 64 Elf_Sym" where
  "Elf64_Sym b = \<lparr>st_name = fld_at 0 4 b, st_value = fld_at 8 8 b, st_size = fld_at 16 8 b, st_info = fld_at 4 1 b,
     st_other = fld_at 5 1 b, st_shndx = fld_at 6 2 b\<rparr>"

text \<open>The sizes of the structures and their readers.\<close>

record (overloaded) 'w elf_layout =
  eh_size :: nat
  eh_of :: "u8 list \<Rightarrow> 'w Elf_Ehdr"
  ph_size :: nat
  ph_of :: "u8 list \<Rightarrow> 'w Elf_Phdr"
  sh_struct_size :: nat
  sh_of :: "u8 list \<Rightarrow> 'w Elf_Shdr"
  sym_size :: nat
  sym_of :: "u8 list \<Rightarrow> 'w Elf_Sym"

definition layout32 :: "32 elf_layout" where
  "layout32 = \<lparr>eh_size = 52, eh_of = Elf32_Ehdr, ph_size = 32, ph_of = Elf32_Phdr, sh_struct_size = 40,
     sh_of = Elf32_Shdr, sym_size = 16, sym_of = Elf32_Sym\<rparr>"

definition layout64 :: "64 elf_layout" where
  "layout64 = \<lparr>eh_size = 64, eh_of = Elf64_Ehdr, ph_size = 56, ph_of = Elf64_Phdr, sh_struct_size = 64,
     sh_of = Elf64_Shdr, sym_size = 24, sym_of = Elf64_Sym\<rparr>"

text \<open>Of \<open>ElfInfo\<close>, the members that are ever set.\<close>

record ElfInfo =
  phent :: nat
  phnum :: nat
  phdr :: u64
  phdr_size :: u64

record RevLoader =
  l_exe :: string
  l_args :: string
  RV32Entry :: u32
  RV64Entry :: u64
  elfinfo :: ElfInfo
  symtable :: "string \<rightharpoonup> u64"
  l_argv :: "string list"


section \<open>Reading the file\<close>

definition file_slice :: "nat \<Rightarrow> nat \<Rightarrow> u8 list \<Rightarrow> u8 list res" where
  "file_slice p n img = (if p + n \<le> length img then Inr (take n (drop p img)) else Inl UB_OutOfBounds)"

definition read_struct :: "nat \<Rightarrow> nat \<Rightarrow> (u8 list \<Rightarrow> 'a) \<Rightarrow> u8 list \<Rightarrow> 'a res" where
  "read_struct p n f img = bind_res (file_slice p n img) (\<lambda>bs. Inr (f bs))"

definition ph_at :: "'w::len elf_layout \<Rightarrow> 'w Elf_Ehdr \<Rightarrow> u8 list \<Rightarrow> nat \<Rightarrow> 'w Elf_Phdr res" where
  "ph_at L eh img i = read_struct (unat (e_phoff eh) + i * ph_size L) (ph_size L) (ph_of L) img"

definition sh_at :: "'w::len elf_layout \<Rightarrow> 'w Elf_Ehdr \<Rightarrow> u8 list \<Rightarrow> nat \<Rightarrow> 'w Elf_Shdr res" where
  "sh_at L eh img i = read_struct (unat (e_shoff eh) + i * sh_struct_size L) (sh_struct_size L) (sh_of L) img"

definition sym_at :: "'w::len elf_layout \<Rightarrow> 'w Elf_Shdr \<Rightarrow> u8 list \<Rightarrow> nat \<Rightarrow> 'w Elf_Sym res" where
  "sym_at L symsh img i = read_struct (unat (sh_offset symsh) + i * sym_size L) (sym_size L) (sym_of L) img"

text \<open>
  \<open>strcmp(p, s) == 0\<close> for a literal, whose bytes \<open>s\<close> include the terminating 0, and \<open>strnlen\<close>. Both read no further than
  they have to.
\<close>

fun str_is :: "u8 list \<Rightarrow> nat \<Rightarrow> u8 list \<Rightarrow> bool res" where
  "str_is img p [] = Inr True"
| "str_is img p (c # cs) =
     (if p < length img then (if img ! p = c then str_is img (Suc p) cs else Inr False) else Inl UB_OutOfBounds)"

fun strnlen :: "u8 list \<Rightarrow> nat \<Rightarrow> nat \<Rightarrow> nat res" where
  "strnlen img p 0 = Inr 0"
| "strnlen img p (Suc n) =
     (if p < length img
      then (if img ! p = 0 then Inr 0 else bind_res (strnlen img (Suc p) n) (\<lambda>k. Inr (Suc k)))
      else Inl UB_OutOfBounds)"

definition c_string :: "string \<Rightarrow> u8 list" where
  "c_string s = map of_char s @ [0]"

definition string_at :: "u8 list \<Rightarrow> nat \<Rightarrow> string" where
  "string_at img p = map (\<lambda>b. char_of (unat b)) (takeWhile (\<lambda>b. b \<noteq> 0) (drop p img))"


section \<open>Writing in cache lines\<close>

text \<open>
  \<open>getLineSize\<close> returns 64 without a controller. A write fails only by a fatal error. The loop runs at least once;
  when the first line was all, it writes 0 bytes.
\<close>

function line_loop :: "u64 \<Rightarrow> u8 list \<Rightarrow> RevMem \<Rightarrow> RevMem res" where
  "line_loop TmpAddr rest M =
     (let TmpSize = (if length rest > 64 then 64 else length rest)
      in bind_res (WriteMem 0 TmpAddr (take TmpSize rest) M) (\<lambda>M1.
         if drop TmpSize rest \<noteq> [] then line_loop (TmpAddr + of_nat TmpSize) (drop TmpSize rest) M1 else Inr M1))"
  by pat_completeness auto
termination by (relation "measure (\<lambda>(a, r, M). length r)") (auto split: if_splits)

declare line_loop.simps [simp del]

definition WriteCacheLine :: "u64 \<Rightarrow> u8 list \<Rightarrow> RevMem \<Rightarrow> RevMem res" where
  "WriteCacheLine Addr Data M =
     (if length Data = 0 then Inr M
      else if length Data < 64 then WriteMem 0 Addr Data M
      else let BaseCacheAddr = cache_base 64 Addr;
               TmpSize = unat ((BaseCacheAddr + 64) - Addr)
           in bind_res (WriteMem 0 Addr (take TmpSize Data) M)
                (line_loop (Addr + of_nat TmpSize) (drop TmpSize Data)))"


section \<open>Loading the file\<close>

definition unrecognizable :: "rev_error" where
  "unrecognizable = Fatal_Loader ''Elf is unrecognizable''"

definition file_size :: "u8 list \<Rightarrow> u64" where
  "file_size img = of_nat (length img)"

definition in_file :: "'w::len word \<Rightarrow> 'w word \<Rightarrow> u8 list \<Rightarrow> bool" where
  "in_file off n img \<longleftrightarrow> \<not> file_size img < ucast (off + n)"

text \<open>The first loop over the program headers.\<close>

definition add_segment :: "u8 list \<Rightarrow> 'w::len Elf_Phdr \<Rightarrow> RevMem \<Rightarrow> RevMem res" where
  "add_segment img ph M =
     (if \<not> in_file (p_offset ph) (p_filesz ph) img then Inl unrecognizable
      else if p_memsz ph \<noteq> 0 then
        bind_res (AddRoundedMemSeg (ucast (p_paddr ph)) (ucast (p_memsz ph)) 4096 M) (\<lambda>(_, M1). Inr M1)
      else Inr M)"

text \<open>The first loop over the section headers, with the variables \<open>BSSEnd\<close>, \<open>TextEnd\<close> and \<open>DataEnd\<close>.\<close>

definition section_is :: "u8 list \<Rightarrow> nat \<Rightarrow> 'w Elf_Shdr \<Rightarrow> string \<Rightarrow> bool res" where
  "section_is img shstrtab sec s = str_is img (shstrtab + unat (sh_name sec)) (c_string s)"

definition scan_section ::
  "u8 list \<Rightarrow> nat \<Rightarrow> 'w::len Elf_Shdr \<Rightarrow> u64 \<times> u64 \<times> u64 \<Rightarrow> (u64 \<times> u64 \<times> u64) res" where
  "scan_section img shstrtab sec = (\<lambda>(BSSEnd, TextEnd, DataEnd).
     let e = ucast (sh_addr sec + sh_size sec)
     in bind_res (section_is img shstrtab sec ''.bss'') (\<lambda>b.
        bind_res (section_is img shstrtab sec ''.text'') (\<lambda>t.
        bind_res (section_is img shstrtab sec ''.data'') (\<lambda>d.
          Inr (if b then e else BSSEnd, if t then e else TextEnd, if d then e else DataEnd)))))"

definition static_end :: "u64 \<times> u64 \<times> u64 \<Rightarrow> u64 res" where
  "static_end = (\<lambda>(BSSEnd, TextEnd, DataEnd).
     if BSSEnd > 0 then Inr BSSEnd
     else if DataEnd > 0 then Inr DataEnd
     else if TextEnd > 0 then Inr TextEnd
     else Inl (Fatal_Loader ''No text, data, or bss sections''))"

text \<open>
  The second loop over the program headers. The vector of zeros has at most \<open>2 ^ 63 - 1\<close> elements; a size beyond
  that throws. Its first element is only used when there is one.
\<close>

definition load_segment :: "u8 list \<Rightarrow> 'w::len Elf_Phdr \<Rightarrow> RevMem \<Rightarrow> RevMem res" where
  "load_segment img ph M =
     (if p_type ph = 1 \<and> p_memsz ph \<noteq> 0 then
        bind_res
          (if p_filesz ph \<noteq> 0 then
             (if \<not> in_file (p_offset ph) (p_filesz ph) img then Inl unrecognizable
              else bind_res (file_slice (unat (p_offset ph)) (unat (p_filesz ph)) img)
                     (\<lambda>bs. WriteCacheLine (ucast (p_paddr ph)) bs M))
           else Inr M)
          (\<lambda>M1. let n = unat (p_memsz ph - p_filesz ph)
            in if n > 2 ^ 63 - 1 then Inl Exc_length_error
               else WriteCacheLine (ucast (p_paddr ph + p_filesz ph)) (replicate n 0) M1)
      else Inr M)"

text \<open>
  The second loop over the section headers, with the variables \<open>strtabidx\<close> and \<open>symtabidx\<close>. A section is skipped
  when its type has the bit of \<open>SHT_NOBITS\<close>.
\<close>

definition find_tables :: "u8 list \<Rightarrow> nat \<Rightarrow> nat \<Rightarrow> 'w::len Elf_Shdr \<Rightarrow> nat \<times> nat \<Rightarrow> (nat \<times> nat) res" where
  "find_tables img shstrtab i sec = (\<lambda>(strtabidx, symtabidx).
     if sh_type sec AND 8 \<noteq> 0 then Inr (strtabidx, symtabidx)
     else if \<not> in_file (sh_offset sec) (sh_size sec) img then Inl unrecognizable
     else bind_res (section_is img shstrtab sec ''.strtab'') (\<lambda>st.
          bind_res (section_is img shstrtab sec ''.symtab'') (\<lambda>sy.
            Inr (if st then i else strtabidx, if sy then i else symtabidx))))"

text \<open>The loop over the symbols; \<open>maxlen\<close> has 32 bits.\<close>

definition add_symbol :: "u8 list \<Rightarrow> 'w::len Elf_Shdr \<Rightarrow> 'w Elf_Sym \<Rightarrow> (string \<rightharpoonup> u64) \<Rightarrow> (string \<rightharpoonup> u64) res" where
  "add_symbol img strsh symb tab =
     (let maxlen = (ucast (sh_size strsh - ucast (st_name symb)) :: u32);
          p = unat (sh_offset strsh) + unat (st_name symb)
      in if ucast (st_name symb) \<ge> sh_size strsh then Inl unrecognizable
         else bind_res (strnlen img p (unat maxlen)) (\<lambda>k.
           if k \<ge> unat maxlen then Inl unrecognizable
           else Inr (tab(string_at img p \<mapsto> ucast (st_value symb)))))"

definition load_symbols ::
  "'w::len elf_layout \<Rightarrow> 'w Elf_Ehdr \<Rightarrow> u8 list \<Rightarrow> nat \<Rightarrow> nat \<Rightarrow> (string \<rightharpoonup> u64) \<Rightarrow> (string \<rightharpoonup> u64) res" where
  "load_symbols L eh img strtabidx symtabidx tab =
     (if strtabidx \<noteq> 0 \<and> symtabidx \<noteq> 0 then
        bind_res (sh_at L eh img strtabidx) (\<lambda>strsh.
        bind_res (sh_at L eh img symtabidx) (\<lambda>symsh.
          run_ops (\<lambda>i tab. bind_res (sym_at L symsh img i) (\<lambda>symb. add_symbol img strsh symb tab))
            [0..<unat (sh_size symsh) div sym_size L] tab))
      else Inr tab)"

definition load_elf :: "'w::len elf_layout \<Rightarrow> u8 list \<Rightarrow> RevLoader \<Rightarrow> RevMem \<Rightarrow> (RevLoader \<times> RevMem) res" where
  "load_elf L img ldr M =
     bind_res (read_struct 0 (eh_size L) (eh_of L) img) (\<lambda>eh.
     bind_res (sh_at L eh img (unat (e_shstrndx eh))) (\<lambda>strsh.
     let shstrtab = unat (sh_offset strsh); phs = [0..<unat (e_phnum eh)]; shs = [0..<unat (e_shnum eh)] in
     bind_res (run_ops (\<lambda>i M. bind_res (ph_at L eh img i) (\<lambda>ph. add_segment img ph M)) phs M) (\<lambda>M1.
     bind_res (run_ops (\<lambda>i ends. bind_res (sh_at L eh img i) (\<lambda>sec. scan_section img shstrtab sec ends)) shs (0, 0, 0))
       (\<lambda>ends.
     bind_res (static_end ends) (\<lambda>StaticDataEnd.
     let psize = (of_nat (unat (e_phnum eh) * ph_size L) :: u64) in
     if file_size img < ucast (e_phoff eh) + psize then Inl unrecognizable
     else
       let info = \<lparr>phent = ph_size L, phnum = unat (e_phnum eh), phdr = ucast (e_phoff eh), phdr_size = psize\<rparr>;
           sp = (ucast (ucast (stacktop M1 - psize) :: 'w word) :: u64) in
       bind_res (file_slice (unat (e_phoff eh)) (unat psize) img) (\<lambda>hdrs.
       bind_res (WriteCacheLine sp hdrs M1) (\<lambda>M2.
       bind_res (run_ops (\<lambda>i M. bind_res (ph_at L eh img i) (\<lambda>ph. load_segment img ph M)) phs (M2\<lparr>stacktop := sp\<rparr>)) (\<lambda>M3.
       if file_size img < ucast (e_shoff eh) + of_nat (unat (e_shnum eh) * sh_struct_size L) then Inl unrecognizable
       else if e_shstrndx eh \<ge> e_shnum eh then Inl unrecognizable
       else if \<not> in_file (sh_offset strsh) (sh_size strsh) img then Inl unrecognizable
       else
         bind_res (run_ops (\<lambda>i t. bind_res (sh_at L eh img i) (\<lambda>sec. find_tables img shstrtab i sec t)) shs (0, 0))
           (\<lambda>(strtabidx, symtabidx).
         bind_res (load_symbols L eh img strtabidx symtabidx (symtable ldr)) (\<lambda>tab.
         bind_res (InitHeap StaticDataEnd M3) (\<lambda>M4.
           Inr (ldr\<lparr>elfinfo := info, symtable := tab\<rparr>, M4))))))))))))"

definition LoadElf32 :: "u8 list \<Rightarrow> RevLoader \<Rightarrow> RevMem \<Rightarrow> (RevLoader \<times> RevMem) res" where
  "LoadElf32 img ldr M =
     bind_res (load_elf layout32 img ldr M) (\<lambda>(ldr1, M1).
       Inr (ldr1\<lparr>RV32Entry := e_entry (Elf32_Ehdr (take 52 img))\<rparr>, M1))"

definition LoadElf64 :: "u8 list \<Rightarrow> RevLoader \<Rightarrow> RevMem \<Rightarrow> (RevLoader \<times> RevMem) res" where
  "LoadElf64 img ldr M =
     bind_res (load_elf layout64 img ldr M) (\<lambda>(ldr1, M1).
       Inr (ldr1\<lparr>RV64Entry := e_entry (Elf64_Ehdr (take 64 img))\<rparr>, M1))"


section \<open>Program arguments\<close>

definition GetArgc :: "RevLoader \<Rightarrow> nat" where
  "GetArgc ldr = length (l_argv ldr)"

text \<open>\<open>argv.size() - 1\<close> wraps around when there is no argument.\<close>

definition GetArgv_entry :: "nat \<Rightarrow> RevLoader \<Rightarrow> string res" where
  "GetArgv_entry n ldr =
     (if n > unat (of_nat (length (l_argv ldr)) - 1 :: u64) then Inr []
      else if n < length (l_argv ldr) then Inr (l_argv ldr ! n) else Inl UB_OutOfBounds)"

text \<open>The two loops over the arguments: the strings, from the last to the first, and then the pointers.\<close>

definition write_arg :: "string \<Rightarrow> u64 \<times> RevMem \<Rightarrow> (u64 \<times> RevMem) res" where
  "write_arg s = (\<lambda>(OldStackTop, M).
     let a = OldStackTop - of_nat (length s + 1)
     in bind_res (WriteCacheLine a (c_string s) M) (\<lambda>M1. Inr (a, M1)))"

definition write_ptr :: "string \<Rightarrow> u64 \<times> u64 \<times> RevMem \<Rightarrow> (u64 \<times> u64 \<times> RevMem) res" where
  "write_ptr s = (\<lambda>(ArgArray, OldStackTop, M).
     bind_res (WriteCacheLine ArgArray (le_bytes 8 OldStackTop) M) (\<lambda>M1.
       Inr (ArgArray + 8, OldStackTop + of_nat (length s + 1), M1)))"

definition LoadProgramArgs :: "RevLoader \<Rightarrow> RevMem \<Rightarrow> (RevLoader \<times> RevMem) res" where
  "LoadProgramArgs ldr M =
     (let argv = l_argv ldr @ [l_exe ldr] @ splitStr_opts (l_args ldr) CHR '' '' in
      if argv = [] then Inl (Fatal_Loader ''failed to initialize the program arguments'')
      else
        let ArgArray = stacktop M + 48; Argc = (of_nat (length argv) :: u32) in
        bind_res (WriteCacheLine ArgArray (le_bytes 4 Argc) M) (\<lambda>M1.
        bind_res (run_ops write_arg (rev argv) (memSize M, M1)) (\<lambda>(OldStackTop, M2).
        bind_res (WriteCacheLine (ArgArray + 4) (le_bytes 8 (ArgArray + 4 + 8)) M2) (\<lambda>M3.
        bind_res (run_ops write_ptr argv (ArgArray + 4 + 8, OldStackTop, M3)) (\<lambda>(_, _, M4).
          Inr (ldr\<lparr>l_argv := argv\<rparr>, M4))))))"


section \<open>The loader\<close>

definition IsElf :: "'w Elf_Ehdr \<Rightarrow> bool" where
  "IsElf eh \<longleftrightarrow> e_ident eh ! 0 = 0x7f \<and> e_ident eh ! 1 = of_char CHR ''E'' \<and> e_ident eh ! 2 = of_char CHR ''L'' \<and>
     e_ident eh ! 3 = of_char CHR ''F''"

definition IsRVElf32 :: "'w Elf_Ehdr \<Rightarrow> bool" where
  "IsRVElf32 eh \<longleftrightarrow> IsElf eh \<and> e_ident eh ! 4 = 1"

definition IsRVElf64 :: "'w Elf_Ehdr \<Rightarrow> bool" where
  "IsRVElf64 eh \<longleftrightarrow> IsElf eh \<and> e_ident eh ! 4 = 2"

definition IsRVLittle :: "'w Elf_Ehdr \<Rightarrow> bool" where
  "IsRVLittle eh \<longleftrightarrow> IsElf eh \<and> e_ident eh ! 5 = 1"

definition IsRVBig :: "'w Elf_Ehdr \<Rightarrow> bool" where
  "IsRVBig eh \<longleftrightarrow> IsElf eh \<and> e_ident eh ! 5 = 2"

text \<open>
  The file is an argument: \<open>None\<close> when it cannot be opened, so that \<open>fstat\<close> fails. A file of no bytes cannot be
  mapped. The final fence does nothing without a controller.
\<close>

definition LoadElf :: "u8 list option \<Rightarrow> RevLoader \<Rightarrow> RevMem \<Rightarrow> (RevLoader \<times> RevMem) res" where
  "LoadElf file ldr M =
     (case file of
        None \<Rightarrow> Inl (Fatal_Loader ''failed to stat executable file'')
      | Some img \<Rightarrow>
          if img = [] then Inl (Fatal_Loader ''failed to map executable file'')
          else if length img < 64 then Inl (Fatal_Loader ''Elf header is unrecognizable'')
          else
            let eh64 = Elf64_Ehdr (take 64 img) in
            if \<not> IsRVElf32 eh64 \<and> \<not> IsRVElf64 eh64 then
              Inl (Fatal_Loader ''Cannot determine Elf32 or Elf64 from header'')
            else if \<not> IsRVLittle eh64 then Inl (Fatal_Loader ''Not in little endian format'')
            else bind_res (if IsRVElf32 eh64 then LoadElf32 img ldr M else LoadElf64 img ldr M)
                   (\<lambda>(ldr1, M1). LoadProgramArgs ldr1 M1))"

definition new_RevLoader :: "string \<Rightarrow> string \<Rightarrow> u8 list option \<Rightarrow> ElfInfo \<Rightarrow> RevMem \<Rightarrow> (RevLoader \<times> RevMem) res" where
  "new_RevLoader Exe Args file junk M =
     LoadElf file \<lparr>l_exe = Exe, l_args = Args, RV32Entry = 0, RV64Entry = 0, elfinfo = junk, symtable = Map.empty,
       l_argv = []\<rparr> M"

definition GetSymbolAddr :: "RevLoader \<Rightarrow> string \<Rightarrow> u64" where
  "GetSymbolAddr ldr s = (case symtable ldr s of None \<Rightarrow> 0 | Some a \<Rightarrow> a)"

end
