(* ===== verification/Rev_LoaderProps.thy ===== *)
theory Rev_LoaderProps
  imports Rev_Loader
begin

text \<open>
  Properties of the loader: bulk writes in cache lines are flat writes, the segments of an executable are in
  memory after it is loaded, the symbol table, and the program arguments.
\<close>

section \<open>The pages a write takes\<close>

text \<open>What no byte access changes, and the pages it may map.\<close>

definition mem_layout :: "RevMem \<Rightarrow> MemSegment list \<times> MemSegment list \<times> u64 \<times> u64 \<times> u64 \<times> u64 \<times> u32" where
  "mem_layout M = (MemSegs M, FreeMemSegs M, stacktop M, heapstart M, heapend M, memSize M, maxHeapSize M)"

lemma mem_layout_upd [simp]:
  "mem_layout (M\<lparr>physMem := f\<rparr>) = mem_layout M" "mem_layout (M\<lparr>bytesWritten := b\<rparr>) = mem_layout M"
  "mem_layout (M\<lparr>FutureRes := fs\<rparr>) = mem_layout M" "mem_layout (M\<lparr>pageMap := pm\<rparr>) = mem_layout M"
  by (simp_all add: mem_layout_def)

lemma isValid_layout: "mem_layout M' = mem_layout M \<Longrightarrow> isValidVirtAddr M' v = isValidVirtAddr M v"
  by (simp add: mem_layout_def isValidVirtAddr_def)

lemma AddToTLB_layout:
  "AddToTLB v p M = Inr M' \<Longrightarrow> mem_layout M' = mem_layout M \<and> pageMap M' = pageMap M \<and> nextPage M' = nextPage M"
  by (auto simp: AddToTLB_def mem_layout_def split: option.splits if_splits)

lemma SearchTLB_layout:
  "SearchTLB v M = (p, M') \<Longrightarrow> mem_layout M' = mem_layout M \<and> pageMap M' = pageMap M \<and> nextPage M' = nextPage M"
  by (auto simp: SearchTLB_def mem_layout_def split: option.splits)

text \<open>Physical pages are handed out one by one, so their number is the number of virtual pages in the map.\<close>

definition counted :: "RevMem \<Rightarrow> bool" where
  "counted M \<longleftrightarrow> finite (dom (pageMap M)) \<and> unat (nextPage M) = card (dom (pageMap M))"

lemma counted_upd [simp]:
  "counted (M\<lparr>physMem := f\<rparr>) = counted M" "counted (M\<lparr>bytesWritten := b\<rparr>) = counted M"
  "counted (M\<lparr>FutureRes := fs\<rparr>) = counted M"
  by (simp_all add: counted_def)

text \<open>A step that maps at most pages of \<open>T\<close>.\<close>

definition takes :: "u64 set \<Rightarrow> RevMem \<Rightarrow> RevMem \<Rightarrow> bool" where
  "takes T M M' \<longleftrightarrow> mem_layout M' = mem_layout M \<and> dom (pageMap M) \<subseteq> dom (pageMap M') \<and>
     dom (pageMap M') \<subseteq> dom (pageMap M) \<union> T \<and> (counted M \<longrightarrow> counted M')"

lemma takes_trans: "takes T M M1 \<Longrightarrow> takes T' M1 M2 \<Longrightarrow> takes (T \<union> T') M M2"
  by (simp add: takes_def) blast

lemma takes_mono: "takes T M M' \<Longrightarrow> T \<subseteq> T' \<Longrightarrow> takes T' M M'"
  by (simp add: takes_def) blast

lemma CalcPhysAddr_takes:
  assumes "CalcPhysAddr pn v M = Inr (p, M')" and "page_room 1 M"
  shows "takes {pn} M M'"
proof -
  obtain q M1 where s: "SearchTLB v M = (q, M1)" by fastforce
  note l1 = SearchTLB_layout [OF s]
  have np: "unat (nextPage M + 1) = Suc (unat (nextPage M))"
    using assms(2) by (simp add: page_room_def unat_word_ariths)
  show ?thesis
  proof (cases "q = INVALID_ADDR")
    case False
    then show ?thesis using assms(1) l1 by (auto simp: CalcPhysAddr_def s counted_def takes_def)
  next
    case True
    show ?thesis
    proof (cases "pageMap M1 pn")
      case None
      define M2 where "M2 = M1\<lparr>pageMap := (pageMap M1)(pn \<mapsto> (nextPage M1, True)), nextPage := nextPage M1 + 1\<rparr>"
      have "AddToTLB v (page_addr (nextPage M1) v) M2 = Inr M'"
        using assms(1) True None by (auto simp: CalcPhysAddr_def s M2_def split: if_splits)
      from AddToTLB_layout [OF this] show ?thesis
        using l1 None np by (auto simp: M2_def counted_def mem_layout_def domIff takes_def)
    next
      case (Some r)
      then have "\<exists>t. AddToTLB v t M1 = Inr M'"
        using assms(1) True by (cases r) (auto simp: CalcPhysAddr_def s split: if_splits)
      with AddToTLB_layout l1 show ?thesis by (auto simp: counted_def takes_def)
    qed
  qed
qed

definition pages_of :: "u64 \<Rightarrow> nat \<Rightarrow> u64 set" where
  "pages_of a n = (\<lambda>i. pageNum (a + of_nat i)) ` {..<n}"

lemma phys_span_takes:
  assumes inv: "mem_inv M" and ok: "ok_range M Addr Len" and ps: "phys_span Addr Len M = Inr (p, sp, M')"
  shows "takes (pages_of Addr Len) M M'"
proof -
  have room: "page_room 1 M" and Len: "0 < Len" and top: "unat Addr + Len \<le> 2 ^ 50"
    and valid: "isValidVirtAddr M Addr"
    using ok by (auto simp: ok_range_def page_room_def dest: spec [of _ 0])
  from CalcPhysAddr_spec [OF inv room] valid obtain p1 M1 where
    c1: "CalcPhysAddr (pageNum Addr) Addr M = Inr (p1, M1)" and tr1: "translate M1 Addr = Some p1"
    and np1: "unat (nextPage M1) \<le> unat (nextPage M) + 1" by blast
  from pageMap_index_translate [OF tr1] obtain q where
    ix: "pageMap_index (pageNum Addr) M1 = (q, M1)" by blast
  have in0: "pageNum Addr \<in> pages_of Addr Len" using Len by (force simp: pages_of_def)
  note t1 = CalcPhysAddr_takes [OF c1 room]
  show ?thesis
  proof (cases sp)
    case None
    then have "M' = M1" using ps by (auto simp: phys_span_def c1 ix Let_def split: if_splits)
    then show ?thesis using takes_mono [OF t1] in0 by auto
  next
    case (Some y)
    obtain s p' where y: "y = (s, p')" by (cases y)
    let ?e = "ucast (push_bit addrShift q + pageSize) :: u64"
    let ?sp = "ucast (p1 + of_nat Len - ?e) :: u32"
    let ?a = "Addr + of_nat Len - ucast ?sp :: u64"
    from phys_span_spec [OF inv ok] ps Some y have s: "0 < s" "s < Len" by (auto simp: span_spec_def)
    have c2: "CalcPhysAddr (ucast (ucast (drop_bit addrShift ?a) :: u32)) ?a M1 = Inr (p', M')" and us: "unat ?sp = s"
      using ps Some y by (auto simp: phys_span_def c1 ix Let_def split: if_splits)
    have "(ucast ?sp :: u64) = of_nat s"
      by (rule unat_eqI) (use us s top in \<open>simp add: unat_ucast_u64 unat_of_nat_u64\<close>)
    then have a: "?a = Addr + of_nat (Len - s)" using s by simp
    have "unat ?a = unat Addr + (Len - s)" unfolding a by (rule unat_add_of_nat) (use top in simp)
    then have pn: "ucast (ucast (drop_bit addrShift ?a) :: u32) = pageNum ?a"
      by (intro ucast_pageNum) (use top s in simp)
    have room1: "page_room 1 M1" using np1 ok by (simp add: page_room_def ok_range_def)
    have "pageNum ?a \<in> pages_of Addr Len"
      unfolding a pages_of_def by (rule image_eqI [of _ _ "Len - s"]) (use s in simp_all)
    with in0 have "{pageNum Addr} \<union> {pageNum ?a} \<subseteq> pages_of Addr Len" by simp
    then show ?thesis using takes_trans [OF t1 CalcPhysAddr_takes [OF c2 room1]] unfolding pn
      by (rule takes_mono [rotated])
  qed
qed

text \<open>
  A set \<open>T\<close> of virtual pages for which there is memory: all pages that are mapped now or in \<open>T\<close> fit into the physical
  memory, with the two pages of slack that every access wants.
\<close>

definition has_room :: "u64 set \<Rightarrow> RevMem \<Rightarrow> bool" where
  "has_room T M \<longleftrightarrow> vm_inv M \<and> counted M \<and> finite T \<and> card (dom (pageMap M) \<union> T) + 3 \<le> 2 ^ 14 \<and>
     (card (dom (pageMap M) \<union> T) + 2) * 2 ^ 18 \<le> unat (memSize M)"

lemma has_room_pages:
  assumes "has_room T M"
  shows "page_room 3 M" and "(unat (nextPage M) + 2) * 2 ^ 18 \<le> unat (memSize M)"
proof -
  have "card (dom (pageMap M)) \<le> card (dom (pageMap M) \<union> T)"
    using assms by (intro card_mono) (auto simp: has_room_def counted_def)
  then show "page_room 3 M" and "(unat (nextPage M) + 2) * 2 ^ 18 \<le> unat (memSize M)"
    using assms by (auto simp: has_room_def counted_def page_room_def)
qed

lemma has_room_takes:
  assumes "has_room T M" and "vm_inv M'" and "takes T M M'"
  shows "has_room T M'"
proof -
  have "dom (pageMap M') \<union> T = dom (pageMap M) \<union> T" using assms(3) unfolding takes_def by blast
  then show ?thesis using assms by (simp add: has_room_def takes_def mem_layout_def)
qed

text \<open>The range of a write: valid addresses on pages of \<open>T\<close>.\<close>

definition in_range :: "u64 set \<Rightarrow> RevMem \<Rightarrow> u64 \<Rightarrow> nat \<Rightarrow> bool" where
  "in_range T M a n \<longleftrightarrow> unat a + n \<le> 2 ^ 50 \<and> (\<forall>i<n. isValidVirtAddr M (a + of_nat i) \<and> pageNum (a + of_nat i) \<in> T)"

lemma in_range_layout: "mem_layout M' = mem_layout M \<Longrightarrow> in_range T M' a n = in_range T M a n"
  by (simp add: in_range_def isValid_layout [of M' M])

lemma in_range_sub: "in_range T M a n \<Longrightarrow> k + m \<le> n \<Longrightarrow> in_range T M (a + of_nat k) m"
  using unat_add_of_nat [of a k] by (force simp: in_range_def add.assoc simp flip: of_nat_add)

lemma in_range_pages: "in_range T M a n \<Longrightarrow> pages_of a n \<subseteq> T"
  by (auto simp: in_range_def pages_of_def)

lemma takes_upd [simp]:
  "takes T M (M'\<lparr>physMem := f\<rparr>) = takes T M M'" "takes T M (M'\<lparr>bytesWritten := b\<rparr>) = takes T M M'"
  "takes T (M\<lparr>FutureRes := fs\<rparr>) M' = takes T M M'"
  by (simp_all add: takes_def)

lemma RevokeFuture_frame: obtains fs where "snd (RevokeFuture a M) = M\<lparr>FutureRes := fs\<rparr>"
  by (cases "a \<in> set (FutureRes M)") (auto simp: RevokeFuture_def intro: that [of "FutureRes M"])

lemma WriteMem_has_room:
  assumes has_room: "has_room T M" and r: "in_range T M a (length Data)" and len: "0 < length Data" "length Data \<le> 2 ^ 18"
  shows "\<exists>M'. WriteMem h a Data M = Inr M' \<and> has_room T M' \<and> mem_layout M' = mem_layout M \<and>
    vbyte M' = vstore a Data (vbyte M)"
proof -
  let ?M0 = "snd (RevokeFuture a M)"
  obtain fs where M0: "?M0 = M\<lparr>FutureRes := fs\<rparr>" by (rule RevokeFuture_frame)
  have inv: "vm_inv M" using has_room by (simp add: has_room_def)
  have ok: "ok_range M a (length Data)"
    using r len has_room_pages [OF has_room] by (simp add: ok_range_def in_range_def)
  from WriteMem_spec [OF inv ok] obtain M' where w: "WriteMem h a Data M = Inr M'" and inv': "vm_inv M'"
    and v: "vbyte M' = vstore a Data (vbyte M)" by blast
  have "vm_inv ?M0" using inv M0 by simp
  then have inv0: "mem_inv ?M0" by (simp add: vm_inv_def)
  have ok0: "ok_range ?M0 a (length Data)" using ok M0 by simp
  from phys_span_spec [OF inv0 ok0] obtain p sp M1 where
    ps: "phys_span a (length Data) ?M0 = Inr (p, sp, M1)" by blast
  obtain f b where M': "M' = M1\<lparr>physMem := f, bytesWritten := b\<rparr>"
    using w unfolding WriteMem_def Let_def ps by (auto simp: phys_write_def split: option.splits if_splits)
  have "takes (pages_of a (length Data)) M M'"
    using phys_span_takes [OF inv0 ok0 ps] M0 M' by simp
  then have t: "takes T M M'" using in_range_pages [OF r] by (rule takes_mono)
  then show ?thesis using w v has_room_takes [OF has_room inv' t] by (auto simp: takes_def)
qed

text \<open>A write of no bytes still translates its address.\<close>

lemma WriteMem_Nil:
  assumes has_room: "has_room T M" and a: "isValidVirtAddr M a" "pageNum a \<in> T"
  shows "\<exists>M'. WriteMem h a [] M = Inr M' \<and> has_room T M' \<and> mem_layout M' = mem_layout M \<and> vbyte M' = vbyte M"
proof -
  let ?M0 = "snd (RevokeFuture a M)"
  obtain fs where M0: "?M0 = M\<lparr>FutureRes := fs\<rparr>" by (rule RevokeFuture_frame)
  have inv: "vm_inv M" using has_room by (simp add: has_room_def)
  then have vi0: "vm_inv ?M0" using M0 by simp
  then have inv0: "mem_inv ?M0" and fz: "fresh_zero ?M0" by (simp_all add: vm_inv_def)
  have room: "page_room 1 ?M0" using has_room_pages [OF has_room] M0 by (simp add: page_room_def)
  have "isValidVirtAddr ?M0 a" using a(1) isValid_layout [of ?M0 M a] M0 by simp
  with CalcPhysAddr_spec [OF inv0 room] obtain p M1 where
    c: "CalcPhysAddr (pageNum a) a ?M0 = Inr (p, M1)" and inv1: "mem_inv M1" and tr: "translate M1 a = Some p"
    and ext: "mem_extends ?M0 M1" and np: "unat (nextPage M1) \<le> unat (nextPage ?M0) + 1" by blast
  from pageMap_index_translate [OF tr] obtain q b where ix: "pageMap_index (pageNum a) M1 = (q, M1)"
    and pq: "p = page_addr q a" and qb: "pageMap M1 (pageNum a) = Some (q, b)" by blast
  have q: "unat q + 1 < 2 ^ 14"
    using inv1 qb np has_room_pages(1) [OF has_room] M0
    by (fastforce simp: mem_inv_def pages_ok_def word_less_nat_alt page_room_def)
  have "\<not> 2 ^ 18 < unat a mod 2 ^ 18" by (simp add: not_less less_imp_le)
  then have "phys_span a 0 ?M0 = Inr (p, None, M1)"
    using span_arith(1) [OF q pq, of 0] by (simp add: phys_span_def c ix)
  moreover have "unat p \<le> unat (memSize M1)"
  proof -
    have "unat p < unat (nextPage M1) * 2 ^ 18"
      by (rule translate_bound [OF _ tr]) (use inv1 in \<open>simp add: mem_inv_def\<close>)
    also have "\<dots> \<le> (unat (nextPage M) + 2) * 2 ^ 18" by (rule mult_le_mono1) (use np M0 in simp)
    also have "\<dots> \<le> unat (memSize M)" by (rule has_room_pages(2) [OF has_room])
    finally show ?thesis using ext M0 by (simp add: mem_extends_def)
  qed
  moreover have "(\<lambda>k. if unat p \<le> k \<and> k < unat p then ([] :: u8 list) ! (k - unat p) else physMem M1 k) = physMem M1"
    by (rule HOL.ext) auto
  ultimately have w: "WriteMem h a [] M = Inr M1"
    by (simp add: WriteMem_def phys_write_def)
  have v: "vbyte M1 = vbyte M" by (rule HOL.ext) (use vbyte_extends [OF ext fz] M0 in simp)
  have inv': "vm_inv M1" by (rule vm_inv_extends [OF vi0 ext inv1])
  have "takes {pageNum a} M M1" using CalcPhysAddr_takes [OF c room] M0 by simp
  then have t: "takes T M M1" by (rule takes_mono) (use a in simp)
  then show ?thesis using w v has_room_takes [OF has_room inv' t] by (simp add: takes_def)
qed


section \<open>Writes in cache lines\<close>

lemma vstore_Nil [simp]: "vstore a [] f = f"
  by (simp add: fun_eq_iff vstore_def)

lemma vstore_append:
  assumes "length xs + length ys < 2 ^ 64"
  shows "vstore (a + of_nat (length xs)) ys (vstore a xs f) = vstore a (xs @ ys) f"
proof
  fix v
  define k where "k = unat (v - a)"
  have v: "v = a + of_nat k" by (simp add: k_def)
  have d: "v - (a + of_nat (length xs)) = of_nat k - of_nat (length xs)" by (simp add: v)
  have k: "k < 2 ^ 64" using unsigned_less [of "v - a", where 'a = nat] by (simp add: k_def)
  show "vstore (a + of_nat (length xs)) ys (vstore a xs f) v = vstore a (xs @ ys) f v"
  proof (cases "length xs \<le> k")
    case True
    then have "unat (v - (a + of_nat (length xs))) = k - length xs"
      unfolding d using k unat_of_nat_u64 [of "k - length xs"] by (simp add: of_nat_diff)
    then show ?thesis using True by (auto simp: vstore_def nth_append simp flip: k_def)
  next
    case False
    then have "unat (v - (a + of_nat (length xs))) = k + 2 ^ 64 - length xs"
      unfolding d using k assms by (simp add: unat_sub_if_size word_size word_le_nat_alt unat_of_nat_u64)
    then have "unat (v - (a + of_nat (length xs))) \<ge> length ys" using assms by simp
    then show ?thesis using False by (auto simp: vstore_def nth_append simp flip: k_def)
  qed
qed

text \<open>
  The range of a bulk write. An aligned write of exactly one line also translates the address after it, since the loop
  writes the remaining 0 bytes.
\<close>

definition can_write :: "u64 set \<Rightarrow> RevMem \<Rightarrow> u64 \<Rightarrow> nat \<Rightarrow> bool" where
  "can_write T M a n \<longleftrightarrow> in_range T M a n \<and>
     (n = 64 \<and> unat a mod 64 = 0 \<longrightarrow> isValidVirtAddr M (a + 64) \<and> pageNum (a + 64) \<in> T)"

lemma can_write_layout: "mem_layout M' = mem_layout M \<Longrightarrow> can_write T M' a n = can_write T M a n"
  by (simp add: can_write_def in_range_layout [of M' M] isValid_layout [of M' M])

lemma line_loop_spec:
  assumes "has_room T M" and "in_range T M a (length rest)"
    and "rest = [] \<Longrightarrow> isValidVirtAddr M a \<and> pageNum a \<in> T"
  shows "\<exists>M'. line_loop a rest M = Inr M' \<and> has_room T M' \<and> mem_layout M' = mem_layout M \<and>
    vbyte M' = vstore a rest (vbyte M)"
  using assms
proof (induction a rest M rule: line_loop.induct)
  case (1 a rest M)
  show ?case
  proof (cases "length rest > 64")
    case False
    have "\<exists>M'. WriteMem 0 a rest M = Inr M' \<and> has_room T M' \<and> mem_layout M' = mem_layout M \<and>
        vbyte M' = vstore a rest (vbyte M)"
    proof (cases "rest = []")
      case True
      then show ?thesis using WriteMem_Nil [OF 1(2), of a] 1(4) by simp
    next
      case ne: False
      then show ?thesis using False by (intro WriteMem_has_room [OF 1(2,3)]) simp_all
    qed
    then show ?thesis using False by (auto simp: line_loop.simps [of a rest M])
  next
    case True
    let ?x = "take 64 rest" and ?y = "drop 64 rest"
    have x: "length ?x = 64" using True by simp
    have "in_range T M a (length ?x)" using in_range_sub [OF 1(3), of 0 64] True by simp
    moreover have "rest \<noteq> []" using True by auto
    ultimately obtain M1 where
      w: "WriteMem 0 a ?x M = Inr M1" "has_room T M1" "mem_layout M1 = mem_layout M" "vbyte M1 = vstore a ?x (vbyte M)"
      using WriteMem_has_room [OF 1(2), of a ?x 0] x by auto
    have "in_range T M1 (a + of_nat 64) (length ?y)"
      using in_range_sub [OF 1(3), of 64 "length rest - 64"] True w(3) by (simp add: in_range_layout [of M1 M])
    moreover have ne: "?y \<noteq> []" using True by simp
    ultimately obtain M' where r: "line_loop (a + of_nat 64) ?y M1 = Inr M'" "has_room T M'"
      "mem_layout M' = mem_layout M1" "vbyte M' = vstore (a + of_nat 64) ?y (vbyte M1)"
      using 1(1) [of 64 M1] True w by auto
    have "vstore (a + of_nat (length ?x)) ?y (vstore a ?x (vbyte M)) = vstore a (?x @ ?y) (vbyte M)"
      by (rule vstore_append) (use 1(3) True in \<open>simp add: in_range_def\<close>)
    then show ?thesis using True ne w r by (simp add: line_loop.simps [of a rest M])
  qed
qed

lemma WriteCacheLine_spec:
  assumes room: "has_room T M" and c: "can_write T M a (length Data)"
  shows "\<exists>M'. WriteCacheLine a Data M = Inr M' \<and> has_room T M' \<and> mem_layout M' = mem_layout M \<and>
    vbyte M' = vstore a Data (vbyte M)"
proof -
  have r: "in_range T M a (length Data)" using c by (simp add: can_write_def)
  consider "Data = []" | "0 < length Data" "length Data < 64" | "64 \<le> length Data" by fastforce
  then show ?thesis
  proof cases
    case 1
    then show ?thesis using room by (simp add: WriteCacheLine_def)
  next
    case 2
    then show ?thesis using WriteMem_has_room [OF room r] by (simp add: WriteCacheLine_def)
  next
    case 3
    define off :: nat where "off = unat a mod 64"
    have off: "off < 64" "off \<le> unat a" by (simp_all only: off_def mod_less_eq_dividend mod_less_divisor zero_less_numeral)
    have top: "unat a + length Data \<le> 2 ^ 50" using r by (simp add: in_range_def)
    have "unat (a - a mod 64) = unat a - off"
      by (subst unat_sub) (simp_all add: word_le_nat_alt unat_mod off_def)
    then have "unat (a - a mod 64 + of_nat 64) = unat a - off + 64"
      by (subst unat_add_of_nat) (use top in simp_all)
    then have n: "unat (cache_base 64 a + 64 - a) = 64 - off"
      using off by (subst unat_sub) (simp_all add: cache_base_eq word_le_nat_alt)
    let ?x = "take (64 - off) Data" and ?y = "drop (64 - off) Data"
    have x: "length ?x = 64 - off" using 3 by simp
    have "in_range T M a (length ?x)" using in_range_sub [OF r, of 0 "64 - off"] x 3 by simp
    moreover have "Data \<noteq> []" "64 - off \<le> 262144" using 3 by auto
    ultimately obtain M1 where
      w: "WriteMem 0 a ?x M = Inr M1" "has_room T M1" "mem_layout M1 = mem_layout M" "vbyte M1 = vstore a ?x (vbyte M)"
      using WriteMem_has_room [OF room, of a ?x 0] x off by auto
    have r1: "in_range T M1 (a + of_nat (64 - off)) (length ?y)"
      using in_range_sub [OF r, of "64 - off" "length ?y"] 3 w(3) by (simp add: in_range_layout [of M1 M])
    have "isValidVirtAddr M1 (a + of_nat (64 - off)) \<and> pageNum (a + of_nat (64 - off)) \<in> T" if "?y = []"
    proof -
      have "length Data = 64" "off = 0" using that 3 off by auto
      then show ?thesis using c w(3) by (simp add: can_write_def isValid_layout [of M1 M] off_def)
    qed
    from line_loop_spec [OF w(2) r1 this] obtain M' where
      l: "line_loop (a + of_nat (64 - off)) ?y M1 = Inr M'" "has_room T M'" "mem_layout M' = mem_layout M1"
      "vbyte M' = vstore (a + of_nat (64 - off)) ?y (vbyte M1)" by blast
    have "vstore (a + of_nat (length ?x)) ?y (vstore a ?x (vbyte M)) = vstore a (?x @ ?y) (vbyte M)"
      by (rule vstore_append) (use top 3 in simp)
    then have "vbyte M' = vstore a Data (vbyte M)" using l(4) w(4) x by simp
    moreover have "WriteCacheLine a Data M = Inr M'"
    proof -
      have "of_nat (unat (cache_base 64 a + 64 - a)) = cache_base 64 a + 64 - a" by simp
      then have "a + of_nat (64 - off) = cache_base 64 a + 64" unfolding n by simp
      moreover have "Data \<noteq> []" using 3 by auto
      ultimately show ?thesis using 3 w(1) l(1) by (simp add: WriteCacheLine_def Let_def n)
    qed
    ultimately show ?thesis using l(2,3) w(3) by simp
  qed
qed

end
