(* ===== verification/Rev_LoaderElf.thy ===== *)
theory Rev_LoaderElf
  imports Rev_LoaderProps
begin

text \<open>
  Loading an executable: what a well-formed file is, and that loading it puts its segments into memory, fills the
  symbol table and sets up the heap.
\<close>

section \<open>Static segments\<close>

lemma expand_seg_wf:
  assumes "expand_seg base tp ss = Some (b, ss')" and "list_all seg_wf ss"
    and "\<forall>s\<in>set ss. seg_contains s tp \<longrightarrow> seg_contains s base" and le: "unat base \<le> unat tp"
  shows "list_all seg_wf ss' \<and> BaseAddr ` set ss' = BaseAddr ` set ss"
  using assms(1-3)
proof (induction ss arbitrary: ss')
  case (Cons s ss)
  have wf: "seg_wf s" using Cons.prems(2) by simp
  show ?case
  proof (cases "seg_contains s base")
    case base: True
    show ?thesis
    proof (cases "seg_contains s tp")
      case True
      then show ?thesis using Cons.prems base by auto
    next
      case False
      let ?s = "setSize (Size s + (tp - getTopAddr s)) s"
      have b: "unat (BaseAddr s) < unat tp"
        using base False le by (auto simp: seg_contains_wf [OF wf] in_block_def)
      have z: "Size s + (tp - getTopAddr s) = tp - BaseAddr s" by (simp add: getTopAddr_def)
      have u: "unat (tp - BaseAddr s) = unat tp - unat (BaseAddr s)"
        using b by (intro unat_sub) (simp add: word_le_nat_alt)
      have "unat tp < 2 ^ 64" using unsigned_less [of tp] by simp
      then have "seg_wf ?s" using b u unfolding z by (simp add: seg_wf_def setSize_def word_less_nat_alt)
      moreover have "BaseAddr ?s = BaseAddr s" by (simp add: setSize_def)
      moreover have "ss' = ?s # ss" using Cons.prems(1) base False by (simp add: Let_def)
      ultimately show ?thesis using Cons.prems(2) by simp
    qed
  next
    case False
    then obtain ss2 where "ss' = s # ss2" "expand_seg base tp ss = Some (b, ss2)"
      using Cons.prems(1,3) by (auto split: if_splits)
    with Cons.IH [of ss2] Cons.prems(2,3) show ?thesis by auto
  qed
qed simp

text \<open>
  The order in which segments may be added: none starts below an earlier one and ends inside of it. \<open>bs\<close> holds the first
  addresses of the segments so far.
\<close>

fun upward :: "u64 list \<Rightarrow> (u64 \<times> u64) list \<Rightarrow> bool" where
  "upward bs [] = True"
| "upward bs ((a, n) # xs) =
     (list_all (\<lambda>b. \<not> (a < b \<and> b \<le> a + rounded_size n 4096)) bs \<and> upward (a # bs) xs)"

definition placed :: "u64 list \<Rightarrow> RevMem \<Rightarrow> bool" where
  "placed bs M \<longleftrightarrow> list_all seg_wf (MemSegs M) \<and> BaseAddr ` set (MemSegs M) \<subseteq> set bs"

lemma AddRoundedMemSeg_placed:
  assumes pl: "placed bs M" and n: "0 < n" and bnd: "unat base + unat n + 4096 < 2 ^ 64"
    and up: "list_all (\<lambda>b. \<not> (base < b \<and> b \<le> base + rounded_size n 4096)) bs"
  shows "\<exists>b ss. AddRoundedMemSeg base n 4096 M = Inr (b, M\<lparr>MemSegs := ss\<rparr>) \<and> placed (base # bs) (M\<lparr>MemSegs := ss\<rparr>) \<and>
    allocated M \<union> block base (rounded_size n 4096) \<subseteq> allocated (M\<lparr>MemSegs := ss\<rparr>)"
proof -
  let ?m = "rounded_size n 4096" and ?t = "base + rounded_size n 4096"
  note rb = rounded_size_bounds [of 4096 n]
  have m: "unat base + unat ?m < 2 ^ 64" "0 < ?m" using rb bnd n by (auto simp: word_less_nat_alt)
  have t: "unat ?t = unat base + unat ?m" using m(1) by (rule unat_add_small)
  have wf: "list_all seg_wf (MemSegs M)" using pl by (simp add: placed_def)
  have dn: "\<forall>s\<in>set (MemSegs M). seg_contains s ?t \<longrightarrow> seg_contains s base"
  proof (intro ballI impI)
    fix s assume s: "s \<in> set (MemSegs M)" and c: "seg_contains s ?t"
    have ws: "seg_wf s" using wf s by (simp add: list_all_iff)
    have "BaseAddr s \<in> set bs" using pl s by (auto simp: placed_def)
    then have "\<not> (base < BaseAddr s \<and> BaseAddr s \<le> ?t)" using up by (simp add: list_all_iff)
    then have "unat (BaseAddr s) \<le> unat base"
      using c by (auto simp: seg_contains_def word_le_nat_alt word_less_nat_alt)
    then show "seg_contains s base" using c t unfolding seg_contains_wf [OF ws] in_block_def by linarith
  qed
  have le: "unat base \<le> unat ?t" using t by simp
  have "\<exists>b ss. AddRoundedMemSeg base n 4096 M = Inr (b, M\<lparr>MemSegs := ss\<rparr>) \<and> placed (base # bs) (M\<lparr>MemSegs := ss\<rparr>)"
  proof (cases "expand_seg base ?t (MemSegs M)")
    case None
    then show ?thesis using m pl seg_wf_new [OF m(2,1)]
      by (intro exI [of _ base] exI [of _ "MemSegs M @ [new_MemSegment base ?m]"])
        (auto simp: AddRoundedMemSeg_def Let_def placed_def new_MemSegment_def)
  next
    case (Some p)
    obtain b ss where p: "p = (b, ss)" by (cases p)
    from expand_seg_wf [OF Some [unfolded p] wf dn le] show ?thesis
      using Some p pl by (auto simp: AddRoundedMemSeg_def Let_def placed_def)
  qed
  moreover have "\<exists>b M'. AddRoundedMemSeg base n 4096 M = Inr (b, M') \<and> block base ?m \<subseteq> allocated M' \<and> allocated M \<subseteq> allocated M'"
    using AddRoundedMemSeg_correct [OF wf, of base n 4096] bnd n dn by auto
  ultimately show ?thesis by auto
qed

lemma has_room_upd [simp]:
  "has_room T (M\<lparr>MemSegs := ss\<rparr>) = has_room T M" "has_room T (M\<lparr>stacktop := sp\<rparr>) = has_room T M"
  "vbyte (M\<lparr>MemSegs := ss\<rparr>) = vbyte M" "vbyte (M\<lparr>stacktop := sp\<rparr>) = vbyte M"
proof -
  have "translate (M\<lparr>MemSegs := ss\<rparr>) = translate M" "translate (M\<lparr>stacktop := sp\<rparr>) = translate M"
    by (simp_all add: fun_eq_iff translate_def)
  then show "has_room T (M\<lparr>MemSegs := ss\<rparr>) = has_room T M" "has_room T (M\<lparr>stacktop := sp\<rparr>) = has_room T M"
    "vbyte (M\<lparr>MemSegs := ss\<rparr>) = vbyte M" "vbyte (M\<lparr>stacktop := sp\<rparr>) = vbyte M"
    by (auto simp: has_room_def counted_def vm_inv_def mem_inv_def fresh_zero_def tlb_ok_def tlb_coherent_def pages_ok_def
        vbyte_def fun_eq_iff split: option.split)
qed

text \<open>A program header that lies in the file and whose addresses do not wrap around.\<close>

definition ph_ok :: "u8 list \<Rightarrow> 'w::len Elf_Phdr \<Rightarrow> bool" where
  "ph_ok img ph \<longleftrightarrow> unat (p_offset ph) + unat (p_filesz ph) \<le> length img \<and>
     unat (p_paddr ph) + unat (p_memsz ph) + 4096 < 2 ^ 50 \<and>
     unat (p_paddr ph) + unat (p_memsz ph) < 2 ^ LENGTH('w)"

definition ph_base :: "'w::len Elf_Phdr \<Rightarrow> u64" where
  "ph_base ph = ucast (p_paddr ph)"

definition ph_range :: "'w::len Elf_Phdr \<Rightarrow> u64 set" where
  "ph_range ph = block (ph_base ph) (rounded_size (ucast (p_memsz ph)) 4096)"

definition seg_list :: "'w::len Elf_Phdr list \<Rightarrow> (u64 \<times> u64) list" where
  "seg_list phs = map (\<lambda>ph. (ph_base ph, ucast (p_memsz ph))) (filter (\<lambda>ph. p_memsz ph \<noteq> 0) phs)"

lemma unat_ucast_up:
  assumes "LENGTH('w::len) \<le> LENGTH('v::len)"
  shows "unat (ucast (x :: 'w word) :: 'v word) = unat x"
proof -
  have "unat x < 2 ^ LENGTH('v)"
    using unsigned_less [of x, where 'a = nat] assms by (meson less_le_trans one_le_numeral power_increasing)
  then show ?thesis by (simp add: unsigned_ucast_eq take_bit_nat_eq_self_iff)
qed

lemma in_file_iff:
  fixes off n :: "'w::len word"
  assumes "LENGTH('w) \<le> 64" and "length img < 2 ^ LENGTH('w)" and "unat off + unat n \<le> length img"
  shows "in_file off n img"
proof -
  have "unat (off + n) = unat off + unat n" using assms by (simp add: unat_word_ariths)
  then have "unat (ucast (off + n) :: u64) \<le> length img" using assms by (simp add: unat_ucast_up)
  moreover have "length img < 2 ^ 64"
    using assms(1,2) by (meson less_le_trans one_le_numeral power_increasing)
  ultimately show ?thesis
    by (simp add: in_file_def file_size_def word_less_nat_alt unat_of_nat_u64)
qed

lemma add_segments_spec:
  fixes phs :: "'w::len Elf_Phdr list"
  assumes L: "LENGTH('w) \<le> 64" "length img < 2 ^ LENGTH('w)"
  shows "\<forall>ph\<in>set phs. ph_ok img ph \<Longrightarrow> upward bs (seg_list phs) \<Longrightarrow> placed bs M \<Longrightarrow>
    \<exists>ss. run_ops (add_segment img) phs M = Inr (M\<lparr>MemSegs := ss\<rparr>) \<and>
      allocated M \<subseteq> allocated (M\<lparr>MemSegs := ss\<rparr>) \<and>
      (\<forall>ph\<in>set phs. p_memsz ph \<noteq> 0 \<longrightarrow> ph_range ph \<subseteq> allocated (M\<lparr>MemSegs := ss\<rparr>))"
proof (induction phs arbitrary: bs M)
  case Nil
  have "M\<lparr>MemSegs := MemSegs M\<rparr> = M" by simp
  then show ?case by (intro exI [of _ "MemSegs M"]) simp
next
  case (Cons ph phs)
  have ok: "ph_ok img ph" using Cons.prems by simp
  then have inf: "in_file (p_offset ph) (p_filesz ph) img" by (intro in_file_iff [OF L]) (simp add: ph_ok_def)
  show ?case
  proof (cases "p_memsz ph = 0")
    case True
    then show ?thesis using Cons.IH [of bs M] Cons.prems inf by (auto simp: add_segment_def seg_list_def)
  next
    case False
    let ?n = "ucast (p_memsz ph) :: u64"
    have un: "unat ?n = unat (p_memsz ph)" "unat (ph_base ph) = unat (p_paddr ph)"
      using L by (simp_all add: ph_base_def unat_ucast_up)
    have "0 < unat (p_memsz ph)" using False by (simp add: unat_gt_0)
    then have n: "0 < ?n" by (simp add: word_less_nat_alt un)
    have up: "list_all (\<lambda>b. \<not> (ph_base ph < b \<and> b \<le> ph_base ph + rounded_size ?n 4096)) bs"
      "upward (ph_base ph # bs) (seg_list phs)"
      using Cons.prems(2) False by (simp_all add: seg_list_def)
    have "unat (ph_base ph) + unat ?n + 4096 < 2 ^ 64" using un ok by (simp add: ph_ok_def)
    from AddRoundedMemSeg_placed [OF Cons.prems(3) n this up(1)] obtain b ss where
      a: "AddRoundedMemSeg (ph_base ph) ?n 4096 M = Inr (b, M\<lparr>MemSegs := ss\<rparr>)"
      and pl: "placed (ph_base ph # bs) (M\<lparr>MemSegs := ss\<rparr>)"
      and al: "allocated M \<union> ph_range ph \<subseteq> allocated (M\<lparr>MemSegs := ss\<rparr>)"
      unfolding ph_range_def by blast
    from Cons.IH [OF _ up(2) pl] Cons.prems(1) obtain ss' where
      r: "run_ops (add_segment img) phs (M\<lparr>MemSegs := ss\<rparr>) = Inr (M\<lparr>MemSegs := ss'\<rparr>)"
      and "allocated (M\<lparr>MemSegs := ss\<rparr>) \<subseteq> allocated (M\<lparr>MemSegs := ss'\<rparr>)"
      and "\<forall>ph\<in>set phs. p_memsz ph \<noteq> 0 \<longrightarrow> ph_range ph \<subseteq> allocated (M\<lparr>MemSegs := ss'\<rparr>)" by auto
    moreover have "add_segment img ph M = Inr (M\<lparr>MemSegs := ss\<rparr>)"
      using a inf False by (simp add: add_segment_def ph_base_def)
    ultimately show ?thesis using al by (intro exI [of _ ss']) auto
  qed
qed

lemma allocated_valid: "v \<in> allocated M \<Longrightarrow> isValidVirtAddr M v"
proof -
  assume "v \<in> allocated M"
  then have "\<exists>s\<in>set (MemSegs M). seg_contains s v"
    by (auto simp: allocated_def cover_def filter_empty_conv)
  then show ?thesis by (simp add: isValidVirtAddr_def)
qed


section \<open>Contents of the segments\<close>

definition is_load :: "'w::len Elf_Phdr \<Rightarrow> bool" where
  "is_load ph \<longleftrightarrow> p_type ph = 1 \<and> p_memsz ph \<noteq> 0"

definition seg_bytes :: "u8 list \<Rightarrow> 'w::len Elf_Phdr \<Rightarrow> u8 list" where
  "seg_bytes img ph = take (unat (p_filesz ph)) (drop (unat (p_offset ph)) img) @
     replicate (unat (p_memsz ph) - unat (p_filesz ph)) 0"

definition seg_store :: "u8 list \<Rightarrow> 'w::len Elf_Phdr \<Rightarrow> (u64 \<Rightarrow> u8) \<Rightarrow> u64 \<Rightarrow> u8" where
  "seg_store img ph f = (if is_load ph then vstore (ph_base ph) (seg_bytes img ph) f else f)"

text \<open>
  A segment that can be loaded. In a well-formed file it does not have more bytes in the file than in memory. The second
  condition is not one of ELF files but of this loader: \<open>WriteCacheLine\<close> ends an aligned write of exactly one line of 64
  bytes with a write of 0 bytes behind it, so a segment of whole pages whose zeros are exactly its last cache line
  (\<open>line_tail\<close>) stops the simulation with a segmentation fault when no valid memory follows it.
\<close>

definition line_tail :: "'w::len Elf_Phdr \<Rightarrow> bool" where
  "line_tail ph \<longleftrightarrow> unat (p_memsz ph) mod 4096 = 0 \<and> unat (p_memsz ph) = unat (p_filesz ph) + 64 \<and>
     (unat (p_paddr ph) + unat (p_filesz ph)) mod 64 = 0"

definition load_ok :: "'w::len Elf_Phdr \<Rightarrow> bool" where
  "load_ok ph \<longleftrightarrow> unat (p_filesz ph) \<le> unat (p_memsz ph) \<and> \<not> line_tail ph"

definition seg_ok :: "u8 list \<Rightarrow> 'w::len Elf_Phdr \<Rightarrow> bool" where
  "seg_ok img ph \<longleftrightarrow> ph_ok img ph \<and> (is_load ph \<longrightarrow> load_ok ph)"

lemma length_slice: "p + n \<le> length img \<Longrightarrow> length (take n (drop p img)) = n"
  by (auto simp: min_def)

lemma length_seg_bytes: "ph_ok img ph \<Longrightarrow> load_ok ph \<Longrightarrow> length (seg_bytes img ph) = unat (p_memsz ph)"
  using length_slice [of "unat (p_offset ph)" "unat (p_filesz ph)" img]
  by (simp add: seg_bytes_def ph_ok_def load_ok_def)

lemma load_segment_spec:
  fixes ph :: "'w::len Elf_Phdr"
  assumes L: "LENGTH('w) \<le> 64" "length img < 2 ^ LENGTH('w)"
    and so: "seg_ok img ph" and room: "has_room T M"
    and v: "is_load ph \<Longrightarrow> \<forall>v\<in>ph_range ph. isValidVirtAddr M v \<and> pageNum v \<in> T"
  shows "\<exists>M'. load_segment img ph M = Inr M' \<and> has_room T M' \<and> mem_layout M' = mem_layout M \<and>
    vbyte M' = seg_store img ph (vbyte M)"
proof (cases "is_load ph")
  case True
  then have ok: "ph_ok img ph" "load_ok ph" using so by (simp_all add: seg_ok_def)
  let ?f = "unat (p_filesz ph)" and ?m = "unat (p_memsz ph)" and ?a = "ph_base ph"
  let ?n = "ucast (p_memsz ph) :: u64"
  let ?d = "take ?f (drop (unat (p_offset ph)) img)" and ?z = "replicate (?m - ?f) 0 :: u8 list"
  have fm: "?f \<le> ?m" and top: "unat (p_paddr ph) + ?m + 4096 < 2 ^ 50" and topw: "unat (p_paddr ph) + ?m < 2 ^ LENGTH('w)"
    using ok by (simp_all add: ph_ok_def load_ok_def)
  have ua: "unat ?a = unat (p_paddr ph)" and un: "unat ?n = ?m" using L by (simp_all add: ph_base_def unat_ucast_up)
  define r where "r = unat (rounded_size ?n 4096)"
  have r: "?m \<le> r" "r < ?m + 4096" "4096 dvd r"
    using rounded_size_bounds [of 4096 ?n] top by (simp_all add: un r_def)
  have m0: "0 < ?m" using True by (simp add: is_load_def unat_gt_0)
  then have r0: "4096 \<le> r" using r by (auto dest: dvd_imp_le)
  have inr: "isValidVirtAddr M (?a + of_nat i) \<and> pageNum (?a + of_nat i) \<in> T" if i: "i < r" for i
  proof -
    have "unat (?a + of_nat i) = unat ?a + i" by (rule unat_add_of_nat) (use i r ua top in simp)
    then have "?a + of_nat i \<in> ph_range ph" using i by (simp add: ph_range_def block_def in_block_def r_def)
    then show ?thesis using v True by blast
  qed
  have rng: "in_range T M (?a + of_nat k) n" if "k + n \<le> r" for k n
  proof -
    have "unat (?a + of_nat k) = unat ?a + k" by (rule unat_add_of_nat) (use that r ua top in simp)
    then show ?thesis using that inr r ua top by (auto simp: in_range_def add.assoc simp flip: of_nat_add)
  qed
  have cw: "can_write T M ?a ?f"
    using rng [of 0 ?f] inr [of 64] fm r r0 by (auto simp: can_write_def)
  have inf: "in_file (p_offset ph) (p_filesz ph) img" by (intro in_file_iff [OF L]) (use ok in \<open>simp add: ph_ok_def\<close>)
  have sl: "file_slice (unat (p_offset ph)) ?f img = Inr ?d" and ld: "length ?d = ?f"
    using ok length_slice by (auto simp: file_slice_def ph_ok_def)
  obtain M1 where w1: "(if p_filesz ph \<noteq> 0 then WriteCacheLine ?a ?d M else Inr M) = Inr M1" "has_room T M1"
    "mem_layout M1 = mem_layout M" "vbyte M1 = vstore ?a ?d (vbyte M)"
  proof (cases "p_filesz ph = 0")
    case True
    then show ?thesis using that [of M] room by simp
  next
    case False
    then show ?thesis using that WriteCacheLine_spec [OF room, of ?a ?d] cw ld by auto
  qed
  have a2: "ucast (p_paddr ph + p_filesz ph) = ?a + of_nat ?f"
  proof (rule unat_eqI)
    have "unat (?a + of_nat ?f) = unat ?a + ?f" by (rule unat_add_of_nat) (use fm ua top in simp)
    then show "unat (ucast (p_paddr ph + p_filesz ph) :: u64) = unat (?a + of_nat ?f)"
      using L fm topw ua by (simp add: unat_ucast_up unat_word_ariths)
  qed
  have u2: "unat (?a + of_nat ?f) = unat (p_paddr ph) + ?f"
    using unat_add_of_nat [of ?a ?f] fm ua top by simp
  have "can_write T M (?a + of_nat ?f) (length ?z)"
  proof -
    have "isValidVirtAddr M (?a + of_nat ?f + 64) \<and> pageNum (?a + of_nat ?f + 64) \<in> T"
      if c: "?m - ?f = 64" "(unat (p_paddr ph) + ?f) mod 64 = 0"
    proof -
      have "?m \<noteq> r" using ok(2) c r(3) by (auto simp: load_ok_def line_tail_def)
      then show ?thesis using inr [of "?f + 64"] r(1) c by (simp add: add.assoc)
    qed
    then show ?thesis using rng [of ?f "?m - ?f"] r fm u2 by (auto simp: can_write_def)
  qed
  then have "can_write T M1 (?a + of_nat ?f) (length ?z)" using w1(3) by (simp add: can_write_layout [of M1 M])
  from WriteCacheLine_spec [OF w1(2) this] obtain M2 where
    w2: "WriteCacheLine (?a + of_nat ?f) ?z M1 = Inr M2" "has_room T M2" "mem_layout M2 = mem_layout M1"
    "vbyte M2 = vstore (?a + of_nat ?f) ?z (vbyte M1)" by blast
  have "vstore (?a + of_nat (length ?d)) ?z (vstore ?a ?d (vbyte M)) = vstore ?a (?d @ ?z) (vbyte M)"
    by (rule vstore_append) (use ld top fm in simp)
  then have "vbyte M2 = seg_store img ph (vbyte M)"
    using True w1(4) w2(4) ld by (simp add: seg_store_def seg_bytes_def)
  moreover have "load_segment img ph M = Inr M2"
  proof -
    have "unat (p_memsz ph - p_filesz ph) = ?m - ?f" using fm by (intro unat_sub) (simp add: word_le_nat_alt)
    moreover have "\<not> ?m - ?f > 2 ^ 63 - 1" using top by simp
    ultimately show ?thesis using True w1(1) w2(1) inf sl
      by (cases "p_filesz ph = 0") (simp_all add: load_segment_def is_load_def a2 flip: ph_base_def)
  qed
  ultimately show ?thesis using w1(3) w2(2,3) by simp
next
  case False
  then have "load_segment img ph M = Inr M" by (auto simp: load_segment_def is_load_def)
  then show ?thesis using room False by (simp add: seg_store_def)
qed

lemma load_segments_spec:
  fixes phs :: "'w::len Elf_Phdr list"
  assumes L: "LENGTH('w) \<le> 64" "length img < 2 ^ LENGTH('w)"
  shows "\<forall>ph\<in>set phs. seg_ok img ph \<Longrightarrow> has_room T M \<Longrightarrow>
    \<forall>ph\<in>set phs. is_load ph \<longrightarrow> (\<forall>v\<in>ph_range ph. isValidVirtAddr M v \<and> pageNum v \<in> T) \<Longrightarrow>
    \<exists>M'. run_ops (load_segment img) phs M = Inr M' \<and> has_room T M' \<and> mem_layout M' = mem_layout M \<and>
      vbyte M' = fold (seg_store img) phs (vbyte M)"
proof (induction phs arbitrary: M)
  case (Cons ph phs)
  then obtain M1 where M1: "load_segment img ph M = Inr M1" "has_room T M1" "mem_layout M1 = mem_layout M"
    "vbyte M1 = seg_store img ph (vbyte M)"
    using load_segment_spec [OF L, of ph T M] by auto
  have "\<exists>M'. run_ops (load_segment img) phs M1 = Inr M' \<and> has_room T M' \<and> mem_layout M' = mem_layout M1 \<and>
      vbyte M' = fold (seg_store img) phs (vbyte M1)"
    by (rule Cons.IH) (use Cons.prems M1 in \<open>auto simp: isValid_layout [of M1 M]\<close>)
  then show ?case using M1 by auto
qed simp

text \<open>The addresses of a segment as numbers, and the contents of memory after all segments have been stored.\<close>

definition seg_span :: "'w::len Elf_Phdr \<Rightarrow> nat set" where
  "seg_span ph = {unat (p_paddr ph) ..< unat (p_paddr ph) + unat (p_memsz ph)}"

lemma seg_store_out:
  fixes ph :: "'w::len Elf_Phdr"
  assumes L: "LENGTH('w) \<le> 64" and ok: "ph_ok img ph" "load_ok ph" and v: "unat v \<notin> seg_span ph"
  shows "seg_store img ph f v = f v"
proof -
  have "\<not> unat (v - ph_base ph) < unat (p_memsz ph)"
  proof
    assume a: "unat (v - ph_base ph) < unat (p_memsz ph)"
    have ua: "unat (ph_base ph) = unat (p_paddr ph)" using L by (simp add: ph_base_def unat_ucast_up)
    have "unat v = unat (ph_base ph + of_nat (unat (v - ph_base ph)))" by simp
    also have "\<dots> = unat (p_paddr ph) + unat (v - ph_base ph)"
      unfolding ua [symmetric] by (rule unat_add_of_nat) (use a ok ua in \<open>simp add: ph_ok_def\<close>)
    finally show False using a v by (simp add: seg_span_def)
  qed
  then show ?thesis using length_seg_bytes [OF ok] by (simp add: seg_store_def vstore_def)
qed

lemma seg_store_in:
  assumes ok: "ph_ok img ph" "load_ok ph" and "is_load ph" and k: "k < unat (p_memsz ph)"
  shows "seg_store img ph f (ph_base ph + of_nat k) =
    (if k < unat (p_filesz ph) then img ! (unat (p_offset ph) + k) else 0)"
proof -
  have "unat (of_nat k :: u64) = k" by (rule unat_of_nat_u64) (use k ok in \<open>simp add: ph_ok_def\<close>)
  moreover have "length (take (unat (p_filesz ph)) (drop (unat (p_offset ph)) img)) = unat (p_filesz ph)"
    by (rule length_slice) (use ok in \<open>simp add: ph_ok_def\<close>)
  ultimately show ?thesis using assms length_seg_bytes [OF ok]
    by (auto simp: seg_store_def vstore_def seg_bytes_def nth_append ph_ok_def)
qed

lemma fold_seg_store_out:
  fixes phs :: "'w::len Elf_Phdr list"
  assumes "LENGTH('w) \<le> 64"
  shows "\<forall>ph\<in>set phs. seg_ok img ph \<and> (is_load ph \<longrightarrow> unat v \<notin> seg_span ph) \<Longrightarrow>
    fold (seg_store img) phs f v = f v"
proof (induction phs arbitrary: f)
  case (Cons ph phs)
  have "seg_store img ph f v = f v"
    using Cons.prems seg_store_out [OF assms, of img ph v f] by (cases "is_load ph") (auto simp: seg_store_def seg_ok_def)
  then show ?case using Cons by simp
qed simp

lemma fold_seg_store_in:
  fixes phs :: "'w::len Elf_Phdr list"
  assumes L: "LENGTH('w) \<le> 64"
  shows "\<forall>ph\<in>set phs. seg_ok img ph \<Longrightarrow>
    sorted_wrt (\<lambda>p q. seg_span p \<inter> seg_span q = {}) (filter is_load phs) \<Longrightarrow>
    ph \<in> set phs \<Longrightarrow> is_load ph \<Longrightarrow> k < unat (p_memsz ph) \<Longrightarrow>
    fold (seg_store img) phs f (ph_base ph + of_nat k) =
      (if k < unat (p_filesz ph) then img ! (unat (p_offset ph) + k) else 0)"
proof (induction phs arbitrary: f)
  case (Cons q phs)
  show ?case
  proof (cases "ph \<in> set phs")
    case True
    then show ?thesis using Cons.IH [of "seg_store img q f"] Cons.prems by (auto split: if_splits)
  next
    case False
    then have q: "q = ph" using Cons.prems by simp
    have "unat (ph_base ph + of_nat k) = unat (p_paddr ph) + k"
    proof -
      have "unat (ph_base ph) = unat (p_paddr ph)" using L by (simp add: ph_base_def unat_ucast_up)
      then show ?thesis using Cons.prems q unat_add_of_nat [of "ph_base ph" k] by (simp add: seg_ok_def ph_ok_def)
    qed
    then have "unat (ph_base ph + of_nat k) \<in> seg_span ph" using Cons.prems by (simp add: seg_span_def)
    then have "fold (seg_store img) phs (seg_store img ph f) (ph_base ph + of_nat k) =
        seg_store img ph f (ph_base ph + of_nat k)"
      using Cons.prems q by (intro fold_seg_store_out [OF L]) auto
    then show ?thesis using q seg_store_in [of img ph k f] Cons.prems by (simp add: seg_ok_def)
  qed
qed simp


section \<open>Names\<close>

text \<open>A string of the file that ends inside the file.\<close>

definition named :: "u8 list \<Rightarrow> nat \<Rightarrow> bool" where
  "named img p \<longleftrightarrow> 0 \<in> set (drop p img)"

definition plain :: "string \<Rightarrow> bool" where
  "plain s \<longleftrightarrow> (\<forall>c\<in>set s. of_char c \<noteq> (0 :: u8))"

lemma unat_of_char: "unat (of_char c :: u8) = of_char c"
proof -
  have "(of_char c :: u8) = of_nat (of_char c)" by (simp add: of_nat_of_char)
  moreover have "of_char c < (256 :: nat)" by (rule nat_of_char_less_256)
  ultimately show ?thesis by (simp add: unsigned_of_nat take_bit_nat_eq_self_iff)
qed

lemma char_of_unat [simp]: "char_of (unat (of_char c :: u8)) = c"
  by (simp add: unat_of_char)

lemma of_char_unat [simp]: "(of_char (char_of (unat b)) :: u8) = b"
proof (rule unat_eqI)
  have "unat b < 256" using unsigned_less [of b, where 'a = nat] by simp
  then show "unat (of_char (char_of (unat b)) :: u8) = unat b" by (simp add: unat_of_char)
qed

lemma str_is_spec: "named img p \<Longrightarrow> plain s \<Longrightarrow> str_is img p (c_string s) = Inr (string_at img p = s)"
proof (induction s arbitrary: p)
  case Nil
  then have "p < length img" by (auto simp: named_def intro: ccontr)
  moreover from this have "drop p img = img ! p # drop (Suc p) img" by (simp add: Cons_nth_drop_Suc)
  ultimately show ?case by (simp add: c_string_def string_at_def)
next
  case (Cons c s)
  then have p: "p < length img" by (auto simp: named_def intro: ccontr)
  have d: "drop p img = img ! p # drop (Suc p) img" using p by (simp add: Cons_nth_drop_Suc)
  have c0: "of_char c \<noteq> (0 :: u8)" and s: "plain s" using Cons.prems by (simp_all add: plain_def)
  show ?case
  proof (cases "img ! p = of_char c")
    case True
    then have "named img (Suc p)" using Cons.prems(1) c0 d by (auto simp: named_def)
    moreover have "string_at img p = c # string_at img (Suc p)"
      using True c0 d by (simp add: string_at_def)
    ultimately show ?thesis using Cons.IH s p True by (simp add: c_string_def)
  next
    case False
    have "string_at img p \<noteq> c # s"
    proof
      assume "string_at img p = c # s"
      then have "img ! p \<noteq> 0 \<and> char_of (unat (img ! p)) = c" unfolding string_at_def d by (auto split: if_splits)
      then show False using False of_char_unat by metis
    qed
    then show ?thesis using p False by (simp add: c_string_def)
  qed
qed


section \<open>Sections and symbols\<close>

definition section_name :: "u8 list \<Rightarrow> nat \<Rightarrow> 'w::len Elf_Shdr \<Rightarrow> string" where
  "section_name img t sec = string_at img (t + unat (sh_name sec))"

definition section_named :: "u8 list \<Rightarrow> nat \<Rightarrow> 'w::len Elf_Shdr \<Rightarrow> bool" where
  "section_named img t sec \<longleftrightarrow> named img (t + unat (sh_name sec))"

text \<open>The end of the last section of a name, or \<open>e\<close> when there is none.\<close>

definition section_end :: "u8 list \<Rightarrow> nat \<Rightarrow> string \<Rightarrow> 'w::len Elf_Shdr list \<Rightarrow> u64 \<Rightarrow> u64" where
  "section_end img t nm = fold (\<lambda>sec e. if section_name img t sec = nm then ucast (sh_addr sec + sh_size sec) else e)"

lemma section_is_spec:
  "section_named img t sec \<Longrightarrow> plain nm \<Longrightarrow> section_is img t sec nm = Inr (section_name img t sec = nm)"
  by (simp add: section_named_def section_name_def section_is_def str_is_spec)

lemma scan_sections_spec:
  "\<forall>sec\<in>set shs. section_named img t sec \<Longrightarrow>
   run_ops (scan_section img t) shs (b, x, d) =
     Inr (section_end img t ''.bss'' shs b, section_end img t ''.text'' shs x, section_end img t ''.data'' shs d)"
proof (induction shs arbitrary: b x d)
  case Nil
  show ?case by (simp add: section_end_def)
next
  case (Cons sec shs)
  have "plain ''.bss''" "plain ''.text''" "plain ''.data''" by (simp_all add: plain_def of_char_def)
  then have "scan_section img t sec (b, x, d) =
      (let e = ucast (sh_addr sec + sh_size sec); n = section_name img t sec
       in Inr (if n = ''.bss'' then e else b, if n = ''.text'' then e else x, if n = ''.data'' then e else d))"
    using Cons.prems by (simp add: scan_section_def section_is_spec Let_def)
  then show ?case using Cons by (simp add: section_end_def Let_def)
qed

text \<open>The index of the last section of a name that is not skipped, or 0.\<close>

definition kept :: "'w::len Elf_Shdr \<Rightarrow> bool" where
  "kept sec \<longleftrightarrow> sh_type sec AND 8 = 0"

definition section_index :: "u8 list \<Rightarrow> nat \<Rightarrow> string \<Rightarrow> 'w::len Elf_Shdr list \<Rightarrow> nat list \<Rightarrow> nat \<Rightarrow> nat" where
  "section_index img t nm shs =
     fold (\<lambda>i k. if kept (shs ! i) \<and> section_name img t (shs ! i) = nm then i else k)"

definition sec_ok :: "u8 list \<Rightarrow> 'w::len Elf_Shdr \<Rightarrow> bool" where
  "sec_ok img sec \<longleftrightarrow> unat (sh_offset sec) + unat (sh_size sec) \<le> length img"

lemma find_tables_spec:
  fixes shs :: "'w::len Elf_Shdr list"
  assumes L: "LENGTH('w) \<le> 64" "length img < 2 ^ LENGTH('w)"
  shows "\<forall>i\<in>set is. section_named img t (shs ! i) \<and> (kept (shs ! i) \<longrightarrow> sec_ok img (shs ! i)) \<Longrightarrow>
    run_ops (\<lambda>i. find_tables img t i (shs ! i)) is (a, b) =
      Inr (section_index img t ''.strtab'' shs is a, section_index img t ''.symtab'' shs is b)"
proof (induction "is" arbitrary: a b)
  case Nil
  show ?case by (simp add: section_index_def)
next
  case (Cons i "is")
  let ?s = "shs ! i"
  have pl: "plain ''.strtab''" "plain ''.symtab''" by (simp_all add: plain_def of_char_def)
  have "find_tables img t i ?s (a, b) =
      Inr (if kept ?s \<and> section_name img t ?s = ''.strtab'' then i else a,
           if kept ?s \<and> section_name img t ?s = ''.symtab'' then i else b)"
  proof (cases "kept ?s")
    case True
    then have "in_file (sh_offset ?s) (sh_size ?s) img"
      using Cons.prems by (intro in_file_iff [OF L]) (simp add: sec_ok_def)
    then show ?thesis using True Cons.prems pl by (simp add: find_tables_def kept_def section_is_spec)
  next
    case False
    then show ?thesis by (simp add: find_tables_def kept_def)
  qed
  then show ?case using Cons by (simp add: section_index_def)
qed

text \<open>Symbols: the name ends inside the string table.\<close>

definition symbol_name :: "u8 list \<Rightarrow> 'w::len Elf_Shdr \<Rightarrow> 'w Elf_Sym \<Rightarrow> string" where
  "symbol_name img strsh symb = string_at img (unat (sh_offset strsh) + unat (st_name symb))"

definition sym_ok :: "u8 list \<Rightarrow> 'w::len Elf_Shdr \<Rightarrow> 'w Elf_Sym \<Rightarrow> bool" where
  "sym_ok img strsh symb \<longleftrightarrow> unat (st_name symb) + length (symbol_name img strsh symb) < unat (sh_size strsh)"

lemma strnlen_spec:
  "p + n \<le> length img \<Longrightarrow> strnlen img p n = Inr (min n (length (string_at img p)))"
proof (induction n arbitrary: p)
  case (Suc n)
  then have d: "drop p img = img ! p # drop (Suc p) img" by (simp add: Cons_nth_drop_Suc)
  then show ?case using Suc by (simp add: string_at_def)
qed simp

lemma add_symbol_spec:
  fixes strsh :: "'w::len Elf_Shdr"
  assumes w: "32 \<le> LENGTH('w)" and sec: "sec_ok img strsh" "unat (sh_size strsh) < 2 ^ 32" and sy: "sym_ok img strsh symb"
  shows "add_symbol img strsh symb tab = Inr (tab(symbol_name img strsh symb \<mapsto> ucast (st_value symb)))"
proof -
  let ?n = "unat (sh_size strsh) - unat (st_name symb)"
  have u: "unat (ucast (st_name symb) :: 'w word) = unat (st_name symb)" using w by (simp add: unat_ucast_up)
  have lt: "unat (st_name symb) < unat (sh_size strsh)" using sy by (simp add: sym_ok_def)
  have "unat (sh_size strsh - ucast (st_name symb)) = ?n"
    using lt u by (subst unat_sub) (simp_all add: word_le_nat_alt)
  then have m: "unat (ucast (sh_size strsh - ucast (st_name symb)) :: u32) = ?n"
    using sec(2) by (simp add: unsigned_ucast_eq take_bit_nat_eq_self_iff)
  have "strnlen img (unat (sh_offset strsh) + unat (st_name symb)) ?n = Inr (length (symbol_name img strsh symb))"
  proof -
    have "min ?n (length (symbol_name img strsh symb)) = length (symbol_name img strsh symb)"
      by (rule min_absorb2) (use sy in \<open>simp add: sym_ok_def\<close>)
    then show ?thesis using strnlen_spec [of "unat (sh_offset strsh) + unat (st_name symb)" ?n img] sec lt
      by (simp add: sec_ok_def symbol_name_def)
  qed
  moreover have "\<not> sh_size strsh \<le> ucast (st_name symb)" using lt u by (simp add: word_le_nat_alt)
  moreover have "\<not> ?n \<le> length (symbol_name img strsh symb)" using sy lt by (simp add: sym_ok_def)
  ultimately show ?thesis by (simp add: add_symbol_def m Let_def symbol_name_def)
qed

definition symbol_table :: "u8 list \<Rightarrow> 'w::len Elf_Shdr \<Rightarrow> 'w Elf_Sym list \<Rightarrow> (string \<rightharpoonup> u64) \<Rightarrow> (string \<rightharpoonup> u64)" where
  "symbol_table img strsh = fold (\<lambda>symb tab. tab(symbol_name img strsh symb \<mapsto> ucast (st_value symb)))"

lemma add_symbols_spec:
  fixes strsh :: "'w::len Elf_Shdr"
  assumes "32 \<le> LENGTH('w)" and "sec_ok img strsh" and "unat (sh_size strsh) < 2 ^ 32"
  shows "\<forall>symb\<in>set syms. sym_ok img strsh symb \<Longrightarrow>
    run_ops (add_symbol img strsh) syms tab = Inr (symbol_table img strsh syms tab)"
  by (induction syms arbitrary: tab) (simp_all add: symbol_table_def add_symbol_spec [OF assms])

end
