(* ===== verification/Rev_LoaderRun.thy ===== *)
theory Rev_LoaderRun
  imports Rev_LoaderElf
begin

text \<open>
  The loader as a whole: loading a well-formed executable succeeds and yields the memory image, the symbols and the heap
  the file describes, and the program arguments are where the start-up code of a program looks for them.
\<close>

section \<open>Well-formed executables\<close>

definition structs :: "nat \<Rightarrow> nat \<Rightarrow> (u8 list \<Rightarrow> 'a) \<Rightarrow> nat \<Rightarrow> u8 list \<Rightarrow> 'a list" where
  "structs p n f k img = map (\<lambda>i. f (take n (drop (p + i * n) img))) [0..<k]"

lemma length_structs [simp]: "length (structs p n f k img) = k"
  by (simp add: structs_def)

lemma read_struct_nth:
  assumes "i < k" and "p + k * n \<le> length img"
  shows "read_struct (p + i * n) n f img = Inr (structs p n f k img ! i)"
proof -
  have "Suc i * n \<le> k * n" using assms(1) by (intro mult_le_mono1) simp
  then show ?thesis using assms by (simp add: read_struct_def file_slice_def structs_def)
qed

text \<open>The parts of a file, read as the loader reads them.\<close>

definition elf_eh :: "'w::len elf_layout \<Rightarrow> u8 list \<Rightarrow> 'w Elf_Ehdr" where
  "elf_eh L img = eh_of L (take (eh_size L) img)"

definition elf_phs :: "'w::len elf_layout \<Rightarrow> u8 list \<Rightarrow> 'w Elf_Phdr list" where
  "elf_phs L img = structs (unat (e_phoff (elf_eh L img))) (ph_size L) (ph_of L) (unat (e_phnum (elf_eh L img))) img"

definition elf_shs :: "'w::len elf_layout \<Rightarrow> u8 list \<Rightarrow> 'w Elf_Shdr list" where
  "elf_shs L img =
     structs (unat (e_shoff (elf_eh L img))) (sh_struct_size L) (sh_of L) (unat (e_shnum (elf_eh L img))) img"

definition elf_strsh :: "'w::len elf_layout \<Rightarrow> u8 list \<Rightarrow> 'w Elf_Shdr" where
  "elf_strsh L img = elf_shs L img ! unat (e_shstrndx (elf_eh L img))"

definition elf_names :: "'w::len elf_layout \<Rightarrow> u8 list \<Rightarrow> nat" where
  "elf_names L img = unat (sh_offset (elf_strsh L img))"

definition elf_index :: "'w::len elf_layout \<Rightarrow> u8 list \<Rightarrow> string \<Rightarrow> nat" where
  "elf_index L img nm = section_index img (elf_names L img) nm (elf_shs L img) [0..<length (elf_shs L img)] 0"

definition elf_ends :: "'w::len elf_layout \<Rightarrow> u8 list \<Rightarrow> u64 \<times> u64 \<times> u64" where
  "elf_ends L img = (let e = (\<lambda>nm. section_end img (elf_names L img) nm (elf_shs L img) 0)
     in (e ''.bss'', e ''.text'', e ''.data''))"

definition elf_strtab :: "'w::len elf_layout \<Rightarrow> u8 list \<Rightarrow> 'w Elf_Shdr" where
  "elf_strtab L img = elf_shs L img ! elf_index L img ''.strtab''"

definition elf_syms :: "'w::len elf_layout \<Rightarrow> u8 list \<Rightarrow> 'w Elf_Sym list" where
  "elf_syms L img =
     (if elf_index L img ''.strtab'' \<noteq> 0 \<and> elf_index L img ''.symtab'' \<noteq> 0 then
        let symsh = elf_shs L img ! elf_index L img ''.symtab''
        in structs (unat (sh_offset symsh)) (sym_size L) (sym_of L) (unat (sh_size symsh) div sym_size L) img
      else [])"

text \<open>
  A well-formed executable the loader supports: all structures, segments and kept sections lie in the file, names end in the
  file, the segments to load do not overlap, none of them ends in a single cache line of zeros (\<open>line_tail\<close>, a restriction
  of the loader and not of ELF files), a section \<open>.text\<close>, \<open>.data\<close> or \<open>.bss\<close> ends at an address other than 0, and symbol
  names end in the string table.
\<close>

definition elf_wf :: "'w::len elf_layout \<Rightarrow> u8 list \<Rightarrow> bool" where
  "elf_wf L img \<longleftrightarrow>
     (let eh = elf_eh L img; phs = elf_phs L img; shs = elf_shs L img in
      length img < 2 ^ LENGTH('w) \<and> eh_size L \<le> length img \<and>
      unat (e_phoff eh) + unat (e_phnum eh) * ph_size L \<le> length img \<and>
      unat (e_shoff eh) + unat (e_shnum eh) * sh_struct_size L \<le> length img \<and>
      e_shstrndx eh < e_shnum eh \<and>
      list_all (seg_ok img) phs \<and>
      sorted_wrt (\<lambda>p q. seg_span p \<inter> seg_span q = {}) (filter is_load phs) \<and>
      list_all (\<lambda>sec. section_named img (elf_names L img) sec \<and> (kept sec \<longrightarrow> sec_ok img sec)) shs \<and>
      sec_ok img (elf_strsh L img) \<and>
      elf_ends L img \<noteq> (0, 0, 0) \<and>
      (elf_syms L img \<noteq> [] \<longrightarrow> unat (sh_size (elf_strtab L img)) < 2 ^ 32) \<and>
      list_all (sym_ok img (elf_strtab L img)) (elf_syms L img))"

text \<open>
  A memory the executable fits into: the program headers fit below the stack top, the segments are in an order in which
  they can be added, and \<open>T\<close> contains the pages of the segments and of the program headers.
\<close>

definition header_size :: "'w::len elf_layout \<Rightarrow> u8 list \<Rightarrow> nat" where
  "header_size L img = unat (e_phnum (elf_eh L img)) * ph_size L"

definition mem_ready :: "'w::len elf_layout \<Rightarrow> u8 list \<Rightarrow> u64 set \<Rightarrow> RevMem \<Rightarrow> bool" where
  "mem_ready L img T M \<longleftrightarrow>
     has_room T M \<and> list_all seg_wf (MemSegs M) \<and> upward (map BaseAddr (MemSegs M)) (seg_list (elf_phs L img)) \<and>
     header_size L img \<le> 2 ^ 20 \<and> 2 ^ 20 \<le> unat (stacktop M) \<and> stacktop M < memSize M \<and>
     unat (stacktop M) < 2 ^ LENGTH('w) \<and> unat (memSize M) \<le> 2 ^ 49 \<and>
     (\<forall>v. unat (stacktop M) \<le> unat v + header_size L img \<and> unat v \<le> unat (stacktop M) \<longrightarrow> pageNum v \<in> T) \<and>
     (\<forall>ph\<in>set (elf_phs L img). is_load ph \<longrightarrow> (\<forall>v\<in>ph_range ph. pageNum v \<in> T))"


section \<open>Loading the file\<close>

lemma run_ops_map: "(\<And>i s. i \<in> set is \<Longrightarrow> f i s = g (h i) s) \<Longrightarrow> run_ops f is s = run_ops g (map h is) s"
  by (induction "is" arbitrary: s) (auto intro!: bind_res_cong)

lemma run_ops_nth:
  assumes "\<And>i. i < length xs \<Longrightarrow> at i = Inr (xs ! i)"
  shows "run_ops (\<lambda>i s. bind_res (at i) (\<lambda>x. f x s)) [0..<length xs] s = run_ops f xs s"
proof -
  have "run_ops (\<lambda>i s. bind_res (at i) (\<lambda>x. f x s)) [0..<length xs] s = run_ops f (map ((!) xs) [0..<length xs]) s"
    by (rule run_ops_map) (simp add: assms)
  then show ?thesis by (simp add: map_nth)
qed

lemma run_ops_cong: "(\<And>i s. i \<in> set is \<Longrightarrow> f i s = g i s) \<Longrightarrow> run_ops f is s = run_ops g is s"
  using run_ops_map [of "is" f g "\<lambda>i. i" s] by simp

lemma elf_reads:
  assumes wf: "elf_wf L img"
  shows "read_struct 0 (eh_size L) (eh_of L) img = Inr (elf_eh L img)"
    and "i < length (elf_phs L img) \<Longrightarrow> ph_at L (elf_eh L img) img i = Inr (elf_phs L img ! i)"
    and "i < length (elf_shs L img) \<Longrightarrow> sh_at L (elf_eh L img) img i = Inr (elf_shs L img ! i)"
    and "length (elf_phs L img) = unat (e_phnum (elf_eh L img))"
    and "length (elf_shs L img) = unat (e_shnum (elf_eh L img))"
    and "unat (e_shstrndx (elf_eh L img)) < unat (e_shnum (elf_eh L img))"
proof -
  show "read_struct 0 (eh_size L) (eh_of L) img = Inr (elf_eh L img)"
    using wf by (simp add: elf_wf_def Let_def read_struct_def file_slice_def elf_eh_def)
  show "i < length (elf_phs L img) \<Longrightarrow> ph_at L (elf_eh L img) img i = Inr (elf_phs L img ! i)"
    unfolding ph_at_def elf_phs_def length_structs
    by (rule read_struct_nth) (use wf in \<open>simp_all add: elf_wf_def Let_def\<close>)
  show "i < length (elf_shs L img) \<Longrightarrow> sh_at L (elf_eh L img) img i = Inr (elf_shs L img ! i)"
    unfolding sh_at_def elf_shs_def length_structs
    by (rule read_struct_nth) (use wf in \<open>simp_all add: elf_wf_def Let_def\<close>)
  show "unat (e_shstrndx (elf_eh L img)) < unat (e_shnum (elf_eh L img))"
    using wf by (simp add: elf_wf_def Let_def word_less_nat_alt)
qed (simp_all add: elf_phs_def elf_shs_def)

lemma section_index_bound:
  "section_index img t nm shs is k \<noteq> k \<Longrightarrow>
   section_index img t nm shs is k \<in> set is \<and> kept (shs ! section_index img t nm shs is k)"
proof (induction "is" arbitrary: k)
  case (Cons i "is")
  let ?k = "if kept (shs ! i) \<and> section_name img t (shs ! i) = nm then i else k"
  have eq: "section_index img t nm shs (i # is) k = section_index img t nm shs is ?k" by (simp add: section_index_def)
  show ?case
  proof (cases "section_index img t nm shs is ?k = ?k")
    case True
    then show ?thesis using Cons.prems unfolding eq by (auto split: if_splits)
  next
    case False
    then show ?thesis using Cons.IH [of ?k] unfolding eq by simp
  qed
qed (simp add: section_index_def)

lemma load_symbols_spec:
  fixes L :: "'w::len elf_layout"
  assumes wf: "elf_wf L img" and w: "32 \<le> LENGTH('w)"
  shows "load_symbols L (elf_eh L img) img (elf_index L img ''.strtab'') (elf_index L img ''.symtab'') tab =
    Inr (symbol_table img (elf_strtab L img) (elf_syms L img) tab)"
proof (cases "elf_index L img ''.strtab'' \<noteq> 0 \<and> elf_index L img ''.symtab'' \<noteq> 0")
  case True
  let ?a = "elf_index L img ''.strtab''" and ?b = "elf_index L img ''.symtab''"
  let ?sh = "elf_shs L img" and ?sy = "elf_shs L img ! elf_index L img ''.symtab''"
  have ix: "?a < length ?sh" "kept (?sh ! ?a)" "?b < length ?sh" "kept (?sh ! ?b)"
    using True section_index_bound [of img "elf_names L img" "''.strtab''" ?sh "[0..<length ?sh]" 0]
      section_index_bound [of img "elf_names L img" "''.symtab''" ?sh "[0..<length ?sh]" 0]
    by (auto simp: elf_index_def)
  have ok: "sec_ok img (?sh ! ?a)" "sec_ok img ?sy"
    using ix wf by (auto simp: elf_wf_def Let_def list_all_iff)
  let ?n = "unat (sh_size ?sy) div sym_size L"
  have sy: "elf_syms L img = structs (unat (sh_offset ?sy)) (sym_size L) (sym_of L) ?n img"
    using True by (simp add: elf_syms_def Let_def)
  have "sym_at L ?sy img i = Inr (elf_syms L img ! i)" if i: "i < length (elf_syms L img)" for i
    unfolding sym_at_def sy
  proof (rule read_struct_nth)
    have "?n * sym_size L \<le> unat (sh_size ?sy)" by (rule div_times_less_eq_dividend)
    then show "unat (sh_offset ?sy) + ?n * sym_size L \<le> length img" using ok(2) unfolding sec_ok_def by linarith
  qed (use i sy in simp)
  from run_ops_nth [of "elf_syms L img", OF this, of "add_symbol img (elf_strtab L img)" tab]
  have "run_ops (\<lambda>i tab. bind_res (sym_at L ?sy img i) (\<lambda>symb. add_symbol img (elf_strtab L img) symb tab)) [0..<?n] tab =
      run_ops (add_symbol img (elf_strtab L img)) (elf_syms L img) tab"
    by (simp add: sy)
  also have "\<dots> = Inr (symbol_table img (elf_strtab L img) (elf_syms L img) tab)"
  proof (cases "elf_syms L img = []")
    case True
    then show ?thesis by (simp add: symbol_table_def)
  next
    case False
    then show ?thesis using wf ok(1) w
      by (intro add_symbols_spec) (auto simp: elf_wf_def Let_def elf_strtab_def list_all_iff)
  qed
  finally show ?thesis using True ix elf_reads(3) [OF wf] by (simp add: load_symbols_def elf_strtab_def)
next
  case False
  then show ?thesis by (auto simp: load_symbols_def elf_syms_def symbol_table_def)
qed

text \<open>Where the static data ends: the end of \<open>.bss\<close>, without one that of \<open>.data\<close>, and else that of \<open>.text\<close>.\<close>

definition data_end :: "u64 \<times> u64 \<times> u64 \<Rightarrow> u64" where
  "data_end = (\<lambda>(bss, text, data). if bss \<noteq> 0 then bss else if data \<noteq> 0 then data else text)"

lemma static_end_spec:
  assumes "ends \<noteq> (0, 0, 0)"
  shows "static_end ends = Inr (data_end ends)" and "data_end ends \<noteq> 0"
  using assms by (auto simp: static_end_def data_end_def word_gt_0 split: prod.splits)

lemma has_room_heap [simp]:
  "has_room T (M\<lparr>FreeMemSegs := fs, heapend := a, heapstart := b\<rparr>) = has_room T M"
  "vbyte (M\<lparr>FreeMemSegs := fs, heapend := a, heapstart := b\<rparr>) = vbyte M"
proof -
  have "translate (M\<lparr>FreeMemSegs := fs, heapend := a, heapstart := b\<rparr>) = translate M"
    by (simp add: fun_eq_iff translate_def)
  then show "has_room T (M\<lparr>FreeMemSegs := fs, heapend := a, heapstart := b\<rparr>) = has_room T M"
    "vbyte (M\<lparr>FreeMemSegs := fs, heapend := a, heapstart := b\<rparr>) = vbyte M"
    by (auto simp: has_room_def counted_def vm_inv_def mem_inv_def fresh_zero_def tlb_ok_def tlb_coherent_def pages_ok_def
        vbyte_def fun_eq_iff split: option.split)
qed

text \<open>The stack area, where the program headers and the arguments go.\<close>

lemma stack_valid:
  assumes "2 ^ 20 \<le> unat (stacktop M)" and "unat (stacktop M) \<le> unat v + 2 ^ 20" and "v < memSize M"
  shows "isValidVirtAddr M v"
proof -
  have "unat (stacktop M - STACK_SIZE) = unat (stacktop M) - 2 ^ 20"
    using assms(1) by (subst unat_sub) (simp_all add: STACK_SIZE_def word_le_nat_alt)
  then have "stacktop M - STACK_SIZE \<le> v" using assms by (simp add: word_le_nat_alt)
  then show ?thesis using assms(3) by (simp add: isValidVirtAddr_def)
qed

lemma header_write:
  assumes "mem_ready L img T M" and M1: "stacktop M1 = stacktop M" "memSize M1 = memSize M"
  shows "can_write T M1 (stacktop M - of_nat (header_size L img)) (header_size L img)"
    and "unat (stacktop M - of_nat (header_size L img)) = unat (stacktop M) - header_size L img"
proof -
  let ?h = "header_size L img" and ?s = "unat (stacktop M)"
  have h: "?h \<le> 2 ^ 20" "2 ^ 20 \<le> ?s" "stacktop M < memSize M" "unat (memSize M) \<le> 2 ^ 49"
    using assms(1) by (simp_all add: mem_ready_def)
  have uh: "unat (of_nat ?h :: u64) = ?h" by (rule unat_of_nat_u64) (use h in simp)
  show u: "unat (stacktop M - of_nat ?h) = ?s - ?h"
    using h uh by (subst unat_sub) (simp_all add: word_le_nat_alt)
  have sm: "?s < unat (memSize M)" using h(3) by (simp add: word_less_nat_alt)
  have i: "isValidVirtAddr M1 (stacktop M - of_nat ?h + of_nat i) \<and> pageNum (stacktop M - of_nat ?h + of_nat i) \<in> T"
    if "i \<le> ?h" for i
  proof -
    have ui: "unat (stacktop M - of_nat ?h + of_nat i) = ?s - ?h + i"
      unfolding u [symmetric] by (rule unat_add_of_nat) (use u that h sm in simp)
    have "isValidVirtAddr M1 (stacktop M - of_nat ?h + of_nat i)"
      by (rule stack_valid) (use ui that h sm M1 in \<open>simp_all add: word_less_nat_alt\<close>)
    moreover have "pageNum (stacktop M - of_nat ?h + of_nat i) \<in> T"
      using assms(1) ui that h unfolding mem_ready_def by auto
    ultimately show ?thesis by simp
  qed
  then show "can_write T M1 (stacktop M - of_nat ?h) ?h"
    using u h sm i [of 64] by (auto simp: can_write_def in_range_def)
qed

lemma file_check:
  fixes a :: "'w::len word"
  assumes "LENGTH('w) \<le> 64" and "length img < 2 ^ 64" and "unat a + n \<le> length img"
  shows "\<not> file_size img < ucast a + of_nat n"
proof -
  have "unat (ucast a + of_nat n :: u64) = unat a + n"
    using unat_add_of_nat [of "ucast a" n] assms by (simp add: unat_ucast_up)
  then show ?thesis using assms by (simp add: file_size_def word_less_nat_alt unat_of_nat_u64)
qed

definition elf_headers :: "'w::len elf_layout \<Rightarrow> u8 list \<Rightarrow> u8 list" where
  "elf_headers L img = take (header_size L img) (drop (unat (e_phoff (elf_eh L img))) img)"

lemma load_elf_spec:
  fixes L :: "'w::len elf_layout"
  assumes w: "32 \<le> LENGTH('w)" "LENGTH('w) \<le> 64" and wf: "elf_wf L img" and rdy: "mem_ready L img T M"
  shows "\<exists>ldr' M'. load_elf L img ldr M = Inr (ldr', M') \<and>
    ldr' = ldr\<lparr>elfinfo := elfinfo ldr', symtable := symbol_table img (elf_strtab L img) (elf_syms L img) (symtable ldr)\<rparr> \<and>
    has_room T M' \<and> memSize M' = memSize M \<and> stacktop M' = stacktop M - of_nat (header_size L img) \<and>
    heapstart M' = data_end (elf_ends L img) + 1 \<and> heapend M' = heapstart M' \<and>
    vbyte M' = fold (seg_store img) (elf_phs L img)
      (vstore (stacktop M - of_nat (header_size L img)) (elf_headers L img) (vbyte M))"
proof -
  let ?eh = "elf_eh L img" and ?phs = "elf_phs L img" and ?shs = "elf_shs L img" and ?t = "elf_names L img"
  let ?h = "header_size L img"
  let ?sp = "stacktop M - of_nat ?h"
  note rd = elf_reads [OF wf]
  have len: "length img < 2 ^ LENGTH('w)" and so: "\<forall>ph\<in>set ?phs. seg_ok img ph"
    and se: "\<forall>sec\<in>set ?shs. section_named img ?t sec \<and> (kept sec \<longrightarrow> sec_ok img sec)"
    and ss: "sec_ok img (elf_strsh L img)"
    and po: "unat (e_phoff ?eh) + ?h \<le> length img"
    and sho: "unat (e_shoff ?eh) + unat (e_shnum ?eh) * sh_struct_size L \<le> length img"
    using wf by (simp_all add: elf_wf_def Let_def list_all_iff header_size_def)
  have len64: "length img < 2 ^ 64"
    using w(2) len by (meson less_le_trans one_le_numeral power_increasing)
  let ?e = "data_end (elf_ends L img)"
  have e: "static_end (elf_ends L img) = Inr ?e" and e0: "?e \<noteq> 0"
    using wf static_end_spec [of "elf_ends L img"] by (simp_all add: elf_wf_def Let_def)
  have placed: "placed (map BaseAddr (MemSegs M)) M" and up: "upward (map BaseAddr (MemSegs M)) (seg_list ?phs)"
    and room: "has_room T M" and h20: "?h \<le> 2 ^ 20" and st: "unat (stacktop M) < 2 ^ LENGTH('w)"
    using rdy by (simp_all add: mem_ready_def placed_def)
  have psize: "(of_nat (unat (e_phnum ?eh) * ph_size L) :: u64) = of_nat ?h" by (simp add: header_size_def)
  have uh: "unat (of_nat ?h :: u64) = ?h" by (rule unat_of_nat_u64) (use h20 in simp)
  have strsh: "sh_at L ?eh img (unat (e_shstrndx ?eh)) = Inr (elf_strsh L img)"
    using rd(3,5,6) by (simp add: elf_strsh_def)
  from add_segments_spec [OF w(2) len _ up placed] so obtain sg where
    r1: "run_ops (add_segment img) ?phs M = Inr (M\<lparr>MemSegs := sg\<rparr>)"
    and al: "\<forall>ph\<in>set ?phs. p_memsz ph \<noteq> 0 \<longrightarrow> ph_range ph \<subseteq> allocated (M\<lparr>MemSegs := sg\<rparr>)"
    by (auto simp: seg_ok_def)
  let ?M1 = "M\<lparr>MemSegs := sg\<rparr>"
  have r2: "run_ops (scan_section img ?t) ?shs (0, 0, 0) = Inr (elf_ends L img)"
    using se by (simp add: scan_sections_spec elf_ends_def Let_def)
  have hw: "can_write T ?M1 ?sp ?h" "unat ?sp = unat (stacktop M) - ?h"
    using header_write [OF rdy, of ?M1] by simp_all
  have sp: "(ucast (ucast ?sp :: 'w word) :: u64) = ?sp"
  proof (rule unat_eqI)
    have "unat (ucast ?sp :: 'w word) = unat ?sp" using hw(2) st by (simp add: unsigned_ucast_eq take_bit_nat_eq_self_iff)
    moreover have "unat (ucast x :: u64) = unat x" for x :: "'w word" using w(2) by (simp add: unat_ucast_up)
    ultimately show "unat (ucast (ucast ?sp :: 'w word) :: u64) = unat ?sp" by (simp only:)
  qed
  have lh: "length (elf_headers L img) = ?h" using po by (simp add: elf_headers_def length_slice)
  from WriteCacheLine_spec [of T ?M1 ?sp "elf_headers L img"] hw(1) lh room obtain M2 where
    r3: "WriteCacheLine ?sp (elf_headers L img) ?M1 = Inr M2" and rm2: "has_room T M2"
    and ly2: "mem_layout M2 = mem_layout ?M1" and v2: "vbyte M2 = vstore ?sp (elf_headers L img) (vbyte M)" by auto
  let ?M2 = "M2\<lparr>stacktop := ?sp\<rparr>"
  have valid: "\<forall>ph\<in>set ?phs. is_load ph \<longrightarrow> (\<forall>v\<in>ph_range ph. isValidVirtAddr ?M2 v \<and> pageNum v \<in> T)"
  proof (intro ballI impI)
    fix ph v assume ph: "ph \<in> set ?phs" "is_load ph" and v: "v \<in> ph_range ph"
    have "MemSegs ?M2 = sg" using ly2 by (simp add: mem_layout_def)
    then have "v \<in> allocated ?M2" using al ph v by (auto simp: is_load_def allocated_def)
    moreover have "pageNum v \<in> T" using rdy ph v by (simp add: mem_ready_def)
    ultimately show "isValidVirtAddr ?M2 v \<and> pageNum v \<in> T" by (simp add: allocated_valid)
  qed
  from load_segments_spec [OF w(2) len so _ valid] rm2 obtain M3 where
    r4: "run_ops (load_segment img) ?phs ?M2 = Inr M3" and rm3: "has_room T M3" and ly3: "mem_layout M3 = mem_layout ?M2"
    and v3: "vbyte M3 = fold (seg_store img) ?phs (vbyte M2)" by auto
  have r5: "run_ops (\<lambda>i. find_tables img ?t i (?shs ! i)) [0..<length ?shs] (0, 0) =
      Inr (elf_index L img ''.strtab'', elf_index L img ''.symtab'')"
    unfolding elf_index_def using se by (intro find_tables_spec [OF w(2) len]) auto
  have p1: "run_ops (\<lambda>i M. bind_res (ph_at L ?eh img i) (\<lambda>ph. add_segment img ph M)) [0..<unat (e_phnum ?eh)] M = Inr ?M1"
    using run_ops_nth [of ?phs "ph_at L ?eh img" "add_segment img" M] rd(2,4) r1 by simp
  have p2: "run_ops (\<lambda>i ends. bind_res (sh_at L ?eh img i) (\<lambda>sec. scan_section img ?t sec ends)) [0..<unat (e_shnum ?eh)]
      (0, 0, 0) = Inr (elf_ends L img)"
    using run_ops_nth [of ?shs "sh_at L ?eh img" "scan_section img ?t" "(0, 0, 0)"] rd(3,5) r2 by simp
  have p3: "file_slice (unat (e_phoff ?eh)) ?h img = Inr (elf_headers L img)"
    using po by (simp add: file_slice_def elf_headers_def)
  have p4: "run_ops (\<lambda>i M. bind_res (ph_at L ?eh img i) (\<lambda>ph. load_segment img ph M)) [0..<unat (e_phnum ?eh)] ?M2 = Inr M3"
    using run_ops_nth [of ?phs "ph_at L ?eh img" "load_segment img" ?M2] rd(2,4) r4 by simp
  have p5: "run_ops (\<lambda>i t. bind_res (sh_at L ?eh img i) (\<lambda>sec. find_tables img ?t i sec t)) [0..<unat (e_shnum ?eh)] (0, 0) =
      Inr (elf_index L img ''.strtab'', elf_index L img ''.symtab'')"
    unfolding r5 [symmetric] rd(5) by (rule run_ops_cong) (simp add: rd(3,5))
  have c1: "\<not> file_size img < ucast (e_phoff ?eh) + of_nat ?h" by (rule file_check [OF w(2) len64 po])
  have c2: "\<not> file_size img < ucast (e_shoff ?eh) + of_nat (unat (e_shnum ?eh) * sh_struct_size L)"
    by (rule file_check [OF w(2) len64 sho])
  have c3: "\<not> e_shnum ?eh \<le> e_shstrndx ?eh" using rd(6) by (simp add: word_le_nat_alt)
  have c4: "in_file (sh_offset (elf_strsh L img)) (sh_size (elf_strsh L img)) img"
    using ss by (intro in_file_iff [OF w(2) len]) (simp add: sec_ok_def)
  have c5: "InitHeap ?e M3 = Inr (M3\<lparr>FreeMemSegs := FreeMemSegs M3 @ [new_MemSegment (?e + 1) (ucast (maxHeapSize M3))],
      heapend := ?e + 1, heapstart := ?e + 1\<rparr>)"
    using e0 by (simp add: InitHeap_def)
  note ls = load_symbols_spec [OF wf w(1), of "symtable ldr"]
  show ?thesis
    unfolding load_elf_def rd(1) bind_res_simps strsh Let_def elf_names_def [symmetric] p1 p2 e psize
    using c1 c2 c3 c4 p4 ls v2 v3 ly2 ly3 rm3 by (simp add: uh p3 sp r3 p5 c5 mem_layout_def)
qed

end
