(* ===== verification/Rev_LoaderArgs.thy ===== *)
theory Rev_LoaderArgs
  imports Rev_LoaderRun
begin

text \<open>
  The program arguments, the loader from the file to the finished memory, and what a core finds when it comes out of reset.
\<close>

section \<open>Reading a memory image\<close>

definition read_bytes :: "(u64 \<Rightarrow> u8) \<Rightarrow> u64 \<Rightarrow> nat \<Rightarrow> u8 list" where
  "read_bytes f a n = map (\<lambda>i. f (a + of_nat i)) [0..<n]"

lemma read_bytes_inside:
  assumes "k + n \<le> length bs" and "length bs < 2 ^ 64"
  shows "read_bytes (vstore a bs f) (a + of_nat k) n = take n (drop k bs)"
proof (rule nth_equalityI)
  show "length (read_bytes (vstore a bs f) (a + of_nat k) n) = length (take n (drop k bs))"
    using assms by (auto simp: read_bytes_def min_def)
  fix i assume "i < length (read_bytes (vstore a bs f) (a + of_nat k) n)"
  then have i: "i < n" by (simp add: read_bytes_def)
  have "unat (of_nat (k + i) :: u64) = k + i" by (rule unat_of_nat_u64) (use i assms in simp)
  then show "read_bytes (vstore a bs f) (a + of_nat k) n ! i = take n (drop k bs) ! i"
    using i assms by (simp add: read_bytes_def vstore_def add.assoc)
qed

lemma vstore_outside:
  assumes "unat a + length bs \<le> 2 ^ 64" and "unat v < unat a \<or> unat a + length bs \<le> unat v"
  shows "vstore a bs f v = f v"
proof -
  have "\<not> unat (v - a) < length bs"
  proof
    assume l: "unat (v - a) < length bs"
    have "unat v = unat (a + of_nat (unat (v - a)))" by simp
    also have "\<dots> = unat a + unat (v - a)" by (rule unat_add_of_nat) (use l assms(1) in simp)
    finally show False using l assms(2) by linarith
  qed
  then show ?thesis by (simp add: vstore_def)
qed

lemma read_bytes_outside:
  assumes "unat b + n < 2 ^ 64" and "unat a + length bs \<le> 2 ^ 64"
    and "unat b + n \<le> unat a \<or> unat a + length bs \<le> unat b"
  shows "read_bytes (vstore a bs f) b n = read_bytes f b n"
proof -
  have "vstore a bs f (b + of_nat i) = f (b + of_nat i)" if "i < n" for i
    using that assms unat_add_of_nat [of b i] by (intro vstore_outside) auto
  then show ?thesis by (simp add: read_bytes_def)
qed

lemma vstore_prepend:
  assumes "unat a + length xs + length ys < 2 ^ 64"
  shows "vstore a xs (vstore (a + of_nat (length xs)) ys f) = vstore a (xs @ ys) f"
proof (cases "ys = []")
  case False
  have u: "unat (a + of_nat (length xs)) = unat a + length xs"
    by (rule unat_add_of_nat) (use assms False in \<open>cases ys; simp\<close>)
  have "vstore a xs (vstore (a + of_nat (length xs)) ys f) v =
      vstore (a + of_nat (length xs)) ys (vstore a xs f) v" for v
  proof (cases "unat (v - a) < length xs")
    case True
    have "unat v = unat (a + of_nat (unat (v - a)))" by simp
    also have "\<dots> = unat a + unat (v - a)" by (rule unat_add_of_nat) (use True assms in simp)
    finally have "vstore (a + of_nat (length xs)) ys (vstore a xs f) v = vstore a xs f v"
      using True assms u by (intro vstore_outside) auto
    then show ?thesis using True by (simp add: vstore_def)
  next
    case False
    then show ?thesis by (simp add: vstore_def)
  qed
  then show ?thesis using vstore_append [of xs ys a f] assms by (simp add: fun_eq_iff)
qed simp


section \<open>The stack area\<close>

text \<open>The area of the arguments, from 48 bytes above the stack top to the end of memory.\<close>

definition arg_area :: "u64 set \<Rightarrow> RevMem \<Rightarrow> bool" where
  "arg_area T M \<longleftrightarrow> has_room T M \<and> 2 ^ 20 \<le> unat (stacktop M) \<and> unat (memSize M) \<le> 2 ^ 49 \<and>
     (\<forall>v. unat (stacktop M) + 48 \<le> unat v \<and> unat v < unat (memSize M) \<longrightarrow> pageNum v \<in> T)"

lemma arg_area_layout: "arg_area T M \<Longrightarrow> has_room T M' \<Longrightarrow> mem_layout M' = mem_layout M \<Longrightarrow> arg_area T M'"
  by (simp add: arg_area_def mem_layout_def)

text \<open>A write into the area; one aligned line at the very end of memory is excluded.\<close>

lemma arg_write:
  assumes area: "arg_area T M" and lo: "unat (stacktop M) + 48 \<le> unat a" and hi: "unat a + length bs \<le> unat (memSize M)"
    and ex: "\<not> (length bs = 64 \<and> unat a mod 64 = 0 \<and> unat a + 64 = unat (memSize M))"
  shows "\<exists>M'. WriteCacheLine a bs M = Inr M' \<and> arg_area T M' \<and> mem_layout M' = mem_layout M \<and>
    vbyte M' = vstore a bs (vbyte M)"
proof -
  have m: "unat (memSize M) \<le> 2 ^ 49" and s: "2 ^ 20 \<le> unat (stacktop M)" using area by (simp_all add: arg_area_def)
  have ok: "isValidVirtAddr M v \<and> pageNum v \<in> T" if "unat a \<le> unat v" "unat v < unat (memSize M)" for v
  proof -
    have "isValidVirtAddr M v" by (rule stack_valid) (use that s lo in \<open>simp_all add: word_less_nat_alt\<close>)
    then show ?thesis using area that lo by (simp add: arg_area_def)
  qed
  have u: "unat (a + of_nat i) = unat a + i" if "i \<le> length bs" for i
    by (rule unat_add_of_nat) (use that hi m in simp)
  have "in_range T M a (length bs)"
    using ok u hi m by (auto simp: in_range_def)
  moreover have "isValidVirtAddr M (a + 64) \<and> pageNum (a + 64) \<in> T" if "length bs = 64" "unat a mod 64 = 0"
    using ok [of "a + of_nat 64"] u [of 64] that ex hi by auto
  ultimately have "can_write T M a (length bs)" by (simp add: can_write_def)
  moreover have "has_room T M" using area by (simp add: arg_area_def)
  ultimately show ?thesis using WriteCacheLine_spec [of T M a bs] arg_area_layout [OF area] by blast
qed



section \<open>The program arguments\<close>

definition arg_block :: "string list \<Rightarrow> u8 list" where
  "arg_block argv = concat (map c_string argv)"

fun arg_ptrs :: "u64 \<Rightarrow> string list \<Rightarrow> u64 list" where
  "arg_ptrs p [] = []"
| "arg_ptrs p (s # ss) = p # arg_ptrs (p + of_nat (length s + 1)) ss"

lemma length_c_string [simp]: "length (c_string s) = length s + 1"
  by (simp add: c_string_def)

lemma arg_block_simps [simp]:
  "arg_block [] = []" "arg_block (s # ss) = c_string s @ arg_block ss" "arg_block (xs @ ys) = arg_block xs @ arg_block ys"
  by (simp_all add: arg_block_def)

lemma length_arg_block_rev: "length (arg_block (rev xs)) = length (arg_block xs)"
  by (induction xs) simp_all

lemma write_args_spec:
  "arg_area T M \<Longrightarrow> unat (stacktop M) + 48 + length (arg_block xs) \<le> unat tp \<Longrightarrow> unat tp \<le> unat (memSize M) \<Longrightarrow>
   xs \<noteq> [] \<longrightarrow> \<not> (length (hd xs) = 63 \<and> unat tp mod 64 = 0 \<and> tp = memSize M) \<Longrightarrow>
   \<exists>M'. run_ops write_arg xs (tp, M) = Inr (tp - of_nat (length (arg_block xs)), M') \<and> arg_area T M' \<and>
     mem_layout M' = mem_layout M \<and>
     vbyte M' = vstore (tp - of_nat (length (arg_block xs))) (arg_block (rev xs)) (vbyte M)"
proof (induction xs arbitrary: M tp)
  case (Cons s ss)
  let ?a = "tp - of_nat (length s + 1) :: u64" and ?n = "length (arg_block ss)"
  have m: "unat (memSize M) \<le> 2 ^ 49" using Cons.prems(1) by (simp add: arg_area_def)
  have "unat (of_nat (length s + 1) :: u64) = length s + 1" by (rule unat_of_nat_u64) (use Cons.prems m in simp)
  then have ua: "unat ?a = unat tp - (length s + 1)"
    using Cons.prems(2) by (subst unat_sub) (simp_all add: word_le_nat_alt)
  have "\<exists>M'. WriteCacheLine ?a (c_string s) M = Inr M' \<and> arg_area T M' \<and> mem_layout M' = mem_layout M \<and>
      vbyte M' = vstore ?a (c_string s) (vbyte M)"
  proof (rule arg_write [OF Cons.prems(1)])
    show "\<not> (length (c_string s) = 64 \<and> unat ?a mod 64 = 0 \<and> unat ?a + 64 = unat (memSize M))"
    proof
      assume a: "length (c_string s) = 64 \<and> unat ?a mod 64 = 0 \<and> unat ?a + 64 = unat (memSize M)"
      then have "unat tp = unat (memSize M)" "unat tp mod 64 = 0"
        using ua Cons.prems(2,3) mod_add_self2 [of "unat ?a" 64] by auto
      then show False using a Cons.prems(4) by (auto simp: word_unat_eq_iff)
    qed
  qed (use ua Cons.prems in simp_all)
  then obtain M1 where M1: "WriteCacheLine ?a (c_string s) M = Inr M1" "arg_area T M1" "mem_layout M1 = mem_layout M"
    "vbyte M1 = vstore ?a (c_string s) (vbyte M)" by blast
  have ly: "stacktop M1 = stacktop M" "memSize M1 = memSize M" using M1(3) by (simp_all add: mem_layout_def)
  have ne: "?a \<noteq> memSize M1" using ua ly Cons.prems by (auto simp: word_unat_eq_iff)
  have "\<exists>M'. run_ops write_arg ss (?a, M1) = Inr (?a - of_nat ?n, M') \<and> arg_area T M' \<and>
      mem_layout M' = mem_layout M1 \<and> vbyte M' = vstore (?a - of_nat ?n) (arg_block (rev ss)) (vbyte M1)"
    by (rule Cons.IH [OF M1(2)]) (use ua ly Cons.prems ne in auto)
  then obtain M' where M': "run_ops write_arg ss (?a, M1) = Inr (?a - of_nat ?n, M')" "arg_area T M'"
    "mem_layout M' = mem_layout M1" "vbyte M' = vstore (?a - of_nat ?n) (arg_block (rev ss)) (vbyte M1)" by blast
  have "unat (?a - of_nat ?n) = unat ?a - ?n"
    using ua Cons.prems m unat_of_nat_u64 [of ?n] by (subst unat_sub) (simp_all add: word_le_nat_alt)
  then have "vstore (?a - of_nat ?n) (arg_block (rev ss)) (vstore (?a - of_nat ?n + of_nat (length (arg_block (rev ss))))
      (c_string s) (vbyte M)) = vstore (?a - of_nat ?n) (arg_block (rev ss) @ c_string s) (vbyte M)"
    using ua Cons.prems m by (intro vstore_prepend) (simp add: length_arg_block_rev)
  moreover have "write_arg s (tp, M) = Inr (?a, M1)" using M1(1) by (simp add: write_arg_def Let_def)
  ultimately show ?case using M1(3,4) M' by (simp add: length_arg_block_rev algebra_simps)
qed (auto simp: arg_area_def)

lemma write_ptrs_spec:
  "arg_area T M \<Longrightarrow> unat (stacktop M) + 48 \<le> unat a \<Longrightarrow> unat a + 8 * length xs \<le> unat (memSize M) \<Longrightarrow>
   \<exists>a' p' M'. run_ops write_ptr xs (a, p, M) = Inr (a', p', M') \<and> arg_area T M' \<and> mem_layout M' = mem_layout M \<and>
     vbyte M' = vstore a (concat (map (le_bytes 8) (arg_ptrs p xs))) (vbyte M)"
proof (induction xs arbitrary: M a p)
  case (Cons s ss)
  have m: "unat (memSize M) \<le> 2 ^ 49" using Cons.prems(1) by (simp add: arg_area_def)
  have ua: "unat (a + 8) = unat a + 8" using unat_add_of_nat [of a 8] Cons.prems m by simp
  obtain M1 where M1: "WriteCacheLine a (le_bytes 8 p) M = Inr M1" "arg_area T M1" "mem_layout M1 = mem_layout M"
    "vbyte M1 = vstore a (le_bytes 8 p) (vbyte M)"
    using arg_write [OF Cons.prems(1,2), of "le_bytes 8 p"] Cons.prems(3) by auto
  have ly: "stacktop M1 = stacktop M" "memSize M1 = memSize M" using M1(3) by (simp_all add: mem_layout_def)
  let ?p = "p + of_nat (length s + 1)"
  have "\<exists>a' p' M'. run_ops write_ptr ss (a + 8, ?p, M1) = Inr (a', p', M') \<and> arg_area T M' \<and>
      mem_layout M' = mem_layout M1 \<and>
      vbyte M' = vstore (a + 8) (concat (map (le_bytes 8) (arg_ptrs ?p ss))) (vbyte M1)"
    by (rule Cons.IH [OF M1(2)]) (use ua ly Cons.prems in simp_all)
  then obtain a' p' M' where M': "run_ops write_ptr ss (a + 8, ?p, M1) = Inr (a', p', M')" "arg_area T M'"
    "mem_layout M' = mem_layout M1"
    "vbyte M' = vstore (a + 8) (concat (map (le_bytes 8) (arg_ptrs ?p ss))) (vbyte M1)" by blast
  have "length (concat (map (le_bytes 8) (arg_ptrs ?p ss))) = 8 * length ss"
  proof -
    have "length (concat (map (le_bytes 8) (arg_ptrs q ss))) = 8 * length ss" for q
      by (induction ss arbitrary: q) simp_all
    then show ?thesis .
  qed
  then have "vstore (a + of_nat (length (le_bytes 8 p))) (concat (map (le_bytes 8) (arg_ptrs ?p ss)))
      (vstore a (le_bytes 8 p) (vbyte M)) =
      vstore a (le_bytes 8 p @ concat (map (le_bytes 8) (arg_ptrs ?p ss))) (vbyte M)"
    using Cons.prems m by (intro vstore_append) simp
  moreover have "write_ptr s (a, p, M) = Inr (a + 8, ?p, M1)" using M1(1) by (simp add: write_ptr_def)
  ultimately show ?case using M1(3,4) M' by simp
qed auto

text \<open>The pieces of the blocks.\<close>

lemma length_arg_ptrs [simp]: "length (arg_ptrs p xs) = length xs"
  by (induction xs arbitrary: p) simp_all

lemma length_ptr_block [simp]: "length (concat (map (le_bytes 8) ps)) = 8 * length ps"
  by (induction ps) simp_all

lemma arg_block_nth:
  "i < length argv \<Longrightarrow>
   take (length (argv ! i) + 1) (drop (length (arg_block (take i argv))) (arg_block argv)) = c_string (argv ! i)"
proof -
  assume i: "i < length argv"
  then have "arg_block argv = arg_block (take i argv) @ c_string (argv ! i) @ arg_block (drop (Suc i) argv)"
    by (subst id_take_nth_drop [of i argv]) simp_all
  then show ?thesis by simp
qed

lemma ptr_block_nth:
  "i < length ps \<Longrightarrow> take 8 (drop (8 * i) (concat (map (le_bytes 8) ps))) = le_bytes 8 (ps ! i)"
proof -
  assume i: "i < length ps"
  then have "concat (map (le_bytes 8) ps) =
      concat (map (le_bytes 8) (take i ps)) @ le_bytes 8 (ps ! i) @ concat (map (le_bytes 8) (drop (Suc i) ps))"
    by (subst id_take_nth_drop [of i ps]) simp_all
  moreover have "length (concat (map (le_bytes 8) (take i ps))) = 8 * i" using i by simp
  ultimately show ?thesis by simp
qed

lemma arg_ptrs_nth: "i < length xs \<Longrightarrow> arg_ptrs p xs ! i = p + of_nat (length (arg_block (take i xs)))"
proof (induction xs arbitrary: p i)
  case (Cons s ss)
  then show ?case by (cases i) (simp_all add: algebra_simps)
qed simp

lemma arg_piece_bound:
  "i < length argv \<Longrightarrow> length (arg_block (take i argv)) + (length (argv ! i) + 1) \<le> length (arg_block argv)"
  by (subst (3) id_take_nth_drop [of i argv]) simp_all

text \<open>
  What \<open>argc\<close> and \<open>argv\<close> are for a program: the count at \<open>a\<close>, the address of the array of pointers behind it, then the
  pointers, each to a terminated string.
\<close>

definition args_at :: "(u64 \<Rightarrow> u8) \<Rightarrow> u64 \<Rightarrow> string list \<Rightarrow> bool" where
  "args_at f a argv \<longleftrightarrow>
     le_word (read_bytes f a 4) = (of_nat (length argv) :: u32) \<and>
     le_word (read_bytes f (a + 4) 8) = (a + 12 :: u64) \<and>
     (\<forall>i<length argv. read_bytes f (le_word (read_bytes f (a + 12 + of_nat (8 * i)) 8)) (length (argv ! i) + 1) =
        c_string (argv ! i))"

lemma args_at_image:
  fixes a s :: u64 and argv :: "string list" and f :: "u64 \<Rightarrow> u8"
  defines "ps \<equiv> concat (map (le_bytes 8) (arg_ptrs s argv))"
  assumes fit: "unat a + 12 + 8 * length argv \<le> unat s" "unat s + length (arg_block argv) \<le> 2 ^ 49"
  defines "g \<equiv> vstore (a + 12) ps (vstore (a + 4) (le_bytes 8 (a + 12))
    (vstore s (arg_block argv) (vstore a (le_bytes 4 (of_nat (length argv) :: u32)) f)))"
  shows "args_at g a argv" and "unat v < unat a \<Longrightarrow> g v = f v"
proof -
  let ?n = "length argv"
  have ua: "unat (a + 4) = unat a + 4" "unat (a + 12) = unat a + 12"
    using unat_add_of_nat [of a 4] unat_add_of_nat [of a 12] fit by simp_all
  have ps: "length ps = 8 * ?n" by (simp add: ps_def)
  have argc: "read_bytes g a 4 = le_bytes 4 (of_nat ?n :: u32)"
    using read_bytes_inside [of 0 4 "le_bytes 4 (of_nat ?n :: u32)" a f] ua ps fit
    by (simp add: g_def read_bytes_outside)
  have base: "read_bytes g (a + 4) 8 = le_bytes 8 (a + 12)"
    using read_bytes_inside [of 0 8 "le_bytes 8 (a + 12)" "a + 4"] ua ps fit
    by (simp add: g_def read_bytes_outside)
  have ptr: "read_bytes g (a + 12 + of_nat (8 * i)) 8 = le_bytes 8 (arg_ptrs s argv ! i)" if "i < ?n" for i
    using read_bytes_inside [of "8 * i" 8 ps "a + 12"] ps fit that ptr_block_nth [of i "arg_ptrs s argv"]
    by (simp add: g_def ps_def)
  have str: "read_bytes g (arg_ptrs s argv ! i) (length (argv ! i) + 1) = c_string (argv ! i)" if i: "i < ?n" for i
  proof -
    let ?o = "length (arg_block (take i argv))" and ?k = "length (argv ! i) + 1"
    note b = arg_piece_bound [OF i]
    have us: "unat (s + of_nat ?o) = unat s + ?o" by (rule unat_add_of_nat) (use b fit in simp)
    have "read_bytes g (s + of_nat ?o) ?k =
        read_bytes (vstore s (arg_block argv) (vstore a (le_bytes 4 (of_nat ?n :: u32)) f)) (s + of_nat ?o) ?k"
      unfolding g_def using us ua ps b fit by (simp add: read_bytes_outside)
    also have "\<dots> = c_string (argv ! i)"
      using read_bytes_inside [of ?o ?k "arg_block argv" s] arg_block_nth [OF i] b fit by simp
    finally show ?thesis using arg_ptrs_nth [OF i] by simp
  qed
  show "args_at g a argv"
    unfolding args_at_def using argc base ptr str by (simp add: le_word_le_bytes_exact)
  show "unat v < unat a \<Longrightarrow> g v = f v"
    unfolding g_def using ua ps fit by (simp add: vstore_outside)
qed

lemma LoadProgramArgs_spec:
  fixes ldr M
  defines "argv \<equiv> l_argv ldr @ [l_exe ldr] @ splitStr_opts (l_args ldr) CHR '' ''"
  assumes area: "arg_area T M"
    and fit: "unat (stacktop M) + 60 + 8 * length argv + length (arg_block argv) \<le> unat (memSize M)"
    and ex: "\<not> (length (last argv) = 63 \<and> unat (memSize M) mod 64 = 0)"
  shows "\<exists>M'. LoadProgramArgs ldr M = Inr (ldr\<lparr>l_argv := argv\<rparr>, M') \<and> arg_area T M' \<and> mem_layout M' = mem_layout M \<and>
    args_at (vbyte M') (stacktop M + 48) argv \<and>
    (\<forall>v. unat v < unat (stacktop M) + 48 \<longrightarrow> vbyte M' v = vbyte M v)"
proof -
  let ?a = "stacktop M + 48" and ?n = "length argv" and ?bs = "arg_block argv"
  have m: "unat (memSize M) \<le> 2 ^ 49" using area by (simp add: arg_area_def)
  have ne: "argv \<noteq> []" by (simp add: argv_def)
  have u: "unat (stacktop M + of_nat k) = unat (stacktop M) + k" if "k \<le> 60 + 8 * ?n" for k
    by (rule unat_add_of_nat) (use that fit m in simp)
  have ua: "unat ?a = unat (stacktop M) + 48" "unat (?a + 4) = unat (stacktop M) + 52" "unat (?a + 12) = unat (stacktop M) + 60"
    using u [of 48] u [of 52] u [of 60] by (simp_all add: algebra_simps)
  let ?argc = "le_bytes 4 (of_nat ?n :: u32)"
  obtain M1 where M1: "WriteCacheLine ?a ?argc M = Inr M1" "arg_area T M1" "mem_layout M1 = mem_layout M"
    "vbyte M1 = vstore ?a ?argc (vbyte M)"
    using arg_write [OF area, of ?a ?argc] ua fit by auto
  have ly1: "stacktop M1 = stacktop M" "memSize M1 = memSize M" using M1(3) by (simp_all add: mem_layout_def)
  let ?s = "memSize M - of_nat (length ?bs)"
  have us: "unat ?s = unat (memSize M) - length ?bs"
    using fit m unat_of_nat_u64 [of "length ?bs"] by (subst unat_sub) (simp_all add: word_le_nat_alt)
  have "\<exists>M'. run_ops write_arg (rev argv) (memSize M, M1) = Inr (memSize M - of_nat (length (arg_block (rev argv))), M') \<and>
      arg_area T M' \<and> mem_layout M' = mem_layout M1 \<and>
      vbyte M' = vstore (memSize M - of_nat (length (arg_block (rev argv)))) (arg_block (rev (rev argv))) (vbyte M1)"
    by (rule write_args_spec [OF M1(2)]) (use ly1 fit ex ne in \<open>auto simp: length_arg_block_rev hd_rev\<close>)
  then obtain M2 where M2: "run_ops write_arg (rev argv) (memSize M, M1) = Inr (?s, M2)" "arg_area T M2"
    "mem_layout M2 = mem_layout M1" "vbyte M2 = vstore ?s ?bs (vbyte M1)"
    by (auto simp: length_arg_block_rev)
  have ly2: "stacktop M2 = stacktop M" "memSize M2 = memSize M" using M2(3) ly1 by (simp_all add: mem_layout_def)
  let ?base = "le_bytes 8 (?a + 4 + 8)"
  obtain M3 where M3: "WriteCacheLine (?a + 4) ?base M2 = Inr M3" "arg_area T M3" "mem_layout M3 = mem_layout M2"
    "vbyte M3 = vstore (?a + 4) ?base (vbyte M2)"
    using arg_write [OF M2(2), of "?a + 4" ?base] ua fit ly2 by auto
  have ly3: "stacktop M3 = stacktop M" "memSize M3 = memSize M" using M3(3) ly2 by (simp_all add: mem_layout_def)
  let ?ps = "concat (map (le_bytes 8) (arg_ptrs ?s argv))"
  have "\<exists>a' p' M'. run_ops write_ptr argv (?a + 12, ?s, M3) = Inr (a', p', M') \<and> arg_area T M' \<and>
      mem_layout M' = mem_layout M3 \<and> vbyte M' = vstore (?a + 12) ?ps (vbyte M3)"
    by (rule write_ptrs_spec [OF M3(2)]) (use ua ly3 fit in simp_all)
  then obtain a' p' M4 where M4: "run_ops write_ptr argv (?a + 12, ?s, M3) = Inr (a', p', M4)" "arg_area T M4"
    "mem_layout M4 = mem_layout M3" "vbyte M4 = vstore (?a + 12) ?ps (vbyte M3)" by blast
  have v4: "vbyte M4 = vstore (?a + 12) ?ps (vstore (?a + 4) ?base (vstore ?s ?bs (vstore ?a ?argc (vbyte M))))"
    by (simp add: M4(4) M3(4) M2(4) M1(4))
  have img: "args_at (vbyte M4) ?a argv" "\<forall>v. unat v < unat ?a \<longrightarrow> vbyte M4 v = vbyte M v"
    using args_at_image [where a = ?a and argv = argv and s = ?s and f = "vbyte M"] ua us fit m by (simp_all add: v4 add.assoc)
  have "LoadProgramArgs ldr M = Inr (ldr\<lparr>l_argv := argv\<rparr>, M4)"
    unfolding LoadProgramArgs_def Let_def argv_def [symmetric] using M1(1) M2(1) M3(1) M4(1) ne by simp
  then show ?thesis using img ua M4(2,3) M3(3) M2(3) M1(3) by auto
qed


section \<open>From the file to the finished memory\<close>

lemma symbol_table_lookup:
  "symbol_table img strsh syms Map.empty s =
     map_option (\<lambda>symb. ucast (st_value symb)) (find (\<lambda>symb. symbol_name img strsh symb = s) (rev syms))"
proof (induction syms rule: rev_induct)
  case (snoc x xs)
  then show ?case by (simp add: symbol_table_def)
qed (simp add: symbol_table_def)

definition seg_in_memory :: "u8 list \<Rightarrow> 'w::len Elf_Phdr \<Rightarrow> (u64 \<Rightarrow> u8) \<Rightarrow> bool" where
  "seg_in_memory img ph f \<longleftrightarrow>
     (\<forall>k<unat (p_memsz ph). f (ph_base ph + of_nat k) = (if k < unat (p_filesz ph) then img ! (unat (p_offset ph) + k) else 0))"

text \<open>
  The memory and the arguments: room for the executable, for the arguments between the program headers and the end of
  memory, and all segments below the arguments.
\<close>

definition start_ready :: "'w::len elf_layout \<Rightarrow> u8 list \<Rightarrow> string list \<Rightarrow> u64 set \<Rightarrow> RevMem \<Rightarrow> bool" where
  "start_ready L img argv T M \<longleftrightarrow>
     mem_ready L img T M \<and> 2 ^ 20 + header_size L img \<le> unat (stacktop M) \<and>
     unat (stacktop M) + 60 + 8 * length argv + length (arg_block argv) \<le> unat (memSize M) + header_size L img \<and>
     \<not> (length (last argv) = 63 \<and> unat (memSize M) mod 64 = 0) \<and>
     (\<forall>v. unat (stacktop M) + 48 \<le> unat v + header_size L img \<and> unat v < unat (memSize M) \<longrightarrow> pageNum v \<in> T) \<and>
     (\<forall>ph\<in>set (elf_phs L img). is_load ph \<longrightarrow>
        unat (p_paddr ph) + unat (p_memsz ph) + header_size L img \<le> unat (stacktop M) + 48)"

lemma load_program:
  fixes L :: "'w::len elf_layout"
  assumes w: "32 \<le> LENGTH('w)" "LENGTH('w) \<le> 64" and wf: "elf_wf L img" and rdy: "start_ready L img argv T M"
    and ldr: "symtable ldr = Map.empty" "l_argv ldr = []" and argv: "argv = l_exe ldr # splitStr_opts (l_args ldr) CHR '' ''"
  shows "\<exists>ldr1 M1 M'. load_elf L img ldr M = Inr (ldr1, M1) \<and> ldr1 = ldr\<lparr>elfinfo := elfinfo ldr1, symtable := symtable ldr1\<rparr> \<and>
    LoadProgramArgs (ldr1\<lparr>RV32Entry := x, RV64Entry := y\<rparr>) M1 =
      Inr (ldr1\<lparr>RV32Entry := x, RV64Entry := y, l_argv := argv\<rparr>, M') \<and>
    (\<forall>ph\<in>set (elf_phs L img). is_load ph \<longrightarrow> seg_in_memory img ph (vbyte M')) \<and>
    symtable ldr1 = (\<lambda>s. map_option (\<lambda>symb. ucast (st_value symb))
      (find (\<lambda>symb. symbol_name img (elf_strtab L img) symb = s) (rev (elf_syms L img)))) \<and>
    stacktop M' = stacktop M - of_nat (header_size L img) \<and> args_at (vbyte M') (stacktop M' + 48) argv \<and>
    heapstart M' = data_end (elf_ends L img) + 1 \<and> heapend M' = heapstart M' \<and> vm_inv M'"
proof -
  have mr: "mem_ready L img T M" using rdy by (simp add: start_ready_def)
  from load_elf_spec [OF w wf mr, of ldr] obtain ldr1 M1 where
    l: "load_elf L img ldr M = Inr (ldr1, M1)"
    and ldr1: "ldr1 = ldr\<lparr>elfinfo := elfinfo ldr1, symtable := symbol_table img (elf_strtab L img) (elf_syms L img) (symtable ldr)\<rparr>"
    and M1: "has_room T M1" "memSize M1 = memSize M" "stacktop M1 = stacktop M - of_nat (header_size L img)"
      "heapstart M1 = data_end (elf_ends L img) + 1" "heapend M1 = heapstart M1"
    and v1: "vbyte M1 = fold (seg_store img) (elf_phs L img)
      (vstore (stacktop M - of_nat (header_size L img)) (elf_headers L img) (vbyte M))" by blast
  have us: "unat (stacktop M1) = unat (stacktop M) - header_size L img"
    using header_write(2) [OF mr, of M] M1(3) by simp
  have area: "arg_area T M1"
    using M1 us rdy by (auto simp: arg_area_def start_ready_def mem_ready_def)
  let ?ldr = "ldr1\<lparr>RV32Entry := x, RV64Entry := y\<rparr>"
  have av: "l_argv ?ldr @ [l_exe ?ldr] @ splitStr_opts (l_args ?ldr) CHR '' '' = argv"
    using ldr argv by (subst (1 2 3) ldr1) simp
  have fit: "unat (stacktop M1) + 60 + 8 * length argv + length (arg_block argv) \<le> unat (memSize M1)"
    and ex: "\<not> (length (last argv) = 63 \<and> unat (memSize M1) mod 64 = 0)"
    using rdy us M1(2) by (auto simp: start_ready_def)
  have "\<exists>M'. LoadProgramArgs ?ldr M1 = Inr (?ldr\<lparr>l_argv := argv\<rparr>, M') \<and> arg_area T M' \<and> mem_layout M' = mem_layout M1 \<and>
      args_at (vbyte M') (stacktop M1 + 48) argv \<and> (\<forall>v. unat v < unat (stacktop M1) + 48 \<longrightarrow> vbyte M' v = vbyte M1 v)"
    using LoadProgramArgs_spec [OF area, of ?ldr] fit ex unfolding av by simp
  then obtain M' where a: "LoadProgramArgs ?ldr M1 = Inr (?ldr\<lparr>l_argv := argv\<rparr>, M')" "arg_area T M'"
    "mem_layout M' = mem_layout M1" "args_at (vbyte M') (stacktop M1 + 48) argv"
    and below: "\<And>v. unat v < unat (stacktop M1) + 48 \<Longrightarrow> vbyte M' v = vbyte M1 v" by blast
  have "seg_in_memory img ph (vbyte M')" if ph: "ph \<in> set (elf_phs L img)" "is_load ph" for ph
    unfolding seg_in_memory_def
  proof (intro allI impI)
    fix k assume k: "k < unat (p_memsz ph)"
    have so: "\<forall>ph\<in>set (elf_phs L img). seg_ok img ph"
      and dis: "sorted_wrt (\<lambda>p q. seg_span p \<inter> seg_span q = {}) (filter is_load (elf_phs L img))"
      using wf by (simp_all add: elf_wf_def Let_def list_all_iff)
    have ub: "unat (ph_base ph) = unat (p_paddr ph)" using w by (simp add: ph_base_def unat_ucast_up)
    have "unat (ph_base ph + of_nat k) = unat (p_paddr ph) + k"
      unfolding ub [symmetric] by (rule unat_add_of_nat) (use k so ph ub in \<open>auto simp: seg_ok_def ph_ok_def\<close>)
    then have "vbyte M' (ph_base ph + of_nat k) = vbyte M1 (ph_base ph + of_nat k)"
      using rdy ph k us by (intro below) (auto simp: start_ready_def)
    then show "vbyte M' (ph_base ph + of_nat k) = (if k < unat (p_filesz ph) then img ! (unat (p_offset ph) + k) else 0)"
      using fold_seg_store_in [OF w(2) so dis ph k] v1 by simp
  qed
  moreover have "stacktop M' = stacktop M1" "heapstart M' = heapstart M1" "heapend M' = heapend M1"
    using a(3) by (simp_all add: mem_layout_def)
  moreover have "symtable ldr1 = symbol_table img (elf_strtab L img) (elf_syms L img) Map.empty"
    using ldr by (subst ldr1) simp
  then have "symtable ldr1 = (\<lambda>s. map_option (\<lambda>symb. ucast (st_value symb))
      (find (\<lambda>symb. symbol_name img (elf_strtab L img) symb = s) (rev (elf_syms L img))))"
    by (simp add: fun_eq_iff symbol_table_lookup)
  moreover have "ldr1 = ldr\<lparr>elfinfo := elfinfo ldr1, symtable := symtable ldr1\<rparr>"
    by (subst (1) ldr1, subst (2) ldr1) simp
  moreover have "vm_inv M'" using a(2) by (simp add: arg_area_def has_room_def)
  ultimately show ?thesis using l a M1 by (intro exI conjI) (assumption | simp)+
qed

end
