(* ===== verification/Rev_LoaderMain.thy ===== *)
theory Rev_LoaderMain
  imports Rev_LoaderArgs Rev_Run
begin

text \<open>
  The properties of the loader: a well-formed executable is loaded as its headers say, other files are refused, and a core
  that comes out of reset finds the entry symbol, the code and the program arguments.
\<close>

section \<open>The loader\<close>

lemma layout64_simps [simp]:
  "eh_size layout64 = 64" "ph_size layout64 = 56" "sh_struct_size layout64 = 64" "sym_size layout64 = 24"
  "eh_of layout64 = Elf64_Ehdr"
  by (simp_all add: layout64_def)

lemma LoadElf64_program:
  assumes wf: "elf_wf layout64 img" and argv: "argv = Exe # splitStr_opts Args CHR '' ''"
    and rdy: "start_ready layout64 img argv T M"
    and id: "IsRVElf64 (Elf64_Ehdr (take 64 img))" "IsRVLittle (Elf64_Ehdr (take 64 img))"
  shows "\<exists>ldr M'. new_RevLoader Exe Args (Some img) junk M = Inr (ldr, M') \<and>
    RV64Entry ldr = e_entry (elf_eh layout64 img) \<and> l_argv ldr = argv \<and>
    (\<forall>ph\<in>set (elf_phs layout64 img). is_load ph \<longrightarrow> seg_in_memory img ph (vbyte M')) \<and>
    (\<forall>s. GetSymbolAddr ldr s =
       (case find (\<lambda>symb. symbol_name img (elf_strtab layout64 img) symb = s) (rev (elf_syms layout64 img)) of
          None \<Rightarrow> 0 | Some symb \<Rightarrow> st_value symb)) \<and>
    stacktop M' = stacktop M - of_nat (header_size layout64 img) \<and> args_at (vbyte M') (stacktop M' + 48) argv \<and>
    heapstart M' = data_end (elf_ends layout64 img) + 1 \<and> heapend M' = heapstart M' \<and> vm_inv M'"
proof -
  let ?ldr = "\<lparr>l_exe = Exe, l_args = Args, RV32Entry = 0, RV64Entry = 0, elfinfo = junk, symtable = Map.empty, l_argv = []\<rparr>"
  let ?e = "e_entry (elf_eh layout64 img)"
  have len: "64 \<le> length img" using wf by (simp add: elf_wf_def Let_def)
  have "\<exists>ldr1 M1 M'. load_elf layout64 img ?ldr M = Inr (ldr1, M1) \<and>
      ldr1 = ?ldr\<lparr>elfinfo := elfinfo ldr1, symtable := symtable ldr1\<rparr> \<and>
      LoadProgramArgs (ldr1\<lparr>RV32Entry := 0, RV64Entry := ?e\<rparr>) M1 =
        Inr (ldr1\<lparr>RV32Entry := 0, RV64Entry := ?e, l_argv := argv\<rparr>, M') \<and>
      (\<forall>ph\<in>set (elf_phs layout64 img). is_load ph \<longrightarrow> seg_in_memory img ph (vbyte M')) \<and>
      symtable ldr1 = (\<lambda>s. map_option (\<lambda>symb. ucast (st_value symb))
        (find (\<lambda>symb. symbol_name img (elf_strtab layout64 img) symb = s) (rev (elf_syms layout64 img)))) \<and>
      stacktop M' = stacktop M - of_nat (header_size layout64 img) \<and> args_at (vbyte M') (stacktop M' + 48) argv \<and>
      heapstart M' = data_end (elf_ends layout64 img) + 1 \<and> heapend M' = heapstart M' \<and> vm_inv M'"
    by (rule load_program [OF _ _ wf rdy]) (simp_all add: argv)
  then obtain ldr1 M1 M' where
    l: "load_elf layout64 img ?ldr M = Inr (ldr1, M1)" and ldr1: "ldr1 = ?ldr\<lparr>elfinfo := elfinfo ldr1, symtable := symtable ldr1\<rparr>"
    and a: "LoadProgramArgs (ldr1\<lparr>RV32Entry := 0, RV64Entry := ?e\<rparr>) M1 =
        Inr (ldr1\<lparr>RV32Entry := 0, RV64Entry := ?e, l_argv := argv\<rparr>, M')"
    and sy: "symtable ldr1 = (\<lambda>s. map_option (\<lambda>symb. ucast (st_value symb))
        (find (\<lambda>symb. symbol_name img (elf_strtab layout64 img) symb = s) (rev (elf_syms layout64 img))))"
    and r: "\<forall>ph\<in>set (elf_phs layout64 img). is_load ph \<longrightarrow> seg_in_memory img ph (vbyte M')"
      "stacktop M' = stacktop M - of_nat (header_size layout64 img)" "args_at (vbyte M') (stacktop M' + 48) argv"
      "heapstart M' = data_end (elf_ends layout64 img) + 1" "heapend M' = heapstart M'" "vm_inv M'" by blast
  have "RV32Entry ldr1 = 0" by (subst ldr1) simp
  then have z: "ldr1\<lparr>RV32Entry := 0\<rparr> = ldr1" by simp
  have "\<not> IsRVElf32 (Elf64_Ehdr (take 64 img))" using id(1) by (simp add: IsRVElf64_def IsRVElf32_def)
  then have "new_RevLoader Exe Args (Some img) junk M = Inr (ldr1\<lparr>RV64Entry := ?e, l_argv := argv\<rparr>, M')"
    using l a len id unfolding z by (auto simp: new_RevLoader_def LoadElf_def Let_def LoadElf64_def elf_eh_def)
  then show ?thesis using r sy by (auto simp: GetSymbolAddr_def split: option.split)
qed

lemma LoadElf32_program:
  assumes wf: "elf_wf layout32 img" and rdy: "start_ready layout32 img argv T M"
    and ldr: "symtable ldr = Map.empty" "l_argv ldr = []" and argv: "argv = l_exe ldr # splitStr_opts (l_args ldr) CHR '' ''"
  shows "\<exists>ldr1 M1 ldr2 M'. LoadElf32 img ldr M = Inr (ldr1, M1) \<and> LoadProgramArgs ldr1 M1 = Inr (ldr2, M') \<and>
    RV32Entry ldr2 = e_entry (elf_eh layout32 img) \<and>
    (\<forall>ph\<in>set (elf_phs layout32 img). is_load ph \<longrightarrow> seg_in_memory img ph (vbyte M')) \<and>
    args_at (vbyte M') (stacktop M' + 48) argv"
proof -
  let ?e = "e_entry (elf_eh layout32 img)"
  from load_program [OF _ _ wf rdy ldr argv, where x = ?e and y = "RV64Entry ldr"] obtain ldr1 M1 M' where
    l: "load_elf layout32 img ldr M = Inr (ldr1, M1)" and ldr1: "ldr1 = ldr\<lparr>elfinfo := elfinfo ldr1, symtable := symtable ldr1\<rparr>"
    and a: "LoadProgramArgs (ldr1\<lparr>RV32Entry := ?e, RV64Entry := RV64Entry ldr\<rparr>) M1 =
        Inr (ldr1\<lparr>RV32Entry := ?e, RV64Entry := RV64Entry ldr, l_argv := argv\<rparr>, M')"
    and r: "\<forall>ph\<in>set (elf_phs layout32 img). is_load ph \<longrightarrow> seg_in_memory img ph (vbyte M')"
      "args_at (vbyte M') (stacktop M' + 48) argv" by auto
  have "RV64Entry ldr1 = RV64Entry ldr" by (subst ldr1) simp
  then have "LoadElf32 img ldr M = Inr (ldr1\<lparr>RV32Entry := ?e, RV64Entry := RV64Entry ldr\<rparr>, M1)"
    using l by (simp add: LoadElf32_def elf_eh_def layout32_def)
  then show ?thesis using a r by auto
qed


text \<open>The identification of a file by its first six bytes.\<close>

lemma ident_nth: "i < 16 \<Longrightarrow> 64 \<le> length img \<Longrightarrow> e_ident (Elf64_Ehdr (take 64 img)) ! i = img ! i"
  by (simp add: Elf64_Ehdr_def)

lemma take4_nth: "64 \<le> length img \<Longrightarrow> take 4 img = [img ! 0, img ! 1, img ! 2, img ! 3]"
  by (intro nth_equalityI) (auto simp: less_Suc_eq numeral_eq_Suc)

lemma ident_class:
  assumes "64 \<le> length img"
  shows "IsRVElf32 (Elf64_Ehdr (take 64 img)) \<or> IsRVElf64 (Elf64_Ehdr (take 64 img)) \<longleftrightarrow>
    take 4 img = [0x7F, 0x45, 0x4C, 0x46] \<and> img ! 4 \<in> {1, 2}"
  using assms by (auto simp: IsRVElf32_def IsRVElf64_def IsElf_def of_char_def take4_nth ident_nth)

lemma ident_little:
  "64 \<le> length img \<Longrightarrow> take 4 img = [0x7F, 0x45, 0x4C, 0x46] \<Longrightarrow>
   IsRVLittle (Elf64_Ehdr (take 64 img)) \<longleftrightarrow> img ! 5 = 1"
  by (simp add: IsRVLittle_def IsElf_def of_char_def take4_nth ident_nth)


section \<open>A small executable\<close>

text \<open>
  A program of two instructions with the symbol \<open>main\<close>: file header, one program header, the code, the names of the
  sections, the string and symbol tables, and six section headers; the segment ends in a \<open>.bss\<close> section of 8 bytes.
\<close>

definition demo_elf :: "u8 list" where
  "demo_elf = [127, 69, 76, 70, 2, 1, 1, 0, 0, 0, 0, 0, 0, 0, 0, 0, 2, 0, 243, 0, 1, 0, 0, 0, 0, 0, 1, 0, 0, 0, 0,
     0, 64, 0, 0, 0, 0, 0, 0, 0, 220, 0, 0, 0, 0, 0, 0, 0, 0, 0, 0, 0, 64, 0, 56, 0, 1, 0, 64, 0, 6, 0, 4, 0, 1, 0,
     0, 0, 5, 0, 0, 0, 120, 0, 0, 0, 0, 0, 0, 0, 0, 0, 1, 0, 0, 0, 0, 0, 0, 0, 1, 0, 0, 0, 0, 0, 8, 0, 0, 0, 0, 0,
     0, 0, 16, 0, 0, 0, 0, 0, 0, 0, 0, 16, 0, 0, 0, 0, 0, 0, 19, 5, 0, 0, 103, 128, 0, 0, 0, 46, 116, 101, 120, 116,
     0, 46, 115, 104, 115, 116, 114, 116, 97, 98, 0, 46, 115, 121, 109, 116, 97, 98, 0, 46, 115, 116, 114, 116, 97,
     98, 0, 46, 98, 115, 115, 0, 0, 109, 97, 105, 110, 0, 0, 0, 0, 0, 0, 0, 0, 0, 0, 0, 0, 0, 0, 0, 0, 0, 0, 0, 0,
     0, 0, 0, 0, 0, 1, 0, 0, 0, 18, 0, 1, 0, 0, 0, 1, 0, 0, 0, 0, 0, 8, 0, 0, 0, 0, 0, 0, 0, 0, 0, 0, 0, 0, 0, 0, 0,
     0, 0, 0, 0, 0, 0, 0, 0, 0, 0, 0, 0, 0, 0, 0, 0, 0, 0, 0, 0, 0, 0, 0, 0, 0, 0, 0, 0, 0, 0, 0, 0, 0, 0, 0, 0, 0,
     0, 0, 0, 0, 0, 0, 0, 0, 0, 0, 0, 0, 0, 0, 0, 0, 0, 0, 0, 1, 0, 0, 0, 1, 0, 0, 0, 0, 0, 0, 0, 0, 0, 0, 0, 0, 0,
     1, 0, 0, 0, 0, 0, 120, 0, 0, 0, 0, 0, 0, 0, 8, 0, 0, 0, 0, 0, 0, 0, 0, 0, 0, 0, 0, 0, 0, 0, 0, 0, 0, 0, 0, 0,
     0, 0, 0, 0, 0, 0, 0, 0, 0, 0, 17, 0, 0, 0, 2, 0, 0, 0, 0, 0, 0, 0, 0, 0, 0, 0, 0, 0, 0, 0, 0, 0, 0, 0, 172, 0,
     0, 0, 0, 0, 0, 0, 48, 0, 0, 0, 0, 0, 0, 0, 0, 0, 0, 0, 0, 0, 0, 0, 0, 0, 0, 0, 0, 0, 0, 0, 0, 0, 0, 0, 0, 0, 0,
     0, 25, 0, 0, 0, 3, 0, 0, 0, 0, 0, 0, 0, 0, 0, 0, 0, 0, 0, 0, 0, 0, 0, 0, 0, 166, 0, 0, 0, 0, 0, 0, 0, 6, 0, 0,
     0, 0, 0, 0, 0, 0, 0, 0, 0, 0, 0, 0, 0, 0, 0, 0, 0, 0, 0, 0, 0, 0, 0, 0, 0, 0, 0, 0, 0, 7, 0, 0, 0, 3, 0, 0, 0,
     0, 0, 0, 0, 0, 0, 0, 0, 0, 0, 0, 0, 0, 0, 0, 0, 128, 0, 0, 0, 0, 0, 0, 0, 38, 0, 0, 0, 0, 0, 0, 0, 0, 0, 0, 0,
     0, 0, 0, 0, 0, 0, 0, 0, 0, 0, 0, 0, 0, 0, 0, 0, 0, 0, 0, 0, 33, 0, 0, 0, 8, 0, 0, 0, 0, 0, 0, 0, 0, 0, 0, 0, 8,
     0, 1, 0, 0, 0, 0, 0, 128, 0, 0, 0, 0, 0, 0, 0, 8, 0, 0, 0, 0, 0, 0, 0, 0, 0, 0, 0, 0, 0, 0, 0, 0, 0, 0, 0, 0,
     0, 0, 0, 0, 0, 0, 0, 0, 0, 0, 0]"

lemma demo_len: "length demo_elf = 604" by code_simp

lemma demo_eh: "elf_eh layout64 demo_elf = \<lparr>e_ident = [127, 69, 76, 70, 2, 1, 1, 0, 0, 0, 0, 0, 0, 0, 0, 0], e_type = 2,
    e_machine = 243, e_version = 1, e_entry = 0x10000, e_phoff = 64, e_shoff = 220, e_flags = 0, e_ehsize = 64,
    e_phentsize = 56, e_phnum = 1, e_shentsize = 64, e_shnum = 6, e_shstrndx = 4\<rparr>"
  by code_simp

lemma demo_phs: "elf_phs layout64 demo_elf = [\<lparr>p_type = 1, p_flags = 5, p_offset = 120, p_vaddr = 0x10000, p_paddr = 0x10000,
    p_filesz = 8, p_memsz = 16, p_align = 4096\<rparr>]"
  unfolding elf_phs_def demo_eh by code_simp

definition demo_sh :: "u32 \<Rightarrow> u32 \<Rightarrow> u64 \<Rightarrow> u64 \<Rightarrow> u64 \<Rightarrow> 64 Elf_Shdr" where
  "demo_sh nm ty a off n = \<lparr>sh_name = nm, sh_type = ty, sh_flags = 0, sh_addr = a, sh_offset = off, sh_size = n, sh_link = 0,
     sh_info = 0, sh_addralign = 0, sh_entsize = 0\<rparr>"

lemma demo_shs: "elf_shs layout64 demo_elf =
    [demo_sh 0 0 0 0 0, demo_sh 1 1 0x10000 120 8, demo_sh 17 2 0 172 48, demo_sh 25 3 0 166 6,
     demo_sh 7 3 0 128 38, demo_sh 33 8 0x10008 128 8]"
  unfolding elf_shs_def demo_eh by code_simp

lemma demo_names: "elf_names layout64 demo_elf = 128" "elf_strsh layout64 demo_elf = demo_sh 7 3 0 128 38"
  by (simp_all add: elf_names_def elf_strsh_def demo_shs demo_eh demo_sh_def)

lemma demo_strings:
  "string_at demo_elf 128 = []" "string_at demo_elf 129 = ''.text''" "string_at demo_elf 135 = ''.shstrtab''"
  "string_at demo_elf 145 = ''.symtab''" "string_at demo_elf 153 = ''.strtab''" "string_at demo_elf 161 = ''.bss''"
  "string_at demo_elf 166 = []" "string_at demo_elf 167 = ''main''"
  by code_simp+

lemma demo_named: "named demo_elf 128" "named demo_elf 129" "named demo_elf 135" "named demo_elf 145" "named demo_elf 153"
  "named demo_elf 161"
  by code_simp+

lemmas demo_section = demo_shs demo_names demo_strings demo_named demo_sh_def section_name_def

lemma demo_index: "elf_index layout64 demo_elf ''.strtab'' = 3" "elf_index layout64 demo_elf ''.symtab'' = 2"
  by (simp_all add: elf_index_def section_index_def demo_section kept_def upt_rec)

lemma demo_ends: "elf_ends layout64 demo_elf = (0x10010, 0x10008, 0)"
  by (simp add: elf_ends_def section_end_def demo_section)

lemma demo_strtab: "elf_strtab layout64 demo_elf = demo_sh 25 3 0 166 6"
  by (simp add: elf_strtab_def demo_index demo_shs)

lemma demo_syms: "elf_syms layout64 demo_elf =
    [\<lparr>st_name = 0, st_value = 0, st_size = 0, st_info = 0, st_other = 0, st_shndx = 0\<rparr>,
     \<lparr>st_name = 1, st_value = 0x10000, st_size = 8, st_info = 18, st_other = 0, st_shndx = 1\<rparr>]"
  unfolding elf_syms_def demo_index demo_shs demo_sh_def by code_simp

lemma demo_wf: "elf_wf layout64 demo_elf"
  by (simp add: elf_wf_def Let_def demo_eh demo_phs demo_section demo_ends demo_strtab demo_syms demo_len
      seg_ok_def ph_ok_def is_load_def load_ok_def line_tail_def section_named_def kept_def sec_ok_def
      sym_ok_def symbol_name_def)

definition demo_ram :: RevMem where
  "demo_ram = new_RevMem 0x1000000 4 0x1000 (\<lambda>_. 0)"

definition demo_info :: ElfInfo where
  "demo_info = \<lparr>phent = 0, phnum = 0, phdr = 0, phdr_size = 0\<rparr>"

lemma demo_ram_fields [simp]:
  "MemSegs demo_ram = []" "stacktop demo_ram = 0xFFFC00" "memSize demo_ram = 0x1000000" "PIDCount demo_ram = 1023"
  by (simp_all add: demo_ram_def new_RevMem_def)

lemma demo_ram_room: "has_room {0, 63} demo_ram"
proof -
  have "vm_inv demo_ram" unfolding demo_ram_def by (rule vm_inv_new) simp
  moreover have "pageMap demo_ram = Map.empty" "nextPage demo_ram = 0" by (simp_all add: demo_ram_def new_RevMem_def)
  ultimately show ?thesis by (simp add: has_room_def counted_def)
qed

lemma demo_page:
  assumes "0xFC0000 \<le> unat v" and "unat v < 0x1000000"
  shows "pageNum v = 63"
proof (rule unat_eqI)
  have "unat v div 262144 = 63" by (rule div_nat_eqI) (use assms in simp_all)
  then show "unat (pageNum v) = unat (63 :: u64)" by (simp add: unat_pageNum)
qed

lemma demo_start: "start_ready layout64 demo_elf [''prog'', ''x''] {0, 63} demo_ram"
proof -
  have h: "header_size layout64 demo_elf = 56" by (simp add: header_size_def demo_eh)
  have r: "rounded_size 16 4096 = 4096" by (simp add: rounded_size_def)
  have pg: "pageNum v = 0" if "65536 \<le> unat v" "unat v < 69632" for v
    by (rule unat_eqI) (use that in \<open>simp add: unat_pageNum\<close>)
  have "mem_ready layout64 demo_elf {0, 63} demo_ram"
    using demo_ram_room
    by (auto simp: mem_ready_def h demo_phs seg_list_def ph_base_def r ph_range_def block_def in_block_def pg
        intro!: demo_page)
  then show ?thesis
    by (auto simp: start_ready_def h demo_phs arg_block_def c_string_def intro!: demo_page)
qed

lemma demo_id: "IsRVElf64 (Elf64_Ehdr (take 64 demo_elf))" "IsRVLittle (Elf64_Ehdr (take 64 demo_elf))"
proof -
  have "Elf64_Ehdr (take 64 demo_elf) = elf_eh layout64 demo_elf" by (simp add: elf_eh_def)
  then show "IsRVElf64 (Elf64_Ehdr (take 64 demo_elf))" "IsRVLittle (Elf64_Ehdr (take 64 demo_elf))"
    by (simp_all add: demo_eh IsRVElf64_def IsRVLittle_def IsElf_def of_char_def)
qed

lemma demo_argv: "[''prog'', ''x''] = ''prog'' # splitStr_opts ''x'' CHR '' ''"
  by (simp add: splitStr_opts_def split_loop.simps)


section \<open>Properties\<close>





text \<open>
  C39. Files the loader refuses. A missing file, an empty file, a file shorter than the 64 bit ELF header, a file without the
  ELF magic number or of a class other than 32 and 64 bit, and a file that is not little-endian each stop the simulation with
  the fatal error of their check; so the loader only accepts files that exist, have at least 64 bytes and identify
  themselves as little-endian ELF files of a known class.
\<close>

theorem new_RevLoader_accepts:
  assumes "load = (\<lambda>file. new_RevLoader Exe Args file junk M)" and "magic = [0x7F, 0x45, 0x4C, 0x46]"
  shows "load None = Inl (Fatal_Loader ''failed to stat executable file'') \<and>
    load (Some []) = Inl (Fatal_Loader ''failed to map executable file'') \<and>
    (\<forall>img. 0 < length img \<and> length img < 64 \<longrightarrow> load (Some img) = Inl (Fatal_Loader ''Elf header is unrecognizable'')) \<and>
    (\<forall>img. 64 \<le> length img \<and> (take 4 img \<noteq> magic \<or> img ! 4 \<notin> {1, 2}) \<longrightarrow>
      load (Some img) = Inl (Fatal_Loader ''Cannot determine Elf32 or Elf64 from header'')) \<and>
    (\<forall>img. 64 \<le> length img \<and> take 4 img = magic \<and> img ! 4 \<in> {1, 2} \<and> img ! 5 \<noteq> 1 \<longrightarrow>
      load (Some img) = Inl (Fatal_Loader ''Not in little endian format'')) \<and>
    (\<forall>file r. load file = Inr r \<longrightarrow>
      (\<exists>img. file = Some img \<and> 64 \<le> length img \<and> take 4 img = magic \<and> img ! 4 \<in> {1, 2} \<and> img ! 5 = 1))"
proof (intro conjI allI impI)
  show "load None = Inl (Fatal_Loader ''failed to stat executable file'')"
    "load (Some []) = Inl (Fatal_Loader ''failed to map executable file'')"
    by (simp_all add: assms(1) new_RevLoader_def LoadElf_def)
next
  fix img :: "u8 list" assume "0 < length img \<and> length img < 64"
  then show "load (Some img) = Inl (Fatal_Loader ''Elf header is unrecognizable'')"
    by (auto simp: assms(1) new_RevLoader_def LoadElf_def)
next
  fix img :: "u8 list" assume "64 \<le> length img \<and> (take 4 img \<noteq> magic \<or> img ! 4 \<notin> {1, 2})"
  then show "load (Some img) = Inl (Fatal_Loader ''Cannot determine Elf32 or Elf64 from header'')"
    using ident_class [of img] by (auto simp: assms new_RevLoader_def LoadElf_def Let_def)
next
  fix img :: "u8 list" assume "64 \<le> length img \<and> take 4 img = magic \<and> img ! 4 \<in> {1, 2} \<and> img ! 5 \<noteq> 1"
  then show "load (Some img) = Inl (Fatal_Loader ''Not in little endian format'')"
    using ident_class [of img] ident_little [of img] by (auto simp: assms new_RevLoader_def LoadElf_def Let_def)
next
  fix f r assume "load f = Inr r"
  then show "\<exists>img. f = Some img \<and> 64 \<le> length img \<and> take 4 img = magic \<and> img ! 4 \<in> {1, 2} \<and> img ! 5 = 1"
    using ident_class ident_little
    by (auto simp: assms new_RevLoader_def LoadElf_def Let_def split: option.splits if_splits)
qed

theorem new_RevLoader_accepts_witness:
  "(\<exists>ldr M'. new_RevLoader ''prog'' ''x'' (Some demo_elf) demo_info demo_ram = Inr (ldr, M')) \<and>
   take 4 demo_elf = [0x7F, 0x45, 0x4C, 0x46] \<and>
   new_RevLoader ''prog'' ''x'' (Some (demo_elf[5 := 2])) demo_info demo_ram = Inl (Fatal_Loader ''Not in little endian format'')"
proof -
  have r: "take 4 demo_elf = [0x7F, 0x45, 0x4C, 0x46]" "demo_elf ! 4 = 2" by code_simp+
  obtain ldr M' where l: "new_RevLoader ''prog'' ''x'' (Some demo_elf) demo_info demo_ram = Inr (ldr, M')"
    using LoadElf64_program [OF demo_wf demo_argv demo_start demo_id, of demo_info] by blast
  have "new_RevLoader ''prog'' ''x'' (Some (demo_elf[5 := 2])) demo_info demo_ram = Inl (Fatal_Loader ''Not in little endian format'')"
    using new_RevLoader_accepts [OF refl refl, of "''prog''" "''x''" demo_info demo_ram] r
    by (simp add: demo_len)
  then show ?thesis using l r by blast
qed

text \<open>
  An aligned write of exactly one cache line is followed by a write of 0 bytes at the address after it. When this address is
  not valid, as at the end of memory, the simulation stops, although all bytes of the data are in valid memory. A
  last program argument of 63 characters is such a write.
\<close>

lemma one_line_write:
  assumes "length Data = 64" and "a mod 64 = 0"
  shows "WriteCacheLine a Data M = bind_res (WriteMem 0 a Data M) (WriteMem 0 (a + 64) [])"
proof -
  have "cache_base 64 a = a" using assms(2) by (simp add: cache_base.simps)
  moreover have "line_loop (a + 64) [] = WriteMem 0 (a + 64) []"
    by (rule HOL.ext) (simp add: line_loop.simps bind_res_def split: sum.split)
  ultimately show ?thesis using assms(1) by (simp add: WriteCacheLine_def Let_def)
qed

lemma empty_write_fatal:
  assumes "TLB M a = None" and "\<not> isValidVirtAddr M a"
  shows "WriteMem h a [] M = Inl (Fatal_SegFault a)"
proof -
  obtain fs where "snd (RevokeFuture a M) = M\<lparr>FutureRes := fs\<rparr>" by (rule RevokeFuture_frame)
  moreover have "\<not> isValidVirtAddr (M\<lparr>FutureRes := fs\<rparr>) a" using assms(2) isValid_layout [of "M\<lparr>FutureRes := fs\<rparr>" M a] by simp
  ultimately show ?thesis using assms(1) by (simp add: WriteMem_def phys_span_def CalcPhysAddr_miss)
qed

end
