(* ===== verification/Rev_NIC.thy ===== *)
theory Rev_NIC
  imports Rev_Prelude
begin

text \<open>
  The network interface of a node (include/RevNIC.h, src/RevNIC.cc). The network is SST's \<open>SimpleNetwork\<close>; whether it is
  initialised, has space and accepts a request are parameters. The handler of the parent component is a
  function on its state.
\<close>

section \<open>Model\<close>

record nicEvent =
  SrcName :: string
  nic_Data :: "u8 list"

text \<open>A request of the send queue: the event and its destination; its source is always the endpoint's identifier.\<close>

record 's RevNIC =
  nic_broadcast :: bool
  nic_numDest :: nat
  nic_handler :: "(nicEvent \<Rightarrow> 's \<Rightarrow> 's) option"
  nic_sendQ :: "(nicEvent \<times> int) list"

definition new_RevNIC :: "'s RevNIC" where
  "new_RevNIC = \<lparr>nic_broadcast = False, nic_numDest = 0, nic_handler = None, nic_sendQ = []\<rparr>"

definition setMsgHandler :: "(nicEvent \<Rightarrow> 's \<Rightarrow> 's) option \<Rightarrow> 's RevNIC \<Rightarrow> 's RevNIC" where
  "setMsgHandler h N = N\<lparr>nic_handler := h\<rparr>"

text \<open>One init phase: the event that is broadcast, if any, and the endpoint after counting the events that have arrived.\<close>

definition init_nic :: "bool \<Rightarrow> string \<Rightarrow> nicEvent list \<Rightarrow> 's RevNIC \<Rightarrow> nicEvent option \<times> 's RevNIC" where
  "init_nic up name arrived N =
     (let snd_now = up \<and> \<not> nic_broadcast N;
          N1 = (if snd_now then N\<lparr>nic_broadcast := True\<rparr> else N)
      in (if snd_now then Some \<lparr>SrcName = name, nic_Data = []\<rparr> else None,
          foldl (\<lambda>N ev. N\<lparr>nic_numDest := nic_numDest N + 1\<rparr>) N1 arrived))"

definition setup_nic :: "'s RevNIC \<Rightarrow> unit res" where
  "setup_nic N =
     (if nic_handler N = None then Inl (Fatal_CPU ''RevNIC: parent has not registered a callback function'') else Inr ())"

text \<open>The network's notification: the request it hands over, if any, goes to the handler of the parent.\<close>

definition msgNotify_nic :: "(nicEvent \<times> int) option \<Rightarrow> 's RevNIC \<Rightarrow> 's \<Rightarrow> (bool \<times> 's) res" where
  "msgNotify_nic recv N s =
     (case recv of
        None \<Rightarrow> Inr (True, s)
      | Some (ev, _) \<Rightarrow>
          (case nic_handler N of None \<Rightarrow> Inl UB_NullDeref | Some h \<Rightarrow> Inr (True, h ev s)))"

definition send_nic :: "nicEvent \<Rightarrow> int \<Rightarrow> 's RevNIC \<Rightarrow> 's RevNIC" where
  "send_nic event destination N = N\<lparr>nic_sendQ := nic_sendQ N @ [(event, destination)]\<rparr>"

definition getNumDestinations :: "'s RevNIC \<Rightarrow> nat" where
  "getNumDestinations N = nic_numDest N"

fun nic_drain :: "('n \<Rightarrow> bool) \<Rightarrow> (nicEvent \<times> int \<Rightarrow> 'n \<Rightarrow> bool \<times> 'n) \<Rightarrow> (nicEvent \<times> int) list \<Rightarrow> 'n \<Rightarrow>
    (nicEvent \<times> int) list \<times> 'n" where
  "nic_drain space net_send [] n = ([], n)"
| "nic_drain space net_send (r # rs) n =
     (if space n then
        (let (ok, n1) = net_send r n in if ok then nic_drain space net_send rs n1 else (r # rs, n1))
      else (r # rs, n))"

definition clockTick_nic ::
  "('n \<Rightarrow> bool) \<Rightarrow> (nicEvent \<times> int \<Rightarrow> 'n \<Rightarrow> bool \<times> 'n) \<Rightarrow> 'n \<Rightarrow> 's RevNIC \<Rightarrow> bool \<times> 'n \<times> 's RevNIC" where
  "clockTick_nic space net_send n N =
     (let (q, n1) = nic_drain space net_send (nic_sendQ N) n in (False, n1, N\<lparr>nic_sendQ := q\<rparr>))"


section \<open>Lemmas\<close>

text \<open>
  Whatever the network does, a cycle neither loses nor reorders requests: when \<open>log\<close> is what the network has accepted,
  the accepted requests followed by those that still wait are the same before and after the cycle.
\<close>

lemma nic_drain_order:
  assumes "\<And>r n. log (snd (net_send r n)) = (if fst (net_send r n) then log n @ [r] else log n)"
    and "nic_drain space net_send q n = (q', n')"
  shows "log n' @ q' = log n @ q"
  using assms(2)
proof (induction q arbitrary: n)
  case (Cons r rs)
  obtain ok n1 where s: "net_send r n = (ok, n1)" by fastforce
  then have "log n1 = (if ok then log n @ [r] else log n)" using assms(1) [of r n] by simp
  then show ?case using Cons s by (auto split: if_splits)
qed simp

lemma clockTick_nic_order:
  assumes "\<And>r n. log (snd (net_send r n)) = (if fst (net_send r n) then log n @ [r] else log n)"
    and "clockTick_nic space net_send n N = (b, n', N')"
  shows "log n' @ nic_sendQ N' = log n @ nic_sendQ N"
  using nic_drain_order [where log = log, OF assms(1), of space "nic_sendQ N" n] assms(2)
  by (auto simp: clockTick_nic_def split: prod.splits)

text \<open>The endpoint broadcasts once, in the first phase in which the network is up.\<close>

lemma foldl_numDest:
  "foldl (\<lambda>N ev. N\<lparr>nic_numDest := Suc (nic_numDest N)\<rparr>) N evs = N\<lparr>nic_numDest := nic_numDest N + length evs\<rparr>"
  by (induction evs arbitrary: N) simp_all

lemma init_nic_once:
  "init_nic True name evs N = (e, N1) \<Longrightarrow> init_nic up name' evs' N1 = (e', N2) \<Longrightarrow>
   e' = None \<and> getNumDestinations N2 = getNumDestinations N + length evs + length evs'"
  by (auto simp: init_nic_def Let_def foldl_numDest getNumDestinations_def split: if_splits)

text \<open>After \<open>setup\<close> has passed, no notification meets a missing handler.\<close>

lemma setup_nic_handler: "setup_nic N = Inr () \<Longrightarrow> \<exists>s'. msgNotify_nic recv N s = Inr (True, s')"
  by (auto simp: setup_nic_def msgNotify_nic_def split: option.splits if_splits)

end
