(* ===== verification/Spec2Isabelle.thy ===== *)
theory Spec2Isabelle
  imports Rev_Run Rev_MemCtrlRun Rev_PanMbox Rev_LoaderMain Rev_NIC
begin

text \<open>
  A verification library for Rev, the SST component that simulates RISC-V cores. The C++ sources are in
  include/ and src/ of the repository.

  \<^bold>\<open>The program.\<close> A core (\<open>RevProc\<close>) reads a machine string (\<open>RevFeature\<close>), registers the instruction
  tables of the enabled extensions (\<open>RevExt\<close>, include/insns) and indexes them by encoding. In every clock cycle
  it picks a hart, fetches a word through the prefetcher (\<open>RevPrefetcher\<close>), decodes it, checks the scoreboard,
  calls the instruction's function on the register file and the memory (\<open>RevMem\<close>), serves system calls, and
  retires the oldest instruction of the pipeline. Software threads are contexts (\<open>RevThreadCtx\<close>) of which one per
  hart is active. \<open>RevMem\<close> translates virtual addresses through a page map with a TLB, keeps segments and a heap,
  and can hand its accesses to a memory controller (\<open>RevMemCtrl\<close>), which splits them into cache lines,
  sends them to the memory hierarchy and completes them when responses arrive. \<open>RevCPU\<close> is the component around the cores:
  it reads its options (\<open>RevOpts\<close>), loads an executable into memory (\<open>RevLoader\<close>), clocks the cores, and serves the PAN network (\<open>PanNet\<close>). Other nodes send it commands
  that reserve it with a token, read and write its memory and registers, and start programs through the execution queue
  (\<open>PanExec\<close>). Its own programs send commands through an RDMA mailbox in memory.

  \<^bold>\<open>Conventions\<close> (\<open>Rev_Prelude\<close>). A C++ integer of width n is a word of length n. A function that can stop the
  simulation, throw, or run into undefined behaviour returns a result: an error value on the left (\<open>Fatal_...\<close>,
  \<open>Exit\<close>, \<open>Exc_...\<close>, \<open>UB_...\<close>), the value on the right. State is passed explicitly, as a record with the fields of the
  C++ class. Arguments of the model stand for what is outside of the sources: random numbers, functions of the host's
  C library, coprocessors, uninitialised instruction records (\<open>junk\<close>), the identifiers SST gives to requests.

  \<^bold>\<open>Theories and sources.\<close>
  \<^item> \<open>Rev_Feature\<close>: RevFeature.h, RevFeature.cc. Parsing of the machine string; it accepts exactly the strings of
    at least four characters with known letters after the fourth and yields the named extensions.
  \<^item> \<open>Rev_InstTable\<close>: RevInstTable.h, RevRF.hpp. Field macros, sign extension, register file, table entries.
  \<^item> \<open>Rev_Mem\<close>, \<open>Rev_MemRW\<close>, \<open>Rev_MemAlloc\<close>: RevMem.h, RevMem.cc without a controller. Translation is
    injective and transparent to the TLB; byte accesses implement a flat virtual memory, also across pages; the
    segment allocator moves addresses between allocated and free memory. The locale of byte memories states what the
    instructions rely on and is interpreted by these functions.
  \<^item> \<open>Rev_Exec\<close>, \<open>Rev_RV32I\<close>, \<open>Rev_RV64I\<close>, \<open>Rev_RVM\<close>, \<open>Rev_RVA\<close>: the instruction functions of include/insns for I, M, A
    (without load-reserved and store-conditional) and P. \<open>Rev_ISA\<close> and \<open>Rev_ISA_Mem\<close> hold the specification of the
    RISC-V manual, generic in the word length, and the proofs that the functions implement it.
  \<^item> \<open>Rev_Tables\<close>: RevExt, the tables and \<open>LoadInstructionTable\<close> of RevProc.cc. Every entry is dispatched to its own
    function; the index maps a key to the first entry that has it.
  \<^item> \<open>Rev_Decode\<close>, \<open>Rev_DecodeProps\<close>, \<open>Rev_EndToEnd\<close>: all decoders of RevProc.cc. They invert the encodings of the
    manual, yield fields in range, and the encoded register operations, loads, stores and branches have the effect the manual
    gives them, except for \<open>slt\<close> and \<open>srl\<close> on RV64 and \<open>lhu\<close> on RV32, which the code gets wrong.
  \<^item> \<open>Rev_Prefetcher\<close>, \<open>Rev_PanExec\<close>, \<open>Rev_ThreadCtx\<close>: fetches return the memory's words and succeed after at most
    three attempts; the execution queue is a first-in first-out queue of at most 64 entries.
  \<^item> \<open>Rev_Proc\<close>, \<open>Rev_Clock\<close>: RevProc.h, RevProc.cc. The state of a core, thread table, scoreboard, halting, reset, fault
    injection, and \<open>ClockTick\<close> stage by stage. \<open>Rev_Ecall\<close>, \<open>Rev_EcallProps\<close>: the table of system calls and its handlers.
  \<^item> \<open>Rev_BaseInsn\<close>: the integer instructions of RV64I (register, immediate and word arithmetic, \<open>lui\<close>, \<open>auipc\<close>, jumps, branches, loads
    and stores; not \<open>fence\<close>, \<open>ecall\<close> and CSR accesses), their encodings, table entries and decoded fields. \<open>Rev_Step\<close>, \<open>Rev_Run\<close>: an
    abstract machine of these instructions, and the proof that a core simulates it from the constructor on, each instruction
    within two cycles, and stops in the cycle in which the program returns to address 0. \<open>operands_ok\<close> lists the instructions
    and operands that are excluded because the code departs from the manual.
  \<^item> \<open>Rev_MemCtrl\<close>, \<open>Rev_MemCtrlProps\<close>, \<open>Rev_MemCtrlRun\<close>: RevMemCtrl.h, RevMemCtrl.cc. Requests cover exactly the
    bytes of an operation and stay in their lines; in all states reached without locked or linked accesses (whose
    counters the code gets wrong) the counters are exact and no operation in flight is released; a cycle ends without failure; responses complete reads in any order; fences hold
    later operations back; atomic operations write the modified value.
  \<^item> \<open>Rev_Opts\<close>: RevOpts.h, RevOpts.cc. Option strings are split at colons and set the values of the named cores; every
    query of an existing core is defined.
  \<^item> \<open>Rev_Loader\<close>: RevLoader.h, RevLoader.cc. The structures of ELF files, generic in the word length, the loading of segments,
    symbols and program arguments. \<open>Rev_LoaderProps\<close>: bulk writes in cache lines are flat writes, and how many pages they
    take. \<open>Rev_LoaderElf\<close>, \<open>Rev_LoaderRun\<close>: well-formed files and what loading them does to memory. \<open>Rev_LoaderArgs\<close>: the
    layout of the arguments. \<open>Rev_LoaderMain\<close>: a well-formed 64-bit file is loaded, files that are no little-endian
    ELF files are refused with the fatal error of the check, and a core starts at the start symbol with its arguments.
  \<^item> \<open>Rev_PanNet\<close>: PanNet.h, PanNet.cc. The network event with its setters and packet builders, the token of an endpoint,
    the host map, and the send queue.
  \<^item> \<open>Rev_PanCPU\<close>: RevCPU.h, RevCPU.cc. The handlers of all PAN commands, their dispatch, the send mailbox, the queue of
    remote reads, the RDMA mailbox, the test harness, fault injection, the clock and the decoding of parameters.
  \<^item> \<open>Rev_PanCPUProps\<close>, \<open>Rev_PanFlow\<close>, \<open>Rev_PanMbox\<close>: a reserved node refuses a second reservation and every command but
    \<open>SyncGet\<close> with a wrong token and is left as it was; a request gets at most one reply, addressed to its sender; a remote read after a remote
    write returns the bytes written; every queued read is answered; messages leave in the order in which they were
    queued; a put written to the mailbox becomes the message that carries its bytes; a cycle takes each valid mailbox
    entry once. The last theory also shows where the code deviates.
  \<^item> \<open>Rev_NIC\<close>: RevNIC.h, RevNIC.cc. The endpoint sends in order and loses nothing, announces itself once, and never calls a
    missing handler after \<open>setup\<close>.

  \<^bold>\<open>Fuel and bounds.\<close> \<open>tick_loop\<close> (the loop of the controller's clock cycle) has one more unit of fuel than the queue has
  entries; \<open>mc_tick_returns\<close> shows that this is enough, since every round removes an entry or ends the cycle. The
  other loops are structural or have a termination proof (\<open>cache_base\<close> steps down to address 0 at the latest). Byte
  accesses are specified for ranges of at most two pages that do not wrap around the address space; the two-page
  limit is the one of the source. A fetch takes at most three attempts because a straddling word needs at most
  two fills. The controller's operations stay in the lower half of the address space, so that no range wraps.
  The loader is specified for files whose segments fit into memory (\<open>has_room\<close> counts the pages), do not overlap, are
  in an order in which \<open>AddRoundedMemSeg\<close> loses nothing, and do not end in a single cache line of zeros (\<open>line_tail\<close>), where
  \<open>WriteCacheLine\<close> writes beyond the segment. The loops over the RDMA mailbox recurse over its 255 entries. Remote reads are specified inside one page and up to
  65535 bytes: the three-argument \<open>ReadMem\<close> which serves them is wrong across pages, and the size of the answer has 16 bits.

  \<^bold>\<open>Not modelled.\<close> Load-reserved and store-conditional keep raw pointers into the register file and read
  neighbouring storage through them. The bit sets \<open>HART_CTS\<close> and \<open>HART_CTE\<close>, static variables that all
  cores of a simulation share, are fields of a core, so the theorems on cores are about simulations with one core. The members
  \<open>heapstart\<close> and \<open>heapend\<close> of \<open>RevMem\<close>, uninitialised until \<open>InitHeap\<close>, start at 0. The branches of \<open>RevMem\<close> and \<open>RevPrefetcher\<close> that hand a request to the controller
  are not composed with its model. The floating point extensions rely on the host's IEEE arithmetic.
  SST's \<open>SimpleNetwork\<close> is a parameter of the endpoints. Of
  \<open>RevCPU\<close>, the registration with SST, the loading of subcomponents and the statistics of the cores are left out, and the
  part of \<open>processPANZeroAddr\<close> after its undefined read. \<open>RevCoProc\<close> is an example; common/ holds assembly stubs for
  target programs.
\<close>

end
